(* ===== verification/Prelude.thy ===== *)
theory Prelude
  imports Main "HOL-Library.Multiset"
begin

text \<open>
  Shared vocabulary of the development: Go's error values with their wrapping chain, the
  result type of fallible operations, byte strings with the parts of the packages strings,
  strconv and fmt that the gateway calls, JIDs and the functions of the whatsmeow library that
  the code relies on (a record of parameters), and the generic list and map lemmas that the
  component theories share.

  Strings are lists of bytes (HOL's \<open>char\<close> is a byte), which is what a Go string is. Times and
  durations are integers counting nanoseconds. Go's \<open>int\<close> is 64 bits wide; it is modelled by
  \<open>int\<close> or \<open>nat\<close> where the values are lengths and small counters, and by words in the theories
  where wrap-around matters.
\<close>

named_theorems go_simps "unfolding rules for results, errors and strings"

section \<open>Errors\<close>

text \<open>
  The identity of an error: the sentinel values that the code compares with errors.Is and the
  error types that it looks for with errors.As. Everything else is \<open>EText\<close>.
\<close>

datatype ekind =
    EText
  | ERequeue | EClosedConn
  | ENoSession | ESocketDown | EInvalidPhoneNumber | EPairingCodeExpired | EPairingTimeout
  | ESlotBusy | ENoHistoryImport
  | ERpc string
  | EIQ int
  | EFetch | EClosedPipe | EEOF
  | EDeadlineExceeded | ECanceled
  | EInvalidImageFormat | EIQTimedOut | ENotConnected | ENotLoggedIn | EAlreadyConnected
  | EGroupNotFound | ENotInGroup | EGroupInviteLinkUnauthorized
  | EPhoneNumberTooShort | EPhoneNumberIsNotInternational
  | EDisconnected | ESocketClosed
  | ESkip | EPictureNotSet | EPictureUnauthorized

text \<open>
  \<open>Err k s\<close> is a leaf error; \<open>Wrap pre e post\<close> is fmt.Errorf with one \<open>%w\<close> between two pieces of
  text; \<open>Tag k e\<close> is a struct type that wraps an error and prints as it; \<open>Join es\<close> is errors.Join.
\<close>

datatype goerr =
    Err ekind string
  | Wrap string goerr string
  | Tag ekind goerr
  | Join "goerr list"

fun err_kinds :: "goerr \<Rightarrow> ekind list" where
  "err_kinds (Err k s) = [k]"
| "err_kinds (Wrap pre e post) = err_kinds e"
| "err_kinds (Tag k e) = k # err_kinds e"
| "err_kinds (Join es) = concat (map err_kinds es)"

definition err_is :: "goerr \<Rightarrow> ekind \<Rightarrow> bool" where
  "err_is e k = (k \<in> set (err_kinds e))"

definition join_with :: "string \<Rightarrow> string list \<Rightarrow> string" where
  "join_with sep xs = (case xs of [] \<Rightarrow> [] | y # ys \<Rightarrow> y @ concat (map (\<lambda>z. sep @ z) ys))"

text \<open>An \<open>*amqp.RpcError\<close> prints as its code, a colon and its message.\<close>

fun err_msg :: "goerr \<Rightarrow> string" where
  "err_msg (Err k s) = (case k of ERpc code \<Rightarrow> code @ '': '' @ s | _ \<Rightarrow> s)"
| "err_msg (Wrap pre e post) = pre @ err_msg e @ post"
| "err_msg (Tag k e) = err_msg e"
| "err_msg (Join es) = join_with [CHR 0x0A] (map err_msg es)"

text \<open>errors.As with a target of type \<open>*amqp.RpcError\<close>: the first one in the chain.\<close>

fun rpc_of :: "goerr \<Rightarrow> (string \<times> string) option" where
  "rpc_of (Err k s) = (case k of ERpc code \<Rightarrow> Some (code, s) | _ \<Rightarrow> None)"
| "rpc_of (Wrap pre e post) = rpc_of e"
| "rpc_of (Tag k e) = rpc_of e"
| "rpc_of (Join es) =
     (case filter (\<lambda>r. r \<noteq> None) (map rpc_of es) of [] \<Rightarrow> None | r # rs \<Rightarrow> r)"

text \<open>errors.As with a target of type \<open>*whatsmeow.IQError\<close>: the code of the first one.\<close>

definition iq_of :: "goerr \<Rightarrow> int option" where
  "iq_of e = (case List.map_filter (\<lambda>k. case k of EIQ c \<Rightarrow> Some c | _ \<Rightarrow> None) (err_kinds e) of
     [] \<Rightarrow> None | c # cs \<Rightarrow> Some c)"

lemma err_is_simps [simp, go_simps]:
  "err_is (Err k s) k' = (k' = k)"
  "err_is (Wrap pre e post) k' = err_is e k'"
  "err_is (Tag k e) k' = (k' = k \<or> err_is e k')"
  "err_is (Join es) k' = (\<exists>e\<in>set es. err_is e k')"
  by (auto simp: err_is_def)

section \<open>Results\<close>

type_synonym 'a result = "goerr + 'a"

definition rbind :: "'a result \<Rightarrow> ('a \<Rightarrow> 'b result) \<Rightarrow> 'b result" where
  "rbind r f = (case r of Inl e \<Rightarrow> Inl e | Inr a \<Rightarrow> f a)"

lemma rbind_simps [simp, go_simps]:
  "rbind (Inl e) f = Inl e"
  "rbind (Inr a) f = f a"
  by (simp_all add: rbind_def)

lemma rbind_Inr_iff: "rbind r f = Inr b \<longleftrightarrow> (\<exists>a. r = Inr a \<and> f a = Inr b)"
  by (cases r) auto

definition is_ok :: "('e + 'a) \<Rightarrow> bool" where
  "is_ok r = (case r of Inl e \<Rightarrow> False | Inr a \<Rightarrow> True)"

lemma is_ok_simps [simp, go_simps]:
  "\<not> is_ok (Inl e)"
  "is_ok (Inr a)"
  by (simp_all add: is_ok_def)

section \<open>Strings\<close>

definition has_prefix :: "string \<Rightarrow> string \<Rightarrow> bool" where
  "has_prefix s p = (take (length p) s = p)"

lemma has_prefix_append [simp]: "has_prefix (p @ s) p"
  by (simp add: has_prefix_def)

definition has_suffix :: "string \<Rightarrow> string \<Rightarrow> bool" where
  "has_suffix s p = has_prefix (rev s) (rev p)"

definition trim_prefix :: "string \<Rightarrow> string \<Rightarrow> string" where
  "trim_prefix s p = (if has_prefix s p then drop (length p) s else s)"

text \<open>strings.TrimSpace: the UTF-8 encodings of the code points that unicode.IsSpace accepts.\<close>

definition space_runes :: "string list" where
  "space_runes =
     [[CHR 0x09], [CHR 0x0A], [CHR 0x0B], [CHR 0x0C], [CHR 0x0D], [CHR 0x20],
      [CHR 0xC2, CHR 0x85], [CHR 0xC2, CHR 0xA0], [CHR 0xE1, CHR 0x9A, CHR 0x80],
      [CHR 0xE2, CHR 0x80, CHR 0x80], [CHR 0xE2, CHR 0x80, CHR 0x81],
      [CHR 0xE2, CHR 0x80, CHR 0x82], [CHR 0xE2, CHR 0x80, CHR 0x83],
      [CHR 0xE2, CHR 0x80, CHR 0x84], [CHR 0xE2, CHR 0x80, CHR 0x85],
      [CHR 0xE2, CHR 0x80, CHR 0x86], [CHR 0xE2, CHR 0x80, CHR 0x87],
      [CHR 0xE2, CHR 0x80, CHR 0x88], [CHR 0xE2, CHR 0x80, CHR 0x89],
      [CHR 0xE2, CHR 0x80, CHR 0x8A], [CHR 0xE2, CHR 0x80, CHR 0xA8],
      [CHR 0xE2, CHR 0x80, CHR 0xA9], [CHR 0xE2, CHR 0x80, CHR 0xAF],
      [CHR 0xE2, CHR 0x81, CHR 0x9F], [CHR 0xE3, CHR 0x80, CHR 0x80]]"

lemma find_SomeD: "find P xs = Some x \<Longrightarrow> P x \<and> x \<in> set xs"
  by (induction xs) (auto split: if_splits)

function trim_runes :: "string list \<Rightarrow> string \<Rightarrow> string" where
  "trim_runes rs s =
     (case find (\<lambda>r. r \<noteq> [] \<and> has_prefix s r) rs of
        None \<Rightarrow> s
      | Some r \<Rightarrow> trim_runes rs (drop (length r) s))"
  by pat_completeness auto
termination
proof (relation "measure (\<lambda>(rs, s). length s)", goal_cases)
  case 1
  then show ?case by simp
next
  case (2 rs s r)
  from find_SomeD [OF 2] have "r \<noteq> []" and "s \<noteq> []" by (auto simp: has_prefix_def)
  then show ?case by (simp add: diff_less)
qed

declare trim_runes.simps [simp del]

definition trim_space :: "string \<Rightarrow> string" where
  "trim_space s = rev (trim_runes (map rev space_runes) (rev (trim_runes space_runes s)))"

definition is_digit :: "char \<Rightarrow> bool" where
  "is_digit c = (48 \<le> (of_char c :: nat) \<and> (of_char c :: nat) \<le> 57)"

definition digit_char :: "nat \<Rightarrow> char" where
  "digit_char d = char_of (48 + d)"

definition digit_val :: "char \<Rightarrow> nat" where
  "digit_val c = (of_char c :: nat) - 48"

text \<open>strconv.FormatInt in base 10.\<close>

fun show_nat :: "nat \<Rightarrow> string" where
  "show_nat n = (if n < 10 then [digit_char n] else show_nat (n div 10) @ [digit_char (n mod 10)])"

declare show_nat.simps [simp del]

definition show_int :: "int \<Rightarrow> string" where
  "show_int i = (if i < 0 then ''-'' @ show_nat (nat (- i)) else show_nat (nat i))"

definition nat_of_digits :: "string \<Rightarrow> nat" where
  "nat_of_digits s = foldl (\<lambda>n c. 10 * n + digit_val c) 0 s"

lemma is_digit_digit_char [simp]: "d < 10 \<Longrightarrow> is_digit (digit_char d)"
  by (simp add: is_digit_def digit_char_def)

lemma digit_val_digit_char [simp]: "d < 10 \<Longrightarrow> digit_val (digit_char d) = d"
  by (simp add: digit_val_def digit_char_def)

lemma show_nat_nonempty [simp]: "show_nat n \<noteq> []"
  by (subst show_nat.simps) simp

lemma show_nat_digits: "list_all is_digit (show_nat n)"
proof (induction n rule: show_nat.induct)
  case (1 n)
  then show ?case by (subst show_nat.simps) simp
qed

lemma nat_of_digits_show_nat [simp]: "nat_of_digits (show_nat n) = n"
proof (induction n rule: show_nat.induct)
  case (1 n)
  then show ?case by (subst show_nat.simps) (auto simp: nat_of_digits_def)
qed

lemma show_nat_inj [simp]: "show_nat m = show_nat n \<longleftrightarrow> m = n"
  by (metis nat_of_digits_show_nat)

text \<open>
  The verb \<open>%q\<close> of fmt on a string: quotes and backslashes are escaped, the control characters
  that Go names are written with their letter and the others as two hexadecimal digits; bytes
  above 0x7F are kept (they are, in the strings the gateway handles, parts of printable runes).
\<close>

definition hex_digit :: "nat \<Rightarrow> char" where
  "hex_digit d = (if d < 10 then digit_char d else char_of (87 + d))"

definition hex_byte :: "char \<Rightarrow> string" where
  "hex_byte c = [hex_digit ((of_char c :: nat) div 16), hex_digit ((of_char c :: nat) mod 16)]"

definition quote_char :: "char \<Rightarrow> string" where
  "quote_char c =
     (if c = CHR 0x22 \<or> c = CHR 0x5C then [CHR 0x5C, c]
      else if c = CHR 0x07 then [CHR 0x5C, CHR ''a'']
      else if c = CHR 0x08 then [CHR 0x5C, CHR ''b'']
      else if c = CHR 0x0C then [CHR 0x5C, CHR ''f'']
      else if c = CHR 0x0A then [CHR 0x5C, CHR ''n'']
      else if c = CHR 0x0D then [CHR 0x5C, CHR ''r'']
      else if c = CHR 0x09 then [CHR 0x5C, CHR ''t'']
      else if c = CHR 0x0B then [CHR 0x5C, CHR ''v'']
      else if (of_char c :: nat) < 32 \<or> c = CHR 0x7F then [CHR 0x5C, CHR ''x''] @ hex_byte c
      else [c])"

definition go_quote :: "string \<Rightarrow> string" where
  "go_quote s = [CHR 0x22] @ concat (map quote_char s) @ [CHR 0x22]"

section \<open>JIDs and the whatsmeow library\<close>

text \<open>
  A JID is a user, a server and (for a linked device) an agent/device part; the server constants
  are those of whatsmeow's types package, pairwise different strings. Parsing, printing and
  dropping the device part are functions of that library, so they are parameters.
\<close>

datatype server =
    DefaultUserServer | GroupServer | HiddenUserServer | BroadcastServer | NewsletterServer
  | OtherServer string

record jid =
  jid_user :: string
  jid_server :: server
  jid_device :: nat

definition empty_jid :: jid where
  "empty_jid = \<lparr>jid_user = [], jid_server = OtherServer [], jid_device = 0\<rparr>"

record walib =
  parse_jid :: "string \<Rightarrow> jid result"
  jid_string :: "jid \<Rightarrow> string"
  to_non_ad :: "jid \<Rightarrow> jid"

section \<open>Lists and maps\<close>

lemma count_list_remove1: "count_list (remove1 x xs) y = count_list xs y - (if y = x then 1 else 0)"
  by (induction xs) (auto simp: count_list_0_iff)

lemma count_list_distinct: "distinct xs \<Longrightarrow> count_list xs x = (if x \<in> set xs then 1 else 0)"
  by (induction xs) auto

lemma filter_remove1_other: "\<not> P x \<Longrightarrow> filter P (remove1 x xs) = filter P xs"
  by (induction xs) auto

lemma filter_remove1_same: "P x \<Longrightarrow> filter P (remove1 x xs) = remove1 x (filter P xs)"
  by (induction xs) auto

lemma map_upd_eq_NoneD: "(m(k \<mapsto> v)) k' = None \<Longrightarrow> k' \<noteq> k \<and> m k' = None"
  by (auto split: if_splits)

end
