(* ===== verification/Lanes.thy ===== *)
theory Lanes
  imports Prelude
begin

text \<open>
  The per-channel lanes of internal/amqp/group_lanes.go: a map from channel to the queue of jobs
  that wait for it, and one drain goroutine per busy channel. The critical sections of \<open>run\<close>
  and \<open>drain\<close> are functions on the state; a step relation interleaves them, with the jobs that
  are executing between two critical sections kept apart. The reachable states satisfy that a
  channel has at most one goroutine and at most one executing job, and that the jobs of a channel
  start in the order in which they were accepted. The locale \<open>lane_pool\<close> is the part of this
  that the group consumer relies on.
\<close>

section \<open>State and operations\<close>

record 'j lanes =
  backlog :: int
  pending :: "string \<Rightarrow> 'j list option"
  workers :: "string list"
  running :: "(string \<times> 'j) list"

definition orDefault :: "int \<Rightarrow> int \<Rightarrow> int" where
  "orDefault value fallback = (if value \<le> 0 then fallback else value)"

definition newLanes :: "int \<Rightarrow> 'j lanes" where
  "newLanes b = \<lparr>backlog = b, pending = Map.empty, workers = [], running = []\<rparr>"

definition queued :: "'j lanes \<Rightarrow> string \<Rightarrow> 'j list" where
  "queued l k = (case pending l k of None \<Rightarrow> [] | Some q \<Rightarrow> q)"

definition lanes_run :: "string \<Rightarrow> 'j \<Rightarrow> 'j lanes \<Rightarrow> bool \<times> 'j lanes" where
  "lanes_run k j l =
     (if backlog l \<le> int (length (queued l k)) then (False, l)
      else
        let l' = l\<lparr>pending := (pending l)(k \<mapsto> queued l k @ [j])\<rparr>
        in (True, case pending l k of
                    None \<Rightarrow> l'\<lparr>workers := workers l' @ [k]\<rparr>
                  | Some q \<Rightarrow> l'))"

text \<open>
  One turn of the loop of \<open>drain\<close>: an empty queue deletes the key and ends the goroutine
  (\<open>None\<close>), otherwise the head is taken out to be executed.
\<close>

definition lanes_drain :: "string \<Rightarrow> 'j lanes \<Rightarrow> 'j option \<times> 'j lanes" where
  "lanes_drain k l =
     (case queued l k of
        [] \<Rightarrow> (None, l\<lparr>pending := (pending l)(k := None), workers := remove1 k (workers l)\<rparr>)
      | j # q \<Rightarrow> (Some j, l\<lparr>pending := (pending l)(k \<mapsto> q), running := running l @ [(k, j)]\<rparr>))"

definition lanes_finish :: "string \<Rightarrow> 'j \<Rightarrow> 'j lanes \<Rightarrow> 'j lanes" where
  "lanes_finish k j l = l\<lparr>running := remove1 (k, j) (running l)\<rparr>"

text \<open>\<open>wait\<close> returns when the wait group is at zero, i.e. no goroutine is left.\<close>

definition lanes_idle :: "'j lanes \<Rightarrow> bool" where
  "lanes_idle l = (workers l = [])"

text \<open>A goroutine of channel \<open>k\<close> stands at the head of its loop, not inside a job.\<close>

definition at_loop_head :: "string \<Rightarrow> 'j lanes \<Rightarrow> bool" where
  "at_loop_head k l = (count_list (map fst (running l)) k < count_list (workers l) k)"

section \<open>Interleavings\<close>

datatype 'j lane_event =
    Accept string 'j
  | Refuse string 'j
  | Start string 'j
  | Finish string 'j
  | Leave string

inductive lane_step :: "'j lanes \<Rightarrow> 'j lane_event \<Rightarrow> 'j lanes \<Rightarrow> bool" where
  accept: "lanes_run k j l = (True, l') \<Longrightarrow> lane_step l (Accept k j) l'"
| refuse: "lanes_run k j l = (False, l') \<Longrightarrow> lane_step l (Refuse k j) l'"
| start: "at_loop_head k l \<Longrightarrow> lanes_drain k l = (Some j, l') \<Longrightarrow> lane_step l (Start k j) l'"
| leave: "at_loop_head k l \<Longrightarrow> lanes_drain k l = (None, l') \<Longrightarrow> lane_step l (Leave k) l'"
| finish: "(k, j) \<in> set (running l) \<Longrightarrow> lane_step l (Finish k j) (lanes_finish k j l)"

inductive_simps lane_step_simps:
  "lane_step l (Accept k j) l'"
  "lane_step l (Refuse k j) l'"
  "lane_step l (Start k j) l'"
  "lane_step l (Leave k) l'"
  "lane_step l (Finish k j) l'"

inductive lane_trace :: "'j lanes \<Rightarrow> 'j lane_event list \<Rightarrow> 'j lanes \<Rightarrow> bool" where
  none: "lane_trace l [] l"
| more: "lane_trace l es l' \<Longrightarrow> lane_step l' e l'' \<Longrightarrow> lane_trace l (es @ [e]) l''"

fun accepted_by :: "string \<Rightarrow> 'j lane_event list \<Rightarrow> 'j list" where
  "accepted_by k [] = []"
| "accepted_by k (Accept k' j # es) = (if k' = k then j # accepted_by k es else accepted_by k es)"
| "accepted_by k (e # es) = accepted_by k es"

fun started_by :: "string \<Rightarrow> 'j lane_event list \<Rightarrow> 'j list" where
  "started_by k [] = []"
| "started_by k (Start k' j # es) = (if k' = k then j # started_by k es else started_by k es)"
| "started_by k (e # es) = started_by k es"

fun finished_by :: "string \<Rightarrow> 'j lane_event list \<Rightarrow> 'j list" where
  "finished_by k [] = []"
| "finished_by k (Finish k' j # es) = (if k' = k then j # finished_by k es else finished_by k es)"
| "finished_by k (e # es) = finished_by k es"

lemma accepted_by_append [simp]: "accepted_by k (es @ es') = accepted_by k es @ accepted_by k es'"
  by (induction k es rule: accepted_by.induct) auto

lemma started_by_append [simp]: "started_by k (es @ es') = started_by k es @ started_by k es'"
  by (induction k es rule: started_by.induct) auto

lemma finished_by_append [simp]: "finished_by k (es @ es') = finished_by k es @ finished_by k es'"
  by (induction k es rule: finished_by.induct) auto

section \<open>Invariants\<close>

definition executing :: "string \<Rightarrow> 'j lanes \<Rightarrow> 'j list" where
  "executing k l = map snd (filter (\<lambda>p. fst p = k) (running l))"

lemma length_executing: "length (executing k l) = count_list (map fst (running l)) k"
proof -
  have "length (filter (\<lambda>p. fst p = k) ps) = count_list (map fst ps) k" for ps :: "(string \<times> 'a) list"
    by (induction ps) auto
  then show ?thesis by (simp add: executing_def)
qed

definition lanes_wf :: "'j lanes \<Rightarrow> bool" where
  "lanes_wf l \<longleftrightarrow>
     distinct (workers l) \<and> set (workers l) = dom (pending l) \<and>
     (\<forall>k. int (length (queued l k)) \<le> max 0 (backlog l)) \<and>
     (\<forall>k. length (executing k l) \<le> count_list (workers l) k)"

lemma lanes_wf_executing: "lanes_wf l \<Longrightarrow> length (executing k l) \<le> count_list (workers l) k"
  by (simp add: lanes_wf_def)

lemma lanes_wf_one: "lanes_wf l \<Longrightarrow> length (executing k l) \<le> 1"
proof -
  assume wf: "lanes_wf l"
  then have "count_list (workers l) k \<le> 1" by (simp add: lanes_wf_def count_list_distinct)
  with lanes_wf_executing [OF wf, of k] show ?thesis by linarith
qed

lemma lanes_wf_new: "lanes_wf (newLanes b)"
  by (simp add: lanes_wf_def newLanes_def queued_def executing_def)

lemma lanes_runE:
  assumes "lanes_run k j l = (True, l')"
  shows "int (length (queued l k)) < backlog l" "backlog l' = backlog l" "running l' = running l"
    "pending l' = (pending l)(k \<mapsto> queued l k @ [j])"
    "workers l' = (if k \<in> dom (pending l) then workers l else workers l @ [k])"
  using assms by (auto simp: lanes_run_def Let_def split: if_splits option.splits)

lemma lanes_run_refused: "lanes_run k j l = (False, l') \<Longrightarrow> l' = l"
  by (auto simp: lanes_run_def Let_def split: if_splits)

lemma lanes_drain_SomeE:
  assumes "lanes_drain k l = (Some j, l')"
  shows "queued l k = j # queued l' k" "backlog l' = backlog l" "workers l' = workers l"
    "running l' = running l @ [(k, j)]" "pending l' = (pending l)(k \<mapsto> queued l' k)"
  using assms by (auto simp: lanes_drain_def queued_def split: list.splits option.splits)

lemma lanes_drain_NoneE:
  assumes "lanes_drain k l = (None, l')"
  shows "queued l k = []" "backlog l' = backlog l" "running l' = running l"
    "workers l' = remove1 k (workers l)" "pending l' = (pending l)(k := None)"
  using assms by (auto simp: lanes_drain_def split: list.splits)

lemma queued_upd: "pending l' = (pending l)(k \<mapsto> q) \<Longrightarrow> queued l' k' = (if k' = k then q else queued l k')"
  by (simp add: queued_def)

lemma executing_append [simp]:
  "executing k (l\<lparr>running := rs @ [(k', j)]\<rparr>) = executing k (l\<lparr>running := rs\<rparr>) @ (if k' = k then [j] else [])"
  by (simp add: executing_def)

lemma executing_cong: "running l' = running l \<Longrightarrow> executing k l' = executing k l"
  by (simp add: executing_def)

lemma at_loop_head_wf:
  assumes "lanes_wf l" "at_loop_head k l"
  shows "executing k l = []" "k \<in> set (workers l)"
proof -
  from assms have "count_list (workers l) k \<le> 1"
    by (simp add: lanes_wf_def count_list_distinct)
  moreover from assms have "length (executing k l) < count_list (workers l) k"
    by (simp add: at_loop_head_def length_executing)
  ultimately have "length (executing k l) = 0" "count_list (workers l) k \<noteq> 0" by linarith+
  then show "executing k l = []" "k \<in> set (workers l)"
    by (simp, metis count_list_0_iff)
qed

lemma lane_step_wf: "lane_step l e l' \<Longrightarrow> lanes_wf l \<Longrightarrow> lanes_wf l'"
proof (induction rule: lane_step.induct)
  case (accept k j l l')
  note r = lanes_runE [OF accept.hyps]
  have "executing k' l' = executing k' l" for k'
    using r(3) by (rule executing_cong)
  moreover have "queued l' k' = (if k' = k then queued l k @ [j] else queued l k')" for k'
    using r(4) by (rule queued_upd)
  moreover have "length (executing k' l) \<le> count_list (workers l') k'" for k'
  proof -
    have "length (executing k' l) \<le> count_list (workers l) k'"
      using accept.prems by (simp add: lanes_wf_def)
    also have "\<dots> \<le> count_list (workers l') k'" using r(5) by simp
    finally show ?thesis .
  qed
  ultimately show ?case
    using accept.prems r(1,2,4,5) by (auto simp: lanes_wf_def insert_absorb)
next
  case (refuse k j l l')
  then show ?case by (auto dest: lanes_run_refused)
next
  case (start k l j l')
  note d = lanes_drain_SomeE [OF start.hyps(2)]
  note h = at_loop_head_wf [OF start.prems start.hyps(1)]
  have e: "executing k' l' = executing k' l @ (if k' = k then [j] else [])" for k'
    using d(4) by (simp add: executing_def)
  have q: "queued l' k' = (if k' = k then queued l' k else queued l k')" for k'
    using d(5) by (rule queued_upd)
  have "length (executing k' l') \<le> count_list (workers l') k'" for k'
  proof (cases "k' = k")
    case True
    with start.prems h d(3) show ?thesis by (simp add: e lanes_wf_def count_list_distinct)
  next
    case False
    with lanes_wf_executing [OF start.prems, of k'] d(3) show ?thesis by (simp add: e)
  qed
  moreover have "int (length (queued l' k')) \<le> max 0 (backlog l')" for k'
  proof (cases "k' = k")
    case True
    from start.prems have "int (length (queued l k)) \<le> max 0 (backlog l)" by (simp add: lanes_wf_def)
    with d(1,2) True show ?thesis by simp
  next
    case False
    with start.prems d(2) q [of k'] show ?thesis by (simp add: lanes_wf_def)
  qed
  ultimately show ?case
    using start.prems h d(3,5) by (auto simp: lanes_wf_def)
next
  case (leave k l l')
  note d = lanes_drain_NoneE [OF leave.hyps(2)]
  note h = at_loop_head_wf [OF leave.prems leave.hyps(1)]
  have "executing k' l' = executing k' l" for k'
    using d(3) by (rule executing_cong)
  moreover have "queued l' k' = (if k' = k then [] else queued l k')" for k'
    using d(5) by (simp add: queued_def)
  moreover have "set (workers l') = dom (pending l')" "distinct (workers l')"
    using leave.prems d(4,5) by (auto simp: lanes_wf_def)
  ultimately show ?case
    using leave.prems h d(2,4) by (auto simp: lanes_wf_def count_list_remove1)
next
  case (finish k j l)
  have r1: "length (filter P (remove1 x xs)) \<le> length (filter P xs)" for P and x :: "string \<times> 'a" and xs
    by (induction xs) auto
  have "length (executing k' (lanes_finish k j l)) \<le> length (executing k' l)" for k'
    by (simp add: executing_def lanes_finish_def r1)
  then have "length (executing k' (lanes_finish k j l)) \<le> count_list (workers l) k'" for k'
    using lanes_wf_executing [OF finish.prems] order_trans by blast
  with finish.prems show ?case
    by (auto simp: lanes_wf_def lanes_finish_def queued_def)
qed

lemma lane_trace_wf: "lane_trace l es l' \<Longrightarrow> lanes_wf l \<Longrightarrow> lanes_wf l'"
  by (induction rule: lane_trace.induct) (auto intro: lane_step_wf)

text \<open>The log of a channel: what was accepted is what was started plus what still waits.\<close>

definition lane_log :: "string \<Rightarrow> 'j lanes \<Rightarrow> 'j lane_event list \<Rightarrow> 'j lanes \<Rightarrow> bool" where
  "lane_log k l es l' \<longleftrightarrow>
     queued l k @ accepted_by k es = started_by k es @ queued l' k \<and>
     executing k l @ started_by k es = finished_by k es @ executing k l' \<and>
     backlog l' = backlog l"

lemma lane_step_log: "lane_step l e l' \<Longrightarrow> lanes_wf l \<Longrightarrow> lane_log k l [e] l'"
proof (induction rule: lane_step.induct)
  case (accept k' j l l')
  note r = lanes_runE [OF accept.hyps]
  show ?case
    using queued_upd [OF r(4), of k] r(2,3) by (auto simp: lane_log_def executing_def)
next
  case (refuse k' j l l')
  then show ?case by (auto simp: lane_log_def dest: lanes_run_refused)
next
  case (start k' l j l')
  note d = lanes_drain_SomeE [OF start.hyps(2)]
  have "executing k l' = executing k l @ (if k' = k then [j] else [])"
    using d(4) by (simp add: executing_def)
  moreover have "queued l k = (if k' = k then [j] else []) @ queued l' k"
  proof (cases "k' = k")
    case True
    then show ?thesis using d(1) by (simp only: if_True simp_thms append_Cons append_Nil)
  next
    case False
    then have "k \<noteq> k'" by simp
    with fun_cong [OF d(5), of k] have "pending l' k = pending l k" by (simp only: fun_upd_apply if_False)
    with False show ?thesis by (simp add: queued_def)
  qed
  ultimately show ?case
    using d(2) by (simp add: lane_log_def)
next
  case (leave k' l l')
  note d = lanes_drain_NoneE [OF leave.hyps(2)]
  show ?case
    using d(1,2,3,5) by (auto simp: lane_log_def executing_def queued_def)
next
  case (finish k' j l)
  have "(k', j) \<in> set (filter (\<lambda>p. fst p = k') (running l))" using finish.hyps by simp
  then have "filter (\<lambda>p. fst p = k') (running l) = [(k', j)]"
    using lanes_wf_one [OF finish.prems, of k']
    by (cases "filter (\<lambda>p. fst p = k') (running l)") (auto simp: executing_def)
  then have "executing k l @ started_by k [Finish k' j] =
      finished_by k [Finish k' j] @ executing k (lanes_finish k' j l)"
    by (auto simp: executing_def lanes_finish_def filter_remove1_other filter_remove1_same)
  then show ?case by (simp add: lane_log_def lanes_finish_def queued_def)
qed

lemma lane_log_append:
  "lane_log k l es l' \<Longrightarrow> lane_log k l' es' l'' \<Longrightarrow> lane_log k l (es @ es') l''"
  unfolding lane_log_def accepted_by_append started_by_append finished_by_append
  by (metis append.assoc)

lemma lane_trace_log: "lane_trace l es l' \<Longrightarrow> lanes_wf l \<Longrightarrow> lane_log k l es l'"
proof (induction rule: lane_trace.induct)
  case (none l)
  then show ?case by (simp add: lane_log_def)
next
  case (more l es l' e l'')
  have "lanes_wf l'" using more.hyps(1) more.prems by (rule lane_trace_wf)
  with more.hyps(2) have "lane_log k l' [e] l''" by (rule lane_step_log)
  with more.IH [OF more.prems] show ?case by (rule lane_log_append)
qed

lemma lanes_wf_idle:
  assumes "lanes_wf l" "lanes_idle l"
  shows "queued l k = []" "executing k l = []"
proof -
  have "pending l k = None" using assms by (auto simp: lanes_wf_def lanes_idle_def)
  then show "queued l k = []" by (simp add: queued_def)
  show "executing k l = []"
    using lanes_wf_executing [OF assms(1), of k] assms(2) by (simp add: lanes_idle_def)
qed

section \<open>The interface of a lane pool\<close>

text \<open>
  What the group consumer relies on: submitting a job either takes it as the last one waiting
  for its key and touches no other key, or refuses it and changes nothing; and a pool with room
  takes the job.
\<close>

locale lane_pool =
  fixes submit :: "string \<Rightarrow> 'j \<Rightarrow> 'l \<Rightarrow> bool \<times> 'l"
    and waiting :: "'l \<Rightarrow> string \<Rightarrow> 'j list"
    and room :: "'l \<Rightarrow> string \<Rightarrow> bool"
  assumes submit_taken: "submit k j l = (True, l') \<Longrightarrow> waiting l' = (waiting l)(k := waiting l k @ [j])"
    and submit_refused: "submit k j l = (False, l') \<Longrightarrow> l' = l"
    and submit_room: "fst (submit k j l) = room l k"
begin

fun submit_all :: "(string \<times> 'j) list \<Rightarrow> 'l \<Rightarrow> (string \<times> 'j) list \<times> 'l" where
  "submit_all [] l = ([], l)"
| "submit_all ((k, j) # js) l =
     (case submit k j l of (b, l') \<Rightarrow>
        case submit_all js l' of (ts, l'') \<Rightarrow> (if b then (k, j) # ts else ts, l''))"

lemma submit_all_waiting:
  "submit_all js l = (ts, l') \<Longrightarrow>
   waiting l' k = waiting l k @ map snd (filter (\<lambda>p. fst p = k) ts)"
proof (induction js arbitrary: l ts)
  case Nil
  then show ?case by simp
next
  case (Cons p js)
  obtain k0 j0 where p: "p = (k0, j0)" by (cases p)
  obtain b l1 where s: "submit k0 j0 l = (b, l1)" by (cases "submit k0 j0 l")
  obtain us l2 where r: "submit_all js l1 = (us, l2)" by (cases "submit_all js l1")
  from Cons.prems p s r have eq: "l2 = l'" "ts = (if b then (k0, j0) # us else us)" by auto
  have ih: "waiting l' k = waiting l1 k @ map snd (filter (\<lambda>p. fst p = k) us)"
    using Cons.IH [of l1 us] r eq(1) by simp
  show ?case
  proof (cases b)
    case True
    with s submit_taken [of k0 j0 l l1] ih eq(2) show ?thesis by simp
  next
    case False
    with s submit_refused [of k0 j0 l l1] ih eq(2) show ?thesis by simp
  qed
qed

end

interpretation lanes: lane_pool lanes_run queued "\<lambda>l k. int (length (queued l k)) < backlog l"
proof unfold_locales
  show "lanes_run k j l = (True, l') \<Longrightarrow> queued l' = (queued l)(k := queued l k @ [j])"
    for k :: string and j :: 'a and l l'
    using queued_upd [OF lanes_runE(4)] by (fastforce simp: fun_eq_iff)
  show "lanes_run k j l = (False, l') \<Longrightarrow> l' = l" for k :: string and j :: 'a and l l'
    by (rule lanes_run_refused)
  show "fst (lanes_run k j l) = (int (length (queued l k)) < backlog l)" for k :: string and j :: 'a and l
    by (auto simp: lanes_run_def Let_def)
qed

section \<open>Properties\<close>

text \<open>
  In every interleaving of producers and drain goroutines, the jobs of a channel start in the
  order in which they were accepted and finish in that order, never two at a time, the queue
  stays within the backlog, and when \<open>wait\<close> can return every accepted job has finished.
\<close>

lemma lanes_fifo:
  assumes "lane_trace (newLanes b) es l"
  shows "accepted_by k es = started_by k es @ queued l k \<and>
    started_by k es = finished_by k es @ executing k l \<and>
    length (executing k l) \<le> 1 \<and> int (length (queued l k)) \<le> max 0 b \<and>
    (lanes_idle l \<longrightarrow> finished_by k es = accepted_by k es)"
proof -
  have wf: "lanes_wf l" using assms lanes_wf_new by (rule lane_trace_wf)
  have log: "lane_log k (newLanes b) es l" using assms lanes_wf_new by (rule lane_trace_log)
  then have eqs: "accepted_by k es = started_by k es @ queued l k"
      "started_by k es = finished_by k es @ executing k l" "backlog l = b"
    by (simp_all add: lane_log_def newLanes_def queued_def executing_def)
  moreover have "int (length (queued l k)) \<le> max 0 b"
    using wf eqs(3) by (simp add: lanes_wf_def)
  ultimately show ?thesis
    using wf lanes_wf_one [OF wf, of k] lanes_wf_idle [OF wf, of k] by auto
qed

end
