(* ===== verification/Delivery.thy ===== *)
theory Delivery
  imports Prelude
begin

text \<open>
  Deliveries and their settlement, internal/amqp/consumer.go: what the consumers of the command
  queues do with each delivery. A delivery is acknowledged, dead-lettered (a negative
  acknowledgement without requeue) or returned to the queue; the functions return the settlements
  in the order in which the code issues them. Decoding a body (encoding/json) and the handler are
  arguments.
\<close>

section \<open>Deliveries\<close>

datatype hval = HStr string | HInt64 int | HOther string

record delivery =
  d_tag :: nat
  d_headers :: "string \<Rightarrow> hval option"
  d_contentType :: string
  d_messageId :: string
  d_timestamp :: int
  d_body :: string

datatype settlement = Ack nat | Nack nat bool

fun settled_tag :: "settlement \<Rightarrow> nat" where
  "settled_tag (Ack t) = t"
| "settled_tag (Nack t b) = t"

definition settle :: "delivery \<Rightarrow> goerr option \<Rightarrow> settlement list" where
  "settle d err = (if err \<noteq> None then [Nack (d_tag d) False] else [Ack (d_tag d)])"

definition wants_requeue :: "goerr option \<Rightarrow> bool" where
  "wants_requeue err = (case err of None \<Rightarrow> False | Some e \<Rightarrow> err_is e ERequeue)"

section \<open>The serial consumer\<close>

text \<open>
  The callbacks that \<open>StartSend\<close>, \<open>StartCall\<close> and \<open>StartSettings\<close> hand to \<open>consumeSerially\<close>:
  decode the body, then call the handler with the command.
\<close>

definition handle_json ::
  "(string \<Rightarrow> 'c result) \<Rightarrow> ('c \<Rightarrow> 'w \<Rightarrow> goerr option \<times> 'w) \<Rightarrow> delivery \<Rightarrow> 'w \<Rightarrow> goerr option \<times> 'w" where
  "handle_json unmarshal handler d w =
     (case unmarshal (d_body d) of
        Inl err \<Rightarrow> (Some err, w)
      | Inr cmd \<Rightarrow> handler cmd w)"

fun consume_loop ::
  "(delivery \<Rightarrow> 'w \<Rightarrow> goerr option \<times> 'w) \<Rightarrow> delivery list \<Rightarrow> delivery list \<Rightarrow> 'w \<Rightarrow>
   settlement list \<times> delivery list \<times> 'w" where
  "consume_loop handle [] requeue w = ([], requeue, w)"
| "consume_loop handle (d # ds) requeue w =
     (case handle d w of (err, w') \<Rightarrow>
        if wants_requeue err then consume_loop handle ds (requeue @ [d]) w'
        else (case consume_loop handle ds requeue w' of (ss, rq, w'') \<Rightarrow> (settle d err @ ss, rq, w'')))"

definition consumeSerially ::
  "(delivery \<Rightarrow> 'w \<Rightarrow> goerr option \<times> 'w) \<Rightarrow> delivery list \<Rightarrow> 'w \<Rightarrow> settlement list \<times> 'w" where
  "consumeSerially handle deliveries w =
     (case consume_loop handle deliveries [] w of (ss, requeue, w') \<Rightarrow>
        (ss @ map (\<lambda>d. Nack (d_tag d) True) requeue, w'))"

section \<open>A pairing session\<close>

text \<open>
  The handler may call \<open>accept\<close> any number of times while it runs; \<open>sync.Once\<close> lets the first
  settlement through and drops the later ones.
\<close>

definition once_do :: "settlement list \<Rightarrow> settlement list \<Rightarrow> settlement list" where
  "once_do settled act = (if settled = [] then act else settled)"

fun accept_calls :: "nat \<Rightarrow> delivery \<Rightarrow> settlement list \<Rightarrow> settlement list" where
  "accept_calls 0 d settled = settled"
| "accept_calls (Suc n) d settled = accept_calls n d (once_do settled [Ack (d_tag d)])"

definition runPairSession ::
  "('c \<Rightarrow> 'w \<Rightarrow> nat \<times> goerr option \<times> 'w) \<Rightarrow> 'c \<Rightarrow> delivery \<Rightarrow> 'w \<Rightarrow> settlement list \<times> 'w" where
  "runPairSession handler cmd d w =
     (case handler cmd w of (accepts, err, w') \<Rightarrow>
        (once_do (accept_calls accepts d []) (settle d err), w'))"

text \<open>
  The loop of \<open>StartPair\<close>: a body that does not decode is dead-lettered, any other delivery gets
  a session of its own (they run concurrently; each session only settles its own delivery).
\<close>

definition pair_delivery ::
  "(string \<Rightarrow> 'c result) \<Rightarrow> ('c \<Rightarrow> 'w \<Rightarrow> nat \<times> goerr option \<times> 'w) \<Rightarrow> delivery \<Rightarrow> 'w \<Rightarrow> settlement list \<times> 'w" where
  "pair_delivery unmarshal handler d w =
     (case unmarshal (d_body d) of
        Inl err \<Rightarrow> (settle d (Some err), w)
      | Inr cmd \<Rightarrow> runPairSession handler cmd d w)"

section \<open>Failures of a consumer\<close>

text \<open>The channel of failures holds one value; a full channel or a closing consumer drops it.\<close>

record failure_report =
  closing :: bool
  failed :: "goerr option"

definition reportFailure :: "goerr \<Rightarrow> failure_report \<Rightarrow> failure_report" where
  "reportFailure err c =
     (if closing c then c else case failed c of None \<Rightarrow> c\<lparr>failed := Some err\<rparr> | Some e \<Rightarrow> c)"

definition consumer_stopped :: "string \<Rightarrow> goerr" where
  "consumer_stopped queue =
     Err EText (''amqp: '' @ queue @ '' consumer stopped: broker closed the delivery channel'')"

section \<open>Returning deliveries in order\<close>

definition requeueInOrder :: "delivery list \<Rightarrow> settlement list" where
  "requeueInOrder ds = map (\<lambda>d. Nack (d_tag d) True) (sort_key d_tag ds)"

section \<open>Lemmas\<close>

lemma settled_tag_settle [simp]: "map settled_tag (settle d err) = [d_tag d]"
  by (simp add: settle_def)

lemma mset_requeueInOrder [simp]:
  "mset (map settled_tag (requeueInOrder ds)) = mset (map d_tag ds)"
  by (simp add: requeueInOrder_def comp_def mset_map)

lemma sorted_requeueInOrder: "sorted (map settled_tag (requeueInOrder ds))"
proof -
  have "map settled_tag (requeueInOrder ds) = map d_tag (sort_key d_tag ds)"
    by (simp add: requeueInOrder_def)
  then show ?thesis by simp
qed

lemma consume_loop_tags:
  "consume_loop handle ds requeue w = (ss, rq, w') \<Longrightarrow>
   mset (map settled_tag ss) + mset (map d_tag rq) = mset (map d_tag requeue) + mset (map d_tag ds)"
proof (induction ds arbitrary: requeue w ss rq w')
  case Nil
  then show ?case by auto
next
  case (Cons d ds)
  obtain err w1 where h: "handle d w = (err, w1)" by (cases "handle d w")
  show ?case
  proof (cases "wants_requeue err")
    case True
    with Cons.prems h have "consume_loop handle ds (requeue @ [d]) w1 = (ss, rq, w')" by simp
    from Cons.IH [OF this] show ?thesis by simp
  next
    case False
    obtain ss1 rq1 w2 where r: "consume_loop handle ds requeue w1 = (ss1, rq1, w2)"
      by (cases "consume_loop handle ds requeue w1") auto
    with Cons.prems h False have "ss = settle d err @ ss1" "rq = rq1" by auto
    with Cons.IH [OF r] show ?thesis by (simp del: mset_map)
  qed
qed

text \<open>
  The serial consumer against what it promises: the errors of the handler, delivery by delivery,
  decide the settlements, those returned to the queue coming last and in order of arrival.
\<close>

fun handler_errors ::
  "(delivery \<Rightarrow> 'w \<Rightarrow> goerr option \<times> 'w) \<Rightarrow> delivery list \<Rightarrow> 'w \<Rightarrow> (delivery \<times> goerr option) list" where
  "handler_errors handle [] w = []"
| "handler_errors handle (d # ds) w =
     (case handle d w of (err, w') \<Rightarrow> (d, err) # handler_errors handle ds w')"

definition serial_contract :: "(delivery \<times> goerr option) list \<Rightarrow> settlement list" where
  "serial_contract es =
     map (\<lambda>(d, err). if err = None then Ack (d_tag d) else Nack (d_tag d) False)
       (filter (\<lambda>(d, err). \<not> wants_requeue err) es) @
     map (\<lambda>(d, err). Nack (d_tag d) True) (filter (\<lambda>(d, err). wants_requeue err) es)"

lemma consume_loop_contract:
  "consume_loop handle ds requeue w = (ss, rq, w') \<Longrightarrow>
   ss @ map (\<lambda>d. Nack (d_tag d) True) rq =
   map (\<lambda>(d, err). if err = None then Ack (d_tag d) else Nack (d_tag d) False)
     (filter (\<lambda>(d, err). \<not> wants_requeue err) (handler_errors handle ds w)) @
   map (\<lambda>d. Nack (d_tag d) True) requeue @
   map (\<lambda>(d, err). Nack (d_tag d) True)
     (filter (\<lambda>(d, err). wants_requeue err) (handler_errors handle ds w))"
proof (induction ds arbitrary: requeue w ss rq w')
  case Nil
  then show ?case by auto
next
  case (Cons d ds)
  obtain err w1 where h: "handle d w = (err, w1)" by (cases "handle d w")
  show ?case
  proof (cases "wants_requeue err")
    case True
    with Cons.prems h have "consume_loop handle ds (requeue @ [d]) w1 = (ss, rq, w')" by simp
    from Cons.IH [OF this] show ?thesis using h True by simp
  next
    case False
    obtain ss1 rq1 w2 where r: "consume_loop handle ds requeue w1 = (ss1, rq1, w2)"
      by (cases "consume_loop handle ds requeue w1") auto
    with Cons.prems h False have "ss = settle d err @ ss1" "rq = rq1" by auto
    with Cons.IH [OF r] h False show ?thesis by (simp add: settle_def)
  qed
qed

lemma once_do_nonempty: "settled \<noteq> [] \<Longrightarrow> accept_calls n d settled = settled"
  by (induction n) (auto simp: once_do_def)

lemma accept_calls_Nil: "accept_calls n d [] = (if n = 0 then [] else [Ack (d_tag d)])"
  by (cases n) (simp_all add: once_do_def once_do_nonempty)

section \<open>Properties\<close>

text \<open>
  The serial consumers (send, call, settings) settle every delivery exactly once: a nil error
  acknowledges it, an error that is not ErrRequeue dead-letters it, both in the order of arrival,
  and the deliveries whose handler returned ErrRequeue go back to the queue after all others, in
  their order of arrival.
\<close>

lemma consumeSerially_settles:
  "fst (consumeSerially handle ds w) = serial_contract (handler_errors handle ds w) \<and>
   mset (map settled_tag (fst (consumeSerially handle ds w))) = mset (map d_tag ds)"
proof -
  obtain ss rq w' where r: "consume_loop handle ds [] w = (ss, rq, w')"
    by (cases "consume_loop handle ds [] w") auto
  have "fst (consumeSerially handle ds w) = ss @ map (\<lambda>d. Nack (d_tag d) True) rq"
    by (simp add: consumeSerially_def r)
  note eq = this
  have "mset (map settled_tag (fst (consumeSerially handle ds w))) = mset (map d_tag ds)"
    using consume_loop_tags [OF r] by (simp add: eq comp_def)
  moreover have "fst (consumeSerially handle ds w) = serial_contract (handler_errors handle ds w)"
    using consume_loop_contract [OF r] by (simp add: eq serial_contract_def)
  ultimately show ?thesis by blast
qed

text \<open>
  A pairing session settles its delivery exactly once, however often the handler accepts it:
  with an acknowledgement as soon as it accepted or when it returned no error, with a dead letter
  when it failed before accepting.
\<close>

lemma runPairSession_settles_once:
  "fst (runPairSession handler cmd d w) =
     (case handler cmd w of (accepts, err, w') \<Rightarrow>
        if accepts > 0 \<or> err = None then [Ack (d_tag d)] else [Nack (d_tag d) False])"
  by (auto simp: runPairSession_def accept_calls_Nil once_do_def settle_def split: prod.splits)

end
