(* ===== verification/Overflow.thy ===== *)
theory Overflow
  imports Delivery
begin

text \<open>
  The overflow of the group queue, internal/amqp/group_overflow.go: a delivery whose channel has
  no room is numbered, held for a moment and published again at the tail of its queue, carrying
  its number and the nonce of this consumer in two headers. Per channel a \<open>channelSpill\<close> counts
  the numbers given (\<open>sp_next\<close>) and the next one that may be admitted (\<open>sp_expected\<close>). Items keep
  a pointer to their spill, which may have been dropped from the map meanwhile, so spills live in
  a store addressed by numbers.
\<close>

section \<open>Constants\<close>

abbreviation second :: int where "second \<equiv> 1000000000"
abbreviation millisecond :: int where "millisecond \<equiv> 1000000"

definition overflowSeqHeader :: string where "overflowSeqHeader = ''x-gateway-overflow''"
definition overflowNonceHeader :: string where "overflowNonceHeader = ''x-gateway-overflow-nonce''"
definition overflowHold :: int where "overflowHold = second"
definition overflowStallAfter :: int where "overflowStallAfter = 30 * second"
definition overflowRetryFirst :: int where "overflowRetryFirst = 200 * millisecond"
definition overflowRetryMax :: int where "overflowRetryMax = 5 * second"

lemma header_names_differ [simp]: "overflowSeqHeader \<noteq> overflowNonceHeader"
    "overflowNonceHeader \<noteq> overflowSeqHeader"
  by (simp_all add: overflowSeqHeader_def overflowNonceHeader_def)

section \<open>Publishing at the tail\<close>

text \<open>
  What the broker library answers to one publication: the error of the call, the result of
  waiting for the confirmation, and whether the message came back on the channel of returns
  (emptied just before).
\<close>

record tail_answer =
  ta_call :: "goerr option"
  ta_wait :: "bool result"
  ta_returned :: bool

definition errCopyReturned :: goerr where
  "errCopyReturned = Err EText ''amqp: broker returned the overflow copy as unroutable''"

fun drainReturns :: "'r list \<Rightarrow> 'r list" where
  "drainReturns [] = []"
| "drainReturns (r # rs) = drainReturns rs"

definition queueTail_publish :: "tail_answer \<Rightarrow> goerr option" where
  "queueTail_publish a =
     (case ta_call a of
        Some err \<Rightarrow> Some err
      | None \<Rightarrow>
          (case ta_wait a of
             Inl err \<Rightarrow> Some err
           | Inr acked \<Rightarrow>
               if ta_returned a then Some errCopyReturned
               else if \<not> acked then Some (Err EText ''amqp: broker refused the overflow copy'')
               else None))"

section \<open>State\<close>

record channelSpill =
  sp_next :: int
  sp_expected :: int
  sp_lastProgress :: int
  sp_unpublished :: int

record overflowItem =
  it_delivery :: delivery
  it_seq :: int
  it_at :: int
  it_spill :: nat

record overflow =
  ov_nonce :: string
  ov_hold :: int
  ov_retryFirst :: int
  ov_capacity :: nat
  ov_channels :: "string \<Rightarrow> nat option"
  ov_spills :: "nat \<Rightarrow> channelSpill"
  ov_fresh :: nat
  ov_queue :: "overflowItem list"
  ov_stop :: bool

definition blank_spill :: channelSpill where
  "blank_spill = \<lparr>sp_next = 1, sp_expected = 1, sp_lastProgress = 0, sp_unpublished = 0\<rparr>"

definition newOverflow :: "string \<Rightarrow> nat \<Rightarrow> overflow" where
  "newOverflow nonce capacity =
     \<lparr>ov_nonce = nonce, ov_hold = overflowHold, ov_retryFirst = overflowRetryFirst,
      ov_capacity = capacity, ov_channels = Map.empty, ov_spills = (\<lambda>p. blank_spill), ov_fresh = 0,
      ov_queue = [], ov_stop = False\<rparr>"

section \<open>Operations\<close>

definition copyNumber :: "overflow \<Rightarrow> delivery \<Rightarrow> int \<times> bool" where
  "copyNumber ov d =
     (let nonce = (case d_headers d overflowNonceHeader of Some (HStr s) \<Rightarrow> s | _ \<Rightarrow> [])
      in if nonce \<noteq> ov_nonce ov then (0, False)
         else (case d_headers d overflowSeqHeader of Some (HInt64 n) \<Rightarrow> (n, True) | _ \<Rightarrow> (0, False)))"

definition stalled :: "int \<Rightarrow> channelSpill \<Rightarrow> bool" where
  "stalled now s = (sp_unpublished s = 0 \<and> now - sp_lastProgress s > overflowStallAfter)"

definition admits :: "int \<Rightarrow> string \<Rightarrow> delivery \<Rightarrow> overflow \<Rightarrow> bool \<times> overflow" where
  "admits now k d ov =
     (case ov_channels ov k of
        None \<Rightarrow> (True, ov)
      | Some p \<Rightarrow>
          if stalled now (ov_spills ov p) then (True, ov\<lparr>ov_channels := (ov_channels ov)(k := None)\<rparr>)
          else (case copyNumber ov d of (seq, copied) \<Rightarrow>
                  (copied \<and> seq \<le> sp_expected (ov_spills ov p), ov)))"

definition admitted :: "int \<Rightarrow> string \<Rightarrow> delivery \<Rightarrow> overflow \<Rightarrow> overflow" where
  "admitted now k d ov =
     (case copyNumber ov d of (seq, copied) \<Rightarrow>
        (case ov_channels ov k of
           None \<Rightarrow> ov
         | Some p \<Rightarrow>
             if \<not> copied then ov
             else
               let s = (ov_spills ov p)\<lparr>sp_lastProgress := now\<rparr>
               in if seq \<noteq> sp_expected s then ov\<lparr>ov_spills := (ov_spills ov)(p := s)\<rparr>
                  else
                    let s' = s\<lparr>sp_expected := sp_expected s + 1\<rparr>;
                        ov' = ov\<lparr>ov_spills := (ov_spills ov)(p := s')\<rparr>
                    in if sp_expected s' = sp_next s' then ov'\<lparr>ov_channels := (ov_channels ov)(k := None)\<rparr>
                       else ov'))"

definition spill_for :: "int \<Rightarrow> string \<Rightarrow> bool \<Rightarrow> overflow \<Rightarrow> nat \<times> bool \<times> overflow" where
  "spill_for now k copied ov =
     (case ov_channels ov k of
        Some p \<Rightarrow> (p, copied, ov)
      | None \<Rightarrow>
          (ov_fresh ov, False,
           ov\<lparr>ov_channels := (ov_channels ov)(k \<mapsto> ov_fresh ov), ov_fresh := Suc (ov_fresh ov),
              ov_spills := (ov_spills ov)(ov_fresh ov := blank_spill\<lparr>sp_lastProgress := now\<rparr>)\<rparr>))"

text \<open>The channel of items is buffered; sending on it never blocks while it holds fewer than its capacity.\<close>

definition send :: "int \<Rightarrow> string \<Rightarrow> delivery \<Rightarrow> overflow \<Rightarrow> overflow" where
  "send now k d ov =
     (case copyNumber ov d of (seq0, copied0) \<Rightarrow>
        (case spill_for now k copied0 ov of (p, copied, ov1) \<Rightarrow>
           let s = ov_spills ov1 p;
               seq = (if copied then seq0 else sp_next s);
               s1 = (if copied then s else s\<lparr>sp_next := sp_next s + 1\<rparr>);
               s2 = s1\<lparr>sp_unpublished := sp_unpublished s1 + 1\<rparr>;
               item = \<lparr>it_delivery = d, it_seq = seq, it_at = now, it_spill = p\<rparr>
           in ov1\<lparr>ov_spills := (ov_spills ov1)(p := s2), ov_queue := ov_queue ov1 @ [item]\<rparr>))"

definition close_overflow :: "overflow \<Rightarrow> overflow" where
  "close_overflow ov = ov\<lparr>ov_stop := True\<rparr>"

definition copy_headers :: "overflow \<Rightarrow> overflowItem \<Rightarrow> string \<Rightarrow> hval option" where
  "copy_headers ov item =
     (d_headers (it_delivery item))
       (overflowSeqHeader \<mapsto> HInt64 (it_seq item), overflowNonceHeader \<mapsto> HStr (ov_nonce ov))"

text \<open>What arrives at the tail of the queue (the broker gives it a tag when it delivers it).\<close>

definition tail_copy :: "overflow \<Rightarrow> overflowItem \<Rightarrow> delivery" where
  "tail_copy ov item =
     \<lparr>d_tag = 0, d_headers = copy_headers ov item,
      d_contentType = d_contentType (it_delivery item), d_messageId = d_messageId (it_delivery item),
      d_timestamp = d_timestamp (it_delivery item), d_body = d_body (it_delivery item)\<rparr>"

section \<open>The mover\<close>

text \<open>
  The goroutine \<open>run\<close> with \<open>moveToTail\<close> inlined: it is idle, holding an item (with the wait
  before the next attempt), or done with it and about to decrease the counter. Each input is what
  the goroutine observes at the point where it blocks or branches.
\<close>

datatype mover =
    MIdle
  | MHold overflowItem
  | MTry overflowItem int
  | MCalling overflowItem int
  | MPublished overflowItem
  | MBackoff overflowItem int
  | MSettled overflowItem
  | MGone

datatype mover_in =
    Take
  | TimerFired
  | StopSeen
  | LoopCheck
  | Attempt "goerr option"
  | Confirm
  | Decrement
  | QueueClosed

definition moveToTail :: "overflow \<Rightarrow> mover \<Rightarrow> mover_in \<Rightarrow> (mover \<times> settlement list) option" where
  "moveToTail ov m i =
     (case (m, i) of
        (MHold item, StopSeen) \<Rightarrow>
          if ov_stop ov then Some (MSettled item, [Nack (d_tag (it_delivery item)) True]) else None
      | (MHold item, TimerFired) \<Rightarrow> Some (MTry item (ov_retryFirst ov), [])
      | (MTry item wait, LoopCheck) \<Rightarrow>
          if ov_stop ov then Some (MSettled item, [Nack (d_tag (it_delivery item)) True])
          else Some (MCalling item wait, [])
      | (MCalling item wait, Attempt err) \<Rightarrow>
          (case err of
             None \<Rightarrow> Some (MPublished item, [])
           | Some e \<Rightarrow>
               if err_is e EClosedConn then Some (MSettled item, [Nack (d_tag (it_delivery item)) True])
               else Some (MBackoff item wait, []))
      | (MPublished item, Confirm) \<Rightarrow> Some (MSettled item, [Ack (d_tag (it_delivery item))])
      | (MBackoff item wait, StopSeen) \<Rightarrow>
          if ov_stop ov then Some (MSettled item, [Nack (d_tag (it_delivery item)) True]) else None
      | (MBackoff item wait, TimerFired) \<Rightarrow> Some (MTry item (min (wait * 2) overflowRetryMax), [])
      | _ \<Rightarrow> None)"

definition overflow_run :: "mover \<Rightarrow> mover_in \<Rightarrow> overflow \<Rightarrow> (mover \<times> settlement list \<times> overflow) option" where
  "overflow_run m i ov =
     (case (m, i) of
        (MIdle, Take) \<Rightarrow>
          (case ov_queue ov of [] \<Rightarrow> None | item # q \<Rightarrow> Some (MHold item, [], ov\<lparr>ov_queue := q\<rparr>))
      | (MIdle, QueueClosed) \<Rightarrow> if ov_stop ov \<and> ov_queue ov = [] then Some (MGone, [], ov) else None
      | (MSettled item, Decrement) \<Rightarrow>
          let p = it_spill item; s = ov_spills ov p
          in Some (MIdle, [], ov\<lparr>ov_spills := (ov_spills ov)(p := s\<lparr>sp_unpublished := sp_unpublished s - 1\<rparr>)\<rparr>)
      | _ \<Rightarrow> (case moveToTail ov m i of None \<Rightarrow> None | Some (m', ss) \<Rightarrow> Some (m', ss, ov)))"

section \<open>Well-formed overflows\<close>

text \<open>Spills in use are allocated, and two channels never share one.\<close>

definition ov_wf :: "overflow \<Rightarrow> bool" where
  "ov_wf ov \<longleftrightarrow>
     (\<forall>k p. ov_channels ov k = Some p \<longrightarrow> p < ov_fresh ov) \<and>
     (\<forall>k k' p. ov_channels ov k = Some p \<longrightarrow> ov_channels ov k' = Some p \<longrightarrow> k' = k)"

lemma ov_wf_new: "ov_wf (newOverflow nonce capacity)"
  by (simp add: ov_wf_def newOverflow_def)

lemma ov_wf_fresh: "ov_wf ov \<Longrightarrow> ov_channels ov k \<noteq> Some (ov_fresh ov)"
  by (auto simp: ov_wf_def)

lemma ov_wf_drop: "ov_wf ov \<Longrightarrow> ov_wf (ov\<lparr>ov_channels := (ov_channels ov)(k := None)\<rparr>)"
  by (auto simp: ov_wf_def split: if_splits)

lemma ov_wf_spills [simp]: "ov_wf (ov\<lparr>ov_spills := f\<rparr>) = ov_wf ov"
  by (simp add: ov_wf_def)

lemma ov_wf_queue [simp]: "ov_wf (ov\<lparr>ov_queue := q\<rparr>) = ov_wf ov"
  by (simp add: ov_wf_def)

lemma ov_wf_admits: "ov_wf ov \<Longrightarrow> ov_wf (snd (admits now k d ov))"
  by (auto simp: admits_def ov_wf_drop split: option.splits prod.splits)

lemma ov_wf_admitted: "ov_wf ov \<Longrightarrow> ov_wf (admitted now k d ov)"
  using ov_wf_drop [of ov k]
  by (auto simp: admitted_def Let_def ov_wf_def split: option.splits prod.splits if_splits)

lemma ov_wf_spill_for:
  assumes "ov_wf ov" "spill_for now k c ov = (p, c', ov')"
  shows "ov_wf ov'"
proof (cases "ov_channels ov k")
  case None
  with assms show ?thesis
    using ov_wf_fresh [OF assms(1)] by (auto simp: spill_for_def ov_wf_def less_Suc_eq split: if_splits)
next
  case (Some q)
  with assms show ?thesis by (simp add: spill_for_def)
qed

lemma ov_wf_send: "ov_wf ov \<Longrightarrow> ov_wf (send now k d ov)"
  by (auto simp: send_def Let_def intro: ov_wf_spill_for split: prod.splits)

section \<open>The book of a channel\<close>

text \<open>
  What the numbering promises, without the store: per channel the next number that may be admitted
  and the next number to give out, or nothing when the channel is not spilling.
\<close>

definition book :: "overflow \<Rightarrow> string \<Rightarrow> (int \<times> int) option" where
  "book ov k = map_option (\<lambda>p. (sp_expected (ov_spills ov p), sp_next (ov_spills ov p))) (ov_channels ov k)"

definition channel_stalled :: "int \<Rightarrow> string \<Rightarrow> overflow \<Rightarrow> bool" where
  "channel_stalled now k ov =
     (case ov_channels ov k of None \<Rightarrow> False | Some p \<Rightarrow> stalled now (ov_spills ov p))"

fun book_admit :: "int \<times> bool \<Rightarrow> (int \<times> int) option \<Rightarrow> (int \<times> int) option" where
  "book_admit _ None = None"
| "book_admit (seq, copied) (Some (e, n)) =
     (if copied \<and> seq = e then (if e + 1 = n then None else Some (e + 1, n)) else Some (e, n))"

fun book_send :: "int \<times> bool \<Rightarrow> (int \<times> int) option \<Rightarrow> int \<times> (int \<times> int) option" where
  "book_send _ None = (1, Some (1, 2))"
| "book_send (seq, copied) (Some (e, n)) = (if copied then (seq, Some (e, n)) else (n, Some (e, n + 1)))"

fun book_allows :: "int \<times> bool \<Rightarrow> (int \<times> int) option \<Rightarrow> bool" where
  "book_allows _ None = True"
| "book_allows (seq, copied) (Some (e, n)) = (copied \<and> seq \<le> e)"

lemma admits_book:
  "\<not> channel_stalled now k ov \<Longrightarrow> admits now k d ov = (book_allows (copyNumber ov d) (book ov k), ov)"
  by (auto simp: admits_def channel_stalled_def book_def split: option.splits prod.splits)

lemma admitted_book:
  assumes "ov_wf ov"
  shows "book (admitted now k d ov) = (book ov)(k := book_admit (copyNumber ov d) (book ov k))"
proof (rule ext)
  fix k'
  obtain seq c where cn: "copyNumber ov d = (seq, c)" by (cases "copyNumber ov d")
  have inj: "ov_channels ov k = Some p \<Longrightarrow> ov_channels ov k' = Some p \<Longrightarrow> k' = k" for p
    using assms by (auto simp: ov_wf_def)
  show "book (admitted now k d ov) k' = ((book ov)(k := book_admit (copyNumber ov d) (book ov k))) k'"
  proof (cases "ov_channels ov k")
    case None
    then show ?thesis by (simp add: admitted_def book_def cn)
  next
    case (Some p)
    with inj show ?thesis
      by (cases "ov_channels ov k'") (auto simp: admitted_def book_def cn Let_def)
  qed
qed

lemma send_book:
  assumes "ov_wf ov"
  shows "book (send now k d ov) = (book ov)(k := snd (book_send (copyNumber ov d) (book ov k)))"
proof (rule ext)
  fix k'
  obtain seq c where cn: "copyNumber ov d = (seq, c)" by (cases "copyNumber ov d")
  have inj: "ov_channels ov k = Some p \<Longrightarrow> ov_channels ov k' = Some p \<Longrightarrow> k' = k" for p
    using assms by (auto simp: ov_wf_def)
  show "book (send now k d ov) k' = ((book ov)(k := snd (book_send (copyNumber ov d) (book ov k)))) k'"
  proof (cases "ov_channels ov k")
    case None
    with ov_wf_fresh [OF assms, of k'] show ?thesis
      by (cases "ov_channels ov k'") (auto simp: send_def spill_for_def book_def cn Let_def blank_spill_def)
  next
    case (Some p)
    with inj show ?thesis
      by (cases "ov_channels ov k'") (auto simp: send_def spill_for_def book_def cn Let_def)
  qed
qed

lemma send_queue:
  "\<exists>at p. ov_queue (send now k d ov) =
     ov_queue ov @ [\<lparr>it_delivery = d, it_seq = fst (book_send (copyNumber ov d) (book ov k)), it_at = at, it_spill = p\<rparr>]"
  by (cases "copyNumber ov d"; cases "ov_channels ov k")
     (auto simp: send_def spill_for_def book_def Let_def blank_spill_def)

lemma ov_nonce_admits [simp]: "ov_nonce (snd (admits now k d ov)) = ov_nonce ov"
  by (auto simp: admits_def split: option.splits prod.splits)

lemma ov_nonce_admitted [simp]: "ov_nonce (admitted now k d ov) = ov_nonce ov"
  by (auto simp: admitted_def Let_def split: option.splits prod.splits)

lemma ov_nonce_send [simp]: "ov_nonce (send now k d ov) = ov_nonce ov"
  by (auto simp: send_def spill_for_def Let_def split: option.splits prod.splits)

lemma ov_queue_admits [simp]: "ov_queue (snd (admits now k d ov)) = ov_queue ov"
  by (auto simp: admits_def split: option.splits prod.splits)

lemma ov_queue_admitted [simp]: "ov_queue (admitted now k d ov) = ov_queue ov"
  by (auto simp: admitted_def Let_def split: option.splits prod.splits)

lemma copyNumber_nonce: "ov_nonce ov' = ov_nonce ov \<Longrightarrow> copyNumber ov' d = copyNumber ov d"
  by (simp add: copyNumber_def)

lemma copyNumber_tail_copy: "ov_nonce ov' = ov_nonce ov \<Longrightarrow> copyNumber ov' (tail_copy ov item) = (it_seq item, True)"
  by (simp add: copyNumber_def tail_copy_def copy_headers_def)

section \<open>The counter of unpublished items\<close>

fun mover_items :: "mover \<Rightarrow> overflowItem list" where
  "mover_items MIdle = []"
| "mover_items (MHold i) = [i]"
| "mover_items (MTry i w) = [i]"
| "mover_items (MCalling i w) = [i]"
| "mover_items (MPublished i) = [i]"
| "mover_items (MBackoff i w) = [i]"
| "mover_items (MSettled i) = [i]"
| "mover_items MGone = []"

definition outstanding :: "overflow \<Rightarrow> mover \<Rightarrow> nat \<Rightarrow> nat" where
  "outstanding ov m p = length (filter (\<lambda>i. it_spill i = p) (mover_items m @ ov_queue ov))"

definition counted :: "overflow \<Rightarrow> mover \<Rightarrow> bool" where
  "counted ov m \<longleftrightarrow>
     (\<forall>p. sp_unpublished (ov_spills ov p) = int (outstanding ov m p)) \<and>
     (\<forall>i\<in>set (mover_items m @ ov_queue ov). it_spill i < ov_fresh ov)"

lemma counted_new: "counted (newOverflow nonce capacity) MIdle"
  by (simp add: counted_def newOverflow_def outstanding_def blank_spill_def)

lemma counted_admits: "counted ov m \<Longrightarrow> counted (snd (admits now k d ov)) m"
  by (auto simp: admits_def counted_def outstanding_def split: option.splits prod.splits)

lemma counted_admitted: "counted ov m \<Longrightarrow> counted (admitted now k d ov) m"
  by (auto simp: admitted_def counted_def outstanding_def Let_def split: option.splits prod.splits)

lemma counted_send:
  assumes "ov_wf ov" "counted ov m"
  shows "counted (send now k d ov) m"
proof (cases "ov_channels ov k")
  case (Some p)
  with assms show ?thesis
    by (auto simp: send_def spill_for_def counted_def outstanding_def Let_def ov_wf_def split: prod.splits)
next
  case None
  have "\<forall>i\<in>set (mover_items m @ ov_queue ov). it_spill i \<noteq> ov_fresh ov"
  proof
    fix i assume "i \<in> set (mover_items m @ ov_queue ov)"
    with assms(2) have "it_spill i < ov_fresh ov" unfolding counted_def by blast
    then show "it_spill i \<noteq> ov_fresh ov" by simp
  qed
  then have "filter (\<lambda>i. it_spill i = ov_fresh ov) (mover_items m @ ov_queue ov) = []"
    by (simp only: filter_empty_conv)
  with None assms show ?thesis
    by (auto simp: send_def spill_for_def counted_def outstanding_def Let_def blank_spill_def less_Suc_eq
        split: prod.splits)
qed

lemma moveToTail_items:
  "moveToTail ov m i = Some (m', ss) \<Longrightarrow> mover_items m' = mover_items m \<and> m \<noteq> MIdle"
  by (cases m; cases i) (auto simp: moveToTail_def split: if_splits option.splits)

lemma overflow_run_cases:
  assumes "overflow_run m i ov = Some (m', ss, ov')"
  obtains (take) item where "m = MIdle" "ov_queue ov = item # ov_queue ov'" "m' = MHold item" "ss = []"
      "ov' = ov\<lparr>ov_queue := ov_queue ov'\<rparr>"
    | (gone) "m = MIdle" "m' = MGone" "ss = []" "ov' = ov" "ov_queue ov = []" "ov_stop ov"
    | (decrement) item where "m = MSettled item" "m' = MIdle" "ss = []"
      "ov' = ov\<lparr>ov_spills := (ov_spills ov)(it_spill item := (ov_spills ov (it_spill item))
         \<lparr>sp_unpublished := sp_unpublished (ov_spills ov (it_spill item)) - 1\<rparr>)\<rparr>"
    | (move) "moveToTail ov m i = Some (m', ss)" "ov' = ov"
proof -
  have "(\<exists>item. m = MIdle \<and> ov_queue ov = item # ov_queue ov' \<and> m' = MHold item \<and> ss = [] \<and>
        ov' = ov\<lparr>ov_queue := ov_queue ov'\<rparr>) \<or>
      (m = MIdle \<and> m' = MGone \<and> ss = [] \<and> ov' = ov \<and> ov_queue ov = [] \<and> ov_stop ov) \<or>
      (\<exists>item. m = MSettled item \<and> m' = MIdle \<and> ss = [] \<and>
        ov' = ov\<lparr>ov_spills := (ov_spills ov)(it_spill item := (ov_spills ov (it_spill item))
          \<lparr>sp_unpublished := sp_unpublished (ov_spills ov (it_spill item)) - 1\<rparr>)\<rparr>) \<or>
      (moveToTail ov m i = Some (m', ss) \<and> ov' = ov)"
    using assms by (cases m; cases i) (auto simp: overflow_run_def Let_def split: list.splits if_splits option.splits)
  then show ?thesis using that by blast
qed

lemma counted_run:
  assumes "overflow_run m i ov = Some (m', ss, ov')" "counted ov m"
  shows "counted ov' m'"
  using assms(1)
proof (cases rule: overflow_run_cases)
  case (take item)
  with assms(2) show ?thesis
    by (cases ov') (auto simp: counted_def outstanding_def)
next
  case gone
  with assms(2) show ?thesis by (simp add: counted_def outstanding_def)
next
  case (decrement item)
  with assms(2) show ?thesis by (auto simp: counted_def outstanding_def)
next
  case move
  with assms(2) moveToTail_items [OF move(1)] show ?thesis by (simp add: counted_def outstanding_def)
qed

end
