(* ===== verification/GroupConsumer.thy ===== *)
theory GroupConsumer
  imports Lanes Overflow "HOL-Library.Sublist"
begin

text \<open>
  The consumer of the group queue, \<open>consumePerChannel\<close> of internal/amqp/group_lanes.go, as a
  system of five parties that interleave freely: the broker's queue, the loop over the deliveries,
  the lanes, the mover of the overflow, and the shutdown. One turn of the loop is a function; a
  labelled step relation composes the parties. The development shows that as long as no spill
  stalls and every publication is either confirmed or not stored, the jobs of a channel start in
  the order in which their messages arrived, although messages of a full channel travel to the
  tail of the queue and come back; and that no message is ever lost.
\<close>

section \<open>One turn of the loop\<close>

datatype verdict = Undecodable goerr | Admitted string | Spilled string

definition consume_delivery ::
  "(string \<Rightarrow> string result) \<Rightarrow> int \<Rightarrow> int \<Rightarrow> delivery \<Rightarrow> delivery lanes \<Rightarrow> overflow \<Rightarrow>
   verdict \<times> settlement list \<times> delivery lanes \<times> overflow" where
  "consume_delivery decode now now' d l ov =
     (case decode (d_body d) of
        Inl err \<Rightarrow> (Undecodable err, settle d (Some err), l, ov)
      | Inr k \<Rightarrow>
          (case admits now k d ov of (ok, ov1) \<Rightarrow>
             (case (if ok then lanes_run k d l else (False, l)) of (taken, l1) \<Rightarrow>
                if taken then (Admitted k, [], l1, admitted now' k d ov1)
                else (Spilled k, [], l1, send now' k d ov1))))"

text \<open>The job of a delivery, once \<open>job.handle\<close> has returned: settled, or kept for the end.\<close>

definition finish_job :: "delivery \<Rightarrow> goerr option \<Rightarrow> delivery list \<Rightarrow> settlement list \<times> delivery list" where
  "finish_job d err requeue = (if wants_requeue err then ([], requeue @ [d]) else (settle d err, requeue))"

section \<open>The system\<close>

datatype phase = Consuming | Draining | Closing | Stopped

text \<open>
  The system carries a log of what arrived, was taken by the lanes, was started, and has left the
  consumer (settled or returned), for the statements below.
\<close>

record gstate =
  g_ready :: "delivery list"
  g_nextTag :: nat
  g_lanes :: "delivery lanes"
  g_ov :: overflow
  g_mover :: mover
  g_requeue :: "delivery list"
  g_phase :: phase
  g_settled :: "settlement list"
  g_arrived :: "string list"
  g_taken :: "string list"
  g_started :: "string list"
  g_jobs :: "delivery list"
  g_abandoned :: "overflowItem list"
  g_gone :: "string list"

definition g_start :: "string \<Rightarrow> int \<Rightarrow> int \<Rightarrow> gstate" where
  "g_start nonce prefetch laneBacklog =
     \<lparr>g_ready = [], g_nextTag = 1,
      g_lanes = newLanes (orDefault laneBacklog 16),
      g_ov = newOverflow nonce (nat (orDefault prefetch 64)), g_mover = MIdle, g_requeue = [],
      g_phase = Consuming, g_settled = [], g_arrived = [], g_taken = [], g_started = [], g_jobs = [],
      g_abandoned = [], g_gone = []\<rparr>"

text \<open>
  The deliveries that the consumer holds, and the number that the broker has handed out without
  seeing them settled, which is what it compares with the prefetch window.
\<close>

fun mover_holds :: "mover \<Rightarrow> overflowItem list" where
  "mover_holds (MSettled i) = []"
| "mover_holds m = mover_items m"

definition in_hand :: "gstate \<Rightarrow> delivery list" where
  "in_hand s = g_jobs s @ map it_delivery (mover_holds (g_mover s) @ ov_queue (g_ov s)) @ g_requeue s"

definition window_used :: "gstate \<Rightarrow> int" where
  "window_used s = int (g_nextTag s) - 1 - int (length (g_settled s))"

datatype gevent =
    Arrive delivery
  | Consume int int verdict bool
  | Lane "delivery lane_event" "goerr option"
  | Move mover_in bool
  | BrokerClosed
  | SpillClosed
  | Returned

definition g_consume :: "(string \<Rightarrow> string result) \<Rightarrow> int \<Rightarrow> int \<Rightarrow> delivery \<Rightarrow> delivery list \<Rightarrow> gstate \<Rightarrow> verdict \<times> gstate" where
  "g_consume decode now now' d rest s =
     (let d' = d\<lparr>d_tag := g_nextTag s\<rparr>
      in case consume_delivery decode now now' d' (g_lanes s) (g_ov s) of (v, ss, l, ov) \<Rightarrow>
           (v, s\<lparr>g_ready := rest, g_nextTag := Suc (g_nextTag s), g_lanes := l, g_ov := ov,
                 g_settled := g_settled s @ ss,
                 g_taken := g_taken s @ (case v of Admitted k \<Rightarrow> [d_body d] | _ \<Rightarrow> []),
                 g_jobs := g_jobs s @ (case v of Admitted k \<Rightarrow> [d'] | _ \<Rightarrow> []),
                 g_gone := g_gone s @ (case v of Undecodable e \<Rightarrow> [d_body d] | _ \<Rightarrow> [])\<rparr>))"

definition spill_stalled :: "(string \<Rightarrow> string result) \<Rightarrow> int \<Rightarrow> delivery \<Rightarrow> gstate \<Rightarrow> bool" where
  "spill_stalled decode now d s =
     (case decode (d_body d) of Inl e \<Rightarrow> False | Inr k \<Rightarrow> channel_stalled now k (g_ov s))"

definition g_finish :: "delivery \<Rightarrow> goerr option \<Rightarrow> delivery lanes \<Rightarrow> gstate \<Rightarrow> gstate" where
  "g_finish d err l s =
     (case finish_job d err (g_requeue s) of (ss, rq) \<Rightarrow>
        s\<lparr>g_lanes := l, g_settled := g_settled s @ ss, g_requeue := rq, g_jobs := remove1 d (g_jobs s),
          g_gone := g_gone s @ (if wants_requeue err then [] else [d_body d])\<rparr>)"

text \<open>
  A step of the mover: a publication that was stored puts the copy at the tail of the queue (an
  unconfirmed one may be stored all the same), and an item given up without a copy stays with the
  broker, which requeues it.
\<close>

definition g_move :: "mover \<Rightarrow> settlement list \<Rightarrow> overflow \<Rightarrow> bool \<Rightarrow> gstate \<Rightarrow> gstate" where
  "g_move m' ss ov stored s =
     s\<lparr>g_mover := m', g_ov := ov, g_settled := g_settled s @ ss,
       g_ready := g_ready s @ (case g_mover s of MCalling i w \<Rightarrow> if stored then [tail_copy ov i] else [] | _ \<Rightarrow> []),
       g_abandoned := g_abandoned s @
         (case m' of MSettled i \<Rightarrow> (case g_mover s of MPublished j \<Rightarrow> [] | _ \<Rightarrow> [i]) | _ \<Rightarrow> [])\<rparr>"

inductive gstep :: "(string \<Rightarrow> string result) \<Rightarrow> nat \<Rightarrow> gstate \<Rightarrow> gevent \<Rightarrow> gstate \<Rightarrow> bool"
  for decode :: "string \<Rightarrow> string result" and prefetch :: nat where
  arrive:
    "\<not> snd (copyNumber (g_ov s) d) \<Longrightarrow>
     gstep decode prefetch s (Arrive d) (s\<lparr>g_ready := g_ready s @ [d], g_arrived := g_arrived s @ [d_body d]\<rparr>)"
| consume:
    "g_phase s = Consuming \<Longrightarrow> g_ready s = d # rest \<Longrightarrow> window_used s < int prefetch \<Longrightarrow>
     g_consume decode now now' d rest s = (v, s') \<Longrightarrow>
     gstep decode prefetch s (Consume now now' v (spill_stalled decode now d s)) s'"
| lane_start:
    "lane_step (g_lanes s) (Start k d) l \<Longrightarrow>
     gstep decode prefetch s (Lane (Start k d) None) (s\<lparr>g_lanes := l, g_started := g_started s @ [d_body d]\<rparr>)"
| lane_finish:
    "lane_step (g_lanes s) (Finish k d) l \<Longrightarrow>
     gstep decode prefetch s (Lane (Finish k d) err) (g_finish d err l s)"
| lane_leave:
    "lane_step (g_lanes s) (Leave k) l \<Longrightarrow>
     gstep decode prefetch s (Lane (Leave k) None) (s\<lparr>g_lanes := l\<rparr>)"
| move:
    "overflow_run (g_mover s) i (g_ov s) = Some (m', ss, ov) \<Longrightarrow>
     (i = Attempt None \<longrightarrow> stored) \<Longrightarrow>
     gstep decode prefetch s (Move i stored) (g_move m' ss ov stored s)"
| broker_closed:
    "g_phase s = Consuming \<Longrightarrow> gstep decode prefetch s BrokerClosed (s\<lparr>g_phase := Draining\<rparr>)"
| spill_closed:
    "g_phase s = Draining \<Longrightarrow> lanes_idle (g_lanes s) \<Longrightarrow>
     gstep decode prefetch s SpillClosed (s\<lparr>g_phase := Closing, g_ov := close_overflow (g_ov s)\<rparr>)"
| returned:
    "g_phase s = Closing \<Longrightarrow> g_mover s = MGone \<Longrightarrow>
     gstep decode prefetch s Returned
       (s\<lparr>g_phase := Stopped, g_settled := g_settled s @ requeueInOrder (g_requeue s),
          g_gone := g_gone s @ map d_body (g_requeue s), g_requeue := []\<rparr>)"

inductive grun :: "(string \<Rightarrow> string result) \<Rightarrow> nat \<Rightarrow> gstate \<Rightarrow> gevent list \<Rightarrow> gstate \<Rightarrow> bool"
  for decode :: "string \<Rightarrow> string result" and prefetch :: nat where
  grun_nil: "grun decode prefetch s [] s"
| grun_snoc: "grun decode prefetch s es s' \<Longrightarrow> gstep decode prefetch s' e s'' \<Longrightarrow> grun decode prefetch s (es @ [e]) s''"

inductive_simps gstep_simps:
  "gstep decode prefetch s (Arrive d) s'"
  "gstep decode prefetch s (Consume now now' v b) s'"
  "gstep decode prefetch s (Lane e r) s'"
  "gstep decode prefetch s (Move i b) s'"
  "gstep decode prefetch s BrokerClosed s'"
  "gstep decode prefetch s SpillClosed s'"
  "gstep decode prefetch s Returned s'"

section \<open>The ledger of a channel\<close>

text \<open>
  The messages of a channel that arrived are those already taken by the lanes, then those out on
  their way with a number, in the order of the numbers, then those still in the queue with none.
\<close>

fun ledger :: "(int \<times> int) option \<Rightarrow> (int \<times> string) multiset \<Rightarrow> string list \<Rightarrow> string list \<Rightarrow> string list \<Rightarrow> bool" where
  "ledger None pend arrived taken waiting = (pend = {#} \<and> arrived = taken @ waiting)"
| "ledger (Some (e, n)) pend arrived taken waiting =
     (\<exists>sp. sp \<noteq> [] \<and> map fst sp = [e..n - 1] \<and> mset sp = pend \<and> arrived = taken @ map snd sp @ waiting)"

lemma ledger_arrive: "ledger b pend arrived taken waiting \<Longrightarrow> ledger b pend (arrived @ [x]) taken (waiting @ [x])"
  by (cases b) auto

lemma ledger_take: "ledger None pend arrived taken (x # waiting) \<Longrightarrow> ledger None pend arrived (taken @ [x]) waiting"
  by simp

lemma ledger_open: "ledger None pend arrived taken (x # waiting) \<Longrightarrow> ledger (Some (1, 2)) {#(1, x)#} arrived taken waiting"
  by (auto intro: exI [of _ "[(1, x)]"] simp: upto.simps)

lemma ledger_number:
  assumes "ledger (Some (e, n)) pend arrived taken (x # waiting)"
  shows "ledger (Some (e, n + 1)) (add_mset (n, x) pend) arrived taken waiting"
proof -
  from assms obtain sp where sp: "sp \<noteq> []" "map fst sp = [e..n - 1]" "mset sp = pend"
    "arrived = taken @ map snd sp @ x # waiting" by auto
  from sp(1,2) have "e \<le> n - 1" by (metis Nil_is_map_conv upto_empty not_le)
  then have "[e..n] = [e..n - 1] @ [n]" by (simp add: upto_rec2)
  with sp show ?thesis by (auto intro!: exI [of _ "sp @ [(n, x)]"])
qed

lemma ledger_range:
  assumes "ledger (Some (e, n)) pend arrived taken waiting" "(q, x) \<in># pend"
  shows "e \<le> q \<and> q < n"
proof -
  from assms obtain sp where "map fst sp = [e..n - 1]" "(q, x) \<in> set sp" by auto
  then have "q \<in> set [e..n - 1]" by (metis fst_conv image_eqI set_map)
  then show ?thesis by simp
qed

lemma ledger_next:
  assumes "ledger (Some (e, n)) pend arrived taken waiting" "(e, x) \<in># pend"
  shows "ledger (if e + 1 = n then None else Some (e + 1, n)) (pend - {#(e, x)#}) arrived (taken @ [x]) waiting"
proof -
  from assms obtain sp where sp: "sp \<noteq> []" "map fst sp = [e..n - 1]" "mset sp = pend"
    "arrived = taken @ map snd sp @ waiting" by auto
  have lt: "e < n" using ledger_range [OF assms] by simp
  then have up: "[e..n - 1] = e # [e + 1..n - 1]" by (simp add: upto_rec1)
  with sp(1,2) obtain y sp' where cons: "sp = (e, y) # sp'" "map fst sp' = [e + 1..n - 1]"
    by (cases sp) auto
  from assms(2) sp(3) have "(e, x) \<in> set sp" by (metis set_mset_mset)
  moreover have "(e, x) \<notin> set sp'"
  proof
    assume "(e, x) \<in> set sp'"
    then have "e \<in> set [e + 1..n - 1]" by (metis cons(2) fst_conv image_eqI set_map)
    then show False by simp
  qed
  ultimately have "y = x" using cons(1) by simp
  then have m: "mset sp' = pend - {#(e, x)#}" "arrived = (taken @ [x]) @ map snd sp' @ waiting"
    using sp(3,4) cons(1) by auto
  show ?thesis
  proof (cases "e + 1 = n")
    case True
    with cons(2) have "sp' = []" by simp
    with True m show ?thesis by simp
  next
    case False
    with lt cons(2) have "sp' \<noteq> []" by (metis Nil_is_map_conv upto_Nil2 less_le_not_le zless_imp_add1_zle diff_add_cancel add_le_imp_le_diff zle_diff1_eq linorder_not_le order_antisym)
    with False m cons(2) show ?thesis by auto
  qed
qed

section \<open>The interface of a spill book\<close>

text \<open>
  The laws of the overflow that the loop needs, and what one turn of the loop does to the ledger
  of its channel under these laws, whatever the lanes decide.
\<close>

locale spill_book =
  fixes wf :: "'s \<Rightarrow> bool"
    and books :: "'s \<Rightarrow> string \<Rightarrow> (int \<times> int) option"
    and stuck :: "int \<Rightarrow> string \<Rightarrow> 's \<Rightarrow> bool"
    and number :: "'s \<Rightarrow> 'd \<Rightarrow> int \<times> bool"
    and allow :: "int \<Rightarrow> string \<Rightarrow> 'd \<Rightarrow> 's \<Rightarrow> bool \<times> 's"
    and note_taken :: "int \<Rightarrow> string \<Rightarrow> 'd \<Rightarrow> 's \<Rightarrow> 's"
    and put_off :: "int \<Rightarrow> string \<Rightarrow> 'd \<Rightarrow> 's \<Rightarrow> 's"
    and out :: "'s \<Rightarrow> (int \<times> 'd) list"
  assumes allow_book: "\<not> stuck now k s \<Longrightarrow> allow now k d s = (book_allows (number s d) (books s k), s)"
    and taken_wf: "wf s \<Longrightarrow> wf (note_taken now k d s)"
    and taken_book: "wf s \<Longrightarrow> books (note_taken now k d s) = (books s)(k := book_admit (number s d) (books s k))"
    and taken_out: "out (note_taken now k d s) = out s"
    and off_wf: "wf s \<Longrightarrow> wf (put_off now k d s)"
    and off_book: "wf s \<Longrightarrow> books (put_off now k d s) = (books s)(k := snd (book_send (number s d) (books s k)))"
    and off_out: "out (put_off now k d s) = out s @ [(fst (book_send (number s d) (books s k)), d)]"
begin

definition turn :: "int \<Rightarrow> int \<Rightarrow> string \<Rightarrow> 'd \<Rightarrow> bool \<Rightarrow> 's \<Rightarrow> bool \<times> 's" where
  "turn now now' k d room s =
     (case allow now k d s of (ok, s1) \<Rightarrow>
        if ok \<and> room then (True, note_taken now' k d s1) else (False, put_off now' k d s1))"

lemma turn_wf: "wf s \<Longrightarrow> \<not> stuck now k s \<Longrightarrow> wf (snd (turn now now' k d room s))"
  by (simp add: turn_def allow_book taken_wf off_wf)

lemma turn_other:
  "wf s \<Longrightarrow> \<not> stuck now k s \<Longrightarrow> k' \<noteq> k \<Longrightarrow> books (snd (turn now now' k d room s)) k' = books s k'"
  by (simp add: turn_def allow_book taken_book off_book)

lemma turn_taken:
  assumes "wf s" "\<not> stuck now k s" "turn now now' k d room s = (True, s')"
    "ledger (books s k) (rest + (if snd (number s d) then {#(fst (number s d), x)#} else {#})) arrived taken
       ((if snd (number s d) then [] else [x]) @ waiting)"
  shows "ledger (books s' k) rest arrived (taken @ [x]) waiting \<and> out s' = out s"
proof -
  obtain q c where n: "number s d = (q, c)" by (cases "number s d")
  from assms(2,3) have ok: "book_allows (q, c) (books s k)" and s': "s' = note_taken now' k d s"
    by (auto simp: turn_def allow_book n split: if_splits)
  have b: "books s' k = book_admit (q, c) (books s k)" using assms(1) by (simp add: s' taken_book n)
  have "ledger (books s' k) rest arrived (taken @ [x]) waiting"
  proof (cases "books s k")
    case None
    with assms(4) have "\<not> c" by (auto simp: n)
    with None assms(4) b show ?thesis by (simp add: n)
  next
    case (Some en)
    obtain e m where en: "en = (e, m)" by (cases en)
    with Some ok have c: "c" "q \<le> e" by auto
    have l: "ledger (Some (e, m)) (add_mset (q, x) rest) arrived taken waiting"
      using assms(4) Some en c by (simp add: n)
    then have "e \<le> q" using ledger_range [of e m "add_mset (q, x) rest"] by fastforce
    with c have "q = e" by simp
    with ledger_next [of e m "add_mset (q, x) rest" arrived taken waiting x] l
    have "ledger (if e + 1 = m then None else Some (e + 1, m)) rest arrived (taken @ [x]) waiting" by simp
    with b Some en c \<open>q = e\<close> show ?thesis by simp
  qed
  then show ?thesis by (simp add: s' taken_out)
qed

lemma turn_put_off:
  assumes "wf s" "\<not> stuck now k s" "turn now now' k d room s = (False, s')"
    "ledger (books s k) (rest + (if snd (number s d) then {#(fst (number s d), x)#} else {#})) arrived taken
       ((if snd (number s d) then [] else [x]) @ waiting)"
  shows "\<exists>q. ledger (books s' k) (add_mset (q, x) rest) arrived taken waiting \<and> out s' = out s @ [(q, d)]"
proof -
  obtain q c where n: "number s d = (q, c)" by (cases "number s d")
  from assms(2,3) have s': "s' = put_off now' k d s"
    by (auto simp: turn_def allow_book n split: if_splits)
  have b: "books s' k = snd (book_send (q, c) (books s k))" using assms(1) by (simp add: s' off_book n)
  have "ledger (books s' k) (add_mset (fst (book_send (q, c) (books s k)), x) rest) arrived taken waiting"
  proof (cases "books s k")
    case None
    with assms(4) have "\<not> c" "rest = {#}" by (auto simp: n)
    with None assms(4) b ledger_open [of "{#}" arrived taken x waiting] show ?thesis by (simp add: n del: ledger.simps(2))
  next
    case (Some en)
    obtain e m where en: "en = (e, m)" by (cases en)
    show ?thesis
    proof (cases c)
      case True
      with assms(4) Some en b show ?thesis by (simp add: n)
    next
      case False
      with assms(4) Some en b ledger_number [of e m rest arrived taken x waiting] show ?thesis
        by (simp add: n del: ledger.simps)
    qed
  qed
  then show ?thesis by (auto simp: s' off_out n)
qed

end

interpretation spill: spill_book ov_wf book channel_stalled copyNumber admits admitted send
  "\<lambda>ov. map (\<lambda>i. (it_seq i, it_delivery i)) (ov_queue ov)"
proof unfold_locales
  fix now :: int and k :: string and d :: delivery and s :: overflow
  show "map (\<lambda>i. (it_seq i, it_delivery i)) (ov_queue (send now k d s)) =
      map (\<lambda>i. (it_seq i, it_delivery i)) (ov_queue s) @ [(fst (book_send (copyNumber s d) (book s k)), d)]"
    using send_queue [of now k d s] by auto
qed (simp_all add: admits_book ov_wf_admitted admitted_book ov_wf_send send_book)

section \<open>The order invariant\<close>

definition bodies_of :: "(string \<Rightarrow> string result) \<Rightarrow> string \<Rightarrow> string list \<Rightarrow> string list" where
  "bodies_of decode k bs = filter (\<lambda>b. decode b = Inr k) bs"

lemma bodies_of_append [simp]: "bodies_of decode k (bs @ cs) = bodies_of decode k bs @ bodies_of decode k cs"
  by (simp add: bodies_of_def)

lemma bodies_of_simps [simp]:
  "bodies_of decode k [] = []"
  "bodies_of decode k (b # bs) = (if decode b = Inr k then b # bodies_of decode k bs else bodies_of decode k bs)"
  by (simp_all add: bodies_of_def)

fun mover_unsent :: "mover \<Rightarrow> overflowItem list" where
  "mover_unsent (MPublished i) = []"
| "mover_unsent (MSettled i) = []"
| "mover_unsent m = mover_items m"

definition numbered :: "(string \<Rightarrow> string result) \<Rightarrow> string \<Rightarrow> overflow \<Rightarrow> delivery list \<Rightarrow> (int \<times> string) multiset" where
  "numbered decode k ov ds =
     mset (map (\<lambda>d. (fst (copyNumber ov d), d_body d))
       (filter (\<lambda>d. decode (d_body d) = Inr k \<and> snd (copyNumber ov d)) ds))"

definition unnumbered :: "(string \<Rightarrow> string result) \<Rightarrow> string \<Rightarrow> overflow \<Rightarrow> delivery list \<Rightarrow> string list" where
  "unnumbered decode k ov ds =
     map d_body (filter (\<lambda>d. decode (d_body d) = Inr k \<and> \<not> snd (copyNumber ov d)) ds)"

definition carried :: "(string \<Rightarrow> string result) \<Rightarrow> string \<Rightarrow> overflowItem list \<Rightarrow> (int \<times> string) multiset" where
  "carried decode k is =
     mset (map (\<lambda>i. (it_seq i, d_body (it_delivery i)))
       (filter (\<lambda>i. decode (d_body (it_delivery i)) = Inr k) is))"

lemma carried_append [simp]: "carried decode k (is @ js) = carried decode k is + carried decode k js"
  by (simp add: carried_def)

lemma carried_simps [simp]:
  "carried decode k [] = {#}"
  "carried decode k (i # is) =
     (if decode (d_body (it_delivery i)) = Inr k then add_mset (it_seq i, d_body (it_delivery i)) (carried decode k is)
      else carried decode k is)"
  by (simp_all add: carried_def)

lemma carried_pairs:
  "carried decode k is = mset (map (\<lambda>(q, d). (q, d_body d)) (filter (\<lambda>(q, d). decode (d_body d) = Inr k)
     (map (\<lambda>i. (it_seq i, it_delivery i)) is)))"
  by (induction "is") auto

lemma numbered_append [simp]: "numbered decode k ov (ds @ es) = numbered decode k ov ds + numbered decode k ov es"
  by (simp add: numbered_def)

lemma unnumbered_append [simp]: "unnumbered decode k ov (ds @ es) = unnumbered decode k ov ds @ unnumbered decode k ov es"
  by (simp add: unnumbered_def)

lemma numbered_Nil [simp]: "numbered decode k ov [] = {#}"
  by (simp add: numbered_def)

lemma unnumbered_Nil [simp]: "unnumbered decode k ov [] = []"
  by (simp add: unnumbered_def)

lemma numbered_Cons: "numbered decode k ov (d # ds) =
    (if decode (d_body d) = Inr k \<and> snd (copyNumber ov d) then {#(fst (copyNumber ov d), d_body d)#} else {#}) + numbered decode k ov ds"
  by (simp add: numbered_def)

lemma unnumbered_Cons: "unnumbered decode k ov (d # ds) =
    (if decode (d_body d) = Inr k \<and> \<not> snd (copyNumber ov d) then [d_body d] else []) @ unnumbered decode k ov ds"
  by (simp add: unnumbered_def)

lemma numbered_nonce: "ov_nonce ov' = ov_nonce ov \<Longrightarrow> numbered decode k ov' ds = numbered decode k ov ds"
  using copyNumber_nonce [of ov' ov] by (simp add: numbered_def)

lemma unnumbered_nonce: "ov_nonce ov' = ov_nonce ov \<Longrightarrow> unnumbered decode k ov' ds = unnumbered decode k ov ds"
  using copyNumber_nonce [of ov' ov] by (simp add: unnumbered_def)

definition in_transit :: "(string \<Rightarrow> string result) \<Rightarrow> string \<Rightarrow> gstate \<Rightarrow> (int \<times> string) multiset" where
  "in_transit decode k s =
     numbered decode k (g_ov s) (g_ready s) +
     carried decode k (mover_unsent (g_mover s) @ ov_queue (g_ov s) @ g_abandoned s)"

definition order_inv :: "(string \<Rightarrow> string result) \<Rightarrow> gstate \<Rightarrow> bool" where
  "order_inv decode s \<longleftrightarrow>
     ov_wf (g_ov s) \<and>
     (\<forall>k. ledger (book (g_ov s) k) (in_transit decode k s) (bodies_of decode k (g_arrived s))
        (bodies_of decode k (g_taken s)) (unnumbered decode k (g_ov s) (g_ready s)))"

text \<open>
  The lanes side: what a channel has taken is what its lane has started and what waits in it, and
  every job that waits belongs to its channel.
\<close>

definition lane_inv :: "(string \<Rightarrow> string result) \<Rightarrow> gstate \<Rightarrow> bool" where
  "lane_inv decode s \<longleftrightarrow>
     lanes_wf (g_lanes s) \<and>
     (\<forall>k. bodies_of decode k (g_taken s) =
        bodies_of decode k (g_started s) @ map d_body (queued (g_lanes s) k)) \<and>
     (\<forall>k. \<forall>d\<in>set (queued (g_lanes s) k). decode (d_body d) = Inr k)"

fun calm :: "gevent \<Rightarrow> bool" where
  "calm (Consume now now' v stall) = (\<not> stall)"
| "calm (Move i stored) = (stored \<longrightarrow> i = Attempt None)"
| "calm _ = True"

lemma g_start_inv: "order_inv decode (g_start nonce p b) \<and> lane_inv decode (g_start nonce p b)"
  by (simp add: order_inv_def lane_inv_def g_start_def ov_wf_new lanes_wf_new in_transit_def book_def)
     (simp add: newOverflow_def newLanes_def queued_def)

section \<open>A turn of the loop keeps the invariants\<close>

lemma copyNumber_tag [simp]: "copyNumber ov (d\<lparr>d_tag := t\<rparr>) = copyNumber ov d"
  by (simp add: copyNumber_def)

lemma consume_delivery_turn:
  assumes "decode (d_body d) = Inr k" "\<not> channel_stalled now k ov"
    "consume_delivery decode now now' d l ov = (v, ss, l', ov')"
  shows "spill.turn now now' k d (fst (lanes_run k d l)) ov = (v = Admitted k, ov') \<and> ss = [] \<and>
    (if v = Admitted k then lanes_run k d l = (True, l') else v = Spilled k \<and> l' = l)"
proof -
  obtain t l1 where r: "lanes_run k d l = (t, l1)" by (cases "lanes_run k d l")
  have "\<not> t \<Longrightarrow> l1 = l" using r lanes_run_refused by auto
  with assms r show ?thesis
    by (auto simp: consume_delivery_def spill.turn_def admits_book split: if_splits)
qed

lemma consume_inv:
  assumes cons: "g_consume decode now now' d rest s = (v, s')" and ready: "g_ready s = d # rest"
    and calm: "\<not> spill_stalled decode now d s" and inv: "order_inv decode s" "lane_inv decode s"
  shows "order_inv decode s' \<and> lane_inv decode s'"
proof -
  define d' where "d' = d\<lparr>d_tag := g_nextTag s\<rparr>"
  have d': "d_body d' = d_body d" "copyNumber ov d' = copyNumber ov d" for ov by (simp_all add: d'_def)
  obtain v1 ss l ov where c: "consume_delivery decode now now' d' (g_lanes s) (g_ov s) = (v1, ss, l, ov)"
    by (metis prod_cases4)
  have v: "v1 = v" and s': "s' = s\<lparr>g_ready := rest, g_nextTag := Suc (g_nextTag s), g_lanes := l, g_ov := ov,
      g_settled := g_settled s @ ss, g_taken := g_taken s @ (case v of Admitted k \<Rightarrow> [d_body d] | _ \<Rightarrow> []),
      g_jobs := g_jobs s @ (case v of Admitted k \<Rightarrow> [d'] | _ \<Rightarrow> []),
      g_gone := g_gone s @ (case v of Undecodable e \<Rightarrow> [d_body d] | _ \<Rightarrow> [])\<rparr>"
    using cons c unfolding d'_def by (auto simp: g_consume_def Let_def)
  show ?thesis
  proof (cases "decode (d_body d)")
    case (Inl e)
    then have "v = Undecodable e" "l = g_lanes s" "ov = g_ov s"
      using c v by (auto simp: consume_delivery_def d')
    with inv Inl ready show ?thesis
      by (simp add: s' order_inv_def lane_inv_def in_transit_def numbered_Cons unnumbered_Cons)
  next
    case (Inr k)
    have nst: "\<not> channel_stalled now k (g_ov s)" using calm Inr by (simp add: spill_stalled_def)
    note t = consume_delivery_turn [OF _ nst c, unfolded d' v, OF Inr]
    have wf: "ov_wf (g_ov s)" using inv(1) by (simp add: order_inv_def)
    have nonce: "ov_nonce ov = ov_nonce (g_ov s)"
    proof -
      have "ov = snd (spill.turn now now' k d' (fst (lanes_run k d' (g_lanes s))) (g_ov s))" using t by simp
      then show ?thesis by (simp add: spill.turn_def admits_book nst split: if_splits)
    qed
    have others: "book ov k' = book (g_ov s) k'" if "k' \<noteq> k" for k'
      using spill.turn_other [OF wf nst that, of now' d' "fst (lanes_run k d' (g_lanes s))"] t by simp
    have wf': "ov_wf ov"
      using spill.turn_wf [OF wf nst, of now' d' "fst (lanes_run k d' (g_lanes s))"] t by simp
    define R where "R = carried decode k (mover_unsent (g_mover s) @ ov_queue (g_ov s) @ g_abandoned s) +
      numbered decode k (g_ov s) rest"
    have led: "ledger (book (g_ov s) k)
        (R + (if snd (copyNumber (g_ov s) d') then {#(fst (copyNumber (g_ov s) d'), d_body d)#} else {#}))
        (bodies_of decode k (g_arrived s)) (bodies_of decode k (g_taken s))
        ((if snd (copyNumber (g_ov s) d') then [] else [d_body d]) @ unnumbered decode k (g_ov s) rest)"
    proof -
      have "in_transit decode k s =
          R + (if snd (copyNumber (g_ov s) d') then {#(fst (copyNumber (g_ov s) d'), d_body d)#} else {#})"
        using Inr ready by (simp add: in_transit_def R_def numbered_Cons d')
      moreover have "unnumbered decode k (g_ov s) (g_ready s) =
          (if snd (copyNumber (g_ov s) d') then [] else [d_body d]) @ unnumbered decode k (g_ov s) rest"
        using Inr ready by (simp add: unnumbered_Cons d')
      moreover have "ledger (book (g_ov s) k) (in_transit decode k s) (bodies_of decode k (g_arrived s))
          (bodies_of decode k (g_taken s)) (unnumbered decode k (g_ov s) (g_ready s))"
        using inv(1) by (simp add: order_inv_def)
      ultimately show ?thesis by simp
    qed
    have other_led: "ledger (book ov k') (in_transit decode k' s) (bodies_of decode k' (g_arrived s))
          (bodies_of decode k' (g_taken s)) (unnumbered decode k' (g_ov s) rest) \<and>
        in_transit decode k' s = numbered decode k' (g_ov s) rest +
          carried decode k' (mover_unsent (g_mover s) @ ov_queue (g_ov s) @ g_abandoned s)" if "k' \<noteq> k" for k'
    proof -
      have "ledger (book (g_ov s) k') (in_transit decode k' s) (bodies_of decode k' (g_arrived s))
          (bodies_of decode k' (g_taken s)) (unnumbered decode k' (g_ov s) (g_ready s))"
        using inv(1) by (simp add: order_inv_def)
      then show ?thesis
        using that Inr ready others [OF that] by (simp add: unnumbered_Cons numbered_Cons in_transit_def)
    qed
    show ?thesis
    proof (cases "v = Admitted k")
      case True
      with conjunct1 [OF t]
      have tt: "spill.turn now now' k d' (fst (lanes_run k d' (g_lanes s))) (g_ov s) = (True, ov)" by simp
      from t True have run: "lanes_run k d' (g_lanes s) = (True, l)" by simp
      from spill.turn_taken [OF wf nst tt led]
      have l1: "ledger (book ov k) R (bodies_of decode k (g_arrived s)) (bodies_of decode k (g_taken s) @ [d_body d])
          (unnumbered decode k (g_ov s) rest)"
        and q: "map (\<lambda>i. (it_seq i, it_delivery i)) (ov_queue ov) = map (\<lambda>i. (it_seq i, it_delivery i)) (ov_queue (g_ov s))"
        by auto
      have car: "carried decode k' (ov_queue ov) = carried decode k' (ov_queue (g_ov s))" for k'
        by (simp only: carried_pairs q)
      have tk: "in_transit decode k s' = R"
        by (simp add: s' True in_transit_def R_def numbered_nonce [OF nonce] car ac_simps)
      have "ledger (book ov k') (in_transit decode k' s') (bodies_of decode k' (g_arrived s'))
          (bodies_of decode k' (g_taken s')) (unnumbered decode k' ov (g_ready s'))" for k'
      proof (cases "k' = k")
        case same: True
        show ?thesis using l1 by (simp only: same tk) (simp add: s' True Inr unnumbered_nonce [OF nonce])
      next
        case diff: False
        then have eq: "in_transit decode k' s' = in_transit decode k' s"
          using other_led [OF diff] by (simp add: s' True in_transit_def numbered_nonce [OF nonce] car)
        show ?thesis
          using conjunct1 [OF other_led [OF diff]] diff
          by (simp only: eq) (simp add: s' True Inr unnumbered_nonce [OF nonce])
      qed
      then have "order_inv decode s'" using wf' by (simp add: order_inv_def s')
      moreover have "lane_inv decode s'"
      proof -
        have "lane_step (g_lanes s) (Accept k d') l" using run by (simp add: lane_step_simps)
        then have "lanes_wf l" using inv(2) by (auto simp: lane_inv_def intro: lane_step_wf)
        moreover have "queued l = (queued (g_lanes s))(k := queued (g_lanes s) k @ [d'])"
          using run by (rule lanes.submit_taken)
        ultimately show ?thesis using inv(2) by (simp add: lane_inv_def s' True Inr d')
      qed
      ultimately show ?thesis ..
    next
      case False
      with conjunct1 [OF t]
      have tt: "spill.turn now now' k d' (fst (lanes_run k d' (g_lanes s))) (g_ov s) = (False, ov)" by simp
      from t False have run: "v = Spilled k" "l = g_lanes s" by simp_all
      from spill.turn_put_off [OF wf nst tt led] obtain q where
        l1: "ledger (book ov k) (add_mset (q, d_body d) R) (bodies_of decode k (g_arrived s)) (bodies_of decode k (g_taken s))
          (unnumbered decode k (g_ov s) rest)"
        and q: "map (\<lambda>i. (it_seq i, it_delivery i)) (ov_queue ov) = map (\<lambda>i. (it_seq i, it_delivery i)) (ov_queue (g_ov s)) @ [(q, d')]"
        by auto
      have car: "carried decode k' (ov_queue ov) = carried decode k' (ov_queue (g_ov s)) +
          (if k' = k then {#(q, d_body d)#} else {#})" for k'
        by (simp add: carried_pairs q d' Inr)
      have tk: "in_transit decode k s' = add_mset (q, d_body d) R"
        by (simp add: s' run in_transit_def R_def numbered_nonce [OF nonce] car ac_simps)
      have "ledger (book ov k') (in_transit decode k' s') (bodies_of decode k' (g_arrived s'))
          (bodies_of decode k' (g_taken s')) (unnumbered decode k' ov (g_ready s'))" for k'
      proof (cases "k' = k")
        case same: True
        show ?thesis using l1 by (simp only: same tk) (simp add: s' run unnumbered_nonce [OF nonce])
      next
        case diff: False
        then have eq: "in_transit decode k' s' = in_transit decode k' s"
          using other_led [OF diff] by (simp add: s' run in_transit_def numbered_nonce [OF nonce] car)
        show ?thesis
          using conjunct1 [OF other_led [OF diff]] diff
          by (simp only: eq) (simp add: s' run unnumbered_nonce [OF nonce])
      qed
      then have "order_inv decode s'" using wf' by (simp add: order_inv_def s')
      moreover have "lane_inv decode s'"
        using inv(2) by (simp add: lane_inv_def s' run)
      ultimately show ?thesis ..
    qed
  qed
qed

section \<open>The other steps keep the invariants\<close>

lemma moveToTail_cases:
  assumes "moveToTail ov m i = Some (m', ss)"
  obtains (settled) item where "m' = MSettled item" "mover_items m = [item]" "m = MPublished item"
      "i = Confirm" "ss = [Ack (d_tag (it_delivery item))]"
    | (given_up) item where "m' = MSettled item" "mover_unsent m = [item]" "\<forall>j. m \<noteq> MPublished j"
      "ss = [Nack (d_tag (it_delivery item)) True]" "i \<noteq> Attempt None"
    | (published) item w where "m = MCalling item w" "i = Attempt None" "m' = MPublished item" "ss = []"
    | (on) "mover_unsent m' = mover_unsent m" "\<forall>j. m' \<noteq> MSettled j" "\<forall>j. m \<noteq> MPublished j" "i \<noteq> Attempt None"
      "ss = []" "mover_holds m' = mover_holds m"
proof -
  have "(\<exists>item. m' = MSettled item \<and> mover_items m = [item] \<and> m = MPublished item \<and> i = Confirm \<and>
        ss = [Ack (d_tag (it_delivery item))]) \<or>
      (\<exists>item. m' = MSettled item \<and> mover_unsent m = [item] \<and> (\<forall>j. m \<noteq> MPublished j) \<and>
        ss = [Nack (d_tag (it_delivery item)) True] \<and> i \<noteq> Attempt None) \<or>
      (\<exists>item w. m = MCalling item w \<and> i = Attempt None \<and> m' = MPublished item \<and> ss = []) \<or>
      (mover_unsent m' = mover_unsent m \<and> (\<forall>j. m' \<noteq> MSettled j) \<and> (\<forall>j. m \<noteq> MPublished j) \<and>
        i \<noteq> Attempt None \<and> ss = [] \<and> mover_holds m' = mover_holds m)"
    using assms by (cases m; cases i) (auto simp: moveToTail_def split: if_splits option.splits)
  then show ?thesis using that by blast
qed

lemma book_cong:
  "ov_channels ov' = ov_channels ov \<Longrightarrow>
   (\<And>p. sp_expected (ov_spills ov' p) = sp_expected (ov_spills ov p)) \<Longrightarrow>
   (\<And>p. sp_next (ov_spills ov' p) = sp_next (ov_spills ov p)) \<Longrightarrow> book ov' k = book ov k"
  by (simp add: book_def)

lemma order_inv_cong:
  assumes "order_inv decode s" "ov_wf (g_ov s')" "\<And>k. book (g_ov s') k = book (g_ov s) k"
    "\<And>k. in_transit decode k s' = in_transit decode k s"
    "g_arrived s' = g_arrived s" "g_taken s' = g_taken s"
    "\<And>k. unnumbered decode k (g_ov s') (g_ready s') = unnumbered decode k (g_ov s) (g_ready s)"
  shows "order_inv decode s'"
  using assms by (simp add: order_inv_def)

lemma ov_wf_cong:
  "ov_channels ov' = ov_channels ov \<Longrightarrow> ov_fresh ov' = ov_fresh ov \<Longrightarrow> ov_wf ov' = ov_wf ov"
  by (simp add: ov_wf_def)

lemma move_inv:
  assumes run: "overflow_run (g_mover s) i (g_ov s) = Some (m', ss, ov)"
    and stored: "i = Attempt None \<longrightarrow> stored" "stored \<longrightarrow> i = Attempt None" and inv: "order_inv decode s"
  shows "order_inv decode (g_move m' ss ov stored s)"
  using run
proof (cases rule: overflow_run_cases)
  case (take item)
  have n: "ov_nonce ov = ov_nonce (g_ov s)" using take(5) by (cases ov) simp
  have c: "ov_channels ov = ov_channels (g_ov s)" "ov_spills ov = ov_spills (g_ov s)" "ov_fresh ov = ov_fresh (g_ov s)"
    using take(5) by (cases ov, simp)+
  show ?thesis
    using inv
    by (rule order_inv_cong)
       (use inv take in \<open>simp_all add: g_move_def in_transit_def numbered_nonce [OF n] unnumbered_nonce [OF n]
          ov_wf_cong [OF c(1,3)] order_inv_def book_def c\<close>)
next
  case gone
  show ?thesis
    using inv by (rule order_inv_cong) (use inv gone in \<open>simp_all add: g_move_def in_transit_def order_inv_def\<close>)
next
  case (decrement item)
  have n: "ov_nonce ov = ov_nonce (g_ov s)" using decrement(4) by simp
  have b: "book ov k = book (g_ov s) k" for k using decrement(4) by (intro book_cong) auto
  have w: "ov_wf ov = ov_wf (g_ov s)" using decrement(4) by (intro ov_wf_cong) auto
  have q: "ov_queue ov = ov_queue (g_ov s)" using decrement(4) by simp
  show ?thesis
    using inv by (rule order_inv_cong)
      (use inv decrement(1,2) in \<open>simp_all add: g_move_def in_transit_def order_inv_def b w q numbered_nonce [OF n]
         unnumbered_nonce [OF n]\<close>)
next
  case move
  from move(1) show ?thesis
  proof (cases rule: moveToTail_cases)
    case (settled item)
    show ?thesis
      using inv by (rule order_inv_cong)
        (use inv settled move(2) in \<open>simp_all add: g_move_def in_transit_def order_inv_def\<close>)
  next
    case (given_up item)
    have "\<not> stored" using given_up(5) stored(2) by blast
    with given_up(3) have r: "g_ready (g_move m' ss ov stored s) = g_ready s"
        "g_abandoned (g_move m' ss ov stored s) = g_abandoned s @ [item]"
      by (cases "g_mover s"; simp add: g_move_def given_up(1))+
    show ?thesis
      using inv by (rule order_inv_cong)
        (use inv given_up(1,2) move(2) r in \<open>simp_all add: g_move_def in_transit_def order_inv_def\<close>)
  next
    case (published item w)
    with stored(1) have st: "stored" by simp
    note cn = copyNumber_tail_copy [of "g_ov s" "g_ov s" item]
    have body: "d_body (tail_copy ov' it) = d_body (it_delivery it)" for ov' it by (simp add: tail_copy_def)
    show ?thesis
      using inv by (rule order_inv_cong)
        (use inv published(1,3) move(2) st in \<open>simp_all add: g_move_def in_transit_def order_inv_def
           numbered_Cons unnumbered_Cons cn body\<close>)
  next
    case on
    have "\<not> stored" using on(4) stored(2) by blast
    with on(2) have r: "g_ready (g_move m' ss ov stored s) = g_ready s"
        "g_abandoned (g_move m' ss ov stored s) = g_abandoned s"
      by (cases "g_mover s"; cases m'; simp add: g_move_def)+
    show ?thesis
      using inv by (rule order_inv_cong)
        (use inv on(1) move(2) r in \<open>simp_all add: g_move_def in_transit_def order_inv_def\<close>)
  qed
qed

lemma lane_start_inv:
  assumes step: "lane_step (g_lanes s) (Start k d) l" and inv: "lane_inv decode s"
  shows "lane_inv decode (s\<lparr>g_lanes := l, g_started := g_started s @ [d_body d]\<rparr>)"
proof -
  have wf: "lanes_wf (g_lanes s)" "lanes_wf l" using inv step by (auto simp: lane_inv_def intro: lane_step_wf)
  have q: "queued (g_lanes s) k' = (if k' = k then [d] else []) @ queued l k'" for k'
    using lane_step_log [OF step wf(1), of k'] by (auto simp: lane_log_def)
  have "d \<in> set (queued (g_lanes s) k)" using q [of k] by simp
  then have dec: "decode (d_body d) = Inr k" using inv by (simp add: lane_inv_def)
  have "bodies_of decode k' (g_taken s) = bodies_of decode k' (g_started s @ [d_body d]) @ map d_body (queued l k')" for k'
    using inv q [of k'] dec by (auto simp: lane_inv_def)
  moreover have "\<forall>d\<in>set (queued l k'). decode (d_body d) = Inr k'" for k'
    using inv q [of k'] by (auto simp: lane_inv_def)
  ultimately show ?thesis using wf(2) by (simp add: lane_inv_def)
qed

lemma lane_quiet_inv:
  assumes step: "lane_step (g_lanes s) e l" and e: "accepted_by k [e] = []" "\<And>k. accepted_by k [e] = []" "\<And>k. started_by k [e] = []"
    and inv: "lane_inv decode s" and s': "g_lanes s' = l" "g_taken s' = g_taken s" "g_started s' = g_started s"
  shows "lane_inv decode s'"
proof -
  have wf: "lanes_wf (g_lanes s)" "lanes_wf l" using inv step by (auto simp: lane_inv_def intro: lane_step_wf)
  have q: "queued l k' = queued (g_lanes s) k'" for k'
    using lane_step_log [OF step wf(1), of k'] e(2) [of k'] e(3) [of k'] by (simp add: lane_log_def)
  show ?thesis using inv wf(2) s' by (simp add: lane_inv_def q)
qed

lemma gstep_inv:
  assumes "gstep decode prefetch s e s'" "calm e" "order_inv decode s \<and> lane_inv decode s"
  shows "order_inv decode s' \<and> lane_inv decode s'"
  using assms
proof (induction rule: gstep.induct)
  case (arrive s d)
  have "ledger (book (g_ov s) k) (in_transit decode k s) (bodies_of decode k (g_arrived s @ [d_body d]))
      (bodies_of decode k (g_taken s)) (unnumbered decode k (g_ov s) (g_ready s @ [d]))" for k
    using arrive ledger_arrive [of "book (g_ov s) k"] by (simp add: order_inv_def unnumbered_Cons)
  then show ?case
    using arrive by (simp add: order_inv_def lane_inv_def in_transit_def numbered_Cons)
next
  case (consume s d rest now now' v s')
  then show ?case by (intro consume_inv [OF consume.hyps(4,2)]) simp_all
next
  case (lane_start s k d l)
  then show ?case
    using lane_start_inv [of s k d l decode] by (simp add: order_inv_def in_transit_def)
next
  case (lane_finish s k d l err)
  have same: "g_ov (g_finish d err l s) = g_ov s" "g_ready (g_finish d err l s) = g_ready s"
    "g_mover (g_finish d err l s) = g_mover s" "g_abandoned (g_finish d err l s) = g_abandoned s"
    "g_arrived (g_finish d err l s) = g_arrived s" "g_taken (g_finish d err l s) = g_taken s"
    "g_started (g_finish d err l s) = g_started s" "g_lanes (g_finish d err l s) = l"
    by (simp_all add: g_finish_def split: prod.splits)
  have "lane_inv decode (g_finish d err l s)"
    by (rule lane_quiet_inv [OF lane_finish.hyps]) (use lane_finish in \<open>simp_all add: same\<close>)
  then show ?case
    using lane_finish.prems by (simp add: order_inv_def in_transit_def same)
next
  case (lane_leave s k l)
  have "lane_inv decode (s\<lparr>g_lanes := l\<rparr>)"
    by (rule lane_quiet_inv [OF lane_leave.hyps]) (use lane_leave in simp_all)
  then show ?case
    using lane_leave.prems by (simp add: order_inv_def in_transit_def)
next
  case (move s i m' ss ov stored)
  have "order_inv decode (g_move m' ss ov stored s)"
    by (rule move_inv [OF move.hyps]) (use move.prems in simp_all)
  then show ?case using move.prems by (simp add: lane_inv_def g_move_def)
next
  case (broker_closed s)
  have "order_inv decode (s\<lparr>g_phase := Draining\<rparr>)"
    by (rule order_inv_cong [of decode s]) (use broker_closed.prems in \<open>simp_all add: in_transit_def order_inv_def\<close>)
  then show ?case using broker_closed.prems by (simp add: lane_inv_def)
next
  case (spill_closed s)
  have n: "ov_nonce (close_overflow (g_ov s)) = ov_nonce (g_ov s)" by (simp add: close_overflow_def)
  have c: "ov_channels (close_overflow (g_ov s)) = ov_channels (g_ov s)" "ov_spills (close_overflow (g_ov s)) = ov_spills (g_ov s)"
    "ov_fresh (close_overflow (g_ov s)) = ov_fresh (g_ov s)" "ov_queue (close_overflow (g_ov s)) = ov_queue (g_ov s)"
    by (simp_all add: close_overflow_def)
  have "order_inv decode (s\<lparr>g_phase := Closing, g_ov := close_overflow (g_ov s)\<rparr>)"
    by (rule order_inv_cong [of decode s])
       (use spill_closed.prems in \<open>simp_all add: in_transit_def order_inv_def numbered_nonce [OF n]
          unnumbered_nonce [OF n] book_def ov_wf_cong [OF c(1,3)] c\<close>)
  then show ?case using spill_closed.prems by (simp add: lane_inv_def)
next
  case (returned s)
  have "order_inv decode (s\<lparr>g_phase := Stopped, g_settled := g_settled s @ requeueInOrder (g_requeue s),
      g_gone := g_gone s @ map d_body (g_requeue s), g_requeue := []\<rparr>)"
    by (rule order_inv_cong [of decode s]) (use returned.prems in \<open>simp_all add: in_transit_def order_inv_def\<close>)
  then show ?case using returned.prems by (simp add: lane_inv_def)
qed

lemma grun_inv:
  "grun decode prefetch s es s' \<Longrightarrow> list_all calm es \<Longrightarrow> order_inv decode s \<and> lane_inv decode s \<Longrightarrow>
   order_inv decode s' \<and> lane_inv decode s'"
  by (induction rule: grun.induct) (auto dest: gstep_inv)

section \<open>Every delivery is settled once, no message is lost\<close>

lemma ov_stop_admits [simp]: "ov_stop (snd (admits now k d ov)) = ov_stop ov"
  by (auto simp: admits_def split: option.splits prod.splits)

lemma ov_stop_admitted [simp]: "ov_stop (admitted now k d ov) = ov_stop ov"
  by (auto simp: admitted_def Let_def split: option.splits prod.splits)

lemma ov_stop_send [simp]: "ov_stop (send now k d ov) = ov_stop ov"
  by (auto simp: send_def spill_for_def Let_def split: option.splits prod.splits)

lemma consume_delivery_cases:
  assumes "consume_delivery decode now now' d l ov = (v, ss, l', ov')"
  obtains (bad) e where "decode (d_body d) = Inl e" "v = Undecodable e" "ss = [Nack (d_tag d) False]" "l' = l" "ov' = ov"
    | (taken) k where "decode (d_body d) = Inr k" "v = Admitted k" "ss = []" "lanes_run k d l = (True, l')"
      "ov_queue ov' = ov_queue ov" "ov_stop ov' = ov_stop ov"
    | (spilled) k i where "decode (d_body d) = Inr k" "v = Spilled k" "ss = []" "l' = l" "it_delivery i = d"
      "ov_queue ov' = ov_queue ov @ [i]" "ov_stop ov' = ov_stop ov"
proof (cases "decode (d_body d)")
  case (Inl e)
  with assms bad show ?thesis by (auto simp: consume_delivery_def settle_def)
next
  case (Inr k)
  obtain ok ov1 where a: "admits now k d ov = (ok, ov1)" by (cases "admits now k d ov")
  have keep: "ov_queue ov1 = ov_queue ov" "ov_stop ov1 = ov_stop ov"
    using ov_queue_admits [of now k d ov] ov_stop_admits [of now k d ov] a by simp_all
  obtain t l1 where r: "(if ok then lanes_run k d l else (False, l)) = (t, l1)"
    by (cases "if ok then lanes_run k d l else (False, l)")
  show ?thesis
  proof (cases t)
    case True
    with r have run: "lanes_run k d l = (True, l1)" by (auto split: if_splits)
    from assms Inr a r True have "v = Admitted k" "ss = []" "l' = l1" "ov' = admitted now' k d ov1"
      by (auto simp: consume_delivery_def)
    with Inr keep run show ?thesis by (intro taken) auto
  next
    case False
    with r have "l1 = l" by (auto split: if_splits dest: lanes_run_refused)
    with assms Inr a r False have "v = Spilled k" "ss = []" "l' = l" "ov' = send now' k d ov1"
      by (auto simp: consume_delivery_def)
    moreover obtain i where "ov_queue (send now' k d ov1) = ov_queue ov1 @ [i]" "it_delivery i = d"
      using send_queue [of now' k d ov1] by fastforce
    ultimately show ?thesis using Inr keep by (intro spilled) auto
  qed
qed

definition jobs_inv :: "(string \<Rightarrow> string result) \<Rightarrow> gstate \<Rightarrow> bool" where
  "jobs_inv decode s \<longleftrightarrow>
     lanes_wf (g_lanes s) \<and>
     (\<forall>k. mset (filter (\<lambda>d. decode (d_body d) = Inr k) (g_jobs s)) =
        mset (queued (g_lanes s) k) + mset (executing k (g_lanes s))) \<and>
     (\<forall>d\<in>set (g_jobs s). is_ok (decode (d_body d)))"

definition tags_inv :: "gstate \<Rightarrow> bool" where
  "tags_inv s \<longleftrightarrow>
     mset (map d_tag (in_hand s)) + mset (map settled_tag (g_settled s)) = mset [1..<g_nextTag s] \<and> 1 \<le> g_nextTag s"

definition phase_inv :: "gstate \<Rightarrow> bool" where
  "phase_inv s \<longleftrightarrow>
     (ov_stop (g_ov s) \<longleftrightarrow> g_phase s = Closing \<or> g_phase s = Stopped) \<and>
     (ov_stop (g_ov s) \<longrightarrow> lanes_idle (g_lanes s)) \<and>
     (g_mover s = MGone \<longrightarrow> ov_stop (g_ov s) \<and> ov_queue (g_ov s) = []) \<and>
     (g_phase s = Stopped \<longrightarrow> g_mover s = MGone \<and> g_requeue s = [])"

text \<open>Where the messages that arrived can be found.\<close>

definition whereabouts :: "gstate \<Rightarrow> string multiset" where
  "whereabouts s =
     mset (map d_body (g_ready s)) + mset (map d_body (g_jobs s)) +
     mset (map (\<lambda>i. d_body (it_delivery i)) (mover_unsent (g_mover s) @ ov_queue (g_ov s) @ g_abandoned s)) +
     mset (map d_body (g_requeue s)) + mset (g_gone s)"

lemma jobs_inv_step:
  assumes inv: "jobs_inv decode s" and step: "lane_step (g_lanes s) e l"
    and "g_lanes s' = l" and jobs: "\<And>k. mset (filter (\<lambda>d. decode (d_body d) = Inr k) (g_jobs s')) + mset (finished_by k [e]) =
      mset (filter (\<lambda>d. decode (d_body d) = Inr k) (g_jobs s)) + mset (accepted_by k [e])"
    and "\<forall>d\<in>set (g_jobs s'). is_ok (decode (d_body d))"
  shows "jobs_inv decode s'"
proof -
  have wf: "lanes_wf (g_lanes s)" "lanes_wf l" using inv step by (auto simp: jobs_inv_def intro: lane_step_wf)
  have "mset (filter (\<lambda>d. decode (d_body d) = Inr k) (g_jobs s')) = mset (queued l k) + mset (executing k l)" for k
  proof -
    have log: "queued (g_lanes s) k @ accepted_by k [e] = started_by k [e] @ queued l k"
        "executing k (g_lanes s) @ started_by k [e] = finished_by k [e] @ executing k l"
      using lane_step_log [OF step wf(1), of k] by (auto simp: lane_log_def)
    have "mset (queued (g_lanes s) k) + mset (accepted_by k [e]) = mset (started_by k [e]) + mset (queued l k)"
        "mset (executing k (g_lanes s)) + mset (started_by k [e]) = mset (finished_by k [e]) + mset (executing k l)"
      using arg_cong [OF log(1), of mset] arg_cong [OF log(2), of mset] by simp_all
    moreover have "mset (filter (\<lambda>d. decode (d_body d) = Inr k) (g_jobs s)) =
        mset (queued (g_lanes s) k) + mset (executing k (g_lanes s))"
      using inv by (simp add: jobs_inv_def)
    ultimately have "mset (finished_by k [e]) + mset (filter (\<lambda>d. decode (d_body d) = Inr k) (g_jobs s')) =
        mset (finished_by k [e]) + (mset (queued l k) + mset (executing k l))"
      using jobs [of k] by (simp add: ac_simps)
    then show ?thesis by simp
  qed
  then show ?thesis using assms(3,5) wf(2) by (simp add: jobs_inv_def)
qed

lemma running_job:
  assumes "jobs_inv decode s" "lane_step (g_lanes s) (Finish k d) l"
  shows "d \<in> set (g_jobs s)" "decode (d_body d) = Inr k"
proof -
  from assms(2) have "d \<in> set (executing k (g_lanes s))"
    by (force simp: lane_step_simps executing_def)
  then have "d \<in># mset (filter (\<lambda>d. decode (d_body d) = Inr k) (g_jobs s))"
    using assms(1) by (simp only: jobs_inv_def) simp
  then show "d \<in> set (g_jobs s)" "decode (d_body d) = Inr k" by simp_all
qed

definition hand_inv :: "(string \<Rightarrow> string result) \<Rightarrow> gstate \<Rightarrow> bool" where
  "hand_inv decode s \<longleftrightarrow>
     jobs_inv decode s \<and> tags_inv s \<and> phase_inv s \<and> mset (g_arrived s) \<subseteq># whereabouts s"

lemma hand_inv_start: "hand_inv decode (g_start nonce p b)"
  by (simp add: hand_inv_def jobs_inv_def tags_inv_def phase_inv_def whereabouts_def g_start_def in_hand_def
      lanes_wf_new)
     (simp add: newLanes_def newOverflow_def queued_def executing_def)

lemma lanes_idle_step:
  "lanes_idle l \<Longrightarrow> lane_step l e l' \<Longrightarrow> (\<forall>k j. e \<noteq> Accept k j) \<Longrightarrow> lanes_idle l'"
  by (cases e) (auto simp: lane_step_simps lanes_idle_def at_loop_head_def lanes_finish_def dest: lanes_run_refused)

lemma hand_consume:
  assumes ph: "g_phase s = Consuming" and ready: "g_ready s = d # rest"
    and cons: "g_consume decode now now' d rest s = (v, s')" and inv: "hand_inv decode s"
  shows "hand_inv decode s'"
proof -
  define d' where "d' = d\<lparr>d_tag := g_nextTag s\<rparr>"
  have d': "d_body d' = d_body d" "d_tag d' = g_nextTag s" by (simp_all add: d'_def)
  obtain v1 ss l ov where c: "consume_delivery decode now now' d' (g_lanes s) (g_ov s) = (v1, ss, l, ov)"
    by (metis prod_cases4)
  have v: "v1 = v" and s': "s' = s\<lparr>g_ready := rest, g_nextTag := Suc (g_nextTag s), g_lanes := l, g_ov := ov,
      g_settled := g_settled s @ ss, g_taken := g_taken s @ (case v of Admitted k \<Rightarrow> [d_body d] | _ \<Rightarrow> []),
      g_jobs := g_jobs s @ (case v of Admitted k \<Rightarrow> [d'] | _ \<Rightarrow> []),
      g_gone := g_gone s @ (case v of Undecodable e \<Rightarrow> [d_body d] | _ \<Rightarrow> [])\<rparr>"
    using cons c unfolding d'_def by (auto simp: g_consume_def Let_def)
  have tags: "mset_set {Suc 0..<Suc (g_nextTag s)} = add_mset (g_nextTag s) (mset_set {Suc 0..<g_nextTag s})"
    using inv by (simp add: hand_inv_def tags_inv_def atLeastLessThanSuc)
  have jobs: "jobs_inv decode s" and ti: "tags_inv s" and pi: "phase_inv s"
    and wi: "mset (g_arrived s) \<subseteq># whereabouts s" using inv by (simp_all add: hand_inv_def)
  from c [unfolded v] show ?thesis
  proof (cases rule: consume_delivery_cases)
    case (bad e)
    have "whereabouts s' = whereabouts s" using bad ready by (simp add: s' whereabouts_def)
    with bad jobs ti pi wi show ?thesis
      by (auto simp add: hand_inv_def s' jobs_inv_def tags_inv_def phase_inv_def in_hand_def tags d' simp del: upt_Suc)
  next
    case (taken k)
    have "whereabouts s' = whereabouts s" using taken ready by (simp add: s' whereabouts_def d')
    moreover have "jobs_inv decode s'"
      by (rule jobs_inv_step [of decode s "Accept k d'" l])
         (use jobs taken in \<open>simp_all add: s' lane_step_simps d' jobs_inv_def\<close>)
    moreover have "tags_inv s'"
      using taken ti by (simp add: s' tags_inv_def in_hand_def tags d' del: upt_Suc)
    moreover have "phase_inv s'"
      using taken pi ph by (auto simp: s' phase_inv_def)
    moreover have "g_arrived s' = g_arrived s" by (simp add: s')
    ultimately show ?thesis using wi by (simp add: hand_inv_def)
  next
    case (spilled k i)
    have "whereabouts s' = whereabouts s" using spilled ready by (simp add: s' whereabouts_def d')
    moreover have "tags_inv s'"
      using spilled ti by (simp add: s' tags_inv_def in_hand_def tags d' del: upt_Suc)
    moreover have "phase_inv s'"
      using spilled pi ph by (auto simp: s' phase_inv_def)
    moreover have "jobs_inv decode s'"
      using spilled jobs by (simp add: s' jobs_inv_def)
    moreover have "g_arrived s' = g_arrived s" by (simp add: s')
    ultimately show ?thesis using wi by (simp add: hand_inv_def)
  qed
qed

lemma hand_finish:
  assumes step: "lane_step (g_lanes s) (Finish k d) l" and inv: "hand_inv decode s"
  shows "hand_inv decode (g_finish d err l s)"
proof -
  have jobs: "jobs_inv decode s" using inv by (simp add: hand_inv_def)
  note job = running_job [OF jobs step]
  have "jobs_inv decode (g_finish d err l s)"
  proof (rule jobs_inv_step [OF jobs step])
    show "g_lanes (g_finish d err l s) = l" by (simp add: g_finish_def split: prod.splits)
    show "\<forall>d\<in>set (g_jobs (g_finish d err l s)). is_ok (decode (d_body d))"
      using jobs set_remove1_subset [of d "g_jobs s"]
      by (auto simp: g_finish_def jobs_inv_def split: prod.splits)
    show "mset (filter (\<lambda>d. decode (d_body d) = Inr k') (g_jobs (g_finish d err l s))) +
        mset (finished_by k' [Finish k d]) =
        mset (filter (\<lambda>d. decode (d_body d) = Inr k') (g_jobs s)) + mset (accepted_by k' [Finish k d])" for k'
      using job by (auto simp: g_finish_def filter_remove1_same filter_remove1_other split: prod.splits)
  qed
  moreover have "tags_inv (g_finish d err l s)"
  proof -
    have "image_mset d_tag (mset (g_jobs s)) = add_mset (d_tag d) (image_mset d_tag (mset (remove1 d (g_jobs s))))"
      using job(1) by (metis image_mset_add_mset insert_DiffM mset_remove1 set_mset_mset)
    with inv show ?thesis
      by (auto simp: hand_inv_def tags_inv_def g_finish_def finish_job_def in_hand_def settle_def)
  qed
  moreover have "phase_inv (g_finish d err l s)"
  proof -
    have "lanes_idle (g_lanes s) \<Longrightarrow> lanes_idle l" using lanes_idle_step [OF _ step] by simp
    moreover have "\<not> lanes_idle (g_lanes s)"
    proof -
      have "d \<in> set (executing k (g_lanes s))" using step by (force simp: lane_step_simps executing_def)
      then show ?thesis using jobs lanes_wf_idle(2) [of "g_lanes s" k] by (auto simp: jobs_inv_def)
    qed
    ultimately show ?thesis
      using inv by (auto simp: hand_inv_def phase_inv_def g_finish_def split: prod.splits)
  qed
  moreover have "whereabouts (g_finish d err l s) = whereabouts s"
  proof -
    have "image_mset d_body (mset (g_jobs s)) = add_mset (d_body d) (image_mset d_body (mset (remove1 d (g_jobs s))))"
      using job(1) by (metis image_mset_add_mset insert_DiffM mset_remove1 set_mset_mset)
    then show ?thesis by (auto simp: whereabouts_def g_finish_def finish_job_def)
  qed
  moreover have "g_arrived (g_finish d err l s) = g_arrived s" by (simp add: g_finish_def split: prod.splits)
  ultimately show ?thesis using inv by (simp add: hand_inv_def)
qed

lemma moveToTail_live:
  "moveToTail ov m i = Some (m', ss) \<Longrightarrow> m \<noteq> MIdle \<and> m \<noteq> MGone \<and> m' \<noteq> MIdle \<and> m' \<noteq> MGone"
  by (cases m; cases i) (auto simp: moveToTail_def split: if_splits option.splits)

lemma hand_move:
  assumes run: "overflow_run (g_mover s) i (g_ov s) = Some (m', ss, ov)"
    and stored: "i = Attempt None \<longrightarrow> stored" and inv: "hand_inv decode s"
  shows "hand_inv decode (g_move m' ss ov stored s)"
proof -
  define s' where "s' = g_move m' ss ov stored s"
  have simple: "g_lanes s' = g_lanes s" "g_jobs s' = g_jobs s" "g_requeue s' = g_requeue s" "g_phase s' = g_phase s"
    "g_nextTag s' = g_nextTag s" "g_arrived s' = g_arrived s" "g_gone s' = g_gone s" "g_ov s' = ov"
    "g_mover s' = m'" "g_settled s' = g_settled s @ ss"
    by (simp_all add: s'_def g_move_def)
  from run have "ov_stop ov = ov_stop (g_ov s) \<and> (m' = MGone \<longrightarrow> ov_stop ov \<and> ov_queue ov = []) \<and> g_mover s \<noteq> MGone \<and>
      mset (map d_tag (map it_delivery (mover_holds m' @ ov_queue ov))) + mset (map settled_tag ss) =
      mset (map d_tag (map it_delivery (mover_holds (g_mover s) @ ov_queue (g_ov s)))) \<and>
      mset (map (\<lambda>i. d_body (it_delivery i)) (mover_unsent (g_mover s) @ ov_queue (g_ov s) @ g_abandoned s)) +
        mset (map d_body (g_ready s)) \<subseteq>#
      mset (map (\<lambda>i. d_body (it_delivery i)) (mover_unsent m' @ ov_queue ov @ g_abandoned s')) +
        mset (map d_body (g_ready s'))"
  proof (cases rule: overflow_run_cases)
    case (take item)
    then show ?thesis by (cases ov) (simp add: s'_def g_move_def)
  next
    case gone
    then show ?thesis by (simp add: s'_def g_move_def)
  next
    case (decrement item)
    then show ?thesis by (simp add: s'_def g_move_def)
  next
    case move
    from move(1) show ?thesis
    proof (cases rule: moveToTail_cases)
      case (settled item)
      with move(2) show ?thesis by (simp add: s'_def g_move_def)
    next
      case (given_up item)
      with move(2) show ?thesis
        by (cases "g_mover s") (auto simp: s'_def g_move_def)
    next
      case (published item w)
      with stored move(2) show ?thesis by (simp add: s'_def g_move_def tail_copy_def)
    next
      case on
      with move(2) moveToTail_live [OF move(1)] show ?thesis
        by (cases "g_mover s"; cases m') (simp_all add: s'_def g_move_def)
    qed
  qed
  note facts = this
  have "jobs_inv decode s'" using inv by (simp add: hand_inv_def jobs_inv_def simple)
  moreover have "tags_inv s'"
  proof -
    let ?A = "mset (map d_tag (g_jobs s)) + mset (map d_tag (g_requeue s)) + mset (map settled_tag (g_settled s))"
    let ?X = "mset (map d_tag (map it_delivery (mover_holds m' @ ov_queue ov))) + mset (map settled_tag ss)"
    let ?Y = "mset (map d_tag (map it_delivery (mover_holds (g_mover s) @ ov_queue (g_ov s))))"
    have eq: "?X = ?Y" using facts by blast
    have "mset (map d_tag (in_hand s')) + mset (map settled_tag (g_settled s')) = ?A + ?X"
      by (simp add: in_hand_def simple ac_simps)
    also have "\<dots> = ?A + ?Y" by (simp only: eq)
    also have "\<dots> = mset (map d_tag (in_hand s)) + mset (map settled_tag (g_settled s))"
      by (simp add: in_hand_def ac_simps)
    finally show ?thesis using inv by (simp only: hand_inv_def tags_inv_def simple)
  qed
  moreover have "phase_inv s'"
    using inv facts by (auto simp: hand_inv_def phase_inv_def simple)
  moreover have "whereabouts s \<subseteq># whereabouts s'"
    using facts by (simp add: whereabouts_def simple ac_simps)
  ultimately show ?thesis
    using inv by (auto simp: hand_inv_def simple simp flip: s'_def)
qed

lemma hand_inv_cong:
  assumes "hand_inv decode s" "g_lanes s' = g_lanes s" "g_jobs s' = g_jobs s" "g_requeue s' = g_requeue s"
    "g_nextTag s' = g_nextTag s" "g_settled s' = g_settled s" "g_mover s' = g_mover s"
    "ov_queue (g_ov s') = ov_queue (g_ov s)" "phase_inv s'"
    "mset (g_arrived s') - mset (g_arrived s) + whereabouts s \<subseteq># whereabouts s'"
    "mset (g_arrived s) \<subseteq># mset (g_arrived s')"
  shows "hand_inv decode s'"
proof -
  have "mset (g_arrived s') = (mset (g_arrived s') - mset (g_arrived s)) + mset (g_arrived s)"
    using assms(11) by simp
  also have "\<dots> \<subseteq># (mset (g_arrived s') - mset (g_arrived s)) + whereabouts s"
    using assms(1) by (simp add: hand_inv_def)
  also have "\<dots> \<subseteq># whereabouts s'" by (rule assms(10))
  finally show ?thesis
    using assms(1-9) by (simp add: hand_inv_def jobs_inv_def tags_inv_def in_hand_def)
qed

lemma gstep_hand: "gstep decode prefetch s e s' \<Longrightarrow> hand_inv decode s \<Longrightarrow> hand_inv decode s'"
proof (induction rule: gstep.induct)
  case (arrive s d)
  show ?case
    by (rule hand_inv_cong [OF arrive.prems])
       (use arrive.prems in \<open>auto simp: hand_inv_def phase_inv_def whereabouts_def\<close>)
next
  case (consume s d rest now now' v s')
  then show ?case by (intro hand_consume [OF consume.hyps(1,2,4)])
next
  case (lane_start s k d l)
  have jobs: "jobs_inv decode s" using lane_start.prems by (simp add: hand_inv_def)
  have "jobs_inv decode (s\<lparr>g_lanes := l, g_started := g_started s @ [d_body d]\<rparr>)"
    by (rule jobs_inv_step [OF jobs lane_start.hyps]) (use jobs in \<open>simp_all add: jobs_inv_def\<close>)
  moreover have "lanes_idle (g_lanes s) \<Longrightarrow> lanes_idle l" using lanes_idle_step [OF _ lane_start.hyps] by simp
  ultimately show ?case
    using lane_start.prems by (auto simp: hand_inv_def tags_inv_def phase_inv_def in_hand_def whereabouts_def)
next
  case (lane_finish s k d l err)
  then show ?case by (rule hand_finish)
next
  case (lane_leave s k l)
  have jobs: "jobs_inv decode s" using lane_leave.prems by (simp add: hand_inv_def)
  have "jobs_inv decode (s\<lparr>g_lanes := l\<rparr>)"
    by (rule jobs_inv_step [OF jobs lane_leave.hyps]) (use jobs in \<open>simp_all add: jobs_inv_def\<close>)
  moreover have "lanes_idle (g_lanes s) \<Longrightarrow> lanes_idle l" using lanes_idle_step [OF _ lane_leave.hyps] by simp
  ultimately show ?case
    using lane_leave.prems by (auto simp: hand_inv_def tags_inv_def phase_inv_def in_hand_def whereabouts_def)
next
  case (move s i m' ss ov stored)
  then show ?case by (intro hand_move)
next
  case (broker_closed s)
  show ?case
    by (rule hand_inv_cong [OF broker_closed.prems])
       (use broker_closed in \<open>auto simp: hand_inv_def phase_inv_def whereabouts_def\<close>)
next
  case (spill_closed s)
  show ?case
    by (rule hand_inv_cong [OF spill_closed.prems])
       (use spill_closed in \<open>auto simp: hand_inv_def phase_inv_def whereabouts_def close_overflow_def\<close>)
next
  case (returned s)
  then show ?case
    by (auto simp: hand_inv_def phase_inv_def whereabouts_def jobs_inv_def tags_inv_def in_hand_def ac_simps
        simp del: mset_map simp flip: mset_requeueInOrder)
qed

lemma grun_hand: "grun decode prefetch s es s' \<Longrightarrow> hand_inv decode s \<Longrightarrow> hand_inv decode s'"
  by (induction rule: grun.induct) (auto dest: gstep_hand)

lemma window_in_hand: "tags_inv s \<Longrightarrow> window_used s = int (length (in_hand s))"
proof -
  assume t: "tags_inv s"
  then have "size (mset (map d_tag (in_hand s)) + mset (map settled_tag (g_settled s))) = size (mset [1..<g_nextTag s])"
    by (simp only: tags_inv_def)
  then have "length (in_hand s) + length (g_settled s) = g_nextTag s - 1" by simp
  with t show ?thesis by (auto simp: window_used_def tags_inv_def)
qed

lemma stopped_empty:
  assumes "hand_inv decode s" "g_phase s = Stopped"
  shows "in_hand s = []"
proof -
  from assms have ph: "lanes_idle (g_lanes s)" "g_mover s = MGone" "ov_queue (g_ov s) = []" "g_requeue s = []"
    by (auto simp: hand_inv_def phase_inv_def)
  have wf: "lanes_wf (g_lanes s)" using assms(1) by (simp add: hand_inv_def jobs_inv_def)
  have "filter (\<lambda>d. decode (d_body d) = Inr k) (g_jobs s) = []" for k
  proof -
    have "mset (filter (\<lambda>d. decode (d_body d) = Inr k) (g_jobs s)) = {#}"
      using assms(1) lanes_wf_idle [OF wf ph(1), of k] by (simp only: hand_inv_def jobs_inv_def) simp
    then show ?thesis by (simp only: mset_zero_iff)
  qed
  moreover have "\<forall>d\<in>set (g_jobs s). \<exists>k. decode (d_body d) = Inr k"
  proof
    fix d assume "d \<in> set (g_jobs s)"
    then have "is_ok (decode (d_body d))" using assms(1) by (auto simp: hand_inv_def jobs_inv_def)
    then show "\<exists>k. decode (d_body d) = Inr k" by (cases "decode (d_body d)") auto
  qed
  ultimately have "d \<notin> set (g_jobs s)" for d unfolding filter_empty_conv by blast
  then have "g_jobs s = []" by (metis list.set_intros(1) neq_Nil_conv)
  with ph show ?thesis by (simp add: in_hand_def)
qed

lemma counted_gstep:
  "gstep decode prefetch s e s' \<Longrightarrow> ov_wf (g_ov s) \<and> counted (g_ov s) (g_mover s) \<Longrightarrow>
   ov_wf (g_ov s') \<and> counted (g_ov s') (g_mover s')"
proof (induction rule: gstep.induct)
  case (consume s d rest now now' v s')
  define d' where "d' = d\<lparr>d_tag := g_nextTag s\<rparr>"
  obtain v1 ss l ov where c: "consume_delivery decode now now' d' (g_lanes s) (g_ov s) = (v1, ss, l, ov)"
    by (metis prod_cases4)
  have s': "g_ov s' = ov" "g_mover s' = g_mover s"
    using consume.hyps(4) c unfolding d'_def by (auto simp: g_consume_def Let_def)
  show ?case
  proof (cases "decode (d_body d')")
    case (Inl e)
    with c consume.prems show ?thesis by (simp add: s' consume_delivery_def)
  next
    case (Inr k)
    have "ov_wf (snd (admits now k d' (g_ov s))) \<and> counted (snd (admits now k d' (g_ov s))) (g_mover s)"
      using consume.prems by (simp add: ov_wf_admits counted_admits)
    with Inr c show ?thesis
      by (auto simp: s' consume_delivery_def ov_wf_admitted counted_admitted ov_wf_send counted_send
          split: prod.splits if_splits)
  qed
next
  case (move s i m' ss ov stored)
  have "counted ov m'" using move by (auto intro: counted_run)
  moreover have "ov_wf ov"
    using move.hyps(1)
  proof (cases rule: overflow_run_cases)
    case (take item)
    with move.prems show ?thesis by (cases ov) (auto simp: ov_wf_def)
  next
    case (decrement item)
    with move.prems show ?thesis by simp
  qed (use move.prems in simp_all)
  ultimately show ?case by (simp add: g_move_def)
next
  case (spill_closed s)
  then show ?case by (simp add: close_overflow_def ov_wf_def counted_def outstanding_def)
qed (auto simp: g_finish_def split: prod.splits)

lemma counted_grun:
  "grun decode prefetch s es s' \<Longrightarrow> ov_wf (g_ov s) \<and> counted (g_ov s) (g_mover s) \<Longrightarrow>
   ov_wf (g_ov s') \<and> counted (g_ov s') (g_mover s')"
  by (induction rule: grun.induct) (auto dest: counted_gstep)

lemma counted_start: "ov_wf (g_ov (g_start nonce p b)) \<and> counted (g_ov (g_start nonce p b)) (g_mover (g_start nonce p b))"
  by (simp add: g_start_def ov_wf_new counted_new)

section \<open>Properties\<close>



text \<open>
  The loop never blocks on the overflow: whenever the broker may hand out another delivery,
  the buffered channel of items, whose capacity is the prefetch window, has a free slot. And the
  counter of unpublished items of every spill is the number of its items that the mover has still
  to deal with.
\<close>

lemma group_send_never_blocks:
  assumes "grun decode prefetch (g_start nonce p b) es s" and "window_used s < int prefetch"
    and "prefetch = nat (orDefault p 64)"
  shows "length (ov_queue (g_ov s)) < nat (orDefault p 64) \<and>
    sp_unpublished (ov_spills (g_ov s) q) = int (outstanding (g_ov s) (g_mover s) q)"
proof -
  have "hand_inv decode s" using grun_hand [OF assms(1) hand_inv_start] .
  then have "window_used s = int (length (in_hand s))" by (simp add: hand_inv_def window_in_hand)
  moreover have "length (ov_queue (g_ov s)) \<le> length (in_hand s)" by (simp add: in_hand_def)
  ultimately have "length (ov_queue (g_ov s)) < nat (orDefault p 64)" using assms(2,3) by linarith
  moreover have "counted (g_ov s) (g_mover s)" using counted_grun [OF assms(1) counted_start] ..
  ultimately show ?thesis by (simp add: counted_def)
qed

section \<open>A concrete run\<close>

definition msg :: "string \<Rightarrow> delivery" where
  "msg b = \<lparr>d_tag = 0, d_headers = Map.empty, d_contentType = [], d_messageId = [], d_timestamp = 0, d_body = b\<rparr>"

definition run0 :: gstate where "run0 = g_start ''n'' 2 1"
definition run1 :: gstate where
  "run1 = run0\<lparr>g_ready := [msg ''a'', msg ''b''], g_arrived := [''a'', ''b'']\<rparr>"
definition run2 :: gstate where "run2 = snd (g_consume (\<lambda>b. Inr ''c'') 0 0 (msg ''a'') [msg ''b''] run1)"
definition run3 :: gstate where "run3 = snd (g_consume (\<lambda>b. Inr ''c'') 0 0 (msg ''b'') [] run2)"
definition run4 :: gstate where
  "run4 = run3\<lparr>g_lanes := snd (lanes_drain ''c'' (g_lanes run3)), g_started := [''a'']\<rparr>"

lemmas run_defs = run0_def run1_def run2_def run3_def run4_def g_start_def msg_def g_consume_def
  consume_delivery_def newLanes_def newOverflow_def lanes_run_def lanes_drain_def queued_def orDefault_def
  admits_def admitted_def send_def spill_for_def copyNumber_def blank_spill_def window_used_def Let_def

lemma concrete_run:
  "grun (\<lambda>b. Inr ''c'') 2 (g_start ''n'' 2 1)
     [Arrive (msg ''a''), Arrive (msg ''b''), Consume 0 0 (Admitted ''c'') False, Consume 0 0 (Spilled ''c'') False,
      Lane (Start ''c'' (msg ''a''\<lparr>d_tag := 1\<rparr>)) None] run4"
proof -
  let ?dec = "\<lambda>b. Inr ''c'' :: string result"
  have "gstep ?dec 2 run0 (Arrive (msg ''a'')) (run0\<lparr>g_ready := [msg ''a''], g_arrived := [''a'']\<rparr>)"
    by (simp add: gstep_simps run_defs)
  then have "grun ?dec 2 run0 [Arrive (msg ''a'')] (run0\<lparr>g_ready := [msg ''a''], g_arrived := [''a'']\<rparr>)"
    using grun_snoc [OF grun_nil] by fastforce
  moreover have "gstep ?dec 2 (run0\<lparr>g_ready := [msg ''a''], g_arrived := [''a'']\<rparr>) (Arrive (msg ''b'')) run1"
    by (simp add: gstep_simps run_defs)
  ultimately have "grun ?dec 2 run0 [Arrive (msg ''a''), Arrive (msg ''b'')] run1"
    by (auto dest: grun_snoc)
  moreover have "gstep ?dec 2 run1 (Consume 0 0 (Admitted ''c'') False) run2"
    by (simp add: gstep_simps run_defs spill_stalled_def channel_stalled_def)
  ultimately have "grun ?dec 2 run0 [Arrive (msg ''a''), Arrive (msg ''b''), Consume 0 0 (Admitted ''c'') False] run2"
    by (auto dest: grun_snoc)
  moreover have "gstep ?dec 2 run2 (Consume 0 0 (Spilled ''c'') False) run3"
    by (simp add: gstep_simps run_defs spill_stalled_def channel_stalled_def)
  ultimately have "grun ?dec 2 run0 [Arrive (msg ''a''), Arrive (msg ''b''), Consume 0 0 (Admitted ''c'') False,
      Consume 0 0 (Spilled ''c'') False] run3"
    by (auto dest: grun_snoc)
  moreover have "gstep ?dec 2 run3 (Lane (Start ''c'' (msg ''a''\<lparr>d_tag := 1\<rparr>)) None) run4"
    by (simp add: gstep_simps lane_step_simps at_loop_head_def run_defs)
  ultimately show ?thesis
    by (auto dest: grun_snoc simp: run0_def)
qed



end
