(* ===== verification/Contracts.thy ===== *)
theory Contracts
  imports Prelude "HOL-Library.Word"
begin

text \<open>
  The messages of internal/amqp/contracts.go and the events of internal/amqp/publisher.go: the
  commands that the gateway consumes and the events that it publishes, field by field. A Go
  pointer is an option. A float64 is kept as its bits; a json.RawMessage is its text.
\<close>

type_synonym float64 = "64 word"

section \<open>Sending\<close>

record MediaPayload =
  mp_url :: string
  mp_mime :: string
  mp_filename :: string
  mp_voice :: bool
  mp_waveform :: string
  mp_durationSeconds :: "32 word"

record LocationPayload =
  lp_lat :: float64
  lp_lng :: float64
  lp_name :: string
  lp_address :: string

record ContactPayload =
  cp_name :: string
  cp_vcard :: string

record ReplyToPayload =
  rt_providerMessageID :: string
  rt_participantJID :: string
  rt_text :: string
  rt_fromMe :: bool

record InteractiveButton =
  ib_id :: string
  ib_text :: string
  ib_url :: string

record InteractiveRow =
  ir_id :: string
  ir_title :: string
  ir_description :: string

record InteractiveSection =
  is_title :: string
  is_rows :: "InteractiveRow list"

record InteractivePayload =
  ip_body :: string
  ip_footer :: string
  ip_buttons :: "InteractiveButton list"
  ip_buttonText :: string
  ip_sections :: "InteractiveSection list"

record GatewaySendCommand =
  sc_tenantID :: string
  sc_channelID :: string
  sc_messageID :: string
  sc_to :: string
  sc_type :: string
  sc_kind :: string
  sc_targetProviderMessageID :: string
  sc_targetFromMe :: bool
  sc_targetParticipantJID :: string
  sc_emoji :: string
  sc_forwarded :: bool
  sc_text :: string
  sc_media :: "MediaPayload option"
  sc_location :: "LocationPayload option"
  sc_contacts :: "ContactPayload list"
  sc_replyTo :: "ReplyToPayload option"
  sc_mentions :: "string list"
  sc_interactive :: "InteractivePayload option"

section \<open>Calls, pairing and settings\<close>

record GatewayCallCommand =
  cc_tenantID :: string
  cc_channelID :: string
  cc_commandID :: string
  cc_callID :: string
  cc_action :: string
  cc_to :: string
  cc_targets :: "string list"
  cc_groupID :: string
  cc_video :: bool
  cc_mediaURL :: string
  cc_emoji :: string
  cc_orientation :: int
  cc_enabled :: bool
  cc_raised :: bool
  cc_participant :: string
  cc_linkToken :: string
  cc_record :: "bool option"

record PairCommand =
  pc_tenantID :: string
  pc_channelID :: string
  pc_userID :: string
  pc_importHistory :: bool
  pc_importID :: string
  pc_relinkDevice :: bool
  pc_phoneNumber :: string

definition ImportsHistory :: "PairCommand \<Rightarrow> bool" where
  "ImportsHistory c = (pc_importHistory c \<and> pc_importID c \<noteq> [])"

definition PairsByCode :: "PairCommand \<Rightarrow> bool" where
  "PairsByCode c = (pc_phoneNumber c \<noteq> [])"

record SettingsCommand =
  st_tenantID :: string
  st_channelID :: string
  st_listenGroups :: "bool option"
  st_receiveCalls :: "bool option"
  st_callRejectMessage :: "string option"
  st_settingsVersion :: int
  st_removed :: bool

section \<open>History\<close>

definition HistoryBatchKind :: string where "HistoryBatchKind = ''batch''"
definition HistoryDoneKind :: string where "HistoryDoneKind = ''done''"
definition HistorySourceGateway :: string where "HistorySourceGateway = ''gateway''"

record HistoryChat =
  hc_phone :: string
  hc_lid :: "string option"
  hc_profileName :: "string option"
  hc_messages :: "string list"

record HistoryBatch =
  hb_kind :: string
  hb_tenantID :: string
  hb_channelID :: string
  hb_importID :: string
  hb_source :: string
  hb_chunkOrder :: nat
  hb_sourceProgress :: nat
  hb_batchIndex :: int
  hb_batchesInChunk :: int
  hb_chats :: "HistoryChat list"

record HistoryDone =
  hd_kind :: string
  hd_tenantID :: string
  hd_channelID :: string
  hd_importID :: string
  hd_source :: string
  hd_totalBatches :: int
  hd_skippedChats :: int

section \<open>Groups\<close>

record GroupActionParams =
  ga_phones :: "string list"
  ga_name :: string
  ga_description :: string
  ga_photoURL :: string

record GatewayGroupCommand =
  gc_commandID :: string
  gc_tenantID :: string
  gc_channelID :: string
  gc_action :: string
  gc_groupJIDs :: "string list"
  gc_params :: GroupActionParams

record GroupActionEvent =
  ge_tenantID :: string
  ge_channelID :: string
  ge_commandID :: string
  ge_groupJID :: string
  ge_action :: string
  ge_ok :: bool
  ge_error :: string
  ge_removed :: "int option"

record GroupParticipant =
  gp_jid :: string
  gp_lid :: string
  gp_phone :: string

record GroupParticipantsEvent =
  gpe_tenantID :: string
  gpe_channelID :: string
  gpe_groupJID :: string
  gpe_type :: string
  gpe_participants :: "GroupParticipant list option"
  gpe_eventID :: string
  gpe_occurredAt :: string

section \<open>Events of a channel\<close>

text \<open>A stored profile picture, internal/avatar/avatar.go.\<close>

record Picture =
  pic_Key :: string
  pic_ID :: string
  pic_MimeType :: string

record ChannelQREvent =
  qr_tenantID :: string
  qr_userID :: string
  qr_channelID :: string
  qr_qr :: string
  qr_pairingCode :: string

record ChannelStatusEvent =
  cs_tenantID :: string
  cs_userID :: string
  cs_channelID :: string
  cs_status :: string
  cs_reason :: string
  cs_phoneNumber :: string
  cs_displayName :: string
  cs_profilePicture :: "Picture option"

end
