(* ===== verification/Broker.thy ===== *)
theory Broker
  imports Delivery Contracts Lanes
begin

text \<open>
  The use of the RabbitMQ connection: internal/amqp/topology.go, the construction and the closing
  of the consumer in internal/amqp/consumer.go, and internal/amqp/publisher.go. Every call of the
  client library that can fail takes its answer from a list of answers given beforehand (an empty
  list answers success), so the theorems speak of every possible pattern of failures. The state
  records the channels that are open and every call, in order.
\<close>

section \<open>The connection\<close>

datatype bcall =
    CChannel nat
  | CExchangeDeclare nat string
  | CQueueDeclare nat string "string option"
  | CQueueBind nat string string
  | CQos nat int
  | CConfirm nat
  | CConsume nat string string
  | CCancel nat string
  | CPublish nat string string
  | CClose nat

record bstate =
  b_answers :: "goerr option list"
  b_live :: "nat list"
  b_next :: nat
  b_calls :: "(bcall \<times> bool) list"

definition b_answer :: "bstate \<Rightarrow> goerr option" where
  "b_answer s = (case b_answers s of [] \<Rightarrow> None | a # as \<Rightarrow> a)"

definition b_call :: "bcall \<Rightarrow> bstate \<Rightarrow> goerr option \<times> bstate" where
  "b_call c s =
     (b_answer s, s\<lparr>b_answers := tl (b_answers s), b_calls := b_calls s @ [(c, b_answer s = None)]\<rparr>)"

definition conn_Channel :: "bstate \<Rightarrow> nat result \<times> bstate" where
  "conn_Channel s =
     (case b_call (CChannel (b_next s)) s of
        (Some e, s') \<Rightarrow> (Inl e, s')
      | (None, s') \<Rightarrow> (Inr (b_next s), s'\<lparr>b_live := b_live s @ [b_next s], b_next := Suc (b_next s)\<rparr>))"

text \<open>Closing a channel frees it even when the call reports an error.\<close>

definition ch_Close :: "nat \<Rightarrow> bstate \<Rightarrow> goerr option \<times> bstate" where
  "ch_Close ch s = (case b_call (CClose ch) s of (e, s') \<Rightarrow> (e, s'\<lparr>b_live := removeAll ch (b_live s)\<rparr>))"

fun close_all :: "nat list \<Rightarrow> bstate \<Rightarrow> bstate" where
  "close_all [] s = s"
| "close_all (ch # chs) s = close_all chs (snd (ch_Close ch s))"

text \<open>
  The pattern of NewConsumer: run a step; when it fails, close the channels opened so far and
  return the error, otherwise go on.
\<close>

definition check ::
  "(goerr \<Rightarrow> goerr) \<Rightarrow> nat list \<Rightarrow> (bstate \<Rightarrow> goerr option \<times> bstate) \<Rightarrow> (bstate \<Rightarrow> 'a result \<times> bstate) \<Rightarrow>
   bstate \<Rightarrow> 'a result \<times> bstate" where
  "check wrap chs act k s =
     (case act s of
        (Some e, s') \<Rightarrow> (Inl (wrap e), close_all chs s')
      | (None, s') \<Rightarrow> k s')"

definition open_channel ::
  "string \<Rightarrow> nat list \<Rightarrow> (nat \<Rightarrow> bstate \<Rightarrow> 'a result \<times> bstate) \<Rightarrow> bstate \<Rightarrow> 'a result \<times> bstate" where
  "open_channel pre chs k s =
     (case conn_Channel s of
        (Inl e, s') \<Rightarrow> (Inl (Wrap pre e []), close_all chs s')
      | (Inr ch, s') \<Rightarrow> k ch s')"

section \<open>Topology\<close>

definition EventsExchange :: string where "EventsExchange = ''sender.events''"

definition assertEventsExchange :: "nat \<Rightarrow> bstate \<Rightarrow> goerr option \<times> bstate" where
  "assertEventsExchange ch s =
     (case b_call (CExchangeDeclare ch EventsExchange) s of
        (Some e, s') \<Rightarrow> (Some (Wrap (''amqp: declare '' @ EventsExchange @ '' exchange: '') e []), s')
      | (None, s') \<Rightarrow> (None, s'))"

fun seq_calls :: "(bcall \<times> string) list \<Rightarrow> bstate \<Rightarrow> goerr option \<times> bstate" where
  "seq_calls [] s = (None, s)"
| "seq_calls ((c, pre) # cs) s =
     (case b_call c s of
        (Some e, s') \<Rightarrow> (Some (Wrap pre e []), s')
      | (None, s') \<Rightarrow> seq_calls cs s')"

definition declareCommandTopology ::
  "nat \<Rightarrow> string \<Rightarrow> string \<Rightarrow> string \<Rightarrow> string \<Rightarrow> bstate \<Rightarrow> goerr option \<times> bstate" where
  "declareCommandTopology ch exchange queue dlx dlq =
     seq_calls
       [(CExchangeDeclare ch exchange, ''amqp: declare '' @ exchange @ '' exchange: ''),
        (CExchangeDeclare ch dlx, ''amqp: declare '' @ dlx @ '' exchange: ''),
        (CQueueDeclare ch dlq None, ''amqp: declare '' @ dlq @ '' queue: ''),
        (CQueueBind ch dlq dlx, ''amqp: bind '' @ dlq @ '' to '' @ dlx @ '': ''),
        (CQueueDeclare ch queue (Some dlx), ''amqp: declare '' @ queue @ '' queue: ''),
        (CQueueBind ch queue exchange, ''amqp: bind '' @ queue @ '' to '' @ exchange @ '': '')]"

definition RpcQueueName :: "string \<Rightarrow> string" where
  "RpcQueueName operation = ''rpc.gateway.'' @ operation"

section \<open>The consumer\<close>

record ConsumerConfig =
  cfg_prefetch :: int
  cfg_groupPrefetch :: int
  cfg_groupLaneBacklog :: int

record consumer = failure_report +
  sendCh :: nat
  pairCh :: nat
  callCh :: nat
  groupCh :: nat
  settingsCh :: nat
  sendStarted :: bool
  pairStarted :: bool
  callStarted :: bool
  groupStarted :: bool
  settingsStarted :: bool
  groupPrefetch :: int
  groupLaneBacklog :: int

definition qos_error :: "string \<Rightarrow> goerr \<Rightarrow> goerr" where
  "qos_error queue e = Wrap (''amqp: set qos on '' @ queue @ '' channel: '') e []"

definition NewConsumer :: "ConsumerConfig \<Rightarrow> bstate \<Rightarrow> consumer result \<times> bstate" where
  "NewConsumer cfg =
     open_channel ''amqp: open gateway.send channel: '' [] (\<lambda>send.
     check id [send] (declareCommandTopology send ''whatsapp.gateway.send.v1'' ''gateway.send'' ''gateway.send.dlx'' ''gateway.send.dlq'') (
     check (qos_error ''gateway.send'') [send] (b_call (CQos send (cfg_prefetch cfg))) (
     open_channel ''amqp: open gateway.pair channel: '' [send] (\<lambda>pair.
     check id [send, pair] (declareCommandTopology pair ''whatsapp.gateway.pair.v1'' ''gateway.pair'' ''gateway.pair.dlx'' ''gateway.pair.dlq'') (
     check (qos_error ''gateway.pair'') [send, pair] (b_call (CQos pair (cfg_prefetch cfg))) (
     open_channel ''amqp: open gateway.call channel: '' [send, pair] (\<lambda>call.
     check id [send, pair, call] (declareCommandTopology call ''whatsapp.gateway.call.v1'' ''gateway.call'' ''gateway.call.dlx'' ''gateway.call.dlq'') (
     check (qos_error ''gateway.call'') [send, pair, call] (b_call (CQos call (cfg_prefetch cfg))) (
     open_channel ''amqp: open gateway.group channel: '' [send, pair, call] (\<lambda>grp.
     check id [send, pair, call, grp] (declareCommandTopology grp ''whatsapp.gateway.group.v1'' ''gateway.group'' ''gateway.group.dlx'' ''gateway.group.dlq'') (
     check (qos_error ''gateway.group'') [send, pair, call, grp] (b_call (CQos grp (orDefault (cfg_groupPrefetch cfg) 64))) (
     check (\<lambda>e. Wrap ''amqp: enable confirms on gateway.group channel: '' e []) [send, pair, call, grp] (b_call (CConfirm grp)) (
     open_channel ''amqp: open gateway.settings channel: '' [send, pair, call, grp] (\<lambda>settings.
     check id [send, pair, call, grp, settings] (declareCommandTopology settings ''whatsapp.gateway.settings'' ''gateway.settings'' ''gateway.settings.dlx'' ''gateway.settings.dlq'') (
     check (qos_error ''gateway.settings'') [send, pair, call, grp, settings] (b_call (CQos settings (cfg_prefetch cfg)))
       (\<lambda>s. (Inr \<lparr>closing = False, failed = None, sendCh = send, pairCh = pair, callCh = call, groupCh = grp,
              settingsCh = settings, sendStarted = False, pairStarted = False, callStarted = False,
              groupStarted = False, settingsStarted = False,
              groupPrefetch = orDefault (cfg_groupPrefetch cfg) 64,
              groupLaneBacklog = orDefault (cfg_groupLaneBacklog cfg) 16\<rparr>, s)))))))))))))))))"

definition consume_queue :: "nat \<Rightarrow> string \<Rightarrow> bstate \<Rightarrow> goerr option \<times> bstate" where
  "consume_queue ch queue s =
     (case b_call (CConsume ch queue (''whatsmeow-'' @ queue)) s of
        (Some e, s') \<Rightarrow> (Some (Wrap (''amqp: consume '' @ queue @ '': '') e []), s')
      | (None, s') \<Rightarrow> (None, s'))"

definition StartCall :: "consumer \<Rightarrow> bstate \<Rightarrow> goerr option \<times> consumer \<times> bstate" where
  "StartCall c s = (case consume_queue (callCh c) ''gateway.call'' s of
     (Some e, s') \<Rightarrow> (Some e, c, s') | (None, s') \<Rightarrow> (None, c\<lparr>callStarted := True\<rparr>, s'))"

definition StartGroup :: "consumer \<Rightarrow> bstate \<Rightarrow> goerr option \<times> consumer \<times> bstate" where
  "StartGroup c s = (case consume_queue (groupCh c) ''gateway.group'' s of
     (Some e, s') \<Rightarrow> (Some e, c, s') | (None, s') \<Rightarrow> (None, c\<lparr>groupStarted := True\<rparr>, s'))"

definition StartSettings :: "consumer \<Rightarrow> bstate \<Rightarrow> goerr option \<times> consumer \<times> bstate" where
  "StartSettings c s = (case consume_queue (settingsCh c) ''gateway.settings'' s of
     (Some e, s') \<Rightarrow> (Some e, c, s') | (None, s') \<Rightarrow> (None, c\<lparr>settingsStarted := True\<rparr>, s'))"

definition StartSend :: "consumer \<Rightarrow> bstate \<Rightarrow> goerr option \<times> consumer \<times> bstate" where
  "StartSend c s = (case consume_queue (sendCh c) ''gateway.send'' s of
     (Some e, s') \<Rightarrow> (Some e, c, s') | (None, s') \<Rightarrow> (None, c\<lparr>sendStarted := True\<rparr>, s'))"

definition StartPair :: "consumer \<Rightarrow> bstate \<Rightarrow> goerr option \<times> consumer \<times> bstate" where
  "StartPair c s = (case consume_queue (pairCh c) ''gateway.pair'' s of
     (Some e, s') \<Rightarrow> (Some e, c, s') | (None, s') \<Rightarrow> (None, c\<lparr>pairStarted := True\<rparr>, s'))"

text \<open>Steps that collect their error and go on; a step that does not apply is skipped.\<close>

fun collect :: "(bool \<times> string \<times> (bstate \<Rightarrow> goerr option \<times> bstate)) list \<Rightarrow> bstate \<Rightarrow> goerr list \<times> bstate" where
  "collect [] s = ([], s)"
| "collect ((applies, pre, act) # rest) s =
     (if applies then
        (case act s of (r, s') \<Rightarrow> case collect rest s' of (es, s'') \<Rightarrow>
           ((case r of None \<Rightarrow> [] | Some e \<Rightarrow> [Wrap pre e []]) @ es, s''))
      else collect rest s)"

definition join_errors :: "goerr list \<Rightarrow> goerr option" where
  "join_errors es = (if es = [] then None else Some (Join es))"

definition cancel_pre :: "string \<Rightarrow> string" where
  "cancel_pre queue = ''amqp: cancel '' @ queue @ '' consumer: ''"

definition close_pre :: "string \<Rightarrow> string" where
  "close_pre queue = ''amqp: close '' @ queue @ '' channel: ''"

definition Close_consumer :: "consumer \<Rightarrow> bstate \<Rightarrow> goerr option \<times> consumer \<times> bstate" where
  "Close_consumer c s =
     (let c' = c\<lparr>closing := True\<rparr> in
      case collect
        [(sendStarted c, cancel_pre ''gateway.send'', b_call (CCancel (sendCh c) ''whatsmeow-gateway.send'')),
         (pairStarted c, cancel_pre ''gateway.pair'', b_call (CCancel (pairCh c) ''whatsmeow-gateway.pair'')),
         (callStarted c, cancel_pre ''gateway.call'', b_call (CCancel (callCh c) ''whatsmeow-gateway.call'')),
         (groupStarted c, cancel_pre ''gateway.group'', b_call (CCancel (groupCh c) ''whatsmeow-gateway.group'')),
         (settingsStarted c, cancel_pre ''gateway.settings'', b_call (CCancel (settingsCh c) ''whatsmeow-gateway.settings'')),
         (True, close_pre ''gateway.send'', ch_Close (sendCh c)),
         (True, close_pre ''gateway.pair'', ch_Close (pairCh c)),
         (True, close_pre ''gateway.call'', ch_Close (callCh c)),
         (True, close_pre ''gateway.group'', ch_Close (groupCh c)),
         (True, close_pre ''gateway.settings'', ch_Close (settingsCh c))] s of
        (errs, s') \<Rightarrow> (join_errors errs, c', s'))"

section \<open>The publisher\<close>

record publisher =
  pub_channel :: nat
  pub_confirmed :: nat

definition NewPublisher :: "bstate \<Rightarrow> publisher result \<times> bstate" where
  "NewPublisher =
     open_channel ''amqp: open publisher channel: '' [] (\<lambda>ch.
     check id [ch] (assertEventsExchange ch) (
     open_channel ''amqp: open confirmed publisher channel: '' [ch] (\<lambda>confirmed.
     check (\<lambda>e. Wrap ''amqp: enable confirms on the publisher: '' e []) [ch, confirmed] (b_call (CConfirm confirmed))
       (\<lambda>s. (Inr \<lparr>pub_channel = ch, pub_confirmed = confirmed\<rparr>, s)))))"

definition publish :: "publisher \<Rightarrow> string \<Rightarrow> string result \<Rightarrow> bstate \<Rightarrow> goerr option \<times> bstate" where
  "publish p routingKey marshalled s =
     (case marshalled of
        Inl err \<Rightarrow> (Some (Wrap (''amqp: marshal '' @ routingKey @ '' payload: '') err []), s)
      | Inr body \<Rightarrow>
          (case b_call (CPublish (pub_channel p) routingKey body) s of
             (Some err, s') \<Rightarrow> (Some (Wrap (''amqp: publish '' @ routingKey @ '': '') err []), s')
           | (None, s') \<Rightarrow> (None, s')))"

definition publishConfirmed ::
  "publisher \<Rightarrow> string \<Rightarrow> string result \<Rightarrow> bool result \<Rightarrow> bstate \<Rightarrow> goerr option \<times> bstate" where
  "publishConfirmed p routingKey marshalled confirm s =
     (case marshalled of
        Inl err \<Rightarrow> (Some (Wrap (''amqp: marshal '' @ routingKey @ '' payload: '') err []), s)
      | Inr body \<Rightarrow>
          (case b_call (CPublish (pub_confirmed p) routingKey body) s of
             (Some err, s') \<Rightarrow> (Some (Wrap (''amqp: publish '' @ routingKey @ '': '') err []), s')
           | (None, s') \<Rightarrow>
               (case confirm of
                  Inl err \<Rightarrow> (Some (Wrap (''amqp: wait '' @ routingKey @ '' confirm: '') err []), s')
                | Inr acked \<Rightarrow>
                    if \<not> acked then (Some (Err EText (''amqp: broker refused '' @ routingKey)), s')
                    else (None, s'))))"

datatype event_kind =
    EvInbound | EvStatus | EvGroupInbound | EvGroupStatus | EvCall | EvChannelQR | EvChannelStatus
  | EvGroupAction | EvGroupParticipants | EvHistory

fun routing_key :: "event_kind \<Rightarrow> string" where
  "routing_key EvInbound = ''whatsapp.inbound.v1''"
| "routing_key EvHistory = ''whatsapp.history.v1''"
| "routing_key EvStatus = ''whatsapp.status.v1''"
| "routing_key EvCall = ''whatsapp.call.v1''"
| "routing_key EvChannelQR = ''channel.qr''"
| "routing_key EvChannelStatus = ''channel.status''"
| "routing_key EvGroupInbound = ''whatsapp.group.inbound.v1''"
| "routing_key EvGroupStatus = ''whatsapp.group.status.v1''"
| "routing_key EvGroupAction = ''whatsapp.group.action.v1''"
| "routing_key EvGroupParticipants = ''whatsapp.group.participants.v1''"

definition publish_event :: "publisher \<Rightarrow> event_kind \<Rightarrow> string result \<Rightarrow> bstate \<Rightarrow> goerr option \<times> bstate" where
  "publish_event p kind marshalled = publish p (routing_key kind) marshalled"

definition PublishGroupParticipants ::
  "(GroupParticipantsEvent \<Rightarrow> string result) \<Rightarrow> publisher \<Rightarrow> GroupParticipantsEvent \<Rightarrow> bstate \<Rightarrow> goerr option \<times> bstate" where
  "PublishGroupParticipants marshal p evt =
     (let evt' = (if gpe_participants evt = None then evt\<lparr>gpe_participants := Some []\<rparr> else evt)
      in publish p (routing_key EvGroupParticipants) (marshal evt'))"

definition PublishHistoryBatch ::
  "(HistoryBatch \<Rightarrow> string result) \<Rightarrow> publisher \<Rightarrow> HistoryBatch \<Rightarrow> bool result \<Rightarrow> bstate \<Rightarrow> goerr option \<times> bstate" where
  "PublishHistoryBatch marshal p batch =
     publishConfirmed p (routing_key EvHistory)
       (marshal (batch\<lparr>hb_kind := HistoryBatchKind, hb_source := HistorySourceGateway\<rparr>))"

definition PublishHistoryDone ::
  "(HistoryDone \<Rightarrow> string result) \<Rightarrow> publisher \<Rightarrow> HistoryDone \<Rightarrow> bool result \<Rightarrow> bstate \<Rightarrow> goerr option \<times> bstate" where
  "PublishHistoryDone marshal p d =
     publishConfirmed p (routing_key EvHistory)
       (marshal (d\<lparr>hd_kind := HistoryDoneKind, hd_source := HistorySourceGateway\<rparr>))"

definition Close_publisher :: "publisher \<Rightarrow> bstate \<Rightarrow> goerr option \<times> bstate" where
  "Close_publisher p s =
     (case ch_Close (pub_confirmed p) s of (e1, s1) \<Rightarrow>
        case ch_Close (pub_channel p) s1 of (e2, s2) \<Rightarrow>
          (join_errors (List.map_filter id [e1, e2]), s2))"

section \<open>Lemmas\<close>

text \<open>
  A command queue is declared only after its dead-letter exchange and the queue bound to it, so
  that a message it rejects always has a place to go.
\<close>

definition dead_letter_ready :: "(bcall \<times> bool) list \<Rightarrow> nat \<Rightarrow> string \<Rightarrow> bool" where
  "dead_letter_ready before ch dlx =
     list_ex (\<lambda>(c, ok). ok \<and> (case c of CQueueBind ch' dlq x \<Rightarrow> ch' = ch \<and> x = dlx \<and>
         (CQueueDeclare ch dlq None, True) \<in> set before \<and> (CExchangeDeclare ch dlx, True) \<in> set before
       | _ \<Rightarrow> False)) before"

fun routed_from :: "(bcall \<times> bool) list \<Rightarrow> (bcall \<times> bool) list \<Rightarrow> bool" where
  "routed_from before [] = True"
| "routed_from before ((c, ok) # cs) =
     ((case c of CQueueDeclare ch q (Some dlx) \<Rightarrow> dead_letter_ready before ch dlx | _ \<Rightarrow> True) \<and>
      routed_from (before @ [(c, ok)]) cs)"

lemma routed_from_append:
  "routed_from before (cs @ ds) = (routed_from before cs \<and> routed_from (before @ cs) ds)"
  by (induction before cs rule: routed_from.induct) (auto split: bcall.splits option.splits)

definition conn_wf :: "bstate \<Rightarrow> bool" where
  "conn_wf s \<longleftrightarrow> distinct (b_live s) \<and> (\<forall>c\<in>set (b_live s). c < b_next s) \<and> routed_from [] (b_calls s)"

fun plain_call :: "bcall \<Rightarrow> bool" where
  "plain_call (CQueueDeclare ch q (Some dlx)) = False"
| "plain_call _ = True"

lemma routed_plain: "plain_call c \<Longrightarrow> routed_from before [(c, ok)]"
  by (cases c rule: plain_call.cases) auto

definition quiet :: "(bstate \<Rightarrow> goerr option \<times> bstate) \<Rightarrow> bool" where
  "quiet act \<longleftrightarrow> (\<forall>s. conn_wf s \<longrightarrow> conn_wf (snd (act s)) \<and> b_live (snd (act s)) = b_live s)"

lemma quiet_call [simp, intro]: "plain_call c \<Longrightarrow> quiet (b_call c)"
  by (simp add: quiet_def b_call_def conn_wf_def routed_from_append routed_plain del: routed_from.simps(2))

lemma quiet_topology [simp, intro]: "quiet (declareCommandTopology ch exchange queue dlx dlq)"
  by (auto simp: quiet_def declareCommandTopology_def b_call_def conn_wf_def routed_from_append
      dead_letter_ready_def split: prod.splits option.splits)

lemma quiet_events [simp, intro]: "quiet (assertEventsExchange ch)"
  by (auto simp: quiet_def assertEventsExchange_def b_call_def conn_wf_def routed_from_append
      split: prod.splits option.splits)

lemma ch_Close_wf: "conn_wf s \<Longrightarrow> conn_wf (snd (ch_Close ch s)) \<and> b_live (snd (ch_Close ch s)) = removeAll ch (b_live s)"
  by (auto simp: ch_Close_def b_call_def conn_wf_def routed_from_append distinct_removeAll)

lemma close_all_wf: "conn_wf s \<Longrightarrow> conn_wf (close_all chs s) \<and> b_live (close_all chs s) = filter (\<lambda>c. c \<notin> set chs) (b_live s)"
proof (induction chs arbitrary: s)
  case (Cons ch chs)
  note c = ch_Close_wf [OF Cons.prems, of ch]
  have "filter (\<lambda>c. c \<notin> set chs) (removeAll ch xs) = filter (\<lambda>c. c \<noteq> ch \<and> c \<notin> set chs) xs" for xs
    by (induction xs) auto
  with Cons.IH [OF conjunct1 [OF c]] c show ?case by simp
qed simp

lemma close_all_restores: "conn_wf s \<Longrightarrow> b_live s = L @ chs \<Longrightarrow> b_live (close_all chs s) = L"
proof -
  assume wf: "conn_wf s" and l: "b_live s = L @ chs"
  then have "distinct (L @ chs)" by (simp add: conn_wf_def)
  then have "filter (\<lambda>c. c \<notin> set chs) L = L" "filter (\<lambda>c. c \<notin> set chs) chs = []"
    by (auto simp: filter_empty_conv filter_id_conv)
  with close_all_wf [OF wf] l show ?thesis by simp
qed

text \<open>Failing closes what it opened; succeeding leaves exactly the channels of the result open.\<close>

definition owns :: "nat list \<Rightarrow> nat list \<Rightarrow> ('a \<Rightarrow> nat list) \<Rightarrow> (bstate \<Rightarrow> 'a result \<times> bstate) \<Rightarrow> bool" where
  "owns L chs chans m \<longleftrightarrow>
     (\<forall>s. conn_wf s \<longrightarrow> b_live s = L @ chs \<longrightarrow>
        conn_wf (snd (m s)) \<and> b_live (snd (m s)) = L @ (case fst (m s) of Inl e \<Rightarrow> [] | Inr a \<Rightarrow> chans a))"

lemma owns_open:
  assumes "\<And>ch. owns L (chs @ [ch]) chans (k ch)"
  shows "owns L chs chans (open_channel pre chs k)"
  unfolding owns_def
proof (intro allI impI)
  fix s assume s: "conn_wf s" "b_live s = L @ chs"
  show "conn_wf (snd (open_channel pre chs k s)) \<and> b_live (snd (open_channel pre chs k s)) =
      L @ (case fst (open_channel pre chs k s) of Inl e \<Rightarrow> [] | Inr a \<Rightarrow> chans a)"
  proof (cases "b_answer s")
    case None
    define s' where "s' = snd (conn_Channel s)"
    have eq: "open_channel pre chs k s = k (b_next s) s'" and l: "b_live s' = L @ chs @ [b_next s]"
      and wf: "conn_wf s'"
      using None s by (auto simp: open_channel_def conn_Channel_def b_call_def s'_def conn_wf_def routed_from_append
          intro: less_SucI)
    show ?thesis using assms [of "b_next s"] wf l by (simp add: eq owns_def)
  next
    case (Some e)
    define s' where "s' = snd (b_call (CChannel (b_next s)) s)"
    have eq: "open_channel pre chs k s = (Inl (Wrap pre e []), close_all chs s')"
      using Some by (simp add: open_channel_def conn_Channel_def b_call_def s'_def)
    have "conn_wf s'" "b_live s' = L @ chs"
      using s by (simp_all add: s'_def b_call_def conn_wf_def routed_from_append)
    then show ?thesis using close_all_wf close_all_restores by (simp add: eq)
  qed
qed

lemma owns_check:
  assumes "quiet act" "owns L chs chans k"
  shows "owns L chs chans (check w chs act k)"
  unfolding owns_def
proof (intro allI impI)
  fix s assume s: "conn_wf s" "b_live s = L @ chs"
  obtain r s' where a: "act s = (r, s')" by (cases "act s")
  have s': "conn_wf s'" "b_live s' = L @ chs" using assms(1) s a by (auto simp: quiet_def)
  show "conn_wf (snd (check w chs act k s)) \<and> b_live (snd (check w chs act k s)) =
      L @ (case fst (check w chs act k s) of Inl e \<Rightarrow> [] | Inr a \<Rightarrow> chans a)"
  proof (cases r)
    case None
    with assms(2) s' show ?thesis by (simp add: check_def a owns_def)
  next
    case (Some e)
    with s' close_all_wf close_all_restores show ?thesis by (simp add: check_def a)
  qed
qed

lemma owns_return: "chans a = chs \<Longrightarrow> owns L chs chans (\<lambda>s. (Inr a, s))"
  by (simp add: owns_def)

definition consumer_channels :: "consumer \<Rightarrow> nat list" where
  "consumer_channels c = [sendCh c, pairCh c, callCh c, groupCh c, settingsCh c]"

lemma owns_NewConsumer: "owns L [] consumer_channels (NewConsumer cfg)"
  unfolding NewConsumer_def
  by (rule owns_open owns_check owns_return quiet_call quiet_topology plain_call.simps TrueI
      | simp only: append_Nil append_Cons | simp add: consumer_channels_def)+

lemma owns_NewPublisher: "owns L [] (\<lambda>p. [pub_channel p, pub_confirmed p]) NewPublisher"
  unfolding NewPublisher_def
  by (rule owns_open owns_check owns_return quiet_call quiet_events plain_call.simps TrueI
      | simp only: append_Nil append_Cons | simp)+

text \<open>What one step of the closing does: one call, and the channels in \<open>ds\<close> are gone.\<close>

definition effect :: "(bstate \<Rightarrow> goerr option \<times> bstate) \<Rightarrow> bcall \<Rightarrow> nat list \<Rightarrow> bool" where
  "effect act c ds \<longleftrightarrow>
     (\<forall>s. fst (act s) = b_answer s \<and> b_calls (snd (act s)) = b_calls s @ [(c, b_answer s = None)] \<and>
        b_live (snd (act s)) = filter (\<lambda>x. x \<notin> set ds) (b_live s))"

lemma effect_cancel: "effect (b_call c) c []"
  by (simp add: effect_def b_call_def)

lemma effect_close: "effect (ch_Close ch) (CClose ch) [ch]"
proof -
  have "removeAll ch xs = filter (\<lambda>x. x \<noteq> ch) xs" for xs :: "nat list" by (induction xs) auto
  then show ?thesis by (simp add: effect_def ch_Close_def b_call_def)
qed

fun effects :: "(bool \<times> string \<times> (bstate \<Rightarrow> goerr option \<times> bstate)) list \<Rightarrow> (bcall \<times> nat list) list \<Rightarrow> bool" where
  "effects [] [] = True"
| "effects ((applies, pre, act) # steps) ((c, ds) # cs) = (effect act c ds \<and> effects steps cs)"
| "effects _ _ = False"

fun applied :: "(bool \<times> 'x) list \<Rightarrow> 'y list \<Rightarrow> 'y list" where
  "applied ((a, x) # xs) (y # ys) = (if a then y # applied xs ys else applied xs ys)"
| "applied _ _ = []"

lemma collect_effects:
  "effects steps cs \<Longrightarrow> collect steps s = (es, s') \<Longrightarrow>
   \<exists>new. b_calls s' = b_calls s @ new \<and> map fst new = map fst (applied steps cs) \<and>
     (es = [] \<longleftrightarrow> list_all snd new) \<and>
     b_live s' = filter (\<lambda>x. x \<notin> set (concat (map snd (applied steps cs)))) (b_live s)"
proof (induction steps cs arbitrary: s es s' rule: effects.induct)
  case 1
  then show ?case by simp
next
  case (2 applies pre act steps c ds cs)
  show ?case
  proof (cases applies)
    case True
    obtain r s1 where a: "act s = (r, s1)" by (cases "act s")
    obtain es1 s2 where c: "collect steps s1 = (es1, s2)" by (cases "collect steps s1")
    have eff: "effect act c ds" "effects steps cs" using "2.prems"(1) by simp_all
    have r: "r = b_answer s" "b_calls s1 = b_calls s @ [(c, b_answer s = None)]"
        "b_live s1 = filter (\<lambda>x. x \<notin> set ds) (b_live s)"
      using eff(1) a by (auto simp: effect_def dest: spec [of _ s])
    obtain new where new: "b_calls s2 = b_calls s1 @ new" "map fst new = map fst (applied steps cs)"
        "es1 = [] \<longleftrightarrow> list_all snd new"
        "b_live s2 = filter (\<lambda>x. x \<notin> set (concat (map snd (applied steps cs)))) (b_live s1)"
      using "2.IH" [OF eff(2) c] by blast
    have res: "s' = s2" "es = (case r of None \<Rightarrow> [] | Some e \<Rightarrow> [Wrap pre e []]) @ es1"
      using "2.prems"(2) True a c by auto
    show ?thesis
      by (rule exI [of _ "(c, b_answer s = None) # new"])
         (use True res new r in \<open>auto simp: conj_commute split: option.splits intro!: filter_cong\<close>)
  next
    case False
    with "2.prems" have "effects steps cs" "collect steps s = (es, s')" by simp_all
    from "2.IH" [OF this] False show ?thesis by simp
  qed
qed simp_all

section \<open>Properties\<close>

text \<open>
  Building the consumer leaks no channel: when any call fails, exactly the channels that were
  open before are open again; when it succeeds, exactly the five channels of the consumer are
  open besides. In both cases every command queue that was declared had its dead-letter exchange,
  and the queue bound to it, declared before on the same channel.
\<close>

lemma NewConsumer_channels:
  assumes "conn_wf s"
  shows "routed_from [] (b_calls (snd (NewConsumer cfg s))) \<and>
    b_live (snd (NewConsumer cfg s)) =
      b_live s @ (case fst (NewConsumer cfg s) of Inl e \<Rightarrow> [] | Inr c \<Rightarrow> consumer_channels c)"
  using owns_NewConsumer [of "b_live s" cfg] assms by (simp add: owns_def conn_wf_def)

text \<open>
  Closing the consumer tries everything: it cancels each consumer that was started, then closes
  all five channels whatever failed before, leaves none of them open, and returns an error exactly
  when one of these calls failed.
\<close>

lemma Close_consumer_tries_all:
  "\<exists>new. b_calls (snd (snd (Close_consumer c s))) = b_calls s @ new \<and>
     map fst new =
       (if sendStarted c then [CCancel (sendCh c) ''whatsmeow-gateway.send''] else []) @
       (if pairStarted c then [CCancel (pairCh c) ''whatsmeow-gateway.pair''] else []) @
       (if callStarted c then [CCancel (callCh c) ''whatsmeow-gateway.call''] else []) @
       (if groupStarted c then [CCancel (groupCh c) ''whatsmeow-gateway.group''] else []) @
       (if settingsStarted c then [CCancel (settingsCh c) ''whatsmeow-gateway.settings''] else []) @
       map CClose (consumer_channels c) \<and>
     (fst (Close_consumer c s) = None \<longleftrightarrow> list_all snd new) \<and>
     b_live (snd (snd (Close_consumer c s))) = filter (\<lambda>x. x \<notin> set (consumer_channels c)) (b_live s) \<and>
     closing (fst (snd (Close_consumer c s)))"
proof -
  let ?steps = "[(sendStarted c, cancel_pre ''gateway.send'', b_call (CCancel (sendCh c) ''whatsmeow-gateway.send'')),
         (pairStarted c, cancel_pre ''gateway.pair'', b_call (CCancel (pairCh c) ''whatsmeow-gateway.pair'')),
         (callStarted c, cancel_pre ''gateway.call'', b_call (CCancel (callCh c) ''whatsmeow-gateway.call'')),
         (groupStarted c, cancel_pre ''gateway.group'', b_call (CCancel (groupCh c) ''whatsmeow-gateway.group'')),
         (settingsStarted c, cancel_pre ''gateway.settings'', b_call (CCancel (settingsCh c) ''whatsmeow-gateway.settings'')),
         (True, close_pre ''gateway.send'', ch_Close (sendCh c)),
         (True, close_pre ''gateway.pair'', ch_Close (pairCh c)),
         (True, close_pre ''gateway.call'', ch_Close (callCh c)),
         (True, close_pre ''gateway.group'', ch_Close (groupCh c)),
         (True, close_pre ''gateway.settings'', ch_Close (settingsCh c))]"
  let ?cs = "[(CCancel (sendCh c) ''whatsmeow-gateway.send'', []), (CCancel (pairCh c) ''whatsmeow-gateway.pair'', []),
         (CCancel (callCh c) ''whatsmeow-gateway.call'', []), (CCancel (groupCh c) ''whatsmeow-gateway.group'', []),
         (CCancel (settingsCh c) ''whatsmeow-gateway.settings'', []),
         (CClose (sendCh c), [sendCh c]), (CClose (pairCh c), [pairCh c]), (CClose (callCh c), [callCh c]),
         (CClose (groupCh c), [groupCh c]), (CClose (settingsCh c), [settingsCh c])] :: (bcall \<times> nat list) list"
  obtain es s' where c: "collect ?steps s = (es, s')" by (cases "collect ?steps s")
  have eff: "effects ?steps ?cs" by (simp add: effect_cancel effect_close)
  obtain new where new: "b_calls s' = b_calls s @ new" "map fst new = map fst (applied ?steps ?cs)"
      "es = [] \<longleftrightarrow> list_all snd new"
      "b_live s' = filter (\<lambda>x. x \<notin> set (concat (map snd (applied ?steps ?cs)))) (b_live s)"
    using collect_effects [OF eff c] by blast
  have close: "Close_consumer c s = (join_errors es, c\<lparr>closing := True\<rparr>, s')"
    using c by (simp add: Close_consumer_def Let_def)
  have "set (concat (map snd (applied ?steps ?cs))) = set (consumer_channels c)"
    by (auto simp: consumer_channels_def)
  with new show ?thesis
    by (intro exI [of _ new]) (simp add: close join_errors_def consumer_channels_def)
qed

end
