(* ===== verification/Rpc.thy ===== *)
theory Rpc
  imports Broker "HOL-Library.Word"
begin

text \<open>
  The RPC server, internal/amqp/rpc.go: the table of operations, opening the channel of an
  operation, deciding whether a request has expired, running its handler (which may fail or
  panic) and replying. JSON validity and encoding, the clock and the handler are arguments; the
  deadline arithmetic is Go's, on 64-bit durations that wrap around.
\<close>

section \<open>Requests and replies\<close>

record request =
  rq_tag :: nat
  rq_body :: string
  rq_replyTo :: string
  rq_correlationId :: string
  rq_expiration :: string
  rq_timestamp :: "int option"

record rpcErrorBody =
  eb_code :: string
  eb_message :: string

record 'r rpcReply =
  rr_ok :: bool
  rr_result :: "'r option"
  rr_error :: "rpcErrorBody option"

definition rpc_error :: "string \<Rightarrow> string \<Rightarrow> goerr" where
  "rpc_error code message = Err (ERpc code) message"

definition RpcNotFound :: "string \<Rightarrow> goerr" where "RpcNotFound = rpc_error ''not_found''"
definition RpcUnavailable :: "string \<Rightarrow> goerr" where "RpcUnavailable = rpc_error ''unavailable''"
definition RpcBadGateway :: "string \<Rightarrow> goerr" where "RpcBadGateway = rpc_error ''bad_gateway''"
definition RpcLocked :: "string \<Rightarrow> goerr" where "RpcLocked = rpc_error ''locked''"
definition RpcForbidden :: "string \<Rightarrow> goerr" where "RpcForbidden = rpc_error ''forbidden''"
definition RpcGone :: "string \<Rightarrow> goerr" where "RpcGone = rpc_error ''gone''"
definition RpcInvalidRequest :: "string \<Rightarrow> goerr" where "RpcInvalidRequest = rpc_error ''invalid_request''"

datatype 'r outcome = Returned 'r | Failed goerr | Panicked string

definition failure :: "string \<Rightarrow> string \<Rightarrow> 'r rpcReply" where
  "failure code message =
     \<lparr>rr_ok = False, rr_result = None, rr_error = Some \<lparr>eb_code = code, eb_message = message\<rparr>\<rparr>"

definition answer ::
  "(string \<Rightarrow> bool) \<Rightarrow> string \<Rightarrow> (string \<Rightarrow> 'w \<Rightarrow> 'r outcome \<times> 'w) \<Rightarrow> 'w \<Rightarrow> 'r rpcReply \<times> 'w" where
  "answer json_valid body handler w =
     (if \<not> json_valid body then (failure ''invalid_request'' ''request is not valid JSON'', w)
      else
        (case handler body w of
           (Panicked r, w') \<Rightarrow> (failure ''internal'' (''handler panicked: '' @ r), w')
         | (Returned result, w') \<Rightarrow> (\<lparr>rr_ok = True, rr_result = Some result, rr_error = None\<rparr>, w')
         | (Failed err, w') \<Rightarrow>
             (case rpc_of err of
                Some (code, message) \<Rightarrow> (failure code message, w')
              | None \<Rightarrow> (failure ''internal'' (err_msg err), w'))))"

section \<open>Deadlines\<close>

definition int64_wrap :: "int \<Rightarrow> int" where
  "int64_wrap i = sint (word_of_int i :: 64 word)"

lemma int64_wrap_small: "- (2 ^ 63) \<le> i \<Longrightarrow> i < 2 ^ 63 \<Longrightarrow> int64_wrap i = i"
  by (simp add: int64_wrap_def sint_sbintrunc' signed_take_bit_int_eq_self)

text \<open>strconv.ParseInt in base 10: an optional sign, then digits only, within 64 bits.\<close>

definition parse_int64 :: "string \<Rightarrow> int option" where
  "parse_int64 s =
     (let neg = has_prefix s ''-'';
          ds = (if has_prefix s ''-'' \<or> has_prefix s ''+'' then tl s else s);
          n = int (nat_of_digits ds);
          i = (if neg then - n else n)
      in if ds = [] \<or> \<not> list_all is_digit ds then None
         else if i < - (2 ^ 63) \<or> 2 ^ 63 \<le> i then None
         else Some i)"

definition defaultRpcTimeout :: int where "defaultRpcTimeout = 30 * 1000000000"
definition timestampResolution :: int where "timestampResolution = 1000000000"

definition requestTimeout :: "request \<Rightarrow> int" where
  "requestTimeout d =
     (case parse_int64 (rq_expiration d) of
        None \<Rightarrow> defaultRpcTimeout
      | Some ms \<Rightarrow> if ms \<le> 0 then defaultRpcTimeout else int64_wrap (ms * 1000000))"

definition requestDeadline :: "request \<Rightarrow> int \<Rightarrow> int" where
  "requestDeadline d now =
     (case rq_timestamp d of
        None \<Rightarrow> now + requestTimeout d
      | Some ts \<Rightarrow>
          if rq_expiration d = [] then now + requestTimeout d
          else ts + int64_wrap (timestampResolution + requestTimeout d))"

definition expired :: "request \<Rightarrow> int \<Rightarrow> bool" where
  "expired d now = (\<not> now < requestDeadline d now)"

section \<open>Serving a request\<close>

text \<open>
  What the server does with the channel for one request: publish a reply (the text that
  \<open>json.Marshal\<close> made of it) and acknowledge the delivery. A failing publication is only logged.
\<close>

datatype rpc_act = Reply string string string | AckRequest nat

definition reply_body :: "('r rpcReply \<Rightarrow> string result) \<Rightarrow> 'r rpcReply \<Rightarrow> string" where
  "reply_body marshal reply =
     (case marshal reply of
        Inr body \<Rightarrow> body
      | Inl err \<Rightarrow>
          (case marshal (failure ''internal'' (''reply is not serializable: '' @ err_msg err)) of
             Inr body \<Rightarrow> body
           | Inl e \<Rightarrow> []))"

definition publishReply :: "goerr option \<Rightarrow> bool result \<Rightarrow> goerr option" where
  "publishReply call confirm =
     (case call of
        Some err \<Rightarrow> Some (Wrap ''publish reply: '' err [])
      | None \<Rightarrow>
          (case confirm of
             Inl err \<Rightarrow> Some (Wrap ''wait reply confirm: '' err [])
           | Inr acked \<Rightarrow> if \<not> acked then Some (Err EText ''broker refused the reply'') else None))"

definition serve ::
  "(string \<Rightarrow> bool) \<Rightarrow> ('r rpcReply \<Rightarrow> string result) \<Rightarrow> int \<Rightarrow> request \<Rightarrow> (int \<Rightarrow> string \<Rightarrow> 'w \<Rightarrow> 'r outcome \<times> 'w) \<Rightarrow>
   'w \<Rightarrow> rpc_act list \<times> 'w" where
  "serve json_valid marshal now d handler w =
     (if expired d now then ([AckRequest (rq_tag d)], w)
      else
        (case answer json_valid (rq_body d) (handler (requestDeadline d now)) w of (reply, w') \<Rightarrow>
           ((if rq_replyTo d \<noteq> [] then [Reply (rq_replyTo d) (rq_correlationId d) (reply_body marshal reply)] else []) @
              [AckRequest (rq_tag d)], w')))"

section \<open>The table of operations\<close>

record rpc_server =
  rs_prefetch :: int
  rs_channels :: "string \<Rightarrow> nat option option"
  rs_closing :: bool
  rs_failed :: "goerr option"

definition NewRpcServer :: "int \<Rightarrow> rpc_server" where
  "NewRpcServer prefetch = \<lparr>rs_prefetch = prefetch, rs_channels = Map.empty, rs_closing = False, rs_failed = None\<rparr>"

definition reserve :: "string \<Rightarrow> rpc_server \<Rightarrow> bool \<times> rpc_server" where
  "reserve operation s =
     (if rs_channels s operation \<noteq> None then (False, s)
      else (True, s\<lparr>rs_channels := (rs_channels s)(operation \<mapsto> None)\<rparr>))"

definition release :: "string \<Rightarrow> rpc_server \<Rightarrow> rpc_server" where
  "release operation s = s\<lparr>rs_channels := (rs_channels s)(operation := None)\<rparr>"

definition rpc_open :: "int \<Rightarrow> string \<Rightarrow> bstate \<Rightarrow> nat result \<times> bstate" where
  "rpc_open prefetch operation =
     (let queue = RpcQueueName operation in
      open_channel (''amqp: open rpc channel for '' @ operation @ '': '') [] (\<lambda>ch.
      check (\<lambda>e. Wrap (''amqp: declare '' @ queue @ '': '') e []) [ch] (b_call (CQueueDeclare ch queue None)) (
      check (\<lambda>e. Wrap (''amqp: set qos on '' @ queue @ '': '') e []) [ch] (b_call (CQos ch prefetch)) (
      check (\<lambda>e. Wrap (''amqp: enable reply confirms on '' @ queue @ '': '') e []) [ch] (b_call (CConfirm ch)) (
      check (\<lambda>e. Wrap (''amqp: consume '' @ queue @ '': '') e []) [ch]
        (b_call (CConsume ch queue (''whatsmeow-gateway.rpc.'' @ operation)))
        (\<lambda>b. (Inr ch, b)))))))"

definition Handle :: "string \<Rightarrow> rpc_server \<Rightarrow> bstate \<Rightarrow> goerr option \<times> rpc_server \<times> bstate" where
  "Handle operation s b =
     (case reserve operation s of
        (False, s1) \<Rightarrow> (Some (Err EText (''amqp: rpc '' @ operation @ '' already has a handler'')), s1, b)
      | (True, s1) \<Rightarrow>
          (case rpc_open (rs_prefetch s1) operation b of
             (Inl err, b') \<Rightarrow> (Some err, release operation s1, b')
           | (Inr ch, b') \<Rightarrow> (None, s1\<lparr>rs_channels := (rs_channels s1)(operation \<mapsto> Some ch)\<rparr>, b')))"

definition rpc_reportFailure :: "goerr \<Rightarrow> rpc_server \<Rightarrow> rpc_server" where
  "rpc_reportFailure err s =
     (if rs_closing s then s
      else case rs_failed s of None \<Rightarrow> s\<lparr>rs_failed := Some err\<rparr> | Some e \<Rightarrow> s)"

text \<open>The order in which Go ranges over the map of channels is an argument.\<close>

definition Close_rpc :: "string list \<Rightarrow> rpc_server \<Rightarrow> bstate \<Rightarrow> goerr option \<times> rpc_server \<times> bstate" where
  "Close_rpc order s b =
     (let chans = List.map_filter (\<lambda>op. case rs_channels s op of Some (Some ch) \<Rightarrow> Some (op, ch) | _ \<Rightarrow> None) order;
          s' = s\<lparr>rs_closing := True, rs_channels := Map.empty\<rparr>
      in case collect
           (map (\<lambda>(op, ch). (True, ''amqp: cancel rpc '' @ op @ '': '', b_call (CCancel ch (''whatsmeow-gateway.rpc.'' @ op)))) chans @
            map (\<lambda>(op, ch). (True, ''amqp: close rpc channel '' @ op @ '': '', ch_Close ch)) chans) b of
           (errs, b') \<Rightarrow> (join_errors errs, s', b'))"

section \<open>Lemmas\<close>

lemma owns_rpc_open: "owns L [] (\<lambda>ch. [ch]) (rpc_open prefetch operation)"
  unfolding rpc_open_def Let_def
  by (rule owns_open owns_check owns_return quiet_call plain_call.simps TrueI
      | simp only: append_Nil append_Cons | simp)+

text \<open>The channels of the table, each operation with its own.\<close>

definition serving :: "rpc_server \<Rightarrow> bstate \<Rightarrow> bool" where
  "serving s b \<longleftrightarrow>
     conn_wf b \<and> (\<forall>op ch. rs_channels s op = Some (Some ch) \<longrightarrow> ch \<in> set (b_live b)) \<and>
     (\<forall>op op' ch. rs_channels s op = Some (Some ch) \<longrightarrow> rs_channels s op' = Some (Some ch) \<longrightarrow> op' = op)"

lemma rpc_open_result:
  assumes "conn_wf b" "rpc_open prefetch operation b = (r, b')"
  shows "conn_wf b' \<and> b_live b' = b_live b @ (case r of Inl e \<Rightarrow> [] | Inr ch \<Rightarrow> [ch])"
  using owns_rpc_open [of "b_live b" prefetch operation] assms by (auto simp: owns_def)

lemma nat_of_digits_snoc: "nat_of_digits (s @ [c]) = 10 * nat_of_digits s + digit_val c"
  by (simp add: nat_of_digits_def)

lemma parse_int64_show: "n < 2 ^ 63 \<Longrightarrow> parse_int64 (show_nat n) = Some (int n)"
proof -
  assume n: "n < 2 ^ 63"
  obtain c cs where s: "show_nat n = c # cs" by (metis list.exhaust show_nat_nonempty)
  have digits: "list_all is_digit (c # cs)" using show_nat_digits [of n] s by simp
  then have "c \<noteq> CHR ''-''" "c \<noteq> CHR ''+''" by (auto simp: is_digit_def)
  then have sign: "\<not> has_prefix (c # cs) ''-''" "\<not> has_prefix (c # cs) ''+''"
    by (simp_all add: has_prefix_def)
  have "int (nat_of_digits (c # cs)) = int n" using s nat_of_digits_show_nat [of n] by simp
  moreover have "int n < 2 ^ 63" using n by (metis of_nat_less_iff of_nat_numeral of_nat_power)
  ultimately show ?thesis
    using digits sign by (simp add: s parse_int64_def Let_def)
qed

lemma parse_int64_range: "parse_int64 s = Some ms \<Longrightarrow> - (2 ^ 63) \<le> ms \<and> ms < 2 ^ 63"
  by (auto simp: parse_int64_def Let_def split: if_splits)

section \<open>Properties\<close>

text \<open>
  A request is acknowledged exactly once, as the last thing. When it has expired the handler is
  not run and nothing is replied; otherwise the handler runs once (unless the body is not JSON)
  and the caller who gave a reply queue gets exactly one reply before the acknowledgement.
\<close>

theorem serve_once:
  "serve json_valid marshal now d handler w =
     (if expired d now then ([AckRequest (rq_tag d)], w)
      else
        (let r = (if json_valid (rq_body d) then Some (handler (requestDeadline d now) (rq_body d) w) else None)
         in ((if rq_replyTo d = [] then []
              else [Reply (rq_replyTo d) (rq_correlationId d)
                      (reply_body marshal (fst (answer json_valid (rq_body d) (handler (requestDeadline d now)) w)))]) @
             [AckRequest (rq_tag d)],
             case r of None \<Rightarrow> w | Some (res, w') \<Rightarrow> w')))"
  by (auto simp: serve_def answer_def Let_def split: prod.splits outcome.splits option.splits)

text \<open>
  What the caller is told: ok exactly when the body is JSON and the handler returned; an
  RpcError anywhere in the chain of the handler's error gives its own code and message, any other
  error and a panic give the code internal.
\<close>

lemma answer_classifies:
  "rr_ok (fst (answer json_valid body handler w)) = (json_valid body \<and> (\<exists>r. fst (handler body w) = Returned r)) \<and>
   rr_error (fst (answer json_valid body handler w)) =
     (if \<not> json_valid body then Some \<lparr>eb_code = ''invalid_request'', eb_message = ''request is not valid JSON''\<rparr>
      else case fst (handler body w) of
             Returned r \<Rightarrow> None
           | Panicked r \<Rightarrow> Some \<lparr>eb_code = ''internal'', eb_message = ''handler panicked: '' @ r\<rparr>
           | Failed err \<Rightarrow>
               (case rpc_of err of Some (code, message) \<Rightarrow> Some \<lparr>eb_code = code, eb_message = message\<rparr>
                | None \<Rightarrow> Some \<lparr>eb_code = ''internal'', eb_message = err_msg err\<rparr>))"
  by (auto simp: answer_def failure_def split: prod.splits outcome.splits option.splits)

text \<open>
  A request stamped with a time and an expiration of a whole number of milliseconds, as large
  as the broker accepts them (32 bits), is dropped exactly when that long plus the resolution of
  the stamp has passed, on 64-bit durations that wrap around.
\<close>

lemma expired_iff:
  assumes "0 < ms" "ms < 2 ^ 32" "rq_expiration d = show_nat ms" "rq_timestamp d = Some ts"
  shows "expired d now \<longleftrightarrow> ts + 1000000000 + int ms * 1000000 \<le> now"
proof -
  have "ms < 2 ^ 63" using assms(2) by (rule less_trans) simp
  then have p: "parse_int64 (rq_expiration d) = Some (int ms)" by (simp add: assms(3) parse_int64_show)
  have "int ms < 2 ^ 32" using assms(2) by (metis of_nat_less_iff of_nat_numeral of_nat_power)
  then have small: "int ms * 1000000 < 2 ^ 62" by simp
  then have "int64_wrap (int ms * 1000000) = int ms * 1000000" by (intro int64_wrap_small) simp_all
  then have t: "requestTimeout d = int ms * 1000000" using assms(1) by (simp add: requestTimeout_def p)
  have "int64_wrap (1000000000 + int ms * 1000000) = 1000000000 + int ms * 1000000"
    using small by (intro int64_wrap_small) simp_all
  moreover have "rq_expiration d \<noteq> []" by (simp add: assms(3))
  ultimately show ?thesis
    by (auto simp: expired_def requestDeadline_def assms(4) t timestampResolution_def)
qed

text \<open>
  Registering a handler: an operation that has one (or is being registered) is refused and
  nothing changes; when opening its channel fails the operation is free again and no channel is
  left open; otherwise the operation gets an open channel that no other operation has.
\<close>

lemma Handle_table:
  assumes "serving s b" "Handle operation s b = (err, s', b')"
  shows "serving s' b' \<and>
    (if rs_channels s operation \<noteq> None then err \<noteq> None \<and> s' = s \<and> b' = b
     else if err \<noteq> None then rs_channels s' = rs_channels s \<and> b_live b' = b_live b
     else \<exists>ch. rs_channels s' = (rs_channels s)(operation \<mapsto> Some ch) \<and> b_live b' = b_live b @ [ch] \<and> ch \<notin> set (b_live b))"
proof (cases "rs_channels s operation")
  case (Some x)
  with assms show ?thesis by (auto simp: Handle_def reserve_def)
next
  case None
  define s1 where "s1 = s\<lparr>rs_channels := (rs_channels s)(operation \<mapsto> None)\<rparr>"
  have wf: "conn_wf b" using assms(1) by (simp add: serving_def)
  obtain r b1 where o: "rpc_open (rs_prefetch s) operation b = (r, b1)" by (cases "rpc_open (rs_prefetch s) operation b")
  note live = rpc_open_result [OF wf o]
  show ?thesis
  proof (cases r)
    case (Inl e)
    with None o assms(2) have "err = Some e" "s' = release operation s1" "b' = b1"
      by (auto simp: Handle_def reserve_def s1_def)
    moreover have "rs_channels (release operation s1) = rs_channels s"
      using None by (auto simp: release_def s1_def)
    ultimately show ?thesis using assms(1) None live Inl by (auto simp: serving_def)
  next
    case (Inr ch)
    with None o assms(2) have r: "err = None" "b' = b1"
      "s' = s1\<lparr>rs_channels := (rs_channels s1)(operation \<mapsto> Some ch)\<rparr>"
      by (auto simp: Handle_def reserve_def s1_def)
    then have c: "rs_channels s' = (rs_channels s)(operation \<mapsto> Some ch)" by (simp add: s1_def)
    have fresh: "ch \<notin> set (b_live b)" and l: "b_live b' = b_live b @ [ch]"
      using live Inr r by (auto simp: conn_wf_def)
    have "serving s' b'"
      using assms(1) live fresh l r(2) unfolding serving_def c by (auto split: if_splits)
    then show ?thesis using None c l fresh r(1) by auto
  qed
qed

end
