(* ===== verification/Registry.thy ===== *)
theory Registry
  imports Contracts
begin

text \<open>
  The tables of the registry, internal/registry/store.go and internal/registry/history.go, and the
  settings of a channel, internal/channelsettings. Each SQL statement is the update of a table
  that it describes; a table is a map from its key to a row. The result of the database call is an
  argument: a statement that fails changes nothing and its error is wrapped as in the code.
\<close>

section \<open>Settings\<close>

record Settings =
  set_listenGroups :: bool
  set_receiveCalls :: bool
  set_callRejectMessage :: string
  set_version :: int

definition Defaults :: Settings where
  "Defaults = \<lparr>set_listenGroups = True, set_receiveCalls = True, set_callRejectMessage = [], set_version = 0\<rparr>"

type_synonym settings_map = "string \<Rightarrow> Settings option"

definition NewMap :: settings_map where "NewMap = Map.empty"

definition Map_Set :: "string \<Rightarrow> Settings \<Rightarrow> settings_map \<Rightarrow> settings_map" where
  "Map_Set channelID s m = m(channelID \<mapsto> s)"

definition Map_For :: "string \<Rightarrow> settings_map \<Rightarrow> Settings" where
  "Map_For channelID m = (case m channelID of Some s \<Rightarrow> s | None \<Rightarrow> Defaults)"

definition Map_Clear :: "string \<Rightarrow> settings_map \<Rightarrow> settings_map" where
  "Map_Clear channelID m = m(channelID := None)"

section \<open>Tables\<close>

record session_row =
  sr_jid :: string
  sr_tenant :: string
  sr_listen :: bool
  sr_receive :: bool
  sr_message :: "string option"
  sr_version :: int

record import_row =
  im_tenant :: string
  im_importID :: string
  im_batches :: int
  im_skipped :: "string list"
  im_finished :: "int option"
  im_touched :: int

record registry =
  sessions :: "string \<Rightarrow> session_row option"
  history_imports :: "string \<Rightarrow> import_row option"

definition HistoryQuietPeriod :: int where "HistoryQuietPeriod = 30 * 60 * 1000000000"

definition liveHistoryImport :: "int \<Rightarrow> import_row \<Rightarrow> bool" where
  "liveHistoryImport now h = (im_finished h = None \<or> im_touched h > now - HistoryQuietPeriod)"

record ChannelSession =
  cs_channelID' :: string
  cs_jid :: string
  cs_tenant :: string
  cs_settings :: Settings
  cs_importingHistory :: bool

definition scanSession :: "int \<Rightarrow> registry \<Rightarrow> string \<Rightarrow> session_row \<Rightarrow> ChannelSession" where
  "scanSession now r channelID row =
     \<lparr>cs_channelID' = channelID, cs_jid = sr_jid row, cs_tenant = sr_tenant row,
      cs_settings = \<lparr>set_listenGroups = sr_listen row, set_receiveCalls = sr_receive row,
        set_callRejectMessage = (case sr_message row of None \<Rightarrow> [] | Some m \<Rightarrow> m), set_version = sr_version row\<rparr>,
      cs_importingHistory = (case history_imports r channelID of None \<Rightarrow> False | Some h \<Rightarrow> liveHistoryImport now h)\<rparr>"

section \<open>Sessions\<close>

definition Save :: "goerr option \<Rightarrow> string \<Rightarrow> string \<Rightarrow> string \<Rightarrow> registry \<Rightarrow> goerr option \<times> registry" where
  "Save fail channelID jid tenantID r =
     (case fail of
        Some e \<Rightarrow> (Some (Wrap (''registry: save '' @ channelID @ '': '') e []), r)
      | None \<Rightarrow>
          (None, r\<lparr>sessions := (sessions r)(channelID \<mapsto>
             (case sessions r channelID of
                None \<Rightarrow> \<lparr>sr_jid = jid, sr_tenant = tenantID, sr_listen = True, sr_receive = True,
                  sr_message = None, sr_version = 0\<rparr>
              | Some row \<Rightarrow> row\<lparr>sr_jid := jid, sr_tenant := tenantID\<rparr>))\<rparr>))"

datatype SettingsSaveResult = SettingsSaved | SettingsNoSession | SettingsStale

definition SaveSettings ::
  "goerr option \<Rightarrow> string \<Rightarrow> string \<Rightarrow> Settings \<Rightarrow> registry \<Rightarrow> SettingsSaveResult result \<times> registry" where
  "SaveSettings fail channelID tenantID settings r =
     (let message = (if set_callRejectMessage settings \<noteq> [] then Some (set_callRejectMessage settings) else None) in
      case fail of
        Some e \<Rightarrow> (Inl (Wrap (''registry: save settings '' @ channelID @ '': '') e []), r)
      | None \<Rightarrow>
          (case sessions r channelID of
             None \<Rightarrow> (Inr SettingsNoSession, r)
           | Some row \<Rightarrow>
               if sr_tenant row \<noteq> tenantID then (Inr SettingsNoSession, r)
               else if sr_version row \<le> set_version settings then
                 (Inr SettingsSaved,
                  r\<lparr>sessions := (sessions r)(channelID \<mapsto>
                     row\<lparr>sr_listen := set_listenGroups settings, sr_receive := set_receiveCalls settings,
                         sr_message := message, sr_version := set_version settings\<rparr>)\<rparr>)
               else (Inr SettingsStale, r)))"

definition Get :: "goerr option \<Rightarrow> int \<Rightarrow> string \<Rightarrow> registry \<Rightarrow> ChannelSession option result" where
  "Get fail now channelID r =
     (case fail of
        Some e \<Rightarrow> Inl (Wrap (''registry: get '' @ channelID @ '': '') e [])
      | None \<Rightarrow> Inr (map_option (scanSession now r channelID) (sessions r channelID)))"

definition Delete :: "goerr option \<Rightarrow> string \<Rightarrow> registry \<Rightarrow> goerr option \<times> registry" where
  "Delete fail channelID r =
     (case fail of
        Some e \<Rightarrow> (Some (Wrap (''registry: delete '' @ channelID @ '': '') e []), r)
      | None \<Rightarrow> (None, r\<lparr>sessions := (sessions r)(channelID := None), history_imports := (history_imports r)(channelID := None)\<rparr>))"

definition ForgetDevice :: "goerr option \<Rightarrow> string \<Rightarrow> registry \<Rightarrow> goerr option \<times> registry" where
  "ForgetDevice fail channelID r =
     (case fail of
        Some e \<Rightarrow> (Some (Wrap (''registry: forget the device of '' @ channelID @ '': '') e []), r)
      | None \<Rightarrow> (None, r\<lparr>sessions := (sessions r)(channelID := None)\<rparr>))"

text \<open>The order in which the database returns the rows is an argument.\<close>

definition ForShards ::
  "goerr option \<Rightarrow> int \<Rightarrow> string list \<Rightarrow> int list \<Rightarrow> (string \<Rightarrow> int) \<Rightarrow> registry \<Rightarrow> ChannelSession list result" where
  "ForShards fail now order shards shardFn r =
     (case fail of
        Some e \<Rightarrow> Inl (Wrap ''registry: list sessions: '' e [])
      | None \<Rightarrow>
          Inr (filter (\<lambda>cs. shardFn (cs_channelID' cs) \<in> set shards)
            (List.map_filter (\<lambda>k. map_option (scanSession now r k) (sessions r k)) order)))"

section \<open>History history_imports\<close>

record HistoryImport =
  hi_tenantID :: string
  hi_importID :: string
  hi_batches :: int
  hi_skippedChats :: int
  hi_finished :: bool

definition ErrNoHistoryImport :: goerr where
  "ErrNoHistoryImport = Err ENoHistoryImport ''registry: channel has no such history import''"

definition BeginHistoryImport :: "goerr option \<Rightarrow> int \<Rightarrow> string \<Rightarrow> string \<Rightarrow> string \<Rightarrow> registry \<Rightarrow> goerr option \<times> registry" where
  "BeginHistoryImport fail now channelID tenantID importID r =
     (case fail of
        Some e \<Rightarrow> (Some (Wrap (''registry: begin history import '' @ channelID @ '': '') e []), r)
      | None \<Rightarrow>
          (None, r\<lparr>history_imports := (history_imports r)(channelID \<mapsto>
             \<lparr>im_tenant = tenantID, im_importID = importID, im_batches = 0, im_skipped = [],
              im_finished = None, im_touched = now\<rparr>)\<rparr>))"

definition ActiveHistoryImport :: "goerr option \<Rightarrow> int \<Rightarrow> string \<Rightarrow> registry \<Rightarrow> HistoryImport option result" where
  "ActiveHistoryImport fail now channelID r =
     (case fail of
        Some e \<Rightarrow> Inl (Wrap (''registry: active history import '' @ channelID @ '': '') e [])
      | None \<Rightarrow>
          (case history_imports r channelID of
             None \<Rightarrow> Inr None
           | Some h \<Rightarrow>
               if liveHistoryImport now h then
                 Inr (Some \<lparr>hi_tenantID = im_tenant h, hi_importID = im_importID h, hi_batches = im_batches h,
                   hi_skippedChats = int (length (im_skipped h)), hi_finished = (im_finished h \<noteq> None)\<rparr>)
               else Inr None))"

definition CountHistoryBatch :: "goerr option \<Rightarrow> int \<Rightarrow> string \<Rightarrow> string \<Rightarrow> registry \<Rightarrow> int result \<times> registry" where
  "CountHistoryBatch fail now channelID importID r =
     (let wrap = (\<lambda>e. Wrap (''registry: count history batch '' @ channelID @ '': '') e []) in
      case fail of
        Some e \<Rightarrow> (Inl (wrap e), r)
      | None \<Rightarrow>
          (case history_imports r channelID of
             None \<Rightarrow> (Inl (wrap ErrNoHistoryImport), r)
           | Some h \<Rightarrow>
               if im_importID h = importID \<and> liveHistoryImport now h then
                 (Inr (im_batches h + 1),
                  r\<lparr>history_imports := (history_imports r)(channelID \<mapsto> h\<lparr>im_batches := im_batches h + 1, im_touched := now\<rparr>)\<rparr>)
               else (Inl (wrap ErrNoHistoryImport), r)))"

definition SkipHistoryChats :: "goerr option \<Rightarrow> int \<Rightarrow> string \<Rightarrow> string \<Rightarrow> string list \<Rightarrow> registry \<Rightarrow> int result \<times> registry" where
  "SkipHistoryChats fail now channelID importID chats r =
     (let wrap = (\<lambda>e. Wrap (''registry: skip history chats '' @ channelID @ '': '') e []) in
      case fail of
        Some e \<Rightarrow> (Inl (wrap e), r)
      | None \<Rightarrow>
          (case history_imports r channelID of
             None \<Rightarrow> (Inl (wrap ErrNoHistoryImport), r)
           | Some h \<Rightarrow>
               if im_importID h = importID \<and> liveHistoryImport now h then
                 (let skipped = remdups (im_skipped h @ chats)
                  in (Inr (int (length skipped)),
                      r\<lparr>history_imports := (history_imports r)(channelID \<mapsto> h\<lparr>im_skipped := skipped, im_touched := now\<rparr>)\<rparr>))
               else (Inl (wrap ErrNoHistoryImport), r)))"

definition FinishHistoryImport :: "goerr option \<Rightarrow> int \<Rightarrow> string \<Rightarrow> string \<Rightarrow> registry \<Rightarrow> goerr option \<times> registry" where
  "FinishHistoryImport fail now channelID importID r =
     (case fail of
        Some e \<Rightarrow> (Some (Wrap (''registry: finish history import '' @ channelID @ '': '') e []), r)
      | None \<Rightarrow>
          (None,
           case history_imports r channelID of
             None \<Rightarrow> r
           | Some h \<Rightarrow>
               if im_importID h = importID \<and> im_finished h = None then
                 r\<lparr>history_imports := (history_imports r)(channelID \<mapsto> h\<lparr>im_finished := Some now, im_touched := now\<rparr>)\<rparr>
               else r))"

definition ClearHistoryImport :: "goerr option \<Rightarrow> string \<Rightarrow> registry \<Rightarrow> goerr option \<times> registry" where
  "ClearHistoryImport fail channelID r =
     (case fail of
        Some e \<Rightarrow> (Some (Wrap (''registry: clear history import '' @ channelID @ '': '') e []), r)
      | None \<Rightarrow> (None, r\<lparr>history_imports := (history_imports r)(channelID := None)\<rparr>))"

end
