(* ===== verification/SettingsFlow.thy ===== *)
theory SettingsFlow
  imports Registry
begin

text \<open>
  The settings commands of a channel, internal/gateway/settings.go, with the parts of
  internal/gateway/gateway.go that they use (the tenants by channel, forgetting a channel). The
  state is the gateway's memory (tenants and settings) and the registry.
\<close>

record gw_state =
  tenants :: "string \<Rightarrow> string option"
  settings :: settings_map
  reg :: registry
  removed :: "string list"

definition setTenant :: "string \<Rightarrow> string \<Rightarrow> gw_state \<Rightarrow> gw_state" where
  "setTenant channelID tenantID g = g\<lparr>tenants := (tenants g)(channelID \<mapsto> tenantID)\<rparr>"

definition tenantFor :: "string \<Rightarrow> gw_state \<Rightarrow> string" where
  "tenantFor channelID g = (case tenants g channelID of None \<Rightarrow> [] | Some t \<Rightarrow> t)"

definition clearTenant :: "string \<Rightarrow> gw_state \<Rightarrow> gw_state" where
  "clearTenant channelID g = g\<lparr>tenants := (tenants g)(channelID := None)\<rparr>"

definition forgetChannel :: "goerr option \<Rightarrow> string \<Rightarrow> gw_state \<Rightarrow> gw_state" where
  "forgetChannel fail channelID g =
     (let g1 = clearTenant channelID g;
          g2 = g1\<lparr>settings := Map_Clear channelID (settings g1)\<rparr>
      in g2\<lparr>reg := snd (Delete fail channelID (reg g2))\<rparr>)"

definition settingsFrom :: "SettingsCommand \<Rightarrow> Settings" where
  "settingsFrom cmd =
     (let s0 = Defaults\<lparr>set_version := st_settingsVersion cmd\<rparr>;
          s1 = (case st_listenGroups cmd of None \<Rightarrow> s0 | Some b \<Rightarrow> s0\<lparr>set_listenGroups := b\<rparr>);
          s2 = (case st_receiveCalls cmd of None \<Rightarrow> s1 | Some b \<Rightarrow> s1\<lparr>set_receiveCalls := b\<rparr>)
      in (case st_callRejectMessage cmd of None \<Rightarrow> s2 | Some m \<Rightarrow> s2\<lparr>set_callRejectMessage := trim_space m\<rparr>))"

text \<open>\<open>manager.Remove\<close> may fail, which is only logged; the call itself is recorded.\<close>

definition removeChannel :: "goerr option \<Rightarrow> string \<Rightarrow> gw_state \<Rightarrow> goerr option \<times> gw_state" where
  "removeChannel fail channelID g = (None, forgetChannel fail channelID (g\<lparr>removed := removed g @ [channelID]\<rparr>))"

definition SettingsHandler :: "goerr option \<Rightarrow> SettingsCommand \<Rightarrow> gw_state \<Rightarrow> goerr option \<times> gw_state" where
  "SettingsHandler fail cmd g =
     (if st_channelID cmd = [] \<or> st_tenantID cmd = [] then
        (Some (Err EText ''gateway: settings command without tenantId or channelId''), g)
      else
        (let known = tenantFor (st_channelID cmd) g in
         if known \<noteq> [] \<and> known \<noteq> st_tenantID cmd then
           (Some (Err EText (''gateway: settings command for channel '' @ st_channelID cmd @ '' comes from tenant '' @
              st_tenantID cmd @ '', the channel belongs to another'')), g)
         else if st_removed cmd then removeChannel fail (st_channelID cmd) g
         else if st_settingsVersion cmd < set_version (Map_For (st_channelID cmd) (settings g)) then (None, g)
         else
           (let next_settings = settingsFrom cmd in
            case SaveSettings fail (st_channelID cmd) (st_tenantID cmd) next_settings (reg g) of
              (Inl err, r) \<Rightarrow> (Some (Wrap (''gateway: persist settings '' @ st_channelID cmd @ '': '') err []), g\<lparr>reg := r\<rparr>)
            | (Inr saved, r) \<Rightarrow>
                if saved = SettingsStale then (None, g\<lparr>reg := r\<rparr>)
                else (None, g\<lparr>reg := r, settings := Map_Set (st_channelID cmd) next_settings (settings g)\<rparr>))))"

fun run_settings :: "(goerr option \<times> SettingsCommand) list \<Rightarrow> gw_state \<Rightarrow> gw_state" where
  "run_settings [] g = g"
| "run_settings ((fail, cmd) # cmds) g = run_settings cmds (snd (SettingsHandler fail cmd g))"

section \<open>The interface of versioned settings\<close>

text \<open>
  What a reader of the settings relies on, whatever store lies behind: storing settings of a
  version that is not behind makes them current for their channel and leaves the other channels
  alone, and settings of a lower version are dropped.
\<close>

locale versioned_settings =
  fixes current :: "'s \<Rightarrow> string \<Rightarrow> Settings"
    and carries :: "'c \<Rightarrow> Settings"
    and offer :: "string \<Rightarrow> 'c \<Rightarrow> 's \<Rightarrow> 's"
    and fit :: "'s \<Rightarrow> string \<Rightarrow> 'c \<Rightarrow> bool"
  assumes offer_newer:
      "fit s k c \<Longrightarrow> set_version (current s k) \<le> set_version (carries c) \<Longrightarrow> current (offer k c s) k = carries c"
    and offer_older:
      "fit s k c \<Longrightarrow> set_version (carries c) < set_version (current s k) \<Longrightarrow> current (offer k c s) k = current s k"
    and offer_fit: "fit s k c \<Longrightarrow> fit s k c' \<Longrightarrow> fit (offer k c s) k c'"
begin

fun offer_all :: "string \<Rightarrow> 'c list \<Rightarrow> 's \<Rightarrow> 's" where
  "offer_all k [] s = s"
| "offer_all k (c # cs) s = offer_all k cs (offer k c s)"

fun latest :: "Settings \<Rightarrow> Settings list \<Rightarrow> Settings" where
  "latest c [] = c"
| "latest c (v # vs) = latest (if set_version c \<le> set_version v then v else c) vs"

lemma offer_all_latest:
  "\<forall>c\<in>set cs. fit s k c \<Longrightarrow> current (offer_all k cs s) k = latest (current s k) (map carries cs)"
proof (induction cs arbitrary: s)
  case (Cons c cs)
  then have f: "fit s k c" "\<forall>c'\<in>set cs. fit (offer k c s) k c'" using offer_fit by auto
  show ?case
  proof (cases "set_version (current s k) \<le> set_version (carries c)")
    case True
    with Cons.IH [OF f(2)] offer_newer [OF f(1) True] show ?thesis by simp
  next
    case False
    with Cons.IH [OF f(2)] offer_older [OF f(1)] show ?thesis by simp
  qed
qed simp

lemma latest_max: "set_version (latest c vs) = Max (set_version ` set (c # vs)) \<and> latest c vs \<in> set (c # vs)"
proof (induction vs arbitrary: c)
  case (Cons v vs)
  define m where "m = (if set_version c \<le> set_version v then v else c)"
  have ih: "set_version (latest m vs) = Max (set_version ` set (m # vs))" "latest m vs \<in> set (m # vs)"
    using Cons.IH [of m] by auto
  have "Max (set_version ` set (c # v # vs)) = max (max (set_version c) (set_version v)) (Max (set_version ` set (m # vs)))"
    by (cases "vs = []") (auto simp: m_def max_def)
  also have "max (set_version c) (set_version v) = set_version m" by (simp add: m_def)
  also have "max (set_version m) (Max (set_version ` set (m # vs))) = Max (set_version ` set (m # vs))"
    by (intro max_absorb2 Max_ge) auto
  finally show ?case using ih by (auto simp: m_def)
qed simp

lemma offer_all_max:
  assumes "\<forall>c\<in>set cs. fit s k c"
  shows "set_version (current (offer_all k cs s) k) = Max (set_version ` set (current s k # map carries cs)) \<and>
    current (offer_all k cs s) k \<in> set (current s k # map carries cs)"
  using offer_all_latest [OF assms] latest_max [of "current s k" "map carries cs"] by (simp only:)

end

text \<open>
  The handler provides the contract for the commands of one tenant: they name the channel and the
  tenant, they are not removals, the channel is not known to belong to another tenant, and the
  memory is not behind the row of the registry.
\<close>

definition fits :: "string \<Rightarrow> gw_state \<Rightarrow> string \<Rightarrow> SettingsCommand \<Rightarrow> bool" where
  "fits tenantID g k cmd =
     (k \<noteq> [] \<and> tenantID \<noteq> [] \<and> st_channelID cmd = k \<and> st_tenantID cmd = tenantID \<and> \<not> st_removed cmd \<and>
      tenantFor k g \<in> {[], tenantID} \<and>
      (case sessions (reg g) k of
         None \<Rightarrow> True
       | Some row \<Rightarrow> sr_tenant row = tenantID \<longrightarrow> sr_version row \<le> set_version (Map_For k (settings g))))"

lemma version_settingsFrom [simp]: "set_version (settingsFrom cmd) = st_settingsVersion cmd"
  by (simp add: settingsFrom_def Let_def split: option.splits)

lemma SettingsHandler_newer:
  assumes "fits t g k cmd" "set_version (Map_For k (settings g)) \<le> st_settingsVersion cmd"
  shows "settings (snd (SettingsHandler None cmd g)) = Map_Set k (settingsFrom cmd) (settings g)"
    "tenants (snd (SettingsHandler None cmd g)) = tenants g"
    "\<exists>r. SaveSettings None k t (settingsFrom cmd) (reg g) = (Inr r, reg (snd (SettingsHandler None cmd g))) \<and> r \<noteq> SettingsStale"
  using assms
  by (auto simp: SettingsHandler_def SaveSettings_def fits_def Let_def split: option.splits)

lemma SettingsHandler_older:
  "fits t g k cmd \<Longrightarrow> st_settingsVersion cmd < set_version (Map_For k (settings g)) \<Longrightarrow>
   snd (SettingsHandler None cmd g) = g"
  by (auto simp: SettingsHandler_def fits_def Let_def)

lemma SaveSettings_version:
  "SaveSettings None k t v r = (Inr x, r') \<Longrightarrow>
   (\<forall>row. sessions r k = Some row \<longrightarrow> sr_tenant row = t \<longrightarrow> sr_version row \<le> set_version v) \<Longrightarrow>
   (\<forall>row. sessions r' k = Some row \<longrightarrow> sr_tenant row = t \<longrightarrow> sr_version row \<le> set_version v)"
  by (auto simp: SaveSettings_def Let_def split: option.splits if_splits)

lemma SettingsHandler_fits:
  assumes "fits t g k c" "fits t g k c'"
  shows "fits t (snd (SettingsHandler None c g)) k c'"
proof (cases "set_version (Map_For k (settings g)) \<le> st_settingsVersion c")
  case False
  with assms show ?thesis by (simp add: SettingsHandler_older)
next
  case True
  note new = SettingsHandler_newer [OF assms(1) True]
  from new(3) obtain r where "SaveSettings None k t (settingsFrom c) (reg g) = (Inr r, reg (snd (SettingsHandler None c g)))"
    by blast
  from SaveSettings_version [OF this]
  have "\<forall>row. sessions (reg (snd (SettingsHandler None c g))) k = Some row \<longrightarrow> sr_tenant row = t \<longrightarrow>
      sr_version row \<le> st_settingsVersion c"
    using True assms(1) by (fastforce simp: fits_def split: option.splits)
  with assms new(1,2) show ?thesis
    by (simp add: fits_def Map_For_def Map_Set_def tenantFor_def split: option.splits)
qed

interpretation versions: versioned_settings "\<lambda>g k. Map_For k (settings g)" settingsFrom
    "\<lambda>k cmd g. snd (SettingsHandler None cmd g)" "fits t" for t
proof unfold_locales
  show "fits t g k c \<Longrightarrow> set_version (Map_For k (settings g)) \<le> set_version (settingsFrom c) \<Longrightarrow>
      Map_For k (settings (snd (SettingsHandler None c g))) = settingsFrom c" for g k c
    by (simp add: SettingsHandler_newer(1) Map_For_def Map_Set_def)
  show "fits t g k c \<Longrightarrow> set_version (settingsFrom c) < set_version (Map_For k (settings g)) \<Longrightarrow>
      Map_For k (settings (snd (SettingsHandler None c g))) = Map_For k (settings g)" for g k c
    by (simp add: SettingsHandler_older)
  show "fits t g k c \<Longrightarrow> fits t g k c' \<Longrightarrow> fits t (snd (SettingsHandler None c g)) k c'" for g k c c'
    by (rule SettingsHandler_fits)
qed

lemma run_settings_offer_all:
  "run_settings (map (\<lambda>c. (None, c)) cs) g = versions.offer_all k cs g"
  by (induction cs arbitrary: g) simp_all

section \<open>Properties\<close>


definition demo_cmd :: "int \<Rightarrow> bool \<Rightarrow> SettingsCommand" where
  "demo_cmd v b = \<lparr>st_tenantID = ''t'', st_channelID = ''c'', st_listenGroups = Some b, st_receiveCalls = None,
     st_callRejectMessage = None, st_settingsVersion = v, st_removed = False\<rparr>"

definition demo_state :: gw_state where
  "demo_state = \<lparr>tenants = Map.empty, settings = NewMap, reg = \<lparr>sessions = Map.empty, history_imports = Map.empty\<rparr>, removed = []\<rparr>"


text \<open>
  A settings command from another tenant than the one known for its channel is rejected and
  changes nothing, whatever it asks for; and a command that is handled never touches the memory or
  the registry of another channel.
\<close>

lemma settings_tenant_isolation:
  "(tenantFor (st_channelID cmd) g \<notin> {[], st_tenantID cmd} \<longrightarrow>
      fst (SettingsHandler fail cmd g) \<noteq> None \<and> snd (SettingsHandler fail cmd g) = g) \<and>
   (\<forall>k. k \<noteq> st_channelID cmd \<longrightarrow>
      settings (snd (SettingsHandler fail cmd g)) k = settings g k \<and>
      tenants (snd (SettingsHandler fail cmd g)) k = tenants g k \<and>
      sessions (reg (snd (SettingsHandler fail cmd g))) k = sessions (reg g) k \<and>
      history_imports (reg (snd (SettingsHandler fail cmd g))) k = history_imports (reg g) k)"
  by (auto simp: SettingsHandler_def SaveSettings_def removeChannel_def forgetChannel_def clearTenant_def
      Map_Clear_def Map_Set_def Delete_def Let_def split: option.splits)

text \<open>
  While the tenant of a channel is not known (it was never resumed here), a removal from any
  tenant deletes the row of the channel, also when the row belongs to another tenant.
\<close>

lemma removal_of_unknown_channel:
  assumes "st_removed cmd" "st_channelID cmd \<noteq> []" "st_tenantID cmd \<noteq> []" "tenants g (st_channelID cmd) = None"
  shows "sessions (reg (snd (SettingsHandler None cmd g))) (st_channelID cmd) = None"
  using assms
  by (simp add: SettingsHandler_def tenantFor_def removeChannel_def forgetChannel_def clearTenant_def Delete_def Let_def)

end
