(* ===== verification/Orientation.thy ===== *)
theory Orientation
  imports Prelude "HOL-Library.Word"
begin

text \<open>
  Photos of groups: internal/groups/orientation.go and internal/groups/photo.go. The search for the
  EXIF orientation reads a byte slice by position; reading outside a slice is a run-time panic in
  Go, so every read returns an option and \<open>None\<close> is the panic. The decoders, the scaler and the
  encoder of the image packages are arguments.
\<close>

type_synonym bytes = "8 word list"

section \<open>Reads\<close>

definition byte_at :: "bytes \<Rightarrow> nat \<Rightarrow> nat option" where
  "byte_at data i = (if i < length data then Some (unat (data ! i)) else None)"

definition slice_of :: "bytes \<Rightarrow> nat \<Rightarrow> nat \<Rightarrow> bytes option" where
  "slice_of data a b = (if a \<le> b \<and> b \<le> length data then Some (take (b - a) (drop a data)) else None)"

definition uint16_at :: "bool \<Rightarrow> bytes \<Rightarrow> nat \<Rightarrow> nat option" where
  "uint16_at big data i =
     Option.bind (byte_at data i) (\<lambda>a. Option.bind (byte_at data (i + 1)) (\<lambda>b.
       Some (if big then 256 * a + b else a + 256 * b)))"

definition uint32_at :: "bool \<Rightarrow> bytes \<Rightarrow> nat \<Rightarrow> nat option" where
  "uint32_at big data i =
     Option.bind (uint16_at big data i) (\<lambda>a. Option.bind (uint16_at big data (i + 2)) (\<lambda>b.
       Some (if big then 65536 * a + b else a + 65536 * b)))"

lemma byte_at_ok: "i < length data \<Longrightarrow> \<exists>a. byte_at data i = Some a \<and> a < 256"
  using unsigned_less [of "data ! i", where 'a = nat] by (auto simp: byte_at_def)

lemma uint16_at_ok:
  assumes "i + 2 \<le> length data"
  shows "\<exists>a. uint16_at big data i = Some a \<and> a < 65536"
proof -
  obtain a b where "byte_at data i = Some a" "a < 256" "byte_at data (i + 1) = Some b" "b < 256"
    using byte_at_ok [of i data] byte_at_ok [of "i + 1" data] assms by auto
  then show ?thesis by (simp add: uint16_at_def)
qed

lemma uint32_at_ok: "i + 4 \<le> length data \<Longrightarrow> \<exists>a. uint32_at big data i = Some a"
  using uint16_at_ok [of i data big] uint16_at_ok [of "i + 2" data big] by (auto simp: uint32_at_def)

section \<open>The TIFF header\<close>

definition orientationNormal :: nat where "orientationNormal = 1"
definition orientationTag :: nat where "orientationTag = 0x0112"
definition ifdEntrySize :: nat where "ifdEntrySize = 12"
definition exifHeader :: bytes where "exifHeader = [0x45, 0x78, 0x69, 0x66, 0, 0]"

text \<open>The entries from number \<open>i\<close> on; the inner option is the pair of results of the code.\<close>

fun tiff_entries :: "bool \<Rightarrow> bytes \<Rightarrow> nat \<Rightarrow> nat \<Rightarrow> nat \<Rightarrow> nat option option" where
  "tiff_entries big tiff ifd i 0 = Some None"
| "tiff_entries big tiff ifd i (Suc left) =
     (let entry = ifd + 2 + i * ifdEntrySize in
      if entry + ifdEntrySize > length tiff then Some None
      else
        Option.bind (uint16_at big tiff entry) (\<lambda>tag.
          if tag = orientationTag then
            Option.bind (uint16_at big tiff (entry + 8)) (\<lambda>value.
              if value < 1 \<or> value > 8 then Some None else Some (Some value))
          else tiff_entries big tiff ifd (i + 1) left))"

definition tiffOrientation :: "bytes \<Rightarrow> nat option option" where
  "tiffOrientation segment =
     (if length segment < length exifHeader + 8 \<or> take (length exifHeader) segment \<noteq> exifHeader then Some None
      else
        (let tiff = drop (length exifHeader) segment;
             order = (if take 2 tiff = [0x49, 0x49] then Some False
                      else if take 2 tiff = [0x4D, 0x4D] then Some True else None)
         in case order of
              None \<Rightarrow> Some None
            | Some big \<Rightarrow>
                Option.bind (uint16_at big tiff 2) (\<lambda>magic.
                  if magic \<noteq> 42 then Some None
                  else
                    Option.bind (uint32_at big tiff 4) (\<lambda>offset.
                      if offset + 2 > length tiff then Some None
                      else
                        Option.bind (uint16_at big tiff offset) (\<lambda>entries.
                          tiff_entries big tiff offset 0 entries)))))"

section \<open>The markers of a JPEG\<close>

function exif_scan :: "bytes \<Rightarrow> nat \<Rightarrow> nat option" where
  "exif_scan data pos =
     (if pos + 4 \<le> length data then
        Option.bind (byte_at data pos) (\<lambda>lead.
          if lead \<noteq> 0xFF then Some orientationNormal
          else
            Option.bind (byte_at data (pos + 1)) (\<lambda>marker.
              if marker = 0xDA then Some orientationNormal
              else
                Option.bind (uint16_at True data (pos + 2)) (\<lambda>len.
                  let end_pos = pos + 2 + len in
                  if len < 2 \<or> end_pos > length data then Some orientationNormal
                  else if marker = 0xE1 then
                    Option.bind (slice_of data (pos + 4) end_pos) (\<lambda>segment.
                      Option.bind (tiffOrientation segment) (\<lambda>found.
                        case found of
                          Some value \<Rightarrow> Some value
                        | None \<Rightarrow> exif_scan data end_pos))
                  else exif_scan data end_pos)))
      else Some orientationNormal)"
  by pat_completeness auto
termination by (relation "measure (\<lambda>(data, pos). length data - pos)") auto

declare exif_scan.simps [simp del]

definition exifOrientation :: "bytes \<Rightarrow> nat option" where
  "exifOrientation data =
     (if length data < 4 then Some orientationNormal
      else
        Option.bind (byte_at data 0) (\<lambda>b0.
          if b0 \<noteq> 0xFF then Some orientationNormal
          else
            Option.bind (byte_at data 1) (\<lambda>b1.
              if b1 \<noteq> 0xD8 then Some orientationNormal else exif_scan data 2)))"

lemma tiff_entries_ok:
  "\<exists>r. tiff_entries big tiff ifd i left = Some r \<and> (\<forall>v. r = Some v \<longrightarrow> 1 \<le> v \<and> v \<le> 8)"
proof (induction left arbitrary: i)
  case (Suc left)
  define entry where "entry = ifd + 2 + i * ifdEntrySize"
  show ?case
  proof (cases "entry + ifdEntrySize > length tiff")
    case True
    then show ?thesis by (simp add: entry_def Let_def)
  next
    case False
    then have "entry + 2 \<le> length tiff" "entry + 8 + 2 \<le> length tiff" by (simp_all add: ifdEntrySize_def)
    then obtain t v where "uint16_at big tiff entry = Some t" "uint16_at big tiff (entry + 8) = Some v"
      using uint16_at_ok by meson
    with False Suc [of "i + 1"] show ?thesis by (auto simp: entry_def Let_def)
  qed
qed simp

lemma tiffOrientation_ok:
  "\<exists>r. tiffOrientation segment = Some r \<and> (\<forall>v. r = Some v \<longrightarrow> 1 \<le> v \<and> v \<le> 8)"
proof (cases "length segment < length exifHeader + 8 \<or> take (length exifHeader) segment \<noteq> exifHeader")
  case True
  then show ?thesis by (simp add: tiffOrientation_def)
next
  case False
  define tiff where "tiff = drop (length exifHeader) segment"
  have len: "8 \<le> length tiff" using False by (auto simp: tiff_def)
  have "\<exists>r. Option.bind (uint16_at big tiff 2) (\<lambda>magic.
            if magic \<noteq> 42 then Some None
            else Option.bind (uint32_at big tiff 4) (\<lambda>offset.
              if offset + 2 > length tiff then Some None
              else Option.bind (uint16_at big tiff offset) (\<lambda>entries. tiff_entries big tiff offset 0 entries))) = Some r \<and>
          (\<forall>v. r = Some v \<longrightarrow> 1 \<le> v \<and> v \<le> 8)" for big
  proof -
    obtain m where "uint16_at big tiff 2 = Some m" using uint16_at_ok [of 2 tiff big] len by auto
    moreover obtain off where "uint32_at big tiff 4 = Some off" using uint32_at_ok [of 4 tiff big] len by auto
    moreover have "off + 2 \<le> length tiff \<Longrightarrow> \<exists>e. uint16_at big tiff off = Some e"
      using uint16_at_ok [of off tiff big] by auto
    ultimately show ?thesis
      using tiff_entries_ok [of big tiff off 0] by (cases "off + 2 \<le> length tiff") auto
  qed
  note body = this
  show ?thesis using False body by (auto simp: tiffOrientation_def Let_def tiff_def [symmetric])
qed

lemma exif_scan_ok: "\<exists>v. exif_scan data pos = Some v \<and> 1 \<le> v \<and> v \<le> 8"
proof (induction data pos rule: exif_scan.induct)
  case (1 data pos)
  show ?case
  proof (cases "pos + 4 \<le> length data")
    case False
    then show ?thesis by (subst exif_scan.simps) (simp add: orientationNormal_def)
  next
    case True
    obtain lead where lead: "byte_at data pos = Some lead" using byte_at_ok [of pos data] True by auto
    obtain marker where marker: "byte_at data (Suc pos) = Some marker" using byte_at_ok [of "Suc pos" data] True by auto
    obtain len where len: "uint16_at True data (pos + 2) = Some len" using uint16_at_ok [of "pos + 2" data True] True by auto
    define end_pos where "end_pos = pos + 2 + len"
    show ?thesis
    proof (cases "lead \<noteq> 0xFF \<or> marker = 0xDA \<or> len < 2 \<or> end_pos > length data")
      case stop: True
      then show ?thesis
        by (subst exif_scan.simps) (auto simp: True lead marker len len [simplified] end_pos_def orientationNormal_def Let_def)
    next
      case go: False
      then have lead255: "lead = 0xFF" and m: "marker \<noteq> 0xDA" and l: "\<not> (len < 2 \<or> end_pos > length data)" by auto
      show ?thesis
      proof (cases "marker = 0xE1")
        case False
        have "\<exists>v. exif_scan data end_pos = Some v \<and> 1 \<le> v \<and> v \<le> 8"
          using "1.IH"(2) [OF True] l m False lead marker len [simplified] unfolding end_pos_def by (simp add: lead255)
        then show ?thesis
          using l m False unfolding end_pos_def
          by (subst exif_scan.simps) (simp add: True lead marker len len [simplified] lead255 Let_def)
      next
        case e1: True
        have "slice_of data (pos + 4) end_pos = Some (take (end_pos - (pos + 4)) (drop (pos + 4) data))"
          using l by (simp add: slice_of_def end_pos_def)
        then obtain seg where seg: "slice_of data (pos + 4) end_pos = Some seg" by blast
        obtain r where r: "tiffOrientation seg = Some r" "\<forall>v. r = Some v \<longrightarrow> 1 \<le> v \<and> v \<le> 8"
          using tiffOrientation_ok by blast
        have "r = None \<Longrightarrow> \<exists>v. exif_scan data end_pos = Some v \<and> 1 \<le> v \<and> v \<le> 8"
          using "1.IH"(1) [OF True] l m e1 lead marker len [simplified] seg r(1) unfolding end_pos_def
          by (simp add: lead255)
        then show ?thesis
          using l m e1 r seg unfolding end_pos_def
          by (subst exif_scan.simps)
             (auto simp: True lead marker len len [simplified] lead255 Let_def split: option.splits)
      qed
    qed
  qed
qed

section \<open>Turning the picture\<close>

record 'p square =
  sq_side :: int
  sq_pixel :: "int \<Rightarrow> int \<Rightarrow> 'p"

definition RGBAAt :: "'p \<Rightarrow> 'p square \<Rightarrow> int \<Rightarrow> int \<Rightarrow> 'p" where
  "RGBAAt zero s x y =
     (if 0 \<le> x \<and> x < sq_side s \<and> 0 \<le> y \<and> y < sq_side s then sq_pixel s x y else zero)"

definition source_of :: "nat \<Rightarrow> int \<Rightarrow> int \<Rightarrow> int \<Rightarrow> int \<times> int" where
  "source_of orientation final x y =
     (if orientation = 2 then (final - x, y)
      else if orientation = 3 then (final - x, final - y)
      else if orientation = 4 then (x, final - y)
      else if orientation = 5 then (y, x)
      else if orientation = 6 then (y, final - x)
      else if orientation = 7 then (final - y, final - x)
      else if orientation = 8 then (final - y, x)
      else (x, y))"

definition orient :: "'p \<Rightarrow> 'p square \<Rightarrow> nat \<Rightarrow> 'p square" where
  "orient zero s orientation =
     (if orientation = orientationNormal then s
      else
        (let n = sq_side s; final = n - 1
         in s\<lparr>sq_pixel := (\<lambda>x y. if 0 \<le> x \<and> x < n \<and> 0 \<le> y \<and> y < n
              then (case source_of orientation final x y of (sx, sy) \<Rightarrow> RGBAAt zero s sx sy) else zero)\<rparr>))"

definition undo :: "nat \<Rightarrow> nat" where
  "undo orientation = (if orientation = 6 then 8 else if orientation = 8 then 6 else orientation)"

lemma RGBAAt_orient:
  assumes "0 \<le> x" "x < sq_side s" "0 \<le> y" "y < sq_side s"
  shows "RGBAAt zero (orient zero s ori) x y =
    (case source_of ori (sq_side s - 1) x y of (sx, sy) \<Rightarrow> RGBAAt zero s sx sy)"
  using assms by (auto simp: orient_def RGBAAt_def source_of_def orientationNormal_def Let_def)

lemma sq_side_orient [simp]: "sq_side (orient zero s ori) = sq_side s"
  by (simp add: orient_def Let_def)

section \<open>Encoding the photo\<close>

definition square_geometry :: "int \<Rightarrow> int \<Rightarrow> int \<Rightarrow> int \<times> int \<times> int \<times> int" where
  "square_geometry dx dy maxSide =
     (let side = min dx dy in ((dx - side) div 2, (dy - side) div 2, side, min side maxSide))"

record 'i photo_lib =
  decode_config :: "bytes \<Rightarrow> (int \<times> int \<times> string) result"
  decode_image :: "bytes \<Rightarrow> 'i result"
  square_on_white :: "'i \<Rightarrow> int \<Rightarrow> int square"
  encode_jpeg :: "int square \<Rightarrow> bytes result"

text \<open>
  The context is observed four times: while waiting for a slot and before and after decoding; the
  observations are arguments (\<open>None\<close>: still alive).
\<close>

definition ToJPEG :: "'i photo_lib \<Rightarrow> goerr option \<Rightarrow> goerr option \<Rightarrow> goerr option \<Rightarrow> bytes \<Rightarrow> bytes result option" where
  "ToJPEG lib ctx_slot ctx1 ctx2 data =
     (case ctx_slot of
        Some e \<Rightarrow> Some (Inl e)
      | None \<Rightarrow>
          (case decode_config lib data of
             Inl e \<Rightarrow> Some (Inl (Wrap ''groups: decode photo: '' e []))
           | Inr (w, h, format) \<Rightarrow>
               if w * h > 16000000 then
                 Some (Inl (Err EText (''groups: photo of '' @ show_int w @ ''x'' @ show_int h @ '' exceeds 16000000 pixels'')))
               else
                 Option.bind (if format = ''jpeg'' then exifOrientation data else Some orientationNormal) (\<lambda>orientation.
                   if format = ''jpeg'' \<and> orientation = orientationNormal \<and> w = h \<and> w \<le> 640 then Some (Inr data)
                   else
                     (case ctx1 of
                        Some e \<Rightarrow> Some (Inl e)
                      | None \<Rightarrow>
                          (case decode_image lib data of
                             Inl e \<Rightarrow> Some (Inl (Wrap ''groups: decode photo: '' e []))
                           | Inr img \<Rightarrow>
                               (case ctx2 of
                                  Some e \<Rightarrow> Some (Inl e)
                                | None \<Rightarrow>
                                    (case encode_jpeg lib (orient 0 (square_on_white lib img 640) orientation) of
                                       Inl e \<Rightarrow> Some (Inl (Wrap ''groups: encode photo as jpeg: '' e []))
                                     | Inr out \<Rightarrow> Some (Inr out))))))))"

section \<open>Properties\<close>

text \<open>
  C29. Looking for the EXIF orientation in arbitrary bytes never reads outside a slice, always
  ends, and yields one of the eight orientations.
\<close>

theorem exifOrientation_safe: "\<exists>v. exifOrientation data = Some v \<and> 1 \<le> v \<and> v \<le> 8"
proof (cases "length data < 4")
  case False
  obtain a b where "byte_at data 0 = Some a" "byte_at data 1 = Some b"
    using byte_at_ok [of 0 data] byte_at_ok [of 1 data] False by fastforce
  then show ?thesis using exif_scan_ok [of data 2] by (simp add: exifOrientation_def orientationNormal_def)
qed (simp add: exifOrientation_def orientationNormal_def)

text \<open>
  Turning a square picture loses nothing: turning the result by the opposite orientation gives
  every pixel back.
\<close>

lemma orient_undo:
  "RGBAAt zero (orient zero (orient zero s ori) (undo ori)) x y = RGBAAt zero s x y"
proof (cases "0 \<le> x \<and> x < sq_side s \<and> 0 \<le> y \<and> y < sq_side s")
  case False
  then show ?thesis by (auto simp: RGBAAt_def)
next
  case True
  obtain sx sy where src: "source_of (undo ori) (sq_side s - 1) x y = (sx, sy)" by (cases "source_of (undo ori) (sq_side s - 1) x y")
  then have range: "0 \<le> sx" "sx < sq_side s" "0 \<le> sy" "sy < sq_side s"
    using True by (auto simp: source_of_def split: if_splits)
  have "source_of ori (sq_side s - 1) sx sy = (x, y)"
    using src by (auto simp: source_of_def undo_def split: if_splits)
  with True range src show ?thesis
    by (simp add: RGBAAt_orient)
qed

end
