(* ===== verification/GroupService.thy ===== *)
theory GroupService
  imports Contracts Rpc
begin

text \<open>
  The group operations, internal/groups/errors.go and internal/groups/service.go. The calls of the
  whatsmeow client are the fields of a record of functions on the state of the outside world \<open>'w\<close>;
  fetching and converting a photo is one function (it is built in theory Orientation).
\<close>

section \<open>Classifying errors\<close>

definition iqCode :: "goerr \<Rightarrow> int option" where
  "iqCode err = iq_of err"

definition isIQError :: "goerr \<Rightarrow> bool" where
  "isIQError err = (iqCode err \<noteq> None)"

definition isTransientIQError :: "goerr \<Rightarrow> bool" where
  "isTransientIQError err = (case iqCode err of None \<Rightarrow> False | Some code \<Rightarrow> code = 429 \<or> code \<ge> 500)"

definition isDisconnected :: "goerr \<Rightarrow> bool" where
  "isDisconnected err = (err_is err EDisconnected \<or> err_is err ESocketClosed)"

definition lockedMessage :: string where "lockedMessage = ''group is locked (423)''"

definition classifyGroupIQCode :: "int \<Rightarrow> goerr \<Rightarrow> goerr" where
  "classifyGroupIQCode code err =
     (if code = 423 then RpcLocked lockedMessage
      else if code = 401 \<or> code = 403 then RpcForbidden (''not an admin of the group ('' @ show_int code @ '')'')
      else if code = 404 \<or> code = 410 then RpcGone (''group not found ('' @ show_int code @ '')'')
      else RpcBadGateway (err_msg err))"

definition Classify :: "goerr \<Rightarrow> goerr" where
  "Classify err =
     (if rpc_of err \<noteq> None then err
      else if err_is err EInvalidImageFormat then RpcInvalidRequest (err_msg err)
      else if err_is err EIQTimedOut \<or> err_is err ENotConnected \<or> err_is err ENotLoggedIn \<or>
          err_is err EDeadlineExceeded \<or> err_is err ECanceled \<or> isTransientIQError err \<or> isDisconnected err
        then RpcUnavailable (err_msg err)
      else
        (case iqCode err of
           Some code \<Rightarrow> classifyGroupIQCode code err
         | None \<Rightarrow>
             if err_is err EGroupNotFound then classifyGroupIQCode 404 err
             else if err_is err ENotInGroup then classifyGroupIQCode 403 err
             else if err_is err EGroupInviteLinkUnauthorized then classifyGroupIQCode 401 err
             else rpc_error ''internal'' (err_msg err)))"

definition IsUnavailable :: "goerr option \<Rightarrow> bool" where
  "IsUnavailable err = (case err of None \<Rightarrow> False | Some e \<Rightarrow> map_option fst (rpc_of e) = Some ''unavailable'')"

section \<open>The client\<close>

record participant =
  pa_jid :: jid
  pa_lid :: jid
  pa_phone :: jid

record group_info =
  gi_jid :: jid
  gi_name :: string
  gi_announce :: bool
  gi_topicID :: string
  gi_topic :: string
  gi_participantCount :: int
  gi_participants :: "participant list"
  gi_created :: "int option"

record 'w group_client =
  GetGroupInfo :: "jid \<Rightarrow> 'w \<Rightarrow> group_info result \<times> 'w"
  CreateGroup :: "string \<Rightarrow> bool \<Rightarrow> 'w \<Rightarrow> group_info result \<times> 'w"
  GetGroupInviteLink :: "jid \<Rightarrow> bool \<Rightarrow> 'w \<Rightarrow> string result \<times> 'w"
  SetGroupAnnounce :: "jid \<Rightarrow> bool \<Rightarrow> 'w \<Rightarrow> goerr option \<times> 'w"
  SetGroupName :: "jid \<Rightarrow> string \<Rightarrow> 'w \<Rightarrow> goerr option \<times> 'w"
  SetGroupTopic :: "jid \<Rightarrow> string \<Rightarrow> string \<Rightarrow> 'w \<Rightarrow> goerr option \<times> 'w"
  SetGroupPhoto :: "jid \<Rightarrow> string \<Rightarrow> 'w \<Rightarrow> goerr option \<times> 'w"
  RemoveParticipants :: "jid \<Rightarrow> jid list \<Rightarrow> 'w \<Rightarrow> int list result \<times> 'w"
  GetJoinedGroups :: "'w \<Rightarrow> group_info list result \<times> 'w"
  PNForLID :: "jid \<Rightarrow> 'w \<Rightarrow> (jid \<times> bool) result \<times> 'w"
  DeviceJID :: "jid option"
  DeviceLID :: jid
  ctx_wait :: "int \<Rightarrow> 'w \<Rightarrow> bool \<times> 'w"

section \<open>Phones\<close>

definition brazilianSibling :: "string \<Rightarrow> string option" where
  "brazilianSibling number =
     (if \<not> has_prefix number ''55'' then None
      else if length number = 12 then Some (take 4 number @ ''9'' @ drop 4 number)
      else if length number = 13 then
        (if number ! 4 \<noteq> CHR ''9'' then None else Some (take 4 number @ drop 5 number))
      else None)"

definition trim_plus :: "string \<Rightarrow> string" where
  "trim_plus phone = dropWhile (\<lambda>c. c = CHR ''+'') phone"

fun wantedPhones :: "string list \<Rightarrow> string list" where
  "wantedPhones [] = []"
| "wantedPhones (phone # phones) =
     (let number = trim_plus phone
      in number # (case brazilianSibling number of None \<Rightarrow> [] | Some sibling \<Rightarrow> [sibling]) @ wantedPhones phones)"

record selfIdentity =
  self_phone :: string
  self_lid :: string

definition selfOf :: "'w group_client \<Rightarrow> selfIdentity" where
  "selfOf c =
     \<lparr>self_phone = (case DeviceJID c of None \<Rightarrow> [] | Some j \<Rightarrow> jid_user j), self_lid = jid_user (DeviceLID c)\<rparr>"

definition self_is :: "selfIdentity \<Rightarrow> participant \<Rightarrow> bool" where
  "self_is s p =
     (if self_phone s \<noteq> [] \<and>
         (jid_user (pa_phone p) = self_phone s \<or>
          (jid_server (pa_jid p) = DefaultUserServer \<and> jid_user (pa_jid p) = self_phone s)) then True
      else self_lid s \<noteq> [] \<and>
         (jid_user (pa_lid p) = self_lid s \<or>
          (jid_server (pa_jid p) = HiddenUserServer \<and> jid_user (pa_jid p) = self_lid s)))"

definition matchesPhone :: "'w group_client \<Rightarrow> participant \<Rightarrow> string list \<Rightarrow> 'w \<Rightarrow> bool \<times> 'w" where
  "matchesPhone c p wanted w =
     (if jid_user (pa_phone p) \<in> set wanted \<and> jid_user (pa_phone p) \<noteq> [] then (True, w)
      else if jid_server (pa_jid p) = DefaultUserServer \<and> jid_user (pa_jid p) \<in> set wanted then (True, w)
      else if jid_user (pa_phone p) \<noteq> [] \<or> jid_user (pa_lid p) = [] then (False, w)
      else
        (case PNForLID c (pa_lid p) w of
           (Inl err, w') \<Rightarrow> (False, w')
         | (Inr (resolved, ok), w') \<Rightarrow>
             if \<not> ok then (False, w') else (jid_user resolved \<in> set wanted, w')))"

section \<open>Operations\<close>

type_synonym action_result = "int option"

fun pick_targets :: "'w group_client \<Rightarrow> selfIdentity \<Rightarrow> string list \<Rightarrow> participant list \<Rightarrow> 'w \<Rightarrow> jid list \<times> 'w" where
  "pick_targets c self wanted [] w = ([], w)"
| "pick_targets c self wanted (p # ps) w =
     (if self_is self p then pick_targets c self wanted ps w
      else
        (case matchesPhone c p wanted w of (m, w1) \<Rightarrow>
           case pick_targets c self wanted ps w1 of (ts, w2) \<Rightarrow>
             (if m then pa_jid p # ts else ts, w2)))"

definition removeParticipants :: "'w group_client \<Rightarrow> jid \<Rightarrow> string list \<Rightarrow> 'w \<Rightarrow> action_result result \<times> 'w" where
  "removeParticipants c j phones w =
     (case GetGroupInfo c j w of
        (Inl err, w1) \<Rightarrow> (Inl (Classify err), w1)
      | (Inr info, w1) \<Rightarrow>
          (case pick_targets c (selfOf c) (wantedPhones phones) (gi_participants info) w1 of (targets, w2) \<Rightarrow>
             if targets = [] then (Inr (Some 0), w2)
             else
               (case RemoveParticipants c j targets w2 of
                  (Inl err, w3) \<Rightarrow> (Inl (Classify err), w3)
                | (Inr results, w3) \<Rightarrow> (Inr (Some (int (length (filter (\<lambda>r. r = 0) results)))), w3))))"

definition setDescription :: "'w group_client \<Rightarrow> jid \<Rightarrow> string \<Rightarrow> 'w \<Rightarrow> action_result result \<times> 'w" where
  "setDescription c j description w =
     (case GetGroupInfo c j w of
        (Inl err, w1) \<Rightarrow> (Inl (Classify err), w1)
      | (Inr info, w1) \<Rightarrow>
          if gi_topic info = description then (Inr None, w1)
          else
            (case SetGroupTopic c j (gi_topicID info) description w1 of
               (Some err, w2) \<Rightarrow> (Inl (Classify err), w2)
             | (None, w2) \<Rightarrow> (Inr None, w2)))"

definition done_or :: "goerr option \<times> 'w \<Rightarrow> action_result result \<times> 'w" where
  "done_or r = (case r of (Some err, w) \<Rightarrow> (Inl (Classify err), w) | (None, w) \<Rightarrow> (Inr None, w))"

definition Apply :: "'w group_client \<Rightarrow> string \<Rightarrow> jid \<Rightarrow> GroupActionParams \<Rightarrow> string \<Rightarrow> 'w \<Rightarrow> action_result result \<times> 'w" where
  "Apply c action j params photo w =
     (if action = ''lock'' then done_or (SetGroupAnnounce c j True w)
      else if action = ''unlock'' then done_or (SetGroupAnnounce c j False w)
      else if action = ''set_name'' then
        (if trim_space (ga_name params) = [] then (Inl (RpcInvalidRequest ''name is required''), w)
         else done_or (SetGroupName c j (ga_name params) w))
      else if action = ''set_description'' then setDescription c j (ga_description params) w
      else if action = ''set_photo'' then
        (if photo = [] then (Inl (RpcInvalidRequest ''photo is required''), w)
         else done_or (SetGroupPhoto c j photo w))
      else if action = ''remove_participants'' then removeParticipants c j (ga_phones params) w
      else (Inl (RpcInvalidRequest (''unknown action '' @ go_quote action)), w))"

text \<open>The conversion reports its error and whether the context had ended.\<close>

definition PreparePhoto ::
  "(string \<Rightarrow> 'w \<Rightarrow> string result \<times> 'w) option \<Rightarrow> (string \<Rightarrow> 'w \<Rightarrow> string result \<times> bool \<times> 'w) \<Rightarrow> string \<Rightarrow> 'w \<Rightarrow> string result \<times> 'w" where
  "PreparePhoto fetch to_jpeg url w =
     (if url = [] then (Inl (RpcInvalidRequest ''photoUrl is required''), w)
      else
        (case fetch of
           None \<Rightarrow> (Inl (RpcInvalidRequest ''photo fetch is not available''), w)
         | Some f \<Rightarrow>
             (case f url w of
                (Inl err, w1) \<Rightarrow> (Inl (RpcInvalidRequest (''fetch photo: '' @ err_msg err)), w1)
              | (Inr raw, w1) \<Rightarrow>
                  (case to_jpeg raw w1 of
                     (Inr jpg, _, w2) \<Rightarrow> (Inr jpg, w2)
                   | (Inl err, ctx_ended, w2) \<Rightarrow>
                       (Inl (if ctx_ended then Classify err else RpcInvalidRequest (err_msg err)), w2)))))"

definition participantCount :: "group_info \<Rightarrow> int" where
  "participantCount info =
     (if gi_participantCount info > 0 then gi_participantCount info else int (length (gi_participants info)))"

definition createdAt :: "int \<Rightarrow> group_info \<Rightarrow> int" where
  "createdAt now info = (case gi_created info of None \<Rightarrow> now | Some t \<Rightarrow> t)"

record Info =
  in_groupJID :: string
  in_name :: string
  in_announce :: bool
  in_participantCount :: int
  in_createdAt :: int

definition infoOf :: "walib \<Rightarrow> int \<Rightarrow> group_info \<Rightarrow> Info" where
  "infoOf lib now info =
     \<lparr>in_groupJID = jid_string lib (gi_jid info), in_name = gi_name info, in_announce = gi_announce info,
      in_participantCount = participantCount info, in_createdAt = createdAt now info\<rparr>"

definition inviteRetryDelays :: "int list" where
  "inviteRetryDelays = [200 * 1000000, 500 * 1000000, 1000 * 1000000]"

text \<open>\<open>ctx_wait\<close> waits for a delay and says whether the timer fired (\<open>False\<close>: the context ended).\<close>

fun invite_retry :: "'w group_client \<Rightarrow> jid \<Rightarrow> int list \<Rightarrow> string result \<Rightarrow> 'w \<Rightarrow> string result \<times> 'w" where
  "invite_retry c j [] r w = (r, w)"
| "invite_retry c j (delay # delays) r w =
     (case r of
        Inr link \<Rightarrow> (Inr link, w)
      | Inl err \<Rightarrow>
          (case ctx_wait c delay w of
             (False, w1) \<Rightarrow> (Inl err, w1)
           | (True, w1) \<Rightarrow>
               (case GetGroupInviteLink c j False w1 of (r', w2) \<Rightarrow> invite_retry c j delays r' w2)))"

definition inviteLinkWithRetry :: "'w group_client \<Rightarrow> jid \<Rightarrow> 'w \<Rightarrow> string result \<times> 'w" where
  "inviteLinkWithRetry c j w =
     (case GetGroupInviteLink c j False w of (r, w1) \<Rightarrow> invite_retry c j inviteRetryDelays r w1)"

record CreateRequest =
  cr_name :: string
  cr_description :: string
  cr_photoURL :: string
  cr_announce :: bool

record CreateResult =
  ct_groupJID :: string
  ct_inviteURL :: string
  ct_participantCount :: int
  ct_createdAt :: int

definition setPhotoFromURL ::
  "'w group_client \<Rightarrow> (string \<Rightarrow> 'w \<Rightarrow> string result \<times> 'w) \<Rightarrow> jid \<Rightarrow> string \<Rightarrow> 'w \<Rightarrow> goerr option \<times> 'w" where
  "setPhotoFromURL c prepare j url w =
     (case prepare url w of
        (Inl err, w1) \<Rightarrow> (Some err, w1)
      | (Inr jpg, w1) \<Rightarrow> SetGroupPhoto c j jpg w1)"

definition Create_group ::
  "walib \<Rightarrow> 'w group_client \<Rightarrow> (string \<Rightarrow> 'w \<Rightarrow> string result \<times> 'w) \<Rightarrow> int \<Rightarrow> CreateRequest \<Rightarrow> 'w \<Rightarrow> CreateResult result \<times> 'w" where
  "Create_group lib c prepare now req w =
     (if trim_space (cr_name req) = [] then (Inl (RpcInvalidRequest ''group name is required''), w)
      else
        (case CreateGroup c (cr_name req) (cr_announce req) w of
           (Inl err, w1) \<Rightarrow> (Inl (Classify err), w1)
         | (Inr info, w1) \<Rightarrow>
             (let w2 = (if cr_description req \<noteq> []
                        then snd (SetGroupTopic c (gi_jid info) (gi_topicID info) (cr_description req) w1) else w1);
                  w3 = (if cr_photoURL req \<noteq> [] then snd (setPhotoFromURL c prepare (gi_jid info) (cr_photoURL req) w2) else w2)
              in case inviteLinkWithRetry c (gi_jid info) w3 of (r, w4) \<Rightarrow>
                (Inr \<lparr>ct_groupJID = jid_string lib (gi_jid info),
                      ct_inviteURL = (case r of Inl err \<Rightarrow> [] | Inr link \<Rightarrow> link),
                      ct_participantCount = max (participantCount info) 1,
                      ct_createdAt = createdAt now info\<rparr>, w4))))"

definition InviteLink :: "'w group_client \<Rightarrow> jid \<Rightarrow> bool \<Rightarrow> 'w \<Rightarrow> string result \<times> 'w" where
  "InviteLink c j reset w =
     (case GetGroupInviteLink c j reset w of
        (Inl err, w1) \<Rightarrow> (Inl (Classify err), w1) | (Inr link, w1) \<Rightarrow> (Inr link, w1))"

definition Describe :: "walib \<Rightarrow> int \<Rightarrow> 'w group_client \<Rightarrow> jid \<Rightarrow> 'w \<Rightarrow> Info result \<times> 'w" where
  "Describe lib now c j w =
     (case GetGroupInfo c j w of
        (Inl err, w1) \<Rightarrow> (Inl (Classify err), w1) | (Inr info, w1) \<Rightarrow> (Inr (infoOf lib now info), w1))"

definition Joined :: "walib \<Rightarrow> int \<Rightarrow> 'w group_client \<Rightarrow> 'w \<Rightarrow> Info list result \<times> 'w" where
  "Joined lib now c w =
     (case GetJoinedGroups c w of
        (Inl err, w1) \<Rightarrow> (Inl (Classify err), w1) | (Inr l, w1) \<Rightarrow> (Inr (map (infoOf lib now) l), w1))"

section \<open>Lemmas\<close>

definition rpc_codes :: "string list" where
  "rpc_codes = [''invalid_request'', ''not_found'', ''unavailable'', ''bad_gateway'', ''locked'', ''forbidden'', ''gone'', ''internal'']"

lemma rpc_of_rpc_error [simp]: "rpc_of (rpc_error code m) = Some (code, m)"
  by (simp add: rpc_error_def)

lemmas rpc_defs = RpcNotFound_def RpcUnavailable_def RpcBadGateway_def RpcLocked_def RpcForbidden_def RpcGone_def
  RpcInvalidRequest_def

definition coded :: "goerr \<Rightarrow> bool" where
  "coded err = (\<exists>code m. rpc_of err = Some (code, m) \<and> code \<in> set rpc_codes)"

lemma coded_rpc [simp]:
  "coded (RpcNotFound m)" "coded (RpcUnavailable m)" "coded (RpcBadGateway m)" "coded (RpcLocked m)"
  "coded (RpcForbidden m)" "coded (RpcGone m)" "coded (RpcInvalidRequest m)" "coded (rpc_error ''internal'' m)"
  by (simp_all add: coded_def rpc_defs rpc_codes_def)

lemma coded_classifyGroupIQCode [simp]: "coded (classifyGroupIQCode c err)"
  by (simp add: classifyGroupIQCode_def)

lemma coded_Classify: "rpc_of err = None \<Longrightarrow> coded (Classify err)"
  by (simp add: Classify_def split: option.split)

lemma not_unavailable_classifyGroupIQCode [simp]: "\<not> IsUnavailable (Some (classifyGroupIQCode c err))"
  by (simp add: classifyGroupIQCode_def IsUnavailable_def rpc_defs)

lemma brazilianSibling_involution:
  assumes "brazilianSibling n = Some m"
  shows "brazilianSibling m = Some n"
proof -
  from assms have pre: "has_prefix n ''55''" by (auto simp: brazilianSibling_def split: if_splits)
  then obtain rest where n: "n = ''55'' @ rest" by (metis append_take_drop_id has_prefix_def)
  show ?thesis
  proof (cases "length n = 12")
    case True
    then obtain a b cs where rest: "rest = a # b # cs" "length cs = 8"
      using n by (cases rest; cases "tl rest") auto
    from assms n rest True have "m = ''55'' @ a # b # CHR ''9'' # cs" by (auto simp: brazilianSibling_def split: if_splits)
    with rest n show ?thesis by (simp add: brazilianSibling_def has_prefix_def)
  next
    case False
    with assms have l: "length n = 13" "n ! 4 = CHR ''9''" and m: "m = take 4 n @ drop 5 n"
      by (auto simp: brazilianSibling_def split: if_splits)
    then obtain a b d cs where rest: "rest = a # b # d # cs" "length cs = 8"
      using n by (cases rest; cases "tl rest"; cases "tl (tl rest)") auto
    with l n have "d = CHR ''9''" by simp
    with m n rest show ?thesis by (simp add: brazilianSibling_def has_prefix_def)
  qed
qed

lemma set_wantedPhones:
  "set (wantedPhones phones) =
   trim_plus ` set phones \<union> {s. \<exists>p\<in>set phones. brazilianSibling (trim_plus p) = Some s}"
  by (induction phones) (auto simp: Let_def split: option.splits)

text \<open>Both forms of a Brazilian number select the same participants.\<close>

lemma wantedPhones_sibling:
  assumes "brazilianSibling (trim_plus p) = Some (trim_plus q)"
  shows "set (wantedPhones [p]) = set (wantedPhones [q])"
  using assms brazilianSibling_involution [OF assms] by (auto simp: set_wantedPhones)

lemma pick_targets_not_self:
  "set (fst (pick_targets c self wanted ps w)) \<subseteq> pa_jid ` {p \<in> set ps. \<not> self_is self p}"
proof (induction ps arbitrary: w)
  case (Cons p ps)
  show ?case
  proof (cases "self_is self p")
    case True
    with Cons [of w] show ?thesis by auto
  next
    case False
    obtain m w1 where m: "matchesPhone c p wanted w = (m, w1)" by (cases "matchesPhone c p wanted w")
    obtain ts w2 where t: "pick_targets c self wanted ps w1 = (ts, w2)" by (cases "pick_targets c self wanted ps w1")
    have "set ts \<subseteq> pa_jid ` {p \<in> set ps. \<not> self_is self p}" using Cons [of w1] t by simp
    with False m t show ?thesis by auto
  qed
qed simp

text \<open>When the resolver answers the same whatever the state, the targets are a filter.\<close>

lemma pick_targets_filter:
  assumes "\<And>l w. PNForLID c l w = (ans l, w)"
  shows "pick_targets c self wanted ps w =
    (map pa_jid (filter (\<lambda>p. \<not> self_is self p \<and> fst (matchesPhone c p wanted w)) ps), w)"
proof (induction ps)
  case (Cons p ps)
  have "matchesPhone c p wanted w = (fst (matchesPhone c p wanted w), w)"
    using assms by (auto simp: matchesPhone_def split: sum.splits prod.splits)
  then obtain b where b: "matchesPhone c p wanted w = (b, w)" by metis
  show ?case using Cons by (simp add: b)
qed simp

section \<open>Properties\<close>

text \<open>
  Every error of a group operation gets one of the eight codes of the RPC contract, an error
  that has one keeps it, classifying twice changes nothing, and unavailable is only said of
  errors that may pass (no connection, a timeout, a cancellation, code 429 or 500 and above).
\<close>

lemma Classify_total:
  "(\<exists>code m. rpc_of (Classify err) = Some (code, m) \<and> (rpc_of err = None \<longrightarrow> code \<in> set rpc_codes)) \<and>
   Classify (Classify err) = Classify err \<and>
   (rpc_of err = None \<longrightarrow>
      (IsUnavailable (Some (Classify err)) \<longleftrightarrow>
         \<not> err_is err EInvalidImageFormat \<and>
         (isTransientIQError err \<or> isDisconnected err \<or>
          (\<exists>k\<in>set [EIQTimedOut, ENotConnected, ENotLoggedIn, EDeadlineExceeded, ECanceled]. err_is err k))))"
proof -
  have known: "\<exists>code m. rpc_of (Classify err) = Some (code, m) \<and> (rpc_of err = None \<longrightarrow> code \<in> set rpc_codes)"
  proof (cases "rpc_of err")
    case (Some cm)
    then show ?thesis by (cases cm) (simp add: Classify_def)
  next
    case None
    with coded_Classify [OF None] show ?thesis by (simp add: coded_def)
  qed
  then have "Classify (Classify err) = Classify err" by (auto simp: Classify_def [of "Classify err"])
  moreover have "rpc_of err = None \<Longrightarrow> IsUnavailable (Some (Classify err)) \<longleftrightarrow>
         \<not> err_is err EInvalidImageFormat \<and>
         (isTransientIQError err \<or> isDisconnected err \<or>
          (\<exists>k\<in>set [EIQTimedOut, ENotConnected, ENotLoggedIn, EDeadlineExceeded, ECanceled]. err_is err k))"
  proof -
    assume none: "rpc_of err = None"
    have "\<not> IsUnavailable (Some (RpcInvalidRequest m))" "IsUnavailable (Some (RpcUnavailable m))"
      "\<not> IsUnavailable (Some (rpc_error ''internal'' m))" for m
      by (simp_all add: IsUnavailable_def rpc_defs)
    then show ?thesis
      using none by (simp add: Classify_def split: option.split)
  qed
  ultimately show ?thesis using known by blast
qed


definition demo_client :: "jid list group_client" where
  "demo_client =
     \<lparr>GetGroupInfo = (\<lambda>j w. (Inr \<lparr>gi_jid = j, gi_name = [], gi_announce = False, gi_topicID = [], gi_topic = [],
          gi_participantCount = 0,
          gi_participants = [\<lparr>pa_jid = \<lparr>jid_user = ''5511'', jid_server = DefaultUserServer, jid_device = 0\<rparr>, pa_lid = empty_jid, pa_phone = empty_jid\<rparr>,
            \<lparr>pa_jid = \<lparr>jid_user = ''me'', jid_server = DefaultUserServer, jid_device = 0\<rparr>, pa_lid = empty_jid, pa_phone = empty_jid\<rparr>],
          gi_created = None\<rparr>, w)),
      CreateGroup = (\<lambda>n a w. (Inl (Err EText []), w)), GetGroupInviteLink = (\<lambda>j r w. (Inr ''link'', w)),
      SetGroupAnnounce = (\<lambda>j b w. (None, w)), SetGroupName = (\<lambda>j n w. (None, w)), SetGroupTopic = (\<lambda>j i t w. (None, w)),
      SetGroupPhoto = (\<lambda>j p w. (None, w)), RemoveParticipants = (\<lambda>j ts w. (Inr (map (\<lambda>t. 0) ts), w @ ts)),
      GetJoinedGroups = (\<lambda>w. (Inr [], w)), PNForLID = (\<lambda>l w. (Inr (empty_jid, False), w)),
      DeviceJID = Some \<lparr>jid_user = ''me'', jid_server = DefaultUserServer, jid_device = 1\<rparr>, DeviceLID = empty_jid,
      ctx_wait = (\<lambda>d w. (True, w))\<rparr>"


text \<open>
  The two forms of a Brazilian mobile number (with and without the ninth digit) are each
  other's sibling, so asking to remove one of them selects exactly the participants that asking
  for the other selects.
\<close>

lemma sibling_symmetric:
  assumes "brazilianSibling (trim_plus p) = Some (trim_plus q)"
  shows "brazilianSibling (trim_plus q) = Some (trim_plus p) \<and>
    (\<forall>w. pick_targets c self (wantedPhones [p]) ps w = pick_targets c self (wantedPhones [q]) ps w)"
proof -
  have eq: "set (wantedPhones [p]) = set (wantedPhones [q])" using assms by (rule wantedPhones_sibling)
  have "matchesPhone c x (wantedPhones [p]) w = matchesPhone c x (wantedPhones [q]) w" for x w
    by (simp only: matchesPhone_def eq)
  then have "pick_targets c self (wantedPhones [p]) ps w = pick_targets c self (wantedPhones [q]) ps w" for w
    by (induction ps arbitrary: w) (simp_all del: wantedPhones.simps)
  then show ?thesis using brazilianSibling_involution [OF assms] by blast
qed

end
