(* ===== verification/StatusEvents.thy ===== *)
theory StatusEvents
  imports Contracts
begin

text \<open>
  Who sent a message and what became of it: internal/senderid/senderid.go,
  internal/mapper/chatkind.go, internal/mapper/receipt.go, internal/mapper/sent_status.go and the
  receipts of internal/mapper/inbound.go. Timestamps are Unix seconds.
\<close>

section \<open>Kinds of chats and senders\<close>

datatype ChatKind = ChatPrivate | ChatGroup | ChatIgnored

definition KindOf :: "jid \<Rightarrow> ChatKind" where
  "KindOf chat =
     (case jid_server chat of
        GroupServer \<Rightarrow> ChatGroup
      | BroadcastServer \<Rightarrow> ChatIgnored
      | NewsletterServer \<Rightarrow> ChatIgnored
      | _ \<Rightarrow> ChatPrivate)"

text \<open>The resolver may be absent; its answer is a function of the LID.\<close>

type_synonym resolver = "(jid \<Rightarrow> (jid \<times> bool) result) option"

definition Resolve :: "resolver \<Rightarrow> jid \<Rightarrow> jid \<Rightarrow> string \<times> string" where
  "Resolve resolver sender senderAlt =
     (case jid_server sender of
        HiddenUserServer \<Rightarrow>
          (jid_user sender,
           if jid_server senderAlt = DefaultUserServer then jid_user senderAlt
           else
             (case resolver of
                None \<Rightarrow> []
              | Some r \<Rightarrow>
                  (case r sender of
                     Inr (resolved, ok) \<Rightarrow>
                       if ok \<and> jid_server resolved = DefaultUserServer then jid_user resolved else []
                   | Inl err \<Rightarrow> [])))
      | DefaultUserServer \<Rightarrow>
          (if jid_server senderAlt = HiddenUserServer then jid_user senderAlt else [], jid_user sender)
      | _ \<Rightarrow> ([], jid_user sender))"

definition sender_From :: "string \<Rightarrow> string \<Rightarrow> string" where
  "sender_From lid pn = (if pn \<noteq> [] then pn else lid)"

section \<open>Status events\<close>

record StatusError =
  se_code :: string
  se_reason :: string

record ResolvedRecipient =
  rp_phone :: string
  rp_lid :: string

record StatusEvent =
  ev_providerMessageID :: string
  ev_opaqueMessageID :: string
  ev_status :: string
  ev_timestamp :: string
  ev_error :: "StatusError option"
  ev_tenantID :: string
  ev_resolvedRecipient :: "ResolvedRecipient option"

definition resolvedRecipient :: "walib \<Rightarrow> string \<Rightarrow> jid \<Rightarrow> ResolvedRecipient option" where
  "resolvedRecipient lib requested chat =
     (case parse_jid lib requested of
        Inl err \<Rightarrow> None
      | Inr pn \<Rightarrow>
          if jid_server pn \<noteq> DefaultUserServer \<or> jid_server chat \<noteq> HiddenUserServer then None
          else Some \<lparr>rp_phone = jid_user pn, rp_lid = jid_user chat\<rparr>)"

definition SentStatus :: "walib \<Rightarrow> GatewaySendCommand \<Rightarrow> jid \<Rightarrow> string \<Rightarrow> int \<Rightarrow> StatusEvent" where
  "SentStatus lib cmd chat providerMessageID sentAt =
     (let evt = \<lparr>ev_providerMessageID = providerMessageID, ev_opaqueMessageID = sc_messageID cmd, ev_status = ''sent'',
                 ev_timestamp = show_int sentAt, ev_error = None, ev_tenantID = [], ev_resolvedRecipient = None\<rparr>
      in case resolvedRecipient lib (sc_to cmd) chat of
           None \<Rightarrow> evt
         | Some recipient \<Rightarrow> evt\<lparr>ev_tenantID := sc_tenantID cmd, ev_resolvedRecipient := Some recipient\<rparr>)"

datatype receipt_type = ReceiptDelivered | ReceiptRead | ReceiptOther string

record receipt =
  rc_chat :: jid
  rc_sender :: jid
  rc_type :: receipt_type
  rc_messageIDs :: "string list"
  rc_timestamp :: int

definition statusFor :: "receipt_type \<Rightarrow> string" where
  "statusFor t = (case t of ReceiptDelivered \<Rightarrow> ''delivered'' | ReceiptRead \<Rightarrow> ''read'' | ReceiptOther s \<Rightarrow> [])"

definition BuildStatus :: "receipt \<Rightarrow> StatusEvent list" where
  "BuildStatus evt =
     (let status = statusFor (rc_type evt) in
      if status = [] then []
      else map (\<lambda>mid. \<lparr>ev_providerMessageID = mid, ev_opaqueMessageID = [], ev_status = status,
                     ev_timestamp = show_int (rc_timestamp evt), ev_error = None, ev_tenantID = [],
                     ev_resolvedRecipient = None\<rparr>) (rc_messageIDs evt))"

record GroupStatusEvent =
  gs_tenantID :: string
  gs_channelID :: string
  gs_groupJID :: string
  gs_participantJID :: string
  gs_messageIDs :: "string list"
  gs_status :: string
  gs_timestamp :: string

definition BuildGroupStatus :: "walib \<Rightarrow> string \<Rightarrow> string \<Rightarrow> receipt \<Rightarrow> GroupStatusEvent option" where
  "BuildGroupStatus lib channelID tenantID evt =
     (if KindOf (rc_chat evt) \<noteq> ChatGroup then None
      else
        (let status = statusFor (rc_type evt) in
         if status = [] then None
         else if rc_messageIDs evt = [] then None
         else Some \<lparr>gs_tenantID = tenantID, gs_channelID = channelID, gs_groupJID = jid_string lib (rc_chat evt),
                gs_participantJID = jid_string lib (to_non_ad lib (rc_sender evt)), gs_messageIDs = rc_messageIDs evt,
                gs_status = status, gs_timestamp = show_int (rc_timestamp evt)\<rparr>))"

text \<open>What \<open>handleReceipt\<close> of internal/gateway/gateway.go publishes for a receipt.\<close>

definition handleReceipt :: "walib \<Rightarrow> string \<Rightarrow> string \<Rightarrow> receipt \<Rightarrow> GroupStatusEvent option \<times> StatusEvent list" where
  "handleReceipt lib channelID tenantID evt =
     (case BuildGroupStatus lib channelID tenantID evt of
        Some g \<Rightarrow> (Some g, [])
      | None \<Rightarrow> (None, BuildStatus evt))"

section \<open>Properties\<close>

text \<open>
  A receipt becomes either one group event or one status event per message, never both, always
  with all its messages; and the receipt of a direct chat never becomes a group event.
\<close>

lemma receipt_events:
  "(case handleReceipt lib channelID tenantID evt of
      (Some g, ss) \<Rightarrow> ss = [] \<and> KindOf (rc_chat evt) = ChatGroup \<and> gs_messageIDs g = rc_messageIDs evt \<and>
        gs_status g = statusFor (rc_type evt)
    | (None, ss) \<Rightarrow>
        map ev_providerMessageID ss = (if statusFor (rc_type evt) = [] then [] else rc_messageIDs evt) \<and>
        list_all (\<lambda>s. ev_status s = statusFor (rc_type evt)) ss \<and>
        (KindOf (rc_chat evt) = ChatGroup \<longrightarrow> ss = []))"
  by (auto simp: handleReceipt_def BuildGroupStatus_def BuildStatus_def Let_def comp_def list_all_iff
      split: option.splits)

end
