(* ===== verification/Ledger.thy ===== *)
theory Ledger
  imports Prelude "HOL-Library.Word"
begin

unbundle bit_operations_syntax

text \<open>
  The ledger of what was done, internal/dedupe/store.go: a table of sent messages by dedupe key and
  a table of group actions by command and group. The results of the database calls are arguments;
  a statement that fails changes nothing. SHA-256 is an argument.
\<close>

section \<open>Tables\<close>

datatype ledger_status = StPending | StSent | StFailed

record sent_row =
  sn_provider :: string
  sn_status :: ledger_status

record action_row =
  ac_status :: ledger_status
  ac_removed :: "int option"
  ac_failure :: "string option"
  ac_halts :: int

record ledger =
  sent_messages :: "string \<Rightarrow> sent_row option"
  group_actions :: "string \<times> string \<Rightarrow> action_row option"

section \<open>Provider identifiers\<close>

definition upper_hex :: "nat \<Rightarrow> char" where
  "upper_hex d = (if d < 10 then char_of (48 + d) else char_of (55 + d))"

definition DeterministicProviderID :: "(string \<Rightarrow> 8 word list) \<Rightarrow> string \<Rightarrow> string" where
  "DeterministicProviderID sha256 messageID =
     ''3EB0'' @ concat (map (\<lambda>b. [upper_hex (unat b div 16), upper_hex (unat b mod 16)]) (take 9 (sha256 messageID)))"

section \<open>Messages\<close>

definition Begin :: "goerr option \<Rightarrow> goerr option \<Rightarrow> string \<Rightarrow> string \<Rightarrow> ledger \<Rightarrow> (bool \<times> string) result \<times> ledger" where
  "Begin fail1 fail2 messageID providerID l =
     (case fail1 of
        Some err \<Rightarrow> (Inl (Wrap (''dedupe: begin '' @ messageID @ '': '') err []), l)
      | None \<Rightarrow>
          (case sent_messages l messageID of
             None \<Rightarrow>
               (Inr (False, providerID),
                l\<lparr>sent_messages := (sent_messages l)(messageID \<mapsto> \<lparr>sn_provider = providerID, sn_status = StPending\<rparr>)\<rparr>)
           | Some row \<Rightarrow>
               (case fail2 of
                  Some err \<Rightarrow> (Inl (Wrap (''dedupe: read back '' @ messageID @ '': '') err []), l)
                | None \<Rightarrow> (Inr (sn_status row = StSent, sn_provider row), l))))"

definition MarkSent :: "goerr option \<Rightarrow> string \<Rightarrow> ledger \<Rightarrow> goerr option \<times> ledger" where
  "MarkSent fail messageID l =
     (case fail of
        Some err \<Rightarrow> (Some (Wrap (''dedupe: mark sent '' @ messageID @ '': '') err []), l)
      | None \<Rightarrow>
          (case sent_messages l messageID of
             None \<Rightarrow> (Some (Err EText (''dedupe: mark sent '' @ messageID @ '': no ledger row found'')), l)
           | Some row \<Rightarrow> (None, l\<lparr>sent_messages := (sent_messages l)(messageID \<mapsto> row\<lparr>sn_status := StSent\<rparr>)\<rparr>)))"

section \<open>Group actions\<close>

record ActionRecord =
  ar_finished :: bool
  ar_removed :: "int option"
  ar_failure :: string

definition BeginAction :: "goerr option \<Rightarrow> string \<Rightarrow> string \<Rightarrow> ledger \<Rightarrow> ActionRecord result \<times> ledger" where
  "BeginAction fail commandID groupJID l =
     (case fail of
        Some err \<Rightarrow> (Inl (Wrap (''dedupe: begin action '' @ commandID @ ''/'' @ groupJID @ '': '') err []), l)
      | None \<Rightarrow>
          (let row = (case group_actions l (commandID, groupJID) of
                        Some row \<Rightarrow> row
                      | None \<Rightarrow> \<lparr>ac_status = StPending, ac_removed = None, ac_failure = None, ac_halts = 0\<rparr>);
               l' = l\<lparr>group_actions := (group_actions l)((commandID, groupJID) \<mapsto> row)\<rparr>
           in if ac_status row = StFailed \<and> (case ac_failure row of None \<Rightarrow> False | Some f \<Rightarrow> f \<noteq> [])
              then (Inr \<lparr>ar_finished = True, ar_removed = None,
                        ar_failure = (case ac_failure row of None \<Rightarrow> [] | Some f \<Rightarrow> f)\<rparr>, l')
              else (Inr \<lparr>ar_finished = (ac_status row = StSent), ar_removed = ac_removed row, ar_failure = []\<rparr>, l')))"

fun status_text :: "ledger_status \<Rightarrow> string" where
  "status_text StPending = ''pending''"
| "status_text StSent = ''sent''"
| "status_text StFailed = ''failed''"

definition finishAction ::
  "goerr option \<Rightarrow> string \<Rightarrow> string \<Rightarrow> ledger_status \<Rightarrow> int option \<Rightarrow> string option \<Rightarrow> ledger \<Rightarrow> goerr option \<times> ledger" where
  "finishAction fail commandID groupJID status removed failure l =
     (let place = ''dedupe: finish action '' @ commandID @ ''/'' @ groupJID @ '' as '' @ status_text status in
      case fail of
        Some err \<Rightarrow> (Some (Wrap (place @ '': '') err []), l)
      | None \<Rightarrow>
          (case group_actions l (commandID, groupJID) of
             None \<Rightarrow> (Some (Err EText (place @ '': no ledger row found'')), l)
           | Some row \<Rightarrow>
               (None, l\<lparr>group_actions := (group_actions l)((commandID, groupJID) \<mapsto>
                  row\<lparr>ac_status := status, ac_removed := removed, ac_failure := failure\<rparr>)\<rparr>)))"

definition MarkActionDone :: "goerr option \<Rightarrow> string \<Rightarrow> string \<Rightarrow> int option \<Rightarrow> ledger \<Rightarrow> goerr option \<times> ledger" where
  "MarkActionDone fail commandID groupJID removed l = finishAction fail commandID groupJID StSent removed None l"

definition MarkActionFailed :: "goerr option \<Rightarrow> string \<Rightarrow> string \<Rightarrow> string \<Rightarrow> ledger \<Rightarrow> goerr option \<times> ledger" where
  "MarkActionFailed fail commandID groupJID failure l =
     (if failure = [] then
        (Some (Err EText (''dedupe: mark action failed '' @ commandID @ ''/'' @ groupJID @ '': the failure reason is required'')), l)
      else finishAction fail commandID groupJID StFailed None (Some failure) l)"

definition RecordActionHalt :: "goerr option \<Rightarrow> string \<Rightarrow> string \<Rightarrow> ledger \<Rightarrow> int result \<times> ledger" where
  "RecordActionHalt fail commandID groupJID l =
     (let place = ''dedupe: record action halt '' @ commandID @ ''/'' @ groupJID in
      case fail of
        Some err \<Rightarrow> (Inl (Wrap (place @ '': '') err []), l)
      | None \<Rightarrow>
          (case group_actions l (commandID, groupJID) of
             None \<Rightarrow> (Inl (Err EText (place @ '': no ledger row found'')), l)
           | Some row \<Rightarrow>
               (Inr (ac_halts row + 1),
                l\<lparr>group_actions := (group_actions l)((commandID, groupJID) \<mapsto> row\<lparr>ac_halts := ac_halts row + 1\<rparr>)\<rparr>)))"

section \<open>The dedupe key of a send command\<close>

text \<open>The 32-bit FNV-1a hash of hash/fnv, on words that wrap around, and the verb \<open>%08x\<close>.\<close>

definition fnv32a :: "string \<Rightarrow> 32 word" where
  "fnv32a s = foldl (\<lambda>h c. (h XOR of_nat (of_char c)) * 16777619) 2166136261 s"

definition hex8 :: "32 word \<Rightarrow> string" where
  "hex8 w = map (\<lambda>i. hex_digit (unat (drop_bit (4 * (7 - i)) w) mod 16)) [0..<8]"

section \<open>The interface of a done-ledger\<close>

text \<open>
  What the handlers rely on: a key that was marked is found marked by every later look, looking
  never unmarks, and other keys are not touched.
\<close>

locale done_ledger =
  fixes look :: "'k \<Rightarrow> 'l \<Rightarrow> bool \<times> 'l"
    and mark :: "'k \<Rightarrow> 'l \<Rightarrow> 'l"
    and marked :: "'l \<Rightarrow> 'k \<Rightarrow> bool"
    and present :: "'l \<Rightarrow> 'k \<Rightarrow> bool"
  assumes look_result: "fst (look k l) = marked l k"
    and look_keeps: "marked (snd (look k l)) k' = marked l k'"
    and look_present: "present (snd (look k l)) k"
    and mark_marks: "present l k \<Longrightarrow> marked (mark k l) k"
    and mark_other: "k' \<noteq> k \<Longrightarrow> marked (mark k l) k' = marked l k'"
begin

lemma marked_stays: "marked l k \<Longrightarrow> present l k' \<Longrightarrow> marked (mark k' l) k"
  using mark_marks mark_other by (cases "k = k'") auto

text \<open>Doing something for every key that is not marked yet, marking it: nothing is done twice.\<close>

fun do_once :: "'k list \<Rightarrow> 'l \<Rightarrow> 'k list \<times> 'l" where
  "do_once [] l = ([], l)"
| "do_once (k # ks) l =
     (case look k l of (m, l1) \<Rightarrow>
        if m then do_once ks l1
        else (case do_once ks (mark k l1) of (ds, l2) \<Rightarrow> (k # ds, l2)))"

lemma do_once_spec:
  "do_once ks l = (ds, l') \<Longrightarrow>
   distinct ds \<and> set ds = {k \<in> set ks. \<not> marked l k} \<and> (\<forall>k. marked l' k \<longleftrightarrow> marked l k \<or> k \<in> set ks)"
proof (induction ks arbitrary: l ds)
  case Nil
  then show ?case by auto
next
  case (Cons k ks)
  obtain m l1 where lk: "look k l = (m, l1)" by (cases "look k l")
  have m: "m = marked l k" using look_result [of k l] lk by simp
  have keep: "marked l1 k' = marked l k'" for k' using look_keeps [of k l k'] lk by simp
  have pres: "present l1 k" using look_present [of k l] lk by simp
  show ?case
  proof (cases m)
    case True
    with Cons.prems lk have "do_once ks l1 = (ds, l')" by simp
    from Cons.IH [OF this] keep m True show ?thesis by auto
  next
    case False
    obtain ds1 where d: "do_once ks (mark k l1) = (ds1, l')" "ds = k # ds1"
      using Cons.prems lk False by (auto split: prod.splits)
    have mk: "marked (mark k l1) k' \<longleftrightarrow> k' = k \<or> marked l k'" for k'
      using mark_marks [OF pres] mark_other keep by (cases "k' = k") auto
    from Cons.IH [OF d(1)] d(2) mk m False show ?thesis by auto
  qed
qed

end

definition message_done :: "ledger \<Rightarrow> string \<Rightarrow> bool" where
  "message_done l k = (case sent_messages l k of None \<Rightarrow> False | Some row \<Rightarrow> sn_status row = StSent)"

definition action_done :: "ledger \<Rightarrow> string \<times> string \<Rightarrow> bool" where
  "action_done l k =
     (case group_actions l k of
        None \<Rightarrow> False
      | Some row \<Rightarrow> ac_status row = StSent \<or> (ac_status row = StFailed \<and> (case ac_failure row of None \<Rightarrow> False | Some f \<Rightarrow> f \<noteq> [])))"

interpretation sent: done_ledger
  "\<lambda>k l. (case Begin None None k (DeterministicProviderID sha256 k) l of (Inr (b, p), l') \<Rightarrow> (b, l') | (Inl e, l') \<Rightarrow> (False, l'))"
  "\<lambda>k l. snd (MarkSent None k l)" message_done "\<lambda>l k. sent_messages l k \<noteq> None" for sha256
  by unfold_locales
     (auto simp: Begin_def MarkSent_def message_done_def split: option.splits)

interpretation actions: done_ledger
  "\<lambda>(c, g) l. (case BeginAction None c g l of (Inr r, l') \<Rightarrow> (ar_finished r, l') | (Inl e, l') \<Rightarrow> (False, l'))"
  "\<lambda>(c, g) l. snd (MarkActionDone None c g removed l)" action_done "\<lambda>l k. group_actions l k \<noteq> None" for removed
  by unfold_locales
     (auto simp: BeginAction_def MarkActionDone_def finishAction_def action_done_def Let_def split: option.splits if_splits)

end
