(* ===== verification/SendFlow.thy ===== *)
theory SendFlow
  imports Ledger StatusEvents SettingsFlow
begin

text \<open>
  The send command, \<open>SendHandler\<close> of internal/gateway/gateway.go, with the dedupe key, the failure
  report and the chat that is reported. What the handler calls outside the ledger (publishing,
  connecting, building the WhatsApp message, sending it) are fields of a record of functions on
  the outside world \<open>'w\<close>, and the sends are logged with their dedupe key and provider id.
\<close>

record ('w, 'm) send_env =
  en_lib :: walib
  en_sha256 :: "string \<Rightarrow> 8 word list"
  en_db :: "'w \<Rightarrow> goerr option \<times> 'w"
  en_publish :: "StatusEvent \<Rightarrow> 'w \<Rightarrow> goerr option \<times> 'w"
  en_ensure :: "string \<Rightarrow> 'w \<Rightarrow> goerr option \<times> 'w"
  en_client :: "string \<Rightarrow> 'w \<Rightarrow> goerr option \<times> 'w"
  en_build :: "GatewaySendCommand \<Rightarrow> 'w \<Rightarrow> (jid \<times> 'm) result \<times> 'w"
  en_send :: "string \<Rightarrow> jid \<Rightarrow> 'm \<Rightarrow> string \<Rightarrow> 'w \<Rightarrow> (string \<times> int) result \<times> 'w"
  en_known_lid :: "jid \<Rightarrow> 'w \<Rightarrow> (jid \<times> bool) result \<times> 'w"
  en_now :: "'w \<Rightarrow> int"

record 'w send_state =
  ss_ledger :: ledger
  ss_tenants :: "string \<Rightarrow> string option"
  ss_world :: 'w
  ss_sends :: "(string \<times> string) list"
  ss_statuses :: "StatusEvent list"

definition dedupeKeyFor :: "GatewaySendCommand \<Rightarrow> string" where
  "dedupeKeyFor cmd =
     (if sc_kind cmd = ''revoke'' then sc_messageID cmd @ '':revoke:'' @ sc_targetProviderMessageID cmd
      else if sc_kind cmd = ''edit'' then
        sc_messageID cmd @ '':edit:'' @ sc_targetProviderMessageID cmd @ '':'' @ hex8 (fnv32a (sc_text cmd))
      else if sc_kind cmd = ''reaction'' then
        sc_messageID cmd @ '':reaction:'' @ sc_targetProviderMessageID cmd @ '':'' @ hex8 (fnv32a (sc_emoji cmd))
      else sc_messageID cmd)"

definition sendFailureCode :: "goerr \<Rightarrow> string" where
  "sendFailureCode err =
     (if err_is err ENoSession then ''session_missing''
      else if err_is err ESocketDown then ''session_down''
      else ''gateway_send_error'')"

text \<open>Publishing a status logs the event, whether or not the broker takes it.\<close>

definition publish_status :: "('w, 'm) send_env \<Rightarrow> StatusEvent \<Rightarrow> 'w send_state \<Rightarrow> goerr option \<times> 'w send_state" where
  "publish_status env evt s =
     (case en_publish env evt (ss_world s) of (r, w) \<Rightarrow>
        (r, s\<lparr>ss_world := w, ss_statuses := ss_statuses s @ [evt]\<rparr>))"

definition plain_status :: "string \<Rightarrow> string \<Rightarrow> string \<Rightarrow> int \<Rightarrow> StatusError option \<Rightarrow> StatusEvent" where
  "plain_status providerID messageID status now err =
     \<lparr>ev_providerMessageID = providerID, ev_opaqueMessageID = messageID, ev_status = status,
      ev_timestamp = show_int now, ev_error = err, ev_tenantID = [], ev_resolvedRecipient = None\<rparr>"

definition publishSendFailure ::
  "('w, 'm) send_env \<Rightarrow> GatewaySendCommand \<Rightarrow> string \<Rightarrow> goerr \<Rightarrow> 'w send_state \<Rightarrow> goerr option \<times> 'w send_state" where
  "publishSendFailure env cmd providerID cause s =
     (case publish_status env
        (plain_status providerID (sc_messageID cmd) ''failed'' (en_now env (ss_world s))
           (Some \<lparr>se_code = sendFailureCode cause, se_reason = err_msg cause\<rparr>)) s of
        (Some err, s') \<Rightarrow> (Some (Wrap (''gateway: publish failed status '' @ sc_messageID cmd @ '': '') err []), s')
      | (None, s') \<Rightarrow> (None, s'))"

definition reportedChat :: "('w, 'm) send_env \<Rightarrow> jid \<Rightarrow> 'w \<Rightarrow> jid \<times> 'w" where
  "reportedChat env to w =
     (if jid_server to \<noteq> DefaultUserServer then (to, w)
      else
        (case en_known_lid env to w of
           (Inl err, w') \<Rightarrow> (to, w')
         | (Inr (lid, found), w') \<Rightarrow> (if \<not> found then to else lid, w')))"

definition with_db :: "('w, 'm) send_env \<Rightarrow> (goerr option \<Rightarrow> ledger \<Rightarrow> 'a \<times> ledger) \<Rightarrow> 'w send_state \<Rightarrow> 'a \<times> 'w send_state" where
  "with_db env op s =
     (case en_db env (ss_world s) of (fail, w) \<Rightarrow>
        case op fail (ss_ledger s) of (r, l) \<Rightarrow> (r, s\<lparr>ss_world := w, ss_ledger := l\<rparr>))"

definition begin_send :: "('w, 'm) send_env \<Rightarrow> string \<Rightarrow> string \<Rightarrow> 'w send_state \<Rightarrow> (bool \<times> string) result \<times> 'w send_state" where
  "begin_send env key providerID s =
     (case en_db env (ss_world s) of (fail1, w1) \<Rightarrow>
        case en_db env w1 of (fail2, w2) \<Rightarrow>
          case Begin fail1 fail2 key providerID (ss_ledger s) of (r, l) \<Rightarrow>
            (r, s\<lparr>ss_world := (if sent_messages (ss_ledger s) key \<noteq> None \<and> fail1 = None then w2 else w1), ss_ledger := l\<rparr>))"

text \<open>From the moment the message has been sent.\<close>

definition after_send ::
  "('w, 'm) send_env \<Rightarrow> GatewaySendCommand \<Rightarrow> string \<Rightarrow> jid \<Rightarrow> string \<Rightarrow> int \<Rightarrow> 'w send_state \<Rightarrow> goerr option \<times> 'w send_state" where
  "after_send env cmd key to sent_id ts s =
     (case with_db env (\<lambda>fail. MarkSent fail key) s of
        (Some err, s1) \<Rightarrow> (Some (Wrap (''gateway: mark sent '' @ key @ '': '') err []), s1)
      | (None, s1) \<Rightarrow>
          (case reportedChat env to (ss_world s1) of (chat, w) \<Rightarrow>
             (case publish_status env (SentStatus (en_lib env) cmd chat sent_id ts) (s1\<lparr>ss_world := w\<rparr>) of
                (Some err, s2) \<Rightarrow> (Some (Wrap (''gateway: publish sent status '' @ sc_messageID cmd @ '': '') err []), s2)
              | (None, s2) \<Rightarrow> (None, s2))))"

definition do_send ::
  "('w, 'm) send_env \<Rightarrow> GatewaySendCommand \<Rightarrow> string \<Rightarrow> string \<Rightarrow> 'w send_state \<Rightarrow> goerr option \<times> 'w send_state" where
  "do_send env cmd key providerID s =
     (case en_ensure env (sc_channelID cmd) (ss_world s) of
        (Some err, w) \<Rightarrow>
          publishSendFailure env cmd providerID (Wrap (''gateway: ensure connected '' @ sc_channelID cmd @ '': '') err []) (s\<lparr>ss_world := w\<rparr>)
      | (None, w) \<Rightarrow>
          (case en_client env (sc_channelID cmd) w of
             (Some err, w1) \<Rightarrow> (Some (Wrap (''gateway: resolve client '' @ sc_channelID cmd @ '': '') err []), s\<lparr>ss_world := w1\<rparr>)
           | (None, w1) \<Rightarrow>
               (case en_build env cmd w1 of
                  (Inl err, w2) \<Rightarrow>
                    publishSendFailure env cmd providerID (Wrap (''gateway: build outbound '' @ sc_messageID cmd @ '': '') err []) (s\<lparr>ss_world := w2\<rparr>)
                | (Inr (to, msg), w2) \<Rightarrow>
                    (let s2 = s\<lparr>ss_sends := ss_sends s @ [(key, providerID)]\<rparr> in
                     case en_send env (sc_channelID cmd) to msg providerID w2 of
                       (Inl err, w3) \<Rightarrow>
                         publishSendFailure env cmd providerID (Wrap (''gateway: send '' @ sc_messageID cmd @ '': '') err []) (s2\<lparr>ss_world := w3\<rparr>)
                     | (Inr (sent_id, ts), w3) \<Rightarrow> after_send env cmd key to sent_id ts (s2\<lparr>ss_world := w3\<rparr>)))))"

definition SendHandler :: "('w, 'm) send_env \<Rightarrow> GatewaySendCommand \<Rightarrow> 'w send_state \<Rightarrow> goerr option \<times> 'w send_state" where
  "SendHandler env cmd s0 =
     (let s = s0\<lparr>ss_tenants := (ss_tenants s0)(sc_channelID cmd \<mapsto> sc_tenantID cmd)\<rparr>;
          key = dedupeKeyFor cmd;
          providerID = DeterministicProviderID (en_sha256 env) key
      in case begin_send env key providerID s of
           (Inl err, s1) \<Rightarrow> (Some (Wrap (''gateway: dedupe begin '' @ key @ '': '') err []), s1)
         | (Inr (alreadySent, existing), s1) \<Rightarrow>
             if alreadySent then
               (case publish_status env (plain_status existing (sc_messageID cmd) ''sent'' (en_now env (ss_world s1)) None) s1 of
                  (Some err, s2) \<Rightarrow> (Some (Wrap (''gateway: publish sent status (dedup replay) '' @ sc_messageID cmd @ '': '') err []), s2)
                | (None, s2) \<Rightarrow> (None, s2))
             else do_send env cmd key providerID s1)"

fun run_sends :: "('w, 'm) send_env \<Rightarrow> GatewaySendCommand list \<Rightarrow> 'w send_state \<Rightarrow> 'w send_state" where
  "run_sends env [] s = s"
| "run_sends env (cmd # cmds) s = run_sends env cmds (snd (SendHandler env cmd s))"

section \<open>Lemmas\<close>

lemma publish_status_keeps [simp]:
  "ss_ledger (snd (publish_status env evt s)) = ss_ledger s"
  "ss_sends (snd (publish_status env evt s)) = ss_sends s"
  "ss_statuses (snd (publish_status env evt s)) = ss_statuses s @ [evt]"
  by (simp_all add: publish_status_def split: prod.splits)

lemma publishSendFailure_keeps:
  "ss_ledger (snd (publishSendFailure env cmd p cause s)) = ss_ledger s"
  "ss_sends (snd (publishSendFailure env cmd p cause s)) = ss_sends s"
  "\<exists>evt. ss_statuses (snd (publishSendFailure env cmd p cause s)) = ss_statuses s @ [evt] \<and>
     ev_status evt = ''failed'' \<and> ev_providerMessageID evt = p \<and> ev_opaqueMessageID evt = sc_messageID cmd"
proof -
  define evt where "evt = plain_status p (sc_messageID cmd) ''failed'' (en_now env (ss_world s))
      (Some \<lparr>se_code = sendFailureCode cause, se_reason = err_msg cause\<rparr>)"
  obtain r s' where p: "publish_status env evt s = (r, s')" by (cases "publish_status env evt s")
  then have "snd (publishSendFailure env cmd p cause s) = s'"
    by (simp add: publishSendFailure_def evt_def split: option.splits)
  moreover have "ss_ledger s' = ss_ledger s" "ss_sends s' = ss_sends s" "ss_statuses s' = ss_statuses s @ [evt]"
    using publish_status_keeps [of env evt s] p by simp_all
  ultimately show "ss_ledger (snd (publishSendFailure env cmd p cause s)) = ss_ledger s"
    "ss_sends (snd (publishSendFailure env cmd p cause s)) = ss_sends s"
    "\<exists>evt. ss_statuses (snd (publishSendFailure env cmd p cause s)) = ss_statuses s @ [evt] \<and>
     ev_status evt = ''failed'' \<and> ev_providerMessageID evt = p \<and> ev_opaqueMessageID evt = sc_messageID cmd"
    by (simp_all add: evt_def plain_status_def)
qed

text \<open>Rows of the ledger carry the provider id of their key.\<close>

definition ledger_ids :: "(string \<Rightarrow> 8 word list) \<Rightarrow> ledger \<Rightarrow> bool" where
  "ledger_ids sha l \<longleftrightarrow>
     (\<forall>k row. sent_messages l k = Some row \<longrightarrow> sn_provider row = DeterministicProviderID sha k)"

definition sends_ids :: "(string \<Rightarrow> 8 word list) \<Rightarrow> (string \<times> string) list \<Rightarrow> bool" where
  "sends_ids sha xs = list_all (\<lambda>(k, p). p = DeterministicProviderID sha k) xs"

lemma begin_send_cases:
  assumes "begin_send env key providerID s = (r, s1)"
  shows "ss_sends s1 = ss_sends s \<and> ss_statuses s1 = ss_statuses s \<and>
    (\<forall>k. message_done (ss_ledger s1) k = message_done (ss_ledger s) k) \<and>
    (\<forall>b p. r = Inr (b, p) \<longrightarrow> b = message_done (ss_ledger s) key \<and>
       (b \<longrightarrow> (\<exists>row. sent_messages (ss_ledger s) key = Some row \<and> p = sn_provider row))) \<and>
    (\<forall>sha. providerID = DeterministicProviderID sha key \<longrightarrow> ledger_ids sha (ss_ledger s) \<longrightarrow> ledger_ids sha (ss_ledger s1))"
  using assms
  by (auto simp: begin_send_def Begin_def message_done_def ledger_ids_def split: prod.splits option.splits if_splits)

lemma with_db_MarkSent:
  assumes "with_db env (\<lambda>fail. MarkSent fail key) s = (r, s1)"
  shows "ss_sends s1 = ss_sends s \<and> ss_statuses s1 = ss_statuses s \<and>
    (\<forall>k. message_done (ss_ledger s) k \<longrightarrow> message_done (ss_ledger s1) k) \<and>
    (r = None \<longrightarrow> message_done (ss_ledger s1) key) \<and>
    (\<forall>sha. ledger_ids sha (ss_ledger s) \<longrightarrow> ledger_ids sha (ss_ledger s1))"
  using assms
  by (auto simp: with_db_def MarkSent_def message_done_def ledger_ids_def split: prod.splits option.splits if_splits)

lemma after_send_spec:
  assumes "after_send env cmd key to sid ts s = (r, s')"
  shows "ss_sends s' = ss_sends s \<and>
    (\<forall>k. message_done (ss_ledger s) k \<longrightarrow> message_done (ss_ledger s') k) \<and>
    (r = None \<longrightarrow> message_done (ss_ledger s') key) \<and>
    (\<forall>sha. ledger_ids sha (ss_ledger s) \<longrightarrow> ledger_ids sha (ss_ledger s'))"
proof -
  obtain r1 s1 where m: "with_db env (\<lambda>fail. MarkSent fail key) s = (r1, s1)"
    by (cases "with_db env (\<lambda>fail. MarkSent fail key) s")
  note mk = with_db_MarkSent [OF m]
  show ?thesis
  proof (cases r1)
    case (Some e)
    with assms m mk show ?thesis by (auto simp: after_send_def)
  next
    case None
    obtain chat w where c: "reportedChat env to (ss_world s1) = (chat, w)" by (cases "reportedChat env to (ss_world s1)")
    obtain r2 s2 where p: "publish_status env (SentStatus (en_lib env) cmd chat sid ts) (s1\<lparr>ss_world := w\<rparr>) = (r2, s2)"
      by (cases "publish_status env (SentStatus (en_lib env) cmd chat sid ts) (s1\<lparr>ss_world := w\<rparr>)")
    have "ss_ledger s2 = ss_ledger s1" "ss_sends s2 = ss_sends s1"
      using publish_status_keeps [of env "SentStatus (en_lib env) cmd chat sid ts" "s1\<lparr>ss_world := w\<rparr>"] p by simp_all
    moreover have "s' = s2" using assms None m c p by (auto simp: after_send_def split: option.splits)
    ultimately show ?thesis using mk None by auto
  qed
qed

text \<open>What one command does to the log of sends and to the ledger.\<close>

lemma do_send_spec:
  assumes "do_send env cmd key p s = (r, s')"
  shows "(ss_sends s' = ss_sends s \<or> ss_sends s' = ss_sends s @ [(key, p)]) \<and>
    (\<forall>k. message_done (ss_ledger s) k \<longrightarrow> message_done (ss_ledger s') k) \<and>
    (\<forall>sha. ledger_ids sha (ss_ledger s) \<longrightarrow> ledger_ids sha (ss_ledger s'))"
proof -
  have fail: "publishSendFailure env cmd p cause (t :: 'a send_state) = (r', t') \<Longrightarrow>
      ss_ledger t' = ss_ledger t \<and> ss_sends t' = ss_sends t" for cause t r' t'
    using publishSendFailure_keeps(1,2) [of env cmd p cause t] by auto
  show ?thesis
    using assms unfolding do_send_def Let_def
    by (auto split: prod.splits option.splits sum.splits dest!: fail after_send_spec)
qed

lemma SendHandler_spec:
  assumes "SendHandler env cmd s = (r, s')"
  shows "(ss_sends s' = ss_sends s \<or>
      (\<not> message_done (ss_ledger s) (dedupeKeyFor cmd) \<and>
       ss_sends s' = ss_sends s @ [(dedupeKeyFor cmd, DeterministicProviderID (en_sha256 env) (dedupeKeyFor cmd))])) \<and>
    (\<forall>k. message_done (ss_ledger s) k \<longrightarrow> message_done (ss_ledger s') k) \<and>
    (ledger_ids (en_sha256 env) (ss_ledger s) \<longrightarrow> ledger_ids (en_sha256 env) (ss_ledger s'))"
proof -
  define t where "t = s\<lparr>ss_tenants := (ss_tenants s)(sc_channelID cmd \<mapsto> sc_tenantID cmd)\<rparr>"
  define key where "key = dedupeKeyFor cmd"
  define p where "p = DeterministicProviderID (en_sha256 env) key"
  have t: "ss_sends t = ss_sends s" "ss_ledger t = ss_ledger s" "ss_statuses t = ss_statuses s" by (simp_all add: t_def)
  obtain q s1 where b: "begin_send env key p t = (q, s1)" by (cases "begin_send env key p t")
  note bs = begin_send_cases [OF b, unfolded t]
  have ids1: "ledger_ids (en_sha256 env) (ss_ledger s) \<Longrightarrow> ledger_ids (en_sha256 env) (ss_ledger s1)"
    using bs p_def by blast
  show ?thesis
  proof (cases q)
    case (Inl e)
    then have "s' = s1" using assms b by (auto simp: SendHandler_def t_def key_def p_def Let_def)
    with bs ids1 show ?thesis by auto
  next
    case (Inr bp)
    obtain already existing where bp: "bp = (already, existing)" by (cases bp)
    show ?thesis
    proof (cases already)
      case True
      define evt where "evt = plain_status existing (sc_messageID cmd) ''sent'' (en_now env (ss_world s1)) None"
      obtain r2 s2 where p2: "publish_status env evt s1 = (r2, s2)" by (cases "publish_status env evt s1")
      have "ss_ledger s2 = ss_ledger s1" "ss_sends s2 = ss_sends s1"
        using publish_status_keeps [of env evt s1] p2 by simp_all
      moreover have "s' = s2"
        using assms b Inr bp True p2 by (auto simp: SendHandler_def t_def key_def p_def evt_def Let_def split: option.splits)
      ultimately show ?thesis using bs ids1 by auto
    next
      case False
      then have d: "do_send env cmd key p s1 = (r, s')"
        using assms b Inr bp by (auto simp: SendHandler_def t_def key_def p_def Let_def)
      have "\<not> message_done (ss_ledger s) key" using bs Inr bp False by auto
      with do_send_spec [OF d] bs ids1 show ?thesis by (auto simp: key_def p_def)
    qed
  qed
qed

lemma run_sends_spec:
  "\<exists>new. ss_sends (run_sends env cmds s) = ss_sends s @ new \<and>
     (\<forall>(k, p)\<in>set new. \<not> message_done (ss_ledger s) k \<and> p = DeterministicProviderID (en_sha256 env) k) \<and>
     (\<forall>k. message_done (ss_ledger s) k \<longrightarrow> message_done (ss_ledger (run_sends env cmds s)) k) \<and>
     (ledger_ids (en_sha256 env) (ss_ledger s) \<longrightarrow> ledger_ids (en_sha256 env) (ss_ledger (run_sends env cmds s)))"
proof (induction cmds arbitrary: s)
  case Nil
  then show ?case by simp
next
  case (Cons cmd cmds)
  obtain r s1 where h: "SendHandler env cmd s = (r, s1)" by (cases "SendHandler env cmd s")
  note sp = SendHandler_spec [OF h]
  from Cons [of s1] obtain new where new: "ss_sends (run_sends env cmds s1) = ss_sends s1 @ new"
      "\<forall>(k, p)\<in>set new. \<not> message_done (ss_ledger s1) k \<and> p = DeterministicProviderID (en_sha256 env) k"
      "\<forall>k. message_done (ss_ledger s1) k \<longrightarrow> message_done (ss_ledger (run_sends env cmds s1)) k"
      "ledger_ids (en_sha256 env) (ss_ledger s1) \<longrightarrow> ledger_ids (en_sha256 env) (ss_ledger (run_sends env cmds s1))"
    by blast
  from sp obtain one where one: "ss_sends s1 = ss_sends s @ one"
      "\<forall>(k, p)\<in>set one. \<not> message_done (ss_ledger s) k \<and> p = DeterministicProviderID (en_sha256 env) k" by auto
  have "\<forall>(k, p)\<in>set (one @ new). \<not> message_done (ss_ledger s) k \<and> p = DeterministicProviderID (en_sha256 env) k"
    using one(2) new(2) sp by fastforce
  with new(1,3,4) one(1) sp h show ?case by (intro exI [of _ "one @ new"]) auto
qed

section \<open>Properties\<close>

text \<open>
  C5. A message that the ledger holds as sent is never sent again: whatever commands follow, with
  whatever failures of the database, the broker and WhatsApp, no further send carries its dedupe
  key. And every send with the same dedupe key carries the same provider message id, so that a
  repetition after a crash between sending and marking is the same message to WhatsApp.
\<close>

theorem sent_never_resent:
  "\<exists>new. ss_sends (run_sends env cmds s) = ss_sends s @ new \<and>
     (\<forall>k. message_done (ss_ledger s) k \<longrightarrow>
        k \<notin> fst ` set new \<and> message_done (ss_ledger (run_sends env cmds s)) k) \<and>
     (\<forall>k p. (k, p) \<in> set new \<longrightarrow> p = DeterministicProviderID (en_sha256 env) k)"
proof -
  from run_sends_spec [of env cmds s] obtain new where
    "ss_sends (run_sends env cmds s) = ss_sends s @ new"
    "\<forall>(k, p)\<in>set new. \<not> message_done (ss_ledger s) k \<and> p = DeterministicProviderID (en_sha256 env) k"
    "\<forall>k. message_done (ss_ledger s) k \<longrightarrow> message_done (ss_ledger (run_sends env cmds s)) k" by blast
  then show ?thesis by (intro exI [of _ new]) (auto simp: image_iff)
qed

definition demo_send :: GatewaySendCommand where
  "demo_send = \<lparr>sc_tenantID = ''t'', sc_channelID = ''c'', sc_messageID = ''m'', sc_to = ''x'', sc_type = ''text'', sc_kind = [],
     sc_targetProviderMessageID = [], sc_targetFromMe = False, sc_targetParticipantJID = [], sc_emoji = [],
     sc_forwarded = False, sc_text = ''hi'', sc_media = None, sc_location = None, sc_contacts = [], sc_replyTo = None,
     sc_mentions = [], sc_interactive = None\<rparr>"

definition demo_env :: "(unit, unit) send_env" where
  "demo_env = \<lparr>en_lib = \<lparr>parse_jid = (\<lambda>s. Inl (Err EText [])), jid_string = jid_user, to_non_ad = id\<rparr>,
     en_sha256 = (\<lambda>s. replicate 32 0), en_db = (\<lambda>w. (None, w)), en_publish = (\<lambda>e w. (None, w)), en_ensure = (\<lambda>c w. (None, w)),
     en_client = (\<lambda>c w. (None, w)), en_build = (\<lambda>c w. (Inr (empty_jid, ()), w)),
     en_send = (\<lambda>c t m p w. (Inr (p, 0), w)), en_known_lid = (\<lambda>j w. (Inr (j, False), w)), en_now = (\<lambda>w. 0)\<rparr>"

definition demo_sent :: "unit send_state" where
  "demo_sent = \<lparr>ss_ledger = \<lparr>sent_messages = [''m'' \<mapsto> \<lparr>sn_provider = ''p'', sn_status = StSent\<rparr>], group_actions = Map.empty\<rparr>,
     ss_tenants = Map.empty, ss_world = (), ss_sends = [], ss_statuses = []\<rparr>"

theorem sent_never_resent_witness:
  "''m'' \<notin> fst ` set (ss_sends (run_sends demo_env [demo_send, demo_send] demo_sent))"
proof -
  have "message_done (ss_ledger demo_sent) ''m''" by (simp add: message_done_def demo_sent_def)
  moreover have "ss_sends demo_sent = []" by (simp add: demo_sent_def)
  ultimately show ?thesis using sent_never_resent [of demo_env "[demo_send, demo_send]" demo_sent] by auto
qed

text \<open>
  C21. A command whose message is already sent answers with the status sent and the provider id of
  the first time, and nothing else; a command that was sent and reported without an error is in
  the ledger from then on.
\<close>

theorem SendHandler_replay:
  assumes "message_done (ss_ledger s) (dedupeKeyFor cmd)" and "ledger_ids (en_sha256 env) (ss_ledger s)"
    and "SendHandler env cmd s = (r, s')"
  shows "ss_sends s' = ss_sends s \<and>
    (ss_statuses s' = ss_statuses s \<and> r \<noteq> None \<or>
     (\<exists>evt. ss_statuses s' = ss_statuses s @ [evt] \<and> ev_status evt = ''sent'' \<and> ev_opaqueMessageID evt = sc_messageID cmd \<and>
        ev_providerMessageID evt = DeterministicProviderID (en_sha256 env) (dedupeKeyFor cmd)))"
proof -
  define t where "t = s\<lparr>ss_tenants := (ss_tenants s)(sc_channelID cmd \<mapsto> sc_tenantID cmd)\<rparr>"
  define key where "key = dedupeKeyFor cmd"
  define p where "p = DeterministicProviderID (en_sha256 env) key"
  have t: "ss_sends t = ss_sends s" "ss_ledger t = ss_ledger s" "ss_statuses t = ss_statuses s" by (simp_all add: t_def)
  obtain q s1 where b: "begin_send env key p t = (q, s1)" by (cases "begin_send env key p t")
  note bs = begin_send_cases [OF b, unfolded t]
  show ?thesis
  proof (cases q)
    case (Inl e)
    then have "s' = s1" "r \<noteq> None" using assms(3) b by (auto simp: SendHandler_def t_def key_def p_def Let_def)
    with bs show ?thesis by simp
  next
    case (Inr bp)
    obtain already existing where bp: "bp = (already, existing)" by (cases bp)
    have a: already using bs Inr bp assms(1) by (simp add: key_def)
    then obtain row where "sent_messages (ss_ledger s) key = Some row" "existing = sn_provider row"
      using bs Inr bp by blast
    then have ex: "existing = p" using assms(2) by (auto simp: ledger_ids_def p_def)
    define evt where "evt = plain_status existing (sc_messageID cmd) ''sent'' (en_now env (ss_world s1)) None"
    obtain r2 s2 where p2: "publish_status env evt s1 = (r2, s2)" by (cases "publish_status env evt s1")
    have "ss_statuses s2 = ss_statuses s1 @ [evt]" "ss_sends s2 = ss_sends s1"
      using publish_status_keeps [of env evt s1] p2 by simp_all
    moreover have "s' = s2"
      using assms(3) b Inr bp a p2 by (auto simp: SendHandler_def t_def key_def p_def evt_def Let_def split: option.splits)
    ultimately show ?thesis using bs ex by (auto simp: evt_def plain_status_def p_def key_def)
  qed
qed

theorem SendHandler_replay_witness:
  "ss_sends (snd (SendHandler demo_env demo_send (demo_sent\<lparr>ss_ledger := \<lparr>sent_messages =
      [''m'' \<mapsto> \<lparr>sn_provider = DeterministicProviderID (\<lambda>s. replicate 32 0) ''m'', sn_status = StSent\<rparr>],
      group_actions = Map.empty\<rparr>\<rparr>))) = []"
proof -
  let ?s = "demo_sent\<lparr>ss_ledger := \<lparr>sent_messages =
      [''m'' \<mapsto> \<lparr>sn_provider = DeterministicProviderID (\<lambda>s. replicate 32 0) ''m'', sn_status = StSent\<rparr>],
      group_actions = Map.empty\<rparr>\<rparr>"
  obtain r s' where h: "SendHandler demo_env demo_send ?s = (r, s')" by (cases "SendHandler demo_env demo_send ?s")
  have "message_done (ss_ledger ?s) (dedupeKeyFor demo_send)"
    by (simp add: message_done_def dedupeKeyFor_def demo_send_def)
  moreover have "ledger_ids (en_sha256 demo_env) (ss_ledger ?s)"
    by (simp add: ledger_ids_def demo_env_def)
  ultimately show ?thesis using SendHandler_replay [OF _ _ h] h by (simp add: demo_sent_def)
qed

end
