(* ===== verification/GroupActions.thy ===== *)
theory GroupActions
  imports GroupService Ledger Registry "HOL-Library.Sublist"
begin

text \<open>
  The group commands of internal/gateway/groups.go: the handler of a command (one action on many
  groups), the pacer between two actions of a channel, the retry policy when WhatsApp is
  unavailable, and the request/reply operations. Observations of the outside (shutdown, clock,
  jitter, database answers, publications) are functions on the world \<open>'w\<close>; every action that is
  tried on WhatsApp and every event that is published is logged.
\<close>

section \<open>Environment and state\<close>

record 'w ga_env =
  gx_lib :: walib
  gx_shutting :: "'w \<Rightarrow> bool \<times> 'w"
  gx_db :: "'w \<Rightarrow> goerr option \<times> 'w"
  gx_client :: "string \<Rightarrow> string \<Rightarrow> 'w \<Rightarrow> 'w group_client result \<times> 'w"
  gx_photo :: "string \<Rightarrow> 'w \<Rightarrow> string result \<times> 'w"
  gx_clock :: "'w \<Rightarrow> int \<times> 'w"
  gx_jitter :: "'w \<Rightarrow> int \<times> 'w"
  gx_sleep :: "int \<Rightarrow> 'w \<Rightarrow> bool \<times> 'w"
  gx_publish :: "GroupActionEvent \<Rightarrow> 'w \<Rightarrow> goerr option \<times> 'w"

record 'w ga_state =
  gt_ledger :: ledger
  gt_world :: 'w
  gt_pacer :: "string \<Rightarrow> int option"
  gt_applied :: "(string \<times> string) list"
  gt_events :: "GroupActionEvent list"

definition groupGapMin :: int where "groupGapMin = 300 * 1000000"
definition groupGapJitter :: int where "groupGapJitter = 500 * 1000000"
definition groupHaltLimit :: int where "groupHaltLimit = 3"

definition errShuttingDown :: goerr where
  "errShuttingDown = Wrap ''gateway: shutting down in the middle of a group command: ''
     (Err ERequeue ''amqp: return the delivery to the queue once this consumer stops'') []"

section \<open>Clients and group addresses\<close>

text \<open>
  \<open>groupClient\<close>: \<open>ensureChannelConnected\<close>, \<open>setTenant\<close> and \<open>waClientFor\<close> are arguments (theory GroupRpc
  gives it those of the gateway).
\<close>

definition groupClient ::
  "bool \<Rightarrow> (string \<Rightarrow> 'w \<Rightarrow> goerr option \<times> 'w) \<Rightarrow> (string \<Rightarrow> string \<Rightarrow> 'w \<Rightarrow> 'w) \<Rightarrow>
   (string \<Rightarrow> 'w \<Rightarrow> 'c result \<times> 'w) \<Rightarrow> string \<Rightarrow> string \<Rightarrow> 'w \<Rightarrow> 'c result \<times> 'w" where
  "groupClient stopping ensure set_tenant client tenantID channelID w =
     (if channelID = [] then (Inl (RpcInvalidRequest ''channelId is required''), w)
      else if stopping then (Inl (RpcUnavailable ''gateway is shutting down, the channel is not reopened here''), w)
      else
        (case ensure channelID w of
           (Some err, w1) \<Rightarrow>
             (Inl (if err_is err ENoSession then RpcNotFound (err_msg err) else RpcUnavailable (err_msg err)), w1)
         | (None, w1) \<Rightarrow>
             (case client channelID (set_tenant channelID tenantID w1) of
                (Inl err, w2) \<Rightarrow> (Inl (RpcUnavailable (err_msg err)), w2)
              | (Inr c, w2) \<Rightarrow> (Inr c, w2))))"

definition parseGroupJID :: "walib \<Rightarrow> string \<Rightarrow> jid result" where
  "parseGroupJID lib raw =
     (case parse_jid lib raw of
        Inl err \<Rightarrow> Inl (RpcInvalidRequest (''groupJid '' @ go_quote raw @ '' is not a group jid''))
      | Inr j \<Rightarrow>
          if jid_server j \<noteq> GroupServer then Inl (RpcInvalidRequest (''groupJid '' @ go_quote raw @ '' is not a group jid''))
          else Inr j)"

section \<open>The pacer\<close>

definition pacer_wait :: "'w ga_env \<Rightarrow> string \<Rightarrow> 'w ga_state \<Rightarrow> goerr option \<times> 'w ga_state" where
  "pacer_wait env channelID s =
     (case gt_pacer s channelID of
        None \<Rightarrow> (None, s)
      | Some l \<Rightarrow>
          (case gx_jitter env (gt_world s) of (jitter, w1) \<Rightarrow>
             case gx_clock env w1 of (now, w2) \<Rightarrow>
               (let remaining = l + groupGapMin + jitter - now in
                if remaining \<le> 0 then (None, s\<lparr>gt_world := w2\<rparr>)
                else
                  (case gx_sleep env remaining w2 of (fired, w3) \<Rightarrow>
                     (if fired then None else Some errShuttingDown, s\<lparr>gt_world := w3\<rparr>)))))"

definition pacer_touch :: "'w ga_env \<Rightarrow> string \<Rightarrow> 'w ga_state \<Rightarrow> 'w ga_state" where
  "pacer_touch env channelID s =
     (case gx_clock env (gt_world s) of (now, w) \<Rightarrow>
        s\<lparr>gt_world := w,
          gt_pacer := (\<lambda>k. if k = channelID then Some now
             else case gt_pacer s k of
                    None \<Rightarrow> None
                  | Some l \<Rightarrow> if now - l > groupGapMin + groupGapJitter then None else Some l)\<rparr>)"

section \<open>Running a command\<close>

record 'w group_run =
  gr_cmd :: GatewayGroupCommand
  gr_client :: "'w group_client result"
  gr_setupErr :: "goerr option"
  gr_photo :: string

definition prepareGroupCommand :: "'w ga_env \<Rightarrow> GatewayGroupCommand \<Rightarrow> 'w ga_state \<Rightarrow> 'w group_run \<times> 'w ga_state" where
  "prepareGroupCommand env cmd s =
     (case gx_client env (gc_tenantID cmd) (gc_channelID cmd) (gt_world s) of
        (Inl err, w) \<Rightarrow>
          (\<lparr>gr_cmd = cmd, gr_client = Inl err, gr_setupErr = Some err, gr_photo = []\<rparr>, s\<lparr>gt_world := w\<rparr>)
      | (Inr c, w) \<Rightarrow>
          if gc_action cmd \<noteq> ''set_photo'' then
            (\<lparr>gr_cmd = cmd, gr_client = Inr c, gr_setupErr = None, gr_photo = []\<rparr>, s\<lparr>gt_world := w\<rparr>)
          else
            (case gx_photo env (ga_photoURL (gc_params cmd)) w of
               (Inl err, w') \<Rightarrow>
                 (\<lparr>gr_cmd = cmd, gr_client = Inr c, gr_setupErr = Some err, gr_photo = []\<rparr>, s\<lparr>gt_world := w'\<rparr>)
             | (Inr photo, w') \<Rightarrow>
                 (\<lparr>gr_cmd = cmd, gr_client = Inr c, gr_setupErr = None, gr_photo = photo\<rparr>, s\<lparr>gt_world := w'\<rparr>)))"

definition ga_db :: "'w ga_env \<Rightarrow> (goerr option \<Rightarrow> ledger \<Rightarrow> 'a \<times> ledger) \<Rightarrow> 'w ga_state \<Rightarrow> 'a \<times> 'w ga_state" where
  "ga_db env op s =
     (case gx_db env (gt_world s) of (fail, w) \<Rightarrow>
        case op fail (gt_ledger s) of (r, l) \<Rightarrow> (r, s\<lparr>gt_world := w, gt_ledger := l\<rparr>))"

text \<open>The closure \<open>fail\<close>: the failure of one group is the result of that group.\<close>

definition ga_fail ::
  "'w ga_env \<Rightarrow> 'w group_run \<Rightarrow> string \<Rightarrow> GroupActionEvent \<Rightarrow> goerr \<Rightarrow> 'w ga_state \<Rightarrow> GroupActionEvent result \<times> 'w ga_state" where
  "ga_fail env run raw result err s =
     (let result' = result\<lparr>ge_ok := False, ge_error := err_msg err\<rparr>;
          s' = snd (ga_db env (\<lambda>f. MarkActionFailed f (gc_commandID (gr_cmd run)) raw (ge_error result')) s)
      in (Inr result', s'))"

definition halt_error :: "'w group_run \<Rightarrow> string \<Rightarrow> int \<Rightarrow> goerr \<Rightarrow> goerr" where
  "halt_error run raw halts err =
     Wrap (''gateway: whatsapp unavailable at '' @ gc_commandID (gr_cmd run) @ ''/'' @ raw @ '' (halt '' @ show_int halts @
       '' of '' @ show_int groupHaltLimit @ ''), halting the command for a later replay: '') err []"

definition haltOrGiveUp ::
  "'w ga_env \<Rightarrow> 'w group_run \<Rightarrow> string \<Rightarrow> GroupActionEvent \<Rightarrow> goerr \<Rightarrow> 'w ga_state \<Rightarrow> GroupActionEvent result \<times> 'w ga_state" where
  "haltOrGiveUp env run raw result err s =
     (case ga_db env (\<lambda>f. RecordActionHalt f (gc_commandID (gr_cmd run)) raw) s of
        (Inl haltErr, s1) \<Rightarrow> (Inl (halt_error run raw 0 err), s1)
      | (Inr halts, s1) \<Rightarrow>
          if halts < groupHaltLimit then (Inl (halt_error run raw halts err), s1)
          else ga_fail env run raw result err s1)"

text \<open>After the action was tried: \<open>tried\<close> is what \<open>groups.Apply\<close> returned.\<close>

definition settle_action ::
  "'w ga_env \<Rightarrow> 'w group_run \<Rightarrow> string \<Rightarrow> GroupActionEvent \<Rightarrow> action_result result \<Rightarrow> 'w ga_state \<Rightarrow> GroupActionEvent result \<times> 'w ga_state" where
  "settle_action env run raw result tried s =
     (case tried of
        Inl err \<Rightarrow>
          if IsUnavailable (Some err) then
            (case gx_shutting env (gt_world s) of (down, w) \<Rightarrow>
               if down then (Inl errShuttingDown, s\<lparr>gt_world := w\<rparr>)
               else haltOrGiveUp env run raw result err (s\<lparr>gt_world := w\<rparr>))
          else ga_fail env run raw result err s
      | Inr removed_count \<Rightarrow>
          (Inr (result\<lparr>ge_removed := removed_count\<rparr>),
           snd (ga_db env (\<lambda>f. MarkActionDone f (gc_commandID (gr_cmd run)) raw removed_count) s)))"

definition applyGroupAction ::
  "'w ga_env \<Rightarrow> 'w group_run \<Rightarrow> string \<Rightarrow> GroupActionEvent \<Rightarrow> 'w ga_state \<Rightarrow> GroupActionEvent result \<times> 'w ga_state" where
  "applyGroupAction env run raw result s =
     (case gr_setupErr run of
        Some err \<Rightarrow> ga_fail env run raw result err s
      | None \<Rightarrow>
          (case parseGroupJID (gx_lib env) raw of
             Inl err \<Rightarrow> ga_fail env run raw result err s
           | Inr j \<Rightarrow>
               (case pacer_wait env (gc_channelID (gr_cmd run)) s of
                  (Some err, s1) \<Rightarrow> (Inl err, s1)
                | (None, s1) \<Rightarrow>
                    (case gr_client run of
                       Inl err \<Rightarrow> (Inl err, s1)
                     | Inr c \<Rightarrow>
                         (case Apply c (gc_action (gr_cmd run)) j (gc_params (gr_cmd run)) (gr_photo run) (gt_world s1) of
                            (tried, w) \<Rightarrow>
                              settle_action env run raw result tried
                                (pacer_touch env (gc_channelID (gr_cmd run))
                                   (s1\<lparr>gt_world := w, gt_applied := gt_applied s1 @ [(gc_commandID (gr_cmd run), raw)]\<rparr>)))))))"

definition publish_action :: "'w ga_env \<Rightarrow> GroupActionEvent \<Rightarrow> 'w ga_state \<Rightarrow> goerr option \<times> 'w ga_state" where
  "publish_action env evt s =
     (case gx_publish env evt (gt_world s) of (r, w) \<Rightarrow> (r, s\<lparr>gt_world := w, gt_events := gt_events s @ [evt]\<rparr>))"

definition first_result :: "GatewayGroupCommand \<Rightarrow> string \<Rightarrow> GroupActionEvent" where
  "first_result cmd raw =
     \<lparr>ge_tenantID = gc_tenantID cmd, ge_channelID = gc_channelID cmd, ge_commandID = gc_commandID cmd,
      ge_groupJID = raw, ge_action = gc_action cmd, ge_ok = True, ge_error = [], ge_removed = None\<rparr>"

definition one_group :: "'w ga_env \<Rightarrow> 'w group_run \<Rightarrow> string \<Rightarrow> 'w ga_state \<Rightarrow> GroupActionEvent result \<times> 'w ga_state" where
  "one_group env run raw s =
     (let cmd = gr_cmd run; result = first_result cmd raw in
      case ga_db env (\<lambda>f. BeginAction f (gc_commandID cmd) raw) s of
        (Inl err, s1) \<Rightarrow> (Inl (Wrap (''gateway: begin action '' @ gc_commandID cmd @ ''/'' @ raw @ '': '') err []), s1)
      | (Inr rcd, s1) \<Rightarrow>
          if ar_finished rcd then
            (Inr (result\<lparr>ge_removed := ar_removed rcd, ge_ok := (ar_failure rcd = []), ge_error := ar_failure rcd\<rparr>), s1)
          else applyGroupAction env run raw result s1)"

fun group_loop :: "'w ga_env \<Rightarrow> 'w group_run \<Rightarrow> string list \<Rightarrow> 'w ga_state \<Rightarrow> goerr option \<times> 'w ga_state" where
  "group_loop env run [] s = (None, s)"
| "group_loop env run (raw # raws) s =
     (case gx_shutting env (gt_world s) of (down, w) \<Rightarrow>
        if down then (Some errShuttingDown, s\<lparr>gt_world := w\<rparr>)
        else
          (case one_group env run raw (s\<lparr>gt_world := w\<rparr>) of
             (Inl err, s1) \<Rightarrow> (Some err, s1)
           | (Inr result, s1) \<Rightarrow>
               (case publish_action env result s1 of
                  (Some err, s2) \<Rightarrow>
                    (Some (Wrap (''gateway: publish group action '' @ gc_commandID (gr_cmd run) @ ''/'' @ raw @ '': '') err []), s2)
                | (None, s2) \<Rightarrow> group_loop env run raws s2)))"

definition GroupHandler :: "'w ga_env \<Rightarrow> GatewayGroupCommand \<Rightarrow> 'w ga_state \<Rightarrow> goerr option \<times> 'w ga_state" where
  "GroupHandler env cmd s =
     (case gx_shutting env (gt_world s) of (down, w) \<Rightarrow>
        if down then (Some errShuttingDown, s\<lparr>gt_world := w\<rparr>)
        else
          (case prepareGroupCommand env cmd (s\<lparr>gt_world := w\<rparr>) of (run, s1) \<Rightarrow>
             group_loop env run (gc_groupJIDs cmd) s1))"

fun run_group_commands :: "'w ga_env \<Rightarrow> GatewayGroupCommand list \<Rightarrow> 'w ga_state \<Rightarrow> 'w ga_state" where
  "run_group_commands env [] s = s"
| "run_group_commands env (cmd # cmds) s = run_group_commands env cmds (snd (GroupHandler env cmd s))"

section \<open>Lemmas\<close>

text \<open>What a step may change, whatever it returns: applied actions were not done before, and what is done stays done.\<close>

definition careful :: "string \<Rightarrow> string \<Rightarrow> 'w ga_state \<Rightarrow> 'w ga_state \<Rightarrow> bool" where
  "careful cid raw s s' \<longleftrightarrow>
     (gt_applied s' = gt_applied s \<or> gt_applied s' = gt_applied s @ [(cid, raw)]) \<and>
     (\<forall>k. k \<noteq> (cid, raw) \<longrightarrow> group_actions (gt_ledger s') k = group_actions (gt_ledger s) k) \<and>
     gt_events s' = gt_events s"

lemma ga_db_ledger:
  assumes "\<And>f l. \<forall>k. k \<noteq> key \<longrightarrow> group_actions (snd (op f l)) k = group_actions l k"
  shows "gt_applied (snd (ga_db env op s)) = gt_applied s \<and> gt_events (snd (ga_db env op s)) = gt_events s \<and>
    (\<forall>k. k \<noteq> key \<longrightarrow> group_actions (gt_ledger (snd (ga_db env op s))) k = group_actions (gt_ledger s) k)"
proof -
  obtain f w where d: "gx_db env (gt_world s) = (f, w)" by (cases "gx_db env (gt_world s)")
  obtain r l where o: "op f (gt_ledger s) = (r, l)" by (cases "op f (gt_ledger s)")
  have "group_actions l k = group_actions (gt_ledger s) k" if "k \<noteq> key" for k
    using assms [of f "gt_ledger s", rule_format, OF that] o by simp
  then show ?thesis by (simp add: ga_db_def d o)
qed

lemma ledger_ops_local:
  "\<forall>k. k \<noteq> (c, g) \<longrightarrow> group_actions (snd (BeginAction f c g l)) k = group_actions l k"
  "\<forall>k. k \<noteq> (c, g) \<longrightarrow> group_actions (snd (MarkActionDone f c g r l)) k = group_actions l k"
  "\<forall>k. k \<noteq> (c, g) \<longrightarrow> group_actions (snd (MarkActionFailed f c g t l)) k = group_actions l k"
  "\<forall>k. k \<noteq> (c, g) \<longrightarrow> group_actions (snd (RecordActionHalt f c g l)) k = group_actions l k"
  by (auto simp: BeginAction_def MarkActionDone_def MarkActionFailed_def finishAction_def RecordActionHalt_def Let_def
      split: option.splits)

lemmas ga_db_local = ga_db_ledger [OF ledger_ops_local(1)] ga_db_ledger [OF ledger_ops_local(2)]
  ga_db_ledger [OF ledger_ops_local(3)] ga_db_ledger [OF ledger_ops_local(4)]

lemma careful_refl: "careful c g s s"
  by (simp add: careful_def)

lemma careful_trans0:
  "careful c g s s1 \<Longrightarrow> gt_applied s1 = gt_applied s \<Longrightarrow> careful c g s1 s' \<Longrightarrow> careful c g s s'"
  by (auto simp: careful_def)

lemma careful_trans1:
  "careful c g s s1 \<Longrightarrow> gt_applied s' = gt_applied s1 \<Longrightarrow> careful c g s1 s' \<Longrightarrow> careful c g s s'"
  by (auto simp: careful_def)

text \<open>Steps that only touch the ledger row of their group and the world.\<close>

definition quiet_step :: "string \<Rightarrow> string \<Rightarrow> 'w ga_state \<Rightarrow> 'w ga_state \<Rightarrow> bool" where
  "quiet_step cid raw s s' \<longleftrightarrow> careful cid raw s s' \<and> gt_applied s' = gt_applied s"

lemma quiet_step_refl [simp]: "quiet_step c g s s"
  by (simp add: quiet_step_def careful_refl)

lemma quiet_step_world [simp]: "quiet_step c g s (s'\<lparr>gt_world := w\<rparr>) = quiet_step c g s s'"
    "quiet_step c g (s\<lparr>gt_world := w\<rparr>) s' = quiet_step c g s s'"
  by (simp_all add: quiet_step_def careful_def)

lemma quiet_step_trans: "quiet_step c g s s1 \<Longrightarrow> quiet_step c g s1 s' \<Longrightarrow> quiet_step c g s s'"
  by (auto simp: quiet_step_def careful_def)

lemma quiet_db:
  "quiet_step c g s (snd (ga_db env (\<lambda>f. BeginAction f c g) s))"
  "quiet_step c g s (snd (ga_db env (\<lambda>f. MarkActionDone f c g r) s))"
  "quiet_step c g s (snd (ga_db env (\<lambda>f. MarkActionFailed f c g t) s))"
  "quiet_step c g s (snd (ga_db env (\<lambda>f. RecordActionHalt f c g) s))"
  unfolding quiet_step_def careful_def by (simp_all add: ga_db_local)

lemma quiet_pacer_wait: "quiet_step c g s (snd (pacer_wait env ch s))"
  by (auto simp: pacer_wait_def Let_def split: option.splits prod.splits)

lemma quiet_pacer_touch: "quiet_step c g s (pacer_touch env ch s)"
  by (auto simp: pacer_touch_def quiet_step_def careful_def split: prod.splits)

lemma quiet_ga_fail: "quiet_step (gc_commandID (gr_cmd run)) raw s (snd (ga_fail env run raw result err s))"
  by (simp add: ga_fail_def Let_def quiet_db)

lemma quiet_haltOrGiveUp: "quiet_step (gc_commandID (gr_cmd run)) raw s (snd (haltOrGiveUp env run raw result err s))"
proof -
  obtain r s1 where d: "ga_db env (\<lambda>f. RecordActionHalt f (gc_commandID (gr_cmd run)) raw) s = (r, s1)"
    by (cases "ga_db env (\<lambda>f. RecordActionHalt f (gc_commandID (gr_cmd run)) raw) s")
  have q: "quiet_step (gc_commandID (gr_cmd run)) raw s s1"
    using quiet_db(4) [of "gc_commandID (gr_cmd run)" raw s env] d by simp
  show ?thesis
    using q quiet_step_trans [OF q quiet_ga_fail [of run raw s1 env result err]]
    by (simp add: haltOrGiveUp_def d split: sum.split)
qed

lemma quiet_settle_action:
  "quiet_step (gc_commandID (gr_cmd run)) raw s (snd (settle_action env run raw result tried s))"
proof (cases tried)
  case (Inr n)
  then show ?thesis by (simp add: settle_action_def quiet_db)
next
  case (Inl err)
  obtain down w where "gx_shutting env (gt_world s) = (down, w)" by (cases "gx_shutting env (gt_world s)")
  with Inl quiet_haltOrGiveUp [of run raw "s\<lparr>gt_world := w\<rparr>" env result err] show ?thesis
    by (simp add: settle_action_def quiet_ga_fail)
qed

lemma careful_apply:
  "careful (gc_commandID (gr_cmd run)) raw s (snd (applyGroupAction env run raw result s))"
proof -
  let ?c = "gc_commandID (gr_cmd run)"
  have fail: "careful ?c raw s (snd (ga_fail env run raw result err s))" for err
    using quiet_ga_fail [of run raw s env result err] by (simp add: quiet_step_def)
  show ?thesis
  proof (cases "gr_setupErr run")
    case (Some err)
    then show ?thesis by (simp add: applyGroupAction_def fail)
  next
    case None
    show ?thesis
    proof (cases "parseGroupJID (gx_lib env) raw")
      case (Inl err)
      with None show ?thesis by (simp add: applyGroupAction_def fail)
    next
      case (Inr j)
      obtain pr s1 where p: "pacer_wait env (gc_channelID (gr_cmd run)) s = (pr, s1)"
        by (cases "pacer_wait env (gc_channelID (gr_cmd run)) s")
      have q1: "quiet_step ?c raw s s1" using quiet_pacer_wait [of ?c raw s env "gc_channelID (gr_cmd run)"] p by simp
      show ?thesis
      proof (cases "pr = None \<and> (\<exists>cl. gr_client run = Inr cl)")
        case False
        then show ?thesis
          using None Inr p q1 by (cases pr; cases "gr_client run") (auto simp: applyGroupAction_def quiet_step_def)
      next
        case True
        then obtain cl where cl: "gr_client run = Inr cl" and pr: "pr = None" by blast
        obtain ap w where a: "Apply cl (gc_action (gr_cmd run)) j (gc_params (gr_cmd run)) (gr_photo run) (gt_world s1) = (ap, w)"
          by (cases "Apply cl (gc_action (gr_cmd run)) j (gc_params (gr_cmd run)) (gr_photo run) (gt_world s1)")
        define s2 where "s2 = s1\<lparr>gt_world := w, gt_applied := gt_applied s1 @ [(?c, raw)]\<rparr>"
        define s3 where "s3 = pacer_touch env (gc_channelID (gr_cmd run)) s2"
        have eq: "applyGroupAction env run raw result s = settle_action env run raw result ap s3"
          using None Inr p pr cl a by (simp add: applyGroupAction_def s2_def s3_def)
        have q3: "quiet_step ?c raw s2 (snd (settle_action env run raw result ap s3))"
          using quiet_step_trans [OF quiet_pacer_touch quiet_settle_action] by (simp add: s3_def)
        show ?thesis
          using q1 q3 by (auto simp: eq quiet_step_def careful_def s2_def)
      qed
    qed
  qed
qed

lemma BeginAction_result:
  "BeginAction f c g l = (Inr rcd, l') \<Longrightarrow> ar_finished rcd = action_done l (c, g) \<and>
     (\<forall>k. action_done l k \<longrightarrow> group_actions l' k = group_actions l k)"
  by (auto simp: BeginAction_def action_done_def Let_def split: option.splits if_splits)

lemma ga_db_Begin:
  assumes "ga_db env (\<lambda>f. BeginAction f c g) s = (Inr rcd, s1)"
  shows "ar_finished rcd = action_done (gt_ledger s) (c, g)"
    "action_done (gt_ledger s) k \<Longrightarrow> group_actions (gt_ledger s1) k = group_actions (gt_ledger s) k"
proof -
  from assms obtain f where "BeginAction f c g (gt_ledger s) = (Inr rcd, gt_ledger s1)"
    by (auto simp: ga_db_def split: prod.splits)
  from BeginAction_result [OF this]
  show "ar_finished rcd = action_done (gt_ledger s) (c, g)"
    "action_done (gt_ledger s) k \<Longrightarrow> group_actions (gt_ledger s1) k = group_actions (gt_ledger s) k"
    by blast+
qed

text \<open>One group: nothing done is applied again, and what is done stays as it is.\<close>

definition safe_step :: "'w ga_state \<Rightarrow> 'w ga_state \<Rightarrow> bool" where
  "safe_step s s' \<longleftrightarrow>
     (\<exists>new. gt_applied s' = gt_applied s @ new \<and> (\<forall>k\<in>set new. \<not> action_done (gt_ledger s) k)) \<and>
     (\<forall>k. action_done (gt_ledger s) k \<longrightarrow> group_actions (gt_ledger s') k = group_actions (gt_ledger s) k)"

lemma action_done_cong: "group_actions l' k = group_actions l k \<Longrightarrow> action_done l' k = action_done l k"
  by (simp add: action_done_def)

lemma safe_step_refl [simp]: "safe_step s s"
  by (simp add: safe_step_def)

lemma safe_step_trans:
  assumes "safe_step s s1" "safe_step s1 s2"
  shows "safe_step s s2"
proof -
  from assms obtain n1 n2 where n: "gt_applied s1 = gt_applied s @ n1" "\<forall>k\<in>set n1. \<not> action_done (gt_ledger s) k"
    "gt_applied s2 = gt_applied s1 @ n2" "\<forall>k\<in>set n2. \<not> action_done (gt_ledger s1) k"
    by (auto simp: safe_step_def)
  have keep: "action_done (gt_ledger s) k \<Longrightarrow> group_actions (gt_ledger s1) k = group_actions (gt_ledger s) k" for k
    using assms(1) unfolding safe_step_def by blast
  then have "action_done (gt_ledger s) k \<Longrightarrow> action_done (gt_ledger s1) k" for k
    using action_done_cong by blast
  with n keep assms(2) show ?thesis
    unfolding safe_step_def by (intro conjI exI [of _ "n1 @ n2"]) auto
qed

lemma safe_step_world [simp]: "safe_step (s\<lparr>gt_world := w\<rparr>) s' = safe_step s s'" "safe_step s (s'\<lparr>gt_world := w\<rparr>) = safe_step s s'"
  by (simp_all add: safe_step_def)

lemma one_group_safe:
  assumes "one_group env run raw s = (r, s')"
  shows "safe_step s s' \<and> gt_events s' = gt_events s"
proof -
  let ?c = "gc_commandID (gr_cmd run)"
  obtain b s1 where db: "ga_db env (\<lambda>f. BeginAction f ?c raw) s = (b, s1)"
    by (cases "ga_db env (\<lambda>f. BeginAction f ?c raw) s")
  have q: "quiet_step ?c raw s s1" using quiet_db(1) [of ?c raw s env] db by simp
  show ?thesis
  proof (cases b)
    case (Inl err)
    then have "s' = s1" using assms db by (simp add: one_group_def Let_def)
    moreover have "gt_ledger s1 = gt_ledger s"
      using db Inl by (auto simp: ga_db_def BeginAction_def Let_def split: prod.splits option.splits if_splits)
    ultimately show ?thesis using q by (simp add: safe_step_def quiet_step_def careful_def)
  next
    case (Inr rcd)
    note beg = ga_db_Begin [OF db [unfolded Inr]]
    have s1: "safe_step s s1" using q beg(2) by (simp add: safe_step_def quiet_step_def)
    show ?thesis
    proof (cases "ar_finished rcd")
      case True
      then have "s' = s1" using assms db Inr by (simp add: one_group_def Let_def)
      with s1 q show ?thesis by (simp add: quiet_step_def careful_def)
    next
      case False
      then have s': "s' = snd (applyGroupAction env run raw (first_result (gr_cmd run) raw) s1)"
        using assms db Inr by (simp add: one_group_def Let_def)
      have "careful ?c raw s1 s'" unfolding s' by (rule careful_apply)
      moreover have "\<not> action_done (gt_ledger s) (?c, raw)" using beg(1) False by simp
      ultimately show ?thesis
        using q beg(2) unfolding safe_step_def quiet_step_def careful_def
        by (metis append_Nil2 append_assoc empty_iff empty_set list.set(2) insert_iff)
    qed
  qed
qed

lemma publish_action_safe:
  "publish_action env evt s = (r, s') \<Longrightarrow> safe_step s s' \<and> gt_events s' = gt_events s @ [evt]"
  by (auto simp: publish_action_def safe_step_def split: prod.splits)

lemma group_loop_safe: "safe_step s (snd (group_loop env run raws s))"
proof (induction raws arbitrary: s)
  case Nil
  then show ?case by simp
next
  case (Cons raw raws)
  obtain down w where d: "gx_shutting env (gt_world s) = (down, w)" by (cases "gx_shutting env (gt_world s)")
  obtain r s1 where o: "one_group env run raw (s\<lparr>gt_world := w\<rparr>) = (r, s1)"
    by (cases "one_group env run raw (s\<lparr>gt_world := w\<rparr>)")
  have s1: "safe_step s s1" using one_group_safe [OF o] by simp
  show ?case
  proof (cases "down \<or> (\<exists>e. r = Inl e)")
    case True
    then show ?thesis using d o s1 by auto
  next
    case False
    then obtain res where r: "r = Inr res" "\<not> down" by (cases r) auto
    obtain pe s2 where p: "publish_action env res s1 = (pe, s2)" by (cases "publish_action env res s1")
    have s2: "safe_step s s2" using s1 publish_action_safe [OF p] safe_step_trans by blast
    show ?thesis
      using d o r p s2 safe_step_trans [OF s2 Cons [of s2]] by (cases pe) auto
  qed
qed

lemma prepare_safe:
  "prepareGroupCommand env cmd s = (run, s') \<Longrightarrow> gr_cmd run = cmd \<and> safe_step s s' \<and> gt_events s' = gt_events s \<and> gt_ledger s' = gt_ledger s"
  by (auto simp: prepareGroupCommand_def split: prod.splits sum.splits if_splits)

lemma GroupHandler_safe: "safe_step s (snd (GroupHandler env cmd s))"
proof -
  obtain down w where d: "gx_shutting env (gt_world s) = (down, w)" by (cases "gx_shutting env (gt_world s)")
  obtain run s1 where p: "prepareGroupCommand env cmd (s\<lparr>gt_world := w\<rparr>) = (run, s1)"
    by (cases "prepareGroupCommand env cmd (s\<lparr>gt_world := w\<rparr>)")
  have "safe_step s s1" using prepare_safe [OF p] by simp
  from safe_step_trans [OF this group_loop_safe [of s1 env run "gc_groupJIDs cmd"]] d p show ?thesis
    by (simp add: GroupHandler_def)
qed

text \<open>The event of a group names its command and its group.\<close>

definition about :: "GatewayGroupCommand \<Rightarrow> string \<Rightarrow> GroupActionEvent \<Rightarrow> bool" where
  "about cmd raw evt \<longleftrightarrow> ge_commandID evt = gc_commandID cmd \<and> ge_groupJID evt = raw \<and> ge_action evt = gc_action cmd \<and>
     ge_tenantID evt = gc_tenantID cmd \<and> ge_channelID evt = gc_channelID cmd"

lemma about_fail: "about cmd raw res \<Longrightarrow> fst (ga_fail env run raw' res err s) = Inr evt \<Longrightarrow> about cmd raw evt"
  by (auto simp: ga_fail_def about_def Let_def)

lemma about_halt: "about cmd raw res \<Longrightarrow> fst (haltOrGiveUp env run raw' res err s) = Inr evt \<Longrightarrow> about cmd raw evt"
  by (auto simp: haltOrGiveUp_def split: prod.splits sum.splits if_splits dest: about_fail)

lemma about_settle: "about cmd raw res \<Longrightarrow> fst (settle_action env run raw' res ap s) = Inr evt \<Longrightarrow> about cmd raw evt"
  by (auto simp: settle_action_def split: prod.splits sum.splits if_splits dest: about_fail about_halt) (simp add: about_def)

lemma about_apply: "about cmd raw res \<Longrightarrow> fst (applyGroupAction env run raw' res s) = Inr evt \<Longrightarrow> about cmd raw evt"
  by (auto simp: applyGroupAction_def split: prod.splits sum.splits option.splits dest: about_fail about_settle)

lemma about_one_group:
  "one_group env run raw s = (Inr evt, s') \<Longrightarrow> about (gr_cmd run) raw evt"
proof -
  assume o: "one_group env run raw s = (Inr evt, s')"
  have first: "about (gr_cmd run) raw (first_result (gr_cmd run) raw)" by (simp add: about_def first_result_def)
  from o show ?thesis
    by (auto simp: one_group_def Let_def split: prod.splits sum.splits if_splits
        dest!: arg_cong [of _ _ fst] dest: about_apply [OF first]) (simp add: about_def first_result_def)
qed

lemma group_loop_events:
  "group_loop env run raws s = (r, s') \<Longrightarrow>
   \<exists>evts. gt_events s' = gt_events s @ evts \<and>
     prefix (map ge_groupJID evts) raws \<and> list_all (\<lambda>e. about (gr_cmd run) (ge_groupJID e) e) evts \<and>
     (r = None \<longrightarrow> map ge_groupJID evts = raws)"
proof (induction raws arbitrary: s)
  case Nil
  then show ?case by simp
next
  case (Cons raw raws)
  obtain down w where d: "gx_shutting env (gt_world s) = (down, w)" by (cases "gx_shutting env (gt_world s)")
  obtain o1 s1 where o: "one_group env run raw (s\<lparr>gt_world := w\<rparr>) = (o1, s1)"
    by (cases "one_group env run raw (s\<lparr>gt_world := w\<rparr>)")
  have e1: "gt_events s1 = gt_events s" using one_group_safe [OF o] by simp
  show ?case
  proof (cases "down \<or> (\<exists>e. o1 = Inl e)")
    case True
    then show ?thesis
      using Cons.prems d o e1 by (intro exI [of _ "[]"]) (auto split: if_splits)
  next
    case False
    then obtain res where r: "o1 = Inr res" "\<not> down" by (cases o1) auto
    have ab: "about (gr_cmd run) raw res" using about_one_group [OF o [unfolded r(1)]] .
    obtain pe s2 where p: "publish_action env res s1 = (pe, s2)" by (cases "publish_action env res s1")
    have e2: "gt_events s2 = gt_events s @ [res]" using publish_action_safe [OF p] e1 by simp
    have jid: "ge_groupJID res = raw" using ab by (simp add: about_def)
    show ?thesis
    proof (cases pe)
      case (Some err)
      then show ?thesis
        using Cons.prems d o r p e2 ab jid by (intro exI [of _ "[res]"]) auto
    next
      case None
      then have "group_loop env run raws s2 = (r, s')" using Cons.prems d o r p by simp
      from Cons.IH [OF this] obtain evts where "gt_events s' = gt_events s2 @ evts" "prefix (map ge_groupJID evts) raws"
        "list_all (\<lambda>e. about (gr_cmd run) (ge_groupJID e) e) evts" "r = None \<longrightarrow> map ge_groupJID evts = raws" by blast
      then show ?thesis using e2 ab jid by (intro exI [of _ "res # evts"]) auto
    qed
  qed
qed

section \<open>Properties\<close>

text \<open>
  C7. A group action that the ledger holds as done (or as failed for a reason) is never applied
  again by any later command, whatever fails meanwhile, and its row does not change.
\<close>

theorem done_action_never_reapplied:
  "\<exists>new. gt_applied (run_group_commands env cmds s) = gt_applied s @ new \<and>
     (\<forall>k. action_done (gt_ledger s) k \<longrightarrow>
        k \<notin> set new \<and> group_actions (gt_ledger (run_group_commands env cmds s)) k = group_actions (gt_ledger s) k)"
proof -
  have "safe_step s (run_group_commands env cmds s)"
  proof (induction cmds arbitrary: s)
    case (Cons cmd cmds)
    show ?case using safe_step_trans [OF GroupHandler_safe Cons] by simp
  qed simp
  then show ?thesis unfolding safe_step_def by blast
qed

text \<open>A concrete environment: no shutdown, a healthy database, clients that accept every change.\<close>

definition calm_env :: "(string \<Rightarrow> jid list group_client result) \<Rightarrow> jid list ga_env" where
  "calm_env cl =
     \<lparr>gx_lib = \<lparr>parse_jid = (\<lambda>s. Inr \<lparr>jid_user = s, jid_server = GroupServer, jid_device = 0\<rparr>), jid_string = jid_user,
        to_non_ad = (\<lambda>j. j)\<rparr>, gx_shutting = (\<lambda>w. (False, w)), gx_db = (\<lambda>w. (None, w)), gx_client = (\<lambda>t c w. (cl c, w)),
      gx_photo = (\<lambda>u w. (Inr [], w)), gx_clock = (\<lambda>w. (0, w)), gx_jitter = (\<lambda>w. (0, w)), gx_sleep = (\<lambda>d w. (True, w)),
      gx_publish = (\<lambda>e w. (None, w))\<rparr>"

definition lock_two :: GatewayGroupCommand where
  "lock_two = \<lparr>gc_commandID = ''k'', gc_tenantID = ''t'', gc_channelID = ''c'', gc_action = ''lock'',
     gc_groupJIDs = [''g1'', ''g2''], gc_params = \<lparr>ga_phones = [], ga_name = [], ga_description = [], ga_photoURL = []\<rparr>\<rparr>"

definition first_done :: "jid list ga_state" where
  "first_done = \<lparr>gt_ledger = \<lparr>sent_messages = Map.empty,
       group_actions = [(''k'', ''g1'') \<mapsto> \<lparr>ac_status = StSent, ac_removed = None, ac_failure = None, ac_halts = 0\<rparr>]\<rparr>,
     gt_world = [], gt_pacer = Map.empty, gt_applied = [], gt_events = []\<rparr>"

theorem done_action_never_reapplied_witness:
  "(''k'', ''g1'') \<notin> set (gt_applied (run_group_commands (calm_env (\<lambda>c. Inr demo_client)) [lock_two, lock_two] first_done))"
proof -
  have "action_done (gt_ledger first_done) (''k'', ''g1'')" by (simp add: action_done_def first_done_def)
  moreover have "gt_applied first_done = []" by (simp add: first_done_def)
  ultimately show ?thesis
    using done_action_never_reapplied [of "calm_env (\<lambda>c. Inr demo_client)" "[lock_two, lock_two]" first_done] by auto
qed

text \<open>
  The handler publishes one event per group, in the order of the command and each about its
  group: for all groups when it returns without an error, and for an initial part of them when it
  stops early.
\<close>

lemma group_events_in_order:
  "\<exists>evts. gt_events (snd (GroupHandler env cmd s)) = gt_events s @ evts \<and>
     prefix (map ge_groupJID evts) (gc_groupJIDs cmd) \<and>
     list_all (\<lambda>e. about cmd (ge_groupJID e) e) evts \<and>
     (fst (GroupHandler env cmd s) = None \<longrightarrow> map ge_groupJID evts = gc_groupJIDs cmd)"
proof -
  obtain down w where d: "gx_shutting env (gt_world s) = (down, w)" by (cases "gx_shutting env (gt_world s)")
  obtain run s1 where p: "prepareGroupCommand env cmd (s\<lparr>gt_world := w\<rparr>) = (run, s1)"
    by (cases "prepareGroupCommand env cmd (s\<lparr>gt_world := w\<rparr>)")
  note pr = prepare_safe [OF p]
  obtain r s2 where l: "group_loop env run (gc_groupJIDs cmd) s1 = (r, s2)"
    by (cases "group_loop env run (gc_groupJIDs cmd) s1")
  show ?thesis
  proof (cases down)
    case True
    then show ?thesis using d by (intro exI [of _ "[]"]) (simp add: GroupHandler_def)
  next
    case False
    then show ?thesis using group_loop_events [OF l] d p l pr by (auto simp: GroupHandler_def)
  qed
qed

end
