(* ===== verification/CallAudio.thy ===== *)
theory CallAudio
  imports Prelude "HOL-Library.Word" "HOL-Library.Sublist"
begin

text \<open>
  The audio and video of one live call: the outbound audio of internal/call/outbound.go, which mixes
  an announcement and the operator's frames into the reader that WhatsApp plays, and the operator
  stream of internal/call/stream.go. Every operation runs under its mutex, so a concurrent execution
  is a sequence of operations. A frame received from the peer is of an arbitrary type \<open>'f\<close> (a list
  of float32 samples that the stream only passes on).
\<close>

type_synonym pcm = "8 word list"

section \<open>Outbound audio\<close>

definition operatorQueueFrames :: nat where "operatorQueueFrames = 50"

record outboundAudio =
  oa_recorder :: bool
  oa_closed :: bool
  oa_announcement :: pcm
  oa_queue :: "pcm list"
  oa_pending :: pcm

definition newOutboundAudio :: "bool \<Rightarrow> outboundAudio" where
  "newOutboundAudio recorder =
     \<lparr>oa_recorder = recorder, oa_closed = False, oa_announcement = [], oa_queue = [], oa_pending = []\<rparr>"

text \<open>The inner loop of \<open>Read\<close>: \<open>room\<close> bytes of the destination are left.\<close>

function fill :: "nat \<Rightarrow> pcm \<Rightarrow> pcm list \<Rightarrow> pcm \<times> pcm \<times> pcm list" where
  "fill room pending queue =
     (if room = 0 then ([], pending, queue)
      else if pending = [] then
        (case queue of
           [] \<Rightarrow> ([], [], [])
         | q # qs \<Rightarrow>
             (case fill (room - length q) (drop room q) qs of (out, p, rest) \<Rightarrow> (take room q @ out, p, rest)))
      else
        (case fill (room - length pending) (drop room pending) queue of
           (out, p, rest) \<Rightarrow> (take room pending @ out, p, rest)))"
  by pat_completeness auto
termination
  by (relation "measures [\<lambda>(room, pending, queue). length queue, \<lambda>(room, pending, queue). length pending]") auto

declare fill.simps [simp del]

text \<open>
  \<open>Read\<close> on a destination of \<open>len\<close> bytes: the error, what the destination holds afterwards (nothing
  is written when the result is 0 bytes), and the buffer handed to the recorder, if it is.
\<close>

definition audio_Read :: "nat \<Rightarrow> outboundAudio \<Rightarrow> (goerr option \<times> pcm \<times> pcm option) \<times> outboundAudio" where
  "audio_Read len o1 =
     (if len = 0 then ((None, [], None), o1)
      else if oa_closed o1 then ((Some (Err EEOF ''EOF''), [], None), o1)
      else
        (let (got, o2) =
           (if oa_announcement o1 \<noteq> [] then
              (take len (oa_announcement o1), o1\<lparr>oa_announcement := drop len (oa_announcement o1)\<rparr>)
            else
              (case fill len (oa_pending o1) (oa_queue o1) of
                 (out, p, rest) \<Rightarrow> (out, o1\<lparr>oa_pending := p, oa_queue := rest\<rparr>)));
           buf = got @ replicate (len - length got) 0
         in ((None, buf, if oa_recorder o2 \<and> got \<noteq> [] then Some buf else None), o2)))"

definition audio_Close :: "outboundAudio \<Rightarrow> outboundAudio" where
  "audio_Close o1 = o1\<lparr>oa_closed := True, oa_announcement := [], oa_queue := [], oa_pending := []\<rparr>"

definition writeOperator :: "pcm \<Rightarrow> outboundAudio \<Rightarrow> goerr option \<times> outboundAudio" where
  "writeOperator frame o1 =
     (if oa_closed o1 then
        (Some (Wrap ''call: queue operator audio: '' (Err EClosedPipe ''io: read/write on closed pipe'') []), o1)
      else if oa_announcement o1 \<noteq> [] then (None, o1)
      else
        (let q = (if operatorQueueFrames \<le> length (oa_queue o1) then tl (oa_queue o1) else oa_queue o1)
         in (None, o1\<lparr>oa_queue := q @ [frame]\<rparr>)))"

definition clearOperator :: "outboundAudio \<Rightarrow> outboundAudio" where
  "clearOperator o1 = o1\<lparr>oa_queue := [], oa_pending := []\<rparr>"

definition playAnnouncement :: "pcm \<Rightarrow> outboundAudio \<Rightarrow> goerr option \<times> outboundAudio" where
  "playAnnouncement p o1 =
     (if oa_closed o1 then
        (Some (Wrap ''call: play announcement: '' (Err EClosedPipe ''io: read/write on closed pipe'') []), o1)
      else (None, o1\<lparr>oa_announcement := p, oa_queue := [], oa_pending := []\<rparr>))"

subsection \<open>What is ready to be played\<close>

definition operator_ready :: "outboundAudio \<Rightarrow> pcm" where
  "operator_ready o1 = oa_pending o1 @ concat (oa_queue o1)"

definition ready :: "outboundAudio \<Rightarrow> pcm" where
  "ready o1 = (if oa_announcement o1 \<noteq> [] then oa_announcement o1 else operator_ready o1)"

lemma fill_spec:
  "fill room pending queue = (out, p, rest) \<Longrightarrow>
     out = take room (pending @ concat queue) \<and> p @ concat rest = drop room (pending @ concat queue) \<and>
     length rest \<le> length queue"
proof (induction room pending queue arbitrary: out p rest rule: fill.induct)
  case (1 room pending queue)
  show ?case
  proof (cases "room = 0")
    case True
    with 1(3) show ?thesis by (simp add: fill.simps [of 0])
  next
    case room: False
    show ?thesis
    proof (cases pending)
      case (Cons a as)
      then have ne: "pending \<noteq> []" by simp
      obtain out' where f: "fill (room - length pending) (drop room pending) queue = (out', p, rest)"
          and o: "out = take room pending @ out'"
        using 1(3) room ne by (auto simp: fill.simps [of room] split: prod.splits)
      from 1(2) [OF room ne f] o show ?thesis by (cases "room \<le> length pending") auto
    next
      case Nil
      show ?thesis
      proof (cases queue)
        case Nil
        with 1(3) room \<open>pending = []\<close> show ?thesis by (simp add: fill.simps [of room])
      next
        case (Cons q qs)
        obtain out' where f: "fill (room - length q) (drop room q) qs = (out', p, rest)"
            and o: "out = take room q @ out'"
          using 1(3) room Nil Cons by (auto simp: fill.simps [of room] split: prod.splits)
        from 1(1) [OF room Nil Cons f] o Nil Cons show ?thesis by (cases "room \<le> length q") auto
      qed
    qed
  qed
qed

definition audio_wf :: "outboundAudio \<Rightarrow> bool" where
  "audio_wf o1 \<longleftrightarrow> length (oa_queue o1) \<le> operatorQueueFrames \<and>
     (oa_announcement o1 \<noteq> [] \<longrightarrow> operator_ready o1 = []) \<and>
     (oa_closed o1 \<longrightarrow> oa_announcement o1 = [] \<and> operator_ready o1 = [])"

section \<open>Executions\<close>

datatype audio_op = AWrite pcm | ARead nat | AAnnounce pcm | AClear | AClose

text \<open>
  One operation with the operator's bytes it accepts and the operator's bytes it plays.
\<close>

fun audio_step :: "audio_op \<Rightarrow> outboundAudio \<Rightarrow> pcm \<times> pcm \<times> outboundAudio" where
  "audio_step (AWrite f) o1 =
     (if oa_closed o1 \<or> oa_announcement o1 \<noteq> [] then [] else f, [], snd (writeOperator f o1))"
| "audio_step (ARead len) o1 =
     ([], if oa_closed o1 \<or> oa_announcement o1 \<noteq> [] then []
          else take (length (operator_ready o1)) (fst (snd (fst (audio_Read len o1)))), snd (audio_Read len o1))"
| "audio_step (AAnnounce p) o1 = ([], [], snd (playAnnouncement p o1))"
| "audio_step AClear o1 = ([], [], clearOperator o1)"
| "audio_step AClose o1 = ([], [], audio_Close o1)"

fun audio_run :: "audio_op list \<Rightarrow> outboundAudio \<Rightarrow> pcm \<times> pcm \<times> outboundAudio" where
  "audio_run [] o1 = ([], [], o1)"
| "audio_run (a # as) o1 =
     (case audio_step a o1 of (w, h, o2) \<Rightarrow> case audio_run as o2 of (ws, hs, o3) \<Rightarrow> (w @ ws, h @ hs, o3))"

lemma audio_Read_open:
  assumes "\<not> oa_closed o1" "len > 0" "audio_Read len o1 = ((err, buf, rcd), o2)"
  shows "err = None \<and> buf = take len (ready o1) @ replicate (len - length (ready o1)) 0 \<and>
    (oa_announcement o1 = [] \<longrightarrow> operator_ready o2 = drop len (operator_ready o1) \<and>
        length (oa_queue o2) \<le> length (oa_queue o1)) \<and>
    (oa_announcement o1 \<noteq> [] \<longrightarrow> oa_announcement o2 = drop len (oa_announcement o1) \<and>
        oa_queue o2 = oa_queue o1 \<and> oa_pending o2 = oa_pending o1) \<and>
    (oa_announcement o1 = [] \<longrightarrow> oa_announcement o2 = []) \<and>
    oa_closed o2 = oa_closed o1 \<and> oa_recorder o2 = oa_recorder o1 \<and>
    rcd = (if oa_recorder o1 \<and> ready o1 \<noteq> [] then Some buf else None)"
proof (cases "oa_announcement o1 = []")
  case False
  then show ?thesis using assms by (auto simp: audio_Read_def ready_def Let_def)
next
  case True
  obtain out p rest where f: "fill len (oa_pending o1) (oa_queue o1) = (out, p, rest)"
    by (cases "fill len (oa_pending o1) (oa_queue o1)")
  from fill_spec [OF f] True assms show ?thesis
    by (auto simp: audio_Read_def ready_def operator_ready_def Let_def f)
qed

lemma writeOperator_wf:
  assumes "audio_wf o1"
  shows "audio_wf (snd (writeOperator f o1))"
proof (cases "oa_closed o1 \<or> oa_announcement o1 \<noteq> []")
  case True
  then have "snd (writeOperator f o1) = o1" by (auto simp: writeOperator_def)
  with assms show ?thesis by simp
next
  case False
  then show ?thesis using assms by (simp add: audio_wf_def writeOperator_def Let_def operatorQueueFrames_def)
qed

lemma audio_Read_wf:
  assumes "audio_wf o1"
  shows "audio_wf (snd (audio_Read len o1))"
proof (cases "oa_closed o1 \<or> len = 0")
  case True
  then have "snd (audio_Read len o1) = o1" by (auto simp: audio_Read_def)
  with assms show ?thesis by simp
next
  case False
  obtain err buf rcd o2 where r: "audio_Read len o1 = ((err, buf, rcd), o2)" by (metis prod.exhaust)
  have o: "\<not> oa_closed o1" "len > 0" using False by simp_all
  note spec = audio_Read_open [OF o r]
  show ?thesis
  proof (cases "oa_announcement o1 = []")
    case True
    then show ?thesis using spec o(1) assms by (simp add: audio_wf_def r)
  next
    case ann: False
    then show ?thesis using spec o(1) assms by (simp add: audio_wf_def operator_ready_def r)
  qed
qed

lemma audio_step_wf:
  assumes "audio_wf o1" "audio_step a o1 = (w, h, o2)"
  shows "audio_wf o2"
proof (cases a)
  case (AWrite f)
  then show ?thesis using assms writeOperator_wf [OF assms(1), of f] by simp
next
  case (ARead len)
  then show ?thesis using assms audio_Read_wf [OF assms(1), of len] by simp
next
  case (AAnnounce p)
  then have "o2 = snd (playAnnouncement p o1)" using assms by simp
  then show ?thesis
    using assms(1) by (cases "oa_closed o1") (simp_all add: audio_wf_def playAnnouncement_def operator_ready_def)
next
  case AClear
  then show ?thesis using assms by (auto simp: audio_wf_def clearOperator_def operator_ready_def)
next
  case AClose
  then show ?thesis using assms by (auto simp: audio_wf_def audio_Close_def operator_ready_def)
qed

lemma audio_step_order:
  assumes "audio_wf o1" "audio_step a o1 = (w, h, o2)"
  shows "subseq (h @ operator_ready o2) (operator_ready o1 @ w)"
proof (cases a)
  case (AWrite f)
  have "subseq (concat (tl q)) (concat q)" for q :: "pcm list"
    by (cases q) (simp_all add: list_emb_append2)
  then show ?thesis
    using assms AWrite by (cases "oa_closed o1 \<or> oa_announcement o1 \<noteq> []")
      (auto simp: writeOperator_def operator_ready_def Let_def intro!: list_emb_append_mono)
next
  case (ARead len)
  show ?thesis
  proof (cases "oa_closed o1 \<or> len = 0 \<or> oa_announcement o1 \<noteq> []")
    case True
    then show ?thesis using assms ARead by (auto simp: audio_Read_def operator_ready_def Let_def)
  next
    case False
    obtain err buf rcd where r: "audio_Read len o1 = ((err, buf, rcd), o2)"
      using assms(2) ARead by (cases "audio_Read len o1") auto
    have "h = take len (operator_ready o1)"
      using audio_Read_open [OF _ _ r] False assms(2) ARead r by (auto simp: ready_def min_def)
    moreover have "operator_ready o2 = drop len (operator_ready o1)"
      using audio_Read_open [OF _ _ r] False by auto
    ultimately show ?thesis using assms(2) ARead by auto
  qed
qed (use assms in \<open>auto simp: playAnnouncement_def clearOperator_def audio_Close_def operator_ready_def\<close>)

lemma audio_run_order:
  "audio_wf o1 \<Longrightarrow> audio_run as o1 = (ws, hs, o2) \<Longrightarrow>
   audio_wf o2 \<and> subseq (hs @ operator_ready o2) (operator_ready o1 @ ws)"
proof (induction as arbitrary: o1 ws hs)
  case Nil
  then show ?case by simp
next
  case (Cons a as)
  obtain w h o' where a: "audio_step a o1 = (w, h, o')" by (cases "audio_step a o1")
  obtain ws' hs' o3 where r: "audio_run as o' = (ws', hs', o3)" by (cases "audio_run as o'")
  have eq: "ws = w @ ws'" "hs = h @ hs'" "o3 = o2" using Cons.prems(2) a r by simp_all
  have wf: "audio_wf o'" using audio_step_wf [OF Cons.prems(1) a] .
  have 1: "subseq (h @ operator_ready o') (operator_ready o1 @ w)"
    using audio_step_order [OF Cons.prems(1) a] .
  have 2: "audio_wf o2 \<and> subseq (hs' @ operator_ready o2) (operator_ready o' @ ws')"
    using Cons.IH [OF wf r [unfolded eq(3)]] .
  have "subseq (h @ hs' @ operator_ready o2) (h @ operator_ready o' @ ws')"
    using 2 by (simp add: list_emb_append_mono)
  also have "subseq ((h @ operator_ready o') @ ws') ((operator_ready o1 @ w) @ ws')"
    using 1 by (rule list_emb_append_mono) simp
  ultimately show ?case using 2 eq subseq_order.order_trans by fastforce
qed

lemma audio_wf_new [simp]: "audio_wf (newOutboundAudio r)" "operator_ready (newOutboundAudio r) = []"
  by (simp_all add: audio_wf_def newOutboundAudio_def operator_ready_def)

section \<open>The operator stream\<close>

definition streamAudioBuffer :: nat where "streamAudioBuffer = 50"
definition streamVideoBuffer :: nat where "streamVideoBuffer = 50"

text \<open>
  The buffered channels are lists; \<open>sm_chans_closed\<close> holds once \<open>close\<close> was called on them, and
  \<open>sm_closers\<close> counts the callers of \<open>close\<close> that have set the flag and not closed the channels yet.
\<close>

record 'f stream =
  sm_audio :: "'f list"
  sm_video :: "pcm list"
  sm_keyframe :: nat
  sm_closed :: bool
  sm_closers :: nat
  sm_chans_closed :: bool

text \<open>A send in a select with a default; \<open>None\<close> is the panic of a send on a closed channel.\<close>

definition try_send :: "bool \<Rightarrow> nat \<Rightarrow> 'a \<Rightarrow> 'a list \<Rightarrow> 'a list option" where
  "try_send closed cap x buf =
     (if closed then None else if length buf < cap then Some (buf @ [x]) else Some buf)"

definition receiveAudio :: "'f \<Rightarrow> 'f stream \<Rightarrow> 'f stream option" where
  "receiveAudio frame s =
     (if sm_closed s then Some s
      else map_option (\<lambda>b. s\<lparr>sm_audio := b\<rparr>) (try_send (sm_chans_closed s) streamAudioBuffer frame (sm_audio s)))"

definition receiveVideo :: "pcm \<Rightarrow> 'f stream \<Rightarrow> 'f stream option" where
  "receiveVideo accessUnit s =
     (if sm_closed s then Some s
      else map_option (\<lambda>b. s\<lparr>sm_video := b\<rparr>) (try_send (sm_chans_closed s) streamVideoBuffer accessUnit (sm_video s)))"

definition requestKeyframe :: "'f stream \<Rightarrow> 'f stream option" where
  "requestKeyframe s =
     (if sm_closed s then Some s
      else map_option (\<lambda>b. s\<lparr>sm_keyframe := length b\<rparr>)
        (try_send (sm_chans_closed s) 1 () (replicate (sm_keyframe s) ())))"

definition emptyStream :: "'f stream" where
  "emptyStream = \<lparr>sm_audio = [], sm_video = [], sm_keyframe = 0, sm_closed = False, sm_closers = 0, sm_chans_closed = False\<rparr>"

definition newStream :: "'f stream option" where
  "newStream = requestKeyframe emptyStream"

text \<open>The two halves of \<open>close\<close>: the flag under the mutex, then the channels.\<close>

definition close_flag :: "'f stream \<Rightarrow> 'f stream" where
  "close_flag s = (if sm_closed s then s else s\<lparr>sm_closed := True, sm_closers := Suc (sm_closers s)\<rparr>)"

definition close_chans :: "'f stream \<Rightarrow> 'f stream option" where
  "close_chans s =
     (if sm_closers s = 0 then Some s
      else if sm_chans_closed s then None
      else Some (s\<lparr>sm_chans_closed := True, sm_closers := sm_closers s - 1\<rparr>))"

definition stream_close :: "'f stream \<Rightarrow> 'f stream option" where
  "stream_close s = close_chans (close_flag s)"

definition WriteAudio :: "'f stream \<Rightarrow> pcm \<Rightarrow> outboundAudio \<Rightarrow> goerr option \<times> outboundAudio" where
  "WriteAudio s frame o1 =
     (if sm_closed s then
        (Some (Wrap ''call: write operator audio: '' (Err EClosedPipe ''io: read/write on closed pipe'') []), o1)
      else
        (case writeOperator frame o1 of
           (Some err, o2) \<Rightarrow> (Some (Wrap ''call: write operator audio: '' err []), o2)
         | (None, o2) \<Rightarrow> (None, o2)))"

definition WriteVideo :: "(pcm \<Rightarrow> goerr option) \<Rightarrow> 'f stream \<Rightarrow> pcm \<Rightarrow> goerr option" where
  "WriteVideo sendVideo s accessUnit =
     (if sm_closed s then
        Some (Wrap ''call: write operator video: '' (Err EClosedPipe ''io: read/write on closed pipe'') [])
      else map_option (\<lambda>err. Wrap ''call: write operator video: '' err []) (sendVideo accessUnit))"

datatype 'f stream_act = SAudio 'f | SVideo pcm | SKeyframe | SCloseFlag | SCloseChans
  | STakeAudio | STakeVideo | STakeKeyframe

fun stream_do :: "'f stream_act \<Rightarrow> 'f stream \<Rightarrow> 'f stream option" where
  "stream_do (SAudio f) s = receiveAudio f s"
| "stream_do (SVideo u) s = receiveVideo u s"
| "stream_do SKeyframe s = requestKeyframe s"
| "stream_do SCloseFlag s = Some (close_flag s)"
| "stream_do SCloseChans s = close_chans s"
| "stream_do STakeAudio s = Some (s\<lparr>sm_audio := tl (sm_audio s)\<rparr>)"
| "stream_do STakeVideo s = Some (s\<lparr>sm_video := tl (sm_video s)\<rparr>)"
| "stream_do STakeKeyframe s = Some (s\<lparr>sm_keyframe := sm_keyframe s - 1\<rparr>)"

fun stream_run :: "'f stream_act list \<Rightarrow> 'f stream \<Rightarrow> 'f stream option" where
  "stream_run [] s = Some s"
| "stream_run (a # as) s = Option.bind (stream_do a s) (stream_run as)"

definition stream_wf :: "'f stream \<Rightarrow> bool" where
  "stream_wf s \<longleftrightarrow> length (sm_audio s) \<le> streamAudioBuffer \<and> length (sm_video s) \<le> streamVideoBuffer \<and>
     sm_keyframe s \<le> 1 \<and>
     sm_closers s + (if sm_chans_closed s then 1 else 0) = (if sm_closed s then 1 else 0)"

lemmas stream_ops = receiveAudio_def receiveVideo_def requestKeyframe_def close_flag_def close_chans_def try_send_def

lemma stream_do_wf: "stream_wf s \<Longrightarrow> \<exists>s'. stream_do a s = Some s' \<and> stream_wf s'"
  by (cases a) (auto simp: stream_ops stream_wf_def split: if_splits)

lemma stream_run_wf: "stream_wf s \<Longrightarrow> \<exists>s'. stream_run as s = Some s' \<and> stream_wf s'"
proof (induction as arbitrary: s)
  case (Cons a as)
  from stream_do_wf [OF Cons.prems, of a] obtain s1 where "stream_do a s = Some s1" "stream_wf s1" by blast
  with Cons.IH [of s1] show ?case by simp
qed simp

section \<open>Properties\<close>

text \<open>
  Reading the outbound audio of an open call always fills the whole destination: with the
  announcement when there is one, else with the operator's bytes, and with silence after them; the
  rest stays ready for the next read, and the recorder gets exactly the buffers that are not all
  silence.
\<close>

lemma audio_read_exact:
  assumes "\<not> oa_closed o1" and "len > 0" and "audio_Read len o1 = ((err, buf, rcd), o2)"
  shows "err = None \<and> length buf = len \<and>
    buf = take len (ready o1) @ replicate (len - length (ready o1)) 0 \<and>
    (if oa_announcement o1 \<noteq> [] then oa_announcement o2 = drop len (oa_announcement o1)
     else operator_ready o2 = drop len (operator_ready o1)) \<and>
    rcd = (if oa_recorder o1 \<and> ready o1 \<noteq> [] then Some buf else None)"
  using audio_Read_open [OF assms] by auto

text \<open>
  Whatever the operator writes, however the reader reads and whenever announcements, detaches
  and the end of the call come in between, the operator's audio that is played is a subsequence of
  what was accepted (nothing is repeated or reordered), at most fifty frames wait, and nothing of
  the operator waits behind an announcement or after the end.
\<close>

lemma operator_audio_in_order:
  assumes "audio_run ops (newOutboundAudio r) = (accepted, played, o2)"
  shows "subseq played accepted \<and> length (oa_queue o2) \<le> operatorQueueFrames \<and>
    (oa_announcement o2 \<noteq> [] \<or> oa_closed o2 \<longrightarrow> operator_ready o2 = [])"
proof -
  from audio_run_order [OF audio_wf_new(1) assms]
  have wf: "audio_wf o2" and "subseq (played @ operator_ready o2) accepted" by simp_all
  moreover have "subseq played (played @ operator_ready o2)" by (simp add: prefix_imp_subseq)
  ultimately have "subseq played accepted" by (metis subseq_order.trans)
  with wf show ?thesis unfolding audio_wf_def by blast
qed

text \<open>
  No interleaving of the peer's media, key frame requests, the operator's reads and any number
  of callers of close sends on a closed channel or closes one twice, and the buffers stay within
  their capacity.
\<close>

lemma stream_never_panics:
  "\<exists>s s'. newStream = Some s \<and> stream_run acts s = Some s' \<and>
     length (sm_audio s') \<le> streamAudioBuffer \<and> length (sm_video s') \<le> streamVideoBuffer \<and> sm_keyframe s' \<le> 1"
proof -
  have "stream_wf (emptyStream :: 'a stream)" by (simp add: emptyStream_def stream_wf_def)
  from stream_do_wf [OF this, of SKeyframe] obtain s :: "'a stream" where "newStream = Some s" "stream_wf s"
    by (auto simp: newStream_def)
  with stream_run_wf [of s acts] show ?thesis by (auto simp: stream_wf_def)
qed

end
