(* ===== verification/Cooldown.thy ===== *)
theory Cooldown
  imports Prelude
begin

text \<open>
  The automatic answer to a rejected call, internal/call/autoreply.go: a caller is answered at most
  once per window, under its LID and its phone number alike, and a reservation whose answer could
  not be sent is given back. Every operation runs under the mutex. The counter of tokens (64 bits
  in the code) is a natural number: it grows by one per reservation.
\<close>

section \<open>The cooldown\<close>

definition CallRejectMessageCooldown :: int where "CallRejectMessageCooldown = 10 * 60 * 1000000000"
definition CallRejectSendTimeout :: int where "CallRejectSendTimeout = 30 * 1000000000"

record reservation =
  rv_at :: int
  rv_token :: nat

record Reservation =
  rs_keys :: "string list"
  rs_token :: nat

record Cooldown =
  cd_window :: int
  cd_last :: "string \<Rightarrow> reservation option"
  cd_counter :: nat

definition NewCooldown :: "int \<Rightarrow> Cooldown" where
  "NewCooldown window = \<lparr>cd_window = window, cd_last = Map.empty, cd_counter = 0\<rparr>"

definition cooldownKeys :: "string \<Rightarrow> string list \<Rightarrow> string list" where
  "cooldownKeys channelID callers = map (\<lambda>c. channelID @ ''|'' @ c) (filter (\<lambda>c. c \<noteq> []) callers)"

definition prune :: "int \<Rightarrow> Cooldown \<Rightarrow> string \<Rightarrow> reservation option" where
  "prune now c k =
     (case cd_last c k of
        None \<Rightarrow> None
      | Some held \<Rightarrow> if now - rv_at held \<ge> cd_window c then None else Some held)"

definition Allow :: "int \<Rightarrow> string \<Rightarrow> string list \<Rightarrow> Cooldown \<Rightarrow> Reservation option \<times> Cooldown" where
  "Allow now channelID callers c =
     (let keys = cooldownKeys channelID callers in
      if keys = [] then (None, c)
      else
        (let c1 = c\<lparr>cd_last := prune now c\<rparr> in
         if list_ex (\<lambda>key. cd_last c1 key \<noteq> None) keys then (None, c1)
         else
           (let token = cd_counter c1 + 1 in
            (Some \<lparr>rs_keys = keys, rs_token = token\<rparr>,
             c1\<lparr>cd_counter := token,
               cd_last := foldl (\<lambda>m key. m(key \<mapsto> \<lparr>rv_at = now, rv_token = token\<rparr>)) (cd_last c1) keys\<rparr>))))"

definition release_key :: "nat \<Rightarrow> (string \<Rightarrow> reservation option) \<Rightarrow> string \<Rightarrow> string \<Rightarrow> reservation option" where
  "release_key token m key =
     (case m key of
        None \<Rightarrow> m
      | Some current \<Rightarrow> if rv_token current = token then m(key := None) else m)"

definition Release :: "Reservation \<Rightarrow> Cooldown \<Rightarrow> Cooldown" where
  "Release held c = c\<lparr>cd_last := foldl (release_key (rs_token held)) (cd_last c) (rs_keys held)\<rparr>"

section \<open>The automatic answer\<close>

record AutoReply =
  ar_channelID :: string
  ar_callID :: string
  ar_senderLid :: string
  ar_senderPn :: string
  ar_text :: string

text \<open>
  \<open>autoReply\<close> up to its goroutine: the answer to send with its reservation, or nothing.
  \<open>reply_done\<close> is the end of the goroutine, with the error of the replier.
\<close>

definition autoReply ::
  "bool \<Rightarrow> bool \<Rightarrow> int \<Rightarrow> string \<Rightarrow> string \<Rightarrow> string \<Rightarrow> string \<Rightarrow> string \<Rightarrow> Cooldown \<Rightarrow> (AutoReply \<times> Reservation) option \<times> Cooldown" where
  "autoReply has_replier is_group now channelID callID message senderLid senderPn c =
     (if message = [] \<or> \<not> has_replier \<or> is_group then (None, c)
      else if senderLid = [] \<and> senderPn = [] then (None, c)
      else
        (case Allow now channelID [senderLid, senderPn] c of
           (None, c1) \<Rightarrow> (None, c1)
         | (Some held, c1) \<Rightarrow>
             (Some (\<lparr>ar_channelID = channelID, ar_callID = callID, ar_senderLid = senderLid, ar_senderPn = senderPn,
                ar_text = message\<rparr>, held), c1)))"

definition reply_done :: "goerr option \<Rightarrow> Reservation \<Rightarrow> Cooldown \<Rightarrow> Cooldown" where
  "reply_done err held c = (case err of None \<Rightarrow> c | Some _ \<Rightarrow> Release held c)"

definition replyTimeout :: "int \<Rightarrow> int" where
  "replyTimeout configured = (if configured > 0 then configured else CallRejectSendTimeout)"

section \<open>Executions\<close>

datatype cd_op = CAllow int string "string list" | CRelease Reservation

fun cd_step :: "cd_op \<Rightarrow> Cooldown \<Rightarrow> Cooldown" where
  "cd_step (CAllow now ch callers) c = snd (Allow now ch callers c)"
| "cd_step (CRelease held) c = Release held c"

text \<open>An operation that comes within the window of a reservation and does not release it.\<close>

fun within :: "int \<Rightarrow> int \<Rightarrow> nat \<Rightarrow> cd_op \<Rightarrow> bool" where
  "within window at token (CAllow now ch callers) = (now - at < window)"
| "within window at token (CRelease held) = (rs_token held \<noteq> token)"

lemma foldl_reserve:
  "foldl (\<lambda>m key. m(key \<mapsto> r)) m keys k = (if k \<in> set keys then Some r else m k)"
  by (induction keys arbitrary: m) auto

lemma foldl_release:
  "foldl (release_key token) m keys k =
     (if k \<in> set keys \<and> (\<exists>r. m k = Some r \<and> rv_token r = token) then None else m k)"
proof (induction keys arbitrary: m)
  case (Cons key keys)
  have one: "release_key token m key k = (if k = key \<and> (\<exists>r. m k = Some r \<and> rv_token r = token) then None else m k)"
    by (auto simp: release_key_def split: option.splits)
  show ?case unfolding foldl_Cons Cons one by auto
qed simp

lemma Allow_window [simp]: "cd_window (snd (Allow now ch callers c)) = cd_window c"
  by (simp add: Allow_def Let_def)

lemma Allow_last:
  assumes "Allow now ch callers c = (Some held, c1)"
  shows "rs_keys held = cooldownKeys ch callers" "cooldownKeys ch callers \<noteq> []"
    "\<forall>k\<in>set (cooldownKeys ch callers). cd_last c1 k = Some \<lparr>rv_at = now, rv_token = rs_token held\<rparr>"
    "cd_window c1 = cd_window c"
  using assms by (auto simp: Allow_def Let_def foldl_reserve split: if_splits)

lemma Allow_keeps:
  assumes "cd_last c k = Some r" "now - rv_at r < cd_window c"
  shows "cd_last (snd (Allow now ch callers c)) k = Some r"
proof -
  have "prune now c k = Some r" using assms by (simp add: prune_def)
  then show ?thesis using assms(1) by (auto simp: Allow_def Let_def foldl_reserve list_ex_iff)
qed

lemma Allow_refused:
  assumes "cd_last c k = Some r" "now - rv_at r < cd_window c" "k \<in> set (cooldownKeys ch callers)"
  shows "fst (Allow now ch callers c) = None"
proof -
  have "prune now c k = Some r" using assms by (simp add: prune_def)
  then show ?thesis using assms(3) by (auto simp: Allow_def Let_def list_ex_iff)
qed

lemma cd_step_keeps:
  assumes "within (cd_window c) (rv_at r) (rv_token r) a" "cd_last c k = Some r"
  shows "cd_last (cd_step a c) k = Some r \<and> cd_window (cd_step a c) = cd_window c"
proof (cases a)
  case (CAllow now ch callers)
  with assms Allow_keeps show ?thesis by simp
next
  case (CRelease held)
  with assms show ?thesis by (simp add: Release_def foldl_release)
qed

lemma cd_run_keeps:
  assumes "\<forall>a\<in>set as. within (cd_window c) (rv_at r) (rv_token r) a" "cd_last c k = Some r"
  shows "cd_last (fold cd_step as c) k = Some r \<and> cd_window (fold cd_step as c) = cd_window c"
  using assms
proof (induction as arbitrary: c)
  case (Cons a as)
  then have "cd_last (cd_step a c) k = Some r \<and> cd_window (cd_step a c) = cd_window c"
    using cd_step_keeps [of c r a k] by simp
  with Cons show ?case by simp
qed simp

section \<open>Properties\<close>

text \<open>
  Once a caller is granted an answer, every further request of the channel for one of its
  identities is refused while the window lasts, whatever other requests and releases come in
  between; and giving the reservation back frees its identities at once.
\<close>

lemma cooldown_window:
  assumes "Allow now ch callers c = (Some held, c1)"
    and "\<forall>a\<in>set as. within (cd_window c) now (rs_token held) a"
    and "now' - now < cd_window c" and "x \<in> set callers \<inter> set callers'" and "x \<noteq> []"
  shows "fst (Allow now' ch callers' (fold cd_step as c1)) = None \<and>
    fst (Allow now' ch callers (Release held (fold cd_step as c1))) \<noteq> None"
proof
  let ?r = "\<lparr>rv_at = now, rv_token = rs_token held\<rparr>"
  note al = Allow_last [OF assms(1)]
  have held: "cd_last (fold cd_step as c1) k = Some ?r \<and> cd_window (fold cd_step as c1) = cd_window c"
    if "k \<in> set (cooldownKeys ch callers)" for k
    using cd_run_keeps [of as c1 ?r k] al that assms(2) by simp
  have x: "ch @ ''|'' @ x \<in> set (cooldownKeys ch callers) \<inter> set (cooldownKeys ch callers')"
    using assms(4,5) by (simp add: cooldownKeys_def)
  with held assms(3) show "fst (Allow now' ch callers' (fold cd_step as c1)) = None"
    by (intro Allow_refused [of _ "ch @ ''|'' @ x" ?r]) auto
  have "cd_last (Release held (fold cd_step as c1)) k = None" if "k \<in> set (cooldownKeys ch callers)" for k
    using held [OF that] that al(1) by (simp add: Release_def foldl_release)
  then show "fst (Allow now' ch callers (Release held (fold cd_step as c1))) \<noteq> None"
    using al(2) by (auto simp: Allow_def Let_def list_ex_iff prune_def)
qed

end
