(* ===== verification/CallEvents.thy ===== *)
theory CallEvents
  imports StatusEvents
begin

text \<open>
  The vocabulary of calls: the phases, events and event payloads of internal/call/contracts.go, and
  the inbound event of internal/call/inbound.go. The picture of a caller is of an arbitrary type.
\<close>

section \<open>Phases\<close>

datatype Phase = PhaseIdle | PhaseCalling | PhaseRinging | PhaseConnecting | PhaseActive | PhaseEnded
  | PhaseWaitingRoom | PhaseOther int

fun Phase_String :: "Phase \<Rightarrow> string" where
  "Phase_String PhaseIdle = ''idle''"
| "Phase_String PhaseCalling = ''calling''"
| "Phase_String PhaseRinging = ''ringing''"
| "Phase_String PhaseConnecting = ''connecting''"
| "Phase_String PhaseActive = ''active''"
| "Phase_String PhaseEnded = ''ended''"
| "Phase_String PhaseWaitingRoom = ''waiting_room''"
| "Phase_String (PhaseOther n) = ''unknown''"

definition DirectionInbound :: string where "DirectionInbound = ''inbound''"
definition DirectionOutbound :: string where "DirectionOutbound = ''outbound''"

datatype event_type = EventIncoming | EventRinging | EventAccepted | EventRejected | EventEnded | EventRecording
  | EventState | EventVideo | EventReactionType | EventGroupState | EventWaitingRoom | EventHand
  | EventScreenShare | EventLinkCreated | EventLinkPreview | EventCommandAck | EventCommandFailed

fun event_type_name :: "event_type \<Rightarrow> string" where
  "event_type_name EventIncoming = ''incoming''"
| "event_type_name EventRinging = ''ringing''"
| "event_type_name EventAccepted = ''accepted''"
| "event_type_name EventRejected = ''rejected''"
| "event_type_name EventEnded = ''ended''"
| "event_type_name EventRecording = ''recording''"
| "event_type_name EventState = ''state''"
| "event_type_name EventVideo = ''video.state''"
| "event_type_name EventReactionType = ''reaction''"
| "event_type_name EventGroupState = ''group.state''"
| "event_type_name EventWaitingRoom = ''waitingroom.state''"
| "event_type_name EventHand = ''hand''"
| "event_type_name EventScreenShare = ''screenshare''"
| "event_type_name EventLinkCreated = ''link.created''"
| "event_type_name EventLinkPreview = ''link.preview''"
| "event_type_name EventCommandAck = ''command.ack''"
| "event_type_name EventCommandFailed = ''command.failed''"

lemma event_type_name_inj: "event_type_name a = event_type_name b \<longleftrightarrow> a = b"
  by (cases a; cases b) simp_all

datatype fail_code = CodeCallNotFound | CodeUnknownAction | CodeInvalidTarget | CodeActionFailed | CodeNoCaller
  | CodeMediaFetch | CodeRecordingUploadFailed

fun fail_code_name :: "fail_code \<Rightarrow> string" where
  "fail_code_name CodeCallNotFound = ''call_not_found''"
| "fail_code_name CodeUnknownAction = ''unknown_action''"
| "fail_code_name CodeInvalidTarget = ''invalid_target''"
| "fail_code_name CodeActionFailed = ''action_failed''"
| "fail_code_name CodeNoCaller = ''no_caller''"
| "fail_code_name CodeMediaFetch = ''media_fetch_failed''"
| "fail_code_name CodeRecordingUploadFailed = ''recording_upload_failed''"

section \<open>Payloads\<close>

record VideoState =
  vs_Active :: bool
  vs_Upgrade :: bool
  vs_Orientation :: int
  vs_Raw :: int

record Reaction =
  re_Emoji :: string
  re_ParticipantID :: string
  re_Sender :: string
  re_Removed :: bool

record CallParticipant =
  cp_JID :: string
  cp_PN :: string
  cp_State :: string
  cp_HandRaised :: bool

record GroupState =
  gs_TransactionID :: nat
  gs_Participants :: "CallParticipant list"

record WaitingRoomUser =
  wu_JID :: string
  wu_PN :: string
  wu_State :: string

record WaitingRoom =
  wr_Enabled :: bool
  wr_IsAdmin :: bool
  wr_InWaitingRoom :: bool
  wr_TransactionID :: nat
  wr_Users :: "WaitingRoomUser list"

record HandState =
  hs_Participant :: string
  hs_Raised :: bool

record ScreenShare =
  ss_Participant :: string
  ss_Active :: bool
  ss_Version :: nat

record Media =
  md_Key :: string
  md_MimeType :: string
  md_Filename :: string
  md_Duration :: int

record EventVideoState =
  vv_Active :: bool
  vv_Upgrade :: bool
  vv_Orientation :: int

record EventReaction =
  er_Emoji :: string
  er_Sender :: string
  er_Removed :: bool

record EventLink =
  el_Token :: string
  el_URL :: string
  el_Video :: bool
  el_ApprovalRequired :: bool
  el_IsAdmin :: bool

record EventError =
  ee_Code :: fail_code
  ee_Reason :: string

record Event =
  ev_PhoneNumberID :: string
  ev_TenantID :: string
  ev_ChannelID :: string
  ev_CallID :: string
  ev_CommandID :: string
  ev_From :: string
  ev_SenderLid :: string
  ev_SenderPn :: string
  ev_Direction :: string
  ev_Type :: event_type
  ev_Timestamp :: string
  ev_State :: string
  ev_IsVideo :: bool
  ev_Duration :: int
  ev_Reason :: string
  ev_Muted :: "bool option"
  ev_Media :: "Media option"
  ev_PeerMedia :: "Media option"
  ev_OperatorMedia :: "Media option"
  ev_VideoMedia :: "Media option"
  ev_Video :: "EventVideoState option"
  ev_Reaction :: "EventReaction option"
  ev_Group :: "GroupState option"
  ev_WaitingRoom :: "WaitingRoom option"
  ev_Hand :: "HandState option"
  ev_ScreenShare :: "ScreenShare option"
  ev_Link :: "EventLink option"
  ev_Error :: "EventError option"

record Identity =
  id_PhoneNumberID :: string
  id_TenantID :: string

section \<open>The inbound event of a call\<close>

record InboundCallRich =
  ir_Kind :: string
  ir_Direction :: string
  ir_IsVideo :: bool
  ir_State :: string

record 'p InboundCallEvent =
  ic_PhoneNumberID :: string
  ic_TenantID :: string
  ic_ChannelID :: string
  ic_From :: string
  ic_SenderLid :: string
  ic_SenderPn :: string
  ic_FromMe :: bool
  ic_ProviderMessageID :: string
  ic_Timestamp :: string
  ic_Type :: string
  ic_RichContent :: InboundCallRich
  ic_ProfilePicture :: "'p option"

definition NewInboundCallEvent ::
  "Identity \<Rightarrow> string \<Rightarrow> string \<Rightarrow> string \<Rightarrow> string \<Rightarrow> string \<Rightarrow> bool \<Rightarrow> bool \<Rightarrow> string \<Rightarrow> 'p option \<Rightarrow> 'p InboundCallEvent" where
  "NewInboundCallEvent ident channelID callID senderLid senderPn direction fromMe isVideo timestamp picture =
     \<lparr>ic_PhoneNumberID = id_PhoneNumberID ident, ic_TenantID = id_TenantID ident, ic_ChannelID = channelID,
      ic_From = sender_From senderLid senderPn, ic_SenderLid = senderLid, ic_SenderPn = senderPn, ic_FromMe = fromMe,
      ic_ProviderMessageID = callID, ic_Timestamp = timestamp, ic_Type = ''call'',
      ic_RichContent = \<lparr>ir_Kind = ''call'', ir_Direction = direction, ir_IsVideo = isVideo, ir_State = ''ringing''\<rparr>,
      ic_ProfilePicture = picture\<rparr>"

definition WithState :: "string \<Rightarrow> 'p InboundCallEvent \<Rightarrow> 'p InboundCallEvent" where
  "WithState state e = e\<lparr>ic_RichContent := (ic_RichContent e)\<lparr>ir_State := state\<rparr>\<rparr>"

end
