(* ===== verification/Recorder.thy ===== *)
theory Recorder
  imports CallEvents "HOL-Library.Word"
begin

text \<open>
  The recording of a call, internal/call/recorder.go: two rings of samples, the ticker that mixes a
  frame into three temporary WAV files, the video file, and the end that writes the headers, uploads
  and removes the files. Samples are of a type \<open>'f\<close> with the float operations the code uses as a
  record of parameters; the sample rate and the frame size are constants of the calling library.
  The disk is a map of temporary files; whether a disk or upload operation fails is decided by a
  world \<open>'w\<close>, and a failing write may have written a part.
\<close>

type_synonym bytes = "8 word list"

section \<open>Parameters\<close>

record 'f pcm_ops =
  po_zero :: 'f
  po_add :: "'f \<Rightarrow> 'f \<Rightarrow> 'f"
  po_from16 :: "16 word \<Rightarrow> 'f"
  po_above :: "'f \<Rightarrow> bool"
  po_below :: "'f \<Rightarrow> bool"
  po_one :: 'f
  po_minus_one :: 'f
  po_scale :: "'f \<Rightarrow> 16 word"
  po_SampleRate :: nat
  po_FrameSamples :: nat

record 'w disk_env =
  de_create :: "'w \<Rightarrow> goerr option \<times> 'w"
  de_write :: "'w \<Rightarrow> (goerr \<times> nat) option \<times> 'w"
  de_other :: "'w \<Rightarrow> goerr option \<times> 'w"
  de_put :: "string \<Rightarrow> string \<Rightarrow> bytes \<Rightarrow> 'w \<Rightarrow> goerr option \<times> 'w"

record 'w disk =
  dk_files :: "nat \<Rightarrow> bytes option"
  dk_next :: nat
  dk_uploads :: "(string \<times> string \<times> bytes) list"
  dk_world :: 'w

definition content :: "'w disk \<Rightarrow> nat \<Rightarrow> bytes" where
  "content d f = (case dk_files d f of None \<Rightarrow> [] | Some b \<Rightarrow> b)"

definition CreateTemp :: "'w disk_env \<Rightarrow> 'w disk \<Rightarrow> nat result \<times> 'w disk" where
  "CreateTemp env d =
     (case de_create env (dk_world d) of
        (Some err, w) \<Rightarrow> (Inl err, d\<lparr>dk_world := w\<rparr>)
      | (None, w) \<Rightarrow>
          (Inr (dk_next d), d\<lparr>dk_world := w, dk_next := Suc (dk_next d), dk_files := (dk_files d)(dk_next d \<mapsto> [])\<rparr>))"

definition file_Write :: "'w disk_env \<Rightarrow> nat \<Rightarrow> bytes \<Rightarrow> 'w disk \<Rightarrow> goerr option \<times> 'w disk" where
  "file_Write env f b d =
     (case de_write env (dk_world d) of
        (None, w) \<Rightarrow> (None, d\<lparr>dk_world := w, dk_files := (dk_files d)(f \<mapsto> content d f @ b)\<rparr>)
      | (Some (err, n), w) \<Rightarrow> (Some err, d\<lparr>dk_world := w, dk_files := (dk_files d)(f \<mapsto> content d f @ take n b)\<rparr>))"

definition file_set :: "'w disk_env \<Rightarrow> nat \<Rightarrow> bytes \<Rightarrow> 'w disk \<Rightarrow> goerr option \<times> 'w disk" where
  "file_set env f b d =
     (case de_other env (dk_world d) of
        (Some err, w) \<Rightarrow> (Some err, d\<lparr>dk_world := w\<rparr>)
      | (None, w) \<Rightarrow> (None, d\<lparr>dk_world := w, dk_files := (dk_files d)(f \<mapsto> b)\<rparr>))"

definition file_Truncate :: "'w disk_env \<Rightarrow> nat \<Rightarrow> nat \<Rightarrow> 'w disk \<Rightarrow> goerr option \<times> 'w disk" where
  "file_Truncate env f n d =
     file_set env f (take n (content d f) @ replicate (n - length (content d f)) 0) d"

definition file_WriteAt0 :: "'w disk_env \<Rightarrow> nat \<Rightarrow> bytes \<Rightarrow> 'w disk \<Rightarrow> goerr option \<times> 'w disk" where
  "file_WriteAt0 env f b d = file_set env f (b @ drop (length b) (content d f)) d"

definition file_Seek :: "'w disk_env \<Rightarrow> nat \<Rightarrow> 'w disk \<Rightarrow> goerr option \<times> 'w disk" where
  "file_Seek env f d = (case de_other env (dk_world d) of (r, w) \<Rightarrow> (r, d\<lparr>dk_world := w\<rparr>))"

definition PutStream :: "'w disk_env \<Rightarrow> string \<Rightarrow> string \<Rightarrow> nat \<Rightarrow> 'w disk \<Rightarrow> goerr option \<times> 'w disk" where
  "PutStream env key mime f d =
     (case de_put env key mime (content d f) (dk_world d) of
        (r, w) \<Rightarrow> (r, d\<lparr>dk_world := w, dk_uploads := dk_uploads d @ [(key, mime, content d f)]\<rparr>))"

definition cleanup :: "nat \<Rightarrow> 'w disk \<Rightarrow> 'w disk" where
  "cleanup f d = d\<lparr>dk_files := (dk_files d)(f := None)\<rparr>"

section \<open>The rings\<close>

definition recorderRingSamples :: "'f pcm_ops \<Rightarrow> nat" where
  "recorderRingSamples ops = 50 * po_FrameSamples ops"

definition ring_trim :: "'f pcm_ops \<Rightarrow> 'f list \<Rightarrow> 'f list" where
  "ring_trim ops samples = drop (length samples - recorderRingSamples ops) samples"

definition ring_write :: "'f pcm_ops \<Rightarrow> 'f list \<Rightarrow> 'f list \<Rightarrow> 'f list" where
  "ring_write ops frame samples = ring_trim ops (samples @ frame)"

fun samples16 :: "'f pcm_ops \<Rightarrow> bytes \<Rightarrow> 'f list" where
  "samples16 ops (lo # hi # rest) = po_from16 ops (ucast lo + 256 * ucast hi) # samples16 ops rest"
| "samples16 ops _ = []"

definition ring_write16 :: "'f pcm_ops \<Rightarrow> bytes \<Rightarrow> 'f list \<Rightarrow> 'f list" where
  "ring_write16 ops frame samples = ring_trim ops (samples @ samples16 ops frame)"

definition ring_take :: "'f pcm_ops \<Rightarrow> 'f list \<Rightarrow> 'f list \<times> 'f list" where
  "ring_take ops samples =
     (let n = po_FrameSamples ops in
      (take n samples @ replicate (n - length samples) (po_zero ops), drop n samples))"

section \<open>The recorder\<close>

text \<open>
  \<open>rc_tracks\<close> holds mixFile, peerFile and operatorFile, which the code only ever sets together.
\<close>

record 'f Recorder =
  rc_channelID :: string
  rc_callID :: string
  rc_peer :: "'f list"
  rc_operator :: "'f list"
  rc_started :: bool
  rc_closing :: bool
  rc_tracks :: "(nat \<times> nat \<times> nat) option"
  rc_frames :: "32 word"
  rc_audioErr :: "goerr option"
  rc_videoFile :: "nat option"
  rc_videoLen :: nat
  rc_videoErr :: "goerr option"
  rc_videoClosed :: bool

definition NewRecorder :: "string \<Rightarrow> string \<Rightarrow> 'f Recorder" where
  "NewRecorder channelID callID =
     \<lparr>rc_channelID = channelID, rc_callID = callID, rc_peer = [], rc_operator = [], rc_started = False, rc_closing = False,
      rc_tracks = None, rc_frames = 0, rc_audioErr = None,
      rc_videoFile = None, rc_videoLen = 0, rc_videoErr = None, rc_videoClosed = False\<rparr>"

definition AudioKey :: "'f Recorder \<Rightarrow> string" where
  "AudioKey r = ''calls/'' @ rc_channelID r @ ''/'' @ rc_callID r @ ''.wav''"

definition PeerAudioKey :: "'f Recorder \<Rightarrow> string" where
  "PeerAudioKey r = ''calls/'' @ rc_channelID r @ ''/'' @ rc_callID r @ ''-peer.wav''"

definition OperatorAudioKey :: "'f Recorder \<Rightarrow> string" where
  "OperatorAudioKey r = ''calls/'' @ rc_channelID r @ ''/'' @ rc_callID r @ ''-operator.wav''"

definition VideoKey :: "'f Recorder \<Rightarrow> string" where
  "VideoKey r = ''calls/'' @ rc_channelID r @ ''/'' @ rc_callID r @ ''.h264''"

text \<open>The goroutine that \<open>startLocked\<close> starts is the operation \<open>RTick\<close> below, enabled by \<open>rc_started\<close>.\<close>

definition WritePeerAudio :: "'f pcm_ops \<Rightarrow> 'f list \<Rightarrow> 'f Recorder \<Rightarrow> 'f Recorder" where
  "WritePeerAudio ops frame r =
     (if frame = [] \<or> rc_closing r then r
      else r\<lparr>rc_peer := ring_write ops frame (rc_peer r), rc_started := True\<rparr>)"

definition WriteOperatorAudio :: "'f pcm_ops \<Rightarrow> bytes \<Rightarrow> 'f Recorder \<Rightarrow> 'f Recorder" where
  "WriteOperatorAudio ops frame r =
     (if length frame < 2 \<or> rc_closing r then r
      else r\<lparr>rc_operator := ring_write16 ops frame (rc_operator r), rc_started := True\<rparr>)"

definition pcmS16 :: "'f pcm_ops \<Rightarrow> 'f \<Rightarrow> 16 word" where
  "pcmS16 ops sample =
     po_scale ops (if po_above ops sample then po_one ops else if po_below ops sample then po_minus_one ops else sample)"

definition le16 :: "16 word \<Rightarrow> bytes" where
  "le16 v = [ucast v, ucast (drop_bit 8 v)]"

definition le32 :: "32 word \<Rightarrow> bytes" where
  "le32 v = [ucast v, ucast (drop_bit 8 v), ucast (drop_bit 16 v), ucast (drop_bit 24 v)]"

definition pcm_of :: "'f pcm_ops \<Rightarrow> 'f list \<Rightarrow> bytes" where
  "pcm_of ops frame = concat (map (\<lambda>s. le16 (pcmS16 ops s)) frame)"

definition writeTrack :: "'f pcm_ops \<Rightarrow> 'w disk_env \<Rightarrow> nat \<Rightarrow> 'f list \<Rightarrow> 'w disk \<Rightarrow> goerr option \<times> 'w disk" where
  "writeTrack ops env f frame d =
     (case file_Write env f (pcm_of ops frame) d of
        (Some err, d1) \<Rightarrow> (Some (Wrap ''call: write audio frame: '' err []), d1)
      | (None, d1) \<Rightarrow> (None, d1))"

definition wavHeaderSize :: nat where "wavHeaderSize = 44"

definition openTrack :: "'w disk_env \<Rightarrow> 'w disk \<Rightarrow> nat result \<times> 'w disk" where
  "openTrack env d =
     (case CreateTemp env d of
        (Inl err, d1) \<Rightarrow> (Inl (Wrap ''call: create audio recording: '' err []), d1)
      | (Inr f, d1) \<Rightarrow>
          (case file_Write env f (replicate wavHeaderSize 0) d1 of
             (Some err, d2) \<Rightarrow> (Inl (Wrap ''call: write audio header: '' err []), cleanup f d2)
           | (None, d2) \<Rightarrow> (Inr f, d2)))"

definition openTracks :: "'w disk_env \<Rightarrow> 'w disk \<Rightarrow> (nat \<times> nat \<times> nat) result \<times> 'w disk" where
  "openTracks env d =
     (case openTrack env d of
        (Inl err, d1) \<Rightarrow> (Inl err, d1)
      | (Inr mix, d1) \<Rightarrow>
          (case openTrack env d1 of
             (Inl err, d2) \<Rightarrow> (Inl err, cleanup mix d2)
           | (Inr peer, d2) \<Rightarrow>
               (case openTrack env d2 of
                  (Inl err, d3) \<Rightarrow> (Inl err, cleanup peer (cleanup mix d3))
                | (Inr operator, d3) \<Rightarrow> (Inr (mix, peer, operator), d3))))"

fun write_tracks :: "'f pcm_ops \<Rightarrow> 'w disk_env \<Rightarrow> (nat \<times> 'f list) list \<Rightarrow> 'w disk \<Rightarrow> goerr option \<times> 'w disk" where
  "write_tracks ops env [] d = (None, d)"
| "write_tracks ops env ((f, frame) # ts) d =
     (case writeTrack ops env f frame d of
        (Some err, d1) \<Rightarrow> (Some err, d1)
      | (None, d1) \<Rightarrow> write_tracks ops env ts d1)"

text \<open>The second half of \<open>writeFrame\<close>, once the three files are open.\<close>

definition write_mixed ::
  "'f pcm_ops \<Rightarrow> 'w disk_env \<Rightarrow> 'f list \<Rightarrow> 'f list \<Rightarrow> nat \<times> nat \<times> nat \<Rightarrow> 'f Recorder \<Rightarrow> 'w disk \<Rightarrow> 'f Recorder \<times> 'w disk" where
  "write_mixed ops env peerFrame operatorFrame fs r d =
     (case fs of (mix, peer, operator) \<Rightarrow>
        case write_tracks ops env [(mix, map2 (po_add ops) peerFrame operatorFrame), (peer, peerFrame), (operator, operatorFrame)] d of
          (Some err, d1) \<Rightarrow> (r\<lparr>rc_audioErr := Some err\<rparr>, d1)
        | (None, d1) \<Rightarrow> (r\<lparr>rc_frames := rc_frames r + 1\<rparr>, d1))"

definition writeFrame :: "'f pcm_ops \<Rightarrow> 'w disk_env \<Rightarrow> 'f Recorder \<Rightarrow> 'w disk \<Rightarrow> 'f Recorder \<times> 'w disk" where
  "writeFrame ops env r d =
     (if rc_audioErr r \<noteq> None then (r, d)
      else
        (case (ring_take ops (rc_peer r), ring_take ops (rc_operator r)) of
           ((peerFrame, peer'), (operatorFrame, operator')) \<Rightarrow>
             (let r1 = r\<lparr>rc_peer := peer', rc_operator := operator'\<rparr> in
              case rc_tracks r1 of
                Some fs \<Rightarrow> write_mixed ops env peerFrame operatorFrame fs r1 d
              | None \<Rightarrow>
                  (case openTracks env d of
                     (Inl err, d1) \<Rightarrow> (r1\<lparr>rc_audioErr := Some err\<rparr>, d1)
                   | (Inr fs, d1) \<Rightarrow> write_mixed ops env peerFrame operatorFrame fs (r1\<lparr>rc_tracks := Some fs\<rparr>) d1))))"

text \<open>
  The loop of \<open>drain\<close>. One round takes a frame from each ring, so as many rounds as there are samples
  are enough when a frame has at least one sample.
\<close>

fun drain_rounds :: "nat \<Rightarrow> 'f pcm_ops \<Rightarrow> 'w disk_env \<Rightarrow> 'f Recorder \<Rightarrow> 'w disk \<Rightarrow> 'f Recorder \<times> 'w disk" where
  "drain_rounds 0 ops env r d = (r, d)"
| "drain_rounds (Suc n) ops env r d =
     (if rc_audioErr r \<noteq> None \<or> (rc_peer r = [] \<and> rc_operator r = []) then (r, d)
      else (case writeFrame ops env r d of (r1, d1) \<Rightarrow> drain_rounds n ops env r1 d1))"

definition drain :: "'f pcm_ops \<Rightarrow> 'w disk_env \<Rightarrow> 'f Recorder \<Rightarrow> 'w disk \<Rightarrow> 'f Recorder \<times> 'w disk" where
  "drain ops env r d = drain_rounds (length (rc_peer r) + length (rc_operator r)) ops env r d"

definition WriteVideo_file :: "'w disk_env \<Rightarrow> bytes \<Rightarrow> nat \<Rightarrow> 'f Recorder \<Rightarrow> 'w disk \<Rightarrow> 'f Recorder \<times> 'w disk" where
  "WriteVideo_file env accessUnit f r d =
     (case file_Write env f accessUnit d of
        (Some err, d1) \<Rightarrow> (r\<lparr>rc_videoErr := Some (Wrap ''call: write video frame: '' err [])\<rparr>, d1)
      | (None, d1) \<Rightarrow> (r\<lparr>rc_videoLen := rc_videoLen r + length accessUnit\<rparr>, d1))"

definition Recorder_WriteVideo :: "'w disk_env \<Rightarrow> bytes \<Rightarrow> 'f Recorder \<Rightarrow> 'w disk \<Rightarrow> 'f Recorder \<times> 'w disk" where
  "Recorder_WriteVideo env accessUnit r d =
     (if accessUnit = [] \<or> rc_videoClosed r \<or> rc_videoErr r \<noteq> None then (r, d)
      else
        (case rc_videoFile r of
           Some f \<Rightarrow> WriteVideo_file env accessUnit f r d
         | None \<Rightarrow>
             (case CreateTemp env d of
                (Inl err, d1) \<Rightarrow> (r\<lparr>rc_videoErr := Some (Wrap ''call: create video recording: '' err [])\<rparr>, d1)
              | (Inr f, d1) \<Rightarrow> WriteVideo_file env accessUnit f (r\<lparr>rc_videoFile := Some f\<rparr>) d1)))"

definition ascii :: "string \<Rightarrow> bytes" where
  "ascii s = map (\<lambda>c. of_nat (of_char c)) s"

definition wavHeader :: "nat \<Rightarrow> 32 word \<Rightarrow> bytes" where
  "wavHeader sampleRate dataLen =
     ascii ''RIFF'' @ le32 (36 + dataLen) @ ascii ''WAVE'' @ ascii ''fmt '' @ le32 16 @ le16 1 @ le16 1 @
     le32 (of_nat sampleRate) @ le32 (of_nat (sampleRate * 2)) @ le16 2 @ le16 16 @ ascii ''data'' @ le32 dataLen"

lemma length_wavHeader [simp]: "length (wavHeader rate n) = wavHeaderSize"
  by (simp add: wavHeader_def wavHeaderSize_def le32_def le16_def ascii_def)

section \<open>The end of a recording\<close>

record Recording =
  rec_Audio :: "Media option"
  rec_PeerAudio :: "Media option"
  rec_OperatorAudio :: "Media option"
  rec_Video :: "Media option"

definition emptyRecording :: Recording where
  "emptyRecording = \<lparr>rec_Audio = None, rec_PeerAudio = None, rec_OperatorAudio = None, rec_Video = None\<rparr>"

definition finishTrack ::
  "'f pcm_ops \<Rightarrow> 'w disk_env \<Rightarrow> nat option \<Rightarrow> string \<Rightarrow> string \<Rightarrow> 32 word \<Rightarrow> 'w disk \<Rightarrow> (Media option \<times> goerr option) \<times> 'w disk" where
  "finishTrack ops env fo key filename dataLen d =
     (case fo of
        None \<Rightarrow> ((None, None), d)
      | Some f \<Rightarrow>
          if dataLen = 0 then ((None, None), cleanup f d)
          else
            (case file_Truncate env f (unat (of_nat wavHeaderSize + dataLen :: 32 word)) d of
               (Some err, d1) \<Rightarrow> ((None, Some (Wrap ''call: truncate audio recording: '' err [])), cleanup f d1)
             | (None, d1) \<Rightarrow>
                 (case file_WriteAt0 env f (wavHeader (po_SampleRate ops) dataLen) d1 of
                    (Some err, d2) \<Rightarrow> ((None, Some (Wrap ''call: finalize wav header: '' err [])), cleanup f d2)
                  | (None, d2) \<Rightarrow>
                      (case file_Seek env f d2 of
                         (Some err, d3) \<Rightarrow> ((None, Some (Wrap ''call: rewind audio recording: '' err [])), cleanup f d3)
                       | (None, d3) \<Rightarrow>
                           (case PutStream env key ''audio/wav'' f d3 of
                              (Some err, d4) \<Rightarrow>
                                ((None, Some (Wrap ''call: upload audio recording: '' err [])), cleanup f d4)
                            | (None, d4) \<Rightarrow>
                                ((Some \<lparr>md_Key = key, md_MimeType = ''audio/wav'', md_Filename = filename,
                                   md_Duration = int (unat dataLen div (po_SampleRate ops * 2))\<rparr>, None), cleanup f d4))))))"

definition finishVideo ::
  "'f Recorder \<Rightarrow> 'w disk_env \<Rightarrow> nat option \<Rightarrow> nat \<Rightarrow> 'w disk \<Rightarrow> (Media option \<times> goerr option) \<times> 'w disk" where
  "finishVideo r env fo dataLen d =
     (case fo of
        None \<Rightarrow> ((None, None), d)
      | Some f \<Rightarrow>
          if dataLen = 0 then ((None, None), cleanup f d)
          else
            (case file_Seek env f d of
               (Some err, d1) \<Rightarrow> ((None, Some (Wrap ''call: rewind video recording: '' err [])), cleanup f d1)
             | (None, d1) \<Rightarrow>
                 (case PutStream env (VideoKey r) ''video/h264'' f d1 of
                    (Some err, d2) \<Rightarrow> ((None, Some (Wrap ''call: upload video recording: '' err [])), cleanup f d2)
                  | (None, d2) \<Rightarrow>
                      ((Some \<lparr>md_Key = VideoKey r, md_MimeType = ''video/h264'', md_Filename = rc_callID r @ ''.h264'',
                         md_Duration = 0\<rparr>, None), cleanup f d2))))"

definition errors_Join :: "goerr option list \<Rightarrow> goerr option" where
  "errors_Join es = (case List.map_filter (\<lambda>x. x) es of [] \<Rightarrow> None | es' \<Rightarrow> Some (Join es'))"

text \<open>The files of an open recording; the pointers stay in the recorder after they are removed.\<close>

definition Finish :: "'f pcm_ops \<Rightarrow> 'w disk_env \<Rightarrow> 'f Recorder \<Rightarrow> 'w disk \<Rightarrow> (Recording \<times> goerr option) \<times> 'f Recorder \<times> 'w disk" where
  "Finish ops env r d =
     (if rc_closing r then ((emptyRecording, None), r, d)
      else
        (case (if rc_started r then drain ops env (r\<lparr>rc_closing := True\<rparr>) d else (r\<lparr>rc_closing := True\<rparr>, d)) of (r1, d1) \<Rightarrow>
           (let r2 = r1\<lparr>rc_videoClosed := True\<rparr>;
                dataLen = rc_frames r2 * of_nat (po_FrameSamples ops) * 2 in
            case finishTrack ops env (map_option fst (rc_tracks r2)) (AudioKey r2) (rc_callID r2 @ ''.wav'') dataLen d1 of ((m1, e1), d2) \<Rightarrow>
            case finishTrack ops env (map_option (fst \<circ> snd) (rc_tracks r2)) (PeerAudioKey r2) (rc_callID r2 @ ''-peer.wav'') dataLen d2 of ((m2, e2), d3) \<Rightarrow>
            case finishTrack ops env (map_option (snd \<circ> snd) (rc_tracks r2)) (OperatorAudioKey r2) (rc_callID r2 @ ''-operator.wav'') dataLen d3 of ((m3, e3), d4) \<Rightarrow>
            case finishVideo r2 env (rc_videoFile r2) (rc_videoLen r2) d4 of ((m4, e4), d5) \<Rightarrow>
              ((\<lparr>rec_Audio = m1, rec_PeerAudio = m2, rec_OperatorAudio = m3, rec_Video = m4\<rparr>,
                errors_Join [rc_audioErr r2, rc_videoErr r2, e1, e2, e3, e4]), r2, d5))))"

section \<open>Executions\<close>

datatype 'f rec_op = RPeer "'f list" | ROperator bytes | RTick | RVideo bytes

fun rec_step :: "'f pcm_ops \<Rightarrow> 'w disk_env \<Rightarrow> 'f rec_op \<Rightarrow> 'f Recorder \<times> 'w disk \<Rightarrow> 'f Recorder \<times> 'w disk" where
  "rec_step ops env (RPeer frame) (r, d) = (WritePeerAudio ops frame r, d)"
| "rec_step ops env (ROperator frame) (r, d) = (WriteOperatorAudio ops frame r, d)"
| "rec_step ops env RTick (r, d) = (if rc_started r \<and> \<not> rc_closing r then writeFrame ops env r d else (r, d))"
| "rec_step ops env (RVideo u) (r, d) = Recorder_WriteVideo env u r d"

definition rec_run :: "'f pcm_ops \<Rightarrow> 'w disk_env \<Rightarrow> 'f rec_op list \<Rightarrow> 'f Recorder \<times> 'w disk \<Rightarrow> 'f Recorder \<times> 'w disk" where
  "rec_run ops env acts s = fold (rec_step ops env) acts s"

section \<open>Files\<close>

definition disk_wf :: "'w disk \<Rightarrow> bool" where
  "disk_wf d \<longleftrightarrow> (\<forall>f\<ge>dk_next d. dk_files d f = None)"

text \<open>Only the file \<open>f\<close> is written, and nothing is uploaded or created.\<close>

definition writes_only :: "nat \<Rightarrow> 'w disk \<Rightarrow> 'w disk \<Rightarrow> bool" where
  "writes_only f d d' \<longleftrightarrow> (\<exists>b. dk_files d' = (dk_files d)(f := b)) \<and> dk_next d' = dk_next d \<and> dk_uploads d' = dk_uploads d"

lemma CreateTemp_cases:
  "CreateTemp env d = (r, d') \<Longrightarrow> dk_uploads d' = dk_uploads d \<and>
     (case r of Inl e \<Rightarrow> dk_files d' = dk_files d \<and> dk_next d' = dk_next d
      | Inr f \<Rightarrow> f = dk_next d \<and> dk_files d' = (dk_files d)(f \<mapsto> []) \<and> dk_next d' = Suc (dk_next d))"
  by (auto simp: CreateTemp_def split: prod.splits option.splits)

lemma file_Write_cases:
  "file_Write env f b d = (r, d') \<Longrightarrow> writes_only f d d' \<and> (\<exists>junk. content d' f = content d f @ junk) \<and>
     (r = None \<longrightarrow> content d' f = content d f @ b)"
  by (auto simp: file_Write_def writes_only_def content_def split: prod.splits option.splits)

lemma content_other: "writes_only f d d' \<Longrightarrow> g \<noteq> f \<Longrightarrow> content d' g = content d g"
  by (auto simp: writes_only_def content_def)

lemma openTrack_cases:
  assumes "openTrack env d = (r, d')" "disk_wf d"
  shows "disk_wf d' \<and> dk_uploads d' = dk_uploads d \<and> dk_next d \<le> dk_next d' \<and>
     (case r of Inl e \<Rightarrow> dk_files d' = dk_files d
      | Inr f \<Rightarrow> f = dk_next d \<and> dk_next d' = Suc f \<and> dk_files d' = (dk_files d)(f \<mapsto> replicate wavHeaderSize 0))"
proof -
  obtain c d1 where c: "CreateTemp env d = (c, d1)" by (cases "CreateTemp env d")
  note cc = CreateTemp_cases [OF c]
  show ?thesis
  proof (cases c)
    case (Inl e)
    then show ?thesis using assms c cc by (auto simp: openTrack_def disk_wf_def)
  next
    case (Inr f)
    obtain e d2 where w: "file_Write env f (replicate wavHeaderSize 0) d1 = (e, d2)"
      by (cases "file_Write env f (replicate wavHeaderSize 0) d1")
    note ww = file_Write_cases [OF w]
    from Inr cc have f: "f = dk_next d" "dk_files d1 = (dk_files d)(f \<mapsto> [])" "dk_next d1 = Suc f" by simp_all
    from ww obtain b where b: "dk_files d2 = (dk_files d1)(f := b)" "dk_next d2 = dk_next d1" "dk_uploads d2 = dk_uploads d1"
      by (auto simp: writes_only_def)
    show ?thesis
    proof (cases e)
      case (Some err)
      have "dk_files d f = None" using assms(2) f(1) by (simp add: disk_wf_def)
      then have "(dk_files d)(f := None) = dk_files d" by auto
      then show ?thesis using Some Inr assms c w f b cc by (auto simp: openTrack_def cleanup_def disk_wf_def)
    next
      case None
      then have "content d2 f = replicate wavHeaderSize 0" using ww f by (simp add: content_def)
      then have "b = Some (replicate wavHeaderSize 0)"
        using b(1) by (auto simp: content_def wavHeaderSize_def numeral_eq_Suc split: option.splits)
      then show ?thesis using None Inr assms c w f b cc by (auto simp: openTrack_def disk_wf_def)
    qed
  qed
qed

lemma openTracks_cases:
  assumes "openTracks env d = (r, d')" "disk_wf d"
  shows "disk_wf d' \<and> dk_uploads d' = dk_uploads d \<and> dk_next d \<le> dk_next d' \<and>
     (case r of Inl e \<Rightarrow> dk_files d' = dk_files d
      | Inr (m, p, q) \<Rightarrow> m = dk_next d \<and> p = Suc m \<and> q = Suc p \<and> dk_next d' = Suc q \<and>
          dk_files d' = (dk_files d)(m \<mapsto> replicate wavHeaderSize 0, p \<mapsto> replicate wavHeaderSize 0, q \<mapsto> replicate wavHeaderSize 0))"
proof -
  obtain r1 d1 where 1: "openTrack env d = (r1, d1)" by (cases "openTrack env d")
  note c1 = openTrack_cases [OF 1 assms(2)]
  show ?thesis
  proof (cases r1)
    case (Inl e)
    then show ?thesis using assms 1 c1 by (auto simp: openTracks_def)
  next
    case (Inr m)
    with c1 have m: "m = dk_next d" "disk_wf d1" "dk_next d1 = Suc m" "dk_files d1 = (dk_files d)(m \<mapsto> replicate wavHeaderSize 0)"
      "dk_uploads d1 = dk_uploads d" by auto
    have dm: "dk_files d m = None" using assms(2) m by (simp add: disk_wf_def)
    obtain r2 d2 where 2: "openTrack env d1 = (r2, d2)" by (cases "openTrack env d1")
    note c2 = openTrack_cases [OF 2 m(2)]
    show ?thesis
    proof (cases r2)
      case (Inl e)
      have "d' = cleanup m d2" "r = Inl e" using assms 1 Inr 2 Inl by (auto simp: openTracks_def)
      then show ?thesis using c2 Inl m dm by (auto simp: cleanup_def disk_wf_def)
    next
      case R2: (Inr p)
      with c2 have p: "p = Suc m" "disk_wf d2" "dk_next d2 = Suc p" "dk_uploads d2 = dk_uploads d"
        "dk_files d2 = (dk_files d)(m \<mapsto> replicate wavHeaderSize 0, p \<mapsto> replicate wavHeaderSize 0)" using m by auto
      have dp: "dk_files d p = None" using assms(2) m(1) p(1) by (simp add: disk_wf_def)
      obtain r3 d3 where 3: "openTrack env d2 = (r3, d3)" by (cases "openTrack env d2")
      note c3 = openTrack_cases [OF 3 p(2)]
      show ?thesis
      proof (cases r3)
        case (Inl e)
        have "d' = cleanup p (cleanup m d3)" "r = Inl e" using assms 1 Inr 2 R2 3 Inl by (auto simp: openTracks_def)
        then show ?thesis using c3 Inl m p dm dp by (auto simp: cleanup_def disk_wf_def)
      next
        case R3: (Inr q)
        have "d' = d3" "r = Inr (m, p, q)" using assms 1 Inr 2 R2 3 R3 by (auto simp: openTracks_def)
        then show ?thesis using c3 R3 m p by auto
      qed
    qed
  qed
qed

section \<open>The invariant of a recording\<close>

definition own :: "'f Recorder \<Rightarrow> nat set" where
  "own r = (case rc_tracks r of None \<Rightarrow> {} | Some (m, p, q) \<Rightarrow> {m, p, q}) \<union> set_option (rc_videoFile r)"

text \<open>The file holds the header's place, the frames, and after a failed write possibly a part of a frame.\<close>

definition track_holds :: "'f pcm_ops \<Rightarrow> 'w disk \<Rightarrow> bool \<Rightarrow> nat \<Rightarrow> 'f list list \<Rightarrow> bool" where
  "track_holds ops d ok f frames \<longleftrightarrow>
     (\<exists>junk. content d f = replicate wavHeaderSize 0 @ concat (map (pcm_of ops) frames) @ junk \<and> (ok \<longrightarrow> junk = []))"

definition mixes :: "'f pcm_ops \<Rightarrow> 'f list list \<Rightarrow> 'f list list \<Rightarrow> 'f list list" where
  "mixes ops ps qs = map2 (map2 (po_add ops)) ps qs"

definition tracks_ok :: "'f pcm_ops \<Rightarrow> 'f Recorder \<Rightarrow> 'w disk \<Rightarrow> bool" where
  "tracks_ok ops r d \<longleftrightarrow>
     (case rc_tracks r of
        None \<Rightarrow> rc_frames r = 0
      | Some (m, p, q) \<Rightarrow> distinct [m, p, q] \<and> rc_videoFile r \<notin> Some ` {m, p, q} \<and>
          (\<exists>ps qs. length ps = length qs \<and> rc_frames r = of_nat (length ps) \<and>
             (\<forall>x\<in>set ps \<union> set qs. length x = po_FrameSamples ops) \<and>
             track_holds ops d (rc_audioErr r = None) m (mixes ops ps qs) \<and>
             track_holds ops d (rc_audioErr r = None) p ps \<and> track_holds ops d (rc_audioErr r = None) q qs))"

definition rec_inv :: "'f pcm_ops \<Rightarrow> 'w disk \<Rightarrow> 'f Recorder \<times> 'w disk \<Rightarrow> bool" where
  "rec_inv ops d0 s \<longleftrightarrow>
     (case s of (r, d) \<Rightarrow>
        disk_wf d \<and> dk_next d0 \<le> dk_next d \<and> own r \<subseteq> {dk_next d0..<dk_next d} \<and>
        (\<forall>f. f \<notin> own r \<longrightarrow> dk_files d f = dk_files d0 f) \<and> dk_uploads d = dk_uploads d0 \<and> tracks_ok ops r d)"

lemma track_holds_other:
  "writes_only f d d' \<Longrightarrow> g \<noteq> f \<Longrightarrow> track_holds ops d' ok g frames = track_holds ops d ok g frames"
  by (simp add: track_holds_def content_other)

lemma track_holds_weaken: "track_holds ops d True f frames \<Longrightarrow> track_holds ops d ok f frames"
  by (auto simp: track_holds_def)

lemma writeTrack_cases:
  assumes "writeTrack ops env f frame d = (r, d')" "track_holds ops d True f frames"
  shows "writes_only f d d' \<and> track_holds ops d' False f frames \<and> (r = None \<longrightarrow> track_holds ops d' True f (frames @ [frame]))"
proof -
  obtain e where w: "file_Write env f (pcm_of ops frame) d = (e, d')" "r = None \<longleftrightarrow> e = None"
    using assms(1) by (auto simp: writeTrack_def split: prod.splits option.splits)
  from file_Write_cases [OF w(1)] assms(2) w(2) show ?thesis by (auto simp: track_holds_def)
qed

lemma writes_only_wf: "writes_only f d d' \<Longrightarrow> disk_wf d \<Longrightarrow> f < dk_next d \<Longrightarrow> disk_wf d'"
  by (auto simp: writes_only_def disk_wf_def)

lemma write_tracks_cases:
  assumes "write_tracks ops env [(m, fm), (p, fp), (q, fq)] d = (r, d')" "distinct [m, p, q]"
    and "track_holds ops d True m ms" "track_holds ops d True p ps" "track_holds ops d True q qs"
  shows "(\<forall>f. f \<notin> {m, p, q} \<longrightarrow> dk_files d' f = dk_files d f) \<and> dk_next d' = dk_next d \<and> dk_uploads d' = dk_uploads d \<and>
    track_holds ops d' False m ms \<and> track_holds ops d' False p ps \<and> track_holds ops d' False q qs \<and>
    (r = None \<longrightarrow> track_holds ops d' True m (ms @ [fm]) \<and> track_holds ops d' True p (ps @ [fp]) \<and>
       track_holds ops d' True q (qs @ [fq]))"
proof -
  obtain r1 d1 where 1: "writeTrack ops env m fm d = (r1, d1)" by (cases "writeTrack ops env m fm d")
  note w1 = writeTrack_cases [OF 1 assms(3)]
  then have o1: "track_holds ops d1 True p ps" "track_holds ops d1 True q qs"
    using assms track_holds_other [of m d d1 _ ops] by auto
  show ?thesis
  proof (cases r1)
    case (Some err)
    then have "d' = d1" "r = Some err" using assms(1) 1 by simp_all
    then show ?thesis using w1 o1 by (auto simp: writes_only_def intro: track_holds_weaken)
  next
    case None
    obtain r2 d2 where 2: "writeTrack ops env p fp d1 = (r2, d2)" by (cases "writeTrack ops env p fp d1")
    note w2 = writeTrack_cases [OF 2 o1(1)]
    then have o2: "track_holds ops d2 True q qs" "track_holds ops d2 True m (ms @ [fm])" "track_holds ops d2 False m ms"
      using assms w1 o1 None track_holds_other [of p d1 d2 _ ops] by auto
    show ?thesis
    proof (cases r2)
      case (Some err)
      then have "d' = d2" "r = Some err" using assms(1) 1 2 None by simp_all
      then show ?thesis using w1 w2 o2 by (auto simp: writes_only_def intro: track_holds_weaken)
    next
      case N2: None
      obtain r3 d3 where 3: "writeTrack ops env q fq d2 = (r3, d3)" by (cases "writeTrack ops env q fq d2")
      note w3 = writeTrack_cases [OF 3 o2(1)]
      have "d' = d3" "r = r3" using assms(1) 1 2 3 None N2 by (simp_all split: option.splits)
      moreover have "track_holds ops d3 True m (ms @ [fm])" "track_holds ops d3 False m ms"
        "track_holds ops d3 True p (ps @ [fp])" "track_holds ops d3 False p ps"
        using assms(2) w2 w3 o2 N2 track_holds_other [of q d2 d3 _ ops] by auto
      ultimately show ?thesis using w1 w2 w3 by (auto simp: writes_only_def)
    qed
  qed
qed

lemma own_simps [simp]:
  "own (r\<lparr>rc_frames := n\<rparr>) = own r" "own (r\<lparr>rc_audioErr := e\<rparr>) = own r" "own (r\<lparr>rc_peer := a, rc_operator := b\<rparr>) = own r"
  "own (r\<lparr>rc_closing := c\<rparr>) = own r" "own (r\<lparr>rc_videoErr := e\<rparr>) = own r" "own (r\<lparr>rc_videoLen := l\<rparr>) = own r"
  "own (r\<lparr>rc_peer := a, rc_started := b'\<rparr>) = own r" "own (r\<lparr>rc_operator := b, rc_started := b'\<rparr>) = own r"
  "own (r\<lparr>rc_videoClosed := c\<rparr>) = own r"
  by (simp_all add: own_def)

lemma length_ring_take [simp]: "length (fst (ring_take ops xs)) = po_FrameSamples ops"
  by (simp add: ring_take_def Let_def)

lemma mixes_snoc: "length ps = length qs \<Longrightarrow> mixes ops (ps @ [a]) (qs @ [b]) = mixes ops ps qs @ [map2 (po_add ops) a b]"
  by (simp add: mixes_def)

lemma write_mixed_inv:
  assumes inv: "rec_inv ops d0 (r, d)" and tr: "rc_tracks r = Some fs" and ok: "rc_audioErr r = None"
    and len: "length a = po_FrameSamples ops" "length b = po_FrameSamples ops"
  shows "rec_inv ops d0 (write_mixed ops env a b fs r d)"
proof -
  obtain m p q where fs: "fs = (m, p, q)" by (cases fs)
  from inv tr fs ok obtain ps qs where t: "distinct [m, p, q]" "rc_videoFile r \<notin> Some ` {m, p, q}" "length ps = length qs"
    "rc_frames r = of_nat (length ps)" "\<forall>x\<in>set ps \<union> set qs. length x = po_FrameSamples ops"
    "track_holds ops d True m (mixes ops ps qs)" "track_holds ops d True p ps" "track_holds ops d True q qs"
    by (auto simp: rec_inv_def tracks_ok_def)
  obtain e d1 where w: "write_tracks ops env [(m, map2 (po_add ops) a b), (p, a), (q, b)] d = (e, d1)"
    by (cases "write_tracks ops env [(m, map2 (po_add ops) a b), (p, a), (q, b)] d")
  note ww = write_tracks_cases [OF w t(1) t(6-8)]
  have mine: "{m, p, q} \<subseteq> own r" using tr fs by (auto simp: own_def)
  from inv have i: "disk_wf d" "dk_next d0 \<le> dk_next d" "own r \<subseteq> {dk_next d0..<dk_next d}" "dk_uploads d = dk_uploads d0"
    "f \<notin> own r \<Longrightarrow> dk_files d f = dk_files d0 f" for f by (simp_all add: rec_inv_def)
  from ww have same: "f \<notin> own r \<Longrightarrow> dk_files d1 f = dk_files d f" for f using mine by blast
  have "disk_wf d1"
    unfolding disk_wf_def
  proof (intro allI impI)
    fix f assume "dk_next d1 \<le> f"
    then have "dk_next d \<le> f" using ww by simp
    moreover from this i(3) have "f \<notin> own r" by auto
    ultimately show "dk_files d1 f = None" using same i(1) by (simp add: disk_wf_def)
  qed
  then have base: "disk_wf d1 \<and> dk_next d0 \<le> dk_next d1 \<and> own r \<subseteq> {dk_next d0..<dk_next d1} \<and>
      (\<forall>f. f \<notin> own r \<longrightarrow> dk_files d1 f = dk_files d0 f) \<and> dk_uploads d1 = dk_uploads d0"
    using i same ww by simp
  show ?thesis
  proof (cases e)
    case (Some err)
    have "\<exists>ps' qs'. length ps' = length qs' \<and> rc_frames r = of_nat (length ps') \<and>
        (\<forall>x\<in>set ps' \<union> set qs'. length x = po_FrameSamples ops) \<and>
        track_holds ops d1 False m (mixes ops ps' qs') \<and> track_holds ops d1 False p ps' \<and> track_holds ops d1 False q qs'"
      using t(3-5) ww by (intro exI [of _ ps] exI [of _ qs]) simp
    then have "tracks_ok ops (r\<lparr>rc_audioErr := Some err\<rparr>) d1"
      using t(1,2) tr fs by (simp add: tracks_ok_def)
    with base Some show ?thesis using fs w by (simp add: write_mixed_def rec_inv_def)
  next
    case None
    have "\<exists>ps' qs'. length ps' = length qs' \<and> rc_frames r + 1 = of_nat (length ps') \<and>
        (\<forall>x\<in>set ps' \<union> set qs'. length x = po_FrameSamples ops) \<and>
        track_holds ops d1 True m (mixes ops ps' qs') \<and> track_holds ops d1 True p ps' \<and> track_holds ops d1 True q qs'"
      using t(3-5) len ww None
      by (intro exI [of _ "ps @ [a]"] exI [of _ "qs @ [b]"]) (auto simp: mixes_snoc)
    then have "tracks_ok ops (r\<lparr>rc_frames := rc_frames r + 1\<rparr>) d1"
      using t(1,2) tr fs ok by (simp add: tracks_ok_def)
    with base None show ?thesis using fs w by (simp add: write_mixed_def rec_inv_def)
  qed
qed

lemma rec_inv_rings [simp]:
  "rec_inv ops d0 (r\<lparr>rc_peer := a, rc_operator := b\<rparr>, d) = rec_inv ops d0 (r, d)"
  "rec_inv ops d0 (r\<lparr>rc_peer := a, rc_started := c\<rparr>, d) = rec_inv ops d0 (r, d)"
  "rec_inv ops d0 (r\<lparr>rc_operator := b, rc_started := c\<rparr>, d) = rec_inv ops d0 (r, d)"
  "rec_inv ops d0 (r\<lparr>rc_closing := c\<rparr>, d) = rec_inv ops d0 (r, d)"
  "rec_inv ops d0 (r\<lparr>rc_videoErr := e\<rparr>, d) = rec_inv ops d0 (r, d)"
  "rec_inv ops d0 (r\<lparr>rc_videoLen := l\<rparr>, d) = rec_inv ops d0 (r, d)"
  "rec_inv ops d0 (r\<lparr>rc_videoClosed := c\<rparr>, d) = rec_inv ops d0 (r, d)"
  by (cases "rc_tracks r"; simp add: rec_inv_def tracks_ok_def split: prod.split)+

lemma writeFrame_inv:
  assumes inv: "rec_inv ops d0 (r, d)"
  shows "rec_inv ops d0 (writeFrame ops env r d)"
proof (cases "rc_audioErr r")
  case (Some e)
  then show ?thesis using inv by (simp add: writeFrame_def)
next
  case None
  define a where "a = fst (ring_take ops (rc_peer r))"
  define b where "b = fst (ring_take ops (rc_operator r))"
  define r1 where "r1 = r\<lparr>rc_peer := snd (ring_take ops (rc_peer r)), rc_operator := snd (ring_take ops (rc_operator r))\<rparr>"
  have i1: "rec_inv ops d0 (r1, d)" using inv by (simp add: r1_def)
  have len: "length a = po_FrameSamples ops" "length b = po_FrameSamples ops" by (simp_all add: a_def b_def)
  have e1: "rc_audioErr r1 = None" using None by (simp add: r1_def)
  show ?thesis
  proof (cases "rc_tracks r")
    case (Some fs)
    then have "writeFrame ops env r d = write_mixed ops env a b fs r1 d"
      using None by (simp add: writeFrame_def a_def b_def r1_def split: prod.splits)
    with write_mixed_inv [OF i1 _ e1 len, of fs env] Some show ?thesis by (simp add: r1_def)
  next
    case no: None
    obtain o1 d1 where t: "openTracks env d = (o1, d1)" by (cases "openTracks env d")
    have wf: "disk_wf d" using inv by (simp add: rec_inv_def)
    note ot = openTracks_cases [OF t wf]
    have tr1: "rc_tracks r1 = None" "rc_frames r1 = 0" "own r1 = own r" "rc_videoFile r1 = rc_videoFile r"
      using no inv by (simp_all add: r1_def rec_inv_def tracks_ok_def)
    show ?thesis
    proof (cases o1)
      case (Inl e)
      then have "writeFrame ops env r d = (r1\<lparr>rc_audioErr := Some e\<rparr>, d1)"
        using None no t by (simp add: writeFrame_def r1_def split: prod.splits)
      moreover have "rec_inv ops d0 (r1\<lparr>rc_audioErr := Some e\<rparr>, d1)"
        using i1 ot Inl tr1 by (auto simp: rec_inv_def tracks_ok_def)
      ultimately show ?thesis by simp
    next
      case (Inr fs)
      obtain m p q where fs: "fs = (m, p, q)" by (cases fs)
      define r2 where "r2 = r1\<lparr>rc_tracks := Some fs\<rparr>"
      have eq: "writeFrame ops env r d = write_mixed ops env a b fs r2 d1"
        using None no t Inr by (simp add: writeFrame_def r1_def r2_def a_def b_def split: prod.splits)
      from ot Inr fs have o: "m = dk_next d" "p = Suc m" "q = Suc p" "dk_next d1 = Suc q" "disk_wf d1"
        "dk_uploads d1 = dk_uploads d"
        "dk_files d1 = (dk_files d)(m \<mapsto> replicate wavHeaderSize 0, p \<mapsto> replicate wavHeaderSize 0, q \<mapsto> replicate wavHeaderSize 0)"
        by simp_all
      from inv have i: "dk_next d0 \<le> dk_next d" "own r \<subseteq> {dk_next d0..<dk_next d}" "dk_uploads d = dk_uploads d0"
        "f \<notin> own r \<Longrightarrow> dk_files d f = dk_files d0 f" for f by (simp_all add: rec_inv_def)
      have own2: "own r2 = {m, p, q} \<union> own r" using tr1 no fs by (auto simp: own_def r2_def)
      have video: "rc_videoFile r2 \<notin> Some ` {m, p, q}"
        using i(2) o(1-3) tr1(4) by (auto simp: own_def r2_def)
      have "track_holds ops d1 True f []" if "f \<in> {m, p, q}" for f
        using that o(7) by (auto simp: track_holds_def content_def)
      then have "tracks_ok ops r2 d1"
        using video o(1-3) fs tr1(2) e1 unfolding tracks_ok_def
        by (auto simp: r2_def mixes_def intro!: exI [of _ "[]"])
      moreover have "own r2 \<subseteq> {dk_next d0..<dk_next d1}" using own2 i o(1-4) by auto
      moreover have "dk_files d1 f = dk_files d0 f" if "f \<notin> own r2" for f using that own2 i(4) [of f] o(7) by simp
      ultimately have "rec_inv ops d0 (r2, d1)" using o i by (simp add: rec_inv_def)
      from write_mixed_inv [OF this _ _ len, of fs env] show ?thesis using eq e1 by (simp add: r2_def)
    qed
  qed
qed

lemma WriteVideo_file_inv:
  assumes inv: "rec_inv ops d0 (r, d)" and f: "rc_videoFile r = Some f"
  shows "rec_inv ops d0 (WriteVideo_file env u f r d)"
proof -
  obtain e d1 where w: "file_Write env f u d = (e, d1)" by (cases "file_Write env f u d")
  from file_Write_cases [OF w] have wo: "writes_only f d d1" by simp
  have mine: "f \<in> own r" using f by (simp add: own_def)
  have lt: "f < dk_next d" using inv mine by (auto simp: rec_inv_def)
  have tr: "tracks_ok ops r d1"
  proof (cases "rc_tracks r")
    case None
    then show ?thesis using inv by (simp add: rec_inv_def tracks_ok_def)
  next
    case (Some fs)
    obtain m p q where fs: "fs = (m, p, q)" by (cases fs)
    have "f \<notin> {m, p, q}" using inv Some fs f by (auto simp: rec_inv_def tracks_ok_def)
    then have "track_holds ops d1 ok g frs = track_holds ops d ok g frs" if "g \<in> {m, p, q}" for g ok frs
      using that by (intro track_holds_other [OF wo]) auto
    then show ?thesis using inv Some fs by (simp add: rec_inv_def tracks_ok_def)
  qed
  have "rec_inv ops d0 (r, d1)"
    using inv wo mine lt writes_only_wf [OF wo] tr by (auto simp: rec_inv_def writes_only_def)
  then show ?thesis using w by (auto simp: WriteVideo_file_def split: option.splits)
qed

lemma tracks_ok_files: "dk_files d' = dk_files d \<Longrightarrow> tracks_ok ops r d' = tracks_ok ops r d"
  by (cases "rc_tracks r") (simp_all add: tracks_ok_def track_holds_def content_def split: prod.split)

lemma Recorder_WriteVideo_inv:
  assumes inv: "rec_inv ops d0 (r, d)"
  shows "rec_inv ops d0 (Recorder_WriteVideo env u r d)"
proof (cases "u = [] \<or> rc_videoClosed r \<or> rc_videoErr r \<noteq> None")
  case True
  then show ?thesis using inv by (auto simp: Recorder_WriteVideo_def)
next
  case go: False
  show ?thesis
  proof (cases "rc_videoFile r")
    case (Some f)
    then show ?thesis using go WriteVideo_file_inv [OF inv Some] by (simp add: Recorder_WriteVideo_def)
  next
    case None
    obtain c d1 where c: "CreateTemp env d = (c, d1)" by (cases "CreateTemp env d")
    note cc = CreateTemp_cases [OF c]
    show ?thesis
    proof (cases c)
      case (Inl e)
      then have "rec_inv ops d0 (r, d1)"
        using inv cc tracks_ok_files [of d1 d ops r] by (simp add: rec_inv_def disk_wf_def)
      then show ?thesis using go None Inl c by (simp add: Recorder_WriteVideo_def)
    next
      case (Inr f)
      define r1 where "r1 = r\<lparr>rc_videoFile := Some f\<rparr>"
      from Inr cc have o: "f = dk_next d" "dk_files d1 = (dk_files d)(f \<mapsto> [])" "dk_next d1 = Suc f" "dk_uploads d1 = dk_uploads d"
        by simp_all
      have own1: "own r1 = insert f (own r)" using None by (auto simp: own_def r1_def)
      have fresh: "f \<notin> own r" using inv o(1) by (auto simp: rec_inv_def)
      have "tracks_ok ops r1 d1"
      proof (cases "rc_tracks r")
        case None
        then show ?thesis using inv by (simp add: rec_inv_def tracks_ok_def r1_def)
      next
        case (Some fs)
        obtain m p q where fs: "fs = (m, p, q)" by (cases fs)
        have ne: "f \<notin> {m, p, q}" using fresh Some fs by (auto simp: own_def)
        then have "track_holds ops d1 ok g frs = track_holds ops d ok g frs" if "g \<in> {m, p, q}" for g ok frs
          using that o(2) by (auto simp: track_holds_def content_def)
        then show ?thesis using inv Some fs ne by (simp add: rec_inv_def tracks_ok_def r1_def)
      qed
      moreover have "dk_next d0 \<le> dk_next d" "own r \<subseteq> {dk_next d0..<dk_next d}" "dk_uploads d = dk_uploads d0" "disk_wf d"
        "g \<notin> own r \<Longrightarrow> dk_files d g = dk_files d0 g" for g using inv by (simp_all add: rec_inv_def)
      ultimately have "rec_inv ops d0 (r1, d1)"
        using o own1 by (auto simp: rec_inv_def disk_wf_def)
      from WriteVideo_file_inv [OF this] show ?thesis
        using go None Inr c by (simp add: Recorder_WriteVideo_def r1_def)
    qed
  qed
qed

lemma rec_step_inv: "rec_inv ops d0 s \<Longrightarrow> rec_inv ops d0 (rec_step ops env a s)"
  by (cases s; cases a)
    (simp_all add: WritePeerAudio_def WriteOperatorAudio_def writeFrame_inv Recorder_WriteVideo_inv)

lemma rec_run_inv: "rec_inv ops d0 s \<Longrightarrow> rec_inv ops d0 (rec_run ops env acts s)"
  unfolding rec_run_def by (induction acts arbitrary: s) (simp_all add: rec_step_inv)

lemma rec_inv_new: "disk_wf d \<Longrightarrow> rec_inv ops d (NewRecorder channelID callID, d)"
  by (simp add: rec_inv_def NewRecorder_def own_def tracks_ok_def)

lemma drain_inv: "rec_inv ops d0 (r, d) \<Longrightarrow> rec_inv ops d0 (drain_rounds n ops env r d)"
proof (induction n arbitrary: r d)
  case (Suc n)
  obtain r1 d1 where w: "writeFrame ops env r d = (r1, d1)" by (cases "writeFrame ops env r d")
  from writeFrame_inv [OF Suc.prems, of env] w have "rec_inv ops d0 (r1, d1)" by simp
  with Suc w show ?case by simp
qed simp

text \<open>The rounds of \<open>drain\<close> are enough: afterwards the rings are empty, or an error has ended the audio.\<close>

lemma writeFrame_rings:
  assumes "writeFrame ops env r d = (r1, d1)" "rc_audioErr r = None"
  shows "rc_peer r1 = drop (po_FrameSamples ops) (rc_peer r)" "rc_operator r1 = drop (po_FrameSamples ops) (rc_operator r)"
  using assms by (auto simp: writeFrame_def write_mixed_def ring_take_def Let_def split: option.splits sum.splits prod.splits)

lemma both_shrink: "0 < k \<Longrightarrow> 0 < a + b \<Longrightarrow> a - k + (b - k) < a + (b::nat)"
  by arith

lemma drain_rounds_enough:
  assumes "0 < po_FrameSamples ops" "length (rc_peer r) + length (rc_operator r) \<le> n"
    and "drain_rounds n ops env r d = (r', d')"
  shows "rc_audioErr r' \<noteq> None \<or> rc_peer r' = [] \<and> rc_operator r' = []"
  using assms(2,3)
proof (induction n arbitrary: r d)
  case (Suc n)
  show ?case
  proof (cases "rc_audioErr r \<noteq> None \<or> rc_peer r = [] \<and> rc_operator r = []")
    case True
    then show ?thesis using Suc.prems by auto
  next
    case False
    obtain r1 d1 where w: "writeFrame ops env r d = (r1, d1)" by fastforce
    have "0 < length (rc_peer r) + length (rc_operator r)" using False by (auto simp flip: length_greater_0_conv)
    then have "length (rc_peer r1) + length (rc_operator r1) < length (rc_peer r) + length (rc_operator r)"
      using both_shrink [OF assms(1)] writeFrame_rings [OF w] False by (simp del: add_gr_0)
    then show ?thesis using Suc.IH [of r1 d1] Suc.prems False w by (simp split: if_splits)
  qed
qed simp

lemma drain_empties:
  assumes "0 < po_FrameSamples ops" "drain ops env r d = (r', d')"
  shows "rc_audioErr r' \<noteq> None \<or> rc_peer r' = [] \<and> rc_operator r' = []"
  using drain_rounds_enough [OF assms(1) order.refl assms(2) [unfolded drain_def]] .

section \<open>The end\<close>

lemma writes_only_nothing: "writes_only f d (d\<lparr>dk_world := w\<rparr>)"
  by (auto simp: writes_only_def intro: exI [of _ "dk_files d f"])

lemma file_ops_cases:
  "file_set env f b d = (r, d') \<Longrightarrow> writes_only f d d' \<and> (r = None \<longrightarrow> content d' f = b)"
  "file_Seek env f d = (r, d') \<Longrightarrow> writes_only f d d' \<and> content d' f = content d f"
  by (auto simp: file_set_def file_Seek_def writes_only_nothing split: prod.splits option.splits)
    (auto simp: writes_only_def content_def)

text \<open>A track that is finished: its file is gone, and what it uploads is exactly the header and the data.\<close>

lemma finishTrack_cases:
  assumes "finishTrack ops env fo key name n d = ((m, e), d')"
  shows "(\<forall>g. dk_files d' g = (if fo = Some g then None else dk_files d g)) \<and>
    set (dk_uploads d) \<subseteq> set (dk_uploads d') \<and>
    (\<forall>media f data junk. m = Some media \<longrightarrow> fo = Some f \<longrightarrow> content d f = replicate wavHeaderSize 0 @ data @ junk \<longrightarrow>
       length data = unat n \<longrightarrow> unat n + wavHeaderSize < 2 ^ 32 \<longrightarrow>
       md_Key media = key \<and> (key, ''audio/wav'', wavHeader (po_SampleRate ops) n @ data) \<in> set (dk_uploads d'))"
proof (cases fo)
  case None
  then show ?thesis using assms by (simp add: finishTrack_def)
next
  case (Some f)
  show ?thesis
  proof (cases "n = 0")
    case True
    then show ?thesis using assms Some by (auto simp: finishTrack_def cleanup_def)
  next
    case n: False
    obtain e1 d1 where 1: "file_Truncate env f (unat (of_nat wavHeaderSize + n :: 32 word)) d = (e1, d1)"
      by (metis prod.exhaust)
    obtain e2 d2 where 2: "file_WriteAt0 env f (wavHeader (po_SampleRate ops) n) d1 = (e2, d2)" by (metis prod.exhaust)
    obtain e3 d3 where 3: "file_Seek env f d2 = (e3, d3)" by (metis prod.exhaust)
    note c1 = file_ops_cases(1) [OF 1 [unfolded file_Truncate_def]]
    note c2 = file_ops_cases(1) [OF 2 [unfolded file_WriteAt0_def]]
    note c3 = file_ops_cases(2) [OF 3]
    consider (early) "m = None" "\<exists>x. x \<in> {d1, d2, d3} \<and> d' = cleanup f x"
      | (late) "e1 = None" "e2 = None" "e3 = None" "d' = cleanup f (snd (PutStream env key ''audio/wav'' f d3))"
          "m = None \<or> (\<exists>media. m = Some media \<and> md_Key media = key)"
      using assms Some n 1 2 3
      by (cases e1; cases e2; cases e3; cases "fst (PutStream env key ''audio/wav'' f d3)")
        (auto simp: finishTrack_def split: prod.splits)
    then show ?thesis
    proof cases
      case early
      then show ?thesis using c1 c2 c3 Some by (auto simp: writes_only_def cleanup_def)
    next
      case late
      let ?h = "wavHeader (po_SampleRate ops) n"
      have up: "dk_uploads d' = dk_uploads d3 @ [(key, ''audio/wav'', content d3 f)]" "dk_files d' = (dk_files d3)(f := None)"
        using late by (simp_all add: cleanup_def PutStream_def split: prod.splits)
      have body: "content d3 f = ?h @ data"
        if c: "content d f = replicate wavHeaderSize 0 @ data @ junk" and l: "length data = unat n"
          and b: "unat n + wavHeaderSize < 2 ^ 32" for data junk
      proof -
        have "unat (of_nat wavHeaderSize + n :: 32 word) = wavHeaderSize + unat n"
          using b by (subst unat_plus_if') (simp add: wavHeaderSize_def)
        then have "content d1 f = replicate wavHeaderSize 0 @ data"
          using c1 late(1) c l by simp
        then have "content d2 f = ?h @ data" using c2 late(2) by simp
        then show ?thesis using c3 by simp
      qed
      show ?thesis
        using up body late(5) c1 c2 c3 Some by (auto simp: writes_only_def)
    qed
  qed
qed

lemma finishVideo_cases:
  assumes "finishVideo r env fo n d = (x, d')"
  shows "(\<forall>g. dk_files d' g = (if fo = Some g then None else dk_files d g)) \<and> set (dk_uploads d) \<subseteq> set (dk_uploads d')"
  using assms
  by (auto simp: finishVideo_def cleanup_def PutStream_def file_Seek_def split: option.splits prod.splits if_splits)

lemma Finish_split:
  assumes "\<not> rc_closing r" "Finish ops env r d = ((rcd, err), r', d')"
    and "rec_inv ops d0 (r, d)"
  obtains r2 d1 d2 d3 d4 e1 e2 e3 e4 where "rec_inv ops d0 (r2, d1)" "r' = r2" "rc_channelID r2 = rc_channelID r2"
    "finishTrack ops env (map_option fst (rc_tracks r2)) (AudioKey r2) (rc_callID r2 @ ''.wav'')
       (rc_frames r2 * of_nat (po_FrameSamples ops) * 2) d1 = ((rec_Audio rcd, e1), d2)"
    "finishTrack ops env (map_option (fst \<circ> snd) (rc_tracks r2)) (PeerAudioKey r2) (rc_callID r2 @ ''-peer.wav'')
       (rc_frames r2 * of_nat (po_FrameSamples ops) * 2) d2 = ((rec_PeerAudio rcd, e2), d3)"
    "finishTrack ops env (map_option (snd \<circ> snd) (rc_tracks r2)) (OperatorAudioKey r2) (rc_callID r2 @ ''-operator.wav'')
       (rc_frames r2 * of_nat (po_FrameSamples ops) * 2) d3 = ((rec_OperatorAudio rcd, e3), d4)"
    "finishVideo r2 env (rc_videoFile r2) (rc_videoLen r2) d4 = ((rec_Video rcd, e4), d')"
proof -
  obtain r1 d1 where dr: "(if rc_started r then drain ops env (r\<lparr>rc_closing := True\<rparr>) d else (r\<lparr>rc_closing := True\<rparr>, d)) = (r1, d1)"
    by (metis prod.exhaust)
  have "rec_inv ops d0 (r\<lparr>rc_closing := True\<rparr>, d)" using assms(3) by simp
  from drain_inv [OF this, of _ env] this dr have "rec_inv ops d0 (r1, d1)"
    by (auto simp: drain_def split: if_splits) (metis)
  then have i: "rec_inv ops d0 (r1\<lparr>rc_videoClosed := True\<rparr>, d1)" by simp
  show thesis
    using assms(1,2) dr by (auto simp: Finish_def Let_def split: prod.splits intro!: that [OF i])
qed

lemma not_closing_step: "\<not> rc_closing (fst s) \<Longrightarrow> \<not> rc_closing (fst (rec_step ops env a s))"
  by (cases s; cases a)
    (auto simp: WritePeerAudio_def WriteOperatorAudio_def writeFrame_def write_mixed_def Recorder_WriteVideo_def
      WriteVideo_file_def Let_def split: prod.splits option.splits sum.splits)

lemma not_closing_run: "\<not> rc_closing (fst s) \<Longrightarrow> \<not> rc_closing (fst (rec_run ops env acts s))"
  unfolding rec_run_def by (induction acts arbitrary: s) (simp_all add: not_closing_step)

lemma length_pcm_of [simp]: "length (pcm_of ops frame) = 2 * length frame"
  by (induction frame) (simp_all add: pcm_of_def le16_def)

lemma length_frames:
  "\<forall>x\<in>set xs. length x = n \<Longrightarrow> length (concat (map (pcm_of ops) xs)) = length xs * n * 2"
  by (induction xs) simp_all

lemma length_mixes:
  "length ps = length qs \<Longrightarrow> \<forall>x\<in>set ps \<union> set qs. length x = n \<Longrightarrow>
   length (mixes ops ps qs) = length ps \<and> (\<forall>x\<in>set (mixes ops ps qs). length x = n)"
  by (induction ps qs rule: list_induct2) (simp_all add: mixes_def)

lemma unat_small: "n < 2 ^ 32 \<Longrightarrow> unat (of_nat n :: 32 word) = n"
  by (simp add: unsigned_of_nat take_bit_nat_eq_self)

lemma finishTrack_upload:
  assumes "finishTrack ops env (Some f) key name (of_nat n) d = ((Some md, e), d')"
    and "content d f = replicate wavHeaderSize 0 @ data @ junk" "length data = n" "n + wavHeaderSize < 2 ^ 32"
  shows "(md_Key md, ''audio/wav'', wavHeader (po_SampleRate ops) (of_nat n) @ data) \<in> set (dk_uploads d')"
proof -
  have "unat (of_nat n :: 32 word) = n" using assms(4) by (intro unat_small) simp
  with finishTrack_cases [OF assms(1), THEN conjunct2, THEN conjunct2, rule_format, OF refl refl assms(2)] assms(3,4)
  show ?thesis by simp
qed

text \<open>What the end of a recording does with its files and its uploads.\<close>

lemma finish_recording:
  assumes "disk_wf d0" "rec_run ops env acts (NewRecorder channelID callID, d0) = (r, d)"
    and "Finish ops env r d = ((rcd, err), r', d')"
  shows "dk_files d' = dk_files d0 \<and>
    (\<exists>ps qs. length ps = length qs \<and> (\<forall>x\<in>set ps \<union> set qs. length x = po_FrameSamples ops) \<and>
       (length ps * po_FrameSamples ops * 2 + wavHeaderSize < 2 ^ 32 \<longrightarrow>
          (let header = wavHeader (po_SampleRate ops) (of_nat (length ps * po_FrameSamples ops * 2)) in
           (\<forall>m. rec_Audio rcd = Some m \<longrightarrow>
              (md_Key m, ''audio/wav'', header @ concat (map (pcm_of ops) (mixes ops ps qs))) \<in> set (dk_uploads d')) \<and>
           (\<forall>m. rec_PeerAudio rcd = Some m \<longrightarrow>
              (md_Key m, ''audio/wav'', header @ concat (map (pcm_of ops) ps)) \<in> set (dk_uploads d')) \<and>
           (\<forall>m. rec_OperatorAudio rcd = Some m \<longrightarrow>
              (md_Key m, ''audio/wav'', header @ concat (map (pcm_of ops) qs)) \<in> set (dk_uploads d')))))"
proof -
  let ?F = "po_FrameSamples ops"
  have inv: "rec_inv ops d0 (r, d)"
    using rec_run_inv [OF rec_inv_new [OF assms(1)], of ops env acts channelID callID] assms(2) by simp
  have "\<not> rc_closing (fst (rec_run ops env acts (NewRecorder channelID callID, d0)))"
    by (rule not_closing_run) (simp add: NewRecorder_def)
  then have "\<not> rc_closing r" using assms(2) by simp
  from Finish_split [OF this assms(3) inv] obtain r2 d1 d2 d3 d4 e1 e2 e3 e4 where
    i: "rec_inv ops d0 (r2, d1)" and
    t1: "finishTrack ops env (map_option fst (rc_tracks r2)) (AudioKey r2) (rc_callID r2 @ ''.wav'')
       (rc_frames r2 * of_nat ?F * 2) d1 = ((rec_Audio rcd, e1), d2)" and
    t2: "finishTrack ops env (map_option (fst \<circ> snd) (rc_tracks r2)) (PeerAudioKey r2) (rc_callID r2 @ ''-peer.wav'')
       (rc_frames r2 * of_nat ?F * 2) d2 = ((rec_PeerAudio rcd, e2), d3)" and
    t3: "finishTrack ops env (map_option (snd \<circ> snd) (rc_tracks r2)) (OperatorAudioKey r2) (rc_callID r2 @ ''-operator.wav'')
       (rc_frames r2 * of_nat ?F * 2) d3 = ((rec_OperatorAudio rcd, e3), d4)" and
    t4: "finishVideo r2 env (rc_videoFile r2) (rc_videoLen r2) d4 = ((rec_Video rcd, e4), d')" .
  note c1 = finishTrack_cases [OF t1] and c2 = finishTrack_cases [OF t2] and c3 = finishTrack_cases [OF t3]
    and c4 = finishVideo_cases [OF t4]
  have files: "dk_files d' g = dk_files d0 g" for g
  proof (cases "g \<in> own r2")
    case True
    then have "dk_files d' g = None" using c1 c2 c3 c4 by (cases "rc_tracks r2") (auto simp: own_def split: if_splits)
    moreover have "dk_files d0 g = None" using True i assms(1) by (auto simp: rec_inv_def disk_wf_def)
    ultimately show ?thesis by simp
  next
    case False
    then have "dk_files d' g = dk_files d1 g" using c1 c2 c3 c4 by (cases "rc_tracks r2") (auto simp: own_def)
    moreover have "dk_files d1 g = dk_files d0 g" using False i by (simp add: rec_inv_def)
    ultimately show ?thesis by simp
  qed
  show ?thesis
  proof (cases "rc_tracks r2")
    case None
    then have "rec_Audio rcd = None" "rec_PeerAudio rcd = None" "rec_OperatorAudio rcd = None"
      using t1 t2 t3 by (simp_all add: finishTrack_def)
    with files show ?thesis by (intro conjI ext exI [of _ "[]"]) (simp_all add: Let_def)
  next
    case (Some fs)
    obtain m p q where fs: "fs = (m, p, q)" by (cases fs)
    from i Some fs obtain ps qs j1 j2 j3 where t: "distinct [m, p, q]" "length ps = length qs" "rc_frames r2 = of_nat (length ps)"
      "\<forall>x\<in>set ps \<union> set qs. length x = ?F"
      "content d1 m = replicate wavHeaderSize 0 @ concat (map (pcm_of ops) (mixes ops ps qs)) @ j1"
      "content d1 p = replicate wavHeaderSize 0 @ concat (map (pcm_of ops) ps) @ j2"
      "content d1 q = replicate wavHeaderSize 0 @ concat (map (pcm_of ops) qs) @ j3"
      unfolding rec_inv_def tracks_ok_def track_holds_def by auto
    let ?n = "length ps * ?F * 2"
    have n: "rc_frames r2 * of_nat ?F * 2 = of_nat ?n" using t(3) by simp
    have lens: "length (concat (map (pcm_of ops) (mixes ops ps qs))) = ?n" "length (concat (map (pcm_of ops) ps)) = ?n"
      "length (concat (map (pcm_of ops) qs)) = ?n"
      using length_mixes [OF t(2,4), of ops] length_frames [of _ ?F ops] t(2,4) by simp_all
    have p2: "content d2 p = content d1 p" and q3: "content d3 q = content d1 q"
      using c1 c2 t(1) Some fs by (auto simp: content_def)
    let ?w = "wavHeader (po_SampleRate ops) (of_nat ?n)"
    have up1: "(md_Key md, ''audio/wav'', ?w @ concat (map (pcm_of ops) (mixes ops ps qs))) \<in> set (dk_uploads d')"
      if "?n + wavHeaderSize < 2 ^ 32" "rec_Audio rcd = Some md" for md
      using finishTrack_upload [OF t1 [unfolded n Some fs that(2), simplified option.map fst_conv] t(5) lens(1) that(1)] c2 c3 c4 by blast
    have up2: "(md_Key md, ''audio/wav'', ?w @ concat (map (pcm_of ops) ps)) \<in> set (dk_uploads d')"
      if "?n + wavHeaderSize < 2 ^ 32" "rec_PeerAudio rcd = Some md" for md
      using finishTrack_upload [OF t2 [unfolded n Some fs that(2), simplified option.map o_def fst_conv snd_conv]
          trans [OF p2 t(6)] lens(2) that(1)] c3 c4 by blast
    have up3: "(md_Key md, ''audio/wav'', ?w @ concat (map (pcm_of ops) qs)) \<in> set (dk_uploads d')"
      if "?n + wavHeaderSize < 2 ^ 32" "rec_OperatorAudio rcd = Some md" for md
      using finishTrack_upload [OF t3 [unfolded n Some fs that(2), simplified option.map o_def fst_conv snd_conv]
          trans [OF q3 t(7)] lens(3) that(1)] c4 by blast
    show ?thesis
      unfolding Let_def using t(2,4) files up1 up2 up3 by (intro conjI ext exI [of _ ps] exI [of _ qs]) blast+
  qed
qed

section \<open>Properties\<close>


text \<open>
  The tracks that a recording uploads are valid WAV files of the same number of frames, the mix
  being the sum of the peer and the operator frame by frame, also after a write that failed halfway
  (below the 4 GiB that the 32 bit length of a WAV file can express).
\<close>

lemma recording_tracks_aligned:
  assumes "disk_wf d0" "rec_run ops env acts (NewRecorder channelID callID, d0) = (r, d)"
    and "Finish ops env r d = ((rcd, err), r', d')"
  shows "\<exists>ps qs. length ps = length qs \<and> (\<forall>x\<in>set ps \<union> set qs. length x = po_FrameSamples ops) \<and>
    (length ps * po_FrameSamples ops * 2 + wavHeaderSize < 2 ^ 32 \<longrightarrow>
       (let header = wavHeader (po_SampleRate ops) (of_nat (length ps * po_FrameSamples ops * 2)) in
        (\<forall>m. rec_Audio rcd = Some m \<longrightarrow>
           (md_Key m, ''audio/wav'', header @ concat (map (pcm_of ops) (mixes ops ps qs))) \<in> set (dk_uploads d')) \<and>
        (\<forall>m. rec_PeerAudio rcd = Some m \<longrightarrow>
           (md_Key m, ''audio/wav'', header @ concat (map (pcm_of ops) ps)) \<in> set (dk_uploads d')) \<and>
        (\<forall>m. rec_OperatorAudio rcd = Some m \<longrightarrow>
           (md_Key m, ''audio/wav'', header @ concat (map (pcm_of ops) qs)) \<in> set (dk_uploads d'))))"
  using finish_recording [OF assms] by blast

definition demo_ops :: "int pcm_ops" where
  "demo_ops = \<lparr>po_zero = 0, po_add = (+), po_from16 = sint, po_above = (\<lambda>x. x > 1), po_below = (\<lambda>x. x < -1),
     po_one = 1, po_minus_one = -1, po_scale = of_int, po_SampleRate = 1, po_FrameSamples = 2\<rparr>"

text \<open>A disk on which the fourth write fails after one byte: the mix of the first frame is cut short.\<close>

definition demo_disk_env :: "nat disk_env" where
  "demo_disk_env = \<lparr>de_create = (\<lambda>w. (None, w)), de_write = (\<lambda>w. (if w = 3 then Some (Err EText ''disk full'', 1) else None, w + 1)),
     de_other = (\<lambda>w. (None, w)), de_put = (\<lambda>k m b w. (None, w))\<rparr>"

definition demo_disk :: "nat disk" where
  "demo_disk = \<lparr>dk_files = Map.empty, dk_next = 0, dk_uploads = [], dk_world = 0\<rparr>"

lemma demo_disk_wf: "disk_wf demo_disk" by (simp add: disk_wf_def demo_disk_def)


end
