(* ===== verification/Calls.thy ===== *)
theory Calls
  imports CallAudio Recorder Cooldown Registry "HOL-Library.AList" "HOL-Library.Signed_Division"
begin

text \<open>
  The live calls of the gateway: the registry of tracked calls (internal/call/registry.go), the
  manager that wires a call, publishes its events and ends it (internal/call/manager.go), the
  operator's attachment (internal/call/stream.go) and the automatic rejection
  (internal/call/autoreject.go). Tracked calls and streams are shared by pointer in the code; here
  they live in lists and are named by their position. The calling library, the clock, the broker,
  the disk and the identities are functions of an environment and its world \<open>'w\<close>.
\<close>

section \<open>Tracked calls\<close>

record ('l, 'f, 'p) Tracked =
  tk_CallID :: string
  tk_ChannelID :: string
  tk_Direction :: string
  tk_Peer :: string
  tk_SenderLid :: string
  tk_SenderPn :: string
  tk_ProfilePicture :: "'p option"
  tk_IsVideo :: bool
  tk_Live :: 'l
  tk_Recorder :: "'f Recorder option"
  tk_earlyEnd :: "string option"
  tk_outbound :: outboundAudio
  tk_Stream :: "nat option"
  tk_finished :: bool
  tk_StartedAt :: int
  tk_AnsweredAt :: "int option"
  tk_accepted :: bool
  tk_ended :: bool

text \<open>\<open>setStream\<close> answers with the old stream, or nothing when the call is finished.\<close>

definition setStream :: "nat \<Rightarrow> ('l, 'f, 'p) Tracked \<Rightarrow> nat option option \<times> ('l, 'f, 'p) Tracked" where
  "setStream i t = (if tk_finished t then (None, t) else (Some (tk_Stream t), t\<lparr>tk_Stream := Some i\<rparr>))"

definition finishStream :: "('l, 'f, 'p) Tracked \<Rightarrow> nat option \<times> ('l, 'f, 'p) Tracked" where
  "finishStream t = (tk_Stream t, t\<lparr>tk_Stream := None, tk_finished := True\<rparr>)"

definition clearStream :: "nat \<Rightarrow> ('l, 'f, 'p) Tracked \<Rightarrow> bool \<times> ('l, 'f, 'p) Tracked" where
  "clearStream i t = (if tk_Stream t \<noteq> Some i then (False, t) else (True, t\<lparr>tk_Stream := None\<rparr>))"

section \<open>The registry\<close>

type_synonym call_registry = "(string \<times> (string \<times> nat) list) list"

definition reg_NewRegistry :: call_registry where "reg_NewRegistry = []"

definition reg_Insert :: "string \<Rightarrow> string \<Rightarrow> nat \<Rightarrow> call_registry \<Rightarrow> call_registry" where
  "reg_Insert channelID callID t r =
     AList.update channelID
       (AList.update callID t (case map_of r channelID of None \<Rightarrow> [] | Some channel \<Rightarrow> channel)) r"

definition reg_Get :: "string \<Rightarrow> string \<Rightarrow> call_registry \<Rightarrow> nat option" where
  "reg_Get channelID callID r = (case map_of r channelID of None \<Rightarrow> None | Some channel \<Rightarrow> map_of channel callID)"

definition reg_Remove :: "string \<Rightarrow> string \<Rightarrow> call_registry \<Rightarrow> bool \<times> call_registry" where
  "reg_Remove channelID callID r =
     (case map_of r channelID of
        None \<Rightarrow> (False, r)
      | Some channel \<Rightarrow>
          if map_of channel callID = None then (False, r)
          else
            (let channel' = AList.delete callID channel in
             (True, if channel' = [] then AList.delete channelID r else AList.update channelID channel' r)))"

definition reg_TakeChannel :: "string \<Rightarrow> call_registry \<Rightarrow> nat list \<times> call_registry" where
  "reg_TakeChannel channelID r =
     (case map_of r channelID of
        None \<Rightarrow> ([], r)
      | Some channel \<Rightarrow> (map snd channel, AList.delete channelID r))"

definition reg_Channels :: "call_registry \<Rightarrow> string list" where
  "reg_Channels r = map fst r"

definition reg_wf :: "call_registry \<Rightarrow> bool" where
  "reg_wf r \<longleftrightarrow> distinct (map fst r) \<and> list_all (\<lambda>(ch, m). distinct (map fst m) \<and> m \<noteq> []) r"

lemma reg_wf_entry: "reg_wf r \<Longrightarrow> map_of r ch = Some m \<Longrightarrow> distinct (map fst m) \<and> m \<noteq> []"
  by (auto simp: reg_wf_def list_all_iff dest: map_of_SomeD)

lemma reg_wf_new [simp]: "reg_wf reg_NewRegistry" "reg_Get ch c reg_NewRegistry = None"
  by (simp_all add: reg_wf_def reg_NewRegistry_def reg_Get_def)

lemma set_update: "set (AList.update k v r) \<subseteq> insert (k, v) (set r)"
  by (induction r) auto

lemma update_not_empty [simp]: "AList.update k v r \<noteq> []"
  by (cases r) auto

lemma reg_wf_update:
  assumes "reg_wf r" "distinct (map fst m)" "m \<noteq> []"
  shows "reg_wf (AList.update ch m r)"
  unfolding reg_wf_def list_all_iff
proof
  show "distinct (map fst (AList.update ch m r))" using assms(1) by (simp add: reg_wf_def distinct_update)
  show "\<forall>x\<in>set (AList.update ch m r). case x of (ch, m) \<Rightarrow> distinct (map fst m) \<and> m \<noteq> []"
    using assms set_update [of ch m r] unfolding reg_wf_def list_all_iff by fast
qed

lemma reg_wf_delete: "reg_wf r \<Longrightarrow> reg_wf (AList.delete ch r)"
  by (auto simp: reg_wf_def list_all_iff AList.delete_eq distinct_map_filter)

lemma reg_Get_Insert: "reg_Get a b (reg_Insert ch c t r) = (if a = ch \<and> b = c then Some t else reg_Get a b r)"
  by (auto simp: reg_Get_def reg_Insert_def update_conv' split: option.splits)

lemma reg_wf_Insert: "reg_wf r \<Longrightarrow> reg_wf (reg_Insert ch c t r)"
  unfolding reg_Insert_def
  by (rule reg_wf_update) (auto simp: distinct_update dest: reg_wf_entry split: option.split)

lemma reg_Remove_cases:
  assumes "reg_Remove ch c r = (ok, r')"
  obtains (missing) "reg_Get ch c r = None" "\<not> ok" "r' = r"
  | (one) m t where "map_of r ch = Some m" "map_of m c = Some t" ok "AList.delete c m = []" "r' = AList.delete ch r"
  | (more) m t where "map_of r ch = Some m" "map_of m c = Some t" ok "AList.delete c m \<noteq> []"
      "r' = AList.update ch (AList.delete c m) r"
  using assms that by (auto simp: reg_Remove_def reg_Get_def Let_def split: option.splits if_splits)

lemma reg_Remove_Get:
  assumes "reg_Remove ch c r = (ok, r')"
  shows "ok = (reg_Get ch c r \<noteq> None)" "reg_Get a b r' = (if a = ch \<and> b = c then None else reg_Get a b r)"
proof -
  have del: "map_of (AList.delete c m) b' = (if b' = c then None else map_of m b')" for m :: "(string \<times> nat) list" and b'
    by (simp add: delete_conv')
  show "ok = (reg_Get ch c r \<noteq> None)"
    using assms by (cases rule: reg_Remove_cases) (auto simp: reg_Get_def)
  show "reg_Get a b r' = (if a = ch \<and> b = c then None else reg_Get a b r)"
    using assms
  proof (cases rule: reg_Remove_cases)
    case missing
    then show ?thesis by simp
  next
    case (one m t)
    then have "map_of m b = None" if "b \<noteq> c" for b using del [of m b] that by simp
    with one show ?thesis by (auto simp: reg_Get_def delete_conv' split: option.splits)
  next
    case (more m t)
    then show ?thesis using del [of m b] by (auto simp: reg_Get_def update_conv')
  qed
qed

lemma reg_wf_Remove:
  assumes "reg_wf r" "reg_Remove ch c r = (ok, r')"
  shows "reg_wf r'"
  using assms(2)
proof (cases rule: reg_Remove_cases)
  case (more m t)
  then show ?thesis using reg_wf_update [OF assms(1)] reg_wf_entry [OF assms(1)] by (simp add: distinct_delete)
qed (use assms reg_wf_delete in auto)

lemma reg_Take_Get:
  assumes "reg_wf r" "reg_TakeChannel ch r = (ts, r')"
  shows "t \<in> set ts \<longleftrightarrow> (\<exists>c. reg_Get ch c r = Some t)" "reg_Get a b r' = (if a = ch then None else reg_Get a b r)"
    "reg_wf r'"
proof -
  have *: "(\<exists>c. map_of m c = Some t) \<longleftrightarrow> t \<in> snd ` set m" if "map_of r ch = Some m" for m
    using reg_wf_entry [OF assms(1) that] by (force simp: image_iff)
  from assms(2) have "ts = (case map_of r ch of None \<Rightarrow> [] | Some m \<Rightarrow> map snd m)"
    "r' = (if map_of r ch = None then r else AList.delete ch r)" by (auto simp: reg_TakeChannel_def split: option.splits)
  then show "t \<in> set ts \<longleftrightarrow> (\<exists>c. reg_Get ch c r = Some t)" "reg_Get a b r' = (if a = ch then None else reg_Get a b r)"
    "reg_wf r'"
    using * reg_wf_delete [OF assms(1)] assms(1) by (auto simp: reg_Get_def delete_conv' split: option.splits)
qed

lemma reg_Take_distinct:
  assumes "reg_wf r" "reg_TakeChannel ch r = (ts, r')" "\<And>c c' t. reg_Get ch c r = Some t \<Longrightarrow> reg_Get ch c' r = Some t \<Longrightarrow> c = c'"
  shows "distinct ts"
proof (cases "map_of r ch")
  case None
  then show ?thesis using assms(2) by (simp add: reg_TakeChannel_def)
next
  case (Some m)
  have d: "distinct (map fst m)" using reg_wf_entry [OF assms(1) Some] by simp
  have "inj_on snd (set m)"
  proof (rule inj_onI, clarsimp)
    fix c t c' assume "(c, t) \<in> set m" "(c', t) \<in> set m"
    then have "map_of m c = Some t" "map_of m c' = Some t" using d by simp_all
    then show "c = c'" using assms(3) Some by (simp add: reg_Get_def)
  qed
  moreover have "distinct m" using d by (simp add: distinct_map)
  ultimately have "distinct (map snd m)" by (simp only: distinct_map)
  then show ?thesis using assms(2) Some by (simp add: reg_TakeChannel_def)
qed

section \<open>The manager\<close>

record ('l, 'f, 'p, 'w) call_env =
  ce_now :: "'w \<Rightarrow> int"
  ce_identity :: "string \<Rightarrow> 'w \<Rightarrow> Identity"
  ce_resolver :: "string \<Rightarrow> resolver"
  ce_avatars :: "(string \<Rightarrow> (jid \<Rightarrow> 'w \<Rightarrow> 'p option \<times> 'w) option) option"
  ce_lib :: walib
  ce_ID :: "'l \<Rightarrow> string"
  ce_Peer :: "'l \<Rightarrow> string"
  ce_IsVideo :: "'l \<Rightarrow> bool"
  ce_IsGroup :: "'l \<Rightarrow> bool"
  ce_Reject :: "'l \<Rightarrow> 'w \<Rightarrow> goerr option \<times> 'w"
  ce_wire :: "'l \<Rightarrow> 'w \<Rightarrow> string option \<times> 'w"
  ce_publish :: "Event \<Rightarrow> 'w \<Rightarrow> 'w"
  ce_publishInbound :: "'p InboundCallEvent \<Rightarrow> 'w \<Rightarrow> 'w"
  ce_settings :: "settings_map option"
  ce_Record :: bool
  ce_has_Replier :: bool
  ce_pcm :: "'f pcm_ops"
  ce_disk :: "'w disk_env"

record ('l, 'f, 'p, 'w) calls =
  cs_registry :: call_registry
  cs_tracked :: "('l, 'f, 'p) Tracked list"
  cs_streams :: "'f list stream list"
  cs_panicked :: bool
  cs_events :: "Event list"
  cs_inbound :: "'p InboundCallEvent list"
  cs_cooldown :: Cooldown
  cs_replies :: "(AutoReply \<times> Reservation) list"
  cs_uploads :: "nat list"
  cs_disk :: "'w disk"

abbreviation cs_world :: "('l, 'f, 'p, 'w) calls \<Rightarrow> 'w" where
  "cs_world s \<equiv> dk_world (cs_disk s)"

definition set_world :: "'w \<Rightarrow> ('l, 'f, 'p, 'w) calls \<Rightarrow> ('l, 'f, 'p, 'w) calls" where
  "set_world w s = s\<lparr>cs_disk := (cs_disk s)\<lparr>dk_world := w\<rparr>\<rparr>"

definition NewManager :: "'w disk \<Rightarrow> ('l, 'f, 'p, 'w) calls" where
  "NewManager d =
     \<lparr>cs_registry = reg_NewRegistry, cs_tracked = [], cs_streams = [], cs_panicked = False, cs_events = [], cs_inbound = [],
      cs_cooldown = NewCooldown CallRejectMessageCooldown, cs_replies = [], cs_uploads = [], cs_disk = d\<rparr>"

definition with_tracked ::
  "nat \<Rightarrow> (('l, 'f, 'p) Tracked \<Rightarrow> ('l, 'f, 'p) Tracked) \<Rightarrow> ('l, 'f, 'p, 'w) calls \<Rightarrow> ('l, 'f, 'p, 'w) calls" where
  "with_tracked t f s =
     (if t < length (cs_tracked s) then s\<lparr>cs_tracked := (cs_tracked s)[t := f (cs_tracked s ! t)]\<rparr> else s)"

text \<open>An operation on a stream that may panic.\<close>

definition with_stream ::
  "nat \<Rightarrow> ('f list stream \<Rightarrow> 'f list stream option) \<Rightarrow> ('l, 'f, 'p, 'w) calls \<Rightarrow> ('l, 'f, 'p, 'w) calls" where
  "with_stream i f s =
     (if i < length (cs_streams s) then
        (case f (cs_streams s ! i) of
           None \<Rightarrow> s\<lparr>cs_panicked := True\<rparr>
         | Some st \<Rightarrow> s\<lparr>cs_streams := (cs_streams s)[i := st]\<rparr>)
      else s)"

definition unix_seconds :: "int \<Rightarrow> string" where
  "unix_seconds ns = show_int (ns div 1000000000)"

definition blank_event :: Event where
  "blank_event = \<lparr>ev_PhoneNumberID = [], ev_TenantID = [], ev_ChannelID = [], ev_CallID = [], ev_CommandID = [], ev_From = [],
     ev_SenderLid = [], ev_SenderPn = [], ev_Direction = [], ev_Type = EventIncoming, ev_Timestamp = [], ev_State = [],
     ev_IsVideo = False, ev_Duration = 0, ev_Reason = [], ev_Muted = None, ev_Media = None, ev_PeerMedia = None,
     ev_OperatorMedia = None, ev_VideoMedia = None, ev_Video = None, ev_Reaction = None, ev_Group = None,
     ev_WaitingRoom = None, ev_Hand = None, ev_ScreenShare = None, ev_Link = None, ev_Error = None\<rparr>"

definition call_event :: "('l, 'f, 'p, 'w) call_env \<Rightarrow> 'w \<Rightarrow> ('l, 'f, 'p) Tracked \<Rightarrow> event_type \<Rightarrow> Event" where
  "call_event env w t ty =
     (let ident = ce_identity env (tk_ChannelID t) w in
      blank_event\<lparr>ev_PhoneNumberID := id_PhoneNumberID ident, ev_TenantID := id_TenantID ident,
        ev_ChannelID := tk_ChannelID t, ev_CallID := tk_CallID t, ev_From := sender_From (tk_SenderLid t) (tk_SenderPn t),
        ev_SenderLid := tk_SenderLid t, ev_SenderPn := tk_SenderPn t, ev_Direction := tk_Direction t, ev_Type := ty,
        ev_Timestamp := unix_seconds (ce_now env w), ev_IsVideo := tk_IsVideo t\<rparr>)"

text \<open>A failed publication is logged and a panic of the publisher is recovered: both leave the same state.\<close>

definition call_publish :: "('l, 'f, 'p, 'w) call_env \<Rightarrow> Event \<Rightarrow> ('l, 'f, 'p, 'w) calls \<Rightarrow> ('l, 'f, 'p, 'w) calls" where
  "call_publish env evt s = set_world (ce_publish env evt (cs_world s)) (s\<lparr>cs_events := cs_events s @ [evt]\<rparr>)"

definition publishInboundEvent ::
  "('l, 'f, 'p, 'w) call_env \<Rightarrow> 'p InboundCallEvent \<Rightarrow> ('l, 'f, 'p, 'w) calls \<Rightarrow> ('l, 'f, 'p, 'w) calls" where
  "publishInboundEvent env evt s =
     set_world (ce_publishInbound env evt (cs_world s)) (s\<lparr>cs_inbound := cs_inbound s @ [evt]\<rparr>)"

definition publishInbound ::
  "('l, 'f, 'p, 'w) call_env \<Rightarrow> ('l, 'f, 'p) Tracked \<Rightarrow> ('l, 'f, 'p, 'w) calls \<Rightarrow> ('l, 'f, 'p, 'w) calls" where
  "publishInbound env t s =
     publishInboundEvent env
       (NewInboundCallEvent (ce_identity env (tk_ChannelID t) (cs_world s)) (tk_ChannelID t) (tk_CallID t) (tk_SenderLid t)
          (tk_SenderPn t) (tk_Direction t) (tk_Direction t = DirectionOutbound) (tk_IsVideo t)
          (unix_seconds (ce_now env (cs_world s))) (tk_ProfilePicture t)) s"

definition parsePeerJID :: "walib \<Rightarrow> string \<Rightarrow> jid" where
  "parsePeerJID lib peer = (case parse_jid lib peer of Inl err \<Rightarrow> empty_jid | Inr j \<Rightarrow> j)"

definition resolveSenderIdentity :: "('l, 'f, 'p, 'w) call_env \<Rightarrow> string \<Rightarrow> jid \<Rightarrow> string \<times> string" where
  "resolveSenderIdentity env channelID j = Resolve (ce_resolver env channelID) j empty_jid"

definition resolveProfilePicture :: "('l, 'f, 'p, 'w) call_env \<Rightarrow> string \<Rightarrow> jid \<Rightarrow> 'w \<Rightarrow> 'p option \<times> 'w" where
  "resolveProfilePicture env channelID j w =
     (case ce_avatars env of
        None \<Rightarrow> (None, w)
      | Some avatars \<Rightarrow> (case avatars channelID of None \<Rightarrow> (None, w) | Some source \<Rightarrow> source j w))"

text \<open>
  \<open>Track\<close>: the registration of all callbacks, from the first OnEnd to the load of the early end, is
  the function \<open>ce_wire\<close> of the library; its result is the reason of an end that came meanwhile.
\<close>

definition Track ::
  "('l, 'f, 'p, 'w) call_env \<Rightarrow> string \<Rightarrow> 'l \<Rightarrow> string \<Rightarrow> bool \<Rightarrow> ('l, 'f, 'p, 'w) calls \<Rightarrow> nat \<times> ('l, 'f, 'p, 'w) calls" where
  "Track env channelID lc direction rcd s =
     (let peer = ce_Peer env lc; peerJID = parsePeerJID (ce_lib env) peer in
      case resolveSenderIdentity env channelID peerJID of (senderLid, senderPn) \<Rightarrow>
      case (if direction = DirectionInbound \<and> (senderLid \<noteq> [] \<or> senderPn \<noteq> [])
            then resolveProfilePicture env channelID peerJID (cs_world s) else (None, cs_world s)) of (picture, w1) \<Rightarrow>
      case ce_wire env lc w1 of (early, w2) \<Rightarrow>
        (let t = \<lparr>tk_CallID = ce_ID env lc, tk_ChannelID = channelID, tk_Direction = direction, tk_Peer = peer,
               tk_SenderLid = senderLid, tk_SenderPn = senderPn, tk_ProfilePicture = picture, tk_IsVideo = ce_IsVideo env lc,
               tk_Live = lc, tk_Recorder = (if rcd then Some (NewRecorder channelID (ce_ID env lc)) else None),
               tk_earlyEnd = early, tk_outbound = newOutboundAudio rcd, tk_Stream = None, tk_finished = False,
               tk_StartedAt = ce_now env w1, tk_AnsweredAt = None, tk_accepted = False, tk_ended = False\<rparr>;
             n = length (cs_tracked s)
         in (n, set_world w2 (s\<lparr>cs_tracked := cs_tracked s @ [t],
                  cs_registry := reg_Insert channelID (ce_ID env lc) n (cs_registry s)\<rparr>))))"

definition markAnswered :: "('l, 'f, 'p, 'w) call_env \<Rightarrow> nat \<Rightarrow> ('l, 'f, 'p, 'w) calls \<Rightarrow> ('l, 'f, 'p, 'w) calls" where
  "markAnswered env t s =
     with_tracked t (\<lambda>x. if tk_accepted x then x
        else x\<lparr>tk_accepted := True, tk_AnsweredAt := Some (ce_now env (cs_world s))\<rparr>) s"

section \<open>Callbacks of a call\<close>

text \<open>Everything that \<open>subscribe\<close> and the media sinks of \<open>Track\<close> register, except OnEnd.\<close>

datatype 'f callback =
    OnReady | OnPeerAccept | OnStateChange Phase | OnMuteState bool | OnVideoState VideoState | OnReaction Reaction
  | OnGroupState GroupState | OnWaitingRoomState WaitingRoom | OnHandRaise HandState | OnScreenShare ScreenShare
  | OnVideoKeyframeRequest | ReceiveFrame "'f list" | ReceiveVideoUnit bytes

definition publish_of ::
  "('l, 'f, 'p, 'w) call_env \<Rightarrow> nat \<Rightarrow> event_type \<Rightarrow> (Event \<Rightarrow> Event) \<Rightarrow> ('l, 'f, 'p, 'w) calls \<Rightarrow> ('l, 'f, 'p, 'w) calls" where
  "publish_of env t ty f s = call_publish env (f (call_event env (cs_world s) (cs_tracked s ! t) ty)) s"

definition current_stream :: "nat \<Rightarrow> ('f list stream \<Rightarrow> 'f list stream option) \<Rightarrow> ('l, 'f, 'p, 'w) calls \<Rightarrow> ('l, 'f, 'p, 'w) calls" where
  "current_stream t f s = (case tk_Stream (cs_tracked s ! t) of None \<Rightarrow> s | Some i \<Rightarrow> with_stream i f s)"

definition record_video ::
  "('l, 'f, 'p, 'w) call_env \<Rightarrow> nat \<Rightarrow> bytes \<Rightarrow> ('l, 'f, 'p, 'w) calls \<Rightarrow> ('l, 'f, 'p, 'w) calls" where
  "record_video env t u s =
     (case tk_Recorder (cs_tracked s ! t) of
        None \<Rightarrow> s
      | Some r \<Rightarrow>
          (case Recorder_WriteVideo (ce_disk env) u r (cs_disk s) of
             (r', d) \<Rightarrow> with_tracked t (\<lambda>x. x\<lparr>tk_Recorder := Some r'\<rparr>) (s\<lparr>cs_disk := d\<rparr>)))"

fun callback_do ::
  "('l, 'f, 'p, 'w) call_env \<Rightarrow> nat \<Rightarrow> 'f callback \<Rightarrow> ('l, 'f, 'p, 'w) calls \<Rightarrow> ('l, 'f, 'p, 'w) calls" where
  "callback_do env t OnReady s = publish_of env t EventAccepted (\<lambda>e. e) (markAnswered env t s)"
| "callback_do env t OnPeerAccept s = publish_of env t EventAccepted (\<lambda>e. e) (markAnswered env t s)"
| "callback_do env t (OnStateChange phase) s = publish_of env t EventState (\<lambda>e. e\<lparr>ev_State := Phase_String phase\<rparr>) s"
| "callback_do env t (OnMuteState muted) s = publish_of env t EventState (\<lambda>e. e\<lparr>ev_Muted := Some muted\<rparr>) s"
| "callback_do env t (OnVideoState v) s =
     publish_of env t EventVideo (\<lambda>e. e\<lparr>ev_Video := Some \<lparr>vv_Active = vs_Active v, vv_Upgrade = vs_Upgrade v,
        vv_Orientation = vs_Orientation v\<rparr>\<rparr>) s"
| "callback_do env t (OnReaction r) s =
     publish_of env t EventReactionType (\<lambda>e. e\<lparr>ev_Reaction := Some \<lparr>er_Emoji = re_Emoji r, er_Sender = re_Sender r,
        er_Removed = re_Removed r\<rparr>\<rparr>) s"
| "callback_do env t (OnGroupState g) s = publish_of env t EventGroupState (\<lambda>e. e\<lparr>ev_Group := Some g\<rparr>) s"
| "callback_do env t (OnWaitingRoomState r) s = publish_of env t EventWaitingRoom (\<lambda>e. e\<lparr>ev_WaitingRoom := Some r\<rparr>) s"
| "callback_do env t (OnHandRaise h) s = publish_of env t EventHand (\<lambda>e. e\<lparr>ev_Hand := Some h\<rparr>) s"
| "callback_do env t (OnScreenShare x) s = publish_of env t EventScreenShare (\<lambda>e. e\<lparr>ev_ScreenShare := Some x\<rparr>) s"
| "callback_do env t OnVideoKeyframeRequest s = current_stream t requestKeyframe s"
| "callback_do env t (ReceiveFrame f) s =
     current_stream t (receiveAudio f)
       (with_tracked t (\<lambda>x. x\<lparr>tk_Recorder := map_option (WritePeerAudio (ce_pcm env) f) (tk_Recorder x)\<rparr>) s)"
| "callback_do env t (ReceiveVideoUnit u) s = current_stream t (receiveVideo u) (record_video env t u s)"

section \<open>The end of a call\<close>

definition ended_event :: "('l, 'f, 'p, 'w) call_env \<Rightarrow> 'w \<Rightarrow> ('l, 'f, 'p) Tracked \<Rightarrow> string \<Rightarrow> Event" where
  "ended_event env w t reason =
     (call_event env w t EventEnded)\<lparr>ev_Reason := reason,
        ev_Duration := (case tk_AnsweredAt t of None \<Rightarrow> 0 | Some at \<Rightarrow> (ce_now env w - at) sdiv 1000000000)\<rparr>"

text \<open>\<open>finish\<close> with its sync.Once; \<open>cs_uploads\<close> collects the goroutines of \<open>uploadRecording\<close>.\<close>

definition finish :: "('l, 'f, 'p, 'w) call_env \<Rightarrow> nat \<Rightarrow> string \<Rightarrow> ('l, 'f, 'p, 'w) calls \<Rightarrow> ('l, 'f, 'p, 'w) calls" where
  "finish env t reason s =
     (let x = cs_tracked s ! t in
      if tk_ended x then s
      else
        (case finishStream (x\<lparr>tk_ended := True\<rparr>) of
           (old, x1) \<Rightarrow>
             (let s1 = with_tracked t (\<lambda>_. x1\<lparr>tk_outbound := audio_Close (tk_outbound x1)\<rparr>) s;
                  s2 = (case old of None \<Rightarrow> s1 | Some i \<Rightarrow> with_stream i stream_close s1);
                  s3 = call_publish env (ended_event env (cs_world s2) x1 reason) s2
              in if tk_Recorder x1 \<noteq> None then s3\<lparr>cs_uploads := cs_uploads s3 @ [t]\<rparr> else s3)))"

definition end_call :: "('l, 'f, 'p, 'w) call_env \<Rightarrow> nat \<Rightarrow> string \<Rightarrow> ('l, 'f, 'p, 'w) calls \<Rightarrow> ('l, 'f, 'p, 'w) calls" where
  "end_call env t reason s =
     (let x = cs_tracked s ! t in
      case reg_Remove (tk_ChannelID x) (tk_CallID x) (cs_registry s) of
        (removed_it, r) \<Rightarrow> if \<not> removed_it then s else finish env t reason (s\<lparr>cs_registry := r\<rparr>))"

definition flushEarlyEnd :: "('l, 'f, 'p, 'w) call_env \<Rightarrow> nat \<Rightarrow> ('l, 'f, 'p, 'w) calls \<Rightarrow> ('l, 'f, 'p, 'w) calls" where
  "flushEarlyEnd env t s = (case tk_earlyEnd (cs_tracked s ! t) of None \<Rightarrow> s | Some reason \<Rightarrow> end_call env t reason s)"

text \<open>The order in which a Go map is iterated is the argument \<open>order\<close>.\<close>

definition AbortChannel ::
  "('l, 'f, 'p, 'w) call_env \<Rightarrow> (nat list \<Rightarrow> nat list) \<Rightarrow> string \<Rightarrow> string \<Rightarrow> ('l, 'f, 'p, 'w) calls \<Rightarrow> ('l, 'f, 'p, 'w) calls" where
  "AbortChannel env order channelID reason s =
     (case reg_TakeChannel channelID (cs_registry s) of
        (ts, r) \<Rightarrow> fold (\<lambda>t. finish env t reason) (order ts) (s\<lparr>cs_registry := r\<rparr>))"

definition AbortAll ::
  "('l, 'f, 'p, 'w) call_env \<Rightarrow> (string list \<Rightarrow> string list) \<Rightarrow> (nat list \<Rightarrow> nat list) \<Rightarrow> string \<Rightarrow> ('l, 'f, 'p, 'w) calls \<Rightarrow> ('l, 'f, 'p, 'w) calls" where
  "AbortAll env chorder order reason s =
     fold (\<lambda>ch. AbortChannel env order ch reason) (chorder (reg_Channels (cs_registry s))) s"

text \<open>The goroutine of \<open>uploadRecording\<close>.\<close>

definition upload_done :: "('l, 'f, 'p, 'w) call_env \<Rightarrow> nat \<Rightarrow> ('l, 'f, 'p, 'w) calls \<Rightarrow> ('l, 'f, 'p, 'w) calls" where
  "upload_done env t s =
     (case tk_Recorder (cs_tracked s ! t) of
        None \<Rightarrow> s
      | Some r \<Rightarrow>
          (case Finish (ce_pcm env) (ce_disk env) r (cs_disk s) of ((rcd, err), r', d) \<Rightarrow>
             (let s1 = with_tracked t (\<lambda>x. x\<lparr>tk_Recorder := Some r'\<rparr>) (s\<lparr>cs_disk := d\<rparr>);
                  s2 = (if rec_Audio rcd \<noteq> None \<or> rec_Video rcd \<noteq> None then
                          publish_of env t EventRecording (\<lambda>e. e\<lparr>ev_Media := rec_Audio rcd, ev_VideoMedia := rec_Video rcd,
                             ev_PeerMedia := rec_PeerAudio rcd, ev_OperatorMedia := rec_OperatorAudio rcd\<rparr>) s1
                        else s1)
              in case err of
                   None \<Rightarrow> s2
                 | Some e \<Rightarrow>
                     publish_of env t EventCommandFailed
                       (\<lambda>v. v\<lparr>ev_Error := Some \<lparr>ee_Code = CodeRecordingUploadFailed, ee_Reason = err_msg e\<rparr>\<rparr>) s2)))"

section \<open>Operators\<close>

text \<open>
  \<open>AttachStream\<close> after its lookup: the new stream with the old one that is still to be closed, or
  nothing when the call has finished meanwhile. \<open>detach_close\<close> and \<open>detach_clear\<close> are the two halves
  of the returned function.
\<close>

definition attach_set :: "nat \<Rightarrow> ('l, 'f, 'p, 'w) calls \<Rightarrow> (nat \<times> nat option) option \<times> ('l, 'f, 'p, 'w) calls" where
  "attach_set t s =
     (case newStream of
        None \<Rightarrow> (None, s\<lparr>cs_panicked := True\<rparr>)
      | Some st \<Rightarrow>
          (let i = length (cs_streams s); s1 = s\<lparr>cs_streams := cs_streams s @ [st]\<rparr> in
           case setStream i (cs_tracked s ! t) of
             (None, _) \<Rightarrow> (None, with_stream i stream_close s1)
           | (Some old, x) \<Rightarrow> (Some (i, old), with_tracked t (\<lambda>_. x) s1)))"

definition AttachStream ::
  "string \<Rightarrow> string \<Rightarrow> ('l, 'f, 'p, 'w) calls \<Rightarrow> (nat \<times> nat) option \<times> ('l, 'f, 'p, 'w) calls" where
  "AttachStream channelID callID s =
     (case reg_Get channelID callID (cs_registry s) of
        None \<Rightarrow> (None, s)
      | Some t \<Rightarrow>
          (case attach_set t s of
             (None, s1) \<Rightarrow> (None, s1)
           | (Some (i, old), s1) \<Rightarrow>
               (Some (t, i), (case old of None \<Rightarrow> s1 | Some j \<Rightarrow> with_stream j stream_close s1))))"

definition detach_clear :: "nat \<Rightarrow> nat \<Rightarrow> ('l, 'f, 'p, 'w) calls \<Rightarrow> ('l, 'f, 'p, 'w) calls" where
  "detach_clear t i s =
     (case clearStream i (cs_tracked s ! t) of
        (False, _) \<Rightarrow> s
      | (True, x) \<Rightarrow> with_tracked t (\<lambda>_. x\<lparr>tk_outbound := clearOperator (tk_outbound x)\<rparr>) s)"

definition detach :: "nat \<Rightarrow> nat \<Rightarrow> ('l, 'f, 'p, 'w) calls \<Rightarrow> ('l, 'f, 'p, 'w) calls" where
  "detach t i s = detach_clear t i (with_stream i stream_close s)"

section \<open>Incoming calls\<close>

definition InboundStateAutoRejected :: string where "InboundStateAutoRejected = ''auto_rejected''"

definition settingsFor :: "('l, 'f, 'p, 'w) call_env \<Rightarrow> string \<Rightarrow> Settings" where
  "settingsFor env channelID = (case ce_settings env of None \<Rightarrow> Defaults | Some m \<Rightarrow> Map_For channelID m)"

definition autoReject ::
  "('l, 'f, 'p, 'w) call_env \<Rightarrow> string \<Rightarrow> 'l \<Rightarrow> ('l, 'f, 'p, 'w) calls \<Rightarrow> bool \<times> ('l, 'f, 'p, 'w) calls" where
  "autoReject env channelID lc s =
     (let sett = settingsFor env channelID in
      if set_receiveCalls sett then (False, s)
      else
        (case ce_Reject env lc (cs_world s) of
           (Some err, w) \<Rightarrow> (False, set_world w s)
         | (None, w) \<Rightarrow>
             (let s1 = set_world w s; peer = parsePeerJID (ce_lib env) (ce_Peer env lc) in
              case resolveSenderIdentity env channelID peer of (senderLid, senderPn) \<Rightarrow>
                (let s2 = publishInboundEvent env
                       (WithState InboundStateAutoRejected
                          (NewInboundCallEvent (ce_identity env channelID w) channelID (ce_ID env lc) senderLid senderPn
                             DirectionInbound False (ce_IsVideo env lc) (unix_seconds (ce_now env w)) None)) s1
                 in case autoReply (ce_has_Replier env) (ce_IsGroup env lc) (ce_now env (cs_world s2)) channelID (ce_ID env lc)
                        (set_callRejectMessage sett) senderLid senderPn (cs_cooldown s2) of
                      (reply, c) \<Rightarrow>
                        (True, s2\<lparr>cs_cooldown := c,
                           cs_replies := cs_replies s2 @ (case reply of None \<Rightarrow> [] | Some r \<Rightarrow> [r])\<rparr>)))))"

text \<open>The callback that \<open>Attach\<close> registers for an incoming call.\<close>

definition incoming_call ::
  "('l, 'f, 'p, 'w) call_env \<Rightarrow> string \<Rightarrow> 'l \<Rightarrow> ('l, 'f, 'p, 'w) calls \<Rightarrow> ('l, 'f, 'p, 'w) calls" where
  "incoming_call env channelID lc s =
     (case autoReject env channelID lc s of
        (True, s1) \<Rightarrow> s1
      | (False, s1) \<Rightarrow>
          (case Track env channelID lc DirectionInbound (ce_Record env) s1 of
             (t, s2) \<Rightarrow>
               flushEarlyEnd env t (publish_of env t EventIncoming (\<lambda>e. e) (publishInbound env (cs_tracked s2 ! t) s2))))"

section \<open>Audio of a call\<close>

text \<open>WhatsApp reads the outbound audio, and the operator writes to it through a stream.\<close>

definition player_read :: "('l, 'f, 'p, 'w) call_env \<Rightarrow> nat \<Rightarrow> nat \<Rightarrow> ('l, 'f, 'p, 'w) calls \<Rightarrow> ('l, 'f, 'p, 'w) calls" where
  "player_read env t len s =
     with_tracked t (\<lambda>x. case audio_Read len (tk_outbound x) of ((err, buf, rcd), o1) \<Rightarrow>
        x\<lparr>tk_outbound := o1, tk_Recorder := (case rcd of None \<Rightarrow> tk_Recorder x
           | Some b \<Rightarrow> map_option (WriteOperatorAudio (ce_pcm env) b) (tk_Recorder x))\<rparr>) s"

definition operator_write :: "nat \<Rightarrow> nat \<Rightarrow> pcm \<Rightarrow> ('l, 'f, 'p, 'w) calls \<Rightarrow> ('l, 'f, 'p, 'w) calls" where
  "operator_write t i frame s =
     (if i < length (cs_streams s) then
        with_tracked t (\<lambda>x. x\<lparr>tk_outbound := snd (WriteAudio (cs_streams s ! i) frame (tk_outbound x))\<rparr>) s
      else s)"

section \<open>The system of all goroutines\<close>

text \<open>
  The critical sections interleave freely. \<open>sy_finishing\<close> holds the calls that some goroutine has
  taken out of the registry and not finished yet, \<open>sy_closing\<close> the streams that some goroutine has
  replaced and not closed yet. The calling library gives every call an id of its own.
\<close>

record ('l, 'f, 'p, 'w) call_system =
  sy_calls :: "('l, 'f, 'p, 'w) calls"
  sy_finishing :: "(nat \<times> string) list"
  sy_closing :: "nat list"

definition key_of :: "('l, 'f, 'p) Tracked \<Rightarrow> string \<times> string" where
  "key_of x = (tk_ChannelID x, tk_CallID x)"

inductive call_step ::
  "('l, 'f, 'p, 'w) call_env \<Rightarrow> ('l, 'f, 'p, 'w) call_system \<Rightarrow> ('l, 'f, 'p, 'w) call_system \<Rightarrow> bool"
  for env :: "('l, 'f, 'p, 'w) call_env" where
  track: "(channelID, ce_ID env lc) \<notin> key_of ` set (cs_tracked (sy_calls y)) \<Longrightarrow>
     call_step env y (y\<lparr>sy_calls := snd (Track env channelID lc direction rcd (sy_calls y))\<rparr>)"
| reject: "autoReject env channelID lc (sy_calls y) = (True, s) \<Longrightarrow> call_step env y (y\<lparr>sy_calls := s\<rparr>)"
| inbound: "call_step env y (y\<lparr>sy_calls := publishInboundEvent env evt (sy_calls y)\<rparr>)"
| publish: "ev_Type evt \<noteq> EventEnded \<Longrightarrow> call_step env y (y\<lparr>sy_calls := call_publish env evt (sy_calls y)\<rparr>)"
| callback: "t < length (cs_tracked (sy_calls y)) \<Longrightarrow> call_step env y (y\<lparr>sy_calls := callback_do env t cb (sy_calls y)\<rparr>)"
| player: "t < length (cs_tracked (sy_calls y)) \<Longrightarrow> call_step env y (y\<lparr>sy_calls := player_read env t len (sy_calls y)\<rparr>)"
| operator: "t < length (cs_tracked (sy_calls y)) \<Longrightarrow> call_step env y (y\<lparr>sy_calls := operator_write t i frame (sy_calls y)\<rparr>)"
| announce: "t < length (cs_tracked (sy_calls y)) \<Longrightarrow>
     call_step env y (y\<lparr>sy_calls := with_tracked t (\<lambda>x. x\<lparr>tk_outbound := snd (playAnnouncement data (tk_outbound x))\<rparr>) (sy_calls y)\<rparr>)"
| library: "call_step env y (y\<lparr>sy_calls := set_world w (sy_calls y)\<rparr>)"
| end_take: "t < length (cs_tracked (sy_calls y)) \<Longrightarrow>
     reg_Remove (tk_ChannelID (cs_tracked (sy_calls y) ! t)) (tk_CallID (cs_tracked (sy_calls y) ! t)) (cs_registry (sy_calls y)) = (True, r) \<Longrightarrow>
     call_step env y (y\<lparr>sy_calls := (sy_calls y)\<lparr>cs_registry := r\<rparr>, sy_finishing := sy_finishing y @ [(t, reason)]\<rparr>)"
| abort_take: "reg_TakeChannel channelID (cs_registry (sy_calls y)) = (ts, r) \<Longrightarrow>
     call_step env y (y\<lparr>sy_calls := (sy_calls y)\<lparr>cs_registry := r\<rparr>,
        sy_finishing := sy_finishing y @ map (\<lambda>t. (t, reason)) ts\<rparr>)"
| finish: "(t, reason) \<in> set (sy_finishing y) \<Longrightarrow>
     call_step env y (y\<lparr>sy_calls := finish env t reason (sy_calls y), sy_finishing := remove1 (t, reason) (sy_finishing y)\<rparr>)"
| attach: "t < length (cs_tracked (sy_calls y)) \<Longrightarrow> attach_set t (sy_calls y) = (res, s) \<Longrightarrow>
     call_step env y (y\<lparr>sy_calls := s, sy_closing := sy_closing y @ (case res of Some (i, Some old) \<Rightarrow> [old] | _ \<Rightarrow> [])\<rparr>)"
| close: "i \<in> set (sy_closing y) \<Longrightarrow>
     call_step env y (y\<lparr>sy_calls := with_stream i stream_close (sy_calls y), sy_closing := remove1 i (sy_closing y)\<rparr>)"
| detach_close: "i < length (cs_streams (sy_calls y)) \<Longrightarrow>
     call_step env y (y\<lparr>sy_calls := with_stream i stream_close (sy_calls y)\<rparr>)"
| detach_clear: "t < length (cs_tracked (sy_calls y)) \<Longrightarrow> i < length (cs_streams (sy_calls y)) \<Longrightarrow>
     sm_closed (cs_streams (sy_calls y) ! i) \<Longrightarrow>
     call_step env y (y\<lparr>sy_calls := detach_clear t i (sy_calls y)\<rparr>)"
| upload: "t \<in> set (cs_uploads (sy_calls y)) \<Longrightarrow>
     call_step env y (y\<lparr>sy_calls := upload_done env t ((sy_calls y)\<lparr>cs_uploads := remove1 t (cs_uploads (sy_calls y))\<rparr>)\<rparr>)"

definition call_start :: "'w disk \<Rightarrow> ('l, 'f, 'p, 'w) call_system" where
  "call_start d = \<lparr>sy_calls = NewManager d, sy_finishing = [], sy_closing = []\<rparr>"

section \<open>What steps keep\<close>

definition core :: "('l, 'f, 'p) Tracked \<Rightarrow> (string \<times> string) \<times> bool \<times> bool" where
  "core x = (key_of x, tk_ended x, tk_finished x)"

definition streams_ok :: "('l, 'f, 'p, 'w) calls \<Rightarrow> bool" where
  "streams_ok s \<longleftrightarrow> \<not> cs_panicked s \<and> (\<forall>st\<in>set (cs_streams s). stream_wf st \<and> sm_closers st = 0)"

text \<open>
  A calm step changes no key, no end, no current stream and not the registry, publishes no ended
  event, and opens no stream.
\<close>

definition calm :: "('l, 'f, 'p, 'w) calls \<Rightarrow> ('l, 'f, 'p, 'w) calls \<Rightarrow> bool" where
  "calm s s' \<longleftrightarrow> cs_registry s' = cs_registry s \<and> map core (cs_tracked s') = map core (cs_tracked s) \<and>
     map tk_Stream (cs_tracked s') = map tk_Stream (cs_tracked s) \<and>
     filter (\<lambda>e. ev_Type e = EventEnded) (cs_events s') = filter (\<lambda>e. ev_Type e = EventEnded) (cs_events s) \<and>
     length (cs_streams s') = length (cs_streams s) \<and>
     (\<forall>i<length (cs_streams s). sm_closed (cs_streams s ! i) \<longrightarrow> sm_closed (cs_streams s' ! i)) \<and>
     (streams_ok s \<longrightarrow> streams_ok s')"

lemma calm_refl [simp]: "calm s s" by (simp add: calm_def)

lemma calm_trans: "calm s s1 \<Longrightarrow> calm s1 s2 \<Longrightarrow> calm s s2"
  by (simp add: calm_def)

lemma calm_length: "calm s s' \<Longrightarrow> length (cs_tracked s') = length (cs_tracked s)"
  using map_eq_imp_length_eq by (auto simp: calm_def)

lemma calm_world [simp]: "calm s (set_world w s)"
  by (simp add: calm_def set_world_def streams_ok_def)

lemma calm_disk [simp]: "calm s (s\<lparr>cs_disk := d\<rparr>)" "calm s (s\<lparr>cs_uploads := u\<rparr>)"
  by (simp_all add: calm_def streams_ok_def)

lemma map_same_update: "t < length xs \<Longrightarrow> h y = h (xs ! t) \<Longrightarrow> map h (xs[t := y]) = map h xs"
  by (simp add: map_update list_update_same_conv)

lemma calm_tracked:
  assumes "t < length (cs_tracked s) \<Longrightarrow> core (f (cs_tracked s ! t)) = core (cs_tracked s ! t) \<and>
    tk_Stream (f (cs_tracked s ! t)) = tk_Stream (cs_tracked s ! t)"
  shows "calm s (with_tracked t f s)"
  using assms by (simp add: calm_def with_tracked_def streams_ok_def map_same_update)

definition stream_keeps :: "('f list stream \<Rightarrow> 'f list stream option) \<Rightarrow> bool" where
  "stream_keeps f \<longleftrightarrow> (\<forall>st. stream_wf st \<longrightarrow> sm_closers st = 0 \<longrightarrow>
     (\<exists>st'. f st = Some st' \<and> stream_wf st' \<and> sm_closers st' = 0)) \<and>
     (\<forall>st st'. f st = Some st' \<longrightarrow> sm_closed st \<longrightarrow> sm_closed st')"

lemma stream_keeps_ops [simp]:
  "stream_keeps requestKeyframe" "stream_keeps (receiveAudio f)" "stream_keeps (receiveVideo u)" "stream_keeps stream_close"
  by (auto simp: stream_keeps_def stream_ops stream_close_def stream_wf_def split: if_splits)

lemma set_update_cases: "x \<in> set (xs[i := y]) \<Longrightarrow> x = y \<or> x \<in> set xs"
  using set_update_subset_insert [of xs i y] by auto

lemma calm_stream:
  assumes "stream_keeps f"
  shows "calm s (with_stream i f s)"
proof (cases "i < length (cs_streams s)")
  case False
  then show ?thesis by (simp add: with_stream_def)
next
  case i: True
  show ?thesis
  proof (cases "f (cs_streams s ! i)")
    case None
    have "\<not> streams_ok s"
    proof
      assume "streams_ok s"
      then have "stream_wf (cs_streams s ! i) \<and> sm_closers (cs_streams s ! i) = 0" using i by (simp add: streams_ok_def)
      with assms None show False by (auto simp: stream_keeps_def)
    qed
    then show ?thesis using None i by (simp add: with_stream_def calm_def)
  next
    case (Some st)
    have "streams_ok (with_stream i f s)" if ok: "streams_ok s"
    proof -
      have "stream_wf (cs_streams s ! i) \<and> sm_closers (cs_streams s ! i) = 0" using i ok by (simp add: streams_ok_def)
      then have "stream_wf st \<and> sm_closers st = 0" using assms Some by (auto simp: stream_keeps_def)
      then show ?thesis using ok i Some by (auto simp: streams_ok_def with_stream_def dest!: set_update_cases)
    qed
    moreover have "sm_closed (cs_streams s ! i) \<longrightarrow> sm_closed st" using assms Some by (simp add: stream_keeps_def)
    ultimately show ?thesis using i Some by (auto simp: with_stream_def calm_def nth_list_update)
  qed
qed

lemma calm_call_publish: "ev_Type evt \<noteq> EventEnded \<Longrightarrow> calm s (call_publish env evt s)"
  by (simp add: call_publish_def set_world_def calm_def streams_ok_def)

lemma type_call_event [simp]: "ev_Type (call_event env w x ty) = ty"
  by (simp add: call_event_def Let_def)

lemma calm_publish_of: "ty \<noteq> EventEnded \<Longrightarrow> (\<And>e. ev_Type (f e) = ev_Type e) \<Longrightarrow> calm s (publish_of env t ty f s)"
  by (simp add: publish_of_def calm_call_publish)

lemma calm_current_stream: "stream_keeps f \<Longrightarrow> calm s (current_stream t f s)"
  by (simp add: current_stream_def calm_stream split: option.split)

lemma calm_markAnswered: "calm s (markAnswered env t s)"
  unfolding markAnswered_def by (rule calm_tracked) (simp add: core_def key_of_def)

lemma calm_record_video: "calm s (record_video env t u s)"
proof (cases "tk_Recorder (cs_tracked s ! t)")
  case None
  then show ?thesis by (simp add: record_video_def)
next
  case (Some r)
  obtain r' d where w: "Recorder_WriteVideo (ce_disk env) u r (cs_disk s) = (r', d)" by (metis prod.exhaust)
  have "calm (s\<lparr>cs_disk := d\<rparr>) (with_tracked t (\<lambda>x. x\<lparr>tk_Recorder := Some r'\<rparr>) (s\<lparr>cs_disk := d\<rparr>))"
    by (rule calm_tracked) (simp add: core_def key_of_def)
  from calm_trans [OF calm_disk(1) this] show ?thesis by (simp add: record_video_def Some w)
qed

lemma calm_callback: "calm s (callback_do env t cb s)"
proof (cases cb)
  case OnReady
  then show ?thesis by (simp add: calm_trans [OF calm_markAnswered calm_publish_of])
next
  case OnPeerAccept
  then show ?thesis by (simp add: calm_trans [OF calm_markAnswered calm_publish_of])
next
  case (ReceiveFrame f)
  have "calm s (with_tracked t (\<lambda>x. x\<lparr>tk_Recorder := map_option (WritePeerAudio (ce_pcm env) f) (tk_Recorder x)\<rparr>) s)"
    by (rule calm_tracked) (simp add: core_def key_of_def)
  from calm_trans [OF this calm_current_stream] ReceiveFrame show ?thesis by simp
next
  case (ReceiveVideoUnit u)
  then show ?thesis by (simp add: calm_trans [OF calm_record_video calm_current_stream])
qed (simp_all add: calm_publish_of calm_current_stream)

lemma calm_player: "calm s (player_read env t len s)"
  unfolding player_read_def by (rule calm_tracked) (simp add: core_def key_of_def split: prod.split)

lemma calm_operator: "calm s (operator_write t i frame s)"
  unfolding operator_write_def by (simp add: calm_tracked core_def key_of_def)

lemma calm_inbound: "calm s (publishInboundEvent env evt s)"
  by (simp add: publishInboundEvent_def set_world_def calm_def streams_ok_def)

lemma calm_reject: "autoReject env ch lc s = (b, s') \<Longrightarrow> calm s s'"
  by (auto simp: autoReject_def Let_def publishInboundEvent_def set_world_def calm_def streams_ok_def
      split: if_splits prod.splits option.splits)

lemma calm_upload: "calm s (upload_done env t s)"
proof (cases "tk_Recorder (cs_tracked s ! t)")
  case None
  then show ?thesis by (simp add: upload_done_def)
next
  case (Some r)
  obtain rcd err r' d where f: "Finish (ce_pcm env) (ce_disk env) r (cs_disk s) = ((rcd, err), r', d)" by (metis prod.exhaust)
  define s1 where "s1 = with_tracked t (\<lambda>x. x\<lparr>tk_Recorder := Some r'\<rparr>) (s\<lparr>cs_disk := d\<rparr>)"
  have "calm (s\<lparr>cs_disk := d\<rparr>) s1" unfolding s1_def by (rule calm_tracked) (simp add: core_def key_of_def)
  then have s1: "calm s s1" using calm_trans [OF calm_disk(1)] by blast
  define s2 where "s2 = (if rec_Audio rcd \<noteq> None \<or> rec_Video rcd \<noteq> None then
      publish_of env t EventRecording (\<lambda>e. e\<lparr>ev_Media := rec_Audio rcd, ev_VideoMedia := rec_Video rcd,
        ev_PeerMedia := rec_PeerAudio rcd, ev_OperatorMedia := rec_OperatorAudio rcd\<rparr>) s1 else s1)"
  have "calm s1 s2" by (simp add: s2_def calm_publish_of)
  with s1 have s2: "calm s s2" by (rule calm_trans)
  have "upload_done env t s = (case err of None \<Rightarrow> s2 | Some e \<Rightarrow>
      publish_of env t EventCommandFailed (\<lambda>v. v\<lparr>ev_Error := Some \<lparr>ee_Code = CodeRecordingUploadFailed, ee_Reason = err_msg e\<rparr>\<rparr>) s2)"
    by (cases err) (simp_all add: upload_done_def Some f s1_def s2_def Let_def)
  then show ?thesis using s2 calm_trans [OF s2 calm_publish_of] by (simp split: option.split)
qed

section \<open>The invariant\<close>

text \<open>
  Every call is in exactly one place: in the registry under its key, with a goroutine that is about
  to finish it, or ended; and the ended events are those of the ended calls, one for each.
\<close>

definition inv_ends ::
  "call_registry \<Rightarrow> ((string \<times> string) \<times> bool \<times> bool) list \<Rightarrow> nat list \<Rightarrow> (string \<times> string) list \<Rightarrow> bool" where
  "inv_ends reg cores fin ended \<longleftrightarrow>
     reg_wf reg \<and> distinct (map fst cores) \<and> distinct fin \<and> distinct ended \<and>
     (\<forall>ch c t. reg_Get ch c reg = Some t \<longrightarrow> t < length cores \<and> fst (cores ! t) = (ch, c) \<and> t \<notin> set fin \<and> \<not> fst (snd (cores ! t))) \<and>
     (\<forall>t\<in>set fin. t < length cores \<and> \<not> fst (snd (cores ! t))) \<and>
     (\<forall>t<length cores. \<not> fst (snd (cores ! t)) \<longrightarrow> t \<in> set fin \<or> reg_Get (fst (fst (cores ! t))) (snd (fst (cores ! t))) reg = Some t) \<and>
     (\<forall>t<length cores. fst (snd (cores ! t)) = snd (snd (cores ! t))) \<and>
     set ended = {fst (cores ! t) |t. t < length cores \<and> fst (snd (cores ! t))}"

text \<open>Every stream is closed, about to be closed, or the current one of a call that has not ended.\<close>

definition inv_streams :: "(nat option \<times> bool) list \<Rightarrow> bool list \<Rightarrow> nat list \<Rightarrow> bool" where
  "inv_streams curs closed closing \<longleftrightarrow>
     (\<forall>i<length closed. closed ! i \<or> i \<in> set closing \<or> (\<exists>t<length curs. curs ! t = (Some i, False))) \<and>
     (\<forall>t<length curs. snd (curs ! t) \<longrightarrow> fst (curs ! t) = None) \<and>
     (\<forall>t<length curs. \<forall>i. fst (curs ! t) = Some i \<longrightarrow> i < length closed)"

definition ended_keys :: "('l, 'f, 'p, 'w) calls \<Rightarrow> (string \<times> string) list" where
  "ended_keys s = map (\<lambda>e. (ev_ChannelID e, ev_CallID e)) (filter (\<lambda>e. ev_Type e = EventEnded) (cs_events s))"

definition sys_inv :: "('l, 'f, 'p, 'w) call_system \<Rightarrow> bool" where
  "sys_inv y \<longleftrightarrow>
     (let s = sy_calls y in
      inv_ends (cs_registry s) (map core (cs_tracked s)) (map fst (sy_finishing y)) (ended_keys s) \<and> streams_ok s \<and>
      inv_streams (map (\<lambda>x. (tk_Stream x, tk_finished x)) (cs_tracked s)) (map sm_closed (cs_streams s)) (sy_closing y))"

lemma core_simps [simp]: "fst (core x) = key_of x" "fst (snd (core x)) = tk_ended x" "snd (snd (core x)) = tk_finished x"
  by (simp_all add: core_def)

lemma inv_streams_closed_mono:
  assumes "inv_streams curs closed closing" "length closed' = length closed"
    and "\<And>i. i < length closed \<Longrightarrow> closed ! i \<Longrightarrow> closed' ! i"
  shows "inv_streams curs closed' closing"
  using assms unfolding inv_streams_def by metis

lemma calm_curs:
  assumes "calm s s'"
  shows "map (\<lambda>x. (tk_Stream x, tk_finished x)) (cs_tracked s') = map (\<lambda>x. (tk_Stream x, tk_finished x)) (cs_tracked s)"
proof -
  have "map (\<lambda>x. (tk_Stream x, tk_finished x)) xs = zip (map tk_Stream xs) (map (snd \<circ> snd) (map core xs))" for xs :: "('a, 'b, 'c) Tracked list"
    by (simp add: zip_map_map zip_same_conv_map o_def)
  then show ?thesis using assms by (simp only: calm_def)
qed

lemma sys_invD:
  assumes "sys_inv y"
  shows "inv_ends (cs_registry (sy_calls y)) (map core (cs_tracked (sy_calls y))) (map fst (sy_finishing y)) (ended_keys (sy_calls y))"
    "streams_ok (sy_calls y)"
    "inv_streams (map (\<lambda>x. (tk_Stream x, tk_finished x)) (cs_tracked (sy_calls y))) (map sm_closed (cs_streams (sy_calls y))) (sy_closing y)"
  using assms unfolding sys_inv_def Let_def by blast+

lemma sys_invI:
  assumes "inv_ends (cs_registry s) (map core (cs_tracked s)) (map fst fin) (ended_keys s)" "streams_ok s"
    "inv_streams (map (\<lambda>x. (tk_Stream x, tk_finished x)) (cs_tracked s)) (map sm_closed (cs_streams s)) closing"
  shows "sys_inv \<lparr>sy_calls = s, sy_finishing = fin, sy_closing = closing\<rparr>"
  using assms by (simp add: sys_inv_def Let_def)

lemma calm_inv:
  assumes "sys_inv y" "calm (sy_calls y) s'"
  shows "sys_inv (y\<lparr>sy_calls := s'\<rparr>)"
proof -
  let ?s = "sy_calls y"
  note c = assms(2) [unfolded calm_def] and i = sys_invD [OF assms(1)]
  have e: "ended_keys s' = ended_keys ?s" using c by (simp add: ended_keys_def)
  have l: "length (map sm_closed (cs_streams s')) = length (map sm_closed (cs_streams ?s))" using c by simp
  have m: "map sm_closed (cs_streams ?s) ! j \<Longrightarrow> map sm_closed (cs_streams s') ! j" if "j < length (map sm_closed (cs_streams ?s))" for j
    using c that by simp
  have "sys_inv \<lparr>sy_calls = s', sy_finishing = sy_finishing y, sy_closing = sy_closing y\<rparr>"
  proof (rule sys_invI)
    show "inv_ends (cs_registry s') (map core (cs_tracked s')) (map fst (sy_finishing y)) (ended_keys s')"
      using i(1) e c by (simp only:)
    show "streams_ok s'" using i(2) c by blast
    show "inv_streams (map (\<lambda>x. (tk_Stream x, tk_finished x)) (cs_tracked s')) (map sm_closed (cs_streams s')) (sy_closing y)"
      unfolding calm_curs [OF assms(2)] using inv_streams_closed_mono [OF i(3) l m] .
  qed
  then show ?thesis by (cases y) simp
qed

text \<open>The parts of \<open>inv_ends\<close>, with the key of a call and whether it has ended as functions.\<close>

definition ends_wf ::
  "(string \<Rightarrow> string \<Rightarrow> nat option) \<Rightarrow> nat \<Rightarrow> (nat \<Rightarrow> string \<times> string) \<Rightarrow> (nat \<Rightarrow> bool) \<Rightarrow> nat list \<Rightarrow> (string \<times> string) set \<Rightarrow> bool" where
  "ends_wf get n K E fin ended \<longleftrightarrow>
     (\<forall>t<n. \<forall>t'<n. K t = K t' \<longrightarrow> t = t') \<and>
     (\<forall>ch c t. get ch c = Some t \<longrightarrow> t < n \<and> K t = (ch, c) \<and> t \<notin> set fin \<and> \<not> E t) \<and>
     (\<forall>t\<in>set fin. t < n \<and> \<not> E t) \<and>
     (\<forall>t<n. \<not> E t \<longrightarrow> t \<in> set fin \<or> get (fst (K t)) (snd (K t)) = Some t) \<and>
     ended = {K t |t. t < n \<and> E t}"

lemma inv_ends_alt:
  "inv_ends reg cores fin ended \<longleftrightarrow> reg_wf reg \<and> distinct fin \<and> distinct ended \<and>
     (\<forall>t<length cores. fst (snd (cores ! t)) = snd (snd (cores ! t))) \<and>
     ends_wf (\<lambda>ch c. reg_Get ch c reg) (length cores) (\<lambda>t. fst (cores ! t)) (\<lambda>t. fst (snd (cores ! t))) fin (set ended)"
  unfolding inv_ends_def ends_wf_def distinct_conv_nth [of "map fst cores"] by auto

lemma ends_wf_cong:
  "(\<And>t. t < n \<Longrightarrow> K t = K' t \<and> E t = E' t) \<Longrightarrow> ends_wf get n K E fin ended = ends_wf get n K' E' fin ended"
  unfolding ends_wf_def by (smt (verit) Collect_cong)

lemma ends_wf_track:
  assumes "ends_wf get n K E fin ended" "\<forall>t<n. K t \<noteq> (ch, c)" "K n = (ch, c)" "\<not> E n"
  shows "ends_wf (\<lambda>a b. if a = ch \<and> b = c then Some n else get a b) (Suc n) K E fin ended"
proof -
  have a: "\<forall>t<n. \<forall>t'<n. K t = K t' \<longrightarrow> t = t'"
    and b: "\<And>a b t. get a b = Some t \<Longrightarrow> t < n \<and> K t = (a, b) \<and> t \<notin> set fin \<and> \<not> E t"
    and f: "\<forall>t\<in>set fin. t < n \<and> \<not> E t"
    and p: "\<And>t. t < n \<Longrightarrow> \<not> E t \<Longrightarrow> t \<in> set fin \<or> get (fst (K t)) (snd (K t)) = Some t"
    and e: "ended = {K t |t. t < n \<and> E t}" using assms(1) by (auto simp: ends_wf_def)
  have none: "get ch c = None" using b [of ch c] assms(2) by (cases "get ch c") auto
  show ?thesis
    unfolding ends_wf_def
  proof (intro conjI)
    show "\<forall>t<Suc n. \<forall>t'<Suc n. K t = K t' \<longrightarrow> t = t'" using a assms(2,3) by (auto simp: less_Suc_eq)
    show "\<forall>a b t. (if a = ch \<and> b = c then Some n else get a b) = Some t \<longrightarrow> t < Suc n \<and> K t = (a, b) \<and> t \<notin> set fin \<and> \<not> E t"
      using b f assms(3,4) by (auto split: if_splits dest: less_SucI)
    show "\<forall>t\<in>set fin. t < Suc n \<and> \<not> E t" using f by auto
    show "\<forall>t<Suc n. \<not> E t \<longrightarrow> t \<in> set fin \<or> (if fst (K t) = ch \<and> snd (K t) = c then Some n else get (fst (K t)) (snd (K t))) = Some t"
      using p assms(2,3) by (auto simp: less_Suc_eq prod_eq_iff)
    show "ended = {K t |t. t < Suc n \<and> E t}" using e assms(4) by (auto simp: less_Suc_eq)
  qed
qed

lemma ends_wf_take:
  assumes "ends_wf get n K E fin ended" "\<And>t. t \<in> set ts \<longleftrightarrow> (\<exists>a b. P a b \<and> get a b = Some t)"
  shows "ends_wf (\<lambda>a b. if P a b then None else get a b) n K E (fin @ ts) ended"
proof -
  have b: "\<And>a b t. get a b = Some t \<Longrightarrow> t < n \<and> K t = (a, b) \<and> t \<notin> set fin \<and> \<not> E t"
    using assms(1) by (auto simp: ends_wf_def)
  have t: "t < n \<and> \<not> E t \<and> P (fst (K t)) (snd (K t))" if "t \<in> set ts" for t
  proof -
    from that assms(2) obtain a c where "P a c" "get a c = Some t" by blast
    with b [of a c t] show ?thesis by simp
  qed
  have a: "\<forall>t<n. \<forall>t'<n. K t = K t' \<longrightarrow> t = t'" and f: "\<forall>t\<in>set fin. t < n \<and> \<not> E t"
    and p: "\<And>t. t < n \<Longrightarrow> \<not> E t \<Longrightarrow> t \<in> set fin \<or> get (fst (K t)) (snd (K t)) = Some t"
    and e: "ended = {K t |t. t < n \<and> E t}" using assms(1) by (auto simp: ends_wf_def)
  show ?thesis
    unfolding ends_wf_def
  proof (intro conjI)
    show "\<forall>a c t. (if P a c then None else get a c) = Some t \<longrightarrow> t < n \<and> K t = (a, c) \<and> t \<notin> set (fin @ ts) \<and> \<not> E t"
      using b t by (metis Un_iff fst_conv option.distinct(1) set_append snd_conv)
    show "\<forall>t<n. \<not> E t \<longrightarrow> t \<in> set (fin @ ts) \<or> (if P (fst (K t)) (snd (K t)) then None else get (fst (K t)) (snd (K t))) = Some t"
      using p assms(2) by (metis Un_iff set_append)
    show "\<forall>t\<in>set (fin @ ts). t < n \<and> \<not> E t" using f t by auto
  qed (use a e in blast)+
qed

lemma ends_wf_finish:
  assumes "ends_wf get n K E fin ended" "t \<in> set fin" "distinct fin"
  shows "ends_wf get n K (E(t := True)) (remove1 t fin) (insert (K t) ended)"
proof -
  have b: "\<And>a b t. get a b = Some t \<Longrightarrow> t < n \<and> K t = (a, b) \<and> t \<notin> set fin \<and> \<not> E t" and n: "t < n" "\<not> E t"
    using assms(1,2) by (auto simp: ends_wf_def)
  have f: "set (remove1 t fin) = set fin - {t}" using assms(3) by (rule set_remove1_eq)
  show ?thesis
    unfolding ends_wf_def f
  proof (intro conjI)
    show "\<forall>a b t'. get a b = Some t' \<longrightarrow> t' < n \<and> K t' = (a, b) \<and> t' \<notin> set fin - {t} \<and> \<not> (E(t := True)) t'"
      using b assms(2) by (metis DiffE fun_upd_apply)
    show "insert (K t) ended = {K u |u. u < n \<and> (E(t := True)) u}"
      using assms(1) n unfolding ends_wf_def by auto
  qed (use assms in \<open>auto simp: ends_wf_def\<close>)
qed

lemma streams_open_call:
  assumes "inv_streams curs closed closing" "i < length closed" "\<not> closed ! i" "i \<notin> set closing"
  shows "\<exists>t<length curs. curs ! t = (Some i, False)"
  using assms by (auto simp: inv_streams_def)

lemma streams_track:
  assumes "inv_streams curs closed closing"
  shows "inv_streams (curs @ [(None, False)]) closed closing"
proof -
  have "\<exists>t<length (curs @ [(None, False)]). (curs @ [(None, False)]) ! t = (Some i, False)"
    if "t < length curs" "curs ! t = (Some i, False)" for t i
    using that by (intro exI [of _ t]) (simp add: nth_append)
  then show ?thesis
    using assms unfolding inv_streams_def by (auto simp: nth_append less_Suc_eq)
qed

lemma core_nth: "t < length xs \<Longrightarrow> map core xs ! t = core (xs ! t)"
  by simp

lemma Track_effect:
  assumes "Track env ch lc dir rcd s = (t, s')"
  shows "t = length (cs_tracked s) \<and> (\<exists>x. cs_tracked s' = cs_tracked s @ [x] \<and> core x = ((ch, ce_ID env lc), False, False) \<and>
      tk_Stream x = None) \<and> cs_registry s' = reg_Insert ch (ce_ID env lc) (length (cs_tracked s)) (cs_registry s) \<and>
    cs_events s' = cs_events s \<and> cs_streams s' = cs_streams s \<and> cs_panicked s' = cs_panicked s"
  using assms by (auto simp: Track_def Let_def set_world_def core_def key_of_def split: prod.splits)

lemma track_inv:
  assumes inv: "sys_inv y" and key: "(ch, ce_ID env lc) \<notin> key_of ` set (cs_tracked (sy_calls y))"
    and tr: "Track env ch lc dir rcd (sy_calls y) = (t, s')"
  shows "sys_inv (y\<lparr>sy_calls := s'\<rparr>)"
proof -
  let ?s = "sy_calls y" let ?T = "cs_tracked (sy_calls y)" let ?n = "length (cs_tracked (sy_calls y))"
  note i = sys_invD [OF inv]
  from Track_effect [OF tr] obtain x where x: "cs_tracked s' = ?T @ [x]" "core x = ((ch, ce_ID env lc), False, False)" "tk_Stream x = None"
    and r: "cs_registry s' = reg_Insert ch (ce_ID env lc) ?n (cs_registry ?s)" and o: "cs_events s' = cs_events ?s"
    "cs_streams s' = cs_streams ?s" "cs_panicked s' = cs_panicked ?s" by blast
  from x(2) have fx: "tk_finished x = False" by (simp add: core_def)
  have k: "key_of (?T ! u) \<noteq> (ch, ce_ID env lc)" if "u < ?n" for u
    using key imageI [OF nth_mem [OF that], of key_of] by fastforce
  note a = i(1) [unfolded inv_ends_alt]
  have w: "ends_wf (\<lambda>ch c. reg_Get ch c (cs_registry ?s)) ?n (\<lambda>t. fst (map core (?T @ [x]) ! t)) (\<lambda>t. fst (snd (map core (?T @ [x]) ! t)))
      (map fst (sy_finishing y)) (set (ended_keys ?s))"
    using a ends_wf_cong [of ?n "\<lambda>t. fst (map core (?T @ [x]) ! t)" "\<lambda>t. fst (map core ?T ! t)"
        "\<lambda>t. fst (snd (map core (?T @ [x]) ! t))" "\<lambda>t. fst (snd (map core ?T ! t))"]
    by (simp add: nth_append)
  have w': "ends_wf (\<lambda>a b. reg_Get a b (cs_registry s')) (Suc ?n) (\<lambda>t. fst (map core (?T @ [x]) ! t)) (\<lambda>t. fst (snd (map core (?T @ [x]) ! t)))
      (map fst (sy_finishing y)) (set (ended_keys ?s))"
    unfolding r reg_Get_Insert by (rule ends_wf_track [OF w]) (use k x(2) in \<open>simp_all add: nth_append\<close>)
  have "sys_inv \<lparr>sy_calls = s', sy_finishing = sy_finishing y, sy_closing = sy_closing y\<rparr>"
  proof (rule sys_invI)
    show "inv_ends (cs_registry s') (map core (cs_tracked s')) (map fst (sy_finishing y)) (ended_keys s')"
    proof -
      have "\<forall>t<Suc ?n. fst (snd (map core (?T @ [x]) ! t)) = snd (snd (map core (?T @ [x]) ! t))"
        using a x(2) by (simp add: nth_append less_Suc_eq)
      moreover have "ended_keys s' = ended_keys ?s" using o(1) by (simp add: ended_keys_def)
      moreover have "reg_wf (cs_registry s')" using a r reg_wf_Insert by simp
      ultimately show ?thesis unfolding inv_ends_alt x(1) using a w' by simp
    qed
    show "streams_ok s'" using i(2) o by (simp add: streams_ok_def)
    show "inv_streams (map (\<lambda>x. (tk_Stream x, tk_finished x)) (cs_tracked s')) (map sm_closed (cs_streams s')) (sy_closing y)"
      using streams_track [OF i(3)] x(1,3) o(2) fx by simp
  qed
  then show ?thesis by (cases y) simp
qed

lemma take_inv:
  assumes inv: "sys_inv y" and w: "reg_wf r" "distinct (map fst new)" "set (map fst new) \<inter> set (map fst (sy_finishing y)) = {}"
    and get: "\<And>a b. reg_Get a b r = (if P a b then None else reg_Get a b (cs_registry (sy_calls y)))"
    and ts: "\<And>t. t \<in> set (map fst new) \<longleftrightarrow> (\<exists>a b. P a b \<and> reg_Get a b (cs_registry (sy_calls y)) = Some t)"
  shows "sys_inv (y\<lparr>sy_calls := (sy_calls y)\<lparr>cs_registry := r\<rparr>, sy_finishing := sy_finishing y @ new\<rparr>)"
proof -
  let ?s = "sy_calls y"
  note i = sys_invD [OF inv]
  note a = i(1) [unfolded inv_ends_alt]
  have e: "ended_keys (?s\<lparr>cs_registry := r\<rparr>) = ended_keys ?s" by (simp add: ended_keys_def)
  have "sys_inv \<lparr>sy_calls = ?s\<lparr>cs_registry := r\<rparr>, sy_finishing = sy_finishing y @ new, sy_closing = sy_closing y\<rparr>"
  proof (rule sys_invI)
    show "inv_ends (cs_registry (?s\<lparr>cs_registry := r\<rparr>)) (map core (cs_tracked (?s\<lparr>cs_registry := r\<rparr>)))
       (map fst (sy_finishing y @ new)) (ended_keys (?s\<lparr>cs_registry := r\<rparr>))"
      unfolding inv_ends_alt e using a w ends_wf_take [OF _ ts, of _ _ _ "map fst (sy_finishing y)" "set (ended_keys ?s)"] get
      by (auto simp: get)
    show "streams_ok (?s\<lparr>cs_registry := r\<rparr>)" using i(2) by (simp add: streams_ok_def)
    show "inv_streams (map (\<lambda>x. (tk_Stream x, tk_finished x)) (cs_tracked (?s\<lparr>cs_registry := r\<rparr>)))
       (map sm_closed (cs_streams (?s\<lparr>cs_registry := r\<rparr>))) (sy_closing y)" using i(3) by simp
  qed
  then show ?thesis by (cases y) simp
qed

lemma stream_close_closes: "stream_close st = Some st' \<Longrightarrow> sm_closed st'"
  by (auto simp: stream_close_def close_flag_def close_chans_def split: if_splits)

lemma with_stream_close:
  assumes "streams_ok s"
  shows "streams_ok (with_stream i stream_close s)"
    "i < length (cs_streams s) \<Longrightarrow> map sm_closed (cs_streams (with_stream i stream_close s)) = (map sm_closed (cs_streams s))[i := True]"
    "cs_tracked (with_stream i stream_close s) = cs_tracked s" "cs_registry (with_stream i stream_close s) = cs_registry s"
    "cs_events (with_stream i stream_close s) = cs_events s"
proof -
  have c: "calm s (with_stream i stream_close s)" by (simp add: calm_stream)
  then show "streams_ok (with_stream i stream_close s)" using assms by (simp add: calm_def)
  show "map sm_closed (cs_streams (with_stream i stream_close s)) = (map sm_closed (cs_streams s))[i := True]"
    if i: "i < length (cs_streams s)"
  proof -
    have "stream_wf (cs_streams s ! i) \<and> sm_closers (cs_streams s ! i) = 0" using assms i by (simp add: streams_ok_def)
    then obtain st where st: "stream_close (cs_streams s ! i) = Some st"
      using stream_keeps_ops(4) unfolding stream_keeps_def by blast
    then show ?thesis using i stream_close_closes [OF st] by (simp add: with_stream_def map_update)
  qed
qed (auto simp: with_stream_def split: option.splits)

lemma streams_finish:
  assumes "inv_streams curs closed closing" "t < length curs"
  shows "inv_streams (curs[t := (None, True)])
    (case fst (curs ! t) of None \<Rightarrow> closed | Some i \<Rightarrow> closed[i := True]) closing"
proof -
  let ?closed = "case fst (curs ! t) of None \<Rightarrow> closed | Some i \<Rightarrow> closed[i := True]"
  have len: "length ?closed = length closed" by (simp split: option.split)
  have "?closed ! i \<or> i \<in> set closing \<or> (\<exists>u<length curs. curs[t := (None, True)] ! u = (Some i, False))"
    if i: "i < length closed" for i
  proof (cases "closed ! i \<or> i \<in> set closing")
    case True
    moreover have "fst (curs ! t) = Some j \<Longrightarrow> j < length closed" for j using assms by (simp add: inv_streams_def)
    ultimately show ?thesis using i by (auto simp: nth_list_update split: option.split)
  next
    case False
    then obtain u where u: "u < length curs" "curs ! u = (Some i, False)" using assms(1) i by (auto simp: inv_streams_def)
    show ?thesis
    proof (cases "u = t")
      case True
      then show ?thesis using u i by simp
    next
      case False
      then show ?thesis using u by (intro disjI2 exI [of _ u]) simp
    qed
  qed
  then show ?thesis
    using assms unfolding inv_streams_def len by (simp add: nth_list_update)
qed

lemma finish_effect:
  assumes "t < length (cs_tracked s)" "\<not> tk_ended (cs_tracked s ! t)" "streams_ok s"
    and "\<And>i. tk_Stream (cs_tracked s ! t) = Some i \<Longrightarrow> i < length (cs_streams s)"
  shows "let s' = finish env t reason s; x = cs_tracked s ! t in
    cs_registry s' = cs_registry s \<and> streams_ok s' \<and>
    (\<exists>x'. cs_tracked s' = (cs_tracked s)[t := x'] \<and> core x' = (key_of x, True, True) \<and> tk_Stream x' = None) \<and>
    ended_keys s' = ended_keys s @ [key_of x] \<and>
    map sm_closed (cs_streams s') = (case tk_Stream x of None \<Rightarrow> map sm_closed (cs_streams s)
       | Some i \<Rightarrow> (map sm_closed (cs_streams s))[i := True])"
proof -
  define x where "x = cs_tracked s ! t"
  define x1 where "x1 = x\<lparr>tk_ended := True, tk_Stream := None, tk_finished := True\<rparr>"
  define s1 where "s1 = with_tracked t (\<lambda>_. x1\<lparr>tk_outbound := audio_Close (tk_outbound x1)\<rparr>) s"
  define s2 where "s2 = (case tk_Stream x of None \<Rightarrow> s1 | Some i \<Rightarrow> with_stream i stream_close s1)"
  define s3 where "s3 = call_publish env (ended_event env (cs_world s2) x1 reason) s2"
  have f: "finish env t reason s = (if tk_Recorder x1 \<noteq> None then s3\<lparr>cs_uploads := cs_uploads s3 @ [t]\<rparr> else s3)"
    using assms(2) by (cases "tk_Stream x"; cases "tk_Recorder x")
      (simp_all add: finish_def x_def [symmetric] x1_def s1_def s2_def s3_def finishStream_def Let_def)
  have s1: "cs_tracked s1 = (cs_tracked s)[t := x1\<lparr>tk_outbound := audio_Close (tk_outbound x1)\<rparr>]" "cs_registry s1 = cs_registry s"
    "cs_events s1 = cs_events s" "cs_streams s1 = cs_streams s" "streams_ok s1"
    using assms(1,3) by (simp_all add: s1_def with_tracked_def streams_ok_def)
  have s2: "cs_tracked s2 = cs_tracked s1" "cs_registry s2 = cs_registry s1" "cs_events s2 = cs_events s1" "streams_ok s2"
    using with_stream_close [OF s1(5)] s1(5) by (simp_all add: s2_def split: option.split)
  have cl: "map sm_closed (cs_streams s2) = (case tk_Stream x of None \<Rightarrow> map sm_closed (cs_streams s)
       | Some i \<Rightarrow> (map sm_closed (cs_streams s))[i := True])"
    using with_stream_close(2) [OF s1(5)] assms(4) s1(4) by (simp add: s2_def x_def split: option.split)
  have ev: "ev_Type (ended_event env w x1 reason) = EventEnded" "ev_ChannelID (ended_event env w x1 reason) = tk_ChannelID x"
    "ev_CallID (ended_event env w x1 reason) = tk_CallID x" for w
    by (simp_all add: ended_event_def call_event_def Let_def x1_def)
  have s3: "cs_tracked s3 = cs_tracked s2" "cs_registry s3 = cs_registry s2" "cs_streams s3 = cs_streams s2" "streams_ok s3"
    "ended_keys s3 = ended_keys s @ [key_of x]"
    using s2 s1(3) ev by (simp_all add: s3_def call_publish_def set_world_def streams_ok_def ended_keys_def key_of_def)
  have "core (x1\<lparr>tk_outbound := audio_Close (tk_outbound x1)\<rparr>) = (key_of x, True, True) \<and>
      tk_Stream (x1\<lparr>tk_outbound := audio_Close (tk_outbound x1)\<rparr>) = None"
    by (simp add: x1_def core_def key_of_def)
  then show ?thesis
    using s1 s2 s3 cl unfolding Let_def f x_def [symmetric]
    by (auto simp: streams_ok_def ended_keys_def)
qed

lemma sys_finishing_open:
  assumes "sys_inv y" "(t, reason) \<in> set (sy_finishing y)"
  shows "t < length (cs_tracked (sy_calls y))" "\<not> tk_ended (cs_tracked (sy_calls y) ! t)"
proof -
  have "t \<in> set (map fst (sy_finishing y))" using assms(2) by force
  then have "t < length (cs_tracked (sy_calls y)) \<and> \<not> fst (snd (map core (cs_tracked (sy_calls y)) ! t))"
    using sys_invD(1) [OF assms(1)] unfolding inv_ends_def by (simp only: length_map) blast
  then show "t < length (cs_tracked (sy_calls y))" "\<not> tk_ended (cs_tracked (sy_calls y) ! t)" by auto
qed

lemma map_fst_remove1: "distinct (map fst xs) \<Longrightarrow> (t, v) \<in> set xs \<Longrightarrow> map fst (remove1 (t, v) xs) = remove1 t (map fst xs)"
  by (induction xs) force+

lemma finish_inv:
  assumes inv: "sys_inv y" and fin: "(t, reason) \<in> set (sy_finishing y)"
  shows "sys_inv (y\<lparr>sy_calls := finish env t reason (sy_calls y), sy_finishing := remove1 (t, reason) (sy_finishing y)\<rparr>)"
proof -
  let ?s = "sy_calls y" let ?T = "cs_tracked (sy_calls y)" let ?n = "length (cs_tracked (sy_calls y))"
  let ?s' = "finish env t reason ?s"
  note i = sys_invD [OF inv] and o = sys_finishing_open [OF inv fin]
  note a = i(1) [unfolded inv_ends_alt]
  have tin: "t \<in> set (map fst (sy_finishing y))" using fin by force
  have str: "tk_Stream (?T ! t) = Some j \<Longrightarrow> j < length (cs_streams ?s)" for j
    using i(3) o(1) by (simp add: inv_streams_def)
  from finish_effect [OF o i(2) str, of env reason] obtain x' where e: "cs_registry ?s' = cs_registry ?s" "streams_ok ?s'"
    "cs_tracked ?s' = ?T[t := x']" "core x' = (key_of (?T ! t), True, True)" "tk_Stream x' = None"
    "ended_keys ?s' = ended_keys ?s @ [key_of (?T ! t)]"
    "map sm_closed (cs_streams ?s') = (case tk_Stream (?T ! t) of None \<Rightarrow> map sm_closed (cs_streams ?s)
       | Some i \<Rightarrow> (map sm_closed (cs_streams ?s))[i := True])"
    unfolding Let_def by blast
  have "sys_inv \<lparr>sy_calls = ?s', sy_finishing = remove1 (t, reason) (sy_finishing y), sy_closing = sy_closing y\<rparr>"
  proof (rule sys_invI)
    let ?E = "\<lambda>u. fst (snd (map core ?T ! u))" let ?K = "\<lambda>u. fst (map core ?T ! u)"
    have w: "ends_wf (\<lambda>ch c. reg_Get ch c (cs_registry ?s)) ?n ?K (?E(t := True)) (remove1 t (map fst (sy_finishing y)))
        (insert (?K t) (set (ended_keys ?s)))"
    proof (rule ends_wf_finish [OF _ tin])
      show "ends_wf (\<lambda>ch c. reg_Get ch c (cs_registry ?s)) ?n ?K ?E (map fst (sy_finishing y)) (set (ended_keys ?s))" using a by simp
      show "distinct (map fst (sy_finishing y))" using a by simp
    qed
    have w2: "ends_wf (\<lambda>ch c. reg_Get ch c (cs_registry ?s)) ?n (\<lambda>u. fst ((map core ?T)[t := core x'] ! u))
        (\<lambda>u. fst (snd ((map core ?T)[t := core x'] ! u))) (remove1 t (map fst (sy_finishing y))) (insert (?K t) (set (ended_keys ?s)))"
      using w ends_wf_cong [of ?n "\<lambda>u. fst ((map core ?T)[t := core x'] ! u)" ?K "\<lambda>u. fst (snd ((map core ?T)[t := core x'] ! u))" "?E(t := True)"]
        e(4) by (simp add: nth_list_update)
    have new: "key_of (?T ! t) \<notin> set (ended_keys ?s)"
    proof
      assume "key_of (?T ! t) \<in> set (ended_keys ?s)"
      then obtain u where u: "u < ?n" "tk_ended (?T ! u)" "key_of (?T ! u) = key_of (?T ! t)"
        using a unfolding ends_wf_def by auto
      then have "u = t" using a o(1) unfolding ends_wf_def by simp
      with u o(2) show False by simp
    qed
    have fe: "\<forall>u<?n. fst (snd ((map core ?T)[t := core x'] ! u)) = snd (snd ((map core ?T)[t := core x'] ! u))"
      using a e(4) o(1) by (simp add: nth_list_update)
    show "inv_ends (cs_registry ?s') (map core (cs_tracked ?s')) (map fst (remove1 (t, reason) (sy_finishing y))) (ended_keys ?s')"
      unfolding inv_ends_alt e(1,3,6) map_update
      using a w2 new fe o(1) map_fst_remove1 [of "sy_finishing y" t reason] fin by simp
    show "streams_ok ?s'" by (rule e(2))
    have "tk_finished x'" using e(4) by (simp add: core_def)
    then show "inv_streams (map (\<lambda>x. (tk_Stream x, tk_finished x)) (cs_tracked ?s')) (map sm_closed (cs_streams ?s')) (sy_closing y)"
      using streams_finish [OF i(3), of t] o(1) e(3,5,7) by (simp add: map_update)
  qed
  then show ?thesis by (cases y) simp
qed

lemma newStream_some: "\<exists>st. (newStream :: 'f stream option) = Some st \<and> stream_wf st \<and> sm_closers st = 0 \<and> \<not> sm_closed st"
  by (simp add: newStream_def requestKeyframe_def emptyStream_def try_send_def stream_wf_def)

lemma ended_keys_same: "cs_events s' = cs_events s \<Longrightarrow> ended_keys s' = ended_keys s"
  by (simp add: ended_keys_def)

text \<open>Steps that only touch the streams and the current streams of the calls.\<close>

lemma streams_step_inv:
  assumes inv: "sys_inv y" and same: "cs_registry s' = cs_registry (sy_calls y)" "cs_events s' = cs_events (sy_calls y)"
      "map core (cs_tracked s') = map core (cs_tracked (sy_calls y))" "streams_ok s'"
    and str: "inv_streams (map (\<lambda>x. (tk_Stream x, tk_finished x)) (cs_tracked s')) (map sm_closed (cs_streams s')) closing"
  shows "sys_inv (y\<lparr>sy_calls := s', sy_closing := closing\<rparr>)"
proof -
  have "sys_inv \<lparr>sy_calls = s', sy_finishing = sy_finishing y, sy_closing = closing\<rparr>"
  proof (rule sys_invI)
    show "inv_ends (cs_registry s') (map core (cs_tracked s')) (map fst (sy_finishing y)) (ended_keys s')"
      using sys_invD(1) [OF inv] by (simp only: same ended_keys_same [OF same(2)])
  qed (use same str in auto)
  then show ?thesis by (cases y) simp
qed

lemma streams_attach:
  assumes "inv_streams curs closed closing" "t < length curs" "\<not> snd (curs ! t)"
  shows "inv_streams (curs[t := (Some (length closed), False)]) (closed @ [False])
    (closing @ (case fst (curs ! t) of None \<Rightarrow> [] | Some old \<Rightarrow> [old]))"
proof -
  let ?curs = "curs[t := (Some (length closed), False)]"
  let ?closing = "closing @ (case fst (curs ! t) of None \<Rightarrow> [] | Some old \<Rightarrow> [old])"
  have "(closed @ [False]) ! i \<or> i \<in> set ?closing \<or> (\<exists>u<length ?curs. ?curs ! u = (Some i, False))"
    if i: "i < Suc (length closed)" for i
  proof (cases "i = length closed")
    case True
    then show ?thesis using assms(2) by (intro disjI2 exI [of _ t]) simp
  next
    case False
    then have i: "i < length closed" using i by simp
    show ?thesis
    proof (cases "closed ! i \<or> i \<in> set closing")
      case True
      then show ?thesis using i by (auto simp: nth_append)
    next
      case False
      then obtain u where u: "u < length curs" "curs ! u = (Some i, False)" using assms(1) i by (auto simp: inv_streams_def)
      show ?thesis
      proof (cases "u = t")
        case True
        then show ?thesis using u by simp
      next
        case False
        then show ?thesis using u by (intro disjI2 exI [of _ u]) simp
      qed
    qed
  qed
  then show ?thesis
    using assms unfolding inv_streams_def by (auto simp: nth_list_update less_SucI)
qed

lemma streams_append_closed:
  "inv_streams curs closed closing \<Longrightarrow> inv_streams curs (closed @ [True]) closing"
  unfolding inv_streams_def by (auto simp: nth_append less_Suc_eq less_SucI)

lemma attach_inv:
  fixes y :: "('l, 'f, 'p, 'w) call_system"
  assumes inv: "sys_inv y" and t: "t < length (cs_tracked (sy_calls y))" and at: "attach_set t (sy_calls y) = (res, s')"
  shows "sys_inv (y\<lparr>sy_calls := s', sy_closing := sy_closing y @ (case res of Some (i, Some old) \<Rightarrow> [old] | _ \<Rightarrow> [])\<rparr>)"
proof -
  let ?s = "sy_calls y" let ?T = "cs_tracked (sy_calls y)"
  note i = sys_invD [OF inv]
  obtain st where st: "(newStream :: 'f list stream option) = Some st" "stream_wf st" "sm_closers st = 0" "\<not> sm_closed st"
    using newStream_some by blast
  define n where "n = length (cs_streams ?s)"
  define s1 where "s1 = ?s\<lparr>cs_streams := cs_streams ?s @ [st]\<rparr>"
  have s1: "streams_ok s1" "n < length (cs_streams s1)" "map sm_closed (cs_streams s1) = map sm_closed (cs_streams ?s) @ [False]"
    "cs_tracked s1 = ?T" "cs_registry s1 = cs_registry ?s" "cs_events s1 = cs_events ?s"
    using i(2) st by (auto simp: s1_def n_def streams_ok_def)
  show ?thesis
  proof (cases "tk_finished (?T ! t)")
    case True
    then have e: "res = None" "s' = with_stream n stream_close s1"
      using at [unfolded attach_set_def st(1)] by (simp_all add: setStream_def s1_def n_def Let_def)
    note w = with_stream_close [OF s1(1), of n]
    have "map sm_closed (cs_streams s') = map sm_closed (cs_streams ?s) @ [True]"
      using w(2) s1(2,3) e(2) by (simp add: n_def list_update_append)
    then show ?thesis
      using streams_step_inv [OF inv, of s' "sy_closing y"] w s1 e streams_append_closed [OF i(3)] by simp
  next
    case False
    define x where "x = (?T ! t)\<lparr>tk_Stream := Some n\<rparr>"
    have e: "res = Some (n, tk_Stream (?T ! t))" "s' = with_tracked t (\<lambda>_. x) s1"
      using at [unfolded attach_set_def st(1)] False by (simp_all add: setStream_def s1_def n_def x_def Let_def)
    have tr: "cs_tracked s' = ?T[t := x]" "cs_streams s' = cs_streams s1" "cs_registry s' = cs_registry s1" "cs_events s' = cs_events s1"
      "cs_panicked s' = cs_panicked s1"
      using e(2) t s1(4) by (simp_all add: with_tracked_def)
    have c: "core x = core (?T ! t)" "tk_finished x = tk_finished (?T ! t)" "tk_Stream x = Some n"
      by (simp_all add: x_def core_def key_of_def)
    have "map core (cs_tracked s') = map core ?T" using tr(1) c(1) t by (simp add: map_same_update)
    moreover have "streams_ok s'" using s1(1) tr by (simp add: streams_ok_def)
    moreover have "map (\<lambda>x. (tk_Stream x, tk_finished x)) (cs_tracked s') =
        (map (\<lambda>x. (tk_Stream x, tk_finished x)) ?T)[t := (Some n, False)]"
      using tr(1) c False by (simp add: map_update)
    ultimately have "sys_inv (y\<lparr>sy_calls := s', sy_closing := sy_closing y @ (case tk_Stream (?T ! t) of None \<Rightarrow> [] | Some old \<Rightarrow> [old])\<rparr>)"
      using streams_attach [OF i(3), of t] t False s1 tr
      by (intro streams_step_inv [OF inv]) (simp_all add: n_def)
    moreover have "(case res of Some (i, Some old) \<Rightarrow> [old] | _ \<Rightarrow> []) = (case tk_Stream (?T ! t) of None \<Rightarrow> [] | Some old \<Rightarrow> [old])"
      by (simp add: e(1) split: option.split)
    ultimately show ?thesis by simp
  qed
qed

lemma streams_closed_one:
  assumes "inv_streams curs closed closing" "i < length closed"
  shows "inv_streams curs (closed[i := True]) (remove1 i closing)"
  unfolding inv_streams_def
proof (intro conjI allI impI)
  fix j assume "j < length (closed[i := True])"
  then have j: "j < length closed" by simp
  show "closed[i := True] ! j \<or> j \<in> set (remove1 i closing) \<or> (\<exists>t<length curs. curs ! t = (Some j, False))"
  proof (cases "j = i")
    case True
    then show ?thesis using assms(2) by simp
  next
    case False
    then have "closed ! j \<or> j \<in> set closing \<or> (\<exists>t<length curs. curs ! t = (Some j, False))"
      using assms(1) j by (auto simp: inv_streams_def)
    then show ?thesis using False by (auto simp: in_set_remove1)
  qed
qed (use assms in \<open>auto simp: inv_streams_def\<close>)

lemma close_inv:
  assumes inv: "sys_inv y"
  shows "sys_inv (y\<lparr>sy_calls := with_stream i stream_close (sy_calls y), sy_closing := remove1 i (sy_closing y)\<rparr>)"
proof -
  let ?s = "sy_calls y"
  note v = sys_invD [OF inv] and w = with_stream_close [OF sys_invD(2) [OF inv], of i]
  show ?thesis
  proof (cases "i < length (cs_streams ?s)")
    case True
    have "inv_streams (map (\<lambda>x. (tk_Stream x, tk_finished x)) (cs_tracked (with_stream i stream_close ?s)))
        (map sm_closed (cs_streams (with_stream i stream_close ?s))) (remove1 i (sy_closing y))"
      using streams_closed_one [OF v(3), of i] True w(2) [OF True] w(3) by simp
    then show ?thesis
      using w by (intro streams_step_inv [OF inv]) simp_all
  next
    case False
    then have "with_stream i stream_close ?s = ?s" by (simp add: with_stream_def)
    moreover have "inv_streams (map (\<lambda>x. (tk_Stream x, tk_finished x)) (cs_tracked ?s)) (map sm_closed (cs_streams ?s)) (remove1 i (sy_closing y))"
      using v(3) False unfolding inv_streams_def by (auto simp: in_set_remove1)
    ultimately show ?thesis using v(2) by (intro streams_step_inv [OF inv]) simp_all
  qed
qed

lemma streams_cleared:
  assumes "inv_streams curs closed closing" "t < length curs" "fst (curs ! t) = Some i" "closed ! i"
  shows "inv_streams (curs[t := (None, b)]) closed closing"
  unfolding inv_streams_def
proof (intro conjI allI impI)
  fix j assume j: "j < length closed"
  show "closed ! j \<or> j \<in> set closing \<or> (\<exists>u<length (curs[t := (None, b)]). curs[t := (None, b)] ! u = (Some j, False))"
  proof (cases "closed ! j \<or> j \<in> set closing")
    case False
    then obtain u where u: "u < length curs" "curs ! u = (Some j, False)" using assms(1) j by (auto simp: inv_streams_def)
    with False assms(3,4) have "u \<noteq> t" by auto
    with u show ?thesis by (intro disjI2 exI [of _ u]) simp
  qed auto
qed (use assms in \<open>auto simp: inv_streams_def nth_list_update split: if_splits\<close>)

lemma detach_clear_inv:
  assumes inv: "sys_inv y" and t: "t < length (cs_tracked (sy_calls y))" and cl: "sm_closed (cs_streams (sy_calls y) ! i)"
    "i < length (cs_streams (sy_calls y))"
  shows "sys_inv (y\<lparr>sy_calls := detach_clear t i (sy_calls y)\<rparr>)"
proof -
  let ?s = "sy_calls y" let ?T = "cs_tracked (sy_calls y)"
  note v = sys_invD [OF inv]
  show ?thesis
  proof (cases "tk_Stream (?T ! t) = Some i")
    case False
    then have "detach_clear t i ?s = ?s" by (simp add: detach_clear_def clearStream_def)
    then show ?thesis using inv by simp
  next
    case True
    define x where "x = (?T ! t)\<lparr>tk_Stream := None, tk_outbound := clearOperator (tk_outbound (?T ! t))\<rparr>"
    have e: "detach_clear t i ?s = with_tracked t (\<lambda>_. x) ?s"
      using True by (simp add: detach_clear_def clearStream_def x_def)
    have tr: "cs_tracked (detach_clear t i ?s) = ?T[t := x]" "cs_streams (detach_clear t i ?s) = cs_streams ?s"
      "cs_registry (detach_clear t i ?s) = cs_registry ?s" "cs_events (detach_clear t i ?s) = cs_events ?s"
      "cs_panicked (detach_clear t i ?s) = cs_panicked ?s"
      using e t by (simp_all add: with_tracked_def)
    have "map core (cs_tracked (detach_clear t i ?s)) = map core ?T"
      using tr(1) t by (simp add: map_same_update x_def core_def key_of_def)
    moreover have "map (\<lambda>x. (tk_Stream x, tk_finished x)) (cs_tracked (detach_clear t i ?s)) =
        (map (\<lambda>x. (tk_Stream x, tk_finished x)) ?T)[t := (None, tk_finished (?T ! t))]"
      using tr(1) by (simp add: map_update x_def)
    ultimately have "sys_inv (y\<lparr>sy_calls := detach_clear t i ?s, sy_closing := sy_closing y\<rparr>)"
      using streams_cleared [OF v(3), of t i] t True cl v(2) tr
      by (intro streams_step_inv [OF inv]) (simp_all add: streams_ok_def)
    then show ?thesis by simp
  qed
qed

section \<open>Reachable states\<close>

lemma inv_endsD:
  assumes "inv_ends reg (map core T) fin ended"
  shows "reg_Get ch c reg = Some t \<Longrightarrow> t < length T \<and> key_of (T ! t) = (ch, c) \<and> t \<notin> set fin \<and> \<not> tk_ended (T ! t)"
    "t \<in> set fin \<Longrightarrow> t < length T \<and> \<not> tk_ended (T ! t)"
    "t < length T \<Longrightarrow> \<not> tk_ended (T ! t) \<Longrightarrow> t \<in> set fin \<or> reg_Get (tk_ChannelID (T ! t)) (tk_CallID (T ! t)) reg = Some t"
    "reg_wf reg" "distinct fin" "distinct ended"
proof -
  note a = assms [unfolded inv_ends_def]
  show "t < length T \<and> key_of (T ! t) = (ch, c) \<and> t \<notin> set fin \<and> \<not> tk_ended (T ! t)" if "reg_Get ch c reg = Some t"
  proof -
    from a that have "t < length (map core T) \<and> fst (map core T ! t) = (ch, c) \<and> t \<notin> set fin \<and> \<not> fst (snd (map core T ! t))" by blast
    then show ?thesis by auto
  qed
  show "t < length T \<and> \<not> tk_ended (T ! t)" if "t \<in> set fin"
  proof -
    from a that have "t < length (map core T) \<and> \<not> fst (snd (map core T ! t))" by blast
    then show ?thesis by auto
  qed
  show "t \<in> set fin \<or> reg_Get (tk_ChannelID (T ! t)) (tk_CallID (T ! t)) reg = Some t" if "t < length T" "\<not> tk_ended (T ! t)"
  proof -
    have "t < length (map core T)" "\<not> fst (snd (map core T ! t))" using that by simp_all
    with a have "t \<in> set fin \<or> reg_Get (fst (fst (map core T ! t))) (snd (fst (map core T ! t))) reg = Some t" by blast
    then show ?thesis using that(1) by (simp add: key_of_def)
  qed
qed (use assms in \<open>auto simp: inv_ends_def\<close>)

lemma sys_inv_start: "sys_inv (call_start d)"
  unfolding call_start_def
  by (rule sys_invI) (simp_all add: NewManager_def inv_ends_def streams_ok_def inv_streams_def ended_keys_def)

lemma call_step_inv: "call_step env y y' \<Longrightarrow> sys_inv y \<Longrightarrow> sys_inv y'"
proof (induction rule: call_step.induct)
  case (track channelID lc y direction rcd)
  show ?case by (rule track_inv [OF track(2) track(1) prod.collapse [symmetric]])
next
  case (end_take t y r reason)
  let ?x = "cs_tracked (sy_calls y) ! t"
  note rm = reg_Remove_Get [OF end_take(2)]
  have i: "inv_ends (cs_registry (sy_calls y)) (map core (cs_tracked (sy_calls y))) (map fst (sy_finishing y)) (ended_keys (sy_calls y))"
    using sys_invD(1) [OF end_take(3)] .
  obtain t' where t': "reg_Get (tk_ChannelID ?x) (tk_CallID ?x) (cs_registry (sy_calls y)) = Some t'" using rm(1) by auto
  have "t' < length (map core (cs_tracked (sy_calls y))) \<and> fst (map core (cs_tracked (sy_calls y)) ! t') = (tk_ChannelID ?x, tk_CallID ?x) \<and>
      t' \<notin> set (map fst (sy_finishing y))"
    using i t' unfolding inv_ends_def by blast
  then have g: "t' < length (cs_tracked (sy_calls y))" "key_of (cs_tracked (sy_calls y) ! t') = key_of ?x"
      "t' \<notin> set (map fst (sy_finishing y))"
    by (auto simp: key_of_def)
  have "distinct (map fst (map core (cs_tracked (sy_calls y))))" using i by (simp add: inv_ends_def)
  then have "t' = t" using g(1,2) end_take(1) by (simp add: distinct_conv_nth) metis
  note g = g [unfolded this] and t' = t' [unfolded this]
  have wf: "reg_wf r" using i reg_wf_Remove [OF _ end_take(2)] by (simp add: inv_ends_def)
  show ?case
  proof (rule take_inv [OF end_take(3) wf, where P = "\<lambda>a b. a = tk_ChannelID ?x \<and> b = tk_CallID ?x"])
    show "set (map fst [(t, reason)]) \<inter> set (map fst (sy_finishing y)) = {}" using g(3) by simp
    show "u \<in> set (map fst [(t, reason)]) \<longleftrightarrow>
        (\<exists>a b. (a = tk_ChannelID ?x \<and> b = tk_CallID ?x) \<and> reg_Get a b (cs_registry (sy_calls y)) = Some u)" for u
      using t' by auto
  qed (simp_all add: rm(2))
next
  case (abort_take channelID y ts r reason)
  have i: "inv_ends (cs_registry (sy_calls y)) (map core (cs_tracked (sy_calls y))) (map fst (sy_finishing y)) (ended_keys (sy_calls y))"
    using sys_invD(1) [OF abort_take(2)] .
  note wf = inv_endsD(4) [OF i] and g = inv_endsD(1) [OF i]
  note tk = reg_Take_Get [OF wf abort_take(1)]
  have d: "distinct ts"
  proof (rule reg_Take_distinct [OF wf abort_take(1)])
    fix c c' t assume "reg_Get channelID c (cs_registry (sy_calls y)) = Some t" "reg_Get channelID c' (cs_registry (sy_calls y)) = Some t"
    with g [of channelID c t] g [of channelID c' t] show "c = c'" by simp
  qed
  have m: "map fst (map (\<lambda>t. (t, reason)) ts) = ts" by (simp add: o_def)
  show ?case
    by (rule take_inv [OF abort_take(2) tk(3), where P = "\<lambda>a b. a = channelID"])
      (use d m tk g in \<open>force simp: o_def\<close>)+
next
  case (reject channelID lc y s)
  show ?case by (rule calm_inv [OF reject(2) calm_reject [OF reject(1)]])
next
  case (inbound y evt)
  show ?case by (rule calm_inv [OF inbound calm_inbound])
next
  case (publish evt y)
  show ?case by (rule calm_inv [OF publish(2) calm_call_publish [OF publish(1)]])
next
  case (callback t y cb)
  show ?case by (rule calm_inv [OF callback(2) calm_callback])
next
  case (player t y len)
  show ?case by (rule calm_inv [OF player(2) calm_player])
next
  case (operator t y i frame)
  show ?case by (rule calm_inv [OF operator(2) calm_operator])
next
  case (announce t y data)
  show ?case by (rule calm_inv [OF announce(2)]) (simp add: calm_tracked core_def key_of_def)
next
  case (library y w)
  show ?case by (rule calm_inv [OF library calm_world])
next
  case (finish t reason y)
  show ?case by (rule finish_inv [OF finish(2) finish(1)])
next
  case (attach t y res s)
  show ?case by (rule attach_inv [OF attach(3) attach(1) attach(2)])
next
  case (close i y)
  show ?case by (rule close_inv [OF close(2)])
next
  case (detach_close i y)
  show ?case by (rule calm_inv [OF detach_close(2) calm_stream [OF stream_keeps_ops(4)]])
next
  case (detach_clear t y i)
  show ?case by (rule detach_clear_inv [OF detach_clear(4) detach_clear(1) detach_clear(3) detach_clear(2)])
next
  case (upload t y)
  show ?case by (rule calm_inv [OF upload(2) calm_trans [OF calm_disk(2) calm_upload]])
qed

lemma reachable_inv: "(call_step env)\<^sup>*\<^sup>* (call_start d) y \<Longrightarrow> sys_inv y"
  by (induction rule: rtranclp_induct) (auto intro: sys_inv_start call_step_inv)

section \<open>Aborting as steps\<close>

lemma finish_registry [simp]: "cs_registry (finish env t reason s) = cs_registry s"
  by (simp add: finish_def finishStream_def Let_def call_publish_def set_world_def with_tracked_def with_stream_def split: option.split)

lemma finish_steps:
  assumes "sys_inv y" "sy_finishing y = fin @ L" "mset L = mset (map (\<lambda>t. (t, reason)) us)"
  shows "(call_step env)\<^sup>*\<^sup>* y (y\<lparr>sy_calls := fold (\<lambda>t. finish env t reason) us (sy_calls y), sy_finishing := fin\<rparr>)"
  using assms
proof (induction us arbitrary: y L)
  case Nil
  then have "y\<lparr>sy_finishing := fin\<rparr> = y" by simp
  then show ?case by simp
next
  case (Cons u us)
  have m: "mset L = add_mset (u, reason) (mset (map (\<lambda>t. (t, reason)) us))" using Cons.prems(3) by simp
  then have inL: "(u, reason) \<in> set L" by (metis set_mset_mset union_single_eq_member)
  then have f: "(u, reason) \<in> set (sy_finishing y)" using Cons.prems(2) by simp
  have d: "distinct (map fst (sy_finishing y))" using sys_invD(1) [OF Cons.prems(1)] by (simp add: inv_ends_def)
  have "(u, reason) \<notin> set fin"
  proof
    assume "(u, reason) \<in> set fin"
    then have "u \<in> set (map fst fin)" by force
    moreover have "u \<in> set (map fst L)" using inL by force
    ultimately show False using d Cons.prems(2) by auto
  qed
  then have r: "remove1 (u, reason) (sy_finishing y) = fin @ remove1 (u, reason) L"
    using Cons.prems(2) by (simp add: remove1_append)
  define y1 where "y1 = y\<lparr>sy_calls := finish env u reason (sy_calls y), sy_finishing := remove1 (u, reason) (sy_finishing y)\<rparr>"
  have step: "call_step env y y1" unfolding y1_def by (rule call_step.finish [OF f])
  have "(call_step env)\<^sup>*\<^sup>* y1 (y1\<lparr>sy_calls := fold (\<lambda>t. finish env t reason) us (sy_calls y1), sy_finishing := fin\<rparr>)"
    using m r by (intro Cons.IH [OF call_step_inv [OF step Cons.prems(1)], of "remove1 (u, reason) L"]) (simp_all add: y1_def)
  then have "(call_step env)\<^sup>*\<^sup>* y1 (y\<lparr>sy_calls := fold (\<lambda>t. finish env t reason) (u # us) (sy_calls y), sy_finishing := fin\<rparr>)"
    by (simp add: y1_def)
  with step show ?case by (rule converse_rtranclp_into_rtranclp)
qed

lemma abort_channel_steps:
  assumes "sys_inv y" "\<And>ts. mset (order ts) = mset ts"
  shows "(call_step env)\<^sup>*\<^sup>* y (y\<lparr>sy_calls := AbortChannel env order ch reason (sy_calls y)\<rparr>)"
proof -
  obtain ts r where tk: "reg_TakeChannel ch (cs_registry (sy_calls y)) = (ts, r)" by (metis prod.exhaust)
  define y1 where "y1 = y\<lparr>sy_calls := (sy_calls y)\<lparr>cs_registry := r\<rparr>, sy_finishing := sy_finishing y @ map (\<lambda>t. (t, reason)) ts\<rparr>"
  have step: "call_step env y y1" unfolding y1_def by (rule call_step.abort_take [OF tk])
  have "(call_step env)\<^sup>*\<^sup>* y1 (y1\<lparr>sy_calls := fold (\<lambda>t. finish env t reason) (order ts) (sy_calls y1), sy_finishing := sy_finishing y\<rparr>)"
    using assms(2) [of ts] by (intro finish_steps [OF call_step_inv [OF step assms(1)], of _ "map (\<lambda>t. (t, reason)) ts"]) (simp_all add: y1_def)
  then have "(call_step env)\<^sup>*\<^sup>* y1 (y\<lparr>sy_calls := AbortChannel env order ch reason (sy_calls y)\<rparr>)"
    by (simp add: y1_def AbortChannel_def tk)
  with step show ?thesis by (rule converse_rtranclp_into_rtranclp)
qed

lemma fold_finish_registry: "cs_registry (fold (\<lambda>t. finish env t reason) us s) = cs_registry s"
  by (induction us arbitrary: s) simp_all

lemma abort_channel_registry:
  "reg_wf (cs_registry s) \<Longrightarrow> reg_Get a b (cs_registry (AbortChannel env order ch reason s)) =
     (if a = ch then None else reg_Get a b (cs_registry s))"
  using reg_Take_Get(2) by (cases "reg_TakeChannel ch (cs_registry s)") (simp add: AbortChannel_def fold_finish_registry)

lemma abort_channels_steps:
  assumes "sys_inv y" "\<And>ts. mset (order ts) = mset ts"
  shows "(call_step env)\<^sup>*\<^sup>* y (y\<lparr>sy_calls := fold (\<lambda>ch. AbortChannel env order ch reason) chs (sy_calls y)\<rparr>) \<and>
    (\<forall>a b. reg_Get a b (cs_registry (fold (\<lambda>ch. AbortChannel env order ch reason) chs (sy_calls y))) =
      (if a \<in> set chs then None else reg_Get a b (cs_registry (sy_calls y))))"
  using assms(1)
proof (induction chs arbitrary: y)
  case Nil
  then show ?case by simp
next
  case (Cons ch chs)
  define y1 where "y1 = y\<lparr>sy_calls := AbortChannel env order ch reason (sy_calls y)\<rparr>"
  have s1: "(call_step env)\<^sup>*\<^sup>* y y1" unfolding y1_def by (rule abort_channel_steps [OF Cons.prems assms(2)])
  have i1: "sys_inv y1" using s1 Cons.prems by (induction rule: rtranclp_induct) (auto intro: call_step_inv)
  have wf: "reg_wf (cs_registry (sy_calls y))" using sys_invD(1) [OF Cons.prems] by (simp add: inv_ends_def)
  from Cons.IH [OF i1] have ih: "(call_step env)\<^sup>*\<^sup>* y1 (y\<lparr>sy_calls := fold (\<lambda>ch. AbortChannel env order ch reason) (ch # chs) (sy_calls y)\<rparr>)"
    "reg_Get a b (cs_registry (fold (\<lambda>ch. AbortChannel env order ch reason) (ch # chs) (sy_calls y))) =
      (if a \<in> set chs then None else reg_Get a b (cs_registry (sy_calls y1)))" for a b
    by (simp_all add: y1_def)
  show ?case
  proof
    show "(call_step env)\<^sup>*\<^sup>* y (y\<lparr>sy_calls := fold (\<lambda>ch. AbortChannel env order ch reason) (ch # chs) (sy_calls y)\<rparr>)"
      using s1 ih(1) by (rule rtranclp_trans)
    show "\<forall>a b. reg_Get a b (cs_registry (fold (\<lambda>ch. AbortChannel env order ch reason) (ch # chs) (sy_calls y))) =
        (if a \<in> set (ch # chs) then None else reg_Get a b (cs_registry (sy_calls y)))"
      unfolding ih(2) using abort_channel_registry [OF wf] by (simp add: y1_def)
  qed
qed

section \<open>Properties\<close>

definition demo_call_env :: "(string, nat, unit, unit) call_env" where
  "demo_call_env =
     \<lparr>ce_now = (\<lambda>w. 0), ce_identity = (\<lambda>ch w. \<lparr>id_PhoneNumberID = ch, id_TenantID = ''t''\<rparr>), ce_resolver = (\<lambda>ch. None),
      ce_avatars = None, ce_lib = \<lparr>parse_jid = (\<lambda>s. Inl (Err EText [])), jid_string = jid_user, to_non_ad = (\<lambda>j. j)\<rparr>,
      ce_ID = (\<lambda>l. l), ce_Peer = (\<lambda>l. l), ce_IsVideo = (\<lambda>l. False), ce_IsGroup = (\<lambda>l. False), ce_Reject = (\<lambda>l w. (None, w)),
      ce_wire = (\<lambda>l w. (None, w)), ce_publish = (\<lambda>e w. w), ce_publishInbound = (\<lambda>e w. w), ce_settings = None,
      ce_Record = False, ce_has_Replier = False,
      ce_pcm = \<lparr>po_zero = 0, po_add = (+), po_from16 = unat, po_above = (\<lambda>x. False), po_below = (\<lambda>x. False), po_one = 1,
        po_minus_one = 0, po_scale = of_nat, po_SampleRate = 1, po_FrameSamples = 1\<rparr>,
      ce_disk = \<lparr>de_create = (\<lambda>w. (None, w)), de_write = (\<lambda>w. (None, w)), de_other = (\<lambda>w. (None, w)), de_put = (\<lambda>k m b w. (None, w))\<rparr>\<rparr>"

definition demo_calls_disk :: "unit disk" where
  "demo_calls_disk = \<lparr>dk_files = Map.empty, dk_next = 0, dk_uploads = [], dk_world = ()\<rparr>"

definition demo_two_calls :: "(string, nat, unit, unit) call_system" where
  "demo_two_calls =
     (let y1 = (call_start demo_calls_disk)\<lparr>sy_calls := snd (Track demo_call_env ''c'' ''one'' DirectionInbound True (NewManager demo_calls_disk))\<rparr>
      in y1\<lparr>sy_calls := snd (Track demo_call_env ''d'' ''two'' DirectionOutbound False (sy_calls y1))\<rparr>)"

lemma demo_two_reachable: "(call_step demo_call_env)\<^sup>*\<^sup>* (call_start demo_calls_disk) demo_two_calls"
proof -
  let ?y0 = "call_start demo_calls_disk :: (string, nat, unit, unit) call_system"
  let ?y1 = "?y0\<lparr>sy_calls := snd (Track demo_call_env ''c'' ''one'' DirectionInbound True (sy_calls ?y0))\<rparr>"
  have 1: "call_step demo_call_env ?y0 ?y1" by (rule call_step.track) (simp add: call_start_def NewManager_def)
  have 2: "call_step demo_call_env ?y1 (?y1\<lparr>sy_calls := snd (Track demo_call_env ''d'' ''two'' DirectionOutbound False (sy_calls ?y1))\<rparr>)"
    by (rule call_step.track)
      (simp add: call_start_def NewManager_def Track_def Let_def demo_call_env_def resolveSenderIdentity_def parsePeerJID_def Resolve_def
        empty_jid_def set_world_def key_of_def)
  have "?y1\<lparr>sy_calls := snd (Track demo_call_env ''d'' ''two'' DirectionOutbound False (sy_calls ?y1))\<rparr> = demo_two_calls"
    by (simp add: demo_two_calls_def call_start_def)
  with 1 2 show ?thesis by (metis rtranclp.simps)
qed

text \<open>
  C9. However the goroutines of all calls interleave, no stream operation panics, and every tracked
  call is in exactly one place: in the registry, with one goroutine that will finish it, or ended,
  and then exactly one ended event was published for it (none before).
\<close>

theorem call_ends_once:
  assumes "(call_step env)\<^sup>*\<^sup>* (call_start d) y" and "t < length (cs_tracked (sy_calls y))"
  shows "\<not> cs_panicked (sy_calls y) \<and>
    (let x = cs_tracked (sy_calls y) ! t; registered = (reg_Get (tk_ChannelID x) (tk_CallID x) (cs_registry (sy_calls y)) = Some t) in
     count_list (ended_keys (sy_calls y)) (key_of x) = (if tk_ended x then 1 else 0) \<and>
     count_list (map fst (sy_finishing y)) t + (if registered then 1 else 0) + (if tk_ended x then 1 else 0) = 1)"
proof -
  let ?s = "sy_calls y"
  note v = sys_invD [OF reachable_inv [OF assms(1)]]
  note a = v(1) [unfolded inv_ends_alt ends_wf_def]
  define x where "x = cs_tracked ?s ! t"
  have x: "fst (map core (cs_tracked ?s) ! t) = key_of x" "fst (snd (map core (cs_tracked ?s) ! t)) = tk_ended x"
    using assms(2) by (simp_all add: x_def)
  have keys: "key_of x \<in> set (ended_keys ?s) \<longleftrightarrow> tk_ended x"
  proof
    assume "key_of x \<in> set (ended_keys ?s)"
    then obtain u where u: "u < length (cs_tracked ?s)" "tk_ended (cs_tracked ?s ! u)" "key_of (cs_tracked ?s ! u) = key_of x" using a by auto
    then have "u = t" using a assms(2) by (simp add: x_def)
    with u(2) show "tk_ended x" by (simp add: x_def)
  next
    assume "tk_ended x"
    then show "key_of x \<in> set (ended_keys ?s)" using a assms(2) x_def by auto
  qed
  have c1: "count_list (ended_keys ?s) (key_of x) = (if tk_ended x then 1 else 0)"
    using a keys by (simp add: count_list_distinct)
  have c2: "count_list (map fst (sy_finishing y)) t = (if t \<in> set (map fst (sy_finishing y)) then 1 else 0)"
    using a by (simp add: count_list_distinct)
  have one: "t \<in> set (map fst (sy_finishing y)) \<longrightarrow> \<not> tk_ended x"
    "reg_Get (tk_ChannelID x) (tk_CallID x) (cs_registry ?s) = Some t \<longrightarrow> \<not> tk_ended x \<and> t \<notin> set (map fst (sy_finishing y))"
    "\<not> tk_ended x \<longrightarrow> t \<in> set (map fst (sy_finishing y)) \<or> reg_Get (tk_ChannelID x) (tk_CallID x) (cs_registry ?s) = Some t"
    using inv_endsD(1-3) [OF v(1)] assms(2) by (auto simp: x_def)
  show ?thesis
    unfolding Let_def x_def [symmetric] c1 c2 using v(2) one by (auto simp: streams_ok_def)
qed

theorem call_ends_once_witness:
  "count_list (ended_keys (sy_calls demo_two_calls)) (''c'', ''one'') = 0"
proof -
  have l: "0 < length (cs_tracked (sy_calls demo_two_calls))"
    and k: "key_of (cs_tracked (sy_calls demo_two_calls) ! 0) = (''c'', ''one'')" "\<not> tk_ended (cs_tracked (sy_calls demo_two_calls) ! 0)"
    by (simp_all add: demo_two_calls_def call_start_def NewManager_def Track_def Let_def demo_call_env_def resolveSenderIdentity_def
        parsePeerJID_def Resolve_def empty_jid_def set_world_def key_of_def)
  from call_ends_once [OF demo_two_reachable l] k show ?thesis by (simp add: Let_def)
qed

text \<open>
  No operator stream leaks: in every reachable state a stream that is still open, and that no
  goroutine is about to close, is the current stream of a call that has not ended.
\<close>

lemma no_stream_leaks:
  assumes "(call_step env)\<^sup>*\<^sup>* (call_start d) y"
    and "i < length (cs_streams (sy_calls y))" "\<not> sm_closed (cs_streams (sy_calls y) ! i)" "i \<notin> set (sy_closing y)"
  shows "\<exists>x\<in>set (cs_tracked (sy_calls y)). tk_Stream x = Some i \<and> \<not> tk_ended x"
proof -
  note v = sys_invD [OF reachable_inv [OF assms(1)]]
  from streams_open_call [OF v(3), of i] assms(2-4) obtain t where t: "t < length (cs_tracked (sy_calls y))"
    "tk_Stream (cs_tracked (sy_calls y) ! t) = Some i" "\<not> tk_finished (cs_tracked (sy_calls y) ! t)" by auto
  moreover have "tk_ended (cs_tracked (sy_calls y) ! t) = tk_finished (cs_tracked (sy_calls y) ! t)"
    using v(1) t(1) unfolding inv_ends_def by auto
  ultimately show ?thesis using nth_mem by blast
qed

text \<open>
  C37. Aborting every channel (at the shutdown) ends every tracked call, in whatever order the maps
  are iterated, once no other goroutine is in the middle of finishing one.
\<close>

theorem abort_all_ends:
  assumes "(call_step env)\<^sup>*\<^sup>* (call_start d) y" "sy_finishing y = []"
    and "\<And>xs. mset (chorder xs) = mset xs" "\<And>ts. mset (order ts) = mset ts"
  shows "list_all tk_ended (cs_tracked (AbortAll env chorder order reason (sy_calls y)))"
proof -
  let ?chs = "chorder (reg_Channels (cs_registry (sy_calls y)))"
  define y' where "y' = y\<lparr>sy_calls := AbortAll env chorder order reason (sy_calls y)\<rparr>"
  note i = reachable_inv [OF assms(1)]
  note steps = abort_channels_steps [OF i assms(4), of env reason ?chs]
  have "(call_step env)\<^sup>*\<^sup>* y y'" using steps by (simp add: y'_def AbortAll_def)
  then have "sys_inv y'" using i by (induction rule: rtranclp_induct) (auto intro: call_step_inv)
  then have v: "inv_ends (cs_registry (sy_calls y')) (map core (cs_tracked (sy_calls y'))) [] (ended_keys (sy_calls y'))"
    using sys_invD(1) [of y'] assms(2) by (simp add: y'_def)
  have "reg_Get a b (cs_registry (sy_calls y')) = None" for a b
  proof (cases "a \<in> set ?chs")
    case True
    then show ?thesis using steps by (simp add: y'_def AbortAll_def)
  next
    case False
    then have "a \<notin> fst ` set (cs_registry (sy_calls y))" using assms(3) by (metis list.set_map reg_Channels_def set_mset_mset)
    then have "map_of (cs_registry (sy_calls y)) a = None" by (simp add: map_of_eq_None_iff)
    then show ?thesis using steps False by (simp add: y'_def AbortAll_def reg_Get_def)
  qed
  then have "tk_ended (cs_tracked (sy_calls y') ! t)" if "t < length (cs_tracked (sy_calls y'))" for t
    using inv_endsD(3) [OF v that] by fastforce
  then show ?thesis by (simp add: list_all_length y'_def)
qed

theorem abort_all_ends_witness:
  "list_all tk_ended (cs_tracked (AbortAll demo_call_env rev rev ''shutdown'' (sy_calls demo_two_calls)))"
  using abort_all_ends [OF demo_two_reachable, of rev rev "''shutdown''"] by (simp add: demo_two_calls_def call_start_def Let_def)

end
