(* ===== verification/AnnexB.thy ===== *)
theory AnnexB
  imports Prelude "HOL-Library.Word"
begin

unbundle bit_operations_syntax

text \<open>
  The H.264 byte streams of internal/call/annexb.go: finding the NAL units of an Annex B stream,
  grouping them into access units and playing those at a frame rate. A stream is a list of bytes;
  every read of the code is inside the slice, which the guards of the definitions show.
\<close>

type_synonym annexb = "8 word list"

definition defaultVideoFrameRate :: int where "defaultVideoFrameRate = 30"
definition nalSlice :: "8 word" where "nalSlice = 1"
definition nalIDR :: "8 word" where "nalIDR = 5"
definition nalSEI :: "8 word" where "nalSEI = 6"
definition nalSPS :: "8 word" where "nalSPS = 7"
definition nalPPS :: "8 word" where "nalPPS = 8"
definition nalDelimiter :: "8 word" where "nalDelimiter = 9"
definition nalTypeMask :: "8 word" where "nalTypeMask = 0x1F"
definition minNALPayload :: nat where "minNALPayload = 1"

text \<open>The length of the start code at a position, 0 when there is none.\<close>

definition code_len :: "annexb \<Rightarrow> nat \<Rightarrow> nat" where
  "code_len s i =
     (if i + 3 < length s \<and> s ! i = 0 \<and> s ! (i + 1) = 0 \<and> s ! (i + 2) = 0 \<and> s ! (i + 3) = 1 then 4
      else if i + 2 < length s \<and> s ! i = 0 \<and> s ! (i + 1) = 0 \<and> s ! (i + 2) = 1 then 3
      else 0)"

function nal_from :: "annexb \<Rightarrow> nat \<Rightarrow> (nat \<times> 8 word) list" where
  "nal_from s i =
     (if i + 3 < length s + 1 then
        (let c = code_len s i in
         if c = 0 then nal_from s (i + 1)
         else
           (let header = i + c in
            if header + minNALPayload > length s then []
            else (i, (s ! header) AND nalTypeMask) # nal_from s (i + (c - 1) + 1)))
      else [])"
  by pat_completeness auto
termination by (relation "measure (\<lambda>(s, i). length s - i)") auto

declare nal_from.simps [simp del]

definition nalStarts :: "annexb \<Rightarrow> (nat \<times> 8 word) list" where
  "nalStarts s = nal_from s 0"

definition boundary :: "8 word \<Rightarrow> bool \<Rightarrow> bool" where
  "boundary ty hasSlice = (ty \<in> {nalDelimiter, nalSPS, nalPPS, nalSEI, nalSlice, nalIDR} \<and> hasSlice)"

definition is_slice :: "8 word \<Rightarrow> bool" where
  "is_slice ty = (ty = nalSlice \<or> ty = nalIDR)"

definition piece :: "annexb \<Rightarrow> nat \<Rightarrow> nat \<Rightarrow> annexb" where
  "piece s a b = take (b - a) (drop a s)"

text \<open>The loop of \<open>SplitAnnexB\<close> over the units from some position on.\<close>

fun split_from :: "annexb \<Rightarrow> nat \<Rightarrow> bool \<Rightarrow> (nat \<times> 8 word) list \<Rightarrow> annexb list" where
  "split_from s unitStart hasSlice [] = []"
| "split_from s unitStart hasSlice ((off, ty) # rest) =
     (let last_end = (case rest of [] \<Rightarrow> length s | (off', _) # _ \<Rightarrow> off');
          cut = (boundary ty hasSlice \<and> off > unitStart);
          us = (if cut then off else unitStart);
          hs = (if is_slice ty then True else if cut then False else hasSlice)
      in (if cut then [piece s unitStart off] else []) @
         (if rest = [] \<and> last_end > us then [piece s us last_end] else []) @
         split_from s us hs rest)"

definition SplitAnnexB :: "annexb \<Rightarrow> annexb list" where
  "SplitAnnexB s =
     (case nalStarts s of
        [] \<Rightarrow> []
      | (off, ty) # rest \<Rightarrow> split_from s off False (nalStarts s))"

text \<open>
  \<open>PlayAnnexB\<close>: whether the context is done, the send and the wait for the ticker (False when the
  context ends first) are functions of a world; the units that were sent are the result.
\<close>

fun play_units ::
  "('w \<Rightarrow> bool \<times> 'w) \<Rightarrow> (annexb \<Rightarrow> int \<Rightarrow> 'w \<Rightarrow> goerr option \<times> 'w) \<Rightarrow> (int \<Rightarrow> 'w \<Rightarrow> bool \<times> 'w) \<Rightarrow> int \<Rightarrow> annexb list \<Rightarrow> 'w \<Rightarrow>
   goerr option \<times> annexb list \<times> 'w" where
  "play_units done send tick step [] w = (None, [], w)"
| "play_units done send tick step (u # us) w =
     (case done w of
        (True, w1) \<Rightarrow> (Some (Err ECanceled ''context canceled''), [], w1)
      | (False, w1) \<Rightarrow>
          (case send u step w1 of
             (Some err, w2) \<Rightarrow> (Some (Wrap ''call: send video access unit: '' err []), [], w2)
           | (None, w2) \<Rightarrow>
               (case tick step w2 of
                  (False, w3) \<Rightarrow> (Some (Err ECanceled ''context canceled''), [u], w3)
                | (True, w3) \<Rightarrow> (case play_units done send tick step us w3 of (r, sent, w4) \<Rightarrow> (r, u # sent, w4)))))"

definition PlayAnnexB ::
  "('w \<Rightarrow> bool \<times> 'w) \<Rightarrow> (annexb \<Rightarrow> int \<Rightarrow> 'w \<Rightarrow> goerr option \<times> 'w) \<Rightarrow> (int \<Rightarrow> 'w \<Rightarrow> bool \<times> 'w) \<Rightarrow> annexb list \<Rightarrow> int \<Rightarrow> 'w \<Rightarrow>
   goerr option \<times> annexb list \<times> 'w" where
  "PlayAnnexB done send tick units frameRate w =
     (let rate = (if frameRate \<le> 0 then defaultVideoFrameRate else frameRate)
      in play_units done send tick (1000000000 div rate) units w)"

section \<open>Starts\<close>

definition starts_wf :: "annexb \<Rightarrow> nat \<Rightarrow> (nat \<times> 8 word) list \<Rightarrow> bool" where
  "starts_wf s i xs \<longleftrightarrow> sorted_wrt (\<lambda>(a, _) (b, _). a + code_len s a \<le> b) xs \<and>
     list_all (\<lambda>(a, _). i \<le> a \<and> code_len s a > 0 \<and> a + code_len s a < length s) xs"

lemma code_len_cases: "code_len s i \<in> {0, 3, 4}"
  by (simp add: code_len_def)

lemma nal_from_wf: "starts_wf s i (nal_from s i)"
proof (induction s i rule: nal_from.induct)
  case (1 s i)
  show ?case
  proof (cases "i + 3 < length s + 1")
    case False
    then show ?thesis by (simp add: nal_from.simps [of s i] starts_wf_def)
  next
    case i: True
    show ?thesis
    proof (cases "code_len s i = 0")
      case True
      then have "nal_from s i = nal_from s (i + 1)" using i by (simp add: nal_from.simps [of s i])
      then show ?thesis using 1(1) [OF i refl True] by (auto simp: starts_wf_def list_all_iff)
    next
      case c: False
      show ?thesis
      proof (cases "i + code_len s i + minNALPayload > length s")
        case True
        then show ?thesis using i c by (simp add: nal_from.simps [of s i] starts_wf_def)
      next
        case False
        have eq: "nal_from s i = (i, (s ! (i + code_len s i)) AND nalTypeMask) # nal_from s (i + code_len s i)"
          using i c False by (simp add: nal_from.simps [of s i] Let_def)
        have n: "i + (code_len s i - 1) + 1 = i + code_len s i" using c by simp
        have "starts_wf s (i + code_len s i) (nal_from s (i + code_len s i))"
          using 1(2) [OF i refl c refl False, unfolded n] .
        then show ?thesis using c False unfolding eq by (auto simp: starts_wf_def list_all_iff minNALPayload_def)
      qed
    qed
  qed
qed

text \<open>An access unit starts with a start code, and holds at most one slice among the given units.\<close>

definition has_start :: "annexb \<Rightarrow> bool" where
  "has_start u \<longleftrightarrow> take 3 u = [0, 0, 1] \<or> take 4 u = [0, 0, 0, 1]"

lemma piece_start:
  assumes "code_len s a > 0" "a + code_len s a \<le> b" "b \<le> length s"
  shows "has_start (piece s a b)"
proof -
  consider "code_len s a = 4" "a + 3 < length s" "s ! a = 0" "s ! (a + 1) = 0" "s ! (a + 2) = 0" "s ! (a + 3) = 1"
    | "code_len s a = 3" "a + 2 < length s" "s ! a = 0" "s ! (a + 1) = 0" "s ! (a + 2) = 1"
    using assms(1) by (auto simp: code_len_def split: if_splits)
  then show ?thesis
  proof cases
    case 1
    then have "take 4 (drop a s) = [0, 0, 0, 1]"
      by (intro nth_equalityI) (auto simp: less_Suc_eq numeral_eq_Suc)
    then show ?thesis using assms 1 by (simp add: has_start_def piece_def min_def)
  next
    case 2
    then have "take 3 (drop a s) = [0, 0, 1]"
      by (intro nth_equalityI) (auto simp: less_Suc_eq numeral_eq_Suc)
    then show ?thesis using assms 2 by (simp add: has_start_def piece_def min_def)
  qed
qed

lemma piece_concat: "a \<le> b \<Longrightarrow> b \<le> length s \<Longrightarrow> piece s a b @ drop b s = drop a s"
  by (metis append_take_drop_id drop_drop le_add_diff_inverse2 piece_def)

lemma split_from_spec:
  assumes "starts_wf s us xs" "xs \<noteq> []" "code_len s us > 0" "us = fst (hd xs) \<or> us + code_len s us \<le> fst (hd xs)"
  shows "concat (split_from s us hs xs) = drop us s \<and> list_all has_start (split_from s us hs xs)"
  using assms
proof (induction xs arbitrary: us hs)
  case (Cons x xs)
  obtain off ty where x: "x = (off, ty)" by (cases x)
  from Cons.prems(1) x have off: "code_len s off > 0" "off + code_len s off < length s"
    and rest: "list_all (\<lambda>(b, _). off + code_len s off \<le> b \<and> code_len s b > 0 \<and> b + code_len s b < length s) xs"
    by (auto simp: starts_wf_def list_all_iff)
  define cut where "cut = (boundary ty hs \<and> off > us)"
  define us' where "us' = (if cut then off else us)"
  define hs' where "hs' = (if is_slice ty then True else if cut then False else hs)"
  have le: "us \<le> off" using Cons.prems(4) x by auto
  have us': "code_len s us' > 0" "us' + code_len s us' \<le> off + code_len s off" "us' \<le> off"
    using off Cons.prems(3,4) x le by (auto simp: us'_def)
  have cutp: "cut \<Longrightarrow> has_start (piece s us off) \<and> piece s us off @ drop off s = drop us s"
    using Cons.prems(3,4) x off le by (intro conjI piece_start piece_concat) (auto simp: cut_def)
  show ?case
  proof (cases xs)
    case Nil
    have "us' < length s" "us' + code_len s us' \<le> length s" using us' off by simp_all
    then have "has_start (piece s us' (length s))"
      by (intro piece_start us'(1)) simp_all
    moreover have "piece s us' (length s) = drop us' s" by (simp add: piece_def)
    moreover have "split_from s us hs (x # xs)
        = (if cut then [piece s us off] else []) @ [piece s us' (length s)]"
      using \<open>us' < length s\<close> unfolding x Nil by (simp add: Let_def cut_def us'_def)
    ultimately show ?thesis using cutp by (simp add: us'_def)
  next
    case (Cons y ys)
    obtain off' ty' where y: "y = (off', ty')" by (cases y)
    have o': "off + code_len s off \<le> off'" using rest Cons y by simp
    have wf: "starts_wf s us' xs" using Cons.prems(1) rest us' by (auto simp: starts_wf_def list_all_iff)
    have hd': "us' = fst (hd xs) \<or> us' + code_len s us' \<le> fst (hd xs)" using o' us' Cons y by simp
    have "concat (split_from s us' hs' xs) = drop us' s \<and> list_all has_start (split_from s us' hs' xs)"
      using Cons by (intro Cons.IH [OF wf _ us'(1) hd']) simp
    moreover have "split_from s us hs (x # xs) = (if cut then [piece s us off] else []) @ split_from s us' hs' xs"
      using Cons unfolding x by (simp add: Let_def cut_def us'_def hs'_def)
    ultimately show ?thesis using cutp by (simp add: us'_def)
  qed
qed simp

section \<open>Reference\<close>

text \<open>
  Without a loop: the NAL units are the positions of a start code with a byte behind it, where the three
  byte code inside a four byte code does not count again.
\<close>

definition nal_at :: "annexb \<Rightarrow> nat \<Rightarrow> bool" where
  "nal_at s i \<longleftrightarrow> code_len s i > 0 \<and> i + code_len s i < length s \<and> (i = 0 \<or> code_len s (i - 1) \<noteq> 4)"

definition nal_unit :: "annexb \<Rightarrow> nat \<Rightarrow> nat \<times> 8 word" where
  "nal_unit s i = (i, (s ! (i + code_len s i)) AND nalTypeMask)"

definition ref_starts :: "annexb \<Rightarrow> nat \<Rightarrow> (nat \<times> 8 word) list" where
  "ref_starts s i = map (nal_unit s) (filter (nal_at s) [i..<length s])"

lemma ref_starts_skip: "\<not> nal_at s i \<Longrightarrow> ref_starts s i = ref_starts s (Suc i)"
  by (cases "i < length s") (simp_all add: ref_starts_def upt_conv_Cons)

lemma ref_starts_hit: "nal_at s i \<Longrightarrow> ref_starts s i = nal_unit s i # ref_starts s (Suc i)"
  by (simp add: ref_starts_def nal_at_def upt_conv_Cons)

text \<open>Behind a start code no other one begins before its end, except the one inside a four byte code.\<close>

lemma code_len_inside:
  "code_len s i = 3 \<Longrightarrow> code_len s (Suc i) = 0 \<and> code_len s (i + 2) = 0"
  "code_len s i = 4 \<Longrightarrow> code_len s (i + 2) = 0 \<and> code_len s (i + 3) = 0"
  by (auto simp: code_len_def eval_nat_numeral split: if_splits)

lemma ref_starts_code:
  assumes "code_len s i > 0"
  shows "ref_starts s (Suc i) = ref_starts s (i + code_len s i)" "code_len s (i + code_len s i - 1) \<noteq> 4"
proof -
  have skip: "code_len s j = 0 \<Longrightarrow> ref_starts s j = ref_starts s (Suc j)" for j
    by (rule ref_starts_skip) (simp add: nal_at_def)
  consider "code_len s i = 3" | "code_len s i = 4" using assms code_len_cases [of s i] by auto
  then have "ref_starts s (Suc i) = ref_starts s (i + code_len s i) \<and> code_len s (i + code_len s i - 1) \<noteq> 4"
  proof cases
    case 1
    then show ?thesis using code_len_inside(1) [OF 1] skip [of "Suc i"] skip [of "i + 2"] by (simp add: eval_nat_numeral)
  next
    case 2
    have "ref_starts s (Suc i) = ref_starts s (Suc (Suc i))" by (rule ref_starts_skip) (simp add: nal_at_def 2)
    then show ?thesis using 2 code_len_inside(2) [OF 2] skip [of "i + 2"] skip [of "i + 3"] by (simp add: eval_nat_numeral)
  qed
  then show "ref_starts s (Suc i) = ref_starts s (i + code_len s i)" "code_len s (i + code_len s i - 1) \<noteq> 4" by blast+
qed

lemma ref_starts_end: "length s \<le> i + 2 \<Longrightarrow> ref_starts s i = []"
  by (auto simp: ref_starts_def filter_empty_conv nal_at_def code_len_def)

lemma nal_from_ref: "i = 0 \<or> code_len s (i - 1) \<noteq> 4 \<Longrightarrow> nal_from s i = ref_starts s i"
proof (induction s i rule: nal_from.induct)
  case (1 s i)
  show ?case
  proof (cases "i + 3 < length s + 1")
    case False
    then show ?thesis by (simp add: nal_from.simps [of s i] ref_starts_end)
  next
    case i: True
    show ?thesis
    proof (cases "code_len s i = 0")
      case True
      then have "nal_from s i = nal_from s (i + 1)" using i by (simp add: nal_from.simps [of s i])
      then show ?thesis using 1(1) [OF i refl True] True ref_starts_skip [of s i] by (simp add: nal_at_def)
    next
      case c: False
      note code = ref_starts_code [of s i]
      show ?thesis
      proof (cases "i + code_len s i + minNALPayload > length s")
        case True
        then have "ref_starts s i = ref_starts s (i + code_len s i)"
          using ref_starts_skip [of s i] code c by (simp add: nal_at_def minNALPayload_def)
        also have "\<dots> = []" using True by (intro ref_starts_end) (simp add: minNALPayload_def)
        finally show ?thesis using i c True by (simp add: nal_from.simps [of s i])
      next
        case False
        have n: "i + (code_len s i - 1) + 1 = i + code_len s i" using c by simp
        have "nal_from s i = nal_unit s i # nal_from s (i + code_len s i)"
          using i c False by (simp add: nal_from.simps [of s i] nal_unit_def Let_def)
        also have "nal_from s (i + code_len s i) = ref_starts s (Suc i)"
          using 1(2) [OF i refl c refl False, unfolded n] code c by simp
        finally show ?thesis using ref_starts_hit [of s i] 1(3) c False by (simp add: nal_at_def minNALPayload_def)
      qed
    qed
  qed
qed

section \<open>Properties\<close>

text \<open>
  Splitting an Annex B stream loses nothing: the access units put together are the stream from
  its first NAL unit on, and each of them begins with a start code (so none is empty).
\<close>

lemma SplitAnnexB_concat:
  "concat (SplitAnnexB s) = (case nalStarts s of [] \<Rightarrow> [] | x # _ \<Rightarrow> drop (fst x) s) \<and>
   list_all has_start (SplitAnnexB s)"
proof (cases "nalStarts s")
  case Nil
  then show ?thesis by (simp add: SplitAnnexB_def)
next
  case (Cons x xs)
  obtain off ty where x: "x = (off, ty)" by (cases x)
  have wf: "starts_wf s 0 (nalStarts s)" unfolding nalStarts_def by (rule nal_from_wf)
  then have c: "code_len s off > 0" using Cons x by (simp add: starts_wf_def)
  have wf': "starts_wf s off (nalStarts s)"
    using wf Cons x by (auto simp: starts_wf_def list_all_iff)
  show ?thesis
    using split_from_spec [OF wf' _ c, of False] Cons x by (simp add: SplitAnnexB_def)
qed

text \<open>
  C33. The scan of \<open>nalStarts\<close>, which skips over every start code it finds, gives exactly the units of the
  reference: each position of a start code with a byte behind it, once, in order, with its type.
\<close>

theorem nalStarts_reference:
  "nalStarts s = map (nal_unit s) (filter (nal_at s) [0..<length s])"
  using nal_from_ref [of 0 s] by (simp add: nalStarts_def ref_starts_def)

end
