(* ===== verification/CallCommands.thy ===== *)
theory CallCommands
  imports Calls AnnexB Contracts
begin

text \<open>
  The call commands of internal/call/command.go and the video playback of internal/call/annexb.go
  over the manager of \<open>Calls\<close>. The calling client (\<open>Caller\<close>), the operations of a live call
  (\<open>LiveCall\<close>) and the media fetcher are functions of the world. \<open>Dispatch\<close> always returns a nil
  error, so its result is only the new state, with the video that it leaves a goroutine playing.
\<close>

section \<open>The calling client\<close>

record GroupOptions =
  go_GroupJID :: string
  go_Video :: bool

record CallLink =
  cl_Token :: string
  cl_URL :: string
  cl_Video :: bool

record LinkPreview =
  lp_Token :: string
  lp_Video :: bool
  lp_ApprovalRequired :: bool
  lp_IsAdmin :: bool
  lp_Creator :: string
  lp_CreatorPN :: string

record ('l, 'w) caller =
  ca_Call :: "string \<Rightarrow> bool \<Rightarrow> 'w \<Rightarrow> 'l result \<times> 'w"
  ca_GroupCall :: "string list \<Rightarrow> GroupOptions \<Rightarrow> 'w \<Rightarrow> 'l result \<times> 'w"
  ca_GroupCallByID :: "string \<Rightarrow> GroupOptions \<Rightarrow> 'w \<Rightarrow> 'l result \<times> 'w"
  ca_CreateCallLink :: "bool \<Rightarrow> 'w \<Rightarrow> CallLink result \<times> 'w"
  ca_PreviewCallLink :: "string \<Rightarrow> bool \<Rightarrow> 'w \<Rightarrow> LinkPreview result \<times> 'w"
  ca_JoinCallLink :: "string \<Rightarrow> bool \<Rightarrow> 'w \<Rightarrow> 'l result \<times> 'w"

datatype live_op =
    LiveAnswer | LiveReject | LiveHangup | StartVideo | AcceptVideo | StopVideo | SetVideoEnabled bool
  | SetVideoOrientation int | SendReaction string | SetHandRaised bool | StartScreenShare | StopScreenShare
  | AddParticipant string | RingParticipant string | SetApprovalRequired bool | AdmitParticipant string
  | DenyParticipant string

record ('l, 'w) call_tools =
  ct_live :: "live_op \<Rightarrow> 'l \<Rightarrow> 'w \<Rightarrow> goerr option \<times> 'w"
  ct_fetch :: "string \<Rightarrow> 'w \<Rightarrow> pcm result \<times> 'w"

section \<open>Verdicts\<close>

definition commandEvent :: "('l, 'f, 'p, 'w) call_env \<Rightarrow> 'w \<Rightarrow> GatewayCallCommand \<Rightarrow> event_type \<Rightarrow> Event" where
  "commandEvent env w cmd ty =
     (let ident = ce_identity env (cc_channelID cmd) w;
          tenantID = (if id_TenantID ident = [] then cc_tenantID cmd else id_TenantID ident)
      in blank_event\<lparr>ev_PhoneNumberID := id_PhoneNumberID ident, ev_TenantID := tenantID, ev_ChannelID := cc_channelID cmd,
           ev_CallID := cc_callID cmd, ev_CommandID := cc_commandID cmd, ev_Direction := DirectionOutbound, ev_Type := ty,
           ev_Timestamp := unix_seconds (ce_now env w)\<rparr>)"

definition publish_command ::
  "('l, 'f, 'p, 'w) call_env \<Rightarrow> GatewayCallCommand \<Rightarrow> event_type \<Rightarrow> (Event \<Rightarrow> Event) \<Rightarrow> ('l, 'f, 'p, 'w) calls \<Rightarrow> ('l, 'f, 'p, 'w) calls" where
  "publish_command env cmd ty f s = call_publish env (f (commandEvent env (cs_world s) cmd ty)) s"

definition ackCommand :: "('l, 'f, 'p, 'w) call_env \<Rightarrow> GatewayCallCommand \<Rightarrow> ('l, 'f, 'p, 'w) calls \<Rightarrow> ('l, 'f, 'p, 'w) calls" where
  "ackCommand env cmd s = publish_command env cmd EventCommandAck (\<lambda>e. e) s"

definition failCommand ::
  "('l, 'f, 'p, 'w) call_env \<Rightarrow> GatewayCallCommand \<Rightarrow> fail_code \<Rightarrow> string \<Rightarrow> ('l, 'f, 'p, 'w) calls \<Rightarrow> ('l, 'f, 'p, 'w) calls" where
  "failCommand env cmd code reason s =
     publish_command env cmd EventCommandFailed (\<lambda>e. e\<lparr>ev_Error := Some \<lparr>ee_Code = code, ee_Reason = reason\<rparr>\<rparr>) s"

definition isFetchError :: "goerr \<Rightarrow> bool" where
  "isFetchError err = err_is err EFetch"

definition fetch_error :: "goerr \<Rightarrow> goerr" where
  "fetch_error err = Tag EFetch err"

section \<open>Outbound calls and links\<close>

definition recordFor :: "('l, 'f, 'p, 'w) call_env \<Rightarrow> GatewayCallCommand \<Rightarrow> bool" where
  "recordFor env cmd = (case cc_record cmd of Some rcd \<Rightarrow> rcd \<and> ce_Record env | None \<Rightarrow> ce_Record env)"

definition trackOutbound ::
  "('l, 'f, 'p, 'w) call_env \<Rightarrow> GatewayCallCommand \<Rightarrow> 'l \<Rightarrow> ('l, 'f, 'p, 'w) calls \<Rightarrow> ('l, 'f, 'p, 'w) calls" where
  "trackOutbound env cmd lc s =
     (case Track env (cc_channelID cmd) lc DirectionOutbound (recordFor env cmd) s of
        (t, s1) \<Rightarrow>
          (let s2 = publishInbound env (cs_tracked s1 ! t) s1;
               s3 = publish_of env t EventRinging (\<lambda>e. e\<lparr>ev_CommandID := cc_commandID cmd\<rparr>) s2
           in flushEarlyEnd env t (ackCommand env cmd s3)))"

text \<open>What the four actions that open a call share after the call of the client.\<close>

definition track_result ::
  "('l, 'f, 'p, 'w) call_env \<Rightarrow> GatewayCallCommand \<Rightarrow> 'l result \<times> 'w \<Rightarrow> ('l, 'f, 'p, 'w) calls \<Rightarrow> ('l, 'f, 'p, 'w) calls" where
  "track_result env cmd r s =
     (let s1 = set_world (snd r) s in
      case fst r of
        Inl err \<Rightarrow> failCommand env cmd CodeActionFailed (err_msg err) s1
      | Inr lc \<Rightarrow> trackOutbound env cmd lc s1)"

definition create_link ::
  "('l, 'f, 'p, 'w) call_env \<Rightarrow> GatewayCallCommand \<Rightarrow> CallLink result \<times> 'w \<Rightarrow> ('l, 'f, 'p, 'w) calls \<Rightarrow> ('l, 'f, 'p, 'w) calls" where
  "create_link env cmd r s =
     (let s1 = set_world (snd r) s in
      case fst r of
        Inl err \<Rightarrow> failCommand env cmd CodeActionFailed (err_msg err) s1
      | Inr link \<Rightarrow>
          publish_command env cmd EventLinkCreated (\<lambda>e. e\<lparr>ev_Link := Some \<lparr>el_Token = cl_Token link, el_URL = cl_URL link,
             el_Video = cl_Video link, el_ApprovalRequired = False, el_IsAdmin = False\<rparr>\<rparr>) s1)"

definition preview_link ::
  "('l, 'f, 'p, 'w) call_env \<Rightarrow> GatewayCallCommand \<Rightarrow> LinkPreview result \<times> 'w \<Rightarrow> ('l, 'f, 'p, 'w) calls \<Rightarrow> ('l, 'f, 'p, 'w) calls" where
  "preview_link env cmd r s =
     (let s1 = set_world (snd r) s in
      case fst r of
        Inl err \<Rightarrow> failCommand env cmd CodeActionFailed (err_msg err) s1
      | Inr p \<Rightarrow>
          publish_command env cmd EventLinkPreview (\<lambda>e. e\<lparr>ev_Link := Some \<lparr>el_Token = lp_Token p, el_URL = [],
             el_Video = lp_Video p, el_ApprovalRequired = lp_ApprovalRequired p, el_IsAdmin = lp_IsAdmin p\<rparr>\<rparr>) s1)"

definition caller_actions :: "string list" where
  "caller_actions = [''dial'', ''group.dial'', ''group.dial_by_id'', ''link.create'', ''link.preview'', ''link.join'']"

definition dispatchCaller ::
  "('l, 'f, 'p, 'w) call_env \<Rightarrow> ('l, 'w) caller \<Rightarrow> GatewayCallCommand \<Rightarrow> ('l, 'f, 'p, 'w) calls \<Rightarrow> ('l, 'f, 'p, 'w) calls" where
  "dispatchCaller env ca cmd s =
     (let act = cc_action cmd; w = cs_world s in
      if act = ''dial'' then
        (if cc_to cmd = [] then failCommand env cmd CodeInvalidTarget ''dial requires a target in \"to\"'' s
         else track_result env cmd (ca_Call ca (cc_to cmd) (cc_video cmd) w) s)
      else if act = ''group.dial'' then
        (if length (cc_targets cmd) < 2 then failCommand env cmd CodeInvalidTarget ''group.dial requires at least two targets'' s
         else track_result env cmd
                (ca_GroupCall ca (cc_targets cmd) \<lparr>go_GroupJID = cc_groupID cmd, go_Video = cc_video cmd\<rparr> w) s)
      else if act = ''group.dial_by_id'' then
        (if cc_groupID cmd = [] then failCommand env cmd CodeInvalidTarget ''group.dial_by_id requires a groupId'' s
         else track_result env cmd (ca_GroupCallByID ca (cc_groupID cmd) \<lparr>go_GroupJID = [], go_Video = cc_video cmd\<rparr> w) s)
      else if act = ''link.create'' then create_link env cmd (ca_CreateCallLink ca (cc_video cmd) w) s
      else if act = ''link.preview'' then
        (if cc_linkToken cmd = [] then failCommand env cmd CodeInvalidTarget ''link.preview requires a linkToken'' s
         else preview_link env cmd (ca_PreviewCallLink ca (cc_linkToken cmd) (cc_video cmd) w) s)
      else if act = ''link.join'' then
        (if cc_linkToken cmd = [] then failCommand env cmd CodeInvalidTarget ''link.join requires a linkToken'' s
         else track_result env cmd (ca_JoinCallLink ca (cc_linkToken cmd) (cc_video cmd) w) s)
      else s)"

section \<open>Commands on a live call\<close>

definition live_op_of :: "GatewayCallCommand \<Rightarrow> live_op option" where
  "live_op_of cmd =
     map_of
       [(''answer'', LiveAnswer), (''reject'', LiveReject), (''hangup'', LiveHangup), (''video.start'', StartVideo),
        (''video.accept'', AcceptVideo), (''video.stop'', StopVideo), (''video.enable'', SetVideoEnabled (cc_enabled cmd)),
        (''video.orientation'', SetVideoOrientation (cc_orientation cmd)), (''reaction'', SendReaction (cc_emoji cmd)),
        (''hand.raise'', SetHandRaised (cc_raised cmd)), (''screenshare.start'', StartScreenShare),
        (''screenshare.stop'', StopScreenShare), (''participant.add'', AddParticipant (cc_participant cmd)),
        (''participant.ring'', RingParticipant (cc_participant cmd)), (''approval.set'', SetApprovalRequired (cc_enabled cmd)),
        (''participant.admit'', AdmitParticipant (cc_participant cmd)), (''participant.deny'', DenyParticipant (cc_participant cmd))]
       (cc_action cmd)"

definition play ::
  "('l, 'w) call_tools \<Rightarrow> nat \<Rightarrow> GatewayCallCommand \<Rightarrow> ('l, 'f, 'p, 'w) calls \<Rightarrow> goerr option \<times> ('l, 'f, 'p, 'w) calls" where
  "play ct t cmd s =
     (if cc_mediaURL cmd = [] then (Some (fetch_error (Err EText ''call: play requires a mediaUrl'')), s)
      else
        (case ct_fetch ct (cc_mediaURL cmd) (cs_world s) of
           (Inl err, w) \<Rightarrow> (Some (fetch_error (Wrap ''call: fetch play media: '' err [])), set_world w s)
         | (Inr data, w) \<Rightarrow>
             if data = [] then
               (Some (fetch_error (Err EText (''call: play media '' @ cc_mediaURL cmd @ '' is empty''))), set_world w s)
             else
               (case playAnnouncement data (tk_outbound (cs_tracked s ! t)) of
                  (err, o1) \<Rightarrow> (err, with_tracked t (\<lambda>x. x\<lparr>tk_outbound := o1\<rparr>) (set_world w s)))))"

text \<open>\<open>playVideo\<close> also returns the access units that its goroutine plays.\<close>

definition playVideo ::
  "('l, 'w) call_tools \<Rightarrow> GatewayCallCommand \<Rightarrow> ('l, 'f, 'p, 'w) calls \<Rightarrow>
   goerr option \<times> annexb list \<times> ('l, 'f, 'p, 'w) calls" where
  "playVideo ct cmd s =
     (if cc_mediaURL cmd = [] then (Some (fetch_error (Err EText ''call: video.play requires a mediaUrl'')), [], s)
      else
        (case ct_fetch ct (cc_mediaURL cmd) (cs_world s) of
           (Inl err, w) \<Rightarrow> (Some (fetch_error (Wrap ''call: fetch video media: '' err [])), [], set_world w s)
         | (Inr data, w) \<Rightarrow>
             (let units = SplitAnnexB data in
              if units = [] then
                (Some (fetch_error (Err EText (''call: '' @ cc_mediaURL cmd @ '' carries no H.264 access unit''))), [], set_world w s)
              else (None, units, set_world w s))))"

text \<open>The switch over the actions; \<open>None\<close> for an action that no case handles.\<close>

definition live_action ::
  "('l, 'w) call_tools \<Rightarrow> nat \<Rightarrow> GatewayCallCommand \<Rightarrow> ('l, 'f, 'p, 'w) calls \<Rightarrow>
   (goerr option \<times> annexb list \<times> ('l, 'f, 'p, 'w) calls) option" where
  "live_action ct t cmd s =
     (case live_op_of cmd of
        Some oper \<Rightarrow>
          (case ct_live ct oper (tk_Live (cs_tracked s ! t)) (cs_world s) of (err, w) \<Rightarrow> Some (err, [], set_world w s))
      | None \<Rightarrow>
          if cc_action cmd = ''play'' then (case play ct t cmd s of (err, s1) \<Rightarrow> Some (err, [], s1))
          else if cc_action cmd = ''video.play'' then Some (playVideo ct cmd s)
          else None)"

definition dispatchLive ::
  "('l, 'f, 'p, 'w) call_env \<Rightarrow> ('l, 'w) call_tools \<Rightarrow> GatewayCallCommand \<Rightarrow> ('l, 'f, 'p, 'w) calls \<Rightarrow>
   annexb list \<times> ('l, 'f, 'p, 'w) calls" where
  "dispatchLive env ct cmd s =
     (case reg_Get (cc_channelID cmd) (cc_callID cmd) (cs_registry s) of
        None \<Rightarrow>
          if cc_action cmd = ''hangup'' \<or> cc_action cmd = ''reject'' then ([], ackCommand env cmd s)
          else ([], failCommand env cmd CodeCallNotFound
                 (''no live call '' @ go_quote (cc_callID cmd) @ '' on channel '' @ go_quote (cc_channelID cmd)) s)
      | Some t \<Rightarrow>
          (case live_action ct t cmd s of
             None \<Rightarrow> ([], failCommand env cmd CodeUnknownAction (''unknown call action '' @ go_quote (cc_action cmd)) s)
           | Some (Some err, units, s1) \<Rightarrow>
               (units, failCommand env cmd (if isFetchError err then CodeMediaFetch else CodeActionFailed) (err_msg err) s1)
           | Some (None, units, s1) \<Rightarrow> (units, ackCommand env cmd s1)))"

definition Dispatch ::
  "('l, 'f, 'p, 'w) call_env \<Rightarrow> ('l, 'w) call_tools \<Rightarrow> ('l, 'w) caller option \<Rightarrow> GatewayCallCommand \<Rightarrow> ('l, 'f, 'p, 'w) calls \<Rightarrow>
   annexb list \<times> ('l, 'f, 'p, 'w) calls" where
  "Dispatch env ct ca cmd s =
     (case ca of
        None \<Rightarrow> ([], failCommand env cmd CodeNoCaller ''channel has no calling client'' s)
      | Some caller \<Rightarrow>
          if cc_action cmd \<in> set caller_actions then ([], dispatchCaller env caller cmd s)
          else dispatchLive env ct cmd s)"

section \<open>What commands publish\<close>

definition is_verdict :: "Event \<Rightarrow> bool" where
  "is_verdict e \<longleftrightarrow> ev_Type e \<in> {EventCommandAck, EventCommandFailed, EventLinkCreated, EventLinkPreview}"

lemma events_simps [simp]:
  "cs_events (set_world w s) = cs_events s"
  "cs_events (with_tracked t f s) = cs_events s"
  "cs_events (with_stream i g s) = cs_events s"
  "cs_events (publishInbound env x s) = cs_events s"
  "cs_events (call_publish env e s) = cs_events s @ [e]"
  by (simp_all add: set_world_def with_tracked_def with_stream_def publishInbound_def publishInboundEvent_def call_publish_def
      split: option.split)

lemma calls_simps [simp]:
  "cs_tracked (set_world w s) = cs_tracked s" "cs_registry (set_world w s) = cs_registry s"
  "cs_tracked (call_publish env e s) = cs_tracked s" "cs_registry (call_publish env e s) = cs_registry s"
  "cs_tracked (publishInbound env x s) = cs_tracked s" "cs_registry (publishInbound env x s) = cs_registry s"
  by (simp_all add: set_world_def publishInbound_def publishInboundEvent_def call_publish_def)

lemma commandEvent_simps [simp]:
  "ev_Type (commandEvent env w cmd ty) = ty" "ev_CommandID (commandEvent env w cmd ty) = cc_commandID cmd"
  "ev_ChannelID (commandEvent env w cmd ty) = cc_channelID cmd" "ev_Error (commandEvent env w cmd ty) = None"
  by (simp_all add: commandEvent_def blank_event_def Let_def)

lemma event_type_simps [simp]:
  "ev_Type (call_event env w x ty) = ty" "ev_Type (ended_event env w x reason) = EventEnded"
  by (simp_all add: call_event_def ended_event_def Let_def)

lemma finish_events:
  "\<exists>fin. cs_events (finish env t reason s) = cs_events s @ fin \<and>
     map ev_Type fin = (if tk_ended (cs_tracked s ! t) then [] else [EventEnded])"
  by (simp add: finish_def finishStream_def Let_def with_tracked_def with_stream_def split: option.split)

lemma flush_events:
  assumes "cs_tracked s ! t = x" "reg_Get (tk_ChannelID x) (tk_CallID x) (cs_registry s) \<noteq> None" "\<not> tk_ended x"
  shows "\<exists>fin. cs_events (flushEarlyEnd env t s) = cs_events s @ fin \<and>
     map ev_Type fin = (if tk_earlyEnd x = None then [] else [EventEnded])"
proof (cases "tk_earlyEnd x")
  case None
  then show ?thesis using assms by (simp add: flushEarlyEnd_def)
next
  case (Some reason)
  obtain ok r where rm: "reg_Remove (tk_ChannelID x) (tk_CallID x) (cs_registry s) = (ok, r)" by (metis prod.exhaust)
  with assms(2) have ok using reg_Remove_Get(1) [OF rm] by simp
  with rm Some assms show ?thesis
    using finish_events [of env t reason "s\<lparr>cs_registry := r\<rparr>"] by (simp add: flushEarlyEnd_def end_call_def Let_def)
qed

text \<open>The events of a call that is tracked for a command, in their order.\<close>

lemma trackOutbound_events:
  assumes "Track env (cc_channelID cmd) lc DirectionOutbound (recordFor env cmd) s = (t, s1)"
  shows "\<exists>ring ack fin. cs_events (trackOutbound env cmd lc s) = cs_events s @ [ring, ack] @ fin \<and>
     ev_Type ring = EventRinging \<and> ev_CommandID ring = cc_commandID cmd \<and>
     ev_Type ack = EventCommandAck \<and> ev_CommandID ack = cc_commandID cmd \<and> ev_ChannelID ack = cc_channelID cmd \<and> ev_Error ack = None \<and>
     map ev_Type fin = (if tk_earlyEnd (cs_tracked s1 ! t) = None then [] else [EventEnded])"
proof -
  from Track_effect [OF assms] obtain x where x: "cs_tracked s1 ! t = x" "core x = ((cc_channelID cmd, ce_ID env lc), False, False)"
    and e: "cs_events s1 = cs_events s"
    and r: "reg_Get (cc_channelID cmd) (ce_ID env lc) (cs_registry s1) = Some t"
    by (auto simp: reg_Get_Insert)
  have k: "tk_ChannelID x = cc_channelID cmd" "tk_CallID x = ce_ID env lc" "\<not> tk_ended x"
    using x(2) by (simp_all add: core_def key_of_def)
  define s3 where "s3 = publish_of env t EventRinging (\<lambda>e. e\<lparr>ev_CommandID := cc_commandID cmd\<rparr>) (publishInbound env x s1)"
  define s4 where "s4 = ackCommand env cmd s3"
  have t: "trackOutbound env cmd lc s = flushEarlyEnd env t s4"
    using assms x(1) by (simp add: trackOutbound_def s3_def s4_def Let_def)
  have "cs_tracked s4 ! t = x" "cs_registry s4 = cs_registry s1"
    using x(1) by (simp_all add: s4_def s3_def ackCommand_def publish_command_def publish_of_def)
  then obtain fin where "cs_events (flushEarlyEnd env t s4) = cs_events s4 @ fin"
      "map ev_Type fin = (if tk_earlyEnd x = None then [] else [EventEnded])"
    using flush_events [of s4 t x env] k r by auto
  moreover have "\<exists>ring ack. cs_events s4 = cs_events s @ [ring, ack] \<and> ev_Type ring = EventRinging \<and>
      ev_CommandID ring = cc_commandID cmd \<and> ev_Type ack = EventCommandAck \<and> ev_CommandID ack = cc_commandID cmd \<and>
      ev_ChannelID ack = cc_channelID cmd \<and> ev_Error ack = None"
    by (simp add: s4_def s3_def ackCommand_def publish_command_def publish_of_def e)
  ultimately show ?thesis using x(1) t by fastforce
qed

text \<open>
  A verdict on a command: one event with its id, among the events that follow; a failure is the only
  event and leaves the calls as they were.
\<close>

definition gives_verdict :: "GatewayCallCommand \<Rightarrow> ('l, 'f, 'p, 'w) calls \<Rightarrow> ('l, 'f, 'p, 'w) calls \<Rightarrow> bool" where
  "gives_verdict cmd s s' \<longleftrightarrow>
     (\<exists>v evs. cs_events s' = cs_events s @ evs \<and> filter is_verdict evs = [v] \<and>
        ev_CommandID v = cc_commandID cmd \<and> ev_ChannelID v = cc_channelID cmd \<and>
        (ev_Type v = EventCommandFailed \<longleftrightarrow> ev_Error v \<noteq> None) \<and>
        (ev_Type v = EventCommandFailed \<longrightarrow> evs = [v] \<and> cs_tracked s' = cs_tracked s \<and> cs_registry s' = cs_registry s))"

lemma verdict_publish:
  assumes "ev_Type (f (commandEvent env (cs_world s) cmd ty)) = ty" "ty \<in> {EventCommandAck, EventLinkCreated, EventLinkPreview}"
    "ev_CommandID (f (commandEvent env (cs_world s) cmd ty)) = cc_commandID cmd"
    "ev_ChannelID (f (commandEvent env (cs_world s) cmd ty)) = cc_channelID cmd"
    "ev_Error (f (commandEvent env (cs_world s) cmd ty)) = None" "cs_events s = cs_events s0"
  shows "gives_verdict cmd s0 (publish_command env cmd ty f s)"
  using assms by (auto simp: gives_verdict_def publish_command_def is_verdict_def)

lemma verdict_fail:
  assumes "cs_events s = cs_events s0" "cs_tracked s = cs_tracked s0" "cs_registry s = cs_registry s0"
  shows "gives_verdict cmd s0 (failCommand env cmd code reason s)"
  using assms by (simp add: gives_verdict_def failCommand_def publish_command_def is_verdict_def)

lemma verdict_ack: "cs_events s = cs_events s0 \<Longrightarrow> gives_verdict cmd s0 (ackCommand env cmd s)"
  by (simp add: ackCommand_def verdict_publish)

lemma verdict_track: "gives_verdict cmd s (track_result env cmd r s)"
proof (cases "fst r")
  case (Inl err)
  then show ?thesis by (simp add: track_result_def Let_def verdict_fail)
next
  case (Inr lc)
  obtain t s1 where tr: "Track env (cc_channelID cmd) lc DirectionOutbound (recordFor env cmd) (set_world (snd r) s) = (t, s1)"
    by (metis prod.exhaust)
  from trackOutbound_events [OF tr] obtain ring ack fin where
    e: "cs_events (trackOutbound env cmd lc (set_world (snd r) s)) = cs_events s @ [ring, ack] @ fin"
    and ty: "ev_Type ring = EventRinging" "ev_Type ack = EventCommandAck" "ev_CommandID ack = cc_commandID cmd"
    "ev_ChannelID ack = cc_channelID cmd" "ev_Error ack = None"
    and fin: "map ev_Type fin = (if tk_earlyEnd (cs_tracked s1 ! t) = None then [] else [EventEnded])" by auto
  from fin have "filter is_verdict fin = []"
    by (auto simp: filter_empty_conv is_verdict_def map_eq_Cons_conv split: if_splits)
  then show ?thesis using Inr e ty by (auto simp: gives_verdict_def track_result_def Let_def is_verdict_def)
qed

lemma verdict_create_link: "gives_verdict cmd s (create_link env cmd r s)"
  by (auto simp: create_link_def Let_def intro!: verdict_fail verdict_publish split: sum.split)

lemma verdict_preview_link: "gives_verdict cmd s (preview_link env cmd r s)"
  by (auto simp: preview_link_def Let_def intro!: verdict_fail verdict_publish split: sum.split)

lemma verdict_caller: "cc_action cmd \<in> set caller_actions \<Longrightarrow> gives_verdict cmd s (dispatchCaller env ca cmd s)"
  unfolding caller_actions_def dispatchCaller_def Let_def
  by (auto simp del: gives_verdict_def intro!: verdict_fail verdict_track verdict_create_link verdict_preview_link)

text \<open>An action on a live call publishes nothing itself, and changes no call when it fails.\<close>

lemma live_action_quiet:
  assumes "live_action ct t cmd s = Some (err, units, s1)"
  shows "cs_events s1 = cs_events s \<and> cs_registry s1 = cs_registry s \<and> (err \<noteq> None \<longrightarrow> cs_tracked s1 = cs_tracked s)"
proof -
  have keep: "(cs_tracked s)[t := (cs_tracked s ! t)\<lparr>tk_outbound := tk_outbound (cs_tracked s ! t)\<rparr>] = cs_tracked s" by simp
  show ?thesis
    using assms keep unfolding live_action_def play_def playVideo_def Let_def
    by (auto simp: playAnnouncement_def with_tracked_def set_world_def split: option.splits if_splits prod.splits sum.splits)
qed

lemma verdict_live: "gives_verdict cmd s (snd (dispatchLive env ct cmd s))"
proof (cases "reg_Get (cc_channelID cmd) (cc_callID cmd) (cs_registry s)")
  case None
  then show ?thesis by (simp add: dispatchLive_def verdict_ack verdict_fail)
next
  case (Some t)
  show ?thesis
  proof (cases "live_action ct t cmd s")
    case None
    then show ?thesis using Some by (simp add: dispatchLive_def verdict_fail)
  next
    case (Some r)
    obtain err units s1 where r: "r = (err, units, s1)" by (metis prod.exhaust)
    note q = live_action_quiet [OF Some [unfolded r]]
    show ?thesis
    proof (cases err)
      case None
      then show ?thesis
        using Some \<open>reg_Get _ _ _ = _\<close> r q by (simp add: dispatchLive_def verdict_ack)
    next
      case (Some e)
      then show ?thesis
        using \<open>live_action ct t cmd s = Some r\<close> \<open>reg_Get _ _ _ = _\<close> r q by (simp add: dispatchLive_def verdict_fail)
    qed
  qed
qed

section \<open>Properties\<close>

text \<open>
  Every call command gets exactly one verdict, carrying its id and channel: an acknowledgement, a
  failure, or the link it asked for. A failure has a code, is the only event of the command and leaves
  the tracked calls and the registry as they were.
\<close>

lemma Dispatch_one_verdict:
  "\<exists>v evs. cs_events (snd (Dispatch env ct ca cmd s)) = cs_events s @ evs \<and> filter is_verdict evs = [v] \<and>
     ev_CommandID v = cc_commandID cmd \<and> ev_ChannelID v = cc_channelID cmd \<and>
     (ev_Type v = EventCommandFailed) = (ev_Error v \<noteq> None) \<and>
     (if ev_Type v = EventCommandFailed
      then evs = [v] \<and> cs_tracked (snd (Dispatch env ct ca cmd s)) = cs_tracked s \<and>
        cs_registry (snd (Dispatch env ct ca cmd s)) = cs_registry s
      else True)"
proof -
  have "gives_verdict cmd s (snd (Dispatch env ct ca cmd s))"
    by (simp add: Dispatch_def verdict_fail verdict_caller verdict_live split: option.split)
  then show ?thesis unfolding gives_verdict_def by fastforce
qed

text \<open>
  A call placed by a command is announced before the command is acknowledged, and an end that
  came while it was being wired is reported after both: the events are ringing with the id of the
  command, the acknowledgement, and then at most one end.
\<close>

lemma outbound_call_in_order:
  "\<exists>ring ack fin. cs_events (trackOutbound env cmd lc s) = cs_events s @ [ring, ack] @ fin \<and>
     ev_Type ring = EventRinging \<and> ev_CommandID ring = cc_commandID cmd \<and>
     ev_Type ack = EventCommandAck \<and> ev_CommandID ack = cc_commandID cmd \<and>
     (case Track env (cc_channelID cmd) lc DirectionOutbound (recordFor env cmd) s of (t, s1) \<Rightarrow>
        map ev_Type fin = (if tk_earlyEnd (cs_tracked s1 ! t) = None then [] else [EventEnded]))"
proof -
  obtain t s1 where tr: "Track env (cc_channelID cmd) lc DirectionOutbound (recordFor env cmd) s = (t, s1)"
    by (metis prod.exhaust)
  from trackOutbound_events [OF tr] show ?thesis unfolding tr by fastforce
qed

end
