(* ===== verification/Sessions.thy ===== *)
theory Sessions
  imports Prelude
begin

text \<open>
  The WhatsApp sessions of internal/session/manager.go: the clients of the channels, their muted
  flags, the pairings in progress and the retained QR codes. Clients, muted flags and pairings are
  pointers in the code: a client is a value of type \<open>'c\<close> with equality, a muted flag lives in the
  registration that its event handler closes over, a pairing in a list; the last two are named by
  position. The client library, the pairing slot and the clock are functions of the world \<open>'w\<close>.
\<close>

section \<open>Pairings\<close>

record pairing =
  pg_qr :: string
  pg_emitted :: "int option"
  pg_lifetime :: int
  pg_phone :: string
  pg_code :: string
  pg_importHistory :: bool
  pg_stopped :: bool

record PairUpdate =
  pu_QR :: string
  pu_Code :: string
  pu_Connected :: bool
  pu_Err :: "goerr option"

definition newPairing :: "bool \<Rightarrow> string \<Rightarrow> pairing" where
  "newPairing importHistory phone =
     \<lparr>pg_qr = [], pg_emitted = None, pg_lifetime = 0, pg_phone = phone, pg_code = [], pg_importHistory = importHistory,
      pg_stopped = False\<rparr>"

definition byCode :: "pairing \<Rightarrow> bool" where "byCode p = (pg_phone p \<noteq> [])"

definition halt :: "pairing \<Rightarrow> pairing" where "halt p = p\<lparr>pg_stopped := True\<rparr>"

text \<open>A pairing whose \<open>emitted\<close> is the zero time has a code of the year 1, which is not valid now.\<close>

definition validQR :: "int \<Rightarrow> pairing \<Rightarrow> string option" where
  "validQR now p =
     (case pg_emitted p of
        None \<Rightarrow> None
      | Some at \<Rightarrow> if pg_qr p = [] \<or> \<not> now < at + pg_lifetime p then None else Some (pg_qr p))"

definition pg_clear :: "pairing \<Rightarrow> pairing" where
  "pg_clear p = p\<lparr>pg_qr := [], pg_emitted := None, pg_lifetime := 0, pg_code := []\<rparr>"

definition no_update :: PairUpdate where
  "no_update = \<lparr>pu_QR = [], pu_Code = [], pu_Connected = False, pu_Err = None\<rparr>"

definition retained :: "int \<Rightarrow> pairing \<Rightarrow> PairUpdate option" where
  "retained now p =
     (if byCode p then (if pg_code p = [] then None else Some (no_update\<lparr>pu_Code := pg_code p\<rparr>))
      else map_option (\<lambda>code. no_update\<lparr>pu_QR := code\<rparr>) (validQR now p))"

section \<open>The manager\<close>

record qr_item =
  qi_Event :: string
  qi_Code :: string
  qi_Timeout :: int
  qi_Error :: "goerr option"

record ('c, 'w) wa_env =
  we_now :: "'w \<Rightarrow> int"
  we_factory :: "string \<Rightarrow> jid option \<Rightarrow> 'w \<Rightarrow> 'c result \<times> 'w"
  we_DeviceJID :: "'c \<Rightarrow> 'w \<Rightarrow> jid option"
  we_IsConnected :: "'c \<Rightarrow> 'w \<Rightarrow> bool"
  we_IsLoggedIn :: "'c \<Rightarrow> 'w \<Rightarrow> bool"
  we_Connect :: "'c \<Rightarrow> 'w \<Rightarrow> goerr option \<times> 'w"
  we_WaitForConnection :: "'c \<Rightarrow> int \<Rightarrow> 'w \<Rightarrow> bool \<times> 'w"
  we_Disconnect :: "'c \<Rightarrow> 'w \<Rightarrow> 'w"
  we_Logout :: "'c \<Rightarrow> 'w \<Rightarrow> goerr option \<times> 'w"
  we_QRChannel :: "'c \<Rightarrow> 'w \<Rightarrow> goerr option \<times> 'w"
  we_PairPhone :: "'c \<Rightarrow> string \<Rightarrow> 'w \<Rightarrow> string result \<times> 'w"
  we_TakeOverHistory :: "'c \<Rightarrow> 'w \<Rightarrow> 'w"
  we_slot :: "bool \<Rightarrow> 'w \<Rightarrow> goerr option \<times> 'w"
  we_release :: "'w \<Rightarrow> 'w"
  we_code_event :: string
  we_success_event :: string
  we_timeout_event :: string

text \<open>What one call of \<open>register\<close> creates: the client of a channel and the flag of its handler.\<close>

record 'c registration =
  rg_channel :: string
  rg_client :: 'c
  rg_muted :: bool

text \<open>\<open>ss_disconnects\<close>, \<open>ss_unlinks\<close> and \<open>ss_dispatched\<close> record the calls that the manager made.\<close>

record ('c, 'e, 'w) session_state =
  ss_sessions :: "string \<Rightarrow> 'c option"
  ss_pairings :: "string \<Rightarrow> nat option"
  ss_muted :: "string \<Rightarrow> nat option"
  ss_regs :: "'c registration list"
  ss_pairs :: "pairing list"
  ss_disconnects :: "'c list"
  ss_unlinks :: "string list"
  ss_dispatched :: "(nat \<times> 'e) list"
  ss_world :: 'w

definition sm_NewManager :: "'w \<Rightarrow> ('c, 'e, 'w) session_state" where
  "sm_NewManager w =
     \<lparr>ss_sessions = Map.empty, ss_pairings = Map.empty, ss_muted = Map.empty, ss_regs = [], ss_pairs = [], ss_disconnects = [],
      ss_unlinks = [], ss_dispatched = [], ss_world = w\<rparr>"

definition connectWait :: int where "connectWait = 10 * 1000000000"

definition no_session :: "string \<Rightarrow> goerr" where
  "no_session channelID = Wrap [] (Err ENoSession ''session: channel has no live session'') ('': '' @ channelID)"

definition sm_session :: "string \<Rightarrow> ('c, 'e, 'w) session_state \<Rightarrow> 'c result" where
  "sm_session channelID s =
     (case ss_sessions s channelID of None \<Rightarrow> Inl (no_session channelID) | Some c \<Rightarrow> Inr c)"

definition sm_register :: "string \<Rightarrow> 'c \<Rightarrow> ('c, 'e, 'w) session_state \<Rightarrow> ('c, 'e, 'w) session_state" where
  "sm_register channelID c s =
     s\<lparr>ss_regs := ss_regs s @ [\<lparr>rg_channel = channelID, rg_client = c, rg_muted = False\<rparr>],
       ss_sessions := (ss_sessions s)(channelID \<mapsto> c), ss_muted := (ss_muted s)(channelID \<mapsto> length (ss_regs s))\<rparr>"

definition sm_client ::
  "('c, 'w) wa_env \<Rightarrow> string \<Rightarrow> ('c, 'e, 'w) session_state \<Rightarrow> 'c result \<times> ('c, 'e, 'w) session_state" where
  "sm_client env channelID s =
     (case ss_sessions s channelID of
        Some c \<Rightarrow> (Inr c, s)
      | None \<Rightarrow>
          (case we_factory env channelID None (ss_world s) of
             (Inl err, w) \<Rightarrow> (Inl err, s\<lparr>ss_world := w\<rparr>)
           | (Inr c, w) \<Rightarrow> (Inr c, sm_register channelID c (s\<lparr>ss_world := w\<rparr>))))"

text \<open>The first half of \<open>drop\<close>, under the mutex, and the call that follows it.\<close>

definition drop_take :: "string \<Rightarrow> 'c \<Rightarrow> ('c, 'e, 'w) session_state \<Rightarrow> ('c, 'e, 'w) session_state" where
  "drop_take channelID c s =
     (if ss_sessions s channelID = Some c
      then s\<lparr>ss_sessions := (ss_sessions s)(channelID := None), ss_muted := (ss_muted s)(channelID := None)\<rparr> else s)"

definition disconnect :: "('c, 'w) wa_env \<Rightarrow> 'c \<Rightarrow> ('c, 'e, 'w) session_state \<Rightarrow> ('c, 'e, 'w) session_state" where
  "disconnect env c s = s\<lparr>ss_disconnects := ss_disconnects s @ [c], ss_world := we_Disconnect env c (ss_world s)\<rparr>"

definition sm_drop :: "('c, 'w) wa_env \<Rightarrow> string \<Rightarrow> 'c \<Rightarrow> ('c, 'e, 'w) session_state \<Rightarrow> ('c, 'e, 'w) session_state" where
  "sm_drop env channelID c s = disconnect env c (drop_take channelID c s)"

text \<open>\<open>mutedFlag\<close>: the registration whose flag is returned, or none for a flag that nobody reads.\<close>

definition mutedFlag :: "string \<Rightarrow> 'c \<Rightarrow> ('c, 'e, 'w) session_state \<Rightarrow> nat option" where
  "mutedFlag channelID c s = (if ss_sessions s channelID = Some c then ss_muted s channelID else None)"

definition store_flag :: "nat option \<Rightarrow> bool \<Rightarrow> ('c, 'e, 'w) session_state \<Rightarrow> ('c, 'e, 'w) session_state" where
  "store_flag flag b s =
     (case flag of
        None \<Rightarrow> s
      | Some r \<Rightarrow>
          if r < length (ss_regs s) then s\<lparr>ss_regs := (ss_regs s)[r := (ss_regs s ! r)\<lparr>rg_muted := b\<rparr>]\<rparr> else s)"

definition call_logout ::
  "('c, 'w) wa_env \<Rightarrow> 'c \<Rightarrow> ('c, 'e, 'w) session_state \<Rightarrow> goerr option \<times> ('c, 'e, 'w) session_state" where
  "call_logout env c s = (case we_Logout env c (ss_world s) of (err, w) \<Rightarrow> (err, s\<lparr>ss_world := w\<rparr>))"

definition unlink ::
  "('c, 'w) wa_env \<Rightarrow> string \<Rightarrow> 'c \<Rightarrow> ('c, 'e, 'w) session_state \<Rightarrow> goerr option \<times> ('c, 'e, 'w) session_state" where
  "unlink env channelID c s =
     (let muted = mutedFlag channelID c s in
      case call_logout env c (store_flag muted True s) of
        (Some err, s1) \<Rightarrow>
          (Some (Wrap (''session: unlink the paired device of '' @ channelID @ '' to pair it again with the history: '') err []),
           store_flag muted False s1)
      | (None, s1) \<Rightarrow>
          (let s2 = sm_drop env channelID c s1 in (None, s2\<lparr>ss_unlinks := ss_unlinks s2 @ [channelID]\<rparr>)))"

definition Remove ::
  "('c, 'w) wa_env \<Rightarrow> string \<Rightarrow> ('c, 'e, 'w) session_state \<Rightarrow> goerr option \<times> ('c, 'e, 'w) session_state" where
  "Remove env channelID s =
     (case ss_sessions s channelID of
        None \<Rightarrow> (None, s)
      | Some c \<Rightarrow>
          (case call_logout env c (store_flag (mutedFlag channelID c s) True s) of
             (err, s1) \<Rightarrow>
               (let s2 = sm_drop env channelID c s1 in
                case err of
                  None \<Rightarrow> (None, s2)
                | Some e \<Rightarrow>
                    if err_is e ENotLoggedIn then (None, s2)
                    else (Some (Wrap (''session: logout of the removed channel '' @ channelID @ '': '') e []), s2))))"

text \<open>The channels come in the order in which the map of sessions is iterated.\<close>

definition disconnect_take :: "string list \<Rightarrow> ('c, 'e, 'w) session_state \<Rightarrow> 'c list \<times> ('c, 'e, 'w) session_state" where
  "disconnect_take channels s =
     (List.map_filter (ss_sessions s) channels,
      s\<lparr>ss_sessions := Map.empty, ss_muted := Map.empty, ss_pairings := Map.empty\<rparr>)"

definition DisconnectAll ::
  "('c, 'w) wa_env \<Rightarrow> string list \<Rightarrow> ('c, 'e, 'w) session_state \<Rightarrow> ('c, 'e, 'w) session_state" where
  "DisconnectAll env channels s =
     (case disconnect_take channels s of (clients, s1) \<Rightarrow> fold (disconnect env) clients s1)"

definition ensureUp :: "('c, 'w) wa_env \<Rightarrow> 'c \<Rightarrow> 'w \<Rightarrow> goerr option \<times> 'w" where
  "ensureUp env c w =
     (if we_IsConnected env c w \<and> we_IsLoggedIn env c w then (None, w)
      else
        (case we_Connect env c w of
           (err, w1) \<Rightarrow>
             if (case err of None \<Rightarrow> False | Some e \<Rightarrow> \<not> err_is e EAlreadyConnected) then (err, w1)
             else
               (case we_WaitForConnection env c connectWait w1 of
                  (True, w2) \<Rightarrow> (None, w2)
                | (False, w2) \<Rightarrow>
                    (Some (Wrap [] (Err ESocketDown ''session: socket still down'') '' after 10s, auto-reconnect still running''), w2))))"

definition EnsureConnected ::
  "('c, 'w) wa_env \<Rightarrow> string \<Rightarrow> ('c, 'e, 'w) session_state \<Rightarrow> goerr option \<times> ('c, 'e, 'w) session_state" where
  "EnsureConnected env channelID s =
     (case sm_session channelID s of
        Inl err \<Rightarrow> (Some err, s)
      | Inr c \<Rightarrow> (case ensureUp env c (ss_world s) of (err, w) \<Rightarrow> (err, s\<lparr>ss_world := w\<rparr>)))"

definition sm_Send ::
  "('c \<Rightarrow> 'm \<Rightarrow> 'w \<Rightarrow> (string \<times> int) result \<times> 'w) \<Rightarrow> string \<Rightarrow> 'm \<Rightarrow> ('c, 'e, 'w) session_state \<Rightarrow>
   (string \<times> int) result \<times> ('c, 'e, 'w) session_state" where
  "sm_Send send channelID msg s =
     (case sm_session channelID s of
        Inl err \<Rightarrow> (Inl err, s)
      | Inr c \<Rightarrow> (case send c msg (ss_world s) of (res, w) \<Rightarrow> (res, s\<lparr>ss_world := w\<rparr>)))"

text \<open>\<open>Resume\<close>: the part under the mutex, which gives the new client if there is one, and the rest.\<close>

definition resume_take ::
  "('c, 'w) wa_env \<Rightarrow> string \<Rightarrow> jid \<Rightarrow> ('c, 'e, 'w) session_state \<Rightarrow> 'c option result \<times> ('c, 'e, 'w) session_state" where
  "resume_take env channelID j s =
     (if ss_sessions s channelID \<noteq> None then (Inr None, s)
      else
        (case we_factory env channelID (Some j) (ss_world s) of
           (Inl err, w) \<Rightarrow> (Inl (Wrap (''session: resume device for channel '' @ channelID @ '': '') err []), s\<lparr>ss_world := w\<rparr>)
         | (Inr c, w) \<Rightarrow> (Inr (Some c), sm_register channelID c (s\<lparr>ss_world := w\<rparr>))))"

definition Resume ::
  "('c, 'w) wa_env \<Rightarrow> string \<Rightarrow> jid \<Rightarrow> bool \<Rightarrow> ('c, 'e, 'w) session_state \<Rightarrow> goerr option \<times> ('c, 'e, 'w) session_state" where
  "Resume env channelID j importingHistory s =
     (case resume_take env channelID j s of
        (Inl err, s1) \<Rightarrow> (Some err, s1)
      | (Inr None, s1) \<Rightarrow> (None, s1)
      | (Inr (Some c), s1) \<Rightarrow>
          (let w1 = (if importingHistory then we_TakeOverHistory env c (ss_world s1) else ss_world s1) in
           case we_Connect env c w1 of
             (None, w2) \<Rightarrow> (None, s1\<lparr>ss_world := w2\<rparr>)
           | (Some err, w2) \<Rightarrow>
               (Some (Wrap (''session: connect resumed channel '' @ channelID @ '': '') err []),
                sm_drop env channelID c (s1\<lparr>ss_world := w2\<rparr>))))"

text \<open>The handler that \<open>register\<close> installs: whether the event is let through.\<close>

definition handle_event :: "nat \<Rightarrow> 'e \<Rightarrow> ('c, 'e, 'w) session_state \<Rightarrow> bool \<times> ('c, 'e, 'w) session_state" where
  "handle_event r evt s =
     (if rg_muted (ss_regs s ! r) then (False, s) else (True, s\<lparr>ss_dispatched := ss_dispatched s @ [(r, evt)]\<rparr>))"

section \<open>Pairing a channel\<close>

definition set_pair :: "nat \<Rightarrow> (pairing \<Rightarrow> pairing) \<Rightarrow> ('c, 'e, 'w) session_state \<Rightarrow> ('c, 'e, 'w) session_state" where
  "set_pair p f s = (if p < length (ss_pairs s) then s\<lparr>ss_pairs := (ss_pairs s)[p := f (ss_pairs s ! p)]\<rparr> else s)"

definition pairingClient ::
  "('c, 'w) wa_env \<Rightarrow> string \<Rightarrow> bool \<Rightarrow> ('c, 'e, 'w) session_state \<Rightarrow> ('c \<times> bool) result \<times> ('c, 'e, 'w) session_state" where
  "pairingClient env channelID relink s =
     (case sm_client env channelID s of
        (Inl err, s1) \<Rightarrow> (Inl err, s1)
      | (Inr c, s1) \<Rightarrow>
          if we_DeviceJID env c (ss_world s1) = None then (Inr (c, False), s1)
          else
            (case ensureUp env c (ss_world s1) of
               (Some err, w) \<Rightarrow> (Inl err, s1\<lparr>ss_world := w\<rparr>)
             | (None, w) \<Rightarrow>
                 (let s2 = s1\<lparr>ss_world := w\<rparr> in
                  if \<not> relink then (Inr (c, True), s2)
                  else
                    (case unlink env channelID c s2 of
                       (Some err, s3) \<Rightarrow> (Inl err, s3)
                     | (None, s3) \<Rightarrow>
                         (case sm_client env channelID s3 of
                            (Inl err, s4) \<Rightarrow> (Inl err, s4)
                          | (Inr fresh, s4) \<Rightarrow> (Inr (fresh, False), s4))))))"

datatype pairing_start = Begun nat | Joined "PairUpdate option" | Superseding nat

definition beginPairing ::
  "('c, 'w) wa_env \<Rightarrow> string \<Rightarrow> bool \<Rightarrow> string \<Rightarrow> ('c, 'e, 'w) session_state \<Rightarrow> pairing_start \<times> ('c, 'e, 'w) session_state" where
  "beginPairing env channelID importHistory phone s =
     (case ss_pairings s channelID of
        Some p \<Rightarrow>
          (let live = ss_pairs s ! p in
           if importHistory \<noteq> pg_importHistory live \<or> phone \<noteq> pg_phone live then (Superseding p, set_pair p halt s)
           else (Joined (retained (we_now env (ss_world s)) live), s))
      | None \<Rightarrow>
          (Begun (length (ss_pairs s)),
           s\<lparr>ss_pairs := ss_pairs s @ [newPairing importHistory phone],
             ss_pairings := (ss_pairings s)(channelID \<mapsto> length (ss_pairs s))\<rparr>))"

definition end_take :: "string \<Rightarrow> nat \<Rightarrow> ('c, 'e, 'w) session_state \<Rightarrow> ('c, 'e, 'w) session_state" where
  "end_take channelID p s =
     (if ss_pairings s channelID = Some p then s\<lparr>ss_pairings := (ss_pairings s)(channelID := None)\<rparr> else s)"

definition endPairing ::
  "('c, 'w) wa_env \<Rightarrow> string \<Rightarrow> nat \<Rightarrow> 'c \<Rightarrow> ('c, 'e, 'w) session_state \<Rightarrow> ('c, 'e, 'w) session_state" where
  "endPairing env channelID p c s =
     (let s1 = end_take channelID p s in
      if we_DeviceJID env c (ss_world s1) = None then sm_drop env channelID c s1 else s1)"

definition retain_code :: "int \<Rightarrow> string \<Rightarrow> int \<Rightarrow> pairing \<Rightarrow> bool \<times> pairing" where
  "retain_code now code timeout p =
     (if code = [] \<or> timeout \<le> 0 then (code \<noteq> [], pg_clear p)
      else
        (let emitted = (case pg_emitted p of None \<Rightarrow> now | Some at \<Rightarrow> if at + pg_lifetime p < now then at + pg_lifetime p else now)
         in (now < emitted + timeout, p\<lparr>pg_qr := code, pg_emitted := Some emitted, pg_lifetime := timeout\<rparr>)))"

definition retainQR ::
  "('c, 'w) wa_env \<Rightarrow> string \<Rightarrow> nat \<Rightarrow> string \<Rightarrow> int \<Rightarrow> ('c, 'e, 'w) session_state \<Rightarrow> bool \<times> ('c, 'e, 'w) session_state" where
  "retainQR env channelID p code timeout s =
     (if ss_pairings s channelID \<noteq> Some p then (False, s)
      else
        (case retain_code (we_now env (ss_world s)) code timeout (ss_pairs s ! p) of
           (ok, x) \<Rightarrow> (ok, set_pair p (\<lambda>_. x) s)))"

definition hasCode :: "string \<Rightarrow> nat \<Rightarrow> ('c, 'e, 'w) session_state \<Rightarrow> bool" where
  "hasCode channelID p s = (ss_pairings s channelID = Some p \<and> pg_code (ss_pairs s ! p) \<noteq> [])"

definition retainCode :: "string \<Rightarrow> nat \<Rightarrow> string \<Rightarrow> ('c, 'e, 'w) session_state \<Rightarrow> bool \<times> ('c, 'e, 'w) session_state" where
  "retainCode channelID p code s =
     (if ss_pairings s channelID \<noteq> Some p \<or> code = [] then (False, s)
      else (True, set_pair p (\<lambda>x. x\<lparr>pg_code := code\<rparr>) s))"

definition clearQR :: "string \<Rightarrow> nat \<Rightarrow> ('c, 'e, 'w) session_state \<Rightarrow> ('c, 'e, 'w) session_state" where
  "clearQR channelID p s = (if ss_pairings s channelID \<noteq> Some p then s else set_pair p pg_clear s)"

definition pairPhoneError :: "string \<Rightarrow> goerr \<Rightarrow> goerr" where
  "pairPhoneError channelID err =
     (if err_is err EPhoneNumberTooShort \<or> err_is err EPhoneNumberIsNotInternational
      then Tag EInvalidPhoneNumber (Wrap ''session: invalid phone number for a pairing code: '' err [])
      else Wrap (''session: ask a pairing code for '' @ channelID @ '': '') err [])"

definition pairingEndError :: "('c, 'w) wa_env \<Rightarrow> pairing \<Rightarrow> qr_item \<Rightarrow> goerr" where
  "pairingEndError env p evt =
     (case qi_Error evt of
        Some err \<Rightarrow> err
      | None \<Rightarrow>
          if qi_Event evt = we_timeout_event env then
            (if byCode p then Err EPairingCodeExpired ''session: pairing code expired before it was used''
             else Err EPairingTimeout ''session: the QR code was not scanned in time'')
          else Err EText (''whatsmeow-gateway: pairing ended with event '' @ go_quote (qi_Event evt)))"

text \<open>
  The switch of the pairing goroutine on an item of the QR channel: nothing to send, an update to
  send, or the last update.
\<close>

datatype pair_action = Continue | Update PairUpdate | Final PairUpdate

definition pair_item ::
  "('c, 'w) wa_env \<Rightarrow> string \<Rightarrow> nat \<Rightarrow> 'c \<Rightarrow> qr_item \<Rightarrow> ('c, 'e, 'w) session_state \<Rightarrow> pair_action \<times> ('c, 'e, 'w) session_state" where
  "pair_item env channelID p c evt s =
     (if qi_Event evt = we_code_event env \<and> byCode (ss_pairs s ! p) then
        (if hasCode channelID p s then (Continue, s)
         else
           (case we_PairPhone env c (pg_phone (ss_pairs s ! p)) (ss_world s) of
              (Inl err, w) \<Rightarrow> (Final (no_update\<lparr>pu_Err := Some (pairPhoneError channelID err)\<rparr>), s\<lparr>ss_world := w\<rparr>)
            | (Inr code, w) \<Rightarrow>
                (case retainCode channelID p code (s\<lparr>ss_world := w\<rparr>) of
                   (False, s1) \<Rightarrow> (Continue, s1)
                 | (True, s1) \<Rightarrow> (Update (no_update\<lparr>pu_Code := code\<rparr>), s1))))
      else if qi_Event evt = we_code_event env then
        (case retainQR env channelID p (qi_Code evt) (qi_Timeout evt) s of
           (False, s1) \<Rightarrow> (Continue, s1)
         | (True, s1) \<Rightarrow> (Update (no_update\<lparr>pu_QR := qi_Code evt\<rparr>), s1))
      else if qi_Event evt = we_success_event env then (Update (no_update\<lparr>pu_Connected := True\<rparr>), clearQR channelID p s)
      else
        (Final (no_update\<lparr>pu_Err := Some (pairingEndError env (ss_pairs s ! p) evt)\<rparr>), clearQR channelID p s))"

text \<open>
  The goroutine: each selection yields an item of the channel, with whether its update found a
  receiver before the end of the context or the halt, or the end of the channel, of the context or
  of the pairing. The result is the updates sent and whether the goroutine has ended.
\<close>

datatype pair_input = Item qr_item bool | Ended

definition pair_finish ::
  "('c, 'w) wa_env \<Rightarrow> string \<Rightarrow> nat \<Rightarrow> 'c \<Rightarrow> ('c, 'e, 'w) session_state \<Rightarrow> ('c, 'e, 'w) session_state" where
  "pair_finish env channelID p c s =
     (let s1 = endPairing env channelID p c s in s1\<lparr>ss_world := we_release env (ss_world s1)\<rparr>)"

fun pair_loop ::
  "('c, 'w) wa_env \<Rightarrow> string \<Rightarrow> nat \<Rightarrow> 'c \<Rightarrow> pair_input list \<Rightarrow> ('c, 'e, 'w) session_state \<Rightarrow>
   PairUpdate list \<times> bool \<times> ('c, 'e, 'w) session_state" where
  "pair_loop env channelID p c [] s = ([], False, s)"
| "pair_loop env channelID p c (Ended # rest) s = ([], True, pair_finish env channelID p c s)"
| "pair_loop env channelID p c (Item evt received # rest) s =
     (case pair_item env channelID p c evt s of
        (Continue, s1) \<Rightarrow> pair_loop env channelID p c rest s1
      | (Update u, s1) \<Rightarrow>
          if \<not> received then ([], True, pair_finish env channelID p c s1)
          else (case pair_loop env channelID p c rest s1 of (us, done, s2) \<Rightarrow> (u # us, done, s2))
      | (Final u, s1) \<Rightarrow> (if received then [u] else [], True, pair_finish env channelID p c s1))"

text \<open>
  One attempt of \<open>pair\<close>. \<open>Superseded\<close> waits for the end of the given pairing and tries again;
  \<open>Started\<close> leaves the goroutine running.
\<close>

datatype 'c pair_outcome = Failed goerr | AlreadyPaired | JoinedWith "PairUpdate option" | Superseded nat | Started nat 'c

definition pair_attempt ::
  "('c, 'w) wa_env \<Rightarrow> string \<Rightarrow> bool \<Rightarrow> bool \<Rightarrow> string \<Rightarrow> ('c, 'e, 'w) session_state \<Rightarrow>
   'c pair_outcome \<times> ('c, 'e, 'w) session_state" where
  "pair_attempt env channelID importHistory relinkDevice phone s =
     (case pairingClient env channelID (importHistory \<and> relinkDevice) s of
        (Inl err, s1) \<Rightarrow> (Failed err, s1)
      | (Inr (c, True), s1) \<Rightarrow> (AlreadyPaired, s1)
      | (Inr (c, False), s1) \<Rightarrow>
          (case beginPairing env channelID importHistory phone s1 of
             (Superseding p, s2) \<Rightarrow> (Superseded p, s2)
           | (Joined u, s2) \<Rightarrow> (JoinedWith u, s2)
           | (Begun p, s2) \<Rightarrow>
               (let fail = (\<lambda>text err s. (Failed (Wrap (text @ channelID @ '': '') err []), endPairing env channelID p c s)) in
                case we_QRChannel env c (ss_world s2) of
                  (Some err, w) \<Rightarrow> fail ''session: open qr channel for '' err (s2\<lparr>ss_world := w\<rparr>)
                | (None, w) \<Rightarrow>
                    (case we_slot env importHistory (if importHistory then we_TakeOverHistory env c w else w) of
                       (Some err, w1) \<Rightarrow> fail ''session: wait for the pairing slot for '' err (s2\<lparr>ss_world := w1\<rparr>)
                     | (None, w1) \<Rightarrow>
                         (case we_Connect env c w1 of
                            (Some err, w2) \<Rightarrow>
                              (Failed (Wrap (''session: connect for pairing '' @ channelID @ '': '') err []),
                               pair_finish env channelID p c (s2\<lparr>ss_world := w2\<rparr>))
                          | (None, w2) \<Rightarrow> (Started p c, s2\<lparr>ss_world := w2\<rparr>))))))"

section \<open>The system of all goroutines\<close>

text \<open>
  The critical sections of the manager interleave freely, except that the unlink and the removal of
  a channel hold its lock: \<open>sv_work\<close> says what the holder of the lock is doing after it has set the
  muted flag. \<open>sv_dropping\<close> holds the clients that some goroutine is about to disconnect.
\<close>

datatype 'c work = Unlinking "nat option" 'c | Removing "nat option" 'c

record ('c, 'e, 'w) session_system =
  sv_state :: "('c, 'e, 'w) session_state"
  sv_dropping :: "'c list"
  sv_work :: "string \<Rightarrow> 'c work option"

inductive session_step ::
  "('c, 'w) wa_env \<Rightarrow> ('c, 'e, 'w) session_system \<Rightarrow> ('c, 'e, 'w) session_system \<Rightarrow> bool"
  for env :: "('c, 'w) wa_env" where
  client: "session_step env y (y\<lparr>sv_state := snd (sm_client env channelID (sv_state y))\<rparr>)"
| resume: "session_step env y (y\<lparr>sv_state := snd (resume_take env channelID j (sv_state y))\<rparr>)"
| drop: "session_step env y (y\<lparr>sv_state := drop_take channelID c (sv_state y), sv_dropping := sv_dropping y @ [c]\<rparr>)"
| disconnect: "c \<in> set (sv_dropping y) \<Longrightarrow>
     session_step env y (y\<lparr>sv_state := disconnect env c (sv_state y), sv_dropping := remove1 c (sv_dropping y)\<rparr>)"
| disconnect_all: "set channels = dom (ss_sessions (sv_state y)) \<Longrightarrow> disconnect_take channels (sv_state y) = (clients, s) \<Longrightarrow>
     session_step env y (y\<lparr>sv_state := s, sv_dropping := sv_dropping y @ clients\<rparr>)"
| unlink_mute: "sv_work y channelID = None \<Longrightarrow> flag = mutedFlag channelID c (sv_state y) \<Longrightarrow>
     session_step env y (y\<lparr>sv_state := store_flag flag True (sv_state y),
        sv_work := (sv_work y)(channelID \<mapsto> Unlinking flag c)\<rparr>)"
| unlink_failed: "sv_work y channelID = Some (Unlinking flag c) \<Longrightarrow>
     session_step env y (y\<lparr>sv_state := store_flag flag False (sv_state y), sv_work := (sv_work y)(channelID := None)\<rparr>)"
| unlink_done: "sv_work y channelID = Some (Unlinking flag c) \<Longrightarrow>
     session_step env y (y\<lparr>sv_state := drop_take channelID c (sv_state y), sv_dropping := sv_dropping y @ [c],
        sv_work := (sv_work y)(channelID := None)\<rparr>)"
| remove_mute: "sv_work y channelID = None \<Longrightarrow> flag = mutedFlag channelID c (sv_state y) \<Longrightarrow>
     session_step env y (y\<lparr>sv_state := store_flag flag True (sv_state y),
        sv_work := (sv_work y)(channelID \<mapsto> Removing flag c)\<rparr>)"
| remove_done: "sv_work y channelID = Some (Removing flag c) \<Longrightarrow>
     session_step env y (y\<lparr>sv_state := drop_take channelID c (sv_state y), sv_dropping := sv_dropping y @ [c],
        sv_work := (sv_work y)(channelID := None)\<rparr>)"
| event: "r < length (ss_regs (sv_state y)) \<Longrightarrow>
     session_step env y (y\<lparr>sv_state := snd (handle_event r evt (sv_state y))\<rparr>)"
| pairings: "session_step env y (y\<lparr>sv_state := (sv_state y)\<lparr>ss_pairings := ps, ss_pairs := xs\<rparr>\<rparr>)"
| library: "session_step env y (y\<lparr>sv_state := (sv_state y)\<lparr>ss_world := w, ss_unlinks := us\<rparr>\<rparr>)"

definition session_start :: "'w \<Rightarrow> ('c, 'e, 'w) session_system" where
  "session_start w = \<lparr>sv_state = sm_NewManager w, sv_dropping = [], sv_work = Map.empty\<rparr>"

text \<open>
  Every registered client is the session of its channel, or was disconnected, or is about to be. The
  flag of a channel belongs to the registration of its session, and so does the flag that the holder
  of the lock has set.
\<close>

definition work_flag :: "'c work \<Rightarrow> nat option \<times> 'c" where
  "work_flag k = (case k of Unlinking f c \<Rightarrow> (f, c) | Removing f c \<Rightarrow> (f, c))"

lemma work_flag_simps [simp]: "work_flag (Unlinking f c) = (f, c)" "work_flag (Removing f c) = (f, c)"
  by (simp_all add: work_flag_def)

definition accounted :: "('c, 'e, 'w) session_system \<Rightarrow> 'c registration \<Rightarrow> bool" where
  "accounted y g \<longleftrightarrow> ss_sessions (sv_state y) (rg_channel g) = Some (rg_client g) \<or>
     rg_client g \<in> set (ss_disconnects (sv_state y)) \<or> rg_client g \<in> set (sv_dropping y)"

definition session_inv :: "('c, 'e, 'w) session_system \<Rightarrow> bool" where
  "session_inv y \<longleftrightarrow>
     (\<forall>g\<in>set (ss_regs (sv_state y)). accounted y g) \<and>
     (\<forall>ch r. ss_muted (sv_state y) ch = Some r \<longrightarrow> r < length (ss_regs (sv_state y)) \<and>
        rg_channel (ss_regs (sv_state y) ! r) = ch \<and> ss_sessions (sv_state y) ch = Some (rg_client (ss_regs (sv_state y) ! r))) \<and>
     (\<forall>ch k r. sv_work y ch = Some k \<longrightarrow> fst (work_flag k) = Some r \<longrightarrow> r < length (ss_regs (sv_state y)) \<and>
        rg_channel (ss_regs (sv_state y) ! r) = ch \<and> rg_client (ss_regs (sv_state y) ! r) = snd (work_flag k))"

lemma session_invI:
  assumes "\<And>g. g \<in> set (ss_regs (sv_state y)) \<Longrightarrow> accounted y g"
    and "\<And>ch r. ss_muted (sv_state y) ch = Some r \<Longrightarrow> r < length (ss_regs (sv_state y)) \<and>
        rg_channel (ss_regs (sv_state y) ! r) = ch \<and> ss_sessions (sv_state y) ch = Some (rg_client (ss_regs (sv_state y) ! r))"
    and "\<And>ch k r. sv_work y ch = Some k \<Longrightarrow> fst (work_flag k) = Some r \<Longrightarrow> r < length (ss_regs (sv_state y)) \<and>
        rg_channel (ss_regs (sv_state y) ! r) = ch \<and> rg_client (ss_regs (sv_state y) ! r) = snd (work_flag k)"
  shows "session_inv y"
  using assms unfolding session_inv_def by blast

lemma session_invD:
  assumes "session_inv y"
  shows "g \<in> set (ss_regs (sv_state y)) \<Longrightarrow> accounted y g"
    and "ss_muted (sv_state y) ch = Some r \<Longrightarrow> r < length (ss_regs (sv_state y)) \<and>
        rg_channel (ss_regs (sv_state y) ! r) = ch \<and> ss_sessions (sv_state y) ch = Some (rg_client (ss_regs (sv_state y) ! r))"
    and "sv_work y ch = Some k \<Longrightarrow> fst (work_flag k) = Some r \<Longrightarrow> r < length (ss_regs (sv_state y)) \<and>
        rg_channel (ss_regs (sv_state y) ! r) = ch \<and> rg_client (ss_regs (sv_state y) ! r) = snd (work_flag k)"
  using assms unfolding session_inv_def by blast+

lemma inv_register:
  assumes "session_inv y" "ss_sessions (sv_state y) ch = None"
  shows "session_inv (y\<lparr>sv_state := sm_register ch c ((sv_state y)\<lparr>ss_world := w\<rparr>)\<rparr>)"
  using session_invD [OF assms(1)] assms(2)
  by (intro session_invI) (fastforce simp: sm_register_def accounted_def nth_append split: if_splits)+

lemma inv_drop:
  assumes "session_inv y" "k = sv_work y \<or> k = (sv_work y)(ch := None)"
  shows "session_inv (y\<lparr>sv_state := drop_take ch c (sv_state y), sv_dropping := sv_dropping y @ [c], sv_work := k\<rparr>)"
  using session_invD [OF assms(1)] assms(2)
  by (intro session_invI) (fastforce simp: drop_take_def accounted_def split: if_splits)+

lemma regs_store_flag:
  "length (ss_regs (store_flag f b s)) = length (ss_regs s)"
  "rg_channel (ss_regs (store_flag f b s) ! r) = rg_channel (ss_regs s ! r)"
  "rg_client (ss_regs (store_flag f b s) ! r) = rg_client (ss_regs s ! r)"
  "rg_muted (ss_regs (store_flag f b s) ! r) = (if f = Some r \<and> r < length (ss_regs s) then b else rg_muted (ss_regs s ! r))"
  "ss_sessions (store_flag f b s) = ss_sessions s" "ss_muted (store_flag f b s) = ss_muted s"
  "ss_disconnects (store_flag f b s) = ss_disconnects s" "ss_dispatched (store_flag f b s) = ss_dispatched s"
  by (simp_all add: store_flag_def nth_list_update split: option.split)

lemma accounted_flag:
  assumes "session_inv y" "g \<in> set (ss_regs (store_flag f b (sv_state y)))"
  shows "accounted y g"
proof -
  from assms(2) obtain r where r: "r < length (ss_regs (sv_state y))" "g = ss_regs (store_flag f b (sv_state y)) ! r"
    by (metis in_set_conv_nth regs_store_flag(1))
  have "accounted y (ss_regs (sv_state y) ! r)" using session_invD(1) [OF assms(1)] r(1) by simp
  then show ?thesis using r by (simp add: accounted_def regs_store_flag)
qed

lemma inv_flag:
  assumes "session_inv y" "k = (sv_work y)(ch := None) \<or>
    (\<exists>z. k = (sv_work y)(ch \<mapsto> z) \<and> fst (work_flag z) = mutedFlag ch (snd (work_flag z)) (sv_state y))"
  shows "session_inv (y\<lparr>sv_state := store_flag f b (sv_state y), sv_work := k\<rparr>)"
proof (rule session_invI)
  fix g assume "g \<in> set (ss_regs (sv_state (y\<lparr>sv_state := store_flag f b (sv_state y), sv_work := k\<rparr>)))"
  then have "accounted y g" using accounted_flag [OF assms(1)] by simp
  then show "accounted (y\<lparr>sv_state := store_flag f b (sv_state y), sv_work := k\<rparr>) g"
    by (simp add: accounted_def regs_store_flag)
next
  fix ch' r assume "ss_muted (sv_state (y\<lparr>sv_state := store_flag f b (sv_state y), sv_work := k\<rparr>)) ch' = Some r"
  then show "r < length (ss_regs (sv_state (y\<lparr>sv_state := store_flag f b (sv_state y), sv_work := k\<rparr>))) \<and>
      rg_channel (ss_regs (sv_state (y\<lparr>sv_state := store_flag f b (sv_state y), sv_work := k\<rparr>)) ! r) = ch' \<and>
      ss_sessions (sv_state (y\<lparr>sv_state := store_flag f b (sv_state y), sv_work := k\<rparr>)) ch' =
        Some (rg_client (ss_regs (sv_state (y\<lparr>sv_state := store_flag f b (sv_state y), sv_work := k\<rparr>)) ! r))"
    using session_invD(2) [OF assms(1)] by (simp add: regs_store_flag)
next
  fix ch' z r assume a: "sv_work (y\<lparr>sv_state := store_flag f b (sv_state y), sv_work := k\<rparr>) ch' = Some z" "fst (work_flag z) = Some r"
  have "r < length (ss_regs (sv_state y)) \<and> rg_channel (ss_regs (sv_state y) ! r) = ch' \<and>
      rg_client (ss_regs (sv_state y) ! r) = snd (work_flag z)"
  proof (cases "sv_work y ch' = Some z")
    case True
    then show ?thesis using session_invD(3) [OF assms(1) _ a(2)] by blast
  next
    case False
    then have "ch' = ch" "mutedFlag ch (snd (work_flag z)) (sv_state y) = Some r"
      using a assms(2) by (auto split: if_splits)
    then show ?thesis using session_invD(2) [OF assms(1), of ch r] by (auto simp: mutedFlag_def split: if_splits)
  qed
  then show "r < length (ss_regs (sv_state (y\<lparr>sv_state := store_flag f b (sv_state y), sv_work := k\<rparr>))) \<and>
      rg_channel (ss_regs (sv_state (y\<lparr>sv_state := store_flag f b (sv_state y), sv_work := k\<rparr>)) ! r) = ch' \<and>
      rg_client (ss_regs (sv_state (y\<lparr>sv_state := store_flag f b (sv_state y), sv_work := k\<rparr>)) ! r) = snd (work_flag z)"
    by (simp add: regs_store_flag)
qed

lemma inv_same:
  assumes "session_inv y" "ss_sessions s = ss_sessions (sv_state y)" "ss_muted s = ss_muted (sv_state y)"
    "ss_regs s = ss_regs (sv_state y)" "set (ss_disconnects (sv_state y)) \<union> set (sv_dropping y) \<subseteq> set (ss_disconnects s) \<union> set d"
  shows "session_inv (y\<lparr>sv_state := s, sv_dropping := d\<rparr>)"
proof (rule session_invI)
  fix g assume "g \<in> set (ss_regs (sv_state (y\<lparr>sv_state := s, sv_dropping := d\<rparr>)))"
  then have "accounted y g" using session_invD(1) [OF assms(1)] assms(4) by simp
  then show "accounted (y\<lparr>sv_state := s, sv_dropping := d\<rparr>) g" using assms(2,5) by (auto simp: accounted_def)
qed (use session_invD(2,3) [OF assms(1)] assms(2-4) in auto)

lemma inv_disconnect_all:
  assumes "session_inv y" "set channels = dom (ss_sessions (sv_state y))" "disconnect_take channels (sv_state y) = (clients, s)"
  shows "session_inv (y\<lparr>sv_state := s, sv_dropping := sv_dropping y @ clients\<rparr>)"
proof (rule session_invI)
  have s: "s = (sv_state y)\<lparr>ss_sessions := Map.empty, ss_muted := Map.empty, ss_pairings := Map.empty\<rparr>"
    "clients = List.map_filter (ss_sessions (sv_state y)) channels"
    using assms(3) by (simp_all add: disconnect_take_def)
  have "c \<in> set clients" if "ss_sessions (sv_state y) ch = Some c" for ch c
    using that assms(2) by (force simp: s(2) List.map_filter_def)
  then show "accounted (y\<lparr>sv_state := s, sv_dropping := sv_dropping y @ clients\<rparr>) g"
    if "g \<in> set (ss_regs (sv_state (y\<lparr>sv_state := s, sv_dropping := sv_dropping y @ clients\<rparr>)))" for g
    using session_invD(1) [OF assms(1), of g] that by (auto simp: s(1) accounted_def)
  show "r < length (ss_regs (sv_state (y\<lparr>sv_state := s, sv_dropping := sv_dropping y @ clients\<rparr>))) \<and>
      rg_channel (ss_regs (sv_state (y\<lparr>sv_state := s, sv_dropping := sv_dropping y @ clients\<rparr>)) ! r) = ch \<and>
      rg_client (ss_regs (sv_state (y\<lparr>sv_state := s, sv_dropping := sv_dropping y @ clients\<rparr>)) ! r) = snd (work_flag k)"
    if "sv_work (y\<lparr>sv_state := s, sv_dropping := sv_dropping y @ clients\<rparr>) ch = Some k" "fst (work_flag k) = Some r" for ch k r
    using session_invD(3) [OF assms(1)] that by (simp add: s(1))
qed (use assms(3) in \<open>auto simp: disconnect_take_def\<close>)

lemma session_step_inv: "session_step env y y' \<Longrightarrow> session_inv y \<Longrightarrow> session_inv y'"
proof (induction rule: session_step.induct)
  case (client y ch)
  show ?case
  proof (cases "ss_sessions (sv_state y) ch")
    case None
    then show ?thesis
      using inv_register [OF client None] inv_same [OF client, of "(sv_state y)\<lparr>ss_world := w\<rparr>" "sv_dropping y" for w]
      by (auto simp: sm_client_def split: prod.split sum.split)
  next
    case (Some c)
    then show ?thesis using client by (simp add: sm_client_def)
  qed
next
  case (resume y ch j)
  show ?case
  proof (cases "ss_sessions (sv_state y) ch")
    case None
    then show ?thesis
      using inv_register [OF resume None] inv_same [OF resume, of "(sv_state y)\<lparr>ss_world := w\<rparr>" "sv_dropping y" for w]
      by (auto simp: resume_take_def split: prod.split sum.split)
  next
    case (Some c)
    then show ?thesis using resume by (simp add: resume_take_def)
  qed
next
  case (drop y c ch)
  then show ?case using inv_drop [OF drop, of "sv_work y"] by simp
next
  case (disconnect c y)
  show ?case
    by (rule inv_same [OF disconnect(2)])
      (auto simp: disconnect_def in_set_remove1 dest: in_set_remove1 [THEN iffD2, rotated])
next
  case (disconnect_all channels y clients s)
  show ?case by (rule inv_disconnect_all [OF disconnect_all(3,1,2)])
next
  case (unlink_mute y ch flag c)
  show ?case by (rule inv_flag [OF unlink_mute(3), where ch = ch]) (use unlink_mute(2) in auto)
next
  case (unlink_failed y ch flag c)
  show ?case by (rule inv_flag [OF unlink_failed(2) disjI1 [OF refl]])
next
  case (unlink_done y ch flag c)
  show ?case using inv_drop [OF unlink_done(2), of _ ch c] by simp
next
  case (remove_mute y ch flag c)
  show ?case by (rule inv_flag [OF remove_mute(3), where ch = ch]) (use remove_mute(2) in auto)
next
  case (remove_done y ch flag c)
  show ?case using inv_drop [OF remove_done(2), of _ ch c] by simp
next
  case (event r y evt)
  show ?case using inv_same [OF event(2), of "snd (handle_event r evt (sv_state y))" "sv_dropping y"]
    by (simp add: handle_event_def)
next
  case (pairings y xs ps)
  show ?case using inv_same [OF pairings, of "(sv_state y)\<lparr>ss_pairings := ps, ss_pairs := xs\<rparr>" "sv_dropping y"] by simp
next
  case (library y us w)
  show ?case using inv_same [OF library, of "(sv_state y)\<lparr>ss_world := w, ss_unlinks := us\<rparr>" "sv_dropping y"] by simp
qed

lemma session_reachable_inv: "(session_step env)\<^sup>*\<^sup>* (session_start w) y \<Longrightarrow> session_inv y"
proof (induction rule: rtranclp_induct)
  case base
  show ?case by (simp add: session_inv_def session_start_def sm_NewManager_def)
next
  case (step y z)
  then show ?case by (blast intro: session_step_inv)
qed

section \<open>Properties\<close>

definition demo_wa_env :: "(nat, unit) wa_env" where
  "demo_wa_env =
     \<lparr>we_now = (\<lambda>w. 0), we_factory = (\<lambda>ch j w. (Inr 7, w)), we_DeviceJID = (\<lambda>c w. None), we_IsConnected = (\<lambda>c w. True),
      we_IsLoggedIn = (\<lambda>c w. True), we_Connect = (\<lambda>c w. (None, w)), we_WaitForConnection = (\<lambda>c t w. (True, w)),
      we_Disconnect = (\<lambda>c w. w), we_Logout = (\<lambda>c w. (None, w)), we_QRChannel = (\<lambda>c w. (None, w)),
      we_PairPhone = (\<lambda>c p w. (Inr ''code'', w)), we_TakeOverHistory = (\<lambda>c w. w), we_slot = (\<lambda>h w. (None, w)),
      we_release = (\<lambda>w. w), we_code_event = ''code'', we_success_event = ''success'', we_timeout_event = ''timeout''\<rparr>"

definition demo_session :: "(nat, unit, unit) session_system" where
  "demo_session = (session_start ())\<lparr>sv_state := snd (sm_client demo_wa_env ''ch'' (sm_NewManager ()))\<rparr>"

lemma demo_session_simps [simp]:
  "ss_sessions (sv_state demo_session) = [''ch'' \<mapsto> 7]" "ss_muted (sv_state demo_session) = [''ch'' \<mapsto> 0]"
  "ss_regs (sv_state demo_session) = [\<lparr>rg_channel = ''ch'', rg_client = 7, rg_muted = False\<rparr>]"
  "ss_dispatched (sv_state demo_session) = []" "sv_dropping demo_session = []" "sv_work demo_session = Map.empty"
  by (simp_all only: demo_session_def session_start_def sm_client_def sm_NewManager_def demo_wa_env_def sm_register_def session_system.simps session_state.simps wa_env.simps option.simps prod.case sum.case snd_conv
      append_Nil list.size)

lemma demo_session_reachable: "(session_step demo_wa_env)\<^sup>*\<^sup>* (session_start ()) demo_session"
  using r_into_rtranclp [of "session_step demo_wa_env", OF session_step.client [of demo_wa_env "session_start ()" "''ch''"]]
  by (simp add: demo_session_def session_start_def)



text \<open>
  What the removal of a channel leaves: the flag is set, and the registration can neither be unmuted
  by an unlink nor found again by one.
\<close>

definition silenced :: "nat \<Rightarrow> ('c, 'e, 'w) session_system \<Rightarrow> bool" where
  "silenced r y \<longleftrightarrow> r < length (ss_regs (sv_state y)) \<and> rg_muted (ss_regs (sv_state y) ! r) \<and>
     (let ch = rg_channel (ss_regs (sv_state y) ! r) in
      (\<exists>c. sv_work y ch = Some (Removing (Some r) c)) \<or>
      (ss_muted (sv_state y) ch \<noteq> Some r \<and> (\<forall>c. sv_work y ch \<noteq> Some (Unlinking (Some r) c))))"

lemma silenced_regs:
  assumes "silenced r y" "\<exists>xs. ss_regs s = ss_regs (sv_state y) @ xs"
    "\<And>ch. ss_muted s ch = ss_muted (sv_state y) ch \<or> ss_muted s ch = None \<or> ss_muted s ch = Some (length (ss_regs (sv_state y)))"
  shows "silenced r (y\<lparr>sv_state := s, sv_dropping := d\<rparr>)"
  using assms(1,2) assms(3) [of "rg_channel (ss_regs (sv_state y) ! r)"]
  by (auto simp: silenced_def Let_def nth_append)

lemma dispatched_same [simp]:
  "ss_dispatched (snd (sm_client env ch s)) = ss_dispatched s" "ss_dispatched (snd (resume_take env ch j s)) = ss_dispatched s"
  "ss_dispatched (drop_take ch c s) = ss_dispatched s" "ss_dispatched (disconnect env c s) = ss_dispatched s"
  "disconnect_take chs s = (cs, s') \<Longrightarrow> ss_dispatched s' = ss_dispatched s"
  by (auto simp: sm_client_def resume_take_def sm_register_def drop_take_def disconnect_def disconnect_take_def
      split: option.split prod.split sum.split)

lemma silenced_work:
  assumes "silenced r y" "session_inv y" "sv_work y ch = Some (Unlinking flag c)"
  shows "flag \<noteq> Some r"
  using assms(1) session_invD(3) [OF assms(2,3), of r] assms(3) by (auto simp: silenced_def Let_def)

lemma silenced_flag:
  assumes "silenced r y" "b \<or> f \<noteq> Some r" "k = (sv_work y)(ch \<mapsto> z)" "sv_work y ch = None"
    "z = Unlinking f c \<or> z = Removing f c" "f = mutedFlag ch c (sv_state y)"
  shows "silenced r (y\<lparr>sv_state := store_flag f b (sv_state y), sv_work := k\<rparr>)"
  using assms by (auto simp: silenced_def Let_def regs_store_flag mutedFlag_def split: if_splits)

lemma silenced_drop:
  assumes "silenced r y" "session_inv y" "sv_work y ch = Some z" "work_flag z = (f, c)"
    "z = Unlinking f c \<or> z = Removing f c"
  shows "silenced r (y\<lparr>sv_state := drop_take ch c (sv_state y), sv_dropping := d, sv_work := (sv_work y)(ch := None)\<rparr>)"
proof -
  let ?g = "ss_regs (sv_state y) ! r"
  have w: "sv_work y ch = Some (Removing (Some r) c') \<Longrightarrow> rg_client ?g = c'" for c'
    using session_invD(3) [OF assms(2), of ch "Removing (Some r) c'" r] by simp
  have m: "ss_muted (sv_state y) ch = Some r \<Longrightarrow> ss_sessions (sv_state y) ch = Some (rg_client ?g)"
    using session_invD(2) [OF assms(2)] by blast
  show ?thesis
    using assms(1,3,4,5) w m by (auto simp: silenced_def Let_def drop_take_def split: if_splits)
qed

lemma silenced_step:
  assumes "session_step env y y'" "session_inv y" "silenced r y"
  shows "silenced r y' \<and> filter (\<lambda>d. fst d = r) (ss_dispatched (sv_state y')) = filter (\<lambda>d. fst d = r) (ss_dispatched (sv_state y))"
  using assms
proof (induction rule: session_step.induct)
  case (client y ch)
  then show ?case
    using silenced_regs [OF client(2), of "snd (sm_client env ch (sv_state y))" "sv_dropping y"]
    by (auto simp: sm_client_def sm_register_def split: option.split prod.split sum.split)
next
  case (resume y ch j)
  then show ?case
    using silenced_regs [OF resume(2), of "snd (resume_take env ch j (sv_state y))" "sv_dropping y"]
    by (auto simp: resume_take_def sm_register_def split: option.split prod.split sum.split)
next
  case (drop y c ch)
  then show ?case
    using silenced_regs [OF drop(2), of "drop_take ch c (sv_state y)" "sv_dropping y @ [c]"] by (auto simp: drop_take_def)
next
  case (disconnect c y)
  then show ?case
    using silenced_regs [OF disconnect(3), of "disconnect env c (sv_state y)" "remove1 c (sv_dropping y)"]
    by (simp add: disconnect_def)
next
  case (disconnect_all channels y clients s)
  then show ?case
    using silenced_regs [OF disconnect_all(4), of s "sv_dropping y @ clients"] by (auto simp: disconnect_take_def)
next
  case (unlink_mute y ch flag c)
  then show ?case using silenced_flag [OF unlink_mute(4) _ refl unlink_mute(1) _ unlink_mute(2)] by (simp add: regs_store_flag)
next
  case (unlink_failed y ch flag c)
  have "flag \<noteq> Some r" by (rule silenced_work [OF unlink_failed(3,2,1)])
  then show ?case using unlink_failed(1,3) by (auto simp: silenced_def Let_def regs_store_flag)
next
  case (unlink_done y ch flag c)
  then show ?case using silenced_drop [OF unlink_done(3,2,1)] by simp
next
  case (remove_mute y ch flag c)
  then show ?case using silenced_flag [OF remove_mute(4) _ refl remove_mute(1) _ remove_mute(2)] by (simp add: regs_store_flag)
next
  case (remove_done y ch flag c)
  then show ?case using silenced_drop [OF remove_done(3,2,1)] by simp
next
  case (event r' y evt)
  show ?case
  proof (cases "r' = r")
    case True
    then have "rg_muted (ss_regs (sv_state y) ! r')" using event(3) by (simp add: silenced_def)
    then show ?thesis using event(3) by (simp add: handle_event_def)
  next
    case False
    then show ?thesis
      using event(3) silenced_regs [OF event(3), of "snd (handle_event r' evt (sv_state y))" "sv_dropping y"]
      by (simp add: handle_event_def)
  qed
next
  case (pairings y xs ps)
  then show ?case
    using silenced_regs [OF pairings(2), of "(sv_state y)\<lparr>ss_pairings := ps, ss_pairs := xs\<rparr>" "sv_dropping y"] by simp
next
  case (library y us w)
  then show ?case
    using silenced_regs [OF library(2), of "(sv_state y)\<lparr>ss_world := w, ss_unlinks := us\<rparr>" "sv_dropping y"] by simp
qed


definition demo_removing :: "(nat, unit, unit) session_system" where
  "demo_removing = demo_session\<lparr>sv_state := store_flag (Some 0) True (sv_state demo_session),
     sv_work := (sv_work demo_session)(''ch'' \<mapsto> Removing (Some 0) 7)\<rparr>"


text \<open>The codes that the pairing goroutine retains one after the other: the time, the code, its lifetime.\<close>

definition retain_all :: "pairing \<Rightarrow> (int \<times> string \<times> int) list \<Rightarrow> pairing" where
  "retain_all p xs = foldl (\<lambda>p (now, code, timeout). snd (retain_code now code timeout p)) p xs"

lemma retain_all_bounds:
  assumes "list_all (\<lambda>(now, code, timeout). code \<noteq> [] \<and> 0 < timeout) xs" "xs \<noteq> []"
  shows "\<exists>e. pg_emitted (retain_all (newPairing h ph) xs) = Some e \<and> e \<le> fst (last xs) \<and>
     pg_qr (retain_all (newPairing h ph) xs) = fst (snd (last xs)) \<and>
     pg_lifetime (retain_all (newPairing h ph) xs) = snd (snd (last xs)) \<and>
     e + snd (snd (last xs)) \<le> fst (hd xs) + sum_list (map (\<lambda>x. snd (snd x)) xs)"
  using assms
proof (induction xs rule: rev_induct)
  case (snoc x xs)
  obtain now code timeout where x: "x = (now, code, timeout)" by (cases x)
  have ne: "code \<noteq> []" "\<not> timeout \<le> 0" using snoc.prems(1) x by auto
  let ?p = "retain_all (newPairing h ph) xs"
  have s: "retain_all (newPairing h ph) (xs @ [x]) = snd (retain_code now code timeout ?p)"
    by (simp add: retain_all_def x)
  show ?case
  proof (cases "xs = []")
    case True
    then show ?thesis using ne unfolding s by (simp add: x retain_code_def retain_all_def newPairing_def Let_def)
  next
    case False
    then obtain e where e: "pg_emitted ?p = Some e" "e + snd (snd (last xs)) \<le> fst (hd xs) + sum_list (map (\<lambda>x. snd (snd x)) xs)"
      "pg_lifetime ?p = snd (snd (last xs))"
      using snoc.IH snoc.prems(1) by auto
    then show ?thesis using ne False unfolding s by (auto simp: x retain_code_def Let_def)
  qed
qed simp

text \<open>
  A QR code that a second pairing command gets from the one in progress is never stale: it is the
  last code that WhatsApp gave, its own lifetime has not passed since it arrived, and the codes
  together are not shown longer than the sum of their lifetimes after the first, so a goroutine that
  falls behind does not stretch them.
\<close>

lemma retained_never_stale:
  assumes "list_all (\<lambda>(now, code, timeout). code \<noteq> [] \<and> 0 < timeout) xs" "xs \<noteq> []"
    and "retained t (retain_all (newPairing h []) xs) = Some u"
  shows "u = no_update\<lparr>pu_QR := fst (snd (last xs))\<rparr> \<and> t < fst (last xs) + snd (snd (last xs)) \<and>
     t < fst (hd xs) + sum_list (map (\<lambda>x. snd (snd x)) xs)"
proof -
  have "pg_phone (snd (retain_code now code timeout p)) = pg_phone p" for now code timeout p
    by (simp add: retain_code_def pg_clear_def Let_def)
  then have "pg_phone (retain_all p xs) = pg_phone p" for p
    unfolding retain_all_def by (induction xs rule: rev_induct) (simp_all add: split_def)
  then have nc: "\<not> byCode (retain_all (newPairing h []) xs)" by (simp add: byCode_def newPairing_def)
  from retain_all_bounds [OF assms(1,2), of h "[]"] obtain e where
    e: "pg_emitted (retain_all (newPairing h []) xs) = Some e" "e \<le> fst (last xs)"
    "pg_qr (retain_all (newPairing h []) xs) = fst (snd (last xs))" "pg_lifetime (retain_all (newPairing h []) xs) = snd (snd (last xs))"
    "e + snd (snd (last xs)) \<le> fst (hd xs) + sum_list (map (\<lambda>x. snd (snd x)) xs)" by blast
  show ?thesis using assms(3) nc e by (simp add: retained_def validQR_def split: if_splits)
qed

end
