(* ===== verification/ChannelLock.thy ===== *)
theory ChannelLock
  imports Main "HOL-Library.Multiset"
begin

text \<open>
  The per channel locks of \<open>lockChannel\<close> in internal/session/manager.go: locks are created on demand,
  counted by their holders and deleted by the last one, so the map does not grow with the channels
  ever seen. A lock is a pointer: it is named by its position in a list.
\<close>

record channelLock =
  cl_locked :: bool
  cl_holders :: int

record lock_table =
  lt_locks :: "string \<Rightarrow> nat option"
  lt_objs :: "channelLock list"

definition set_lock :: "nat \<Rightarrow> (channelLock \<Rightarrow> channelLock) \<Rightarrow> lock_table \<Rightarrow> lock_table" where
  "set_lock p f s = (if p < length (lt_objs s) then s\<lparr>lt_objs := (lt_objs s)[p := f (lt_objs s ! p)]\<rparr> else s)"

text \<open>The three critical sections of \<open>lockChannel\<close> and the function it returns.\<close>

definition lock_enter :: "string \<Rightarrow> lock_table \<Rightarrow> nat \<times> lock_table" where
  "lock_enter channelID s =
     (case lt_locks s channelID of
        Some p \<Rightarrow> (p, set_lock p (\<lambda>l. l\<lparr>cl_holders := cl_holders l + 1\<rparr>) s)
      | None \<Rightarrow>
          (length (lt_objs s),
           s\<lparr>lt_objs := lt_objs s @ [\<lparr>cl_locked = False, cl_holders = 1\<rparr>], lt_locks := (lt_locks s)(channelID \<mapsto> length (lt_objs s))\<rparr>))"

definition lock_lock :: "nat \<Rightarrow> lock_table \<Rightarrow> lock_table option" where
  "lock_lock p s = (if cl_locked (lt_objs s ! p) then None else Some (set_lock p (\<lambda>l. l\<lparr>cl_locked := True\<rparr>) s))"

definition lock_unlock :: "nat \<Rightarrow> lock_table \<Rightarrow> lock_table" where
  "lock_unlock p s = set_lock p (\<lambda>l. l\<lparr>cl_locked := False\<rparr>) s"

definition lock_leave :: "string \<Rightarrow> nat \<Rightarrow> lock_table \<Rightarrow> lock_table" where
  "lock_leave channelID p s =
     (let s1 = set_lock p (\<lambda>l. l\<lparr>cl_holders := cl_holders l - 1\<rparr>) s in
      if cl_holders (lt_objs s1 ! p) = 0 then s1\<lparr>lt_locks := (lt_locks s1)(channelID := None)\<rparr> else s1)"

section \<open>The system of all goroutines\<close>

datatype lock_phase = Waiting | Inside | Leaving

record lock_system =
  ls_table :: lock_table
  ls_gos :: "(string \<times> nat \<times> lock_phase) multiset"

inductive lock_step :: "lock_system \<Rightarrow> lock_system \<Rightarrow> bool" where
  enter: "lock_enter ch (ls_table y) = (p, s) \<Longrightarrow>
     lock_step y (y\<lparr>ls_table := s, ls_gos := add_mset (ch, p, Waiting) (ls_gos y)\<rparr>)"
| lock: "(ch, p, Waiting) \<in># ls_gos y \<Longrightarrow> lock_lock p (ls_table y) = Some s \<Longrightarrow>
     lock_step y (y\<lparr>ls_table := s, ls_gos := add_mset (ch, p, Inside) (ls_gos y - {#(ch, p, Waiting)#})\<rparr>)"
| unlock: "(ch, p, Inside) \<in># ls_gos y \<Longrightarrow>
     lock_step y (y\<lparr>ls_table := lock_unlock p (ls_table y),
       ls_gos := add_mset (ch, p, Leaving) (ls_gos y - {#(ch, p, Inside)#})\<rparr>)"
| leave: "(ch, p, Leaving) \<in># ls_gos y \<Longrightarrow>
     lock_step y (y\<lparr>ls_table := lock_leave ch p (ls_table y), ls_gos := ls_gos y - {#(ch, p, Leaving)#}\<rparr>)"

definition lock_start :: lock_system where
  "lock_start = \<lparr>ls_table = \<lparr>lt_locks = Map.empty, lt_objs = []\<rparr>, ls_gos = {#}\<rparr>"

definition users :: "nat \<Rightarrow> (string \<times> nat \<times> lock_phase) multiset \<Rightarrow> nat" where
  "users p G = size (filter_mset (\<lambda>(c, q, ph). q = p) G)"

definition insiders :: "nat \<Rightarrow> (string \<times> nat \<times> lock_phase) multiset \<Rightarrow> nat" where
  "insiders p G = size (filter_mset (\<lambda>(c, q, ph). q = p \<and> ph = Inside) G)"

text \<open>
  The lock of every goroutine is the one in the map for its channel; holders counts its goroutines,
  and it is locked when one of them is inside. The locks in the map are distinct and in use.
\<close>

definition lock_inv :: "lock_system \<Rightarrow> bool" where
  "lock_inv y \<longleftrightarrow>
     (\<forall>ch p ph. (ch, p, ph) \<in># ls_gos y \<longrightarrow> lt_locks (ls_table y) ch = Some p) \<and>
     (\<forall>ch p. lt_locks (ls_table y) ch = Some p \<longrightarrow> p < length (lt_objs (ls_table y)) \<and>
        cl_holders (lt_objs (ls_table y) ! p) = int (users p (ls_gos y)) \<and> 0 < users p (ls_gos y) \<and>
        insiders p (ls_gos y) = (if cl_locked (lt_objs (ls_table y) ! p) then 1 else 0)) \<and>
     (\<forall>ch ch' p. lt_locks (ls_table y) ch = Some p \<longrightarrow> lt_locks (ls_table y) ch' = Some p \<longrightarrow> ch = ch')"

lemma counts_add [simp]:
  "users p (add_mset (c, q, ph) G) = users p G + (if q = p then 1 else 0)"
  "insiders p (add_mset (c, q, ph) G) = insiders p G + (if q = p \<and> ph = Inside then 1 else 0)"
  by (simp_all add: users_def insiders_def)

lemma counts_remove:
  assumes "(c, q, ph) \<in># G"
  shows "users p (G - {#(c, q, ph)#}) = users p G - (if q = p then 1 else 0)"
    "insiders p (G - {#(c, q, ph)#}) = insiders p G - (if q = p \<and> ph = Inside then 1 else 0)"
    "q = p \<Longrightarrow> 0 < users p G" "q = p \<Longrightarrow> ph = Inside \<Longrightarrow> 0 < insiders p G"
proof -
  obtain H where "G = add_mset (c, q, ph) H" using assms by (meson mset_add)
  then show "users p (G - {#(c, q, ph)#}) = users p G - (if q = p then 1 else 0)"
    "insiders p (G - {#(c, q, ph)#}) = insiders p G - (if q = p \<and> ph = Inside then 1 else 0)"
    "q = p \<Longrightarrow> 0 < users p G" "q = p \<Longrightarrow> ph = Inside \<Longrightarrow> 0 < insiders p G"
    by simp_all
qed

lemma users_zero: "users p G = 0 \<longleftrightarrow> (\<forall>c ph. (c, p, ph) \<notin># G)"
proof (induction G)
  case empty
  show ?case by (simp add: users_def)
next
  case (add x G)
  then show ?case by (cases x) auto
qed

lemma insiders_users: "insiders p G \<le> users p G"
proof (induction G)
  case empty
  show ?case by (simp add: users_def insiders_def)
next
  case (add x G)
  then show ?case by (cases x) auto
qed

definition lock_ok :: "nat \<Rightarrow> lock_system \<Rightarrow> bool" where
  "lock_ok p y \<longleftrightarrow> p < length (lt_objs (ls_table y)) \<and> cl_holders (lt_objs (ls_table y) ! p) = int (users p (ls_gos y)) \<and>
     0 < users p (ls_gos y) \<and> insiders p (ls_gos y) = (if cl_locked (lt_objs (ls_table y) ! p) then 1 else 0)"

lemma lock_invI:
  assumes "\<And>ch p ph. (ch, p, ph) \<in># ls_gos y \<Longrightarrow> lt_locks (ls_table y) ch = Some p"
    "\<And>ch p. lt_locks (ls_table y) ch = Some p \<Longrightarrow> lock_ok p y"
    "\<And>ch ch' p. lt_locks (ls_table y) ch = Some p \<Longrightarrow> lt_locks (ls_table y) ch' = Some p \<Longrightarrow> ch = ch'"
  shows "lock_inv y"
  using assms unfolding lock_inv_def lock_ok_def by blast

lemma lock_invD:
  assumes "lock_inv y"
  shows "(ch, p, ph) \<in># ls_gos y \<Longrightarrow> lt_locks (ls_table y) ch = Some p"
    "lt_locks (ls_table y) ch = Some p \<Longrightarrow> lock_ok p y"
    "lt_locks (ls_table y) ch = Some p \<Longrightarrow> lt_locks (ls_table y) ch' = Some p \<Longrightarrow> ch = ch'"
  using assms unfolding lock_inv_def lock_ok_def by blast+

text \<open>A step that keeps the map keeps the invariant when it keeps every lock that is in use right.\<close>

lemma lock_inv_same:
  assumes "lock_inv y" "lt_locks s = lt_locks (ls_table y)"
    "\<And>ch p ph. (ch, p, ph) \<in># G \<Longrightarrow> lt_locks (ls_table y) ch = Some p"
    "\<And>ch p. lt_locks (ls_table y) ch = Some p \<Longrightarrow> lock_ok p (y\<lparr>ls_table := s, ls_gos := G\<rparr>)"
  shows "lock_inv (y\<lparr>ls_table := s, ls_gos := G\<rparr>)"
  by (rule lock_invI) (use assms lock_invD(3) [OF assms(1)] in auto)

lemma lock_step_inv: "lock_step y y' \<Longrightarrow> lock_inv y \<Longrightarrow> lock_inv y'"
proof (induction rule: lock_step.induct)
  case (enter ch y p s)
  note inv = lock_invD [OF enter(2)]
  show ?case
  proof (cases "lt_locks (ls_table y) ch")
    case None
    let ?n = "length (lt_objs (ls_table y))"
    from None enter(1) have p: "p = ?n"
      "s = (ls_table y)\<lparr>lt_objs := lt_objs (ls_table y) @ [\<lparr>cl_locked = False, cl_holders = 1\<rparr>],
         lt_locks := (lt_locks (ls_table y))(ch \<mapsto> ?n)\<rparr>"
      by (auto simp: lock_enter_def)
    have nn: "lt_locks (ls_table y) c \<noteq> Some ?n" for c using inv(2) [of c ?n] by (auto simp: lock_ok_def)
    then have u: "users ?n (ls_gos y) = 0" using inv(1) unfolding users_zero by blast
    then have i: "insiders ?n (ls_gos y) = 0" using insiders_users [of ?n "ls_gos y"] by simp
    show ?thesis
    proof (rule lock_invI)
      fix ch' q ph assume "(ch', q, ph) \<in># ls_gos (y\<lparr>ls_table := s, ls_gos := add_mset (ch, p, Waiting) (ls_gos y)\<rparr>)"
      then show "lt_locks (ls_table (y\<lparr>ls_table := s, ls_gos := add_mset (ch, p, Waiting) (ls_gos y)\<rparr>)) ch' = Some q"
        using inv(1) [of ch' q ph] None p by auto
    next
      fix ch' q assume a: "lt_locks (ls_table (y\<lparr>ls_table := s, ls_gos := add_mset (ch, p, Waiting) (ls_gos y)\<rparr>)) ch' = Some q"
      show "lock_ok q (y\<lparr>ls_table := s, ls_gos := add_mset (ch, p, Waiting) (ls_gos y)\<rparr>)"
      proof (cases "ch' = ch")
        case True
        then have q: "q = ?n" using a by (simp add: p)
        show ?thesis using u i unfolding q by (simp add: lock_ok_def p)
      next
        case False
        then have q: "lt_locks (ls_table y) ch' = Some q" using a by (simp add: p)
        then show ?thesis using inv(2) [OF q] nn [of ch'] by (auto simp: lock_ok_def p nth_append)
      qed
    next
      fix a b q assume "lt_locks (ls_table (y\<lparr>ls_table := s, ls_gos := add_mset (ch, p, Waiting) (ls_gos y)\<rparr>)) a = Some q"
        "lt_locks (ls_table (y\<lparr>ls_table := s, ls_gos := add_mset (ch, p, Waiting) (ls_gos y)\<rparr>)) b = Some q"
      then show "a = b" using inv(3) [of a q b] nn by (auto simp: p split: if_splits)
    qed
  next
    case (Some q)
    have p: "p = q" "s = set_lock q (\<lambda>l. l\<lparr>cl_holders := cl_holders l + 1\<rparr>) (ls_table y)"
      using enter(1) Some by (auto simp: lock_enter_def)
    show ?thesis
    proof (rule lock_inv_same [OF enter(2)])
      show "lock_ok r (y\<lparr>ls_table := s, ls_gos := add_mset (ch, p, Waiting) (ls_gos y)\<rparr>)"
        if "lt_locks (ls_table y) c = Some r" for c r
        using inv(2) [OF that] inv(2) [OF Some] by (auto simp: p lock_ok_def set_lock_def nth_list_update)
      show "lt_locks (ls_table y) c = Some r" if "(c, r, ph) \<in># add_mset (ch, p, Waiting) (ls_gos y)" for c r ph
        using that inv(1) Some p by auto
    qed (simp add: p set_lock_def)
  qed
next
  case (lock ch p y s)
  note inv = lock_invD [OF lock(3)] and c = counts_remove [OF lock(1)]
  have s: "s = set_lock p (\<lambda>l. l\<lparr>cl_locked := True\<rparr>) (ls_table y)" "\<not> cl_locked (lt_objs (ls_table y) ! p)"
    using lock(2) by (auto simp: lock_lock_def split: if_splits)
  show ?case
  proof (rule lock_inv_same [OF lock(3)])
    show "lock_ok r (y\<lparr>ls_table := s, ls_gos := add_mset (ch, p, Inside) (ls_gos y - {#(ch, p, Waiting)#})\<rparr>)"
      if "lt_locks (ls_table y) d = Some r" for d r
      using inv(2) [OF that] s(2) c [of r] by (auto simp: s(1) lock_ok_def set_lock_def nth_list_update)
    show "lt_locks (ls_table y) d = Some r" if "(d, r, ph) \<in># add_mset (ch, p, Inside) (ls_gos y - {#(ch, p, Waiting)#})" for d r ph
      using that inv(1) lock(1) by (auto dest: in_diffD)
  qed (simp add: s(1) set_lock_def)
next
  case (unlock ch p y)
  note inv = lock_invD [OF unlock(2)] and c = counts_remove [OF unlock(1)]
  show ?case
  proof (rule lock_inv_same [OF unlock(2)])
    show "lock_ok r (y\<lparr>ls_table := lock_unlock p (ls_table y), ls_gos := add_mset (ch, p, Leaving) (ls_gos y - {#(ch, p, Inside)#})\<rparr>)"
      if "lt_locks (ls_table y) d = Some r" for d r
      using inv(2) [OF that] c [of r] by (auto simp: lock_unlock_def lock_ok_def set_lock_def nth_list_update split: if_splits)
    show "lt_locks (ls_table y) d = Some r" if "(d, r, ph) \<in># add_mset (ch, p, Leaving) (ls_gos y - {#(ch, p, Inside)#})" for d r ph
      using that inv(1) unlock(1) by (auto dest: in_diffD)
  qed (simp add: lock_unlock_def set_lock_def)
next
  case (leave ch p y)
  note inv = lock_invD [OF leave(2)] and c = counts_remove [OF leave(1)]
  let ?G = "ls_gos y - {#(ch, p, Leaving)#}"
  have chp: "lt_locks (ls_table y) ch = Some p" by (rule inv(1) [OF leave(1)])
  have ok: "lock_ok r (y\<lparr>ls_table := lock_leave ch p (ls_table y), ls_gos := ?G\<rparr>)"
    if "lt_locks (ls_table y) d = Some r" "r \<noteq> p \<or> 0 < users p ?G" for d r
    using inv(2) [OF that(1)] c [of r] c [of p] that(2)
    by (auto simp: lock_leave_def lock_ok_def set_lock_def nth_list_update Let_def)
  have t: "lt_locks (lock_leave ch p (ls_table y)) = (if users p ?G = 0 then (lt_locks (ls_table y))(ch := None) else lt_locks (ls_table y))"
    using inv(2) [OF chp] c [of p] by (auto simp: lock_leave_def lock_ok_def set_lock_def Let_def)
  show ?case
  proof (rule lock_invI)
    fix d r ph assume "(d, r, ph) \<in># ls_gos (y\<lparr>ls_table := lock_leave ch p (ls_table y), ls_gos := ?G\<rparr>)"
    then have g: "(d, r, ph) \<in># ?G" by simp
    then have "lt_locks (ls_table y) d = Some r" using inv(1) by (auto dest: in_diffD)
    moreover have "users p ?G \<noteq> 0 \<or> r \<noteq> p" using g unfolding users_zero by blast
    ultimately show "lt_locks (ls_table (y\<lparr>ls_table := lock_leave ch p (ls_table y), ls_gos := ?G\<rparr>)) d = Some r"
      using chp by (auto simp: t)
  next
    fix d r assume a: "lt_locks (ls_table (y\<lparr>ls_table := lock_leave ch p (ls_table y), ls_gos := ?G\<rparr>)) d = Some r"
    then have d: "lt_locks (ls_table y) d = Some r" by (auto simp: t split: if_splits)
    have "r \<noteq> p \<or> 0 < users p ?G"
    proof (cases "users p ?G = 0")
      case True
      then show ?thesis using a d inv(3) [OF chp, of d] by (auto simp: t split: if_splits)
    qed simp
    then show "lock_ok r (y\<lparr>ls_table := lock_leave ch p (ls_table y), ls_gos := ?G\<rparr>)" by (rule ok [OF d])
  next
    fix a b r assume "lt_locks (ls_table (y\<lparr>ls_table := lock_leave ch p (ls_table y), ls_gos := ?G\<rparr>)) a = Some r"
      "lt_locks (ls_table (y\<lparr>ls_table := lock_leave ch p (ls_table y), ls_gos := ?G\<rparr>)) b = Some r"
    then show "a = b" using inv(3) [of a r b] by (auto simp: t split: if_splits)
  qed
qed

lemma lock_reachable_inv: "lock_step\<^sup>*\<^sup>* lock_start y \<Longrightarrow> lock_inv y"
proof (induction rule: rtranclp_induct)
  case base
  show ?case by (simp add: lock_inv_def lock_start_def)
next
  case (step y z)
  then show ?case by (blast intro: lock_step_inv)
qed

section \<open>Properties\<close>

text \<open>
  C22. In every interleaving at most one goroutine is inside the lock of a channel, a waiting one can
  take it when none is inside, and the map holds a lock for exactly the channels that some goroutine
  uses, so it never leaks one nor drops one in use.
\<close>

theorem channel_lock_exclusive:
  assumes "lock_step\<^sup>*\<^sup>* lock_start y"
  shows "size (filter_mset (\<lambda>(c, p, ph). c = ch \<and> ph = Inside) (ls_gos y)) \<le> 1 \<and>
    ((ch, p, Waiting) \<in># ls_gos y \<and> filter_mset (\<lambda>(c, p, ph). c = ch \<and> ph = Inside) (ls_gos y) = {#} \<longrightarrow>
       lock_lock p (ls_table y) \<noteq> None) \<and>
    (lt_locks (ls_table y) ch = None \<longleftrightarrow> filter_mset (\<lambda>(c, p, ph). c = ch) (ls_gos y) = {#})"
proof -
  note inv = lock_invD [OF lock_reachable_inv [OF assms]]
  show ?thesis
  proof (cases "lt_locks (ls_table y) ch")
    case None
    have e: "filter_mset (\<lambda>(c, p, ph). c = ch) (ls_gos y) = {#}" "filter_mset (\<lambda>(c, p, ph). c = ch \<and> ph = Inside) (ls_gos y) = {#}"
      using inv(1) [of ch] None by (fastforce simp: filter_mset_eq_conv)+
    show ?thesis using None inv(1) [of ch p Waiting] unfolding e by auto
  next
    case (Some q)
    have eq: "c = ch \<longleftrightarrow> r = q" if "(c, r, ph) \<in># ls_gos y" for c r ph
      using inv(1) [OF that] inv(3) [OF Some, of c] Some by auto
    have f: "filter_mset (\<lambda>(c, p, ph). c = ch \<and> ph = Inside) (ls_gos y) = filter_mset (\<lambda>(c, p, ph). p = q \<and> ph = Inside) (ls_gos y)"
      "filter_mset (\<lambda>(c, p, ph). c = ch) (ls_gos y) = filter_mset (\<lambda>(c, p, ph). p = q) (ls_gos y)"
      using eq by (auto intro!: filter_mset_cong)
    have ok: "lock_ok q y" by (rule inv(2) [OF Some])
    have n1: "filter_mset (\<lambda>(c, p, ph). p = q) (ls_gos y) \<noteq> {#}"
      using ok unfolding lock_ok_def users_def by (metis size_empty less_irrefl)
    have n2: "size (filter_mset (\<lambda>(c, p, ph). p = q \<and> ph = Inside) (ls_gos y)) = (if cl_locked (lt_objs (ls_table y) ! q) then 1 else 0)"
      using ok by (simp add: lock_ok_def insiders_def)
    show ?thesis
    proof (intro conjI impI)
      show "size (filter_mset (\<lambda>(c, p, ph). c = ch \<and> ph = Inside) (ls_gos y)) \<le> 1" unfolding f n2 by simp
      assume a: "(ch, p, Waiting) \<in># ls_gos y \<and> filter_mset (\<lambda>(c, p, ph). c = ch \<and> ph = Inside) (ls_gos y) = {#}"
      then have "p = q" using inv(1) [of ch p Waiting] Some by simp
      moreover have "size (filter_mset (\<lambda>(c, p, ph). c = ch \<and> ph = Inside) (ls_gos y)) = 0" using a by (simp only: size_empty)
      then have "\<not> cl_locked (lt_objs (ls_table y) ! q)" unfolding f n2 by (simp split: if_splits)
      ultimately show "lock_lock p (ls_table y) \<noteq> None" by (simp add: lock_lock_def)
    qed (use Some n1 in \<open>simp only: f option.distinct simp_thms\<close>)
  qed
qed

text \<open>Two commands for one channel: the first is inside, the second waits.\<close>

definition demo_locks :: lock_system where
  "demo_locks =
     \<lparr>ls_table = \<lparr>lt_locks = [''ch'' \<mapsto> 0], lt_objs = [\<lparr>cl_locked = True, cl_holders = 2\<rparr>]\<rparr>,
      ls_gos = {#(''ch'', 0, Waiting), (''ch'', 0, Inside)#}\<rparr>"

lemma demo_locks_reachable: "lock_step\<^sup>*\<^sup>* lock_start demo_locks"
proof -
  define y1 where "y1 = \<lparr>ls_table = \<lparr>lt_locks = [''ch'' \<mapsto> 0], lt_objs = [\<lparr>cl_locked = False, cl_holders = 1\<rparr>]\<rparr>,
      ls_gos = {#(''ch'', 0, Waiting)#}\<rparr>"
  define y2 where "y2 = \<lparr>ls_table = \<lparr>lt_locks = [''ch'' \<mapsto> 0], lt_objs = [\<lparr>cl_locked = True, cl_holders = 1\<rparr>]\<rparr>,
      ls_gos = {#(''ch'', 0, Inside)#}\<rparr>"
  have "lock_step lock_start y1"
    using lock_step.enter [of "''ch''" lock_start 0 "ls_table y1"] by (simp add: lock_start_def y1_def lock_enter_def)
  moreover have "lock_step y1 y2"
    using lock_step.lock [of "''ch''" 0 y1 "ls_table y2"] by (simp add: y1_def y2_def lock_lock_def set_lock_def)
  moreover have "lock_step y2 demo_locks"
    using lock_step.enter [of "''ch''" y2 0 "ls_table demo_locks"]
    by (simp add: y2_def demo_locks_def lock_enter_def set_lock_def)
  ultimately show ?thesis by (rule converse_rtranclp_into_rtranclp [OF _ converse_rtranclp_into_rtranclp [OF _ r_into_rtranclp]])
qed

theorem channel_lock_exclusive_witness:
  "size (filter_mset (\<lambda>(c, p, ph). c = ''ch'' \<and> ph = Inside) (ls_gos demo_locks)) \<le> 1"
  using channel_lock_exclusive [OF demo_locks_reachable] by blast

end
