(* ===== verification/PairingSlot.thy ===== *)
theory PairingSlot
  imports Prelude
begin

text \<open>
  The pairing slot of internal/deviceprops: a pairing that imports the history changes the process
  wide device properties of the client library while it runs, so it takes the whole capacity of a
  weighted semaphore, and a pairing without history takes one unit. The semaphore is a library: a
  successful acquire keeps the sum of the weights within the capacity. The other fields of the
  properties message are of a type \<open>'d\<close>, those of its history part of a type \<open>'h\<close>.
\<close>

definition WindowDays :: nat where "WindowDays = 90"
definition HistorySizeMbLimit :: nat where "HistorySizeMbLimit = 2048"
definition HistoryRequireFullSync :: bool where "HistoryRequireFullSync = True"
definition pairingCapacity :: nat where "pairingCapacity = 2 ^ 20"
definition SlotWait :: int where "SlotWait = 90 * 1000000000"

record 'h HistorySyncConfig =
  hc_FullSyncDaysLimit :: "nat option"
  hc_RecentSyncDaysLimit :: "nat option"
  hc_FullSyncSizeMbLimit :: "nat option"
  hc_rest :: 'h

datatype platform = Desktop | OtherPlatform nat

definition HistoryPlatform :: platform where "HistoryPlatform = Desktop"

record ('d, 'h) DeviceProps =
  dp_PlatformType :: "platform option"
  dp_RequireFullSync :: "bool option"
  dp_HistorySyncConfig :: "'h HistorySyncConfig option"
  dp_rest :: 'd

text \<open>\<open>withHistory\<close> dereferences the history part, so it panics (\<open>None\<close>) when the base has none.\<close>

definition withHistory :: "('d, 'h) DeviceProps \<Rightarrow> ('d, 'h) DeviceProps option" where
  "withHistory base =
     (case dp_HistorySyncConfig base of
        None \<Rightarrow> None
      | Some cfg \<Rightarrow>
          Some (base\<lparr>dp_PlatformType := Some HistoryPlatform, dp_RequireFullSync := Some HistoryRequireFullSync,
            dp_HistorySyncConfig := Some (cfg\<lparr>hc_FullSyncDaysLimit := Some WindowDays, hc_RecentSyncDaysLimit := Some WindowDays,
              hc_FullSyncSizeMbLimit := Some HistorySizeMbLimit\<rparr>)\<rparr>))"

definition weight :: "bool \<Rightarrow> nat" where
  "weight importHistory = (if importHistory then pairingCapacity else 1)"

text \<open>The error of an acquire that did not get the slot: the context's own, or a busy slot.\<close>

definition slot_error :: "goerr option \<Rightarrow> goerr" where
  "slot_error ctx =
     (case ctx of Some err \<Rightarrow> err
      | None \<Rightarrow> Err ESlotBusy ''deviceprops: another pairing kept the pairing slot past the wait'')"

section \<open>The system of all pairings\<close>

text \<open>
  A pairing that was granted the slot, one that has set its properties (and remembers the previous
  ones), and one that has put them back and will give the slot back. The release runs once.
\<close>

datatype ('d, 'h) holder = Granted bool | Running bool "('d, 'h) DeviceProps" | Restored bool

record ('d, 'h) slot_system =
  sl_used :: nat
  sl_props :: "('d, 'h) DeviceProps"
  sl_holders :: "('d, 'h) holder multiset"

definition set_props :: "bool \<Rightarrow> ('d, 'h) DeviceProps \<Rightarrow> ('d, 'h) DeviceProps option" where
  "set_props importHistory previous = (if importHistory then withHistory previous else Some previous)"

definition release_props :: "bool \<Rightarrow> ('d, 'h) DeviceProps \<Rightarrow> ('d, 'h) DeviceProps \<Rightarrow> ('d, 'h) DeviceProps" where
  "release_props importHistory previous current = (if importHistory then previous else current)"

inductive slot_step :: "('d, 'h) slot_system \<Rightarrow> ('d, 'h) slot_system \<Rightarrow> bool" where
  acquire: "sl_used y + weight h \<le> pairingCapacity \<Longrightarrow>
     slot_step y (y\<lparr>sl_used := sl_used y + weight h, sl_holders := add_mset (Granted h) (sl_holders y)\<rparr>)"
| swap: "Granted h \<in># sl_holders y \<Longrightarrow> set_props h (sl_props y) = Some props \<Longrightarrow>
     slot_step y (y\<lparr>sl_props := props, sl_holders := add_mset (Running h (sl_props y)) (sl_holders y - {#Granted h#})\<rparr>)"
| restore: "Running h previous \<in># sl_holders y \<Longrightarrow>
     slot_step y (y\<lparr>sl_props := release_props h previous (sl_props y),
       sl_holders := add_mset (Restored h) (sl_holders y - {#Running h previous#})\<rparr>)"
| release: "Restored h \<in># sl_holders y \<Longrightarrow>
     slot_step y (y\<lparr>sl_used := sl_used y - weight h, sl_holders := sl_holders y - {#Restored h#}\<rparr>)"

definition slot_start :: "('d, 'h) DeviceProps \<Rightarrow> ('d, 'h) slot_system" where
  "slot_start base = \<lparr>sl_used = 0, sl_props = base, sl_holders = {#}\<rparr>"

fun imports_of :: "('d, 'h) holder \<Rightarrow> bool" where
  "imports_of (Granted h) = h"
| "imports_of (Running h p) = h"
| "imports_of (Restored h) = h"

definition taken :: "('d, 'h) holder multiset \<Rightarrow> nat" where
  "taken H = (\<Sum>x\<in>#H. weight (imports_of x))"

text \<open>The properties that the process should have, given who holds the slot.\<close>

fun props_of :: "('d, 'h) DeviceProps \<Rightarrow> ('d, 'h) holder \<Rightarrow> ('d, 'h) DeviceProps option" where
  "props_of base (Running True p) = (if p = base then withHistory base else None)"
| "props_of base x = Some base"

definition slot_inv :: "('d, 'h) DeviceProps \<Rightarrow> ('d, 'h) slot_system \<Rightarrow> bool" where
  "slot_inv base y \<longleftrightarrow> sl_used y = taken (sl_holders y) \<and> sl_used y \<le> pairingCapacity \<and>
     (if \<exists>x\<in>#sl_holders y. imports_of x then \<exists>x. sl_holders y = {#x#} \<and> props_of base x = Some (sl_props y)
      else sl_props y = base)"

lemma weight_pos: "0 < weight h" "weight True = pairingCapacity" "weight False = 1" "1 < pairingCapacity"
  by (simp_all add: weight_def pairingCapacity_def)

lemma taken_add [simp]: "taken (add_mset x H) = weight (imports_of x) + taken H"
  by (simp add: taken_def)

lemma taken_zero: "taken H = 0 \<longleftrightarrow> H = {#}"
  by (cases H) (simp_all add: taken_def weight_pos(1))

text \<open>Within the capacity, an importing pairing is alone.\<close>

lemma import_alone:
  assumes "taken H \<le> pairingCapacity" "x \<in># H" "imports_of x"
  shows "H = {#x#}"
proof -
  obtain G where G: "H = add_mset x G" using assms(2) by (meson mset_add)
  have "taken G = 0" using assms(1,3) weight_pos(2) by (simp add: G)
  then show ?thesis using G by (simp add: taken_zero)
qed

lemma taken_remove: "x \<in># H \<Longrightarrow> taken (H - {#x#}) = taken H - weight (imports_of x) \<and> weight (imports_of x) \<le> taken H"
  by (metis add_mset_remove_trivial diff_add_inverse le_add1 mset_add taken_add)

lemma slot_invI:
  assumes "taken H \<le> pairingCapacity"
    and "\<And>x. H = {#x#} \<Longrightarrow> imports_of x \<Longrightarrow> props_of base x = Some p"
    and "(\<And>x. x \<in># H \<Longrightarrow> \<not> imports_of x) \<Longrightarrow> p = base"
  shows "slot_inv base (y\<lparr>sl_used := taken H, sl_props := p, sl_holders := H\<rparr>)"
  unfolding slot_inv_def using assms import_alone [OF assms(1)] by (auto 4 3)

lemma slot_inv_cong:
  assumes "slot_inv base y" "sl_used z = sl_used y" "sl_props z = sl_props y" "sl_holders z = sl_holders y"
  shows "slot_inv base z"
  using assms(1) unfolding slot_inv_def assms(2-4) .

lemma slot_invD:
  assumes "slot_inv base y"
  shows "sl_used y = taken (sl_holders y)" "taken (sl_holders y) \<le> pairingCapacity"
    "x \<in># sl_holders y \<Longrightarrow> imports_of x \<Longrightarrow> sl_holders y = {#x#} \<and> props_of base x = Some (sl_props y)"
    "(\<And>x. x \<in># sl_holders y \<Longrightarrow> \<not> imports_of x) \<Longrightarrow> sl_props y = base"
  using assms unfolding slot_inv_def by (fastforce split: if_splits)+

lemma slot_step_inv: "slot_step y y' \<Longrightarrow> slot_inv base y \<Longrightarrow> slot_inv base y'"
proof (induction rule: slot_step.induct)
  case (acquire y h)
  note inv = slot_invD [OF acquire(2)]
  let ?H = "add_mset (Granted h) (sl_holders y)"
  have no: "\<not> imports_of x" if "x \<in># sl_holders y" for x
  proof
    assume i: "imports_of x"
    have "sl_holders y = {#x#}" using inv(3) [OF that i] by simp
    then have "taken (sl_holders y) = pairingCapacity" using i weight_pos(2) by (simp add: taken_def)
    then show False using acquire(1) inv(1) weight_pos(1) [of h] by simp
  qed
  have "slot_inv base (y\<lparr>sl_used := taken ?H, sl_props := sl_props y, sl_holders := ?H\<rparr>)"
    by (rule slot_invI) (use acquire(1) inv(1) inv(4) no in \<open>auto simp: add.commute\<close>)
  then show ?case by (rule slot_inv_cong) (simp_all add: inv(1) add.commute)
next
  case (swap h y props)
  note inv = slot_invD [OF swap(3)]
  let ?H = "add_mset (Running h (sl_props y)) (sl_holders y - {#Granted h#})"
  have t: "taken ?H = taken (sl_holders y)" using taken_remove [OF swap(1)] by simp
  have "slot_inv base (y\<lparr>sl_used := taken ?H, sl_props := props, sl_holders := ?H\<rparr>)"
  proof (rule slot_invI)
    show "taken ?H \<le> pairingCapacity" using t inv(2) by simp
    show "props_of base x = Some props" if "?H = {#x#}" "imports_of x" for x
      using that inv(3) [OF swap(1)] swap(2) by (auto simp: set_props_def)
    show "props = base" if "\<And>x. x \<in># ?H \<Longrightarrow> \<not> imports_of x"
    proof -
      have h: "\<not> h" using that [of "Running h (sl_props y)"] by simp
      have "\<not> imports_of x" if "x \<in># sl_holders y" for x
        using \<open>\<And>x. x \<in># ?H \<Longrightarrow> \<not> imports_of x\<close> [of x] that h by (cases "x = Granted h") (auto simp: in_diff_count count_eq_zero_iff)
      then show ?thesis using inv(4) swap(2) h by (simp add: set_props_def)
    qed
  qed
  then show ?case by (rule slot_inv_cong) (use t in \<open>simp_all del: taken_add add: inv(1)\<close>)
next
  case (restore h previous y)
  note inv = slot_invD [OF restore(2)]
  let ?H = "add_mset (Restored h) (sl_holders y - {#Running h previous#})"
  have t: "taken ?H = taken (sl_holders y)" using taken_remove [OF restore(1)] by simp
  have pv: "previous = base \<and> sl_holders y = {#Running h previous#}" if h using inv(3) [OF restore(1)] that by (simp split: if_splits)
  have "slot_inv base (y\<lparr>sl_used := taken ?H, sl_props := release_props h previous (sl_props y), sl_holders := ?H\<rparr>)"
  proof (rule slot_invI)
    show "taken ?H \<le> pairingCapacity" using t inv(2) by simp
    show "props_of base x = Some (release_props h previous (sl_props y))" if "?H = {#x#}" "imports_of x" for x
      using that pv by (auto simp: release_props_def)
    show "release_props h previous (sl_props y) = base" if "\<And>x. x \<in># ?H \<Longrightarrow> \<not> imports_of x"
    proof -
      have h: "\<not> h" using that [of "Restored h"] by simp
      have "\<not> imports_of x" if "x \<in># sl_holders y" for x
        using \<open>\<And>x. x \<in># ?H \<Longrightarrow> \<not> imports_of x\<close> [of x] that h
        by (cases "x = Running h previous") (auto simp: in_diff_count count_eq_zero_iff)
      then show ?thesis using inv(4) h by (simp add: release_props_def)
    qed
  qed
  then show ?case by (rule slot_inv_cong) (use t in \<open>simp_all del: taken_add add: inv(1)\<close>)
next
  case (release h y)
  note inv = slot_invD [OF release(2)]
  let ?H = "sl_holders y - {#Restored h#}"
  have t: "taken ?H = taken (sl_holders y) - weight h" using taken_remove [OF release(1)] by simp
  have alone: "?H = {#}" "sl_props y = base" if h using inv(3) [OF release(1)] that by simp_all
  have "slot_inv base (y\<lparr>sl_used := taken ?H, sl_props := sl_props y, sl_holders := ?H\<rparr>)"
  proof (rule slot_invI)
    show "taken ?H \<le> pairingCapacity" using t inv(2) by simp
    show "props_of base x = Some (sl_props y)" if "?H = {#x#}" "imports_of x" for x
    proof -
      have "x \<in># sl_holders y" using that(1) by (metis in_diffD union_single_eq_member)
      then show ?thesis using inv(3) that(2) by blast
    qed
    show "sl_props y = base" if "\<And>x. x \<in># ?H \<Longrightarrow> \<not> imports_of x"
    proof (cases h)
      case True
      then show ?thesis by (rule alone(2))
    next
      case False
      have "\<not> imports_of x" if "x \<in># sl_holders y" for x
        using \<open>\<And>x. x \<in># ?H \<Longrightarrow> \<not> imports_of x\<close> [of x] that False
        by (cases "x = Restored h") (auto simp: in_diff_count count_eq_zero_iff)
      then show ?thesis by (rule inv(4))
    qed
  qed
  then show ?case by (rule slot_inv_cong) (use t in \<open>simp_all del: taken_add add: inv(1)\<close>)
qed

lemma slot_reachable_inv: "slot_step\<^sup>*\<^sup>* (slot_start base) y \<Longrightarrow> slot_inv base y"
proof (induction rule: rtranclp_induct)
  case base
  show ?case by (simp add: slot_inv_def slot_start_def taken_def)
next
  case (step y z)
  then show ?case by (blast intro: slot_step_inv)
qed

section \<open>Properties\<close>

text \<open>
  C27. Every pairing runs with its own device properties: in every interleaving, while a pairing that
  imports the history runs, it is the only holder of the slot and the properties are the history
  ones; while one without history runs, they are the original ones, and so they are when nobody
  holds the slot.
\<close>

theorem pairing_props_exclusive:
  assumes "slot_step\<^sup>*\<^sup>* (slot_start base) y"
  shows "(if Running h p \<in># sl_holders y then
       (if h then sl_holders y = {#Running True base#} \<and> withHistory base = Some (sl_props y) else sl_props y = base)
     else True) \<and>
    (if sl_holders y = {#} then sl_props y = base \<and> sl_used y = 0 else True)"
proof -
  note inv = slot_invD [OF slot_reachable_inv [OF assms]]
  have "sl_props y = base" if "Running False p \<in># sl_holders y"
  proof (rule inv(4))
    show "\<not> imports_of x" if "x \<in># sl_holders y" for x
      using inv(3) [OF that] \<open>Running False p \<in># sl_holders y\<close> by auto
  qed
  moreover have "sl_holders y = {#Running True base#} \<and> withHistory base = Some (sl_props y)" if "Running True p \<in># sl_holders y"
    using inv(3) [OF that] by (simp split: if_splits)
  ultimately show ?thesis using inv(1) inv(4) by (cases h) (auto simp: taken_zero)
qed

definition demo_props :: "(unit, unit) DeviceProps" where
  "demo_props = \<lparr>dp_PlatformType = None, dp_RequireFullSync = None,
     dp_HistorySyncConfig = Some \<lparr>hc_FullSyncDaysLimit = None, hc_RecentSyncDaysLimit = None, hc_FullSyncSizeMbLimit = None, hc_rest = ()\<rparr>,
     dp_rest = ()\<rparr>"

theorem pairing_props_exclusive_witness:
  "\<exists>y. slot_step\<^sup>*\<^sup>* (slot_start demo_props) y \<and> sl_holders y = {#Running True demo_props#} \<and> withHistory demo_props = Some (sl_props y)"
proof -
  define y1 where "y1 = \<lparr>sl_used = pairingCapacity, sl_props = demo_props, sl_holders = {#Granted True#}\<rparr>"
  obtain q where q: "withHistory demo_props = Some q" by (simp add: withHistory_def demo_props_def)
  define y2 where "y2 = y1\<lparr>sl_props := q, sl_holders := {#Running True demo_props#}\<rparr>"
  have "slot_step (slot_start demo_props) y1"
    using slot_step.acquire [of "slot_start demo_props" True] by (simp add: slot_start_def y1_def weight_pos)
  moreover have "slot_step y1 y2"
    using slot_step.swap [of True y1 q] q by (simp add: y1_def y2_def set_props_def)
  ultimately have r: "slot_step\<^sup>*\<^sup>* (slot_start demo_props) y2"
    by (rule converse_rtranclp_into_rtranclp [OF _ r_into_rtranclp])
  have "Running True demo_props \<in># sl_holders y2" by (simp add: y2_def)
  with pairing_props_exclusive [OF r, of True demo_props] r show ?thesis by auto
qed

end
