(* ===== verification/HistorySplit.thy ===== *)
theory HistorySplit
  imports Contracts
begin

text \<open>
  How an imported history is cut into batches (internal/history/batches.go) and the limits of an
  import (internal/history/limits.go). A message is its encoded JSON; reading its id is a parameter.
\<close>

section \<open>Limits\<close>

record Limits =
  lm_Window :: int
  lm_MediaConcurrency :: int
  lm_MediaTimeout :: int
  lm_MediaBudget :: int
  lm_MaxMessages :: int
  lm_MaxBytes :: int
  lm_BatchPace :: int
  lm_PublishTimeout :: int
  lm_RetryFirst :: int
  lm_RetryMax :: int
  lm_Chunks :: int

definition second_ns :: int where "second_ns = 1000000000"

definition DefaultLimits :: Limits where
  "DefaultLimits =
     \<lparr>lm_Window = 90 * 24 * 3600 * second_ns, lm_MediaConcurrency = 4, lm_MediaTimeout = 60 * second_ns,
      lm_MediaBudget = 600 * second_ns, lm_MaxMessages = 500, lm_MaxBytes = 1000000, lm_BatchPace = 250 * 1000000,
      lm_PublishTimeout = 10 * second_ns, lm_RetryFirst = second_ns, lm_RetryMax = 30 * second_ns, lm_Chunks = 2\<rparr>"

text \<open>The messages of \<open>validate\<close>; the printing of a duration is a parameter.\<close>

definition positive_limits :: "Limits \<Rightarrow> (string \<times> int) list" where
  "positive_limits l =
     [(''Window'', lm_Window l), (''MediaConcurrency'', lm_MediaConcurrency l), (''MediaTimeout'', lm_MediaTimeout l),
      (''MediaBudget'', lm_MediaBudget l), (''MaxMessages'', lm_MaxMessages l), (''MaxBytes'', lm_MaxBytes l),
      (''PublishTimeout'', lm_PublishTimeout l), (''RetryFirst'', lm_RetryFirst l), (''RetryMax'', lm_RetryMax l),
      (''Chunks'', lm_Chunks l)]"

definition limits_validate :: "(int \<Rightarrow> string) \<Rightarrow> Limits \<Rightarrow> goerr option" where
  "limits_validate show_duration l =
     (let invalid = map (\<lambda>(name, v). Err EText (''history: limit '' @ name @ '' must be positive, got '' @ show_int v))
            (filter (\<lambda>(name, v). v \<le> 0) (positive_limits l)) @
          (if lm_BatchPace l < 0 then
             [Err EText (''history: limit BatchPace must not be negative, got '' @ show_duration (lm_BatchPace l))] else [])
      in if invalid = [] then None else Some (Join invalid))"

lemma limits_valid:
  "limits_validate sd l = None \<Longrightarrow> 0 < lm_MaxMessages l \<and> 0 < lm_MaxBytes l \<and> 0 < lm_RetryFirst l \<and> 0 < lm_RetryMax l \<and>
     0 < lm_Chunks l \<and> 0 < lm_MediaConcurrency l \<and> 0 \<le> lm_BatchPace l"
  by (auto simp: limits_validate_def positive_limits_def Let_def split: if_splits)

datatype sync_type = InitialBootstrap | Recent | Full | OtherSync nat

definition importable :: "sync_type \<Rightarrow> bool" where
  "importable ty = (ty \<in> {InitialBootstrap, Recent, Full})"

definition finishesImport :: "sync_type \<Rightarrow> nat \<Rightarrow> bool" where
  "finishesImport ty progress = (importable ty \<and> progress \<ge> 100)"

section \<open>Batches\<close>

definition batchEnvelopeBytes :: nat where "batchEnvelopeBytes = 512"
definition chatEnvelopeBytes :: nat where "chatEnvelopeBytes = 96"

definition chatHeaderBytes :: "HistoryChat \<Rightarrow> nat" where
  "chatHeaderBytes chat =
     chatEnvelopeBytes + length (hc_phone chat) + (case hc_lid chat of None \<Rightarrow> 0 | Some l \<Rightarrow> length l) +
     (case hc_profileName chat of None \<Rightarrow> 0 | Some p \<Rightarrow> length p)"

record split_state =
  sp_batches :: "HistoryChat list list"
  sp_oversized :: "string list"
  sp_current :: "HistoryChat list"
  sp_count :: nat
  sp_size :: nat
  sp_open :: "nat option"

definition add_message :: "nat option \<Rightarrow> string \<Rightarrow> HistoryChat list \<Rightarrow> HistoryChat list" where
  "add_message i msg cs =
     (case i of None \<Rightarrow> cs
      | Some k \<Rightarrow> if k < length cs then cs[k := (cs ! k)\<lparr>hc_messages := hc_messages (cs ! k) @ [msg]\<rparr>] else cs)"

text \<open>The last part of the loop body: the message goes to the open chat, or to a new one.\<close>

definition put_message :: "HistoryChat \<Rightarrow> string \<Rightarrow> nat \<Rightarrow> split_state \<Rightarrow> split_state" where
  "put_message chat msg cost s =
     (let s2 = (if sp_open s = None then
                  s\<lparr>sp_current := sp_current s @ [chat\<lparr>hc_messages := []\<rparr>], sp_open := Some (length (sp_current s))\<rparr> else s)
      in s2\<lparr>sp_current := add_message (sp_open s2) msg (sp_current s2), sp_count := sp_count s2 + 1, sp_size := sp_size s2 + cost\<rparr>)"

definition flush_batch :: "split_state \<Rightarrow> split_state" where
  "flush_batch s = s\<lparr>sp_batches := sp_batches s @ [sp_current s], sp_current := [], sp_count := 0, sp_size := batchEnvelopeBytes,
     sp_open := None\<rparr>"

text \<open>The body of the inner loop.\<close>

definition split_message :: "(string \<Rightarrow> string) \<Rightarrow> nat \<Rightarrow> nat \<Rightarrow> HistoryChat \<Rightarrow> split_state \<Rightarrow> string \<Rightarrow> split_state" where
  "split_message msg_id maxMessages maxBytes chat s msg =
     (let header = chatHeaderBytes chat in
      if batchEnvelopeBytes + header + length msg + 1 > maxBytes then s\<lparr>sp_oversized := sp_oversized s @ [msg_id msg]\<rparr>
      else
        (let cost = length msg + 1 + (if sp_open s = None then header else 0) in
         if sp_count s > 0 \<and> (sp_count s = maxMessages \<or> sp_size s + cost > maxBytes)
         then put_message chat msg (length msg + 1 + header) (flush_batch s)
         else put_message chat msg cost s))"

definition split_chat :: "(string \<Rightarrow> string) \<Rightarrow> nat \<Rightarrow> nat \<Rightarrow> split_state \<Rightarrow> HistoryChat \<Rightarrow> split_state" where
  "split_chat msg_id maxMessages maxBytes s chat =
     foldl (split_message msg_id maxMessages maxBytes chat) (s\<lparr>sp_open := None\<rparr>) (hc_messages chat)"

definition split_start :: split_state where
  "split_start = \<lparr>sp_batches = [], sp_oversized = [], sp_current = [], sp_count = 0, sp_size = batchEnvelopeBytes, sp_open = None\<rparr>"

definition Split :: "(string \<Rightarrow> string) \<Rightarrow> HistoryChat list \<Rightarrow> nat \<Rightarrow> nat \<Rightarrow> HistoryChat list list \<times> string list" where
  "Split msg_id chats maxMessages maxBytes =
     (let s = foldl (split_chat msg_id maxMessages maxBytes) split_start chats
      in (if sp_count s > 0 then sp_batches s @ [sp_current s] else sp_batches s, sp_oversized s))"

section \<open>What a split keeps\<close>

text \<open>The messages with the chat they belong to, in their order; the size that is accounted for a batch.\<close>

definition entries :: "HistoryChat list \<Rightarrow> (HistoryChat \<times> string) list" where
  "entries cs = concat (map (\<lambda>c. map (\<lambda>m. (c\<lparr>hc_messages := []\<rparr>, m)) (hc_messages c)) cs)"

definition fits :: "nat \<Rightarrow> HistoryChat \<times> string \<Rightarrow> bool" where
  "fits maxBytes e = (batchEnvelopeBytes + chatHeaderBytes (fst e) + length (snd e) + 1 \<le> maxBytes)"

definition batch_bytes :: "HistoryChat list \<Rightarrow> nat" where
  "batch_bytes cs = batchEnvelopeBytes + (\<Sum>c\<leftarrow>cs. chatHeaderBytes c + (\<Sum>m\<leftarrow>hc_messages c. length m + 1))"

definition batch_ok :: "nat \<Rightarrow> nat \<Rightarrow> HistoryChat list \<Rightarrow> bool" where
  "batch_ok maxMessages maxBytes b \<longleftrightarrow> 0 < length (entries b) \<and> length (entries b) \<le> maxMessages \<and> batch_bytes b \<le> maxBytes \<and>
     list_all (\<lambda>c. hc_messages c \<noteq> []) b"

text \<open>The state between two messages; an open chat is the last of the current batch.\<close>

definition split_inv :: "(string \<Rightarrow> string) \<Rightarrow> nat \<Rightarrow> nat \<Rightarrow> (HistoryChat \<times> string) list \<Rightarrow> split_state \<Rightarrow> bool" where
  "split_inv msg_id mm mb done s \<longleftrightarrow>
     concat (map entries (sp_batches s)) @ entries (sp_current s) = filter (fits mb) done \<and>
     sp_oversized s = map (\<lambda>e. msg_id (snd e)) (filter (\<lambda>e. \<not> fits mb e) done) \<and>
     list_all (batch_ok mm mb) (sp_batches s) \<and>
     sp_count s = length (entries (sp_current s)) \<and> sp_size s = batch_bytes (sp_current s) \<and>
     (sp_count s > 0 \<longrightarrow> batch_ok mm mb (sp_current s)) \<and> (sp_count s = 0 \<longrightarrow> sp_current s = [])"

definition open_ok :: "HistoryChat \<Rightarrow> split_state \<Rightarrow> bool" where
  "open_ok chat s \<longleftrightarrow> (case sp_open s of None \<Rightarrow> True
     | Some k \<Rightarrow> sp_current s \<noteq> [] \<and> k = length (sp_current s) - 1 \<and> (last (sp_current s))\<lparr>hc_messages := []\<rparr> = chat\<lparr>hc_messages := []\<rparr>)"

lemma entries_simps [simp]:
  "entries [] = []" "entries (cs @ ds) = entries cs @ entries ds"
  "entries [c] = map (\<lambda>m. (c\<lparr>hc_messages := []\<rparr>, m)) (hc_messages c)"
  by (simp_all add: entries_def)

lemma header_same [simp]: "chatHeaderBytes (c\<lparr>hc_messages := ms\<rparr>) = chatHeaderBytes c"
  by (simp add: chatHeaderBytes_def)

lemma batch_bytes_simps [simp]:
  "batch_bytes [] = batchEnvelopeBytes"
  "batch_bytes (cs @ [c]) = batch_bytes cs + chatHeaderBytes c + (\<Sum>m\<leftarrow>hc_messages c. length m + 1)"
  by (simp_all add: batch_bytes_def)

lemma add_message_last:
  "cs \<noteq> [] \<Longrightarrow> add_message (Some (length cs - 1)) msg cs = butlast cs @ [(last cs)\<lparr>hc_messages := hc_messages (last cs) @ [msg]\<rparr>]"
  by (cases cs rule: rev_cases) (simp_all add: add_message_def nth_append)

lemma put_message_current:
  assumes "open_ok chat s"
  shows "sp_batches (put_message chat msg cost s) = sp_batches s" "sp_oversized (put_message chat msg cost s) = sp_oversized s"
    "sp_count (put_message chat msg cost s) = sp_count s + 1" "sp_size (put_message chat msg cost s) = sp_size s + cost"
    "entries (sp_current (put_message chat msg cost s)) = entries (sp_current s) @ [(chat\<lparr>hc_messages := []\<rparr>, msg)]"
    "batch_bytes (sp_current (put_message chat msg cost s)) =
       batch_bytes (sp_current s) + length msg + 1 + (if sp_open s = None then chatHeaderBytes chat else 0)"
    "open_ok chat (put_message chat msg cost s)"
    "list_all (\<lambda>c. hc_messages c \<noteq> []) (sp_current s) \<Longrightarrow> list_all (\<lambda>c. hc_messages c \<noteq> []) (sp_current (put_message chat msg cost s))"
proof -
  have "(sp_batches (put_message chat msg cost s) = sp_batches s \<and> sp_oversized (put_message chat msg cost s) = sp_oversized s \<and>
    sp_count (put_message chat msg cost s) = sp_count s + 1 \<and> sp_size (put_message chat msg cost s) = sp_size s + cost) \<and>
    entries (sp_current (put_message chat msg cost s)) = entries (sp_current s) @ [(chat\<lparr>hc_messages := []\<rparr>, msg)] \<and>
    batch_bytes (sp_current (put_message chat msg cost s)) =
       batch_bytes (sp_current s) + length msg + 1 + (if sp_open s = None then chatHeaderBytes chat else 0) \<and>
    open_ok chat (put_message chat msg cost s) \<and>
    (list_all (\<lambda>c. hc_messages c \<noteq> []) (sp_current s) \<longrightarrow> list_all (\<lambda>c. hc_messages c \<noteq> []) (sp_current (put_message chat msg cost s)))"
  proof (cases "sp_open s")
    case None
    then show ?thesis using add_message_last [of "sp_current s @ [chat\<lparr>hc_messages := []\<rparr>]" msg]
      by (simp add: put_message_def Let_def open_ok_def)
  next
    case (Some k)
    then obtain cs c where c: "sp_current s = cs @ [c]" "k = length cs" "c\<lparr>hc_messages := []\<rparr> = chat\<lparr>hc_messages := []\<rparr>"
      using assms by (cases "sp_current s" rule: rev_cases) (auto simp: open_ok_def)
    have h: "chatHeaderBytes (c\<lparr>hc_messages := ms\<rparr>) = chatHeaderBytes c" for ms by simp
    show ?thesis using Some c add_message_last [of "cs @ [c]" msg]
      by (simp add: put_message_def Let_def open_ok_def)
  qed
  then show "sp_batches (put_message chat msg cost s) = sp_batches s" "sp_oversized (put_message chat msg cost s) = sp_oversized s"
    "sp_count (put_message chat msg cost s) = sp_count s + 1" "sp_size (put_message chat msg cost s) = sp_size s + cost"
    "entries (sp_current (put_message chat msg cost s)) = entries (sp_current s) @ [(chat\<lparr>hc_messages := []\<rparr>, msg)]"
    "batch_bytes (sp_current (put_message chat msg cost s)) =
       batch_bytes (sp_current s) + length msg + 1 + (if sp_open s = None then chatHeaderBytes chat else 0)"
    "open_ok chat (put_message chat msg cost s)"
    "list_all (\<lambda>c. hc_messages c \<noteq> []) (sp_current s) \<Longrightarrow> list_all (\<lambda>c. hc_messages c \<noteq> []) (sp_current (put_message chat msg cost s))"
    by blast+
qed

lemma split_message_inv:
  assumes inv: "split_inv msg_id mm mb done s" and op: "open_ok chat s" and mm: "0 < mm"
  shows "split_inv msg_id mm mb (done @ [(chat\<lparr>hc_messages := []\<rparr>, msg)]) (split_message msg_id mm mb chat s msg) \<and>
    open_ok chat (split_message msg_id mm mb chat s msg)"
proof (cases "fits mb (chat\<lparr>hc_messages := []\<rparr>, msg)")
  case False
  then have "split_message msg_id mm mb chat s msg = s\<lparr>sp_oversized := sp_oversized s @ [msg_id msg]\<rparr>"
    by (simp add: split_message_def fits_def Let_def)
  moreover have "open_ok chat (s\<lparr>sp_oversized := sp_oversized s @ [msg_id msg]\<rparr>)"
    using op by (cases "sp_open s") (simp_all add: open_ok_def)
  ultimately show ?thesis using inv False by (simp add: split_inv_def)
next
  case fit: True
  then have bound: "\<not> batchEnvelopeBytes + chatHeaderBytes chat + length msg + 1 > mb" by (simp add: fits_def)
  define cost where "cost = length msg + 1 + (if sp_open s = None then chatHeaderBytes chat else 0)"
  define flush where "flush \<longleftrightarrow> sp_count s > 0 \<and> (sp_count s = mm \<or> sp_size s + cost > mb)"
  define s1 where "s1 = (if flush then flush_batch s else s)"
  define cost1 where "cost1 = (if flush then length msg + 1 + chatHeaderBytes chat else cost)"
  have eq: "split_message msg_id mm mb chat s msg = put_message chat msg cost1 s1"
    unfolding split_message_def Let_def s1_def cost1_def flush_def cost_def using bound by simp
  have op1: "open_ok chat s1" using op by (cases flush) (simp_all add: s1_def open_ok_def flush_batch_def)
  have inv1: "split_inv msg_id mm mb done s1"
    using inv by (cases flush) (simp_all add: s1_def split_inv_def flush_batch_def, simp add: flush_def)
  note i1 = inv1 [unfolded split_inv_def]
  have c1: "cost1 = length msg + 1 + (if sp_open s1 = None then chatHeaderBytes chat else 0)"
    by (cases flush) (simp_all add: cost1_def cost_def s1_def flush_batch_def)
  have room: "sp_count s1 + 1 \<le> mm \<and> batch_bytes (sp_current s1) + cost1 \<le> mb"
  proof (cases "sp_count s1 = 0")
    case True
    then have "sp_current s1 = []" "sp_open s1 = None" using i1 op1 by (auto simp: open_ok_def split: option.splits)
    then show ?thesis using True mm bound c1 by simp
  next
    case False
    then have nf: "\<not> flush" "s1 = s" by (cases flush; simp add: s1_def flush_batch_def)+
    have b: "sp_count s1 = length (entries (sp_current s1))" "sp_size s1 = batch_bytes (sp_current s1)" "batch_ok mm mb (sp_current s1)"
      using i1 False by simp_all
    have "sp_count s \<le> mm" "sp_size s = batch_bytes (sp_current s)"
      using b unfolding batch_ok_def nf(2) by simp_all
    moreover have "sp_count s \<noteq> mm" "sp_size s + cost \<le> mb" using nf(1) False nf(2) unfolding flush_def by auto
    ultimately show ?thesis using nf by (simp add: cost1_def)
  qed
  note put = put_message_current [OF op1, of msg cost1]
  have la: "list_all (\<lambda>c. hc_messages c \<noteq> []) (sp_current s1)"
    using i1 by (cases "sp_count s1 = 0") (auto simp: batch_ok_def)
  have n: "sp_count s1 = length (entries (sp_current s1))" "sp_size s1 = batch_bytes (sp_current s1)"
    using i1 by simp_all
  have n2: "length (entries (sp_current (put_message chat msg cost1 s1))) = sp_count s1 + 1"
    "batch_bytes (sp_current (put_message chat msg cost1 s1)) = sp_size s1 + cost1"
    using put(5,6) n by (simp_all add: c1)
  have ok: "batch_ok mm mb (sp_current (put_message chat msg cost1 s1))"
    unfolding batch_ok_def n2 using room put(8) [OF la] n(2) by simp
  have e: "concat (map entries (sp_batches s1)) @ entries (sp_current s1) = filter (fits mb) done"
    "sp_oversized s1 = map (\<lambda>e. msg_id (snd e)) (filter (\<lambda>e. \<not> fits mb e) done)" "list_all (batch_ok mm mb) (sp_batches s1)"
    using i1 by blast+
  have "concat (map entries (sp_batches s1)) @ entries (sp_current s1) @ [(chat\<lparr>hc_messages := []\<rparr>, msg)] =
      filter (fits mb) (done @ [(chat\<lparr>hc_messages := []\<rparr>, msg)])"
    using e(1) [symmetric] fit by simp
  moreover have "sp_oversized s1 = map (\<lambda>e. msg_id (snd e)) (filter (\<lambda>e. \<not> fits mb e) (done @ [(chat\<lparr>hc_messages := []\<rparr>, msg)]))"
    using e(2) fit by simp
  ultimately show ?thesis
    unfolding eq split_inv_def put(1,2,3,4) n2 using put(5,7) ok e(3) by simp
qed

lemma split_chat_inv:
  assumes "split_inv msg_id mm mb done s" "0 < mm"
  shows "split_inv msg_id mm mb (done @ entries [chat]) (split_chat msg_id mm mb s chat)"
proof -
  have "split_inv msg_id mm mb (done @ map (\<lambda>m. (chat\<lparr>hc_messages := []\<rparr>, m)) ms)
      (foldl (split_message msg_id mm mb chat) (s\<lparr>sp_open := None\<rparr>) ms) \<and>
    open_ok chat (foldl (split_message msg_id mm mb chat) (s\<lparr>sp_open := None\<rparr>) ms)" for ms
  proof (induction ms rule: rev_induct)
    case Nil
    then show ?case using assms(1) by (simp add: split_inv_def open_ok_def)
  next
    case (snoc m ms)
    then show ?case using split_message_inv [OF conjunct1 [OF snoc] conjunct2 [OF snoc] assms(2), of m] by simp
  qed
  then show ?thesis by (simp add: split_chat_def)
qed

lemma split_all_inv:
  assumes "0 < mm"
  shows "split_inv msg_id mm mb (entries chats) (foldl (split_chat msg_id mm mb) split_start chats)"
proof (induction chats rule: rev_induct)
  case Nil
  show ?case by (simp add: split_inv_def split_start_def)
next
  case (snoc c cs)
  then show ?case using split_chat_inv [OF snoc assms, of c] by simp
qed

section \<open>Properties\<close>

text \<open>
  C30. Splitting a history loses no message and reorders none: the batches together carry, chat by
  chat, the messages of the import in their order, except those that do not fit a batch alone, whose
  ids are reported. Every batch has a message, at most the allowed number, no empty chat, and an
  accounted size within the limit.
\<close>

theorem Split_complete:
  assumes "0 < maxMessages"
  shows "case Split msg_id chats maxMessages maxBytes of (batches, oversized) \<Rightarrow>
     concat (map entries batches) = filter (fits maxBytes) (entries chats) \<and>
     oversized = map (\<lambda>e. msg_id (snd e)) (filter (\<lambda>e. \<not> fits maxBytes e) (entries chats)) \<and>
     list_all (\<lambda>b. 0 < length (entries b) \<and> length (entries b) \<le> maxMessages \<and> batch_bytes b \<le> maxBytes \<and>
       list_all (\<lambda>c. hc_messages c \<noteq> []) b) batches"
proof -
  define s where "s = foldl (split_chat msg_id maxMessages maxBytes) split_start chats"
  have i: "split_inv msg_id maxMessages maxBytes (entries chats) s" unfolding s_def by (rule split_all_inv [OF assms])
  have ok: "batch_ok maxMessages maxBytes = (\<lambda>b. 0 < length (entries b) \<and> length (entries b) \<le> maxMessages \<and>
      batch_bytes b \<le> maxBytes \<and> list_all (\<lambda>c. hc_messages c \<noteq> []) b)"
    by (rule ext) (simp only: batch_ok_def)
  have "Split msg_id chats maxMessages maxBytes = (if sp_count s > 0 then sp_batches s @ [sp_current s] else sp_batches s, sp_oversized s)"
    by (simp only: Split_def Let_def s_def)
  then show ?thesis using i unfolding ok [symmetric] by (cases "sp_count s = 0") (auto simp: split_inv_def)
qed

theorem Split_complete_witness:
  "\<exists>batches. Split (\<lambda>m. m) [\<lparr>hc_phone = ''1'', hc_lid = None, hc_profileName = None, hc_messages = [''a'', ''b'', ''c'']\<rparr>] 2 1000 = (batches, []) \<and>
     map (map hc_messages) batches = [[[''a'', ''b'']], [[''c'']]] \<and> list_all (\<lambda>b. length (entries b) \<le> 2) batches"
proof -
  let ?c = "\<lparr>hc_phone = ''1'', hc_lid = None, hc_profileName = None, hc_messages = []\<rparr> :: HistoryChat"
  have s: "Split (\<lambda>m. m) [?c\<lparr>hc_messages := [''a'', ''b'', ''c'']\<rparr>] 2 1000 =
      ([[?c\<lparr>hc_messages := [''a'', ''b'']\<rparr>], [?c\<lparr>hc_messages := [''c'']\<rparr>]], [])"
    by (simp add: Split_def split_chat_def split_message_def put_message_def flush_batch_def split_start_def add_message_def chatHeaderBytes_def chatEnvelopeBytes_def
        batchEnvelopeBytes_def Let_def)
  have "(0::nat) < 2" by simp
  from Split_complete [OF this, where msg_id = "\<lambda>m. m" and chats = "[?c\<lparr>hc_messages := [''a'', ''b'', ''c'']\<rparr>]" and maxBytes = 1000] s
  show ?thesis by simp
qed

end
