(* ===== verification/HistoryQueue.thy ===== *)
theory HistoryQueue
  imports HistorySplit "HOL-Library.Sublist"
begin

text \<open>
  The queues of the history importer (internal/history/importer.go): one queue of chunks per channel,
  drained by one goroutine that imports them one after the other, with a limited number of imports at
  a time over all channels. The channel of slots and the context belong to the runtime: an import
  starts when a slot is free, and is skipped once the context has ended.
\<close>

section \<open>The importer\<close>

record 'n importer =
  im_closed :: bool
  im_queues :: "string \<Rightarrow> 'n list option"
  im_slots :: nat
  im_ctx_ended :: bool

definition NewImporter :: "(int \<Rightarrow> string) \<Rightarrow> Limits \<Rightarrow> 'n importer result" where
  "NewImporter show_duration l =
     (case limits_validate show_duration l of
        Some err \<Rightarrow> Inl err
      | None \<Rightarrow> Inr \<lparr>im_closed = False, im_queues = Map.empty, im_slots = nat (lm_Chunks l), im_ctx_ended = False\<rparr>)"

text \<open>\<open>Accept\<close>: whether the chunk was taken, and whether a drain has to be started for its channel.\<close>

definition history_Accept :: "string \<Rightarrow> 'n \<Rightarrow> 'n importer \<Rightarrow> (bool \<times> bool) \<times> 'n importer" where
  "history_Accept channelID notif i =
     (if im_closed i then ((False, False), i)
      else
        (case im_queues i channelID of
           None \<Rightarrow> ((True, True), i\<lparr>im_queues := (im_queues i)(channelID \<mapsto> [notif])\<rparr>)
         | Some pending \<Rightarrow> ((True, False), i\<lparr>im_queues := (im_queues i)(channelID \<mapsto> pending @ [notif])\<rparr>)))"

definition history_next :: "string \<Rightarrow> 'n importer \<Rightarrow> 'n option \<times> 'n importer" where
  "history_next channelID i =
     (case im_queues i channelID of
        None \<Rightarrow> (None, i\<lparr>im_queues := (im_queues i)(channelID := None)\<rparr>)
      | Some [] \<Rightarrow> (None, i\<lparr>im_queues := (im_queues i)(channelID := None)\<rparr>)
      | Some (n # pending) \<Rightarrow> (Some n, i\<lparr>im_queues := (im_queues i)(channelID \<mapsto> pending)\<rparr>))"

definition history_close_flag :: "'n importer \<Rightarrow> 'n importer" where
  "history_close_flag i = i\<lparr>im_closed := True\<rparr>"

section \<open>The drains\<close>

text \<open>
  A drain is between two chunks, waits for a slot, or imports. \<open>hq_accepted\<close>, \<open>hq_started\<close> and
  \<open>hq_imported\<close> record what happened, per channel in order; a chunk that is skipped after the end of
  the context counts as started only.
\<close>

datatype 'n drain_phase = Polling | Queued 'n | Importing 'n

record 'n history_system =
  hq_importer :: "'n importer"
  hq_drains :: "string \<Rightarrow> 'n drain_phase option"
  hq_accepted :: "(string \<times> 'n) list"
  hq_started :: "(string \<times> 'n) list"

definition importing :: "'n history_system \<Rightarrow> string set" where
  "importing y = {ch. \<exists>n. hq_drains y ch = Some (Importing n)}"

inductive history_step :: "'n history_system \<Rightarrow> 'n history_system \<Rightarrow> bool" where
  accept: "history_Accept ch n (hq_importer y) = ((ok, start), i) \<Longrightarrow>
     history_step y (y\<lparr>hq_importer := i, hq_accepted := hq_accepted y @ (if ok then [(ch, n)] else []),
       hq_drains := (if start then (hq_drains y)(ch \<mapsto> Polling) else hq_drains y)\<rparr>)"
| poll: "hq_drains y ch = Some Polling \<Longrightarrow> history_next ch (hq_importer y) = (Some n, i) \<Longrightarrow>
     history_step y (y\<lparr>hq_importer := i, hq_drains := (hq_drains y)(ch \<mapsto> Queued n), hq_started := hq_started y @ [(ch, n)]\<rparr>)"
| leave: "hq_drains y ch = Some Polling \<Longrightarrow> history_next ch (hq_importer y) = (None, i) \<Longrightarrow>
     history_step y (y\<lparr>hq_importer := i, hq_drains := (hq_drains y)(ch := None)\<rparr>)"
| skip: "hq_drains y ch = Some (Queued n) \<Longrightarrow> im_ctx_ended (hq_importer y) \<Longrightarrow>
     history_step y (y\<lparr>hq_drains := (hq_drains y)(ch \<mapsto> Polling)\<rparr>)"
| import_start: "hq_drains y ch = Some (Queued n) \<Longrightarrow> card (importing y) < im_slots (hq_importer y) \<Longrightarrow>
     history_step y (y\<lparr>hq_drains := (hq_drains y)(ch \<mapsto> Importing n)\<rparr>)"
| import_end: "hq_drains y ch = Some (Importing n) \<Longrightarrow>
     history_step y (y\<lparr>hq_drains := (hq_drains y)(ch \<mapsto> Polling)\<rparr>)"
| close: "history_step y (y\<lparr>hq_importer := history_close_flag (hq_importer y)\<rparr>)"
| cancel: "history_step y (y\<lparr>hq_importer := (hq_importer y)\<lparr>im_ctx_ended := True\<rparr>\<rparr>)"

definition history_start :: "'n importer \<Rightarrow> 'n history_system" where
  "history_start i = \<lparr>hq_importer = i, hq_drains = Map.empty, hq_accepted = [], hq_started = []\<rparr>"

definition chunks_of :: "string \<Rightarrow> (string \<times> 'n) list \<Rightarrow> 'n list" where
  "chunks_of ch xs = map snd (filter (\<lambda>(c, n). c = ch) xs)"

lemma chunks_of_append [simp]:
  "chunks_of ch (xs @ ys) = chunks_of ch xs @ chunks_of ch ys" "chunks_of ch [] = []"
  "chunks_of ch [(c, n)] = (if c = ch then [n] else [])"
  by (simp_all add: chunks_of_def)

definition history_inv :: "'n history_system \<Rightarrow> bool" where
  "history_inv y \<longleftrightarrow>
     (\<forall>ch. (hq_drains y ch = None) = (im_queues (hq_importer y) ch = None)) \<and>
     (\<forall>ch. chunks_of ch (hq_accepted y) =
        chunks_of ch (hq_started y) @ (case im_queues (hq_importer y) ch of None \<Rightarrow> [] | Some q \<Rightarrow> q)) \<and>
     finite (importing y) \<and> card (importing y) \<le> im_slots (hq_importer y)"

lemma importing_upd:
  "hq_drains y' = (hq_drains y)(ch := d) \<Longrightarrow>
     importing y' = (if \<exists>n. d = Some (Importing n) then insert ch (importing y) else importing y - {ch})"
  by (auto simp: importing_def)

lemma importing_same: "hq_drains y' = hq_drains y \<Longrightarrow> importing y' = importing y"
  by (simp add: importing_def)

lemma history_step_inv: "history_step y y' \<Longrightarrow> history_inv y \<Longrightarrow> history_inv y'"
proof (induction rule: history_step.induct)
  case (accept ch n y ok start i)
  let ?y = "y\<lparr>hq_importer := i, hq_accepted := hq_accepted y @ (if ok then [(ch, n)] else []),
       hq_drains := (if start then (hq_drains y)(ch \<mapsto> Polling) else hq_drains y)\<rparr>"
  have "importing ?y \<subseteq> importing y" by (auto simp: importing_def split: if_splits)
  then have "finite (importing ?y) \<and> card (importing ?y) \<le> card (importing y)"
    using accept(2) by (auto simp: history_inv_def finite_subset intro: card_mono)
  then show ?case
    using accept by (auto simp: history_inv_def history_Accept_def split: if_splits option.splits)
next
  case (poll y ch n i)
  let ?y = "y\<lparr>hq_importer := i, hq_drains := (hq_drains y)(ch \<mapsto> Queued n), hq_started := hq_started y @ [(ch, n)]\<rparr>"
  have "importing ?y = importing y - {ch}" by (subst importing_upd [of ?y y ch "Some (Queued n)"]) simp_all
  then have "finite (importing ?y) \<and> card (importing ?y) \<le> card (importing y)"
    using poll(3) by (auto simp: history_inv_def intro: card_mono)
  then show ?case
    using poll by (auto simp: history_inv_def history_next_def split: if_splits option.splits list.splits)
next
  case (leave y ch i)
  let ?y = "y\<lparr>hq_importer := i, hq_drains := (hq_drains y)(ch := None)\<rparr>"
  have "importing ?y = importing y - {ch}" by (subst importing_upd [of ?y y ch None]) simp_all
  then have "finite (importing ?y) \<and> card (importing ?y) \<le> card (importing y)"
    using leave(3) by (auto simp: history_inv_def intro: card_mono)
  then show ?case
    using leave by (auto simp: history_inv_def history_next_def split: if_splits option.splits list.splits)
next
  case (skip y ch n)
  let ?y = "y\<lparr>hq_drains := (hq_drains y)(ch \<mapsto> Polling)\<rparr>"
  have "importing ?y = importing y - {ch}" by (subst importing_upd [of ?y y ch "Some Polling"]) simp_all
  then have "finite (importing ?y) \<and> card (importing ?y) \<le> card (importing y)"
    using skip(3) by (auto simp: history_inv_def intro: card_mono)
  moreover have "im_queues (hq_importer y) ch \<noteq> None" using skip(1,3) unfolding history_inv_def by (metis option.distinct(1))
  ultimately show ?case using skip by (auto simp: history_inv_def)
next
  case (import_start y ch n)
  let ?y = "y\<lparr>hq_drains := (hq_drains y)(ch \<mapsto> Importing n)\<rparr>"
  have "importing ?y = insert ch (importing y)" by (subst importing_upd [of ?y y ch "Some (Importing n)"]) simp_all
  then have "finite (importing ?y) \<and> card (importing ?y) \<le> im_slots (hq_importer y)"
    using import_start(2,3) by (auto simp: history_inv_def card_insert_if)
  moreover have "im_queues (hq_importer y) ch \<noteq> None" using import_start(1,3) unfolding history_inv_def by (metis option.distinct(1))
  ultimately show ?case using import_start by (auto simp: history_inv_def)
next
  case (import_end y ch n)
  let ?y = "y\<lparr>hq_drains := (hq_drains y)(ch \<mapsto> Polling)\<rparr>"
  have "importing ?y = importing y - {ch}" by (subst importing_upd [of ?y y ch "Some Polling"]) simp_all
  then have "finite (importing ?y) \<and> card (importing ?y) \<le> card (importing y)"
    using import_end(2) by (auto simp: history_inv_def intro: card_mono)
  moreover have "im_queues (hq_importer y) ch \<noteq> None" using import_end(1,2) unfolding history_inv_def by (metis option.distinct(1))
  ultimately show ?case using import_end by (auto simp: history_inv_def)
next
  case (close y)
  then show ?case by (simp add: history_inv_def history_close_flag_def importing_def)
next
  case (cancel y)
  then show ?case by (simp add: history_inv_def importing_def)
qed

lemma history_reachable_inv:
  assumes "history_step\<^sup>*\<^sup>* (history_start i) y" "im_queues i = Map.empty"
  shows "history_inv y"
  using assms(1)
proof (induction rule: rtranclp_induct)
  case base
  then show ?case using assms(2) by (simp add: history_inv_def history_start_def importing_def)
next
  case (step y z)
  then show ?case by (blast intro: history_step_inv)
qed

lemma history_step_slots: "history_step y y' \<Longrightarrow> im_slots (hq_importer y') = im_slots (hq_importer y)"
  by (induction rule: history_step.induct)
    (auto simp: history_Accept_def history_next_def history_close_flag_def split: if_splits option.splits list.splits)

section \<open>Properties\<close>



end
