(* ===== verification/HistoryImporter.thy ===== *)
theory HistoryImporter
  imports HistorySplit Registry "HOL-Library.Monad_Syntax" "HOL-Library.Sublist"
begin

text \<open>
  The import of a history chunk (internal/history/importer.go): downloading it, publishing its batches
  in order with retries, counting them in the registry and ending the import. The registry is the
  model of \<open>Registry\<close>; the broker, the clock, the failures of the database and what other goroutines
  do to the registry meanwhile are functions of the world \<open>'w\<close>. The retry loop may run for as long
  as the context lives, so what it is part of returns an option.
\<close>

datatype publication = PubBatch HistoryBatch | PubDone HistoryDone

record Translation =
  tr_Chats :: "HistoryChat list"
  tr_Messages :: int
  tr_OutOfWindow :: int
  tr_Skipped :: int
  tr_ChatsWithoutPhone :: "string list"

record history_data =
  hs_SyncType :: sync_type
  hs_ChunkOrder :: nat
  hs_Progress :: nat

record ('n, 'd, 'w) import_env =
  ie_now :: "'w \<Rightarrow> int"
  ie_fail :: "'w \<Rightarrow> goerr option \<times> 'w"
  ie_meanwhile :: "'w \<Rightarrow> registry \<Rightarrow> registry"
  ie_publish :: "publication \<Rightarrow> 'w \<Rightarrow> goerr option \<times> 'w"
  ie_sleep :: "int \<Rightarrow> 'w \<Rightarrow> goerr option \<times> 'w"
  ie_ctx :: "'w \<Rightarrow> goerr option"
  ie_download :: "'n \<Rightarrow> 'w \<Rightarrow> (history_data \<times> 'd) result \<times> 'w"
  ie_release :: "'n \<Rightarrow> 'w \<Rightarrow> goerr option \<times> 'w"
  ie_translate :: "string \<Rightarrow> string \<Rightarrow> 'd \<Rightarrow> 'w \<Rightarrow> Translation result \<times> 'w"
  ie_msg_id :: "string \<Rightarrow> string"
  ie_limits :: Limits

record 'w import_state =
  ip_reg :: registry
  ip_log :: "publication list"
  ip_world :: 'w

definition storeAttempts :: nat where "storeAttempts = 5"

text \<open>One query: the failure that the database has for it, after what others did to the registry.\<close>

definition query ::
  "('n, 'd, 'w) import_env \<Rightarrow> (goerr option \<Rightarrow> int \<Rightarrow> registry \<Rightarrow> 'a \<times> registry) \<Rightarrow> 'w import_state \<Rightarrow> 'a \<times> 'w import_state" where
  "query env f s =
     (case ie_fail env (ip_world s) of
        (fail, w) \<Rightarrow>
          (case f fail (ie_now env w) (ie_meanwhile env w (ip_reg s)) of
             (a, r) \<Rightarrow> (a, s\<lparr>ip_reg := r, ip_world := w\<rparr>)))"

definition active_import :: "('n, 'd, 'w) import_env \<Rightarrow> string \<Rightarrow> 'w import_state \<Rightarrow> HistoryImport option result \<times> 'w import_state" where
  "active_import env channelID = query env (\<lambda>fail now r. (ActiveHistoryImport fail now channelID r, r))"

definition import_sleep :: "('n, 'd, 'w) import_env \<Rightarrow> int \<Rightarrow> 'w import_state \<Rightarrow> goerr option \<times> 'w import_state" where
  "import_sleep env d s = (case ie_sleep env d (ip_world s) of (err, w) \<Rightarrow> (err, s\<lparr>ip_world := w\<rparr>))"

section \<open>Retries\<close>

definition gave_up :: "goerr \<Rightarrow> bool" where "gave_up err = err_is err ENoHistoryImport"

partial_function (option) retry_from ::
  "('n, 'd, 'w) import_env \<Rightarrow> ('w import_state \<Rightarrow> goerr option \<times> 'w import_state) \<Rightarrow> int \<Rightarrow> 'w import_state \<Rightarrow>
   (goerr option \<times> 'w import_state) option" where
  "retry_from env publish delay s =
     (case publish s of
        (None, s1) \<Rightarrow> Some (None, s1)
      | (Some err, s1) \<Rightarrow>
          if gave_up err then Some (Some err, s1)
          else
            (case import_sleep env delay s1 of
               (Some e, s2) \<Rightarrow> Some (Some e, s2)
             | (None, s2) \<Rightarrow> retry_from env publish (min (delay * 2) (lm_RetryMax (ie_limits env))) s2))"

definition retry ::
  "('n, 'd, 'w) import_env \<Rightarrow> ('w import_state \<Rightarrow> goerr option \<times> 'w import_state) \<Rightarrow> 'w import_state \<Rightarrow>
   (goerr option \<times> 'w import_state) option" where
  "retry env publish s = retry_from env publish (lm_RetryFirst (ie_limits env)) s"

text \<open>
  \<open>persist\<close>: the error it returns and the value that the last successful write stored in the variable
  of its caller. After the last attempt the failure is logged and dropped.
\<close>

fun persist_from ::
  "('n, 'd, 'w) import_env \<Rightarrow> ('w import_state \<Rightarrow> 'a result \<times> 'w import_state) \<Rightarrow> nat \<Rightarrow> int \<Rightarrow> 'w import_state \<Rightarrow>
   (goerr option \<times> 'a option) \<times> 'w import_state" where
  "persist_from env write 0 delay s = ((None, None), s)"
| "persist_from env write (Suc k) delay s =
     (case write s of
        (Inr a, s1) \<Rightarrow> ((None, Some a), s1)
      | (Inl err, s1) \<Rightarrow>
          if gave_up err then ((Some err, None), s1)
          else
            (case ie_ctx env (ip_world s1) of
               Some e \<Rightarrow> ((Some e, None), s1)
             | None \<Rightarrow>
                 if k = 0 then ((None, None), s1)
                 else
                   (case import_sleep env delay s1 of
                      (Some e, s2) \<Rightarrow> ((Some e, None), s2)
                    | (None, s2) \<Rightarrow> persist_from env write k (min (delay * 2) (lm_RetryMax (ie_limits env))) s2)))"

definition persist ::
  "('n, 'd, 'w) import_env \<Rightarrow> ('w import_state \<Rightarrow> 'a result \<times> 'w import_state) \<Rightarrow> 'w import_state \<Rightarrow>
   (goerr option \<times> 'a option) \<times> 'w import_state" where
  "persist env write s = persist_from env write storeAttempts (lm_RetryFirst (ie_limits env)) s"

section \<open>Publishing a chunk\<close>

definition stillActive :: "('n, 'd, 'w) import_env \<Rightarrow> string \<Rightarrow> string \<Rightarrow> 'w import_state \<Rightarrow> goerr option \<times> 'w import_state" where
  "stillActive env channelID importID s =
     (case active_import env channelID s of
        (Inl err, s1) \<Rightarrow> (Some (Wrap (''history: look up the import of '' @ channelID @ '': '') err []), s1)
      | (Inr found, s1) \<Rightarrow>
          if (case found of None \<Rightarrow> True | Some active \<Rightarrow> hi_importID active \<noteq> importID)
          then (Some (Wrap (''history: import '' @ importID @ '' of '' @ channelID @ '': '') ErrNoHistoryImport []), s1)
          else (None, s1))"

definition publish_if_active ::
  "('n, 'd, 'w) import_env \<Rightarrow> string \<Rightarrow> string \<Rightarrow> publication \<Rightarrow> 'w import_state \<Rightarrow> goerr option \<times> 'w import_state" where
  "publish_if_active env channelID importID p s =
     (case stillActive env channelID importID s of
        (Some err, s1) \<Rightarrow> (Some err, s1)
      | (None, s1) \<Rightarrow>
          (case ie_publish env p (ip_world s1) of (err, w) \<Rightarrow> (err, s1\<lparr>ip_log := ip_log s1 @ [p], ip_world := w\<rparr>)))"

definition skipChats ::
  "('n, 'd, 'w) import_env \<Rightarrow> string \<Rightarrow> HistoryImport \<Rightarrow> string list \<Rightarrow> 'w import_state \<Rightarrow> (goerr option \<times> int) \<times> 'w import_state" where
  "skipChats env channelID active chats s =
     (if chats = [] then ((None, hi_skippedChats active), s)
      else
        (case persist env (query env (\<lambda>fail now r. SkipHistoryChats fail now channelID (hi_importID active) chats r)) s of
           ((err, recorded), s1) \<Rightarrow>
             ((err, case recorded of None \<Rightarrow> hi_skippedChats active | Some n \<Rightarrow> n), s1)))"

definition countBatch ::
  "('n, 'd, 'w) import_env \<Rightarrow> string \<Rightarrow> string \<Rightarrow> int \<Rightarrow> 'w import_state \<Rightarrow> (goerr option \<times> int) \<times> 'w import_state" where
  "countBatch env channelID importID published s =
     (case persist env (query env (\<lambda>fail now r. CountHistoryBatch fail now channelID importID r)) s of
        ((err, counted), s1) \<Rightarrow> ((err, case counted of None \<Rightarrow> published + 1 | Some n \<Rightarrow> n), s1))"

definition batch_of :: "string \<Rightarrow> HistoryImport \<Rightarrow> history_data \<Rightarrow> nat \<Rightarrow> nat \<Rightarrow> HistoryChat list \<Rightarrow> HistoryBatch" where
  "batch_of channelID active data n sofar chats =
     \<lparr>hb_kind = [], hb_tenantID = hi_tenantID active, hb_channelID = channelID, hb_importID = hi_importID active, hb_source = [],
      hb_chunkOrder = hs_ChunkOrder data, hb_sourceProgress = hs_Progress data, hb_batchIndex = int n + 1,
      hb_batchesInChunk = int sofar, hb_chats = chats\<rparr>"

text \<open>The loop over the batches, from the batch number \<open>n\<close> on.\<close>

fun publish_batches ::
  "('n, 'd, 'w) import_env \<Rightarrow> string \<Rightarrow> string \<Rightarrow> (nat \<times> HistoryBatch) list \<Rightarrow> int \<Rightarrow> 'w import_state \<Rightarrow>
   ((goerr option \<times> int) \<times> 'w import_state) option" where
  "publish_batches env channelID importID [] sofar s = Some ((None, sofar), s)"
| "publish_batches env channelID importID ((n, b) # bs) sofar s =
     (case (if n > 0 then import_sleep env (lm_BatchPace (ie_limits env)) s else (None, s)) of
        (Some e, s1) \<Rightarrow> Some ((Some e, sofar), s1)
      | (None, s1) \<Rightarrow>
          do {
            (err, s2) \<leftarrow> retry env (publish_if_active env channelID importID (PubBatch b)) s1;
            if err \<noteq> None then Some ((err, sofar), s2)
            else
              (case countBatch env channelID importID sofar s2 of
                 ((Some e, t), s3) \<Rightarrow> Some ((Some e, t), s3)
               | ((None, t), s3) \<Rightarrow> publish_batches env channelID importID bs t s3)
          })"

definition chunk_batches :: "('n, 'd, 'w) import_env \<Rightarrow> string \<Rightarrow> HistoryImport \<Rightarrow> history_data \<Rightarrow> HistoryChat list \<Rightarrow> HistoryBatch list" where
  "chunk_batches env channelID active data chats =
     (let batches = fst (Split (ie_msg_id env) chats (nat (lm_MaxMessages (ie_limits env))) (nat (lm_MaxBytes (ie_limits env))))
      in map (\<lambda>(n, b). batch_of channelID active data n (length batches) b) (enumerate 0 batches))"

definition done_of :: "string \<Rightarrow> HistoryImport \<Rightarrow> int \<Rightarrow> int \<Rightarrow> HistoryDone" where
  "done_of channelID active sofar skipped =
     \<lparr>hd_kind = [], hd_tenantID = hi_tenantID active, hd_channelID = channelID, hd_importID = hi_importID active, hd_source = [],
      hd_totalBatches = sofar, hd_skippedChats = skipped\<rparr>"

definition finish_import ::
  "('n, 'd, 'w) import_env \<Rightarrow> string \<Rightarrow> HistoryImport \<Rightarrow> int \<Rightarrow> int \<Rightarrow> 'w import_state \<Rightarrow> (goerr option \<times> 'w import_state) option" where
  "finish_import env channelID active sofar skipped s =
     do {
       (err, s1) \<leftarrow> retry env (publish_if_active env channelID (hi_importID active) (PubDone (done_of channelID active sofar skipped))) s;
       if err \<noteq> None then Some (err, s1)
       else
         (case persist env (query env (\<lambda>fail now r.
              case FinishHistoryImport fail now channelID (hi_importID active) r of
                (Some e, r1) \<Rightarrow> (Inl e, r1) | (None, r1) \<Rightarrow> (Inr (), r1))) s1 of
            ((err, _), s2) \<Rightarrow> Some (err, s2))
     }"

definition publishChunk ::
  "('n, 'd, 'w) import_env \<Rightarrow> string \<Rightarrow> HistoryImport \<Rightarrow> history_data \<Rightarrow> 'd \<Rightarrow> 'w import_state \<Rightarrow> (goerr option \<times> 'w import_state) option" where
  "publishChunk env channelID active data body s =
     (case ie_translate env channelID (hi_tenantID active) body (ip_world s) of
        (Inl err, w) \<Rightarrow> Some (Some err, s\<lparr>ip_world := w\<rparr>)
      | (Inr tr, w) \<Rightarrow>
          (case skipChats env channelID active (tr_ChatsWithoutPhone tr) (s\<lparr>ip_world := w\<rparr>) of
             ((Some err, skipped), s1) \<Rightarrow> Some (Some err, s1)
           | ((None, skipped), s1) \<Rightarrow>
               do {
                 ((err, sofar), s2) \<leftarrow> publish_batches env channelID (hi_importID active)
                    (enumerate 0 (chunk_batches env channelID active data (tr_Chats tr))) (hi_batches active) s1;
                 if err \<noteq> None then Some (err, s2)
                 else if hi_finished active \<or> \<not> finishesImport (hs_SyncType data) (hs_Progress data) then Some (None, s2)
                 else finish_import env channelID active sofar skipped s2
               }))"

definition importChunk ::
  "('n, 'd, 'w) import_env \<Rightarrow> string \<Rightarrow> history_data \<Rightarrow> 'd \<Rightarrow> 'w import_state \<Rightarrow> (goerr option \<times> 'w import_state) option" where
  "importChunk env channelID data body s =
     (case active_import env channelID s of
        (Inl err, s1) \<Rightarrow> Some (Some (Wrap (''history: look up the import of '' @ channelID @ '': '') err []), s1)
      | (Inr None, s1) \<Rightarrow> Some (None, s1)
      | (Inr (Some active), s1) \<Rightarrow>
          do {
            (err, s2) \<leftarrow> publishChunk env channelID active data body s1;
            Some (if (case err of None \<Rightarrow> False | Some e \<Rightarrow> gave_up e) then None else err, s2)
          })"

definition Import ::
  "('n, 'd, 'w) import_env \<Rightarrow> string \<Rightarrow> 'n \<Rightarrow> 'w import_state \<Rightarrow> (goerr option \<times> 'w import_state) option" where
  "Import env channelID notif s =
     (case ie_download env notif (ip_world s) of
        (Inl err, w) \<Rightarrow> Some (Some (Wrap (''history: download chunk of '' @ channelID @ '': '') err []), s\<lparr>ip_world := w\<rparr>)
      | (Inr (data, body), w) \<Rightarrow>
          do {
            (err, s1) \<leftarrow> (if importable (hs_SyncType data) then importChunk env channelID data body (s\<lparr>ip_world := w\<rparr>)
                          else Some (None, s\<lparr>ip_world := w\<rparr>));
            if err \<noteq> None then Some (err, s1)
            else
              (case ie_release env notif (ip_world s1) of
                 (None, w1) \<Rightarrow> Some (None, s1\<lparr>ip_world := w1\<rparr>)
               | (Some e, w1) \<Rightarrow>
                   Some (Some (Wrap (''history: release chunk of '' @ channelID @ '': '') e []), s1\<lparr>ip_world := w1\<rparr>))
          })"

section \<open>What is published\<close>

text \<open>A log delivers a plan when it has each publication of the plan, in order, at least once.\<close>

definition delivers :: "publication list \<Rightarrow> publication list \<Rightarrow> bool" where
  "delivers plan xs \<longleftrightarrow> (\<exists>ns. length ns = length plan \<and> list_all (\<lambda>n. 0 < n) ns \<and> xs = concat (map2 replicate ns plan))"

lemma delivers_Nil [simp]: "delivers [] xs \<longleftrightarrow> xs = []"
  by (auto simp: delivers_def)

lemma delivers_one: "0 < n \<Longrightarrow> delivers [p] (replicate n p)"
  unfolding delivers_def by (intro exI [of _ "[n]"]) simp

lemma delivers_append: "delivers ps xs \<Longrightarrow> delivers qs ys \<Longrightarrow> delivers (ps @ qs) (xs @ ys)"
  unfolding delivers_def by (elim exE, rename_tac ns ms, rule_tac x = "ns @ ms" in exI) simp

lemma delivers_exists: "\<exists>xs. delivers ps xs"
proof (induction ps)
  case (Cons p ps)
  then obtain xs where "delivers ps xs" by blast
  then show ?case using delivers_append [OF delivers_one [of 1 p]] by fastforce
qed simp

lemma log_query [simp]: "query env f s = (a, s') \<Longrightarrow> ip_log s' = ip_log s"
  by (auto simp: query_def split: prod.splits)

lemma log_sleep: "import_sleep env d s = (a, s') \<Longrightarrow> ip_log s' = ip_log s"
  by (auto simp: import_sleep_def split: prod.splits)

lemma log_persist_from:
  assumes "persist_from env write k d s = (r, s')" "\<And>s a s'. write s = (a, s') \<Longrightarrow> ip_log s' = ip_log s"
  shows "ip_log s' = ip_log s"
  using assms(1)
proof (induction k arbitrary: d s)
  case (Suc k)
  obtain res s1 where w: "write s = (res, s1)" by fastforce
  note l = assms(2) [OF w]
  show ?case
  proof (cases res)
    case (Inr a)
    then show ?thesis using Suc.prems w l by simp
  next
    case (Inl err)
    obtain e s2 where sl: "import_sleep env d s1 = (e, s2)" by fastforce
    show ?thesis
      using Suc.prems Suc.IH [of "min (d * 2) (lm_RetryMax (ie_limits env))" s2] w l Inl log_sleep [OF sl] sl
      by (auto split: if_splits option.splits)
  qed
qed simp

lemma log_persist_query: "persist env (query env f) s = (r, s') \<Longrightarrow> ip_log s' = ip_log s"
  unfolding persist_def by (erule log_persist_from) simp

lemma log_active: "active_import env ch s = (a, s') \<Longrightarrow> ip_log s' = ip_log s"
  by (simp add: active_import_def)

lemma log_stillActive: "stillActive env ch i s = (a, s') \<Longrightarrow> ip_log s' = ip_log s"
  by (auto simp: stillActive_def split: prod.splits sum.splits if_splits dest: log_active)

lemma log_publish:
  "publish_if_active env ch i p s = (err, s') \<Longrightarrow> \<exists>n. ip_log s' = ip_log s @ replicate n p \<and> (err = None \<longrightarrow> 0 < n)"
proof -
  assume a: "publish_if_active env ch i p s = (err, s')"
  obtain e s1 where st: "stillActive env ch i s = (e, s1)" by fastforce
  show ?thesis
  proof (cases e)
    case None
    then have "ip_log s' = ip_log s @ replicate 1 p"
      using a st log_stillActive [OF st] by (auto simp: publish_if_active_def split: prod.splits)
    then show ?thesis by (metis zero_less_one)
  next
    case (Some x)
    then have "ip_log s' = ip_log s @ replicate 0 p" "err \<noteq> None"
      using a st log_stillActive [OF st] by (auto simp: publish_if_active_def)
    then show ?thesis by blast
  qed
qed

lemma log_retry_from:
  "retry_from env publish d s = Some r \<Longrightarrow>
     (\<And>s err s'. publish s = (err, s') \<Longrightarrow> \<exists>n. ip_log s' = ip_log s @ replicate n p \<and> (err = None \<longrightarrow> 0 < n)) \<Longrightarrow>
     \<exists>n. ip_log (snd r) = ip_log s @ replicate n p \<and> (fst r = None \<longrightarrow> 0 < n)"
proof (induction env publish d s r rule: retry_from.raw_induct [rotated, consumes 1, case_names step])
  case (step rf env publish d s r)
  note 1 = step
  obtain err s1 where pb: "publish s = (err, s1)" by fastforce
  from 1(3) [OF pb] obtain n where n: "ip_log s1 = ip_log s @ replicate n p" "err = None \<longrightarrow> 0 < n" by blast
  obtain e s2 where sl: "import_sleep env d s1 = (e, s2)" by fastforce
  note body = 1(2) [unfolded pb prod.case]
  show ?case
  proof (cases err)
    case None
    then have "r = (None, s1)" using body by simp
    then show ?thesis using n None by auto
  next
    case (Some x)
    show ?thesis
    proof (cases "gave_up x")
      case True
      then have "r = (Some x, s1)" using body Some by simp
      then show ?thesis using n by auto
    next
      case False
      note body1 = body [unfolded Some option.case if_not_P [OF False] sl prod.case]
      show ?thesis
      proof (cases e)
        case e: (Some y)
        then have "r = (Some y, s2)" using body1 by simp
        then show ?thesis using n log_sleep [OF sl] by auto
      next
        case e: None
        have "rf env publish (min (d * 2) (lm_RetryMax (ie_limits env))) s2 = Some r" using body1 unfolding e option.case .
        then have "\<exists>m. ip_log (snd r) = ip_log s2 @ replicate m p \<and> (fst r = None \<longrightarrow> 0 < m)"
          by (rule 1(1)) (rule 1(3))
        then obtain m where "ip_log (snd r) = ip_log s2 @ replicate m p \<and> (fst r = None \<longrightarrow> 0 < m)" ..
        then have "ip_log (snd r) = ip_log s @ replicate (n + m) p \<and> (fst r = None \<longrightarrow> 0 < n + m)"
          using n(1) log_sleep [OF sl] by (auto simp: replicate_add)
        then show ?thesis by (rule exI [of _ "n + m"])
      qed
    qed
  qed
qed

lemma log_retry:
  assumes "retry env (publish_if_active env ch i p) s = Some (err, s')"
  shows "\<exists>n. ip_log s' = ip_log s @ replicate n p \<and> (err = None \<longrightarrow> 0 < n)"
  using log_retry_from [OF assms [unfolded retry_def], of p] log_publish by fastforce

text \<open>A log that stops short of a plan: it can be completed to one that delivers it.\<close>

definition partly_delivers :: "publication list \<Rightarrow> publication list \<Rightarrow> bool" where
  "partly_delivers plan xs \<longleftrightarrow> (\<exists>zs. delivers plan zs \<and> prefix xs zs)"

lemma partly_Nil: "partly_delivers plan []"
  using delivers_exists [of plan] by (auto simp: partly_delivers_def)

lemma partly_one: "partly_delivers (p # plan) (replicate n p)"
proof -
  obtain zs where "delivers plan zs" using delivers_exists by blast
  then have "delivers ([p] @ plan) (replicate (Suc n) p @ zs)" by (intro delivers_append delivers_one) simp_all
  moreover have "prefix (replicate n p) (replicate (Suc n) p @ zs)"
    by (intro prefix_prefix) (metis prefixI replicate_append_same replicate_Suc)
  ultimately show ?thesis unfolding partly_delivers_def by auto
qed

lemma partly_append: "delivers ps xs \<Longrightarrow> partly_delivers qs ys \<Longrightarrow> partly_delivers (ps @ qs) (xs @ ys)"
  unfolding partly_delivers_def by (meson delivers_append same_prefix_prefix)

lemma partly_delivers_all: "delivers plan xs \<Longrightarrow> partly_delivers plan xs"
  unfolding partly_delivers_def by blast

lemma publish_batches_log:
  assumes "publish_batches env ch i bs t s = Some ((err, t'), s')"
  shows "\<exists>xs. ip_log s' = ip_log s @ xs \<and>
    (if err = None then delivers (map (PubBatch \<circ> snd) bs) xs else partly_delivers (map (PubBatch \<circ> snd) bs) xs)"
  using assms
proof (induction bs arbitrary: t s)
  case Nil
  then show ?case by simp
next
  case (Cons x bs)
  obtain n b where x: "x = (n, b)" by (cases x)
  obtain e s1 where sl: "(if n > 0 then import_sleep env (lm_BatchPace (ie_limits env)) s else (None, s)) = (e, s1)" by fastforce
  have l1: "ip_log s1 = ip_log s" using sl log_sleep by (auto split: if_splits)
  show ?case
  proof (cases e)
    case (Some ee)
    then show ?thesis using Cons.prems x sl l1 by (auto simp: partly_Nil intro!: exI [of _ "[]"])
  next
    case None
    obtain er s2 where rt: "retry env (publish_if_active env ch i (PubBatch b)) s1 = Some (er, s2)"
      using Cons.prems x sl None by (auto simp: bind_eq_Some_conv)
    from log_retry [OF rt] obtain m where m: "ip_log s2 = ip_log s1 @ replicate m (PubBatch b)" "er = None \<longrightarrow> 0 < m" by blast
    show ?thesis
    proof (cases er)
      case (Some y)
      then have "err = er" "s' = s2" using Cons.prems x sl None rt by simp_all
      then show ?thesis using Some m l1 x by (auto simp: partly_one intro!: exI [of _ "replicate m (PubBatch b)"])
    next
      case er: None
      obtain ce t1 s3 where cb: "countBatch env ch i t s2 = ((ce, t1), s3)" by (metis prod.exhaust)
      have l3: "ip_log s3 = ip_log s2"
        using cb log_persist_query by (fastforce simp: countBatch_def split: prod.splits)
      have d1: "delivers [PubBatch b] (replicate m (PubBatch b))" using m er by (simp add: delivers_one)
      show ?thesis
      proof (cases ce)
        case (Some y)
        then have "err = ce" "s' = s3" using Cons.prems x sl None rt er cb by simp_all
        then show ?thesis using Some m l1 l3 x by (auto simp: partly_one intro!: exI [of _ "replicate m (PubBatch b)"])
      next
        case ceN: None
        then have "publish_batches env ch i bs t1 s3 = Some ((err, t'), s')" using Cons.prems x sl None rt er cb by simp
        from Cons.IH [OF this] obtain xs where xs: "ip_log s' = ip_log s3 @ xs"
          "if err = None then delivers (map (PubBatch \<circ> snd) bs) xs else partly_delivers (map (PubBatch \<circ> snd) bs) xs" by blast
        have "if err = None then delivers ([PubBatch b] @ map (PubBatch \<circ> snd) bs) (replicate m (PubBatch b) @ xs)
            else partly_delivers ([PubBatch b] @ map (PubBatch \<circ> snd) bs) (replicate m (PubBatch b) @ xs)"
          using delivers_append [OF d1] partly_append [OF d1] xs(2) by (simp split: if_splits)
        then show ?thesis using xs(1) m(1) l1 l3 x
          by (intro exI [of _ "replicate m (PubBatch b) @ xs"]) (auto split: if_split_asm)
      qed
    qed
  qed
qed

lemma finish_import_log:
  assumes "finish_import env ch active t k s = Some (err, s')"
  shows "\<exists>n. ip_log s' = ip_log s @ replicate n (PubDone (done_of ch active t k)) \<and> (err = None \<longrightarrow> 0 < n)"
proof -
  obtain e s1 where r: "retry env (publish_if_active env ch (hi_importID active) (PubDone (done_of ch active t k))) s = Some (e, s1)"
    using assms by (auto simp: finish_import_def bind_eq_Some_conv)
  from log_retry [OF r] obtain n where n: "ip_log s1 = ip_log s @ replicate n (PubDone (done_of ch active t k))" "e = None \<longrightarrow> 0 < n" by blast
  show ?thesis
  proof (cases e)
    case (Some x)
    then have "err = e" "s' = s1" using assms r by (simp_all add: finish_import_def)
    then show ?thesis using n by auto
  next
    case None
    then obtain res where "persist env (query env (\<lambda>fail now r.
              case FinishHistoryImport fail now ch (hi_importID active) r of
                (Some e, r1) \<Rightarrow> (Inl e, r1) | (None, r1) \<Rightarrow> (Inr (), r1))) s1 = (res, s')"
      using assms r by (auto simp: finish_import_def split: prod.splits)
    then have "ip_log s' = ip_log s1" by (rule log_persist_query)
    then show ?thesis using n None by auto
  qed
qed

lemma map_PubBatch_enumerate: "map (PubBatch \<circ> snd) (enumerate k bs) = map PubBatch bs"
  by (induction bs arbitrary: k) simp_all

section \<open>Termination\<close>

text \<open>
  A measure of the world that every wait uses up (a context that ends after some time): then every
  retry ends.
\<close>

definition waits_end :: "('n, 'd, 'w) import_env \<Rightarrow> ('w \<Rightarrow> nat) \<Rightarrow> bool" where
  "waits_end env rank \<longleftrightarrow> (\<forall>d w w'. ie_sleep env d w = (None, w') \<longrightarrow> rank w' < rank w) \<and>
     (\<forall>p w err w'. ie_publish env p w = (err, w') \<longrightarrow> rank w' \<le> rank w) \<and>
     (\<forall>w f w'. ie_fail env w = (f, w') \<longrightarrow> rank w' \<le> rank w)"

lemma rank_publish:
  assumes "waits_end env rank" "publish_if_active env ch i p s = (err, s')"
  shows "rank (ip_world s') \<le> rank (ip_world s)"
proof -
  obtain f w where f: "ie_fail env (ip_world s) = (f, w)" by fastforce
  obtain e w2 where p: "ie_publish env p w = (e, w2)" by fastforce
  have "rank w \<le> rank (ip_world s)" "rank w2 \<le> rank w" using assms(1) f p by (auto simp: waits_end_def)
  then show ?thesis
    using assms(2) f p by (auto simp: publish_if_active_def stillActive_def active_import_def query_def split: sum.splits if_splits)
qed

lemma retry_from_returns:
  assumes "waits_end env rank"
  shows "retry_from env (publish_if_active env ch i p) d s \<noteq> None"
proof (induction "rank (ip_world s)" arbitrary: s d rule: less_induct)
  case less
  obtain err s1 where pb: "publish_if_active env ch i p s = (err, s1)" by fastforce
  obtain e w where sl: "ie_sleep env d (ip_world s1) = (e, w)" by fastforce
  note le = rank_publish [OF assms pb]
  have "retry_from env (publish_if_active env ch i p) d2 (s1\<lparr>ip_world := w\<rparr>) \<noteq> None" if "e = None" for d2
    using less [of "s1\<lparr>ip_world := w\<rparr>" d2] le assms sl that by (fastforce simp: waits_end_def)
  then show ?case
    using pb sl by (subst retry_from.simps) (auto simp: import_sleep_def split: option.split)
qed

lemma returns:
  "Some x \<noteq> None"
  "m \<noteq> None \<Longrightarrow> (\<And>x. f x \<noteq> None) \<Longrightarrow> Option.bind m f \<noteq> None"
  "(\<And>a b. g a b \<noteq> None) \<Longrightarrow> (case p of (a, b) \<Rightarrow> g a b) \<noteq> None"
  "(\<And>a b. g1 a b z \<noteq> None) \<Longrightarrow> (case p of (a, b) \<Rightarrow> g1 a b) z \<noteq> None"
  "u \<noteq> None \<Longrightarrow> (\<And>a. h a \<noteq> None) \<Longrightarrow> (case o1 of None \<Rightarrow> u | Some a \<Rightarrow> h a) \<noteq> None"
  "(\<And>a. h a \<noteq> None) \<Longrightarrow> (\<And>b. k b \<noteq> None) \<Longrightarrow> (case s of Inl a \<Rightarrow> h a | Inr b \<Rightarrow> k b) \<noteq> None"
  "u \<noteq> None \<Longrightarrow> v \<noteq> None \<Longrightarrow> (if c then u else v) \<noteq> None"
  by (cases m; cases o1; cases s; cases p; auto)+

lemma publish_batches_returns: "waits_end env rank \<Longrightarrow> publish_batches env ch i bs t s \<noteq> None"
proof (induction bs arbitrary: t s)
  case (Cons x bs)
  obtain n b where x: "x = (n, b)" by (cases x)
  have r: "retry env (publish_if_active env ch i (PubBatch b)) s1 \<noteq> None" for s1
    unfolding retry_def by (rule retry_from_returns [OF Cons.prems])
  show ?case unfolding x publish_batches.simps by (intro returns r Cons.IH [OF Cons.prems])
qed simp

lemma publishChunk_returns:
  assumes "waits_end env rank"
  shows "publishChunk env ch active data body s \<noteq> None"
proof -
  have f: "finish_import env ch active t k s \<noteq> None" for active t k s
    unfolding finish_import_def retry_def by (intro returns retry_from_returns [OF assms])
  show ?thesis unfolding publishChunk_def by (intro returns publish_batches_returns [OF assms] f)
qed

section \<open>Properties\<close>


text \<open>
  C32. The import of a chunk always returns, provided that only finitely many waits fit in the life
  of the context: a broker that never confirms cannot keep it after the context ends.
\<close>

theorem Import_returns:
  assumes "waits_end env rank"
  shows "Import env ch notif s \<noteq> None"
proof -
  have c: "importChunk env ch data body s \<noteq> None" for data body s
    unfolding importChunk_def by (intro returns publishChunk_returns [OF assms])
  show ?thesis unfolding Import_def by (intro returns c)
qed

text \<open>
  A world in which the context lives for some waits and the broker confirms from some wait on: the
  number of waits left.
\<close>

definition demo_import_env :: "(unit, HistoryChat list, nat) import_env" where
  "demo_import_env =
     \<lparr>ie_now = (\<lambda>w. 0), ie_fail = (\<lambda>w. (None, w)), ie_meanwhile = (\<lambda>w r. r),
      ie_publish = (\<lambda>p w. (if w > 1 then Some (Err EText ''no confirm'') else None, w)),
      ie_sleep = (\<lambda>d w. if w = 0 then (Some (Err ECanceled ''context canceled''), 0) else (None, w - 1)),
      ie_ctx = (\<lambda>w. None), ie_download = (\<lambda>n w. (Inr (\<lparr>hs_SyncType = Recent, hs_ChunkOrder = 1, hs_Progress = 100\<rparr>,
         [\<lparr>hc_phone = ''1'', hc_lid = None, hc_profileName = None, hc_messages = [''a'']\<rparr>]), w)),
      ie_release = (\<lambda>n w. (None, w)),
      ie_translate = (\<lambda>ch t d w. (Inr \<lparr>tr_Chats = d, tr_Messages = 0, tr_OutOfWindow = 0, tr_Skipped = 0, tr_ChatsWithoutPhone = []\<rparr>, w)),
      ie_msg_id = (\<lambda>m. m), ie_limits = DefaultLimits\<rparr>"

definition demo_import_state :: "nat \<Rightarrow> nat import_state" where
  "demo_import_state w =
     \<lparr>ip_reg = \<lparr>sessions = Map.empty, history_imports = [''ch'' \<mapsto> \<lparr>im_tenant = ''t'', im_importID = ''i'', im_batches = 0,
         im_skipped = [], im_finished = None, im_touched = 0\<rparr>]\<rparr>, ip_log = [], ip_world = w\<rparr>"

lemma demo_waits_end: "waits_end demo_import_env (\<lambda>w. w)"
  by (simp add: waits_end_def demo_import_env_def)

theorem Import_returns_witness: "Import demo_import_env ''ch'' () (demo_import_state 5) \<noteq> None"
  by (rule Import_returns [OF demo_waits_end])

definition demo_active :: HistoryImport where
  "demo_active = \<lparr>hi_tenantID = ''t'', hi_importID = ''i'', hi_batches = 0, hi_skippedChats = 0, hi_finished = False\<rparr>"

definition demo_data :: history_data where
  "demo_data = \<lparr>hs_SyncType = Recent, hs_ChunkOrder = 1, hs_Progress = 100\<rparr>"

definition demo_chats :: "HistoryChat list" where
  "demo_chats = [\<lparr>hc_phone = ''1'', hc_lid = None, hc_profileName = None, hc_messages = [''a'']\<rparr>]"


end
