(* ===== verification/HistoryTranslate.thy ===== *)
theory HistoryTranslate
  imports HistoryImporter StatusEvents
begin

text \<open>
  The translation of a downloaded history chunk (internal/history/translate.go and
  internal/history/message.go): which conversations and messages are kept, in which order, and what is
  counted. Parsing a web message belongs to the client library; building the inbound event of a
  message (internal/mapper) and the JSON codec are parameters, the former per candidate, because the
  workers build concurrently.
\<close>

section \<open>Input\<close>

text \<open>The parts of a parsed message that the translation reads or sets; \<open>he_body\<close> is the rest.\<close>

record 'x history_event =
  he_has_message :: bool
  he_IsEdit :: bool
  he_Timestamp :: int
  he_IsFromMe :: bool
  he_SenderAlt :: jid
  he_RecipientAlt :: jid
  he_body :: 'x

record 'm conversation =
  cv_ID :: string
  cv_PnJID :: string
  cv_LidJID :: string
  cv_Messages :: "'m list"

record ('m, 'x, 'i) translate_deps =
  td_lib :: walib
  td_resolver :: resolver
  td_ParseWebMessage :: "jid \<Rightarrow> 'm \<Rightarrow> 'x history_event result"
  td_build :: "nat \<Rightarrow> 'x history_event \<Rightarrow> 'i result"
  td_type :: "'i \<Rightarrow> string"
  td_profile :: "'i \<Rightarrow> string"
  td_encode :: "'i \<Rightarrow> string result"

definition ChangesAnotherMessage :: "string \<Rightarrow> bool" where
  "ChangesAnotherMessage ty = (ty \<in> {''reaction'', ''edit'', ''revoke'', ''poll_vote''})"

definition optional :: "string \<Rightarrow> string option" where
  "optional value = (if value = [] then None else Some value)"

definition chatAlt :: "walib \<Rightarrow> jid \<Rightarrow> 'm conversation \<Rightarrow> jid" where
  "chatAlt lib chat conv =
     (let raw = (if jid_server chat = DefaultUserServer then cv_LidJID conv else cv_PnJID conv) in
      if raw = [] then empty_jid else (case parse_jid lib raw of Inl err \<Rightarrow> empty_jid | Inr alt \<Rightarrow> alt))"

definition withChatAlt :: "jid \<Rightarrow> 'x history_event \<Rightarrow> 'x history_event" where
  "withChatAlt alt evt = (if he_IsFromMe evt then evt\<lparr>he_RecipientAlt := alt\<rparr> else evt\<lparr>he_SenderAlt := alt\<rparr>)"

section \<open>Selecting\<close>

record 'x selection =
  sx_headers :: "HistoryChat list"
  sx_candidates :: "(nat \<times> 'x history_event) list"
  sx_outOfWindow :: nat
  sx_skipped :: nat
  sx_withoutPhone :: "string list"

definition select_start :: "'x selection" where
  "select_start = \<lparr>sx_headers = [], sx_candidates = [], sx_outOfWindow = 0, sx_skipped = 0, sx_withoutPhone = []\<rparr>"

text \<open>The loop over the messages of a conversation whose header is at \<open>index\<close>.\<close>

definition select_message ::
  "('m, 'x, 'i) translate_deps \<Rightarrow> int \<Rightarrow> jid \<Rightarrow> jid \<Rightarrow> nat \<Rightarrow> 'x selection \<Rightarrow> 'm \<Rightarrow> 'x selection" where
  "select_message td oldest chat alt index r item =
     (case td_ParseWebMessage td chat item of
        Inl err \<Rightarrow> r\<lparr>sx_skipped := sx_skipped r + 1\<rparr>
      | Inr evt \<Rightarrow>
          if \<not> he_has_message evt \<or> he_IsEdit evt then r\<lparr>sx_skipped := sx_skipped r + 1\<rparr>
          else if he_Timestamp evt < oldest then r\<lparr>sx_outOfWindow := sx_outOfWindow r + 1\<rparr>
          else r\<lparr>sx_candidates := sx_candidates r @ [(index, withChatAlt alt evt)]\<rparr>)"

definition select_conversation ::
  "('m, 'x, 'i) translate_deps \<Rightarrow> int \<Rightarrow> 'x selection \<Rightarrow> 'm conversation \<Rightarrow> 'x selection" where
  "select_conversation td oldest r conv =
     (case parse_jid (td_lib td) (cv_ID conv) of
        Inl err \<Rightarrow> r\<lparr>sx_skipped := sx_skipped r + length (cv_Messages conv)\<rparr>
      | Inr chat \<Rightarrow>
          if KindOf chat \<noteq> ChatPrivate then r\<lparr>sx_skipped := sx_skipped r + length (cv_Messages conv)\<rparr>
          else
            (let alt = chatAlt (td_lib td) chat conv in
             case Resolve (td_resolver td) chat alt of
               (lid, pn) \<Rightarrow>
                 if pn = [] then r\<lparr>sx_withoutPhone := sx_withoutPhone r @ [cv_ID conv]\<rparr>
                 else
                   foldl (select_message td oldest chat alt (length (sx_headers r)))
                     (r\<lparr>sx_headers := sx_headers r @ [\<lparr>hc_phone = pn, hc_lid = optional lid, hc_profileName = None, hc_messages = []\<rparr>]\<rparr>)
                     (cv_Messages conv)))"

section \<open>Building\<close>

definition buildOne :: "('m, 'x, 'i) translate_deps \<Rightarrow> nat \<Rightarrow> 'x history_event \<Rightarrow> 'i option" where
  "buildOne td n evt =
     (case td_build td n evt of
        Inl err \<Rightarrow> None
      | Inr out \<Rightarrow> if ChangesAnotherMessage (td_type td out) then None else Some out)"

text \<open>The workers fill one slot per candidate, whatever the order in which they take them.\<close>

definition buildAll :: "('m, 'x, 'i) translate_deps \<Rightarrow> (nat \<times> 'x history_event) list \<Rightarrow> 'i option list" where
  "buildAll td candidates = map (\<lambda>(n, (chat, evt)). buildOne td n evt) (enumerate 0 candidates)"

text \<open>The built messages of a chat, in the order of the candidates.\<close>

definition messages_of :: "nat \<Rightarrow> (nat \<times> 'x history_event) list \<Rightarrow> 'i option list \<Rightarrow> 'i list" where
  "messages_of chat candidates built =
     List.map_filter (\<lambda>((c, evt), b). if c = chat then b else None) (zip candidates built)"

fun withMessages_from :: "('m, 'x, 'i) translate_deps \<Rightarrow> HistoryChat \<Rightarrow> 'i list \<Rightarrow> HistoryChat result" where
  "withMessages_from td chat [] = Inr chat"
| "withMessages_from td chat (evt # rest) =
     (let chat1 = (if hc_profileName chat = None then chat\<lparr>hc_profileName := optional (td_profile td evt)\<rparr> else chat) in
      case td_encode td evt of
        Inl err \<Rightarrow> Inl err
      | Inr raw \<Rightarrow> withMessages_from td (chat1\<lparr>hc_messages := hc_messages chat1 @ [raw]\<rparr>) rest)"

definition withMessages :: "('m, 'x, 'i) translate_deps \<Rightarrow> HistoryChat \<Rightarrow> 'i list \<Rightarrow> HistoryChat result" where
  "withMessages td header built = withMessages_from td (header\<lparr>hc_messages := []\<rparr>) built"

fun translate_chats ::
  "('m, 'x, 'i) translate_deps \<Rightarrow> (HistoryChat \<times> 'i list) list \<Rightarrow> (HistoryChat list \<times> int) result" where
  "translate_chats td [] = Inr ([], 0)"
| "translate_chats td ((header, evts) # rest) =
     (if evts = [] then translate_chats td rest
      else
        (case withMessages td header evts of
           Inl err \<Rightarrow> Inl err
         | Inr chat \<Rightarrow>
             (case translate_chats td rest of
                Inl err \<Rightarrow> Inl err
              | Inr (chats, n) \<Rightarrow> Inr (chat # chats, n + int (length (hc_messages chat))))))"

definition Translate ::
  "(int \<Rightarrow> string) \<Rightarrow> ('m, 'x, 'i) translate_deps \<Rightarrow> 'm conversation list \<Rightarrow> Limits \<Rightarrow> int \<Rightarrow> Translation result" where
  "Translate show_duration td conversations limits now =
     (case limits_validate show_duration limits of
        Some err \<Rightarrow> Inl err
      | None \<Rightarrow>
          (let r = foldl (select_conversation td (now - lm_Window limits)) select_start conversations;
               built = buildAll td (sx_candidates r);
               unbuilt = length (filter (\<lambda>b. b = None) built)
           in case translate_chats td
                 (map (\<lambda>(n, h). (h, messages_of n (sx_candidates r) built)) (enumerate 0 (sx_headers r))) of
                Inl err \<Rightarrow> Inl err
              | Inr (chats, n) \<Rightarrow>
                  Inr \<lparr>tr_Chats = chats, tr_Messages = n, tr_OutOfWindow = int (sx_outOfWindow r),
                    tr_Skipped = int (sx_skipped r + unbuilt), tr_ChatsWithoutPhone = sx_withoutPhone r\<rparr>))"

section \<open>Accounting\<close>

definition without_phone :: "('m, 'x, 'i) translate_deps \<Rightarrow> 'm conversation \<Rightarrow> bool" where
  "without_phone td conv =
     (case parse_jid (td_lib td) (cv_ID conv) of
        Inl err \<Rightarrow> False
      | Inr chat \<Rightarrow> KindOf chat = ChatPrivate \<and> snd (Resolve (td_resolver td) chat (chatAlt (td_lib td) chat conv)) = [])"

definition counted :: "'x selection \<Rightarrow> nat" where
  "counted r = length (sx_candidates r) + sx_outOfWindow r + sx_skipped r"

definition indices_ok :: "'x selection \<Rightarrow> bool" where
  "indices_ok r \<longleftrightarrow> list_all (\<lambda>(c, evt). c < length (sx_headers r)) (sx_candidates r) \<and>
     list_all (\<lambda>h. hc_messages h = []) (sx_headers r)"

lemma select_messages_counted:
  assumes "indices_ok r" "index < length (sx_headers r)"
  shows "counted (foldl (select_message td oldest chat alt index) r items) = counted r + length items \<and>
    indices_ok (foldl (select_message td oldest chat alt index) r items) \<and>
    sx_headers (foldl (select_message td oldest chat alt index) r items) = sx_headers r \<and>
    sx_withoutPhone (foldl (select_message td oldest chat alt index) r items) = sx_withoutPhone r"
proof (induction items rule: rev_induct)
  case Nil
  then show ?case using assms(1) by simp
next
  case (snoc x xs)
  then show ?case
    using assms(2) by (auto simp: select_message_def counted_def indices_ok_def split: sum.split)
qed

lemma select_conversation_counted:
  assumes "indices_ok r"
  shows "counted (select_conversation td oldest r conv) + (if without_phone td conv then length (cv_Messages conv) else 0)
      = counted r + length (cv_Messages conv) \<and>
    indices_ok (select_conversation td oldest r conv) \<and>
    sx_withoutPhone (select_conversation td oldest r conv) =
      sx_withoutPhone r @ (if without_phone td conv then [cv_ID conv] else [])"
proof (cases "parse_jid (td_lib td) (cv_ID conv)")
  case (Inl err)
  then show ?thesis using assms by (simp add: select_conversation_def without_phone_def counted_def indices_ok_def)
next
  case (Inr chat)
  show ?thesis
  proof (cases "KindOf chat = ChatPrivate")
    case False
    then show ?thesis using Inr assms by (simp add: select_conversation_def without_phone_def counted_def indices_ok_def)
  next
    case True
    let ?alt = "chatAlt (td_lib td) chat conv"
    obtain lid pn where rs: "Resolve (td_resolver td) chat ?alt = (lid, pn)" by fastforce
    show ?thesis
    proof (cases "pn = []")
      case pn: True
      then show ?thesis using Inr True rs assms
        by (simp add: select_conversation_def without_phone_def counted_def indices_ok_def Let_def)
    next
      case False
      define r1 where "r1 = r\<lparr>sx_headers := sx_headers r @ [\<lparr>hc_phone = pn, hc_lid = optional lid, hc_profileName = None, hc_messages = []\<rparr>]\<rparr>"
      have i1: "indices_ok r1" using assms by (auto simp: indices_ok_def r1_def list_all_iff)
      have "select_conversation td oldest r conv =
          foldl (select_message td oldest chat ?alt (length (sx_headers r))) r1 (cv_Messages conv)"
        using Inr True rs False by (simp add: select_conversation_def Let_def r1_def)
      moreover have "\<not> without_phone td conv" using Inr True rs False by (simp add: without_phone_def)
      moreover have "counted r1 = counted r" "sx_withoutPhone r1 = sx_withoutPhone r" by (simp_all add: counted_def r1_def)
      ultimately show ?thesis
        using select_messages_counted [OF i1, of "length (sx_headers r)" td oldest chat ?alt "cv_Messages conv"] by (simp add: r1_def)
    qed
  qed
qed

lemma select_all_counted:
  "counted (foldl (select_conversation td oldest) select_start convs) +
     (\<Sum>c\<leftarrow>filter (without_phone td) convs. length (cv_Messages c)) = (\<Sum>c\<leftarrow>convs. length (cv_Messages c)) \<and>
   indices_ok (foldl (select_conversation td oldest) select_start convs) \<and>
   sx_withoutPhone (foldl (select_conversation td oldest) select_start convs) = map cv_ID (filter (without_phone td) convs)"
proof (induction convs rule: rev_induct)
  case Nil
  show ?case by (simp add: counted_def select_start_def indices_ok_def)
next
  case (snoc c cs)
  then show ?case
    using select_conversation_counted [of "foldl (select_conversation td oldest) select_start cs" td oldest c]
    by (cases "without_phone td c") simp_all
qed

lemma messages_of_sum:
  assumes "length built = length cands" "list_all (\<lambda>(c, evt). c < h) cands"
  shows "(\<Sum>n\<leftarrow>[0..<h]. length (messages_of n cands built)) = length (filter (\<lambda>b. b \<noteq> None) built)"
  using assms
proof (induction built cands rule: list_induct2)
  case Nil
  show ?case by (simp add: messages_of_def map_filter_simps)
next
  case (Cons b built ce cands)
  obtain c e where ce: "ce = (c, e)" by fastforce
  have c: "c < h" using Cons.prems ce by simp
  have step: "length (messages_of n ((c, e) # cands) (b # built)) =
      (if n = c \<and> b \<noteq> None then 1 else 0) + length (messages_of n cands built)" for n
    by (cases b) (auto simp: messages_of_def map_filter_simps)
  have one: "(\<Sum>n\<leftarrow>[0..<k]. if n = c then 1 else (0::nat)) = (if c < k then 1 else 0)" for k
    by (induction k) auto
  have "(\<Sum>n\<leftarrow>[0..<h]. length (messages_of n ((c, e) # cands) (b # built))) =
      (\<Sum>n\<leftarrow>[0..<h]. if n = c \<and> b \<noteq> None then 1 else 0) + (\<Sum>n\<leftarrow>[0..<h]. length (messages_of n cands built))"
    by (simp only: step sum_list_addf)
  with Cons c one [of h] show ?case by (cases b) (simp_all add: ce)
qed

lemma withMessages_from_length:
  "withMessages_from td chat evts = Inr c \<Longrightarrow> length (hc_messages c) = length (hc_messages chat) + length evts"
proof (induction evts arbitrary: chat)
  case (Cons e es)
  obtain raw where raw: "td_encode td e = Inr raw" using Cons.prems by (auto simp: Let_def split: sum.splits)
  define chat1 where "chat1 = (if hc_profileName chat = None then chat\<lparr>hc_profileName := optional (td_profile td e)\<rparr> else chat)"
  have "withMessages_from td (chat1\<lparr>hc_messages := hc_messages chat1 @ [raw]\<rparr>) es = Inr c"
    using Cons.prems raw by (simp only: withMessages_from.simps Let_def chat1_def sum.case)
  from Cons.IH [OF this] show ?case by (simp add: chat1_def)
qed simp

lemma withMessages_length: "withMessages td header evts = Inr c \<Longrightarrow> length (hc_messages c) = length evts"
  unfolding withMessages_def by (drule withMessages_from_length) simp

lemma translate_chats_length:
  assumes "translate_chats td hs = Inr (chats, n)" "list_all (\<lambda>(h, evts). hc_messages h = []) hs"
  shows "n = int (\<Sum>(h, evts)\<leftarrow>hs. length evts) \<and> n = int (\<Sum>c\<leftarrow>chats. length (hc_messages c)) \<and>
    list_all (\<lambda>c. hc_messages c \<noteq> []) chats"
  using assms
proof (induction td hs arbitrary: chats n rule: translate_chats.induct)
  case (2 td header evts rest)
  show ?case
  proof (cases "evts = []")
    case True
    then show ?thesis using 2 by simp
  next
    case False
    from 2(3) False obtain chat cs k where c: "withMessages td header evts = Inr chat" "translate_chats td rest = Inr (cs, k)"
      "chats = chat # cs" "n = k + int (length (hc_messages chat))" by (auto split: sum.splits)
    from withMessages_length [OF c(1)] have l: "length (hc_messages chat) = length evts" by simp
    with False have "hc_messages chat \<noteq> []" by auto
    with 2(2) [OF False c(1,2)] 2(4) c l show ?thesis by simp
  qed
qed simp

section \<open>Properties\<close>


definition demo_translate_deps :: "(nat, unit, string) translate_deps" where
  "demo_translate_deps =
     \<lparr>td_lib = \<lparr>parse_jid = (\<lambda>s. Inr \<lparr>jid_user = s, jid_server = DefaultUserServer, jid_device = 0\<rparr>), jid_string = jid_user, to_non_ad = (\<lambda>j. j)\<rparr>,
      td_resolver = None,
      td_ParseWebMessage = (\<lambda>chat m. if m = 0 then Inl (Err EText ''bad'') else
        Inr \<lparr>he_has_message = True, he_IsEdit = False, he_Timestamp = int m, he_IsFromMe = False, he_SenderAlt = empty_jid,
          he_RecipientAlt = empty_jid, he_body = ()\<rparr>),
      td_build = (\<lambda>n e. Inr (show_int (he_Timestamp e))), td_type = (\<lambda>i. ''text''), td_profile = (\<lambda>i. []), td_encode = Inr\<rparr>"


end
