(* ===== verification/WaMessage.thy ===== *)
theory WaMessage
  imports Contracts
begin

text \<open>
  The WhatsApp messages (waE2E.Message of the client library) as far as internal/mapper reads or writes
  them. A pointer is an option and a getter of a nil pointer gives the zero value. A string that is
  only read is kept as what its getter gives; one that the gateway also writes is an option. Image,
  video, audio, document and sticker messages share their fields, and a key is its id.
\<close>

datatype ad_media = AdOther | AdImage | AdVideo

record ad_reply =
  wad_CtwaClid :: string
  wad_SourceID :: string
  wad_SourceType :: string
  wad_SourceURL :: string
  wad_Title :: string
  wad_Body :: string
  wad_MediaType :: ad_media
  wad_MediaURL :: string
  wad_ThumbnailURL :: string
  wad_Thumbnail :: string

text \<open>The quoted message, which the gateway writes and never reads, is a conversation.\<close>

record context_info =
  wci_StanzaID :: "string option"
  wci_Participant :: "string option"
  wci_QuotedMessage :: "string option"
  wci_MentionedJID :: "string list"
  wci_IsForwarded :: "bool option"
  wci_ForwardingScore :: "nat option"
  wci_ExternalAdReply :: "ad_reply option"
  wci_ConversionSource :: string
  wci_EntryPointConversionSource :: string

record wa_media =
  wmd_URL :: "string option"
  wmd_DirectPath :: "string option"
  wmd_MediaKey :: string
  wmd_Mimetype :: "string option"
  wmd_FileEncSHA256 :: string
  wmd_FileSHA256 :: string
  wmd_FileLength :: "nat option"
  wmd_Caption :: "string option"
  wmd_FileName :: "string option"
  wmd_PTT :: "bool option"
  wmd_Seconds :: "32 word option"
  wmd_Waveform :: string
  wmd_ContextInfo :: "context_info option"

record wa_extended =
  wet_Text :: "string option"
  wet_ContextInfo :: "context_info option"

record wa_location =
  wlo_DegreesLatitude :: float64
  wlo_DegreesLongitude :: float64
  wlo_Name :: "string option"
  wlo_Address :: "string option"
  wlo_ContextInfo :: "context_info option"

text \<open>A live location has a caption instead of a name and an address.\<close>

record wa_live_location =
  wll_DegreesLatitude :: float64
  wll_DegreesLongitude :: float64
  wll_Caption :: string
  wll_ContextInfo :: "context_info option"

record wa_contact =
  wct_DisplayName :: "string option"
  wct_Vcard :: "string option"
  wct_ContextInfo :: "context_info option"

record wa_contacts =
  wca_Contacts :: "wa_contact list"
  wca_ContextInfo :: "context_info option"

record wa_reaction =
  wrx_KeyID :: string
  wrx_Text :: string

text \<open>The answers to buttons, lists and templates: the text shown and the id selected.\<close>

record wa_reply =
  wre_Text :: string
  wre_ID :: string
  wre_ContextInfo :: "context_info option"

record wa_interactive_reply =
  wir_Body :: string
  wir_ParamsJSON :: string
  wir_Name :: string
  wir_ContextInfo :: "context_info option"

record wa_poll =
  wpo_Name :: string
  wpo_Options :: "string list"
  wpo_SelectableOptionsCount :: nat
  wpo_ContextInfo :: "context_info option"

record wa_buttons =
  wbm_ContentText :: string
  wbm_Text :: string
  wbm_FooterText :: string
  wbm_Buttons :: "(string \<times> string) list"
  wbm_ContextInfo :: "context_info option"

datatype hydrated_button = QuickReply string string | UrlButton string string | CallButton string string | OtherButton

record wa_hydrated =
  why_ContentText :: string
  why_TitleText :: string
  why_FooterText :: string
  why_Buttons :: "hydrated_button list"

record wa_list_row =
  wlr_RowID :: string
  wlr_Title :: string
  wlr_Description :: string

record wa_list_section =
  wls_Title :: string
  wls_Rows :: "wa_list_row list"

record wa_list =
  wlm_Description :: string
  wlm_ButtonText :: string
  wlm_FooterText :: string
  wlm_Sections :: "wa_list_section list"
  wlm_ContextInfo :: "context_info option"

record wa_native_button =
  wnb_Name :: string
  wnb_ButtonParamsJSON :: string

record wa_interactive =
  win_Body :: string
  win_Footer :: string
  win_Buttons :: "wa_native_button list"
  win_ContextInfo :: "context_info option"

record wa_template =
  wtm_Interactive :: "wa_interactive option"
  wtm_Hydrated :: "wa_hydrated option"
  wtm_HydratedFourRow :: "wa_hydrated option"
  wtm_ContextInfo :: "context_info option"

record wa_product =
  wpr_Title :: string
  wpr_Description :: string
  wpr_PriceAmount1000 :: int
  wpr_CurrencyCode :: string
  wpr_RetailerID :: string
  wpr_URL :: string
  wpr_ProductImage :: "wa_media option"
  wpr_ContextInfo :: "context_info option"

record wa_order =
  wor_OrderID :: string
  wor_OrderTitle :: string
  wor_ItemCount :: int
  wor_Status :: "int option"
  wor_TotalAmount1000 :: int
  wor_TotalCurrencyCode :: string
  wor_SellerJID :: string
  wor_Thumbnail :: string
  wor_ContextInfo :: "context_info option"

record wa_event =
  wev_Name :: string
  wev_Description :: string
  wev_LocationName :: string
  wev_LocationAddress :: string
  wev_JoinLink :: string
  wev_IsCanceled :: bool
  wev_IsScheduleCall :: bool
  wev_StartTime :: int
  wev_EndTime :: int
  wev_ContextInfo :: "context_info option"

record wa_invite =
  wgi_GroupName :: string
  wgi_Caption :: string
  wgi_InviteCode :: string
  wgi_ContextInfo :: "context_info option"

record wa_rich_response =
  wrr_Submessages :: "string list"
  wrr_ContextInfo :: "context_info option"

record wa_payment_request =
  wpq_Amount1000 :: nat
  wpq_CurrencyCode :: string

datatype protocol_type = REVOKE | MESSAGE_EDIT | OtherProtocol nat

record wa_protocol =
  wpm_KeyID :: string
  wpm_Type :: protocol_type

record wa_secret =
  wse_IsEdit :: bool
  wse_TargetID :: string

text \<open>The notices that produce no event.\<close>

datatype notice =
    MessageHistoryNotice | MessageHistoryBundle | EncReaction | EncComment | EncEventResponse | PinInChat | Placeholder
  | Album | GroupStatusV2 | GroupStatusMention | StatusMention

record content =
  m_Conversation :: "string option"
  m_ExtendedText :: "wa_extended option"
  m_Reaction :: "wa_reaction option"
  m_Image :: "wa_media option"
  m_Video :: "wa_media option"
  m_Audio :: "wa_media option"
  m_Document :: "wa_media option"
  m_Location :: "wa_location option"
  m_Contact :: "wa_contact option"
  m_ContactsArray :: "wa_contacts option"
  m_Sticker :: "wa_media option"
  m_Ptv :: "wa_media option"
  m_LiveLocation :: "wa_live_location option"
  m_ButtonsResponse :: "wa_reply option"
  m_ListResponse :: "wa_reply option"
  m_TemplateButtonReply :: "wa_reply option"
  m_InteractiveResponse :: "wa_interactive_reply option"
  m_PollCreation :: "wa_poll option"
  m_PollCreationV2 :: "wa_poll option"
  m_PollCreationV3 :: "wa_poll option"
  m_PollCreationV5 :: "wa_poll option"
  m_PollCreationV6 :: "wa_poll option"
  m_Buttons :: "wa_buttons option"
  m_Template :: "wa_template option"
  m_List :: "wa_list option"
  m_Interactive :: "wa_interactive option"
  m_Product :: "wa_product option"
  m_Order :: "wa_order option"
  m_Event :: "wa_event option"
  m_GroupInvite :: "wa_invite option"
  m_RichResponse :: "wa_rich_response option"
  m_RequestPayment :: "wa_payment_request option"
  m_Protocol :: "wa_protocol option"
  m_SecretEncrypted :: "wa_secret option"
  m_PollUpdate :: "string option"
  m_CommentTarget :: string
  m_Notices :: "notice list"

text \<open>
  The messages inside a message: the ten wrappers, the message of a comment, the new content of an
  edit and the note of a payment request.
\<close>

datatype nest =
    NEphemeral | NViewOnce | NViewOnceV2 | NViewOnceV2Extension | NDocumentWithCaption | NAssociatedChild | NBotForwarded
  | NGroupMentioned | NLottieSticker | NPollCreationV4 | NComment | NEdited | NNote

datatype message = Message (m_content: content) (m_nested: "nest \<Rightarrow> message option")

definition empty_content :: content where
  "empty_content =
     \<lparr>m_Conversation = None, m_ExtendedText = None, m_Reaction = None, m_Image = None, m_Video = None, m_Audio = None,
      m_Document = None, m_Location = None, m_Contact = None, m_ContactsArray = None, m_Sticker = None, m_Ptv = None,
      m_LiveLocation = None, m_ButtonsResponse = None, m_ListResponse = None, m_TemplateButtonReply = None,
      m_InteractiveResponse = None, m_PollCreation = None, m_PollCreationV2 = None, m_PollCreationV3 = None,
      m_PollCreationV5 = None, m_PollCreationV6 = None, m_Buttons = None, m_Template = None, m_List = None,
      m_Interactive = None, m_Product = None, m_Order = None, m_Event = None, m_GroupInvite = None, m_RichResponse = None,
      m_RequestPayment = None, m_Protocol = None, m_SecretEncrypted = None, m_PollUpdate = None, m_CommentTarget = [],
      m_Notices = []\<rparr>"

definition no_nested :: "nest \<Rightarrow> message option" where "no_nested = (\<lambda>n. None)"

lemma empty_content_fields [simp]:
  "m_Conversation empty_content = None" "m_ExtendedText empty_content = None" "m_Reaction empty_content = None"
  "m_Image empty_content = None" "m_Video empty_content = None" "m_Audio empty_content = None" "m_Document empty_content = None"
  "m_Location empty_content = None" "m_Contact empty_content = None" "m_ContactsArray empty_content = None"
  "m_Sticker empty_content = None" "m_Ptv empty_content = None" "m_LiveLocation empty_content = None"
  "m_ButtonsResponse empty_content = None" "m_ListResponse empty_content = None" "m_TemplateButtonReply empty_content = None"
  "m_InteractiveResponse empty_content = None" "m_PollCreation empty_content = None" "m_PollCreationV2 empty_content = None"
  "m_PollCreationV3 empty_content = None" "m_PollCreationV5 empty_content = None" "m_PollCreationV6 empty_content = None"
  "m_Buttons empty_content = None" "m_Template empty_content = None" "m_List empty_content = None"
  "m_Interactive empty_content = None" "m_Product empty_content = None" "m_Order empty_content = None"
  "m_Event empty_content = None" "m_GroupInvite empty_content = None" "m_RichResponse empty_content = None"
  "m_RequestPayment empty_content = None" "m_Protocol empty_content = None" "m_SecretEncrypted empty_content = None"
  "m_PollUpdate empty_content = None" "m_CommentTarget empty_content = []" "m_Notices empty_content = []"
  by (simp_all add: empty_content_def)

text \<open>Getters of a pointer that may be nil.\<close>

definition get_content :: "message option \<Rightarrow> content" where
  "get_content msg = (case msg of None \<Rightarrow> empty_content | Some m \<Rightarrow> m_content m)"

definition get_nested :: "nest \<Rightarrow> message option \<Rightarrow> message option" where
  "get_nested n msg = (case msg of None \<Rightarrow> None | Some m \<Rightarrow> m_nested m n)"

definition get_str :: "string option \<Rightarrow> string" where
  "get_str s = (case s of None \<Rightarrow> [] | Some x \<Rightarrow> x)"

lemma getters [simp]:
  "get_content None = empty_content" "get_content (Some (Message c f)) = c"
  "get_nested n None = None" "get_nested n (Some (Message c f)) = f n" "get_str None = []" "get_str (Some x) = x"
  "no_nested n = None"
  by (simp_all add: get_content_def get_nested_def get_str_def no_nested_def)

end
