(* ===== verification/Runes.thy ===== *)
theory Runes
  imports Prelude
begin

text \<open>
  Go's view of a string as runes: the UTF-8 decoding of a range loop or of \<open>[]rune(s)\<close> (an invalid
  byte decodes to U+FFFD and takes one byte), the encoding of \<open>string(runes)\<close>, and
  \<open>truncateRunes\<close> of internal/mapper/interactive.go. The lower-casing of strings.ToLower is kept only
  as far as ASCII is concerned: the two runes outside ASCII whose lower case is an ASCII letter are
  mapped, the others stay, which no comparison with an ASCII string notices.
\<close>

section \<open>Decoding and encoding\<close>

definition byte_val :: "char \<Rightarrow> nat" where "byte_val c = of_char c"

definition in_range :: "nat \<Rightarrow> nat \<Rightarrow> char \<Rightarrow> bool" where
  "in_range lo hi c = (lo \<le> byte_val c \<and> byte_val c \<le> hi)"

definition cont :: "char \<Rightarrow> nat" where "cont c = byte_val c mod 64"

text \<open>The range of the second byte, which excludes overlong forms, surrogates and runes above U+10FFFF.\<close>

definition second_range :: "nat \<Rightarrow> nat \<times> nat" where
  "second_range b =
     (if b = 0xE0 then (0xA0, 0xBF) else if b = 0xED then (0x80, 0x9F) else if b = 0xF0 then (0x90, 0xBF)
      else if b = 0xF4 then (0x80, 0x8F) else (0x80, 0xBF))"

definition rune_error :: nat where "rune_error = 0xFFFD"

definition decode_rune :: "string \<Rightarrow> nat \<times> nat" where
  "decode_rune s =
     (case s of
        [] \<Rightarrow> (rune_error, 0)
      | c0 # r \<Rightarrow>
          (let b = byte_val c0; (lo, hi) = second_range b in
           if b < 0x80 then (b, 1)
           else if b < 0xC2 \<or> 0xF4 < b then (rune_error, 1)
           else
             (case r of
                [] \<Rightarrow> (rune_error, 1)
              | c1 # r1 \<Rightarrow>
                  if \<not> in_range lo hi c1 then (rune_error, 1)
                  else if b < 0xE0 then (b mod 32 * 64 + cont c1, 2)
                  else
                    (case r1 of
                       [] \<Rightarrow> (rune_error, 1)
                     | c2 # r2 \<Rightarrow>
                         if \<not> in_range 0x80 0xBF c2 then (rune_error, 1)
                         else if b < 0xF0 then (b mod 16 * 4096 + cont c1 * 64 + cont c2, 3)
                         else
                           (case r2 of
                              [] \<Rightarrow> (rune_error, 1)
                            | c3 # r3 \<Rightarrow>
                                if \<not> in_range 0x80 0xBF c3 then (rune_error, 1)
                                else (b mod 8 * 262144 + cont c1 * 4096 + cont c2 * 64 + cont c3, 4))))))"

lemma decode_rune_width: "s \<noteq> [] \<Longrightarrow> 0 < snd (decode_rune s)"
  by (auto simp: decode_rune_def Let_def split: list.splits prod.splits)

function runes :: "string \<Rightarrow> nat list" where
  "runes [] = []"
| "runes (c # s) = fst (decode_rune (c # s)) # runes (drop (snd (decode_rune (c # s))) (c # s))"
  by pat_completeness auto
termination
proof (relation "measure length", goal_cases)
  case (2 c s)
  have "0 < snd (decode_rune (c # s))" by (rule decode_rune_width) simp
  then show ?case by (simp add: diff_less)
qed simp

declare runes.simps(2) [simp del]

definition valid_rune :: "nat \<Rightarrow> bool" where
  "valid_rune r \<longleftrightarrow> r < 0x110000 \<and> \<not> (0xD800 \<le> r \<and> r < 0xE000)"

definition encode_rune :: "nat \<Rightarrow> string" where
  "encode_rune r0 =
     (let r = (if valid_rune r0 then r0 else rune_error) in
      if r < 0x80 then [char_of r]
      else if r < 0x800 then [char_of (0xC0 + r div 64), char_of (0x80 + r mod 64)]
      else if r < 0x10000 then [char_of (0xE0 + r div 4096), char_of (0x80 + r div 64 mod 64), char_of (0x80 + r mod 64)]
      else [char_of (0xF0 + r div 262144), char_of (0x80 + r div 4096 mod 64), char_of (0x80 + r div 64 mod 64), char_of (0x80 + r mod 64)])"

definition string_of_runes :: "nat list \<Rightarrow> string" where
  "string_of_runes rs = concat (map encode_rune rs)"

definition truncateRunes :: "string \<Rightarrow> nat \<Rightarrow> string" where
  "truncateRunes s n = (let r = runes s in if length r \<le> n then s else string_of_runes (take n r))"

section \<open>ASCII case\<close>

definition lower_char :: "char \<Rightarrow> char" where
  "lower_char c = (if 65 \<le> byte_val c \<and> byte_val c \<le> 90 then char_of (byte_val c + 32) else c)"

definition lower_rune :: "nat \<Rightarrow> nat" where
  "lower_rune r = (if 65 \<le> r \<and> r \<le> 90 then r + 32 else if r = 0x212A then 107 else if r = 0x130 then 105 else r)"

definition ToLower :: "string \<Rightarrow> string" where
  "ToLower s = string_of_runes (map lower_rune (runes s))"

text \<open>strings.EqualFold with a string of ASCII letters whose folding classes are their two cases.\<close>

definition fold_ascii :: "string \<Rightarrow> string \<Rightarrow> bool" where
  "fold_ascii s t = (map lower_char s = map lower_char t)"

fun str_contains :: "string \<Rightarrow> string \<Rightarrow> bool" where
  "str_contains [] p = (p = [])"
| "str_contains (c # s) p = (has_prefix (c # s) p \<or> str_contains s p)"

section \<open>Round trip\<close>

lemma byte_val_char_of [simp]: "n < 256 \<Longrightarrow> byte_val (char_of n) = n"
  by (simp add: byte_val_def)

lemma byte_val_less: "byte_val c < 256"
  by (simp add: byte_val_def)

lemma mod_offset: "q * m \<le> v \<Longrightarrow> v < q * m + m \<Longrightarrow> v mod m = v - q * m" for v m q :: nat
  by (metis add_diff_inverse_nat leD mod_less mod_mult_self3 nat_add_left_cancel_less)

lemma cont_in_range: "0x80 \<le> byte_val c \<Longrightarrow> byte_val c \<le> 0xBF \<Longrightarrow> cont c = byte_val c - 0x80"
  using mod_offset [of 2 64 "byte_val c"] by (simp add: cont_def)

lemma cont_char_of [simp]: "n < 64 \<Longrightarrow> cont (char_of (0x80 + n)) = n"
  by (simp add: cont_in_range)

lemma cont_less [simp]: "cont c < 64"
  by (simp add: cont_def)

lemma lead2: "0xC0 \<le> b \<Longrightarrow> b < 0xE0 \<Longrightarrow> b mod 32 = b - 0xC0" for b :: nat
  using mod_offset [of 6 32 b] by simp

lemma lead3: "0xE0 \<le> b \<Longrightarrow> b < 0xF0 \<Longrightarrow> b mod 16 = b - 0xE0" for b :: nat
  using mod_offset [of 14 16 b] by simp

lemma lead4: "0xF0 \<le> b \<Longrightarrow> b < 0xF8 \<Longrightarrow> b mod 8 = b - 0xF0" for b :: nat
  using mod_offset [of 30 8 b] by simp

lemma split_64: "r = r div 64 * 64 + r mod 64" for r :: nat
  by simp

lemma decode_encode_3:
  assumes "valid_rune r" "0x800 \<le> r" "r < 0x10000"
  shows "decode_rune (char_of (0xE0 + r div 4096) # char_of (0x80 + r div 64 mod 64) # char_of (0x80 + r mod 64) # s) = (r, 3)"
proof -
  define a where "a = r div 4096"
  define b where "b = r div 64 mod 64"
  define c where "c = r mod 64"
  have "r = r div 64 * 64 + c" "r div 64 = a * 64 + b"
    unfolding a_def b_def c_def using split_64 [of "r div 64"] by (simp_all only: split_64 div_mult2_eq [of r 64 64, simplified])
  then have r: "r = a * 4096 + b * 64 + c" by simp
  have bc: "b < 64" "c < 64" by (simp_all add: b_def c_def)
  have a: "a < 16" using assms(3) by (simp add: a_def)
  have lo: "a = 0 \<Longrightarrow> 32 \<le> b" "a = 13 \<Longrightarrow> b < 32" using assms r bc by (auto simp: valid_rune_def)
  have "in_range (fst (second_range (0xE0 + a))) (snd (second_range (0xE0 + a))) (char_of (0x80 + b))"
    using a bc lo by (auto simp: in_range_def second_range_def)
  moreover have "(0xE0 + a) mod 16 = a" using a by (simp add: lead3)
  ultimately show ?thesis
    using a bc
    by (simp add: decode_rune_def a_def [symmetric] b_def [symmetric] c_def [symmetric] r [symmetric] in_range_def split_def Let_def)
qed

lemma decode_encode_4:
  assumes "valid_rune r" "0x10000 \<le> r"
  shows "decode_rune (char_of (0xF0 + r div 262144) # char_of (0x80 + r div 4096 mod 64) # char_of (0x80 + r div 64 mod 64) #
    char_of (0x80 + r mod 64) # s) = (r, 4)"
proof -
  define a where "a = r div 262144"
  define b where "b = r div 4096 mod 64"
  define c where "c = r div 64 mod 64"
  define d where "d = r mod 64"
  have "r = r div 64 * 64 + d" "r div 64 = r div 4096 * 64 + c" "r div 4096 = a * 64 + b"
    unfolding a_def b_def c_def d_def using split_64 [of "r div 64"] split_64 [of "r div 4096"]
    by (simp_all only: split_64 div_mult2_eq [of r 64 64, simplified] div_mult2_eq [of r 4096 64, simplified])
  then have r: "r = a * 262144 + b * 4096 + c * 64 + d" by simp
  have bcd: "b < 64" "c < 64" "d < 64" by (simp_all add: b_def c_def d_def)
  have a: "a < 5" using assms(1) by (simp add: a_def valid_rune_def less_mult_imp_div_less)
  have lo: "a = 0 \<Longrightarrow> 16 \<le> b" "a = 4 \<Longrightarrow> b < 16" using assms r bcd by (auto simp: valid_rune_def)
  have "in_range (fst (second_range (0xF0 + a))) (snd (second_range (0xF0 + a))) (char_of (0x80 + b))"
    using a bcd lo by (auto simp: in_range_def second_range_def)
  moreover have "(0xF0 + a) mod 8 = a" using a by (simp add: lead4)
  ultimately show ?thesis
    using a bcd
    by (simp add: decode_rune_def a_def [symmetric] b_def [symmetric] c_def [symmetric] d_def [symmetric] r [symmetric]
        in_range_def split_def Let_def)
qed

lemma decode_encode:
  assumes "valid_rune r"
  shows "decode_rune (encode_rune r @ s) = (r, length (encode_rune r))"
proof -
  consider "r < 0x80" | "0x80 \<le> r" "r < 0x800" | "0x800 \<le> r" "r < 0x10000" | "0x10000 \<le> r" by linarith
  then show ?thesis
  proof cases
    case 1
    then show ?thesis using assms by (simp add: encode_rune_def decode_rune_def Let_def split_def)
  next
    case 2
    have q: "r div 64 < 32" "2 \<le> r div 64" using 2 by simp_all
    have "(0xC0 + r div 64) mod 32 = r div 64" using q by (simp add: lead2)
    moreover have "second_range (0xC0 + r div 64) = (0x80, 0xBF)" using q by (simp add: second_range_def)
    ultimately show ?thesis using 2 assms q by (simp add: encode_rune_def decode_rune_def Let_def in_range_def)
  next
    case 3
    then show ?thesis using decode_encode_3 [OF assms] assms by (simp add: encode_rune_def)
  next
    case 4
    then show ?thesis using decode_encode_4 [OF assms] assms by (simp add: encode_rune_def)
  qed
qed

lemma encode_rune_nonempty [simp]: "encode_rune r \<noteq> []"
  by (simp add: encode_rune_def Let_def)

lemma runes_encode: "valid_rune r \<Longrightarrow> runes (encode_rune r @ s) = r # runes s"
proof -
  assume v: "valid_rune r"
  obtain c t where ct: "encode_rune r @ s = c # t" by (cases "encode_rune r @ s") simp_all
  have "drop (length (encode_rune r)) (c # t) = s" unfolding ct [symmetric] by simp
  then show ?thesis using decode_encode [OF v, of s] unfolding ct runes.simps(2) by simp
qed

lemma runes_string_of_runes: "list_all valid_rune rs \<Longrightarrow> runes (string_of_runes rs) = rs"
  by (induction rs) (simp_all add: string_of_runes_def runes_encode)

lemma rune3_valid:
  assumes "a = 13 \<Longrightarrow> b < 32" "a < 16" "b < 64" "c < 64"
  shows "valid_rune (a * 4096 + b * 64 + c)"
proof -
  consider "a < 13" | "a = 13" | "13 < a" by linarith
  then show ?thesis
  proof cases
    case 2
    then show ?thesis using assms(1) assms(4) by (simp add: valid_rune_def)
  qed (use assms(2-4) in \<open>simp_all add: valid_rune_def\<close>)
qed

lemma rune4_valid:
  assumes "a = 0 \<Longrightarrow> 16 \<le> b" "a = 4 \<Longrightarrow> b < 16" "a < 5" "b < 64" "c < 64" "d < 64"
  shows "valid_rune (a * 262144 + b * 4096 + c * 64 + d)"
proof -
  consider "a = 0" | "0 < a" "a < 4" | "a = 4" using assms(3) by linarith
  then show ?thesis by cases (use assms in \<open>simp_all add: valid_rune_def\<close>)
qed

lemma decode_rune_valid: "valid_rune (fst (decode_rune s))"
proof -
  have err: "valid_rune rune_error" by (simp add: valid_rune_def rune_error_def)
  show ?thesis
  proof (cases s)
    case Nil
    then show ?thesis using err by (simp add: decode_rune_def)
  next
    case (Cons c0 r)
    define b where "b = byte_val c0"
    have b8: "b < 256" by (simp add: b_def byte_val_less)
    have three: "valid_rune (b mod 16 * 4096 + cont c1 * 64 + cont c2)"
      if c1: "in_range (fst (second_range b)) (snd (second_range b)) c1" and b: "0xE0 \<le> b" "b < 0xF0" for c1 c2
    proof -
      have "cont c1 < 32" if "b mod 16 = 13"
      proof -
        from that b have "b = 237" by (simp add: lead3)
        with c1 have "128 \<le> byte_val c1 \<and> byte_val c1 \<le> 159" by (simp add: in_range_def second_range_def)
        then show ?thesis by (simp add: cont_in_range) linarith
      qed
      moreover have "b mod 16 < 16" by simp
      ultimately show ?thesis using cont_less [of c1] cont_less [of c2] by (intro rune3_valid)
    qed
    have four: "valid_rune (b mod 8 * 262144 + cont c1 * 4096 + cont c2 * 64 + cont c3)"
      if c1: "in_range (fst (second_range b)) (snd (second_range b)) c1" and b: "0xF0 \<le> b" "b \<le> 0xF4" for c1 c2 c3
    proof -
      have "b mod 8 = 0 \<Longrightarrow> b = 240" "b mod 8 = 4 \<Longrightarrow> b = 244" using b by (simp_all add: lead4)
      then have "b mod 8 = 0 \<Longrightarrow> 16 \<le> cont c1" "b mod 8 = 4 \<Longrightarrow> cont c1 < 16"
        using c1 by (simp_all add: in_range_def second_range_def cont_in_range) linarith+
      moreover have "b mod 8 < 5" using b by (simp add: lead4)
      ultimately show ?thesis using cont_less [of c1] cont_less [of c2] cont_less [of c3] by (intro rune4_valid)
    qed
    have two: "valid_rune (b mod 32 * 64 + cont c1)" for c1
    proof -
      have "b mod 32 < 32" "cont c1 < 64" by simp_all
      then show ?thesis unfolding valid_rune_def by linarith
    qed
    have one: "valid_rune b" if "b < 0x80" using that by (simp add: valid_rune_def)
    show ?thesis
      unfolding Cons decode_rune_def list.case b_def [symmetric] Let_def split_def
      using err one two three four by (auto split: list.split)
  qed
qed

lemma runes_valid: "list_all valid_rune (runes s)"
  by (induction s rule: runes.induct) (simp_all add: runes.simps(2) decode_rune_valid)

lemma truncateRunes_runes_take: "runes (truncateRunes s n) = take n (runes s)"
proof -
  have "list_all valid_rune (take n (runes s))" using runes_valid [of s] by (auto simp: list_all_iff dest: in_set_takeD)
  then show ?thesis by (simp add: truncateRunes_def Let_def runes_string_of_runes)
qed

lemma truncateRunes_length: "length (runes (truncateRunes s n)) \<le> n"
  by (simp add: truncateRunes_runes_take)

lemma truncateRunes_twice [simp]: "truncateRunes (truncateRunes s n) n = truncateRunes s n"
  using truncateRunes_length [of s n] by (subst (1) truncateRunes_def) (simp add: Let_def)

lemma truncateRunes_Nil [simp]: "truncateRunes [] n = []"
  by (simp add: truncateRunes_def)

end
