(* ===== verification/PriceText.thy ===== *)
theory PriceText
  imports Runes
begin

text \<open>
  The texts of amounts and payments of internal/mapper/inbound.go: prices in the Brazilian format,
  phone numbers as Pix keys, the classification of native flow buttons and the details of a payment.
  An int64 is an integer whose wrap-around is written out; the decoding of a button's JSON is a
  parameter.
\<close>

section \<open>Prices\<close>

definition wrap64 :: "int \<Rightarrow> int" where
  "wrap64 i = (i + 2 ^ 63) mod 2 ^ 64 - 2 ^ 63"

text \<open>Division as Go does it, towards zero.\<close>

definition go_quot :: "int \<Rightarrow> int \<Rightarrow> int" where
  "go_quot a b = sgn a * sgn b * (\<bar>a\<bar> div \<bar>b\<bar>)"

function group_rest :: "string \<Rightarrow> string" where
  "group_rest s = (if s = [] then [] else CHR ''.'' # take 3 s @ group_rest (drop 3 s))"
  by pat_completeness auto
termination by (relation "measure length") (auto simp: diff_less)

declare group_rest.simps [simp del]

definition groupThousands :: "string \<Rightarrow> string" where
  "groupThousands digits =
     (let n = length digits in
      if n \<le> 3 then digits
      else (let lead = (if n mod 3 = 0 then 3 else n mod 3) in take lead digits @ group_rest (drop lead digits)))"

definition two_digits :: "nat \<Rightarrow> string" where
  "two_digits n = [digit_char (n div 10), digit_char (n mod 10)]"

definition formatProductPriceText :: "int \<Rightarrow> string \<Rightarrow> string" where
  "formatProductPriceText priceAmount1000 currency =
     (if priceAmount1000 = 0 then []
      else
        (let negative = priceAmount1000 < 0;
             q = go_quot priceAmount1000 10;
             cents = (if negative then - q else q);
             amount = groupThousands (show_int (go_quot cents 100)) @ '','' @ two_digits (nat (cents mod 100));
             amountText = (if negative then ''-'' @ amount else amount);
             symbol = (if currency = ''BRL'' then ''R$'' else currency)
         in if symbol = [] then amountText else symbol @ '' '' @ amountText))"

record paymentMoney =
  pm_Value :: int
  pm_Offset :: int

definition formatPaymentMoney :: "paymentMoney \<Rightarrow> string \<Rightarrow> string" where
  "formatPaymentMoney m currency =
     (if pm_Value m = 0 \<or> pm_Offset m = 0 then []
      else formatProductPriceText (wrap64 (go_quot (wrap64 (pm_Value m * 1000)) (pm_Offset m))) currency)"

section \<open>Pix keys\<close>

definition formatBrazilPhone :: "string \<Rightarrow> string" where
  "formatBrazilPhone raw =
     (let s = trim_prefix (filter is_digit raw) ''55'' in
      if length s = 11 then take 2 s @ '' '' @ take 5 (drop 2 s) @ ''-'' @ drop 7 s
      else if length s = 10 then take 2 s @ '' '' @ take 4 (drop 2 s) @ ''-'' @ drop 6 s
      else raw)"

definition formatPixKeyDisplay :: "string \<Rightarrow> string \<Rightarrow> string" where
  "formatPixKeyDisplay key keyType = (if fold_ascii keyType ''PHONE'' then formatBrazilPhone key else key)"

section \<open>Native flows\<close>

definition classifyNativeFlowName :: "string \<Rightarrow> string" where
  "classifyNativeFlowName name =
     (let lower = ToLower name in
      if str_contains lower ''pay'' \<or> str_contains lower ''payment'' \<or> str_contains lower ''pix'' \<or> str_contains lower ''order''
      then ''payment''
      else if str_contains lower ''cta_url'' \<or> str_contains lower ''open_url'' then ''cta''
      else if str_contains lower ''single_select'' then ''list''
      else if str_contains lower ''quick_reply'' then ''buttons''
      else ''other'')"

definition dominant_step :: "(string \<Rightarrow> nat) \<times> string \<times> nat \<Rightarrow> string \<Rightarrow> (string \<Rightarrow> nat) \<times> string \<times> nat" where
  "dominant_step acc f =
     (case acc of (counts, best, bestCount) \<Rightarrow>
        (let counts1 = counts(f := counts f + 1) in
         if counts1 f > bestCount then (counts1, f, counts1 f) else (counts1, best, bestCount)))"

definition dominantNativeFlow :: "string list \<Rightarrow> string" where
  "dominantNativeFlow flows =
     (case flows of [] \<Rightarrow> [] | f # fs \<Rightarrow> fst (snd (foldl dominant_step ((\<lambda>x. 0), f, 0) flows)))"

section \<open>Payments\<close>

record pixStaticCode =
  px_MerchantName :: string
  px_Key :: string
  px_KeyType :: string

record paymentOrderItem =
  pi_RetailerID :: string
  pi_Name :: string
  pi_Amount :: paymentMoney
  pi_Quantity :: int

text \<open>A payment setting is kept as its static code; the order as its status and items.\<close>

record paymentParams =
  pp_ReferenceID :: string
  pp_Currency :: string
  pp_TotalAmount :: paymentMoney
  pp_PaymentSettings :: "pixStaticCode option list"
  pp_OrderStatus :: string
  pp_OrderItems :: "paymentOrderItem list"

record InboundRichPaymentItem =
  ri_Name :: string
  ri_Quantity :: int
  ri_Amount :: string
  ri_RetailerID :: string

record InboundRichPayment =
  rp_Kind :: string
  rp_ReferenceID :: string
  rp_Amount :: string
  rp_PixKey :: string
  rp_PixKeyType :: string
  rp_PixKeyDisplay :: string
  rp_MerchantName :: string
  rp_Status :: string
  rp_CopyLabel :: string
  rp_Items :: "InboundRichPaymentItem list"

definition classifyPaymentKind :: "string \<Rightarrow> string" where
  "classifyPaymentKind buttonName =
     (let lower = ToLower buttonName in
      if lower = ''payment_info'' then ''key'' else if lower = ''review_order'' then ''order'' else ''charge'')"

fun firstPixStaticCode :: "pixStaticCode option list \<Rightarrow> pixStaticCode option" where
  "firstPixStaticCode [] = None"
| "firstPixStaticCode (s # settings) =
     (case s of
        None \<Rightarrow> firstPixStaticCode settings
      | Some code \<Rightarrow> if px_Key code \<noteq> [] then Some code else firstPixStaticCode settings)"

definition payment_items :: "paymentParams \<Rightarrow> InboundRichPaymentItem list" where
  "payment_items p =
     map (\<lambda>it. \<lparr>ri_Name = pi_Name it, ri_Quantity = pi_Quantity it, ri_Amount = formatPaymentMoney (pi_Amount it) (pp_Currency p),
            ri_RetailerID = pi_RetailerID it\<rparr>)
       (filter (\<lambda>it. \<not> (pi_Name it = [] \<and> pi_Quantity it = 0)) (pp_OrderItems p))"

text \<open>The label has the UTF-8 bytes of the accented letter.\<close>

definition copy_label :: "string \<Rightarrow> string" where
  "copy_label kind = (if kind = ''key'' then ''Copiar chave Pix'' else ''Copiar c'' @ [CHR 0xC3, CHR 0xB3] @ ''digo Pix'')"

definition with_pix :: "pixStaticCode option \<Rightarrow> InboundRichPayment \<Rightarrow> InboundRichPayment" where
  "with_pix pix payment =
     (case pix of
        None \<Rightarrow> payment
      | Some x \<Rightarrow> payment\<lparr>rp_PixKey := px_Key x, rp_PixKeyType := px_KeyType x,
          rp_PixKeyDisplay := formatPixKeyDisplay (px_Key x) (px_KeyType x), rp_MerchantName := px_MerchantName x\<rparr>)"

definition parsePaymentDetails ::
  "(string \<Rightarrow> paymentParams result) \<Rightarrow> string \<Rightarrow> string \<Rightarrow> InboundRichPayment option" where
  "parsePaymentDetails unmarshal raw buttonName =
     (if raw = [] then None
      else
        (case unmarshal raw of
           Inl err \<Rightarrow> None
         | Inr p \<Rightarrow>
             (let payment0 = \<lparr>rp_Kind = classifyPaymentKind buttonName, rp_ReferenceID = pp_ReferenceID p,
                    rp_Amount = formatPaymentMoney (pp_TotalAmount p) (pp_Currency p), rp_PixKey = [], rp_PixKeyType = [],
                    rp_PixKeyDisplay = [], rp_MerchantName = [], rp_Status = pp_OrderStatus p, rp_CopyLabel = [], rp_Items = []\<rparr>;
                  payment1 = with_pix (firstPixStaticCode (pp_PaymentSettings p)) payment0;
                  payment2 = payment1\<lparr>rp_Items := payment_items p\<rparr>;
                  payment3 = (if rp_PixKey payment2 \<noteq> [] then payment2\<lparr>rp_CopyLabel := copy_label (rp_Kind payment2)\<rparr> else payment2)
              in if rp_Amount payment3 = [] \<and> rp_PixKey payment3 = [] \<and> rp_Items payment3 = [] \<and> rp_Status payment3 = []
                 then None else Some payment3)))"

section \<open>Facts\<close>

lemma dot_not_digit [simp]: "\<not> is_digit CHR ''.''" "\<not> is_digit CHR '',''" "\<not> is_digit CHR ''-''"
  by (simp_all add: is_digit_def)

lemma filter_all: "list_all P s \<Longrightarrow> filter P s = s"
  by (induction s) simp_all

lemma list_all_take_drop [simp]:
  "list_all P s \<Longrightarrow> list_all P (take k s)" "list_all P s \<Longrightarrow> list_all P (drop k s)"
  by (auto simp: list_all_iff dest: in_set_takeD in_set_dropD)

text \<open>Groups of three digits after a first group of one to three, separated by dots.\<close>

definition grouped :: "string \<Rightarrow> bool" where
  "grouped s \<longleftrightarrow> (\<exists>first gs. s = first @ concat (map (\<lambda>g. CHR ''.'' # g) gs) \<and> 0 < length first \<and> length first \<le> 3 \<and>
     list_all is_digit first \<and> list_all (\<lambda>g. length g = 3 \<and> list_all is_digit g) gs)"

lemma group_rest_groups:
  "list_all is_digit s \<Longrightarrow> length s mod 3 = 0 \<Longrightarrow>
   \<exists>gs. group_rest s = concat (map (\<lambda>g. CHR ''.'' # g) gs) \<and> concat gs = s \<and>
     list_all (\<lambda>g. length g = 3 \<and> list_all is_digit g) gs"
proof (induction s rule: group_rest.induct)
  case (1 s)
  show ?case
  proof (cases "s = []")
    case True
    then show ?thesis by (intro exI [of _ "[]"]) (simp add: group_rest.simps)
  next
    case False
    with 1(3) have l: "3 \<le> length s" by (cases "length s < 3") auto
    then have "length (drop 3 s) mod 3 = 0" using 1(3) by (simp add: le_mod_geq)
    from 1(1) [OF False _ this] 1(2) obtain gs where gs: "group_rest (drop 3 s) = concat (map (\<lambda>g. CHR ''.'' # g) gs)"
      "concat gs = drop 3 s" "list_all (\<lambda>g. length g = 3 \<and> list_all is_digit g) gs" by auto
    have "group_rest s = CHR ''.'' # take 3 s @ group_rest (drop 3 s)" using False by (subst group_rest.simps) simp
    then show ?thesis using gs l 1(2) by (intro exI [of _ "take 3 s # gs"]) simp
  qed
qed

lemma groupThousands_grouped:
  assumes "list_all is_digit s" "s \<noteq> []"
  shows "grouped (groupThousands s) \<and> filter is_digit (groupThousands s) = s"
proof (cases "length s \<le> 3")
  case True
  then have g: "groupThousands s = s" by (simp add: groupThousands_def)
  have "grouped s" unfolding grouped_def using assms True by (intro exI [of _ s] exI [of _ "[]"]) (simp add: Suc_le_eq)
  then show ?thesis using assms by (simp add: g filter_all)
next
  case False
  define lead where "lead = (if length s mod 3 = 0 then 3 else length s mod 3)"
  have lead: "0 < lead" "lead \<le> 3" "lead \<le> length s" "(length s - lead) mod 3 = 0"
    
  proof -
    have l: "3 < length s" using False by simp
    have m: "length s mod 3 < 3" by simp
    show "0 < lead" "lead \<le> 3" using m by (simp_all add: lead_def less_imp_le)
    show "lead \<le> length s" using l m by (simp add: lead_def)
    show "(length s - lead) mod 3 = 0" using l by (auto simp: lead_def le_mod_geq [symmetric] minus_mod_eq_mult_div)
  qed
  have g: "groupThousands s = take lead s @ group_rest (drop lead s)"
    using False by (simp add: groupThousands_def lead_def Let_def)
  obtain gs where gs: "group_rest (drop lead s) = concat (map (\<lambda>g. CHR ''.'' # g) gs)" "concat gs = drop lead s"
    "list_all (\<lambda>g. length g = 3 \<and> list_all is_digit g) gs"
    using group_rest_groups [of "drop lead s"] assms lead by auto
  have "grouped (groupThousands s)"
    unfolding grouped_def g gs(1) using gs(3) assms lead by (intro exI [of _ "take lead s"] exI [of _ gs]) simp
  moreover have "filter is_digit (concat (map (\<lambda>g. CHR ''.'' # g) gs)) = concat gs"
    using gs(3) by (induction gs) (simp_all add: filter_all)
  moreover have "filter is_digit (take lead s) = take lead s" using assms(1) by (simp add: filter_all)
  ultimately show ?thesis using gs(1,2) by (simp add: g)
qed

lemma show_int_digits: "0 \<le> i \<Longrightarrow> list_all is_digit (show_int i) \<and> nat_of_digits (show_int i) = nat i"
  by (simp add: show_int_def show_nat_digits)

lemma two_digits_val: "n < 100 \<Longrightarrow> nat_of_digits (two_digits n) = n \<and> list_all is_digit (two_digits n)"
  by (simp add: two_digits_def nat_of_digits_def)

lemma grouped_digits_nonempty: "0 \<le> i \<Longrightarrow> show_int i \<noteq> []"
  by (simp add: show_int_def)

lemma dominant_fold:
  "foldl dominant_step ((\<lambda>x. 0), f0, 0) fs = (c, best, n) \<Longrightarrow>
     (\<forall>f. c f = count_list fs f \<and> count_list fs f \<le> n) \<and> (if fs = [] then n = 0 else best \<in> set fs \<and> n = count_list fs best)"
proof (induction fs arbitrary: c best n rule: rev_induct)
  case (snoc x fs)
  obtain c0 b0 n0 where f: "foldl dominant_step ((\<lambda>x. 0), f0, 0) fs = (c0, b0, n0)" by (metis prod.exhaust)
  note IH = snoc.IH [OF f]
  have s: "dominant_step (c0, b0, n0) x = (c, best, n)" using snoc.prems f by simp
  show ?case
  proof (cases "c0 x + 1 > n0")
    case True
    then have "c = c0(x := c0 x + 1)" "best = x" "n = c0 x + 1" using s by (auto simp: dominant_step_def Let_def)
    then show ?thesis using IH True by (auto simp: le_SucI intro: le_trans)
  next
    case False
    then have e: "c = c0(x := c0 x + 1)" "best = b0" "n = n0" using s by (auto simp: dominant_step_def Let_def)
    have "fs \<noteq> []" using IH False by auto
    then have b0: "b0 \<in> set fs" "n0 = count_list fs b0" using IH by auto
    have "x \<noteq> b0" using IH False b0 by auto
    then show ?thesis using IH False b0 e by auto
  qed
qed simp

lemma dominant_most_frequent:
  "flows \<noteq> [] \<Longrightarrow> dominantNativeFlow flows \<in> set flows \<and> count_list flows f \<le> count_list flows (dominantNativeFlow flows)"
proof -
  assume ne: "flows \<noteq> []"
  then obtain f0 fs where fl: "flows = f0 # fs" by (cases flows) auto
  obtain c b n where f: "foldl dominant_step ((\<lambda>x. 0), f0, 0) flows = (c, b, n)" by (metis prod.exhaust)
  have d: "dominantNativeFlow flows = b" using f fl by (simp add: dominantNativeFlow_def)
  show ?thesis unfolding d using dominant_fold [OF f] ne by metis
qed

section \<open>Properties\<close>

text \<open>
  The text of a price reads back as the price: after the symbol and the sign come groups of
  digits, a comma and two digits, and together they say the amount in cents, cut towards zero.
\<close>

lemma price_text_roundtrip:
  assumes "p \<noteq> 0"
  shows "\<exists>whole cents. formatProductPriceText p currency =
      (if currency = [] then [] else (if currency = ''BRL'' then ''R$'' else currency) @ '' '') @
      (if p < 0 then ''-'' else []) @ whole @ '','' @ cents \<and>
    grouped whole \<and> length cents = 2 \<and> list_all is_digit cents \<and>
    int (nat_of_digits (filter is_digit whole) * 100 + nat_of_digits cents) = \<bar>p\<bar> div 10"
proof -
  define c where "c = \<bar>p\<bar> div 10"
  have c: "0 \<le> c" by (simp add: c_def)
  have q: "go_quot p 10 = (if p < 0 then - c else c)" using assms by (simp add: go_quot_def c_def sgn_if)
  have d: "go_quot c 100 = c div 100" using c by (cases "c = 0") (simp_all add: go_quot_def)
  let ?w = "groupThousands (show_int (c div 100))" and ?d = "two_digits (nat (c mod 100))"
  have w: "grouped ?w" "filter is_digit ?w = show_int (c div 100)"
    using groupThousands_grouped [of "show_int (c div 100)"] show_int_digits [of "c div 100"] grouped_digits_nonempty [of "c div 100"] c
    by simp_all
  have dd: "nat_of_digits ?d = nat (c mod 100)" "list_all is_digit ?d" "length ?d = 2"
    using two_digits_val [of "nat (c mod 100)"] by (simp_all add: two_digits_def)
  have c100: "0 \<le> c div 100" "0 \<le> c mod 100" using c by simp_all
  have "nat_of_digits (filter is_digit ?w) = nat (c div 100)" unfolding w using show_int_digits [OF c100(1)] by blast
  then have "int (nat_of_digits (filter is_digit ?w) * 100 + nat_of_digits ?d) = c" using c100 by (simp add: dd)
  moreover have "formatProductPriceText p currency =
      (if currency = [] then [] else (if currency = ''BRL'' then ''R$'' else currency) @ '' '') @
      (if p < 0 then ''-'' else []) @ ?w @ '','' @ ?d"
    using assms unfolding formatProductPriceText_def Let_def q by (simp add: d)
  ultimately show ?thesis using w dd unfolding c_def [symmetric] by blast
qed

text \<open>The amount of a payment is multiplied before it is divided, in 64 bits.\<close>

lemma payment_amount_wraps:
  "formatPaymentMoney \<lparr>pm_Value = 10 ^ 16, pm_Offset = 100\<rparr> currency = formatProductPriceText (- 84467440737095516) currency"
proof -
  have "wrap64 (10 ^ 16 * 1000) = - 8446744073709551616" by (simp add: wrap64_def)
  moreover have "go_quot (- 8446744073709551616) 100 = - 84467440737095516" by (simp add: go_quot_def)
  moreover have "wrap64 (- 84467440737095516) = - 84467440737095516" by (simp add: wrap64_def)
  ultimately show ?thesis by (simp add: formatPaymentMoney_def)
qed

end
