(* ===== verification/InboundRich.thy ===== *)
theory InboundRich
  imports WaMessage PriceText
begin

text \<open>
  The rich contents of an inbound event (internal/mapper/inbound.go): the structs, unwrapping, the texts of
  invitations and answers, and the builders for buttons, templates, lists, interactive messages, polls,
  products, orders, events and payment requests. Decoding a button's JSON and the struct fields that
  reflection sees in a generated message are parameters.
\<close>

section \<open>Contents\<close>

record InboundRichButton =
  rb_ID :: string
  rb_Text :: string
  rb_Name :: string
  rb_URL :: string

record InboundRichListRow =
  rlr_ID :: string
  rlr_Title :: string
  rlr_Description :: string

record InboundRichListSection =
  rls_Title :: string
  rls_Rows :: "InboundRichListRow list"

record InboundRichList =
  rli_ButtonText :: string
  rli_Sections :: "InboundRichListSection list"

record InboundRichProduct =
  rpd_Title :: string
  rpd_Description :: string
  rpd_PriceText :: string
  rpd_Currency :: string
  rpd_RetailerID :: string
  rpd_URL :: string

record InboundRichOrder =
  ror_OrderID :: string
  ror_Title :: string
  ror_ItemCount :: int
  ror_Status :: string
  ror_AmountText :: string
  ror_Currency :: string
  ror_SellerJID :: string

record InboundRichEvent =
  rve_Name :: string
  rve_Description :: string
  rve_StartTime :: string
  rve_EndTime :: string
  rve_Location :: string
  rve_Address :: string
  rve_JoinLink :: string
  rve_Canceled :: bool
  rve_IsCall :: bool

record InboundRichPoll =
  rpo_Question :: string
  rpo_Options :: "string list"
  rpo_SelectableCount :: int

record InboundRichContent =
  rk_Kind :: string
  rk_Flow :: string
  rk_Body :: string
  rk_Footer :: string
  rk_Buttons :: "InboundRichButton list"
  rk_List :: "InboundRichList option"
  rk_Product :: "InboundRichProduct option"
  rk_Order :: "InboundRichOrder option"
  rk_Event :: "InboundRichEvent option"
  rk_Payment :: "InboundRichPayment option"
  rk_Poll :: "InboundRichPoll option"

definition empty_rich :: InboundRichContent where
  "empty_rich =
     \<lparr>rk_Kind = [], rk_Flow = [], rk_Body = [], rk_Footer = [], rk_Buttons = [], rk_List = None, rk_Product = None,
      rk_Order = None, rk_Event = None, rk_Payment = None, rk_Poll = None\<rparr>"

section \<open>Unwrapping and text\<close>

definition maxUnwrapDepth :: nat where "maxUnwrapDepth = 8"

text \<open>The wrappers in the order of the switch.\<close>

definition wrappers :: "nest list" where
  "wrappers = [NEphemeral, NViewOnce, NViewOnceV2, NViewOnceV2Extension, NDocumentWithCaption, NAssociatedChild,
     NBotForwarded, NGroupMentioned, NLottieSticker, NPollCreationV4]"

definition unwrap_once :: "message option \<Rightarrow> message option" where
  "unwrap_once msg = (case find (\<lambda>n. get_nested n msg \<noteq> None) wrappers of None \<Rightarrow> None | Some n \<Rightarrow> get_nested n msg)"

fun unwrap_from :: "nat \<Rightarrow> message option \<Rightarrow> message option" where
  "unwrap_from 0 msg = msg"
| "unwrap_from (Suc k) msg = (case unwrap_once msg of None \<Rightarrow> msg | Some inner \<Rightarrow> unwrap_from k (Some inner))"

definition unwrapMessage :: "message option \<Rightarrow> message option" where
  "unwrapMessage msg = unwrap_from maxUnwrapDepth msg"

definition extractText :: "message option \<Rightarrow> string" where
  "extractText msg =
     (let body = get_str (m_Conversation (get_content msg)) in
      if body \<noteq> [] then body
      else (case m_ExtendedText (get_content msg) of None \<Rightarrow> [] | Some ext \<Rightarrow> get_str (wet_Text ext)))"

definition isSilentNotice :: "message option \<Rightarrow> bool" where
  "isSilentNotice msg =
     (m_Notices (get_content msg) \<noteq> [] \<or> m_Conversation (get_content msg) = Some [])"

definition pollCreationOf :: "message option \<Rightarrow> wa_poll option" where
  "pollCreationOf msg =
     (let c = get_content msg in
      case find (\<lambda>p. p \<noteq> None) [m_PollCreation c, m_PollCreationV2 c, m_PollCreationV3 c, m_PollCreationV5 c, m_PollCreationV6 c] of
        None \<Rightarrow> None | Some p \<Rightarrow> p)"

definition groupInviteLinkPrefix :: string where "groupInviteLinkPrefix = ''https://chat.whatsapp.com/''"

definition newline :: string where "newline = [CHR 0x0A]"

definition groupInviteBody :: "wa_invite \<Rightarrow> string" where
  "groupInviteBody invite =
     join_with newline
       ([if wgi_GroupName invite \<noteq> [] then ''Convite para o grupo '' @ wgi_GroupName invite else ''Convite para um grupo''] @
        (if wgi_Caption invite \<noteq> [] then [wgi_Caption invite] else []) @
        (if wgi_InviteCode invite \<noteq> [] then [groupInviteLinkPrefix @ wgi_InviteCode invite] else []))"

definition richResponseText :: "wa_rich_response \<Rightarrow> string" where
  "richResponseText response =
     join_with (newline @ newline) (filter (\<lambda>t. t \<noteq> []) (map trim_space (wrr_Submessages response)))"

section \<open>Builders\<close>

definition buildRequestPaymentRich :: "message option \<Rightarrow> wa_payment_request \<Rightarrow> InboundRichContent option" where
  "buildRequestPaymentRich note request =
     (let amount = (if wpq_Amount1000 request > 0
                    then formatProductPriceText (wrap64 (int (wpq_Amount1000 request))) (wpq_CurrencyCode request) else []);
          body = extractText (unwrapMessage note)
      in if amount = [] \<and> body = [] then None
         else Some (empty_rich\<lparr>rk_Kind := ''interactive'', rk_Flow := ''payment'', rk_Body := body,
           rk_Payment := Some \<lparr>rp_Kind = ''charge'', rp_ReferenceID = [], rp_Amount = amount, rp_PixKey = [], rp_PixKeyType = [],
             rp_PixKeyDisplay = [], rp_MerchantName = [], rp_Status = [], rp_CopyLabel = [], rp_Items = []\<rparr>\<rparr>))"

definition buildPollRich :: "wa_poll \<Rightarrow> InboundRichContent option" where
  "buildPollRich poll =
     (let options = filter (\<lambda>name. name \<noteq> []) (wpo_Options poll) in
      if wpo_Name poll = [] \<and> options = [] then None
      else Some (empty_rich\<lparr>rk_Kind := ''poll'',
        rk_Poll := Some \<lparr>rpo_Question = wpo_Name poll, rpo_Options = options,
          rpo_SelectableCount = int (wpo_SelectableOptionsCount poll)\<rparr>\<rparr>))"

definition buttons_content :: "string \<Rightarrow> string \<Rightarrow> InboundRichButton list \<Rightarrow> InboundRichContent option" where
  "buttons_content body footer buttons =
     (if body = [] \<and> footer = [] \<and> buttons = [] then None
      else Some (empty_rich\<lparr>rk_Kind := ''buttons'', rk_Body := body, rk_Footer := footer, rk_Buttons := buttons\<rparr>))"

definition buildButtonsRich :: "wa_buttons \<Rightarrow> InboundRichContent option" where
  "buildButtonsRich btn =
     buttons_content (if wbm_ContentText btn = [] then wbm_Text btn else wbm_ContentText btn) (wbm_FooterText btn)
       (map (\<lambda>(i, text). \<lparr>rb_ID = i, rb_Text = text, rb_Name = [], rb_URL = []\<rparr>) (wbm_Buttons btn))"

definition hydrated_rich :: "hydrated_button \<Rightarrow> InboundRichButton option" where
  "hydrated_rich b =
     (case b of
        QuickReply i text \<Rightarrow> Some \<lparr>rb_ID = i, rb_Text = text, rb_Name = [], rb_URL = []\<rparr>
      | UrlButton text url \<Rightarrow> Some \<lparr>rb_ID = [], rb_Text = text, rb_Name = ''cta_url'', rb_URL = url\<rparr>
      | CallButton text phone \<Rightarrow> Some \<lparr>rb_ID = [], rb_Text = text, rb_Name = ''cta_call'', rb_URL = ''tel:'' @ phone\<rparr>
      | OtherButton \<Rightarrow> None)"

definition buildListRich :: "wa_list \<Rightarrow> InboundRichContent option" where
  "buildListRich l =
     (let sections = map (\<lambda>s. \<lparr>rls_Title = wls_Title s,
            rls_Rows = map (\<lambda>r. \<lparr>rlr_ID = wlr_RowID r, rlr_Title = wlr_Title r, rlr_Description = wlr_Description r\<rparr>) (wls_Rows s)\<rparr>)
            (wlm_Sections l)
      in if wlm_Description l = [] \<and> wlm_FooterText l = [] \<and> wlm_ButtonText l = [] \<and> sections = [] then None
         else Some (empty_rich\<lparr>rk_Kind := ''list'', rk_Body := wlm_Description l, rk_Footer := wlm_FooterText l,
           rk_List := Some \<lparr>rli_ButtonText = wlm_ButtonText l, rli_Sections = sections\<rparr>\<rparr>))"

section \<open>Interactive messages\<close>

record nativeFlowButtonParams =
  nf_DisplayText :: string
  nf_Title :: string
  nf_ID :: string
  nf_URL :: string
  nf_Sections :: "InboundRichListSection list"

definition no_params :: nativeFlowButtonParams where
  "no_params = \<lparr>nf_DisplayText = [], nf_Title = [], nf_ID = [], nf_URL = [], nf_Sections = []\<rparr>"

text \<open>
  The two decoders: json.Unmarshal into the parameters of a button, whose error is ignored (what it
  could set is kept), and into those of a payment.
\<close>

record mapper_codec =
  mc_params :: "string \<Rightarrow> nativeFlowButtonParams"
  mc_payment :: "string \<Rightarrow> paymentParams result"

definition parseNativeFlowButtonParams :: "mapper_codec \<Rightarrow> string \<Rightarrow> nativeFlowButtonParams" where
  "parseNativeFlowButtonParams mc raw = (if raw = [] then no_params else mc_params mc raw)"

definition nativeFlowListFrom :: "InboundRichListSection list \<Rightarrow> string \<Rightarrow> InboundRichList" where
  "nativeFlowListFrom sections buttonText = \<lparr>rli_ButtonText = buttonText, rli_Sections = sections\<rparr>"

record native_state =
  ns_buttons :: "InboundRichButton list"
  ns_flows :: "string list"
  ns_list :: "InboundRichList option"
  ns_payment :: "InboundRichPayment option"

text \<open>The body of the loop over the native buttons.\<close>

definition native_button :: "mapper_codec \<Rightarrow> native_state \<Rightarrow> wa_native_button \<Rightarrow> native_state" where
  "native_button mc s b =
     (let name = wnb_Name b;
          flow = classifyNativeFlowName name;
          s1 = s\<lparr>ns_flows := ns_flows s @ [flow]\<rparr>
      in if flow = ''payment'' then
           (if ns_payment s1 = None
            then s1\<lparr>ns_payment := parsePaymentDetails (mc_payment mc) (wnb_ButtonParamsJSON b) name\<rparr> else s1)
         else
           (let params = parseNativeFlowButtonParams mc (wnb_ButtonParamsJSON b) in
            if nf_Sections params \<noteq> [] then s1\<lparr>ns_list := Some (nativeFlowListFrom (nf_Sections params) (nf_Title params))\<rparr>
            else
              (let text = (if nf_DisplayText params \<noteq> [] then nf_DisplayText params
                           else if nf_Title params \<noteq> [] then nf_Title params else name)
               in s1\<lparr>ns_buttons := ns_buttons s1 @ [\<lparr>rb_ID = nf_ID params, rb_Text = text, rb_Name = name, rb_URL = nf_URL params\<rparr>]\<rparr>)))"

definition native_start :: native_state where
  "native_start = \<lparr>ns_buttons = [], ns_flows = [], ns_list = None, ns_payment = None\<rparr>"

definition buildInteractiveRich :: "mapper_codec \<Rightarrow> wa_interactive \<Rightarrow> InboundRichContent option" where
  "buildInteractiveRich mc im =
     (let s = foldl (native_button mc) native_start (win_Buttons im);
          dominantFlow = dominantNativeFlow (ns_flows s);
          payment = (if dominantFlow \<noteq> ''payment'' then None else ns_payment s)
      in if win_Body im = [] \<and> win_Footer im = [] \<and> ns_buttons s = [] \<and> ns_list s = None \<and> payment = None then None
         else Some (empty_rich\<lparr>rk_Kind := ''interactive'', rk_Flow := dominantFlow, rk_Body := win_Body im, rk_Footer := win_Footer im,
           rk_Buttons := ns_buttons s, rk_List := ns_list s, rk_Payment := payment\<rparr>))"

definition buildTemplateRich :: "mapper_codec \<Rightarrow> wa_template \<Rightarrow> InboundRichContent option" where
  "buildTemplateRich mc tm =
     (case wtm_Interactive tm of
        Some interactive \<Rightarrow> buildInteractiveRich mc interactive
      | None \<Rightarrow>
          (case (if wtm_Hydrated tm = None then wtm_HydratedFourRow tm else wtm_Hydrated tm) of
             None \<Rightarrow> None
           | Some hydrated \<Rightarrow>
               (let title = why_TitleText hydrated; content = why_ContentText hydrated;
                    body = (if title = [] then content else if content = [] then title else title @ newline @ newline @ content)
                in buttons_content body (why_FooterText hydrated) (List.map_filter hydrated_rich (why_Buttons hydrated)))))"

section \<open>Products, orders and events\<close>

definition buildProductRich :: "wa_product \<Rightarrow> InboundRichContent option" where
  "buildProductRich snap =
     (if wpr_Title snap = [] then None
      else Some (empty_rich\<lparr>rk_Kind := ''product'',
        rk_Product := Some \<lparr>rpd_Title = wpr_Title snap, rpd_Description = wpr_Description snap,
          rpd_PriceText = formatProductPriceText (wpr_PriceAmount1000 snap) (wpr_CurrencyCode snap), rpd_Currency = wpr_CurrencyCode snap,
          rpd_RetailerID = wpr_RetailerID snap, rpd_URL = wpr_URL snap\<rparr>\<rparr>))"

text \<open>The names of the generated enumeration of order statuses.\<close>

definition orderStatusName :: "(int \<Rightarrow> string option) \<Rightarrow> wa_order \<Rightarrow> string" where
  "orderStatusName status_name om =
     (case wor_Status om of None \<Rightarrow> [] | Some st \<Rightarrow> (case status_name st of None \<Rightarrow> [] | Some name \<Rightarrow> name))"

definition buildOrderRich :: "(int \<Rightarrow> string option) \<Rightarrow> wa_order \<Rightarrow> InboundRichContent option" where
  "buildOrderRich status_name om =
     (if wor_OrderID om = [] then None
      else Some (empty_rich\<lparr>rk_Kind := ''order'',
        rk_Order := Some \<lparr>ror_OrderID = wor_OrderID om, ror_Title = wor_OrderTitle om, ror_ItemCount = wor_ItemCount om,
          ror_Status = orderStatusName status_name om,
          ror_AmountText = formatProductPriceText (wor_TotalAmount1000 om) (wor_TotalCurrencyCode om),
          ror_Currency = wor_TotalCurrencyCode om, ror_SellerJID = wor_SellerJID om\<rparr>\<rparr>))"

text \<open>
  time.Unix(t, 0).UTC().Format(time.RFC3339): the date of a day number in the proleptic Gregorian
  calendar, counted from 1970-01-01.
\<close>

definition civil_date :: "int \<Rightarrow> int \<times> int \<times> int" where
  "civil_date days =
     (let z = days + 719468; era = z div 146097; doe = z mod 146097;
          yoe = (doe - doe div 1460 + doe div 36524 - doe div 146096) div 365;
          doy = doe - (365 * yoe + yoe div 4 - yoe div 100);
          mp = (5 * doy + 2) div 153;
          month = (if mp < 10 then mp + 3 else mp - 9)
      in (yoe + era * 400 + (if month \<le> 2 then 1 else 0), month, doy - (153 * mp + 2) div 5 + 1))"

definition padded :: "nat \<Rightarrow> int \<Rightarrow> string" where
  "padded width i =
     (let digits = show_int \<bar>i\<bar> in (if i < 0 then ''-'' else []) @ replicate (width - length digits) CHR ''0'' @ digits)"

definition rfc3339 :: "int \<Rightarrow> string" where
  "rfc3339 t =
     (case civil_date (t div 86400) of (y, mo, d) \<Rightarrow>
        (let s = t mod 86400 in
         padded 4 y @ ''-'' @ padded 2 mo @ ''-'' @ padded 2 d @ ''T'' @ padded 2 (s div 3600) @ '':'' @ padded 2 (s div 60 mod 60) @
         '':'' @ padded 2 (s mod 60) @ ''Z''))"

definition buildEventRich :: "wa_event \<Rightarrow> InboundRichContent option" where
  "buildEventRich em =
     (if wev_Name em = [] then None
      else Some (empty_rich\<lparr>rk_Kind := ''event'',
        rk_Event := Some \<lparr>rve_Name = wev_Name em, rve_Description = wev_Description em,
          rve_StartTime = (if wev_StartTime em \<noteq> 0 then rfc3339 (wev_StartTime em) else []),
          rve_EndTime = (if wev_EndTime em \<noteq> 0 then rfc3339 (wev_EndTime em) else []),
          rve_Location = wev_LocationName em, rve_Address = wev_LocationAddress em, rve_JoinLink = wev_JoinLink em,
          rve_Canceled = wev_IsCanceled em, rve_IsCall = wev_IsScheduleCall em\<rparr>\<rparr>))"

section \<open>Reflection\<close>

record struct_field =
  sf_Name :: string
  sf_Exported :: bool
  sf_IsPtr :: bool
  sf_IsNil :: bool
  sf_Tag :: string

definition contentFieldIgnore :: "string list" where
  "contentFieldIgnore = [''SenderKeyDistributionMessage'', ''FastRatchetKeySenderKeyDistributionMessage'', ''MessageContextInfo'']"

definition jsonFieldName :: "struct_field \<Rightarrow> string" where
  "jsonFieldName field =
     (if sf_Tag field = [] then sf_Name field
      else (let name = takeWhile (\<lambda>c. c \<noteq> CHR '','') (sf_Tag field) in if name = [] then sf_Name field else name))"

definition detectContentField :: "(message \<Rightarrow> struct_field list) \<Rightarrow> message option \<Rightarrow> string option" where
  "detectContentField descr msg =
     (case msg of
        None \<Rightarrow> None
      | Some m \<Rightarrow>
          map_option jsonFieldName
            (find (\<lambda>f. sf_Exported f \<and> sf_Name f \<notin> set contentFieldIgnore \<and> sf_IsPtr f \<and> \<not> sf_IsNil f) (descr m)))"

section \<open>Facts\<close>

lemma buildListRich_body: "buildListRich l = Some r \<Longrightarrow> rk_Kind r = ''list'' \<and> rk_Body r = wlm_Description l"
  by (auto simp: buildListRich_def Let_def empty_rich_def split: if_splits)

lemma buttons_content_kind: "buttons_content b f bs = Some r \<Longrightarrow> rk_Kind r = ''buttons''"
  by (auto simp: buttons_content_def empty_rich_def split: if_splits)

lemma interactive_kind: "buildInteractiveRich mc im = Some r \<Longrightarrow> rk_Kind r = ''interactive''"
  by (auto simp: buildInteractiveRich_def Let_def empty_rich_def split: if_splits)

end
