(* ===== verification/Base64.thy ===== *)
theory Base64
  imports Runes
begin

text \<open>
  base64.StdEncoding of Go's encoding/base64, as internal/mapper uses it: the standard alphabet with
  padding; decoding skips carriage returns and newlines, and accepts any bits under the padding.
\<close>

definition b64_char :: "nat \<Rightarrow> char" where
  "b64_char n =
     (if n < 26 then char_of (65 + n) else if n < 52 then char_of (71 + n) else if n < 62 then char_of (n - 4)
      else if n = 62 then CHR ''+'' else CHR ''/'')"

definition b64_val :: "char \<Rightarrow> nat option" where
  "b64_val c =
     (let v = byte_val c in
      if 65 \<le> v \<and> v \<le> 90 then Some (v - 65) else if 97 \<le> v \<and> v \<le> 122 then Some (v - 71)
      else if 48 \<le> v \<and> v \<le> 57 then Some (v + 4) else if v = 43 then Some 62 else if v = 47 then Some 63 else None)"

definition pad_char :: char where "pad_char = CHR ''=''"

fun base64_encode :: "string \<Rightarrow> string" where
  "base64_encode [] = []"
| "base64_encode [a] = [b64_char (byte_val a div 4), b64_char (byte_val a mod 4 * 16), pad_char, pad_char]"
| "base64_encode [a, b] =
     [b64_char (byte_val a div 4), b64_char (byte_val a mod 4 * 16 + byte_val b div 16), b64_char (byte_val b mod 16 * 4), pad_char]"
| "base64_encode (a # b # c # rest) =
     [b64_char (byte_val a div 4), b64_char (byte_val a mod 4 * 16 + byte_val b div 16),
      b64_char (byte_val b mod 16 * 4 + byte_val c div 64), b64_char (byte_val c mod 64)] @ base64_encode rest"

fun decode_quads :: "string \<Rightarrow> string option" where
  "decode_quads [] = Some []"
| "decode_quads (a # b # c # d # rest) =
     (case (b64_val a, b64_val b) of
        (Some x, Some y) \<Rightarrow>
          if c = pad_char then (if d = pad_char \<and> rest = [] then Some [char_of (x * 4 + y div 16)] else None)
          else
            (case b64_val c of
               None \<Rightarrow> None
             | Some z \<Rightarrow>
                 if d = pad_char
                 then (if rest = [] then Some [char_of (x * 4 + y div 16), char_of (y mod 16 * 16 + z div 4)] else None)
                 else
                   (case b64_val d of
                      None \<Rightarrow> None
                    | Some w \<Rightarrow>
                        map_option (\<lambda>s. [char_of (x * 4 + y div 16), char_of (y mod 16 * 16 + z div 4), char_of (z mod 4 * 64 + w)] @ s)
                          (decode_quads rest)))
      | _ \<Rightarrow> None)"
| "decode_quads _ = None"

definition base64_decode :: "string \<Rightarrow> string option" where
  "base64_decode s = decode_quads (filter (\<lambda>c. c \<noteq> CHR 0x0D \<and> c \<noteq> CHR 0x0A) s)"

section \<open>Round trip\<close>

lemma char_of_byte_val [simp]: "char_of (byte_val c) = c"
  by (simp add: byte_val_def)

lemma b64_char_inj: "n < 64 \<Longrightarrow> b64_val (b64_char n) = Some n"
  by (auto simp: b64_val_def b64_char_def Let_def byte_val_def)

lemma b64_char_plain: "n < 64 \<Longrightarrow> b64_char n \<noteq> pad_char \<and> b64_char n \<noteq> CHR 0x0D \<and> b64_char n \<noteq> CHR 0x0A"
  using b64_char_inj [of n] by (auto simp: b64_val_def pad_char_def byte_val_def Let_def)

lemma byte_parts:
  "byte_val a div 4 < 64" "byte_val a mod 4 * 16 + byte_val b div 16 < 64" "byte_val b mod 16 * 4 + byte_val c div 64 < 64"
  "byte_val a mod 4 * 16 < 64" "byte_val b mod 16 * 4 < 64" "byte_val c mod 64 < 64"
proof -
  have "byte_val a < 256" "byte_val b < 256" "byte_val c < 256" by (rule byte_val_less)+
  then have "byte_val a div 4 < 64" "byte_val b div 16 < 16" "byte_val c div 64 < 4" by (simp_all add: less_mult_imp_div_less)
  moreover have "byte_val a mod 4 < 4" "byte_val b mod 16 < 16" "byte_val c mod 64 < 64" by simp_all
  ultimately show "byte_val a div 4 < 64" "byte_val a mod 4 * 16 + byte_val b div 16 < 64"
    "byte_val b mod 16 * 4 + byte_val c div 64 < 64" "byte_val a mod 4 * 16 < 64" "byte_val b mod 16 * 4 < 64" "byte_val c mod 64 < 64"
    by linarith+
qed

lemma join_bits:
  "byte_val b div 16 < 16" "byte_val c div 64 < 4"
  by (simp_all add: less_mult_imp_div_less byte_val_less [THEN less_le_trans])

lemma small_parts:
  "byte_val b div 16 div 16 = 0" "byte_val b div 16 mod 16 = byte_val b div 16"
  "byte_val c div 64 div 4 = 0" "byte_val c div 64 mod 4 = byte_val c div 64"
  using join_bits [of b] join_bits [of c] by simp_all

lemma rejoin:
  "byte_val a div 4 * 4 + (byte_val a mod 4 * 16 + byte_val b div 16) div 16 = byte_val a"
  "(byte_val a mod 4 * 16 + byte_val b div 16) mod 16 * 16 + (byte_val b mod 16 * 4 + byte_val c div 64) div 4 = byte_val b"
  "(byte_val b mod 16 * 4 + byte_val c div 64) mod 4 * 64 + byte_val c mod 64 = byte_val c"
  "byte_val a div 4 * 4 + byte_val a mod 4 * 16 div 16 = byte_val a"
  "(byte_val a mod 4 * 16 + byte_val b div 16) mod 16 * 16 + byte_val b mod 16 * 4 div 4 = byte_val b"
  by (simp_all add: small_parts)

lemma base64_plain: "filter (\<lambda>c. c \<noteq> CHR 0x0D \<and> c \<noteq> CHR 0x0A) (base64_encode s) = base64_encode s"
proof (induction s rule: base64_encode.induct)
  case (2 a)
  then show ?case by (simp add: b64_char_plain byte_parts) (simp add: pad_char_def)
next
  case (3 a b)
  then show ?case by (simp add: b64_char_plain byte_parts) (simp add: pad_char_def)
next
  case (4 a b c rest)
  then show ?case by (simp add: b64_char_plain byte_parts)
qed simp

lemma decode_quads_encode: "decode_quads (base64_encode s) = Some s"
proof (induction s rule: base64_encode.induct)
  case (2 a)
  then show ?case by (simp add: b64_char_inj byte_parts small_parts)
next
  case (3 a b)
  then show ?case by (simp add: b64_char_inj b64_char_plain byte_parts small_parts)
next
  case (4 a b c rest)
  then show ?case by (simp add: b64_char_inj b64_char_plain byte_parts small_parts)
qed simp

lemma base64_roundtrip: "base64_decode (base64_encode s) = Some s"
  by (simp add: base64_decode_def base64_plain decode_quads_encode)

end
