(* ===== verification/Outbound.thy ===== *)
theory Outbound
  imports InboundRich Base64
begin

text \<open>
  From a send command to the message that is sent (internal/mapper/outbound.go and
  internal/mapper/interactive.go). Fetching and uploading media, the LID of a number, the messages that the
  client library builds for edits, revocations and reactions, and the JSON encoding of a button's
  parameters (its fields in order) are parameters.
\<close>

section \<open>Dependencies\<close>

datatype media_type = MediaImage | MediaVideo | MediaAudio | MediaDocument

record UploadResponse =
  up_URL :: string
  up_DirectPath :: string
  up_MediaKey :: string
  up_FileEncSHA256 :: string
  up_FileSHA256 :: string
  up_FileLength :: nat

record 'w message_builder =
  ob_lib :: walib
  ob_fetch :: "string \<Rightarrow> 'w \<Rightarrow> string result \<times> 'w"
  ob_Upload :: "string \<Rightarrow> media_type \<Rightarrow> 'w \<Rightarrow> UploadResponse result \<times> 'w"
  ob_LIDForPN :: "jid \<Rightarrow> 'w \<Rightarrow> (jid \<times> bool) result \<times> 'w"
  ob_BuildEdit :: "jid \<Rightarrow> string \<Rightarrow> message \<Rightarrow> message"
  ob_BuildRevoke :: "jid \<Rightarrow> jid \<Rightarrow> string \<Rightarrow> message"
  ob_BuildReaction :: "jid \<Rightarrow> jid \<Rightarrow> string \<Rightarrow> string \<Rightarrow> message"
  ob_marshal :: "(string \<times> string) list \<Rightarrow> string result"

datatype node = Node (node_tag: string) (node_attrs: "(string \<times> string) list") (node_content: "node list")

definition mapper_err :: "string \<Rightarrow> goerr" where
  "mapper_err s = Err EText (''mapper: '' @ s)"

definition conversation_message :: "string \<Rightarrow> message" where
  "conversation_message text = Message (empty_content\<lparr>m_Conversation := Some text\<rparr>) no_nested"

definition plain_message :: "content \<Rightarrow> message" where
  "plain_message c = Message c no_nested"

section \<open>Context\<close>

definition empty_context :: context_info where
  "empty_context =
     \<lparr>wci_StanzaID = None, wci_Participant = None, wci_QuotedMessage = None, wci_MentionedJID = [], wci_IsForwarded = None,
      wci_ForwardingScore = None, wci_ExternalAdReply = None, wci_ConversionSource = [], wci_EntryPointConversionSource = []\<rparr>"

definition quotedParticipant :: "walib \<Rightarrow> GatewaySendCommand \<Rightarrow> ReplyToPayload \<Rightarrow> string" where
  "quotedParticipant lib cmd reply =
     (if rt_participantJID reply \<noteq> [] then rt_participantJID reply
      else if rt_fromMe reply then []
      else (case parse_jid lib (sc_to cmd) of
              Inl err \<Rightarrow> []
            | Inr jid \<Rightarrow> if jid_server jid \<noteq> GroupServer then sc_to cmd else []))"

definition optionalString :: "string \<Rightarrow> string option" where
  "optionalString s = (if s = [] then None else Some s)"

definition reply_context :: "walib \<Rightarrow> GatewaySendCommand \<Rightarrow> ReplyToPayload \<Rightarrow> context_info" where
  "reply_context lib cmd reply =
     empty_context\<lparr>wci_StanzaID := Some (rt_providerMessageID reply),
       wci_Participant := optionalString (quotedParticipant lib cmd reply), wci_QuotedMessage := optionalString (rt_text reply)\<rparr>"

definition contextInfoFor :: "walib \<Rightarrow> GatewaySendCommand \<Rightarrow> context_info option" where
  "contextInfoFor lib cmd =
     (if sc_replyTo cmd = None \<and> sc_mentions cmd = [] then None
      else
        (let ci = (case sc_replyTo cmd of None \<Rightarrow> empty_context | Some reply \<Rightarrow> reply_context lib cmd reply) in
         Some (if sc_mentions cmd \<noteq> [] then ci\<lparr>wci_MentionedJID := sc_mentions cmd\<rparr> else ci)))"

definition mergeForwarded :: "context_info option \<Rightarrow> context_info option" where
  "mergeForwarded ci =
     Some ((case ci of None \<Rightarrow> empty_context | Some c \<Rightarrow> c)\<lparr>wci_IsForwarded := Some True, wci_ForwardingScore := Some 1\<rparr>)"

definition forwarded_media :: "wa_media \<Rightarrow> wa_media" where
  "forwarded_media m = m\<lparr>wmd_ContextInfo := mergeForwarded (wmd_ContextInfo m)\<rparr>"

definition markForwarded :: "message \<Rightarrow> message" where
  "markForwarded msg =
     (let c = m_content msg; upd = (\<lambda>c1. Message c1 (m_nested msg)) in
      case m_Conversation c of
        Some text \<Rightarrow>
          plain_message (empty_content\<lparr>m_ExtendedText := Some \<lparr>wet_Text = Some text, wet_ContextInfo = mergeForwarded None\<rparr>\<rparr>)
      | None \<Rightarrow>
      case m_ExtendedText c of
        Some ext \<Rightarrow> upd (c\<lparr>m_ExtendedText := Some (ext\<lparr>wet_ContextInfo := mergeForwarded (wet_ContextInfo ext)\<rparr>)\<rparr>)
      | None \<Rightarrow>
      case m_Image c of Some m \<Rightarrow> upd (c\<lparr>m_Image := Some (forwarded_media m)\<rparr>)
      | None \<Rightarrow>
      case m_Video c of Some m \<Rightarrow> upd (c\<lparr>m_Video := Some (forwarded_media m)\<rparr>)
      | None \<Rightarrow>
      case m_Audio c of Some m \<Rightarrow> upd (c\<lparr>m_Audio := Some (forwarded_media m)\<rparr>)
      | None \<Rightarrow>
      case m_Document c of Some m \<Rightarrow> upd (c\<lparr>m_Document := Some (forwarded_media m)\<rparr>)
      | None \<Rightarrow> msg)"

section \<open>Texts, media, locations and contacts\<close>

definition buildText :: "walib \<Rightarrow> GatewaySendCommand \<Rightarrow> message" where
  "buildText lib cmd =
     (case contextInfoFor lib cmd of
        None \<Rightarrow> conversation_message (sc_text cmd)
      | Some ci \<Rightarrow> plain_message (empty_content\<lparr>m_ExtendedText := Some \<lparr>wet_Text = Some (sc_text cmd), wet_ContextInfo = Some ci\<rparr>\<rparr>))"

definition uploaded_media :: "UploadResponse \<Rightarrow> string \<Rightarrow> context_info option \<Rightarrow> wa_media" where
  "uploaded_media resp mime ci =
     \<lparr>wmd_URL = Some (up_URL resp), wmd_DirectPath = Some (up_DirectPath resp), wmd_MediaKey = up_MediaKey resp,
      wmd_Mimetype = Some mime, wmd_FileEncSHA256 = up_FileEncSHA256 resp, wmd_FileSHA256 = up_FileSHA256 resp,
      wmd_FileLength = Some (up_FileLength resp), wmd_Caption = None, wmd_FileName = None, wmd_PTT = None, wmd_Seconds = None,
      wmd_Waveform = [], wmd_ContextInfo = ci\<rparr>"

definition voice_note :: "MediaPayload \<Rightarrow> wa_media \<Rightarrow> wa_media" where
  "voice_note media audio =
     (if \<not> mp_voice media then audio
      else audio\<lparr>wmd_PTT := Some True,
        wmd_Seconds := (if mp_durationSeconds media > 0 then Some (mp_durationSeconds media) else None),
        wmd_Waveform := (case base64_decode (mp_waveform media) of
                           Some waveform \<Rightarrow> if length waveform = 64 then waveform else [] | None \<Rightarrow> [])\<rparr>)"

definition media_message :: "GatewaySendCommand \<Rightarrow> MediaPayload \<Rightarrow> wa_media \<Rightarrow> message" where
  "media_message cmd media m =
     (if sc_type cmd = ''image'' then plain_message (empty_content\<lparr>m_Image := Some (m\<lparr>wmd_Caption := optionalString (sc_text cmd)\<rparr>)\<rparr>)
      else if sc_type cmd = ''video'' then plain_message (empty_content\<lparr>m_Video := Some (m\<lparr>wmd_Caption := optionalString (sc_text cmd)\<rparr>)\<rparr>)
      else if sc_type cmd = ''audio'' then plain_message (empty_content\<lparr>m_Audio := Some (voice_note media m)\<rparr>)
      else plain_message (empty_content\<lparr>m_Document := Some (m\<lparr>wmd_FileName := optionalString (mp_filename media),
        wmd_Caption := optionalString (sc_text cmd)\<rparr>)\<rparr>))"

definition buildMedia :: "'w message_builder \<Rightarrow> GatewaySendCommand \<Rightarrow> media_type \<Rightarrow> 'w \<Rightarrow> message result \<times> 'w" where
  "buildMedia env cmd mt w =
     (case sc_media cmd of
        None \<Rightarrow> (Inl (mapper_err (''type '' @ go_quote (sc_type cmd) @ '' requires media'')), w)
      | Some media \<Rightarrow>
          (case ob_fetch env (mp_url media) w of
             (Inl err, w1) \<Rightarrow> (Inl (Wrap ''mapper: fetch media: '' err []), w1)
           | (Inr data, w1) \<Rightarrow>
               (case ob_Upload env data mt w1 of
                  (Inl err, w2) \<Rightarrow> (Inl (Wrap ''mapper: upload media: '' err []), w2)
                | (Inr resp, w2) \<Rightarrow>
                    (Inr (media_message cmd media (uploaded_media resp (mp_mime media) (contextInfoFor (ob_lib env) cmd))), w2))))"

definition buildLocation :: "walib \<Rightarrow> GatewaySendCommand \<Rightarrow> message result" where
  "buildLocation lib cmd =
     (case sc_location cmd of
        None \<Rightarrow> Inl (mapper_err (''type '' @ go_quote (sc_type cmd) @ '' requires location''))
      | Some loc \<Rightarrow>
          Inr (plain_message (empty_content\<lparr>m_Location := Some \<lparr>wlo_DegreesLatitude = lp_lat loc, wlo_DegreesLongitude = lp_lng loc,
            wlo_Name = optionalString (lp_name loc), wlo_Address = optionalString (lp_address loc),
            wlo_ContextInfo = contextInfoFor lib cmd\<rparr>\<rparr>)))"

definition contactMessage :: "ContactPayload \<Rightarrow> wa_contact" where
  "contactMessage c = \<lparr>wct_DisplayName = Some (cp_name c), wct_Vcard = Some (cp_vcard c), wct_ContextInfo = None\<rparr>"

definition buildContacts :: "walib \<Rightarrow> GatewaySendCommand \<Rightarrow> message result" where
  "buildContacts lib cmd =
     (case sc_contacts cmd of
        [] \<Rightarrow> Inl (mapper_err (''type '' @ go_quote (sc_type cmd) @ '' requires at least one contact''))
      | [c] \<Rightarrow> Inr (plain_message (empty_content\<lparr>m_Contact := Some ((contactMessage c)\<lparr>wct_ContextInfo := contextInfoFor lib cmd\<rparr>)\<rparr>))
      | cs \<Rightarrow>
          Inr (plain_message (empty_content\<lparr>m_ContactsArray := Some \<lparr>wca_Contacts = map contactMessage cs,
            wca_ContextInfo = contextInfoFor lib cmd\<rparr>\<rparr>)))"

section \<open>Interactive messages\<close>

definition maxButtons :: nat where "maxButtons = 3"
definition maxButtonTitleLen :: nat where "maxButtonTitleLen = 20"
definition maxBodyLen :: nat where "maxBodyLen = 1024"
definition maxFooterLen :: nat where "maxFooterLen = 60"
definition maxListRows :: nat where "maxListRows = 10"
definition maxListTitleLen :: nat where "maxListTitleLen = 24"
definition maxListDescLen :: nat where "maxListDescLen = 72"

definition buildNativeFlowButtonParams ::
  "((string \<times> string) list \<Rightarrow> string result) \<Rightarrow> InteractiveButton \<Rightarrow> (string \<times> string) result" where
  "buildNativeFlowButtonParams marshal button =
     (let displayText = truncateRunes (ib_text button) maxButtonTitleLen in
      if ib_url button \<noteq> []
      then rbind (marshal [(''display_text'', displayText), (''url'', ib_url button), (''merchant_url'', ib_url button)])
             (\<lambda>json. Inr (''cta_url'', json))
      else
        (let buttonID = (if ib_id button = [] then ib_text button else ib_id button) in
         rbind (marshal [(''display_text'', displayText), (''id'', buttonID)]) (\<lambda>json. Inr (''quick_reply'', json))))"

fun native_buttons ::
  "((string \<times> string) list \<Rightarrow> string result) \<Rightarrow> InteractiveButton list \<Rightarrow> wa_native_button list result" where
  "native_buttons marshal [] = Inr []"
| "native_buttons marshal (b # bs) =
     (case buildNativeFlowButtonParams marshal b of
        Inl err \<Rightarrow> Inl (Wrap ''mapper: encode button params: '' err [])
      | Inr (name, json) \<Rightarrow>
          (case native_buttons marshal bs of
             Inl err \<Rightarrow> Inl err | Inr rest \<Rightarrow> Inr (\<lparr>wnb_Name = name, wnb_ButtonParamsJSON = json\<rparr> # rest)))"

definition button_nodes :: "node list" where
  "button_nodes =
     [Node ''biz'' [] [Node ''interactive'' [(''type'', ''native_flow''), (''v'', ''1'')]
        [Node ''native_flow'' [(''v'', ''9''), (''name'', ''mixed'')] []]]]"

definition BuildButtons ::
  "((string \<times> string) list \<Rightarrow> string result) \<Rightarrow> InteractivePayload \<Rightarrow> context_info option \<Rightarrow> (message \<times> node list) result" where
  "BuildButtons marshal p ci =
     (if ip_body p = [] then Inl (mapper_err ''buttons message requires a body'')
      else if ip_buttons p = [] then Inl (mapper_err ''buttons message requires at least one button'')
      else if length (ip_buttons p) > maxButtons
      then Inl (mapper_err (''buttons cannot exceed '' @ show_nat maxButtons @ '', got '' @ show_nat (length (ip_buttons p))))
      else
        (case native_buttons marshal (ip_buttons p) of
           Inl err \<Rightarrow> Inl err
         | Inr nfButtons \<Rightarrow>
             Inr (plain_message (empty_content\<lparr>m_Interactive := Some \<lparr>win_Body = truncateRunes (ip_body p) maxBodyLen,
               win_Footer = (if ip_footer p \<noteq> [] then truncateRunes (ip_footer p) maxFooterLen else []), win_Buttons = nfButtons,
               win_ContextInfo = ci\<rparr>\<rparr>), button_nodes)))"

definition list_row :: "InteractiveRow \<Rightarrow> wa_list_row" where
  "list_row row =
     \<lparr>wlr_RowID = (if ir_id row = [] then ir_title row else ir_id row), wlr_Title = truncateRunes (ir_title row) maxListTitleLen,
      wlr_Description = truncateRunes (ir_description row) maxListDescLen\<rparr>"

text \<open>The inner loop: the rows of a section and the number of rows so far.\<close>

fun list_rows :: "nat \<Rightarrow> InteractiveRow list \<Rightarrow> (nat \<times> wa_list_row list) result" where
  "list_rows totalRows [] = Inr (totalRows, [])"
| "list_rows totalRows (row # rows) =
     (if totalRows + 1 > maxListRows then Inl (mapper_err (''list rows cannot exceed '' @ show_nat maxListRows))
      else
        (case list_rows (totalRows + 1) rows of
           Inl err \<Rightarrow> Inl err | Inr (n, rs) \<Rightarrow> Inr (n, list_row row # rs)))"

fun list_sections :: "nat \<Rightarrow> InteractiveSection list \<Rightarrow> wa_list_section list result" where
  "list_sections totalRows [] = Inr []"
| "list_sections totalRows (section # sections) =
     (case list_rows totalRows (is_rows section) of
        Inl err \<Rightarrow> Inl err
      | Inr (n, waRows) \<Rightarrow>
          (case list_sections n sections of
             Inl err \<Rightarrow> Inl err
           | Inr waSections \<Rightarrow>
               Inr (if waRows = [] then waSections
                    else \<lparr>wls_Title = truncateRunes (is_title section) maxListTitleLen, wls_Rows = waRows\<rparr> # waSections)))"

definition list_nodes :: "node list" where
  "list_nodes = [Node ''biz'' [] [Node ''list'' [(''type'', ''product_list''), (''v'', ''2'')] []]]"

definition BuildList :: "InteractivePayload \<Rightarrow> context_info option \<Rightarrow> (message \<times> node list) result" where
  "BuildList p ci =
     (if ip_body p = [] then Inl (mapper_err ''list message requires a body'')
      else if ip_buttonText p = [] then Inl (mapper_err ''list message requires a button text'')
      else if ip_sections p = [] then Inl (mapper_err ''list message requires at least one section'')
      else
        (case list_sections 0 (ip_sections p) of
           Inl err \<Rightarrow> Inl err
         | Inr waSections \<Rightarrow>
             if waSections = [] then Inl (mapper_err ''list message requires at least one row'')
             else
               (let listMessage = \<lparr>wlm_Description = truncateRunes (ip_body p) maxBodyLen,
                      wlm_ButtonText = truncateRunes (ip_buttonText p) maxButtonTitleLen,
                      wlm_FooterText = (if ip_footer p \<noteq> [] then truncateRunes (ip_footer p) maxFooterLen else []),
                      wlm_Sections = waSections, wlm_ContextInfo = ci\<rparr>
                in Inr (Message empty_content
                     (no_nested(NDocumentWithCaption := Some (plain_message (empty_content\<lparr>m_List := Some listMessage\<rparr>)))), list_nodes))))"

section \<open>Building a command\<close>

definition no_nodes :: "message result \<times> 'w \<Rightarrow> (message \<times> node list) result \<times> 'w" where
  "no_nodes x = (case x of (Inl err, w) \<Rightarrow> (Inl err, w) | (Inr msg, w) \<Rightarrow> (Inr (msg, []), w))"

definition interactive_required :: "GatewaySendCommand \<Rightarrow> (InteractivePayload \<Rightarrow> (message \<times> node list) result) \<Rightarrow> (message \<times> node list) result" where
  "interactive_required cmd f =
     (case sc_interactive cmd of
        None \<Rightarrow> Inl (mapper_err (''type '' @ go_quote (sc_type cmd) @ '' requires an interactive payload''))
      | Some p \<Rightarrow> f p)"

definition buildByType :: "'w message_builder \<Rightarrow> GatewaySendCommand \<Rightarrow> 'w \<Rightarrow> (message \<times> node list) result \<times> 'w" where
  "buildByType env cmd w =
     (if sc_type cmd = ''text'' then (Inr (buildText (ob_lib env) cmd, []), w)
      else if sc_type cmd = ''image'' then no_nodes (buildMedia env cmd MediaImage w)
      else if sc_type cmd = ''video'' then no_nodes (buildMedia env cmd MediaVideo w)
      else if sc_type cmd = ''audio'' then no_nodes (buildMedia env cmd MediaAudio w)
      else if sc_type cmd = ''document'' then no_nodes (buildMedia env cmd MediaDocument w)
      else if sc_type cmd = ''location'' then no_nodes (buildLocation (ob_lib env) cmd, w)
      else if sc_type cmd = ''contacts'' then no_nodes (buildContacts (ob_lib env) cmd, w)
      else if sc_type cmd = ''buttons''
      then (interactive_required cmd (\<lambda>p. BuildButtons (ob_marshal env) p (contextInfoFor (ob_lib env) cmd)), w)
      else if sc_type cmd = ''list'' then (interactive_required cmd (\<lambda>p. BuildList p (contextInfoFor (ob_lib env) cmd)), w)
      else (Inl (mapper_err (''unsupported message type '' @ go_quote (sc_type cmd))), w))"

definition actionChat :: "'w message_builder \<Rightarrow> jid \<Rightarrow> 'w \<Rightarrow> jid result \<times> 'w" where
  "actionChat env to w =
     (if jid_server to \<noteq> DefaultUserServer then (Inr to, w)
      else
        (case ob_LIDForPN env to w of
           (Inl err, w1) \<Rightarrow> (Inl (Wrap (''mapper: resolve lid for '' @ jid_string (ob_lib env) to @ '': '') err []), w1)
         | (Inr (lid, found), w1) \<Rightarrow> (Inr (if \<not> found then to else lid), w1)))"

definition reactionSender :: "walib \<Rightarrow> GatewaySendCommand \<Rightarrow> jid \<Rightarrow> jid result" where
  "reactionSender lib cmd chat =
     (if sc_targetFromMe cmd then Inr empty_jid
      else if sc_targetParticipantJID cmd = [] then Inr chat
      else
        (case parse_jid lib (sc_targetParticipantJID cmd) of
           Inl err \<Rightarrow> Inl (Wrap (''mapper: parse reaction participant jid '' @ go_quote (sc_targetParticipantJID cmd) @ '': '') err [])
         | Inr participant \<Rightarrow> Inr participant))"

definition buildAction :: "'w message_builder \<Rightarrow> GatewaySendCommand \<Rightarrow> jid \<Rightarrow> 'w \<Rightarrow> (jid \<times> message \<times> node list) result \<times> 'w" where
  "buildAction env cmd to w =
     (if sc_targetProviderMessageID cmd = [] then (Inl (mapper_err (sc_kind cmd @ '' requires targetProviderMessageId'')), w)
      else
        (case actionChat env to w of
           (Inl err, w1) \<Rightarrow> (Inl err, w1)
         | (Inr chat, w1) \<Rightarrow>
             (let target = sc_targetProviderMessageID cmd in
              if sc_kind cmd = ''edit'' then (Inr (chat, ob_BuildEdit env chat target (conversation_message (sc_text cmd)), []), w1)
              else if sc_kind cmd = ''revoke'' then (Inr (chat, ob_BuildRevoke env chat empty_jid target, []), w1)
              else
                (case reactionSender (ob_lib env) cmd chat of
                   Inl err \<Rightarrow> (Inl err, w1)
                 | Inr sender \<Rightarrow> (Inr (chat, ob_BuildReaction env chat sender target (sc_emoji cmd), []), w1)))))"

definition BuildOutbound :: "'w message_builder \<Rightarrow> GatewaySendCommand \<Rightarrow> 'w \<Rightarrow> (jid \<times> message \<times> node list) result \<times> 'w" where
  "BuildOutbound env cmd w =
     (case parse_jid (ob_lib env) (sc_to cmd) of
        Inl err \<Rightarrow> (Inl (Wrap (''mapper: parse recipient jid '' @ go_quote (sc_to cmd) @ '': '') err []), w)
      | Inr to \<Rightarrow>
          if jid_user to = [] then (Inl (mapper_err (''invalid recipient jid '' @ go_quote (sc_to cmd))), w)
          else if sc_kind cmd \<in> {''edit'', ''revoke'', ''reaction''} then buildAction env cmd to w
          else
            (case buildByType env cmd w of
               (Inl err, w1) \<Rightarrow> (Inl err, w1)
             | (Inr (msg, nodes), w1) \<Rightarrow> (Inr (to, if sc_forwarded cmd then markForwarded msg else msg, nodes), w1)))"

section \<open>Limits\<close>

lemma list_rows_count: "list_rows k rows = Inr (n, rs) \<Longrightarrow> n = k + length rs \<and> rs = map list_row rows \<and> (rows \<noteq> [] \<longrightarrow> n \<le> maxListRows)"
proof (induction k rows arbitrary: n rs rule: list_rows.induct)
  case (2 k row rows)
  from 2(2) obtain rs' where r: "\<not> k + 1 > maxListRows" "list_rows (k + 1) rows = Inr (n, rs')" "rs = list_row row # rs'"
    by (auto split: if_splits sum.splits)
  from 2(1) [OF r(1) r(2)] r show ?case by (cases rows) auto
qed simp

definition section_ok :: "wa_list_section \<Rightarrow> bool" where
  "section_ok sec \<longleftrightarrow> length (runes (wls_Title sec)) \<le> maxListTitleLen \<and> wls_Rows sec \<noteq> [] \<and>
     list_all (\<lambda>r. length (runes (wlr_Title r)) \<le> maxListTitleLen \<and> length (runes (wlr_Description r)) \<le> maxListDescLen) (wls_Rows sec)"

lemma list_row_ok:
  "length (runes (wlr_Title (list_row r))) \<le> maxListTitleLen \<and> length (runes (wlr_Description (list_row r))) \<le> maxListDescLen"
  by (simp add: list_row_def truncateRunes_length)

lemma list_sections_ok:
  "list_sections k secs = Inr ws \<Longrightarrow>
     list_all section_ok ws \<and> ws = map (\<lambda>s. \<lparr>wls_Title = truncateRunes (is_title s) maxListTitleLen, wls_Rows = map list_row (is_rows s)\<rparr>)
       (filter (\<lambda>s. is_rows s \<noteq> []) secs) \<and>
     (ws \<noteq> [] \<longrightarrow> k + (\<Sum>s\<leftarrow>ws. length (wls_Rows s)) \<le> maxListRows)"
proof (induction k secs arbitrary: ws rule: list_sections.induct)
  case (2 k sec secs)
  from 2(2) obtain n rs ws' where r: "list_rows k (is_rows sec) = Inr (n, rs)" "list_sections n secs = Inr ws'"
    "ws = (if rs = [] then ws' else \<lparr>wls_Title = truncateRunes (is_title sec) maxListTitleLen, wls_Rows = rs\<rparr> # ws')"
    by (auto split: sum.splits prod.splits)
  note rows = list_rows_count [OF r(1)]
  note IH = 2(1) [OF r(1) refl r(2)]
  show ?case
  proof (cases "rs = []")
    case True
    then have e: "ws = ws'" "n = k" "is_rows sec = []" using r rows by simp_all
    have "filter (\<lambda>s. is_rows s \<noteq> []) (sec # secs) = filter (\<lambda>s. is_rows s \<noteq> []) secs" by (simp add: e(3))
    then show ?thesis using IH unfolding e(1,2) by (metis (no_types, lifting))
  next
    case False
    have "section_ok \<lparr>wls_Title = truncateRunes (is_title sec) maxListTitleLen, wls_Rows = rs\<rparr>"
      using False rows list_row_ok by (auto simp: section_ok_def truncateRunes_length list_all_iff)
    then show ?thesis using r rows IH False by (cases "ws' = []") auto
  qed
qed simp

end
