(* ===== verification/Inbound.thy ===== *)
theory Inbound
  imports InboundRich Base64 StatusEvents
begin

text \<open>
  From a received message to the event that is published (internal/mapper/inbound.go,
  internal/mapper/ad_referral.go and internal/mapper/secrets.go). Downloading, the media store, the
  pictures, the group names and the decryption of envelopes are functions of a world \<open>'w\<close>; the objects
  put into the store are recorded. Times are Unix seconds.
\<close>

section \<open>Events\<close>

record InboundMedia =
  imd_Key :: string
  imd_MimeType :: string
  imd_Filename :: string
  imd_Caption :: string

record InboundLocation =
  ilo_Latitude :: float64
  ilo_Longitude :: float64
  ilo_Name :: string
  ilo_Address :: string
  ilo_Live :: bool

record InboundContactName =
  icm_FormattedName :: string
  icm_FirstName :: string

record InboundContactPhone =
  ich_Phone :: string
  ich_WaID :: string
  ich_Type :: string

record InboundContact =
  icn_Name :: "InboundContactName option"
  icn_Phones :: "InboundContactPhone list"
  icn_Vcard :: string

record InboundReaction =
  irn_MessageID :: string
  irn_Emoji :: string
  irn_SenderJID :: string

record InboundGroupParticipant =
  igp_JID :: string
  igp_Lid :: string
  igp_Pn :: string
  igp_Name :: string
  igp_ProfilePicture :: "Picture option"

record InboundMention =
  imn_JID :: string
  imn_Lid :: string
  imn_Pn :: string

record InboundGroup =
  igr_JID :: string
  igr_Name :: string
  igr_ProfilePicture :: "Picture option"
  igr_Participant :: "InboundGroupParticipant option"

record InboundAdReferral =
  iad_CtwaClid :: string
  iad_SourceID :: string
  iad_SourceType :: string
  iad_SourceApp :: string
  iad_SourceURL :: string
  iad_Headline :: string
  iad_Body :: string
  iad_MediaType :: string
  iad_MediaURL :: string
  iad_ThumbnailURL :: string
  iad_ThumbnailB64 :: string

text \<open>The structs of one field (text, unsupported, target, poll vote) are kept as that field.\<close>

record InboundEvent =
  iv_PhoneNumberID :: string
  iv_From :: string
  iv_SenderLid :: string
  iv_SenderPn :: string
  iv_FromMe :: bool
  iv_ProfileName :: string
  iv_ProviderMessageID :: string
  iv_Timestamp :: string
  iv_Type :: string
  iv_Text :: "string option"
  iv_Media :: "InboundMedia option"
  iv_Location :: "InboundLocation option"
  iv_Contacts :: "InboundContact list"
  iv_ContextMessageID :: string
  iv_Reaction :: "InboundReaction option"
  iv_Unsupported :: "string option"
  iv_Target :: "string option"
  iv_PollVote :: "string list option"
  iv_RichContent :: "InboundRichContent option"
  iv_ProfilePicture :: "Picture option"
  iv_Group :: "InboundGroup option"
  iv_InteractiveReplyID :: string
  iv_AdReferral :: "InboundAdReferral option"
  iv_Origin :: string
  iv_Mentions :: "InboundMention list"
  iv_mentionedJIDs :: "string list"

section \<open>Messages and dependencies\<close>

record wa_event_message =
  xm_ID :: string
  xm_Chat :: jid
  xm_Sender :: jid
  xm_SenderAlt :: jid
  xm_RecipientAlt :: jid
  xm_IsFromMe :: bool
  xm_PushName :: string
  xm_Timestamp :: int
  xm_Message :: "message option"

record 'w message_secrets =
  DecryptSecretEncryptedMessage :: "wa_event_message \<Rightarrow> 'w \<Rightarrow> message option result \<times> 'w"
  DecryptPollVote :: "wa_event_message \<Rightarrow> 'w \<Rightarrow> string list option result \<times> 'w"

record 'w inbound_deps =
  bd_lib :: walib
  bd_Resolver :: resolver
  bd_Download :: "wa_media \<Rightarrow> 'w \<Rightarrow> string result \<times> 'w"
  bd_Put :: "string \<Rightarrow> string \<Rightarrow> string \<Rightarrow> 'w \<Rightarrow> goerr option \<times> 'w"
  bd_Avatars :: "(jid \<Rightarrow> 'w \<Rightarrow> Picture option \<times> 'w) option"
  bd_Groups :: "(jid \<Rightarrow> 'w \<Rightarrow> string \<times> 'w) option"
  bd_Secrets :: "'w message_secrets option"
  bd_ChannelID :: string
  bd_TenantID :: string
  bd_TolerateMediaFailure :: bool
  bd_codec :: mapper_codec
  bd_descr :: "message \<Rightarrow> struct_field list"
  bd_status_name :: "int \<Rightarrow> string option"
  bd_url_host :: "string \<Rightarrow> string result"

record 'w inbound_state =
  bs_world :: 'w
  bs_puts :: "(string \<times> string) list"

definition ErrSkip :: goerr where
  "ErrSkip = Err ESkip ''mapper: inbound message has no mappable user content''"

section \<open>Ad referrals and context\<close>

definition firstNonEmpty :: "string list \<Rightarrow> string" where
  "firstNonEmpty vs = (case find (\<lambda>v. v \<noteq> []) vs of None \<Rightarrow> [] | Some v \<Rightarrow> v)"

definition adMediaType :: "ad_media \<Rightarrow> string" where
  "adMediaType t = (case t of AdImage \<Rightarrow> ''image'' | AdVideo \<Rightarrow> ''video'' | AdOther \<Rightarrow> [])"

definition facebookAdHosts :: "string list" where "facebookAdHosts = [''facebook.com'', ''fb.me'', ''fb.com'']"
definition instagramAdHosts :: "string list" where "instagramAdHosts = [''instagram.com'', ''ig.me'']"

definition matchesAdHost :: "string \<Rightarrow> string list \<Rightarrow> bool" where
  "matchesAdHost host knownHosts = list_ex (\<lambda>known. host = known \<or> has_suffix host (''.'' @ known)) knownHosts"

definition sourceAppFrom :: "(string \<Rightarrow> string result) \<Rightarrow> string \<Rightarrow> string" where
  "sourceAppFrom url_host sourceURL =
     (if sourceURL = [] then []
      else
        (case url_host sourceURL of
           Inl err \<Rightarrow> []
         | Inr hostname \<Rightarrow>
             (let host = ToLower (trim_prefix hostname ''www.'') in
              if host = [] then []
              else if matchesAdHost host facebookAdHosts then ''facebook''
              else if matchesAdHost host instagramAdHosts then ''instagram'' else [])))"

definition adReferralFrom :: "(string \<Rightarrow> string result) \<Rightarrow> context_info \<Rightarrow> InboundAdReferral option" where
  "adReferralFrom url_host ci =
     (case wci_ExternalAdReply ci of
        None \<Rightarrow> None
      | Some ad \<Rightarrow>
          (let conversion = firstNonEmpty [wci_ConversionSource ci, wci_EntryPointConversionSource ci] in
           if wad_CtwaClid ad = [] \<and> (wad_SourceID ad = [] \<or> conversion = []) then None
           else Some \<lparr>iad_CtwaClid = wad_CtwaClid ad, iad_SourceID = wad_SourceID ad, iad_SourceType = wad_SourceType ad,
             iad_SourceApp = sourceAppFrom url_host (wad_SourceURL ad), iad_SourceURL = wad_SourceURL ad, iad_Headline = wad_Title ad,
             iad_Body = wad_Body ad, iad_MediaType = adMediaType (wad_MediaType ad), iad_MediaURL = wad_MediaURL ad,
             iad_ThumbnailURL = wad_ThumbnailURL ad,
             iad_ThumbnailB64 = (if wad_Thumbnail ad = [] then [] else base64_encode (wad_Thumbnail ad))\<rparr>))"

definition applyContextInfo :: "(string \<Rightarrow> string result) \<Rightarrow> context_info option \<Rightarrow> InboundEvent \<Rightarrow> InboundEvent" where
  "applyContextInfo url_host ci out =
     (case ci of
        None \<Rightarrow> out
      | Some c \<Rightarrow>
          (let stanza = get_str (wci_StanzaID c);
               out1 = (if stanza \<noteq> [] then out\<lparr>iv_ContextMessageID := stanza\<rparr> else out);
               out2 = (case adReferralFrom url_host c of None \<Rightarrow> out1 | Some referral \<Rightarrow> out1\<lparr>iv_AdReferral := Some referral\<rparr>)
           in out2\<lparr>iv_mentionedJIDs := wci_MentionedJID c\<rparr>))"

section \<open>Media\<close>

definition media_key :: "string \<Rightarrow> string \<Rightarrow> string" where
  "media_key tenantID providerMessageID = ''inbound-media/'' @ tenantID @ ''/'' @ providerMessageID"

definition media_put ::
  "'w inbound_deps \<Rightarrow> string \<Rightarrow> string \<Rightarrow> string \<Rightarrow> 'w inbound_state \<Rightarrow> goerr option \<times> 'w inbound_state" where
  "media_put deps key mime data s =
     (case bd_Put deps key mime data (bs_world s) of
        (Some err, w) \<Rightarrow> (Some err, s\<lparr>bs_world := w\<rparr>)
      | (None, w) \<Rightarrow> (None, s\<lparr>bs_world := w, bs_puts := bs_puts s @ [(key, mime)]\<rparr>))"

definition downloadAndStore ::
  "'w inbound_deps \<Rightarrow> string \<Rightarrow> string \<Rightarrow> wa_media \<Rightarrow> 'w inbound_state \<Rightarrow> InboundMedia result \<times> 'w inbound_state" where
  "downloadAndStore deps providerMessageID mime msg s =
     (case bd_Download deps msg (bs_world s) of
        (Inl err, w) \<Rightarrow> (Inl (Wrap ''mapper: download media: '' err []), s\<lparr>bs_world := w\<rparr>)
      | (Inr data, w) \<Rightarrow>
          (let key = media_key (bd_TenantID deps) providerMessageID in
           case media_put deps key mime data (s\<lparr>bs_world := w\<rparr>) of
             (Some err, s1) \<Rightarrow> (Inl (Wrap ''mapper: store media: '' err []), s1)
           | (None, s1) \<Rightarrow> (Inr \<lparr>imd_Key = key, imd_MimeType = mime, imd_Filename = [], imd_Caption = []\<rparr>, s1)))"

definition storedMedia ::
  "'w inbound_deps \<Rightarrow> string \<Rightarrow> string \<Rightarrow> wa_media \<Rightarrow> 'w inbound_state \<Rightarrow> InboundMedia result \<times> 'w inbound_state" where
  "storedMedia deps providerMessageID mime msg s =
     (case downloadAndStore deps providerMessageID mime msg s of
        (Inl err, s1) \<Rightarrow>
          if bd_TolerateMediaFailure deps then (Inr \<lparr>imd_Key = [], imd_MimeType = mime, imd_Filename = [], imd_Caption = []\<rparr>, s1)
          else (Inl err, s1)
      | (Inr media, s1) \<Rightarrow> (Inr media, s1))"

section \<open>Encrypted envelopes\<close>

text \<open>The synthetic edit that an encrypted edit is turned into.\<close>

definition edit_message :: "string \<Rightarrow> message option \<Rightarrow> message" where
  "edit_message target edited =
     Message (empty_content\<lparr>m_Protocol := Some \<lparr>wpm_KeyID = target, wpm_Type = MESSAGE_EDIT\<rparr>\<rparr>) (no_nested(NEdited := edited))"

definition editFromSecret ::
  "'w message_secrets \<Rightarrow> wa_event_message \<Rightarrow> wa_secret \<Rightarrow> 'w inbound_state \<Rightarrow> message result \<times> 'w inbound_state" where
  "editFromSecret secrets evt sec s =
     (if \<not> wse_IsEdit sec \<or> wse_TargetID sec = [] then (Inl ErrSkip, s)
      else
        (case DecryptSecretEncryptedMessage secrets evt (bs_world s) of
           (Inl err, w) \<Rightarrow> (Inl ErrSkip, s\<lparr>bs_world := w\<rparr>)
         | (Inr None, w) \<Rightarrow> (Inl ErrSkip, s\<lparr>bs_world := w\<rparr>)
         | (Inr (Some decrypted), w) \<Rightarrow>
             (let inner = get_nested NEdited (Some decrypted);
                  edited = (case m_Protocol (m_content decrypted) of
                      None \<Rightarrow> Some decrypted
                    | Some pm \<Rightarrow> if wpm_Type pm = MESSAGE_EDIT \<and> inner \<noteq> None then inner else Some decrypted)
              in (Inr (edit_message (wse_TargetID sec) edited), s\<lparr>bs_world := w\<rparr>))))"

definition hex_encode :: "string \<Rightarrow> string" where
  "hex_encode s = concat (map hex_byte s)"

text \<open>\<open>decryptEnvelopes\<close>: the message to go on with, or the finished event.\<close>

definition decryptEnvelopes ::
  "'w inbound_deps \<Rightarrow> wa_event_message \<Rightarrow> message option \<Rightarrow> InboundEvent \<Rightarrow> 'w inbound_state \<Rightarrow>
   (message option + InboundEvent) result \<times> 'w inbound_state" where
  "decryptEnvelopes deps evt msg out s =
     (case bd_Secrets deps of
        None \<Rightarrow> (Inr (Inl msg), s)
      | Some secrets \<Rightarrow>
          (case m_SecretEncrypted (get_content msg) of
             Some sec \<Rightarrow>
               (case editFromSecret secrets evt sec s of
                  (Inl err, s1) \<Rightarrow> (Inl err, s1)
                | (Inr edited, s1) \<Rightarrow> (Inr (Inl (Some edited)), s1))
           | None \<Rightarrow>
               (case m_PollUpdate (get_content msg) of
                  None \<Rightarrow> (Inr (Inl msg), s)
                | Some pollID \<Rightarrow>
                    if pollID = [] then (Inl ErrSkip, s)
                    else
                      (case DecryptPollVote secrets evt (bs_world s) of
                         (Inl err, w) \<Rightarrow> (Inl ErrSkip, s\<lparr>bs_world := w\<rparr>)
                       | (Inr None, w) \<Rightarrow> (Inl ErrSkip, s\<lparr>bs_world := w\<rparr>)
                       | (Inr (Some options), w) \<Rightarrow>
                           (Inr (Inr (out\<lparr>iv_Type := ''poll_vote'', iv_Target := Some pollID,
                              iv_PollVote := Some (map hex_encode options)\<rparr>)), s\<lparr>bs_world := w\<rparr>)))))"

section \<open>The switch over the content\<close>

definition contactFrom :: "string \<Rightarrow> string \<Rightarrow> InboundContact" where
  "contactFrom displayName vcard =
     \<lparr>icn_Name = Some \<lparr>icm_FormattedName = displayName, icm_FirstName = []\<rparr>, icn_Phones = [], icn_Vcard = vcard\<rparr>"

definition contact_of :: "wa_contact \<Rightarrow> InboundContact" where
  "contact_of c = contactFrom (get_str (wct_DisplayName c)) (get_str (wct_Vcard c))"

definition applyRichOrFallback ::
  "'w inbound_deps \<Rightarrow> message option \<Rightarrow> InboundRichContent option \<Rightarrow> InboundEvent \<Rightarrow> InboundEvent result" where
  "applyRichOrFallback deps msg rich out =
     (case rich of
        Some r \<Rightarrow> Inr (out\<lparr>iv_Type := rk_Kind r, iv_RichContent := Some r\<rparr>)
      | None \<Rightarrow>
          (case detectContentField (bd_descr deps) msg of
             None \<Rightarrow> Inl ErrSkip
           | Some field \<Rightarrow> Inr (out\<lparr>iv_Type := ''unsupported'', iv_Unsupported := Some field\<rparr>)))"

text \<open>A case that stores the media of the message; \<open>f\<close> completes the media.\<close>

definition media_case ::
  "'w inbound_deps \<Rightarrow> wa_event_message \<Rightarrow> wa_media \<Rightarrow> string \<Rightarrow> (InboundMedia \<Rightarrow> InboundMedia) \<Rightarrow> InboundEvent \<Rightarrow>
   'w inbound_state \<Rightarrow> InboundEvent result \<times> 'w inbound_state" where
  "media_case deps evt m ty f out s =
     (case storedMedia deps (xm_ID evt) (get_str (wmd_Mimetype m)) m s of
        (Inl err, s1) \<Rightarrow> (Inl err, s1)
      | (Inr media, s1) \<Rightarrow>
          (Inr (applyContextInfo (bd_url_host deps) (wmd_ContextInfo m) (out\<lparr>iv_Type := ty, iv_Media := Some (f media)\<rparr>)), s1))"

definition with_caption :: "wa_media \<Rightarrow> InboundMedia \<Rightarrow> InboundMedia" where
  "with_caption m media = media\<lparr>imd_Caption := get_str (wmd_Caption m)\<rparr>"

definition text_case ::
  "'w inbound_deps \<Rightarrow> string \<Rightarrow> context_info option \<Rightarrow> InboundEvent \<Rightarrow> InboundEvent" where
  "text_case deps body ci out = applyContextInfo (bd_url_host deps) ci (out\<lparr>iv_Type := ''text'', iv_Text := Some body\<rparr>)"

text \<open>The cases of the switch, first to last; the last group of cases is the first to be defined.\<close>

definition wa_reply_body :: "wa_reply \<Rightarrow> string" where
  "wa_reply_body resp = (if wre_Text resp = [] then wre_ID resp else wre_Text resp)"

definition interactive_reply_body :: "wa_interactive_reply \<Rightarrow> string" where
  "interactive_reply_body resp =
     (if wir_Body resp \<noteq> [] then wir_Body resp else if wir_ParamsJSON resp \<noteq> [] then wir_ParamsJSON resp else wir_Name resp)"

definition rich_case ::
  "'w inbound_deps \<Rightarrow> message option \<Rightarrow> InboundRichContent option \<Rightarrow> context_info option \<Rightarrow> InboundEvent \<Rightarrow> InboundEvent result" where
  "rich_case deps msg rich ci out =
     (case applyRichOrFallback deps msg rich out of
        Inl err \<Rightarrow> Inl err | Inr out1 \<Rightarrow> Inr (applyContextInfo (bd_url_host deps) ci out1))"

definition product_case ::
  "'w inbound_deps \<Rightarrow> wa_event_message \<Rightarrow> message option \<Rightarrow> wa_product \<Rightarrow> InboundEvent \<Rightarrow> 'w inbound_state \<Rightarrow>
   InboundEvent result \<times> 'w inbound_state" where
  "product_case deps evt msg product out s =
     (case rich_case deps msg (buildProductRich product) (wpr_ContextInfo product) out of
        Inl err \<Rightarrow> (Inl err, s)
      | Inr out1 \<Rightarrow>
          (case (if iv_RichContent out1 = None then None else wpr_ProductImage product) of
             None \<Rightarrow> (Inr out1, s)
           | Some img \<Rightarrow>
               (case downloadAndStore deps (xm_ID evt) (get_str (wmd_Mimetype img)) img s of
                  (Inl err, s1) \<Rightarrow> (Inr out1, s1)
                | (Inr media, s1) \<Rightarrow> (Inr (out1\<lparr>iv_Media := Some media\<rparr>), s1))))"

definition order_case ::
  "'w inbound_deps \<Rightarrow> wa_event_message \<Rightarrow> message option \<Rightarrow> wa_order \<Rightarrow> InboundEvent \<Rightarrow> 'w inbound_state \<Rightarrow>
   InboundEvent result \<times> 'w inbound_state" where
  "order_case deps evt msg order out s =
     (case rich_case deps msg (buildOrderRich (bd_status_name deps) order) (wor_ContextInfo order) out of
        Inl err \<Rightarrow> (Inl err, s)
      | Inr out1 \<Rightarrow>
          if iv_RichContent out1 = None \<or> wor_Thumbnail order = [] then (Inr out1, s)
          else
            (let key = media_key (bd_TenantID deps) (xm_ID evt) in
             case media_put deps key ''image/jpeg'' (wor_Thumbnail order) s of
               (Some err, s1) \<Rightarrow> (Inr out1, s1)
             | (None, s1) \<Rightarrow>
                 (Inr (out1\<lparr>iv_Media := Some \<lparr>imd_Key = key, imd_MimeType = ''image/jpeg'', imd_Filename = [], imd_Caption = []\<rparr>\<rparr>), s1)))"

definition switch_last ::
  "'w inbound_deps \<Rightarrow> message option \<Rightarrow> InboundEvent \<Rightarrow> InboundEvent result" where
  "switch_last deps msg out =
     (let c = get_content msg in
      case m_Event c of Some event \<Rightarrow> rich_case deps msg (buildEventRich event) (wev_ContextInfo event) out
    | None \<Rightarrow>
      case m_GroupInvite c of Some invite \<Rightarrow> Inr (text_case deps (groupInviteBody invite) (wgi_ContextInfo invite) out)
    | None \<Rightarrow>
      case m_RichResponse c of
        Some response \<Rightarrow>
          if richResponseText response = [] then Inl ErrSkip
          else Inr (text_case deps (richResponseText response) (wrr_ContextInfo response) out)
    | None \<Rightarrow>
      case m_RequestPayment c of
        Some request \<Rightarrow> applyRichOrFallback deps msg (buildRequestPaymentRich (get_nested NNote msg) request) out
    | None \<Rightarrow> applyRichOrFallback deps msg None out)"

definition switch_rich ::
  "'w inbound_deps \<Rightarrow> wa_event_message \<Rightarrow> message option \<Rightarrow> InboundEvent \<Rightarrow> 'w inbound_state \<Rightarrow>
   InboundEvent result \<times> 'w inbound_state" where
  "switch_rich deps evt msg out s =
     (let c = get_content msg; mc = bd_codec deps in
      case pollCreationOf msg of
        Some poll \<Rightarrow>
          (case buildPollRich poll of
             None \<Rightarrow> (Inl ErrSkip, s)
           | Some rich \<Rightarrow>
               (Inr (applyContextInfo (bd_url_host deps) (wpo_ContextInfo poll) (out\<lparr>iv_Type := ''poll'', iv_RichContent := Some rich\<rparr>)), s))
    | None \<Rightarrow>
      case m_Buttons c of Some btn \<Rightarrow> (rich_case deps msg (buildButtonsRich btn) (wbm_ContextInfo btn) out, s)
    | None \<Rightarrow>
      case m_Template c of Some tm \<Rightarrow> (rich_case deps msg (buildTemplateRich mc tm) (wtm_ContextInfo tm) out, s)
    | None \<Rightarrow>
      case m_List c of Some l \<Rightarrow> (rich_case deps msg (buildListRich l) (wlm_ContextInfo l) out, s)
    | None \<Rightarrow>
      case m_Interactive c of Some im \<Rightarrow> (rich_case deps msg (buildInteractiveRich mc im) (win_ContextInfo im) out, s)
    | None \<Rightarrow>
      case m_Product c of Some product \<Rightarrow> product_case deps evt msg product out s
    | None \<Rightarrow>
      case m_Order c of Some order \<Rightarrow> order_case deps evt msg order out s
    | None \<Rightarrow> (switch_last deps msg out, s))"

definition reply_case :: "'w inbound_deps \<Rightarrow> wa_reply \<Rightarrow> InboundEvent \<Rightarrow> InboundEvent" where
  "reply_case deps resp out =
     text_case deps (wa_reply_body resp) (wre_ContextInfo resp) (out\<lparr>iv_InteractiveReplyID := wre_ID resp\<rparr>)"

definition switch_reply ::
  "'w inbound_deps \<Rightarrow> wa_event_message \<Rightarrow> message option \<Rightarrow> InboundEvent \<Rightarrow> 'w inbound_state \<Rightarrow>
   InboundEvent result \<times> 'w inbound_state" where
  "switch_reply deps evt msg out s =
     (let c = get_content msg in
      case m_ButtonsResponse c of Some resp \<Rightarrow> (Inr (reply_case deps resp out), s)
    | None \<Rightarrow>
      case m_ListResponse c of Some resp \<Rightarrow> (Inr (reply_case deps resp out), s)
    | None \<Rightarrow>
      case m_TemplateButtonReply c of Some resp \<Rightarrow> (Inr (reply_case deps resp out), s)
    | None \<Rightarrow>
      case m_InteractiveResponse c of
        Some resp \<Rightarrow>
          (Inr (text_case deps (interactive_reply_body resp) (wir_ContextInfo resp)
             (out\<lparr>iv_InteractiveReplyID := nf_ID (parseNativeFlowButtonParams (bd_codec deps) (wir_ParamsJSON resp))\<rparr>)), s)
    | None \<Rightarrow> switch_rich deps evt msg out s)"

definition switch_more ::
  "'w inbound_deps \<Rightarrow> wa_event_message \<Rightarrow> message option \<Rightarrow> InboundEvent \<Rightarrow> 'w inbound_state \<Rightarrow>
   InboundEvent result \<times> 'w inbound_state" where
  "switch_more deps evt msg out s =
     (let c = get_content msg; ctx = applyContextInfo (bd_url_host deps) in
      case m_Location c of
        Some loc \<Rightarrow>
          (Inr (ctx (wlo_ContextInfo loc) (out\<lparr>iv_Type := ''location'', iv_Location := Some \<lparr>ilo_Latitude = wlo_DegreesLatitude loc,
             ilo_Longitude = wlo_DegreesLongitude loc, ilo_Name = get_str (wlo_Name loc), ilo_Address = get_str (wlo_Address loc),
             ilo_Live = False\<rparr>\<rparr>)), s)
    | None \<Rightarrow>
      case m_Contact c of
        Some contact \<Rightarrow> (Inr (ctx (wct_ContextInfo contact) (out\<lparr>iv_Type := ''contacts'', iv_Contacts := [contact_of contact]\<rparr>)), s)
    | None \<Rightarrow>
      case m_ContactsArray c of
        Some arr \<Rightarrow>
          (Inr (ctx (wca_ContextInfo arr) (out\<lparr>iv_Type := ''contacts'', iv_Contacts := map contact_of (wca_Contacts arr)\<rparr>)), s)
    | None \<Rightarrow>
      case m_Sticker c of Some m \<Rightarrow> media_case deps evt m ''sticker'' (\<lambda>x. x) out s
    | None \<Rightarrow>
      case m_Ptv c of Some m \<Rightarrow> media_case deps evt m ''video'' (with_caption m) out s
    | None \<Rightarrow>
      case m_LiveLocation c of
        Some live \<Rightarrow>
          (Inr (ctx (wll_ContextInfo live) (out\<lparr>iv_Type := ''location'', iv_Location := Some \<lparr>ilo_Latitude = wll_DegreesLatitude live,
             ilo_Longitude = wll_DegreesLongitude live, ilo_Name = wll_Caption live, ilo_Address = [], ilo_Live = True\<rparr>\<rparr>)), s)
    | None \<Rightarrow> switch_reply deps evt msg out s)"

definition switch_content ::
  "'w inbound_deps \<Rightarrow> wa_event_message \<Rightarrow> message option \<Rightarrow> InboundEvent \<Rightarrow> 'w inbound_state \<Rightarrow>
   InboundEvent result \<times> 'w inbound_state" where
  "switch_content deps evt msg out s =
     (let c = get_content msg in
      if get_str (m_Conversation c) \<noteq> [] then (Inr (out\<lparr>iv_Type := ''text'', iv_Text := Some (get_str (m_Conversation c))\<rparr>), s)
      else
      case m_ExtendedText c of Some ext \<Rightarrow> (Inr (text_case deps (get_str (wet_Text ext)) (wet_ContextInfo ext) out), s)
    | None \<Rightarrow>
      case m_Reaction c of
        Some r \<Rightarrow>
          (Inr (out\<lparr>iv_Type := ''reaction'', iv_Reaction := Some \<lparr>irn_MessageID = wrx_KeyID r, irn_Emoji = wrx_Text r,
             irn_SenderJID = jid_string (bd_lib deps) (to_non_ad (bd_lib deps) (xm_Sender evt))\<rparr>\<rparr>), s)
    | None \<Rightarrow>
      case m_Image c of Some m \<Rightarrow> media_case deps evt m ''image'' (with_caption m) out s
    | None \<Rightarrow>
      case m_Video c of Some m \<Rightarrow> media_case deps evt m ''video'' (with_caption m) out s
    | None \<Rightarrow>
      case m_Audio c of
        Some m \<Rightarrow> media_case deps evt m (if wmd_PTT m = Some True then ''voice'' else ''audio'') (\<lambda>x. x) out s
    | None \<Rightarrow>
      case m_Document c of
        Some m \<Rightarrow> media_case deps evt m ''document'' (\<lambda>x. (with_caption m x)\<lparr>imd_Filename := get_str (wmd_FileName m)\<rparr>) out s
    | None \<Rightarrow> switch_more deps evt msg out s)"

section \<open>Building an event\<close>

definition identityJIDs :: "wa_event_message \<Rightarrow> jid \<times> jid" where
  "identityJIDs evt = (if xm_IsFromMe evt then (xm_Chat evt, xm_RecipientAlt evt) else (xm_Sender evt, xm_SenderAlt evt))"

definition contactPushName :: "wa_event_message \<Rightarrow> string" where
  "contactPushName evt = (if xm_IsFromMe evt then [] else xm_PushName evt)"

definition new_event :: "'w inbound_deps \<Rightarrow> wa_event_message \<Rightarrow> InboundEvent" where
  "new_event deps evt =
     (case identityJIDs evt of
        (jid, alt) \<Rightarrow>
          (case Resolve (bd_Resolver deps) jid alt of
             (senderLid, senderPn) \<Rightarrow>
               \<lparr>iv_PhoneNumberID = bd_ChannelID deps, iv_From = sender_From senderLid senderPn, iv_SenderLid = senderLid,
                iv_SenderPn = senderPn, iv_FromMe = xm_IsFromMe evt, iv_ProfileName = contactPushName evt,
                iv_ProviderMessageID = xm_ID evt, iv_Timestamp = show_int (xm_Timestamp evt), iv_Type = [], iv_Text = None,
                iv_Media = None, iv_Location = None, iv_Contacts = [], iv_ContextMessageID = [], iv_Reaction = None,
                iv_Unsupported = None, iv_Target = None, iv_PollVote = None, iv_RichContent = None, iv_ProfilePicture = None,
                iv_Group = None, iv_InteractiveReplyID = [], iv_AdReferral = None, iv_Origin = [], iv_Mentions = [],
                iv_mentionedJIDs = []\<rparr>))"

text \<open>The protocol messages: a revocation and an edit of a known message; all others are skipped.\<close>

definition protocol_case :: "wa_protocol \<Rightarrow> message option \<Rightarrow> InboundEvent \<Rightarrow> InboundEvent result" where
  "protocol_case pm edited out =
     (if wpm_Type pm = REVOKE \<and> wpm_KeyID pm \<noteq> [] then Inr (out\<lparr>iv_Type := ''revoke'', iv_Target := Some (wpm_KeyID pm)\<rparr>)
      else if wpm_Type pm = MESSAGE_EDIT \<and> wpm_KeyID pm \<noteq> []
      then Inr (out\<lparr>iv_Type := ''edit'', iv_Target := Some (wpm_KeyID pm), iv_Text := Some (extractText (unwrapMessage edited))\<rparr>)
      else Inl ErrSkip)"

definition after_decryption ::
  "'w inbound_deps \<Rightarrow> wa_event_message \<Rightarrow> message option \<Rightarrow> InboundEvent \<Rightarrow> 'w inbound_state \<Rightarrow>
   InboundEvent result \<times> 'w inbound_state" where
  "after_decryption deps evt msg out s =
     (case m_Protocol (get_content msg) of
        Some pm \<Rightarrow> (protocol_case pm (get_nested NEdited msg) out, s)
      | None \<Rightarrow> if isSilentNotice msg then (Inl ErrSkip, s) else switch_content deps evt msg out s)"

text \<open>The message that the event is about, and the id that a comment points to.\<close>

definition comment_of :: "wa_event_message \<Rightarrow> InboundEvent \<Rightarrow> message option \<times> InboundEvent" where
  "comment_of evt out =
     (let msg = unwrapMessage (xm_Message evt) in
      if get_nested NComment msg \<noteq> None
      then (unwrapMessage (get_nested NComment msg), out\<lparr>iv_ContextMessageID := m_CommentTarget (get_content msg)\<rparr>)
      else (msg, out))"

definition build_inbound ::
  "'w inbound_deps \<Rightarrow> wa_event_message \<Rightarrow> 'w inbound_state \<Rightarrow> InboundEvent result \<times> 'w inbound_state" where
  "build_inbound deps evt s =
     (if KindOf (xm_Chat evt) = ChatIgnored then (Inl ErrSkip, s)
      else
        (case comment_of evt (new_event deps evt) of
           (msg, out) \<Rightarrow>
             (case decryptEnvelopes deps evt msg out s of
                (Inl err, s1) \<Rightarrow> (Inl err, s1)
              | (Inr (Inr out1), s1) \<Rightarrow> (Inr out1, s1)
              | (Inr (Inl msg1), s1) \<Rightarrow> after_decryption deps evt msg1 out s1)))"

definition resolveMentions :: "walib \<Rightarrow> resolver \<Rightarrow> string list \<Rightarrow> InboundMention list" where
  "resolveMentions lib resolver jids =
     List.map_filter (\<lambda>raw.
        case parse_jid lib raw of
          Inl err \<Rightarrow> None
        | Inr jid \<Rightarrow>
            if jid_user jid = [] then None
            else (case Resolve resolver (to_non_ad lib jid) empty_jid of
                    (lid, pn) \<Rightarrow> Some \<lparr>imn_JID = jid_string lib (to_non_ad lib jid), imn_Lid = lid, imn_Pn = pn\<rparr>)) jids"

definition picture_for :: "'w inbound_deps \<Rightarrow> jid \<Rightarrow> 'w inbound_state \<Rightarrow> Picture option \<times> 'w inbound_state" where
  "picture_for deps jid s =
     (case bd_Avatars deps of
        None \<Rightarrow> (None, s)
      | Some avatars \<Rightarrow> (case avatars jid (bs_world s) of (pic, w) \<Rightarrow> (pic, s\<lparr>bs_world := w\<rparr>)))"

definition group_name :: "'w inbound_deps \<Rightarrow> jid \<Rightarrow> 'w inbound_state \<Rightarrow> string \<times> 'w inbound_state" where
  "group_name deps jid s =
     (case bd_Groups deps of
        None \<Rightarrow> ([], s)
      | Some groups \<Rightarrow> (case groups jid (bs_world s) of (name, w) \<Rightarrow> (name, s\<lparr>bs_world := w\<rparr>)))"

definition applyGroup ::
  "'w inbound_deps \<Rightarrow> wa_event_message \<Rightarrow> InboundEvent \<Rightarrow> 'w inbound_state \<Rightarrow> InboundEvent \<times> 'w inbound_state" where
  "applyGroup deps evt out s =
     (let lib = bd_lib deps; gjid = jid_string lib (xm_Chat evt) in
      case group_name deps (xm_Chat evt) s of (name, s1) \<Rightarrow>
      case picture_for deps (xm_Chat evt) s1 of (gpic, s2) \<Rightarrow>
      case (if xm_IsFromMe evt then (None, s2)
            else (case picture_for deps (xm_Sender evt) s2 of
                    (ppic, s3) \<Rightarrow>
                      (Some \<lparr>igp_JID = jid_string lib (to_non_ad lib (xm_Sender evt)), igp_Lid = iv_SenderLid out, igp_Pn = iv_SenderPn out,
                         igp_Name = xm_PushName evt, igp_ProfilePicture = ppic\<rparr>, s3))) of (participant, s4) \<Rightarrow>
        (out\<lparr>iv_Group := Some \<lparr>igr_JID = gjid, igr_Name = name, igr_ProfilePicture = gpic, igr_Participant = participant\<rparr>,
           iv_Mentions := resolveMentions lib (bd_Resolver deps) (iv_mentionedJIDs out), iv_From := gjid, iv_SenderLid := [],
           iv_SenderPn := [], iv_ProfileName := []\<rparr>, s4))"

definition BuildInbound ::
  "'w inbound_deps \<Rightarrow> wa_event_message \<Rightarrow> 'w inbound_state \<Rightarrow> InboundEvent result \<times> 'w inbound_state" where
  "BuildInbound deps evt s =
     (case build_inbound deps evt s of
        (Inl err, s1) \<Rightarrow> (Inl err, s1)
      | (Inr out, s1) \<Rightarrow>
          if KindOf (xm_Chat evt) = ChatGroup then (case applyGroup deps evt out s1 of (out1, s2) \<Rightarrow> (Inr out1, s2))
          else if bd_Avatars deps \<noteq> None \<and> \<not> xm_IsFromMe evt
          then (case picture_for deps (fst (identityJIDs evt)) s1 of (pic, s2) \<Rightarrow> (Inr (out\<lparr>iv_ProfilePicture := pic\<rparr>), s2))
          else (Inr out, s1))"

end
