(* ===== verification/InboundFacts.thy ===== *)
theory InboundFacts
  imports Inbound
begin

text \<open>
  What internal/mapper/inbound.go guarantees of the events that it builds: the payload fits the type, the media
  was stored under the key of the message, and a group message is attributed to its group.
\<close>

section \<open>Outcomes\<close>

definition media_types :: "string list" where
  "media_types = [''image'', ''video'', ''voice'', ''audio'', ''document'', ''sticker'']"

definition rich_types :: "string list" where
  "rich_types = [''poll'', ''buttons'', ''list'', ''interactive'', ''product'', ''order'', ''event'']"

text \<open>The payload that consumers expect with a type.\<close>

definition payload_ok :: "InboundEvent \<Rightarrow> bool" where
  "payload_ok e \<longleftrightarrow>
     iv_Type e = ''text'' \<and> iv_Text e \<noteq> None \<or>
     iv_Type e \<in> set media_types \<and> iv_Media e \<noteq> None \<or>
     iv_Type e = ''location'' \<and> iv_Location e \<noteq> None \<or>
     iv_Type e = ''contacts'' \<or>
     iv_Type e = ''reaction'' \<and> iv_Reaction e \<noteq> None \<or>
     iv_Type e \<in> set rich_types \<and> map_option rk_Kind (iv_RichContent e) = Some (iv_Type e) \<or>
     iv_Type e = ''unsupported'' \<and> iv_Unsupported e \<noteq> None \<or>
     iv_Type e = ''revoke'' \<and> iv_Target e \<notin> {None, Some []} \<or>
     iv_Type e = ''edit'' \<and> iv_Target e \<notin> {None, Some []} \<and> iv_Text e \<noteq> None \<or>
     iv_Type e = ''poll_vote'' \<and> iv_Target e \<notin> {None, Some []} \<and> iv_PollVote e \<noteq> None"

text \<open>The objects stored meanwhile, and the media of the event among them.\<close>

definition stored_ok :: "'w inbound_deps \<Rightarrow> wa_event_message \<Rightarrow> (string \<times> string) list \<Rightarrow> InboundMedia option \<Rightarrow> bool" where
  "stored_ok deps evt new media \<longleftrightarrow>
     (new = [] \<or> (\<exists>mime. new = [(media_key (bd_TenantID deps) (xm_ID evt), mime)])) \<and>
     (case media of None \<Rightarrow> True | Some m \<Rightarrow> imd_Key m = [] \<or> new = [(imd_Key m, imd_MimeType m)])"

definition same_sender :: "InboundEvent \<Rightarrow> InboundEvent \<Rightarrow> bool" where
  "same_sender e e' \<longleftrightarrow>
     iv_From e = iv_From e' \<and> iv_SenderLid e = iv_SenderLid e' \<and> iv_SenderPn e = iv_SenderPn e' \<and> iv_FromMe e = iv_FromMe e' \<and>
     iv_ProfileName e = iv_ProfileName e' \<and> iv_Group e = iv_Group e' \<and> iv_Mentions e = iv_Mentions e' \<and>
     iv_ProviderMessageID e = iv_ProviderMessageID e' \<and> iv_PhoneNumberID e = iv_PhoneNumberID e'"

definition outcome_ok ::
  "'w inbound_deps \<Rightarrow> wa_event_message \<Rightarrow> InboundEvent \<Rightarrow> 'w inbound_state \<Rightarrow> InboundEvent result \<times> 'w inbound_state \<Rightarrow> bool" where
  "outcome_ok deps evt out s x \<longleftrightarrow>
     (\<exists>new. bs_puts (snd x) = bs_puts s @ new \<and>
        (case fst x of
           Inl err \<Rightarrow> stored_ok deps evt new None
         | Inr e \<Rightarrow> payload_ok e \<and> stored_ok deps evt new (iv_Media e) \<and> same_sender out e))"

lemma context_fields [simp]:
  "iv_Type (applyContextInfo u ci e) = iv_Type e" "iv_Text (applyContextInfo u ci e) = iv_Text e"
  "iv_Media (applyContextInfo u ci e) = iv_Media e" "iv_Location (applyContextInfo u ci e) = iv_Location e"
  "iv_Reaction (applyContextInfo u ci e) = iv_Reaction e" "iv_RichContent (applyContextInfo u ci e) = iv_RichContent e"
  "iv_Unsupported (applyContextInfo u ci e) = iv_Unsupported e" "iv_Target (applyContextInfo u ci e) = iv_Target e"
  "iv_PollVote (applyContextInfo u ci e) = iv_PollVote e" "iv_Contacts (applyContextInfo u ci e) = iv_Contacts e"
  "iv_From (applyContextInfo u ci e) = iv_From e" "iv_SenderLid (applyContextInfo u ci e) = iv_SenderLid e"
  "iv_SenderPn (applyContextInfo u ci e) = iv_SenderPn e" "iv_FromMe (applyContextInfo u ci e) = iv_FromMe e"
  "iv_ProfileName (applyContextInfo u ci e) = iv_ProfileName e" "iv_Group (applyContextInfo u ci e) = iv_Group e"
  "iv_Mentions (applyContextInfo u ci e) = iv_Mentions e" "iv_ProviderMessageID (applyContextInfo u ci e) = iv_ProviderMessageID e"
  "iv_PhoneNumberID (applyContextInfo u ci e) = iv_PhoneNumberID e"
  by (simp_all add: applyContextInfo_def Let_def split: option.split)

lemma same_sender_refl [simp]: "same_sender e e"
  by (simp add: same_sender_def)

lemma same_sender_context [simp]: "same_sender out (applyContextInfo u ci e) = same_sender out e"
  by (simp add: same_sender_def)

lemma payload_context [simp]: "payload_ok (applyContextInfo u ci e) = payload_ok e"
  by (simp add: payload_ok_def)

lemma same_sender_updates [simp]:
  "same_sender out (e\<lparr>iv_Type := t\<rparr>) = same_sender out e" "same_sender out (e\<lparr>iv_Text := x\<rparr>) = same_sender out e"
  "same_sender out (e\<lparr>iv_Media := m\<rparr>) = same_sender out e" "same_sender out (e\<lparr>iv_Location := l\<rparr>) = same_sender out e"
  "same_sender out (e\<lparr>iv_Contacts := c\<rparr>) = same_sender out e" "same_sender out (e\<lparr>iv_Reaction := r\<rparr>) = same_sender out e"
  "same_sender out (e\<lparr>iv_RichContent := k\<rparr>) = same_sender out e" "same_sender out (e\<lparr>iv_Unsupported := q\<rparr>) = same_sender out e"
  "same_sender out (e\<lparr>iv_Target := g\<rparr>) = same_sender out e" "same_sender out (e\<lparr>iv_PollVote := v\<rparr>) = same_sender out e"
  "same_sender out (e\<lparr>iv_InteractiveReplyID := i\<rparr>) = same_sender out e"
  "same_sender out (e\<lparr>iv_ContextMessageID := i\<rparr>) = same_sender out e"
  by (simp_all add: same_sender_def)

lemma outcome_error [simp]: "outcome_ok deps evt out s (Inl err, s)"
  by (simp add: outcome_ok_def stored_ok_def)

lemma outcome_event: "payload_ok e \<Longrightarrow> iv_Media e = None \<Longrightarrow> same_sender out e \<Longrightarrow> outcome_ok deps evt out s (Inr e, s)"
  by (simp add: outcome_ok_def stored_ok_def)

section \<open>The cases\<close>

lemma text_case_ok: "iv_Media e = None \<Longrightarrow> same_sender out e \<Longrightarrow> outcome_ok deps evt out s (Inr (text_case deps body ci e), s)"
  by (intro outcome_event) (simp_all add: text_case_def payload_ok_def)

lemma media_put_puts: "media_put deps key mime data s = (r, s1) \<Longrightarrow> bs_puts s1 = bs_puts s @ (if r = None then [(key, mime)] else [])"
  by (auto simp: media_put_def split: prod.splits option.splits)

lemma downloadAndStore_ok:
  "downloadAndStore deps mid mime m s = (r, s1) \<Longrightarrow>
   (case r of Inl err \<Rightarrow> bs_puts s1 = bs_puts s
    | Inr media \<Rightarrow> imd_Key media = media_key (bd_TenantID deps) mid \<and> imd_MimeType media = mime \<and>
        bs_puts s1 = bs_puts s @ [(imd_Key media, imd_MimeType media)])"
  by (auto simp: downloadAndStore_def Let_def dest!: media_put_puts split: prod.splits sum.splits option.splits)

lemma storedMedia_ok:
  "storedMedia deps mid mime m s = (r, s1) \<Longrightarrow>
   (case r of Inl err \<Rightarrow> bs_puts s1 = bs_puts s
    | Inr media \<Rightarrow> (imd_Key media = [] \<and> bs_puts s1 = bs_puts s) \<or>
       (imd_Key media = media_key (bd_TenantID deps) mid \<and> bs_puts s1 = bs_puts s @ [(imd_Key media, imd_MimeType media)]))"
  by (auto simp: storedMedia_def dest!: downloadAndStore_ok split: prod.splits sum.splits if_splits)

lemma media_case_ok:
  assumes "ty \<in> set media_types" "same_sender out e"
    and f: "\<And>x. imd_Key (f x) = imd_Key x \<and> imd_MimeType (f x) = imd_MimeType x"
  shows "outcome_ok deps evt out s (media_case deps evt m ty f e s)"
proof (cases "storedMedia deps (xm_ID evt) (get_str (wmd_Mimetype m)) m s")
  case (Pair r s1)
  note st = storedMedia_ok [OF Pair]
  show ?thesis
  proof (cases r)
    case (Inl err)
    then show ?thesis using st by (simp add: media_case_def Pair outcome_ok_def stored_ok_def)
  next
    case (Inr media)
    have "payload_ok (applyContextInfo (bd_url_host deps) (wmd_ContextInfo m) (e\<lparr>iv_Type := ty, iv_Media := Some (f media)\<rparr>))"
      using assms(1) by (simp add: payload_ok_def)
    then show ?thesis
      using st Inr assms(2) by (auto simp: media_case_def Pair outcome_ok_def stored_ok_def f)
  qed
qed

lemma rich_kinds:
  "buildPollRich p = Some r \<Longrightarrow> rk_Kind r = ''poll''" "buildButtonsRich b = Some r \<Longrightarrow> rk_Kind r = ''buttons''"
  "buildListRich l = Some r \<Longrightarrow> rk_Kind r = ''list''" "buildInteractiveRich mc im = Some r \<Longrightarrow> rk_Kind r = ''interactive''"
  "buildTemplateRich mc tm = Some r \<Longrightarrow> rk_Kind r \<in> {''buttons'', ''interactive''}"
  "buildProductRich pr = Some r \<Longrightarrow> rk_Kind r = ''product''" "buildOrderRich sn od = Some r \<Longrightarrow> rk_Kind r = ''order''"
  "buildEventRich ev = Some r \<Longrightarrow> rk_Kind r = ''event''" "buildRequestPaymentRich nt rq = Some r \<Longrightarrow> rk_Kind r = ''interactive''"
  by (auto simp: buildPollRich_def buildButtonsRich_def buildListRich_def buildInteractiveRich_def buildTemplateRich_def
      buildProductRich_def buildOrderRich_def buildEventRich_def buildRequestPaymentRich_def empty_rich_def Let_def
      dest!: buttons_content_kind interactive_kind split: if_splits option.splits)

text \<open>A rich content or its fallback; \<open>kinds\<close> are the kinds the builder gives.\<close>

definition rich_ok :: "InboundRichContent option \<Rightarrow> bool" where
  "rich_ok rich \<longleftrightarrow> (\<forall>r. rich = Some r \<longrightarrow> rk_Kind r \<in> set rich_types)"

lemma rich_ok_builders [simp]:
  "rich_ok None" "rich_ok (buildPollRich p)" "rich_ok (buildButtonsRich b)" "rich_ok (buildListRich l)" "rich_ok (buildInteractiveRich mc im)"
  "rich_ok (buildTemplateRich mc tm)" "rich_ok (buildProductRich pr)" "rich_ok (buildOrderRich sn od)"
  "rich_ok (buildEventRich ev)" "rich_ok (buildRequestPaymentRich nt rq)"
  by (auto simp: rich_ok_def rich_types_def dest: rich_kinds)

lemma payload_rich:
  "iv_RichContent e = Some r \<Longrightarrow> rk_Kind r \<in> set rich_types \<Longrightarrow> iv_Type e = rk_Kind r \<Longrightarrow> payload_ok e"
  unfolding payload_ok_def by simp

lemma payload_unsupported: "iv_Type e = ''unsupported'' \<Longrightarrow> iv_Unsupported e \<noteq> None \<Longrightarrow> payload_ok e"
  unfolding payload_ok_def by simp

lemma applyRichOrFallback_ok:
  assumes "rich_ok rich" "applyRichOrFallback deps msg rich out = Inr e"
  shows "payload_ok e \<and> iv_Media e = iv_Media out \<and> same_sender out e"
proof (cases rich)
  case None
  then obtain field where e: "e = out\<lparr>iv_Type := ''unsupported'', iv_Unsupported := Some field\<rparr>"
    using assms(2) by (auto simp: applyRichOrFallback_def split: option.splits)
  have "payload_ok e" by (rule payload_unsupported) (simp_all add: e)
  then show ?thesis by (simp add: e)
next
  case (Some r)
  then have e: "e = out\<lparr>iv_Type := rk_Kind r, iv_RichContent := Some r\<rparr>" using assms(2) by (simp add: applyRichOrFallback_def)
  have "payload_ok e" by (rule payload_rich [of _ r]) (use assms(1) Some in \<open>simp_all add: e rich_ok_def\<close>)
  then show ?thesis by (simp add: e)
qed

lemma rich_case_ok:
  assumes "rich_ok rich" "rich_case deps msg rich ci out = Inr e"
  shows "payload_ok e \<and> iv_Media e = iv_Media out \<and> same_sender out e"
proof -
  from assms(2) obtain e1 where "applyRichOrFallback deps msg rich out = Inr e1" "e = applyContextInfo (bd_url_host deps) ci e1"
    by (auto simp: rich_case_def split: sum.splits)
  with applyRichOrFallback_ok [OF assms(1) this(1)] show ?thesis by simp
qed

lemma outcome_result:
  assumes "\<And>e. r = Inr e \<Longrightarrow> payload_ok e \<and> iv_Media e = None \<and> same_sender out e"
  shows "outcome_ok deps evt out s (r, s)"
  using assms by (cases r) (auto intro: outcome_event)

lemma rich_outcome:
  assumes "rich_ok rich" "iv_Media out = None"
  shows "outcome_ok deps evt out s (rich_case deps msg rich ci out, s)"
  by (rule outcome_result, drule rich_case_ok [OF assms(1)]) (simp add: assms(2))

lemma fallback_outcome:
  assumes "rich_ok rich" "iv_Media out = None"
  shows "outcome_ok deps evt out s (applyRichOrFallback deps msg rich out, s)"
  by (rule outcome_result, drule applyRichOrFallback_ok [OF assms(1)]) (simp add: assms(2))

lemma payload_set_media: "payload_ok e \<Longrightarrow> payload_ok (e\<lparr>iv_Media := Some m\<rparr>)"
  unfolding payload_ok_def by auto

lemma product_case_ok:
  assumes "iv_Media out = None"
  shows "outcome_ok deps evt out s (product_case deps evt msg product out s)"
proof (cases "rich_case deps msg (buildProductRich product) (wpr_ContextInfo product) out")
  case (Inl err)
  then show ?thesis by (simp add: product_case_def)
next
  case (Inr e)
  note e = rich_case_ok [OF rich_ok_builders(7) Inr]
  then have plain: "outcome_ok deps evt out s (Inr e, s)" using assms by (intro outcome_event) simp_all
  show ?thesis
  proof (cases "if iv_RichContent e = None then None else wpr_ProductImage product")
    case None
    then show ?thesis using plain by (simp add: product_case_def Inr del: if_split_asm split del: if_split)
  next
    case (Some img)
    obtain r s1 where d: "downloadAndStore deps (xm_ID evt) (get_str (wmd_Mimetype img)) img s = (r, s1)" by fastforce
    show ?thesis
      using e assms downloadAndStore_ok [OF d] payload_set_media [of e]
      by (auto simp: product_case_def Inr Some d outcome_ok_def stored_ok_def split: sum.splits simp del: split_paired_Ex split del: if_split)
  qed
qed

lemma order_case_ok:
  assumes "iv_Media out = None"
  shows "outcome_ok deps evt out s (order_case deps evt msg od out s)"
proof (cases "rich_case deps msg (buildOrderRich (bd_status_name deps) od) (wor_ContextInfo od) out")
  case (Inl err)
  then show ?thesis by (simp add: order_case_def)
next
  case (Inr e)
  note e = rich_case_ok [OF rich_ok_builders(8) Inr]
  then have plain: "outcome_ok deps evt out s (Inr e, s)" using assms by (intro outcome_event) simp_all
  obtain r s1 where d: "media_put deps (media_key (bd_TenantID deps) (xm_ID evt)) ''image/jpeg'' (wor_Thumbnail od) s = (r, s1)" by fastforce
  show ?thesis
    using e assms plain media_put_puts [OF d] payload_set_media [of e]
    by (auto simp: order_case_def Inr d Let_def outcome_ok_def stored_ok_def split: option.splits)
qed

section \<open>The switch\<close>

lemma payload_simple:
  "iv_Type e = ''location'' \<Longrightarrow> iv_Location e \<noteq> None \<Longrightarrow> payload_ok e" "iv_Type e = ''contacts'' \<Longrightarrow> payload_ok e"
  "iv_Type e = ''reaction'' \<Longrightarrow> iv_Reaction e \<noteq> None \<Longrightarrow> payload_ok e" "iv_Type e = ''text'' \<Longrightarrow> iv_Text e \<noteq> None \<Longrightarrow> payload_ok e"
  unfolding payload_ok_def by simp_all

lemma switch_last_ok:
  "iv_Media out = None \<Longrightarrow> outcome_ok deps evt out s (switch_last deps msg out, s)"
  unfolding switch_last_def Let_def
  by (auto intro: rich_outcome fallback_outcome text_case_ok split: option.split)

lemma switch_rich_ok:
  assumes "iv_Media out = None"
  shows "outcome_ok deps evt out s (switch_rich deps evt msg out s)"
proof -
  have poll: "outcome_ok deps evt out s (Inr (applyContextInfo u ci (out\<lparr>iv_Type := ''poll'', iv_RichContent := Some rich\<rparr>)), s)"
    if "buildPollRich p = Some rich" for u ci p rich
    using rich_kinds(1) [OF that] assms
    by (intro outcome_event) (auto simp: rich_types_def intro!: payload_rich [of _ rich])
  show ?thesis
    unfolding switch_rich_def Let_def
    using assms by (auto intro: rich_outcome product_case_ok order_case_ok switch_last_ok poll split: option.split)
qed

lemma switch_reply_ok:
  assumes "iv_Media out = None"
  shows "outcome_ok deps evt out s (switch_reply deps evt msg out s)"
  unfolding switch_reply_def reply_case_def Let_def
  using assms by (auto intro!: text_case_ok switch_rich_ok split: option.split)

lemma simple_outcomes:
  assumes "iv_Media out = None"
  shows "outcome_ok deps evt out s (Inr (applyContextInfo u ci (out\<lparr>iv_Type := ''location'', iv_Location := Some l\<rparr>)), s)"
    "outcome_ok deps evt out s (Inr (applyContextInfo u ci (out\<lparr>iv_Type := ''contacts'', iv_Contacts := cs\<rparr>)), s)"
    "outcome_ok deps evt out s (Inr (out\<lparr>iv_Type := ''reaction'', iv_Reaction := Some r\<rparr>), s)"
    "outcome_ok deps evt out s (Inr (out\<lparr>iv_Type := ''text'', iv_Text := Some t\<rparr>), s)"
  using assms by (simp_all add: outcome_event payload_simple)

lemma media_outcomes:
  assumes "iv_Media out = None" "ty \<in> set media_types"
  shows "outcome_ok deps evt out s (media_case deps evt m ty (\<lambda>x. x) out s)"
    "outcome_ok deps evt out s (media_case deps evt m ty (with_caption m) out s)"
    "outcome_ok deps evt out s (media_case deps evt m ty (\<lambda>x. (with_caption m x)\<lparr>imd_Filename := n\<rparr>) out s)"
  using assms by (auto intro!: media_case_ok simp: with_caption_def)

lemma media_type_names: "{''image'', ''video'', ''voice'', ''audio'', ''document'', ''sticker''} \<subseteq> set media_types"
  by (simp add: media_types_def)

lemma switch_more_ok:
  assumes "iv_Media out = None"
  shows "outcome_ok deps evt out s (switch_more deps evt msg out s)"
  unfolding switch_more_def Let_def
  using assms media_type_names by (auto intro!: media_outcomes switch_reply_ok simple_outcomes split: option.split)

lemma switch_content_ok:
  assumes "iv_Media out = None"
  shows "outcome_ok deps evt out s (switch_content deps evt msg out s)"
  unfolding switch_content_def Let_def
  using assms media_type_names
  by (auto intro!: media_outcomes switch_more_ok text_case_ok simple_outcomes split: option.split)

section \<open>The whole event\<close>

definition clean_event :: "InboundEvent \<Rightarrow> bool" where
  "clean_event e \<longleftrightarrow> iv_Media e = None \<and> iv_Group e = None \<and> iv_Mentions e = []"

lemma protocol_case_ok:
  assumes "protocol_case pm edited out = Inr e" "iv_Media out = None"
  shows "payload_ok e \<and> iv_Media e = None \<and> same_sender out e"
proof (cases "wpm_Type pm = REVOKE \<and> wpm_KeyID pm \<noteq> []")
  case True
  then have e: "e = out\<lparr>iv_Type := ''revoke'', iv_Target := Some (wpm_KeyID pm)\<rparr>" using assms(1) by (simp add: protocol_case_def)
  have "payload_ok e" unfolding payload_ok_def using True by (simp add: e)
  then show ?thesis by (simp add: e assms(2))
next
  case False
  then have t: "wpm_KeyID pm \<noteq> []" and e: "e = out\<lparr>iv_Type := ''edit'', iv_Target := Some (wpm_KeyID pm), iv_Text := Some (extractText (unwrapMessage edited))\<rparr>"
    using assms(1) by (auto simp: protocol_case_def split: if_splits)
  have "payload_ok e" unfolding payload_ok_def using t by (simp add: e)
  then show ?thesis by (simp add: e assms(2))
qed

lemma after_decryption_ok:
  assumes "iv_Media out = None"
  shows "outcome_ok deps evt out s (after_decryption deps evt msg out s)"
proof (cases "m_Protocol (get_content msg)")
  case None
  then show ?thesis by (simp add: after_decryption_def switch_content_ok [OF assms])
next
  case (Some pm)
  have "outcome_ok deps evt out s (protocol_case pm (get_nested NEdited msg) out, s)"
    by (rule outcome_result) (rule protocol_case_ok [OF _ assms])
  then show ?thesis using Some by (simp add: after_decryption_def)
qed

lemma decryptEnvelopes_ok:
  assumes "decryptEnvelopes deps evt msg out s = (r, s1)"
  shows "bs_puts s1 = bs_puts s \<and> (\<forall>e. r = Inr (Inr e) \<longrightarrow>
    (\<exists>t v. t \<noteq> [] \<and> e = out\<lparr>iv_Type := ''poll_vote'', iv_Target := Some t, iv_PollVote := Some v\<rparr>))"
  using assms
  by (auto simp: decryptEnvelopes_def editFromSecret_def Let_def split: option.splits prod.splits sum.splits if_splits)

lemma outcome_same:
  assumes "outcome_ok deps evt out s1 x" "bs_puts s1 = bs_puts s" "same_sender out0 out"
  shows "outcome_ok deps evt out0 s x"
  using assms by (auto simp: outcome_ok_def same_sender_def split: sum.splits)

lemma new_event_clean: "clean_event (new_event deps evt)"
  by (simp add: clean_event_def new_event_def split: prod.split)

lemma comment_clean: "comment_of evt out = (msg, e) \<Longrightarrow> iv_Media e = iv_Media out \<and> same_sender out e"
  by (auto simp: comment_of_def Let_def split: if_splits)

lemma build_inbound_ok: "outcome_ok deps evt (new_event deps evt) s (build_inbound deps evt s)"
proof (cases "KindOf (xm_Chat evt) = ChatIgnored")
  case True
  then show ?thesis by (simp add: build_inbound_def)
next
  case False
  obtain msg out where c: "comment_of evt (new_event deps evt) = (msg, out)" by fastforce
  have m: "iv_Media out = None" and sender: "same_sender (new_event deps evt) out"
    using comment_clean [OF c] new_event_clean [of deps evt] by (simp_all add: clean_event_def)
  obtain r s1 where d: "decryptEnvelopes deps evt msg out s = (r, s1)" by fastforce
  note dk = decryptEnvelopes_ok [OF d]
  consider err where "r = Inl err" | e where "r = Inr (Inr e)" | msg1 where "r = Inr (Inl msg1)" by (metis sum.exhaust)
  then show ?thesis
  proof cases
    case 1
    then have "build_inbound deps evt s = (Inl err, s1)" using False by (simp add: build_inbound_def c d)
    moreover have "outcome_ok deps evt out s1 (Inl err, s1)" by simp
    ultimately show ?thesis using outcome_same dk sender by metis
  next
    case 2
    then obtain t v where e: "t \<noteq> []" "e = out\<lparr>iv_Type := ''poll_vote'', iv_Target := Some t, iv_PollVote := Some v\<rparr>"
      using dk by blast
    have "payload_ok e" unfolding payload_ok_def by (simp add: e)
    then have "outcome_ok deps evt out s1 (Inr e, s1)" using m e(2) by (intro outcome_event) simp_all
    moreover have "build_inbound deps evt s = (Inr e, s1)" using 2 False by (simp add: build_inbound_def c d)
    ultimately show ?thesis using outcome_same dk sender by metis
  next
    case 3
    then have "build_inbound deps evt s = after_decryption deps evt msg1 out s1" using False by (simp add: build_inbound_def c d)
    then show ?thesis using outcome_same [OF after_decryption_ok [OF m]] dk sender by metis
  qed
qed

lemma picture_for_puts [simp]: "picture_for deps j s = (pic, s1) \<Longrightarrow> bs_puts s1 = bs_puts s"
  by (auto simp: picture_for_def split: option.splits prod.splits)

lemma group_name_puts [simp]: "group_name deps j s = (name, s1) \<Longrightarrow> bs_puts s1 = bs_puts s"
  by (auto simp: group_name_def split: option.splits prod.splits)

definition group_participant_of :: "'w inbound_deps \<Rightarrow> wa_event_message \<Rightarrow> InboundEvent \<Rightarrow> Picture option \<Rightarrow> InboundGroupParticipant" where
  "group_participant_of deps evt out pic =
     \<lparr>igp_JID = jid_string (bd_lib deps) (to_non_ad (bd_lib deps) (xm_Sender evt)), igp_Lid = iv_SenderLid out, igp_Pn = iv_SenderPn out,
      igp_Name = xm_PushName evt, igp_ProfilePicture = pic\<rparr>"

lemma applyGroup_facts:
  assumes "applyGroup deps evt out s = (e, s1)"
  shows "bs_puts s1 = bs_puts s \<and> (payload_ok e \<longleftrightarrow> payload_ok out) \<and> iv_Media e = iv_Media out \<and>
    iv_PhoneNumberID e = iv_PhoneNumberID out \<and> iv_From e = jid_string (bd_lib deps) (xm_Chat evt) \<and> iv_SenderLid e = [] \<and> iv_SenderPn e = [] \<and> iv_ProfileName e = [] \<and>
    (\<exists>name gpic ppic. iv_Group e = Some \<lparr>igr_JID = iv_From e, igr_Name = name, igr_ProfilePicture = gpic,
       igr_Participant = (if xm_IsFromMe evt then None else Some (group_participant_of deps evt out ppic))\<rparr>)"
proof -
  obtain name s2 where g: "group_name deps (xm_Chat evt) s = (name, s2)" by fastforce
  obtain gpic s3 where p: "picture_for deps (xm_Chat evt) s2 = (gpic, s3)" by fastforce
  obtain ppic s4 where q: "picture_for deps (xm_Sender evt) s3 = (ppic, s4)" by fastforce
  have "bs_puts s2 = bs_puts s" "bs_puts s3 = bs_puts s" "bs_puts s4 = bs_puts s" using g p q by simp_all
  moreover have "e = out\<lparr>iv_Group := Some \<lparr>igr_JID = jid_string (bd_lib deps) (xm_Chat evt), igr_Name = name, igr_ProfilePicture = gpic,
        igr_Participant = (if xm_IsFromMe evt then None else Some (group_participant_of deps evt out ppic))\<rparr>,
      iv_Mentions := resolveMentions (bd_lib deps) (bd_Resolver deps) (iv_mentionedJIDs out), iv_From := jid_string (bd_lib deps) (xm_Chat evt),
      iv_SenderLid := [], iv_SenderPn := [], iv_ProfileName := []\<rparr>"
    "s1 = (if xm_IsFromMe evt then s3 else s4)"
    using assms by (auto simp: applyGroup_def Let_def g p q group_participant_of_def split: if_splits)
  moreover have "payload_ok (out\<lparr>iv_Group := a, iv_Mentions := b, iv_From := c, iv_SenderLid := d, iv_SenderPn := f, iv_ProfileName := h\<rparr>)
      = payload_ok out" for a b c d f h
    unfolding payload_ok_def by simp
  ultimately show ?thesis by auto
qed

lemma BuildInbound_cases:
  assumes "BuildInbound deps evt s = (r, s1)"
  obtains (error) err where "r = Inl err" "build_inbound deps evt s = (Inl err, s1)"
  | (grp) out s2 e where "build_inbound deps evt s = (Inr out, s2)" "KindOf (xm_Chat evt) = ChatGroup" "r = Inr e"
      "applyGroup deps evt out s2 = (e, s1)"
  | (priv) out s2 pic where "build_inbound deps evt s = (Inr out, s2)" "KindOf (xm_Chat evt) \<noteq> ChatGroup"
      "r = Inr (out\<lparr>iv_ProfilePicture := pic\<rparr>)" "bs_puts s1 = bs_puts s2"
proof -
  obtain b s2 where b: "build_inbound deps evt s = (b, s2)" by fastforce
  show thesis
  proof (cases b)
    case (Inl err)
    then show thesis using assms b error [of err] by (auto simp: BuildInbound_def)
  next
    case (Inr out)
    show thesis
    proof (cases "KindOf (xm_Chat evt) = ChatGroup")
      case True
      obtain e s3 where "applyGroup deps evt out s2 = (e, s3)" by fastforce
      then show thesis using assms b Inr True grp [of out s2 e] by (auto simp: BuildInbound_def)
    next
      case False
      obtain pic s3 where p: "picture_for deps (fst (identityJIDs evt)) s2 = (pic, s3)" by fastforce
      show thesis
      proof (cases "bd_Avatars deps \<noteq> None \<and> \<not> xm_IsFromMe evt")
        case True
        then show thesis using assms b Inr False p priv [of out s2 pic] by (auto simp: BuildInbound_def)
      next
        case noav: False
        moreover have "out = out\<lparr>iv_ProfilePicture := iv_ProfilePicture out\<rparr>" by simp
        ultimately show thesis
          using assms b Inr False priv [of out s2 "iv_ProfilePicture out"] by (auto simp: BuildInbound_def)
      qed
    qed
  qed
qed

text \<open>The event names the channel that received the message, and a group exactly in a group chat.\<close>

lemma BuildInbound_channel:
  assumes "BuildInbound deps evt s = (Inr e, s')"
  shows "iv_PhoneNumberID e = bd_ChannelID deps \<and> (iv_Group e = None \<longleftrightarrow> KindOf (xm_Chat evt) \<noteq> ChatGroup)"
proof -
  have new: "iv_PhoneNumberID (new_event deps evt) = bd_ChannelID deps" "iv_Group (new_event deps evt) = None"
    by (simp_all add: new_event_def split: prod.split)
  show ?thesis
    using assms
  proof (cases rule: BuildInbound_cases)
    case (grp out s2 e')
    then show ?thesis
      using build_inbound_ok [of deps evt s] applyGroup_facts [OF grp(4)] new by (auto simp: outcome_ok_def same_sender_def)
  next
    case (priv out s2 pic)
    then show ?thesis using build_inbound_ok [of deps evt s] new by (auto simp: outcome_ok_def same_sender_def)
  qed simp
qed

section \<open>Properties\<close>

text \<open>
  C10. Every event built from a message is well-typed: its type is one of those consumers know, the
  payload of that type is present (a rich content has the kind that is the type), and an edit, a
  revocation and a poll vote name the message that they change.
\<close>

theorem inbound_event_typed:
  assumes "BuildInbound deps evt s = (Inr e, s')"
  shows "payload_ok e"
  using assms
proof (cases rule: BuildInbound_cases)
  case (grp out s2 e')
  then show ?thesis using build_inbound_ok [of deps evt s] applyGroup_facts [OF grp(4)] by (auto simp: outcome_ok_def)
next
  case (priv out s2 pic)
  then show ?thesis using build_inbound_ok [of deps evt s] by (auto simp: outcome_ok_def payload_ok_def)
qed simp

text \<open>
  C40. Building an event stores at most one object, always under the key of the message in its
  tenant, and an event that names a media object is only built when that object was stored, with
  the type that the event reports.
\<close>

theorem inbound_media_stored:
  assumes "BuildInbound deps evt s = (r, s')"
  shows "\<exists>new. bs_puts s' = bs_puts s @ new \<and>
    (new = [] \<or> (\<exists>mime. new = [(''inbound-media/'' @ bd_TenantID deps @ ''/'' @ xm_ID evt, mime)])) \<and>
    (case r of Inl err \<Rightarrow> True
     | Inr e \<Rightarrow> (case iv_Media e of None \<Rightarrow> True | Some m \<Rightarrow> imd_Key m = [] \<or> new = [(imd_Key m, imd_MimeType m)]))"
  using assms
proof (cases rule: BuildInbound_cases)
  case (error err)
  then show ?thesis using build_inbound_ok [of deps evt s] by (auto simp: outcome_ok_def stored_ok_def media_key_def)
next
  case (grp out s2 e')
  then show ?thesis
    using build_inbound_ok [of deps evt s] applyGroup_facts [OF grp(4)] by (auto simp: outcome_ok_def stored_ok_def media_key_def)
next
  case (priv out s2 pic)
  then show ?thesis using build_inbound_ok [of deps evt s] by (auto simp: outcome_ok_def stored_ok_def media_key_def)
qed

text \<open>
  A group message is attributed to its group: the event comes from the group, carries no
  identity or name of its own, and names the participant (with the identity resolved for the sender)
  exactly when the account did not send it; a message of a private chat never carries a group.
\<close>

lemma inbound_attribution:
  assumes "BuildInbound deps evt s = (Inr e, s')"
  shows "if KindOf (xm_Chat evt) = ChatGroup
    then iv_From e = jid_string (bd_lib deps) (xm_Chat evt) \<and> iv_SenderLid e = [] \<and> iv_SenderPn e = [] \<and> iv_ProfileName e = [] \<and>
      (\<exists>g. iv_Group e = Some g \<and> igr_JID g = iv_From e \<and> (igr_Participant g = None \<longleftrightarrow> xm_IsFromMe evt) \<and>
        (\<forall>p. igr_Participant g = Some p \<longrightarrow> (igp_Lid p, igp_Pn p) = Resolve (bd_Resolver deps) (xm_Sender evt) (xm_SenderAlt evt)))
    else iv_Group e = None \<and> iv_Mentions e = [] \<and>
      (iv_SenderLid e, iv_SenderPn e) = Resolve (bd_Resolver deps) (fst (identityJIDs evt)) (snd (identityJIDs evt)) \<and>
      iv_From e = sender_From (iv_SenderLid e) (iv_SenderPn e)"
proof -
  have new: "(iv_SenderLid (new_event deps evt), iv_SenderPn (new_event deps evt)) =
      Resolve (bd_Resolver deps) (fst (identityJIDs evt)) (snd (identityJIDs evt))"
    "iv_From (new_event deps evt) = sender_From (iv_SenderLid (new_event deps evt)) (iv_SenderPn (new_event deps evt))"
    by (simp_all add: new_event_def split: prod.split)
  show ?thesis
    using assms
  proof (cases rule: BuildInbound_cases)
    case (grp out s2 e')
    have "same_sender (new_event deps evt) out" using build_inbound_ok [of deps evt s] grp by (auto simp: outcome_ok_def)
    then have l: "iv_SenderLid out = iv_SenderLid (new_event deps evt)" "iv_SenderPn out = iv_SenderPn (new_event deps evt)"
      by (simp_all add: same_sender_def)
    have "\<not> xm_IsFromMe evt \<Longrightarrow> identityJIDs evt = (xm_Sender evt, xm_SenderAlt evt)" by (simp add: identityJIDs_def)
    then show ?thesis using grp applyGroup_facts [OF grp(4)] new(1) by (auto simp: group_participant_of_def l)
  next
    case (priv out s2 pic)
    have "same_sender (new_event deps evt) out" using build_inbound_ok [of deps evt s] priv by (auto simp: outcome_ok_def)
    then show ?thesis using priv new new_event_clean [of deps evt] by (auto simp: same_sender_def clean_event_def)
  qed simp
qed

section \<open>Witnesses\<close>

definition demo_inbound_deps :: "nat inbound_deps" where
  "demo_inbound_deps =
     \<lparr>bd_lib = \<lparr>parse_jid = (\<lambda>s. Inr \<lparr>jid_user = s, jid_server = DefaultUserServer, jid_device = 0\<rparr>), jid_string = jid_user, to_non_ad = (\<lambda>j. j)\<rparr>,
      bd_Resolver = None, bd_Download = (\<lambda>m w. (Inr ''bytes'', w)), bd_Put = (\<lambda>key mime data w. (None, w + 1)), bd_Avatars = None,
      bd_Groups = None, bd_Secrets = None, bd_ChannelID = ''ch'', bd_TenantID = ''t'', bd_TolerateMediaFailure = False,
      bd_codec = \<lparr>mc_params = (\<lambda>s. no_params), mc_payment = (\<lambda>s. Inl (Err EText []))\<rparr>, bd_descr = (\<lambda>m. []),
      bd_status_name = (\<lambda>i. None), bd_url_host = (\<lambda>u. Inr u)\<rparr>"

definition demo_picture :: wa_media where
  "demo_picture =
     \<lparr>wmd_URL = None, wmd_DirectPath = None, wmd_MediaKey = [], wmd_Mimetype = Some ''image/png'', wmd_FileEncSHA256 = [],
      wmd_FileSHA256 = [], wmd_FileLength = None, wmd_Caption = None, wmd_FileName = None, wmd_PTT = None, wmd_Seconds = None,
      wmd_Waveform = [], wmd_ContextInfo = None\<rparr>"

definition demo_group_evt :: wa_event_message where
  "demo_group_evt =
     \<lparr>xm_ID = ''m1'', xm_Chat = \<lparr>jid_user = ''g'', jid_server = GroupServer, jid_device = 0\<rparr>,
      xm_Sender = \<lparr>jid_user = ''5511'', jid_server = DefaultUserServer, jid_device = 0\<rparr>, xm_SenderAlt = empty_jid,
      xm_RecipientAlt = empty_jid, xm_IsFromMe = False, xm_PushName = ''Ana'', xm_Timestamp = 7,
      xm_Message = Some (Message (empty_content\<lparr>m_Image := Some demo_picture\<rparr>) no_nested)\<rparr>"

lemma unwrap_plain: "unwrap_once msg = None \<Longrightarrow> unwrapMessage msg = msg"
  by (simp add: unwrapMessage_def maxUnwrapDepth_def numeral_eq_Suc)

lemma unwrap_once_no_nested [simp]: "unwrap_once (Some (Message c no_nested)) = None"
  by (simp add: unwrap_once_def wrappers_def)

lemma demo_group_run:
  "\<exists>e. BuildInbound demo_inbound_deps demo_group_evt \<lparr>bs_world = 0, bs_puts = []\<rparr> =
      (Inr e, \<lparr>bs_world = 1, bs_puts = [(''inbound-media/t/m1'', ''image/png'')]\<rparr>) \<and>
    iv_Media e = Some \<lparr>imd_Key = ''inbound-media/t/m1'', imd_MimeType = ''image/png'', imd_Filename = [], imd_Caption = []\<rparr>"
proof -
  have msg: "unwrapMessage (xm_Message demo_group_evt) = Some (Message (empty_content\<lparr>m_Image := Some demo_picture\<rparr>) no_nested)"
    by (simp add: unwrap_plain demo_group_evt_def)
  obtain out where c: "comment_of demo_group_evt (new_event demo_inbound_deps demo_group_evt) =
      (Some (Message (empty_content\<lparr>m_Image := Some demo_picture\<rparr>) no_nested), out)"
    by (simp add: comment_of_def msg Let_def)
  have d: "decryptEnvelopes demo_inbound_deps evt m out s = (Inr (Inl m), s)" for evt m s
    by (simp add: decryptEnvelopes_def demo_inbound_deps_def)
  let ?m = "Some (Message (empty_content\<lparr>m_Image := Some demo_picture\<rparr>) no_nested)"
  have k: "KindOf (xm_Chat demo_group_evt) = ChatGroup" by (simp add: KindOf_def demo_group_evt_def)
  have "build_inbound demo_inbound_deps demo_group_evt s = after_decryption demo_inbound_deps demo_group_evt ?m out s" for s
    by (simp add: build_inbound_def c d k)
  moreover have "after_decryption demo_inbound_deps demo_group_evt ?m out s =
      media_case demo_inbound_deps demo_group_evt demo_picture ''image'' (with_caption demo_picture) out s" for s
    by (simp add: after_decryption_def empty_content_def isSilentNotice_def switch_content_def)
  moreover obtain out1 where "media_case demo_inbound_deps demo_group_evt demo_picture ''image'' (with_caption demo_picture) out
      \<lparr>bs_world = 0, bs_puts = []\<rparr> = (Inr out1, \<lparr>bs_world = 1, bs_puts = [(''inbound-media/t/m1'', ''image/png'')]\<rparr>)"
    "iv_Media out1 = Some \<lparr>imd_Key = ''inbound-media/t/m1'', imd_MimeType = ''image/png'', imd_Filename = [], imd_Caption = []\<rparr>"
    by (simp add: Let_def media_case_def storedMedia_def downloadAndStore_def media_put_def media_key_def demo_picture_def
        with_caption_def applyContextInfo_def demo_inbound_deps_def demo_group_evt_def)
  ultimately have b: "build_inbound demo_inbound_deps demo_group_evt \<lparr>bs_world = 0, bs_puts = []\<rparr> =
      (Inr out1, \<lparr>bs_world = 1, bs_puts = [(''inbound-media/t/m1'', ''image/png'')]\<rparr>)" by simp
  have n: "bd_Groups demo_inbound_deps = None" "bd_Avatars demo_inbound_deps = None" by (simp_all add: demo_inbound_deps_def)
  obtain e where g: "applyGroup demo_inbound_deps demo_group_evt out1 s = (e, s)" for s
    by (simp add: Let_def applyGroup_def group_name_def picture_for_def n demo_group_evt_def)
  have "iv_Media e = iv_Media out1" using applyGroup_facts [OF g] by blast
  then show ?thesis using \<open>iv_Media out1 = _\<close> by (simp add: BuildInbound_def k b g)
qed

theorem inbound_media_stored_witness:
  "\<exists>e s'. BuildInbound demo_inbound_deps demo_group_evt \<lparr>bs_world = 0, bs_puts = []\<rparr> = (Inr e, s') \<and>
     (\<exists>m. iv_Media e = Some m \<and> bs_puts s' = [(imd_Key m, imd_MimeType m)])"
proof -
  from demo_group_run obtain e s' m where r: "BuildInbound demo_inbound_deps demo_group_evt \<lparr>bs_world = 0, bs_puts = []\<rparr> = (Inr e, s')"
    "iv_Media e = Some m" "imd_Key m \<noteq> []" by auto
  from inbound_media_stored [OF r(1)] r show ?thesis by auto
qed

theorem inbound_event_typed_witness:
  "\<exists>e s'. BuildInbound demo_inbound_deps demo_group_evt \<lparr>bs_world = 0, bs_puts = []\<rparr> = (Inr e, s') \<and> payload_ok e"
proof -
  from demo_group_run obtain e s' where "BuildInbound demo_inbound_deps demo_group_evt \<lparr>bs_world = 0, bs_puts = []\<rparr> = (Inr e, s')" by blast
  with inbound_event_typed [OF this] show ?thesis by blast
qed

end
