(* ===== verification/RoundTrip.thy ===== *)
theory RoundTrip
  imports Outbound InboundFacts
begin

text \<open>
  What one gateway sends, another one reads: the messages of internal/mapper/outbound.go and
  internal/mapper/interactive.go taken through internal/mapper/inbound.go.
\<close>

section \<open>Reading a plain message\<close>

text \<open>A content that goes straight to the switch.\<close>

definition direct :: "content \<Rightarrow> bool" where
  "direct c \<longleftrightarrow> m_Protocol c = None \<and> m_SecretEncrypted c = None \<and> m_PollUpdate c = None \<and> m_Notices c = [] \<and> m_Conversation c \<noteq> Some []"

lemma plain_getters [simp]:
  "get_content (Some (plain_message c)) = c" "get_nested n (Some (plain_message c)) = None"
  "m_content (plain_message c) = c"
  by (simp_all add: plain_message_def)

lemma plain_message_eq [simp]: "(plain_message c = plain_message d) = (c = d)"
  by (simp add: plain_message_def)

lemma build_inbound_direct:
  assumes "unwrapMessage (xm_Message evt) = Some (plain_message c)" "direct c" "KindOf (xm_Chat evt) \<noteq> ChatIgnored"
  shows "build_inbound deps evt s = switch_content deps evt (Some (plain_message c)) (new_event deps evt) s"
proof -
  have c: "comment_of evt out = (Some (plain_message c), out)" for out
    using assms(1) by (simp add: comment_of_def)
  have d: "decryptEnvelopes deps evt (Some (plain_message c)) out s = (Inr (Inl (Some (plain_message c))), s)" for out s
    using assms(2) by (simp add: decryptEnvelopes_def direct_def split: option.split)
  show ?thesis
    using assms(2,3) by (simp add: build_inbound_def c d after_decryption_def isSilentNotice_def direct_def)
qed

lemma unwrap_plain_message [simp]: "unwrapMessage (Some (plain_message c)) = Some (plain_message c)"
  by (simp add: unwrap_plain plain_message_def)

lemma unwrap_caption: "unwrapMessage (Some (Message c0 (no_nested(NDocumentWithCaption := Some (plain_message c))))) = Some (plain_message c)"
proof -
  have "unwrap_once (Some (Message c0 (no_nested(NDocumentWithCaption := Some (plain_message c))))) = Some (plain_message c)"
    by (simp add: unwrap_once_def wrappers_def)
  then show ?thesis
    by (simp add: unwrapMessage_def maxUnwrapDepth_def numeral_eq_Suc plain_message_def del: unwrap_once_no_nested)
       (simp add: unwrap_once_no_nested)
qed

text \<open>The fields of an event that attributing it to a group or adding a picture leaves alone.\<close>

lemma BuildInbound_fields:
  assumes "build_inbound deps evt s = (Inr out, s1)"
  shows "\<exists>e s2. BuildInbound deps evt s = (Inr e, s2) \<and> iv_Type e = iv_Type out \<and> iv_Text e = iv_Text out \<and>
    iv_RichContent e = iv_RichContent out \<and> iv_ContextMessageID e = iv_ContextMessageID out \<and> iv_mentionedJIDs e = iv_mentionedJIDs out"
proof -
  obtain r s2 where b: "BuildInbound deps evt s = (r, s2)" by fastforce
  then show ?thesis
  proof (cases rule: BuildInbound_cases)
    case (grp out' s3 e)
    have "iv_Type e = iv_Type out \<and> iv_Text e = iv_Text out \<and> iv_RichContent e = iv_RichContent out \<and>
        iv_ContextMessageID e = iv_ContextMessageID out \<and> iv_mentionedJIDs e = iv_mentionedJIDs out"
      using grp assms by (auto simp: applyGroup_def Let_def split: prod.splits if_splits)
    then show ?thesis using grp b by auto
  next
    case (priv out' s3 pic)
    then show ?thesis using assms b by auto
  qed (use assms in auto)
qed

lemma context_applied:
  "wci_ExternalAdReply ci = None \<Longrightarrow>
   iv_ContextMessageID (applyContextInfo u (Some ci) e) =
     (if get_str (wci_StanzaID ci) = [] then iv_ContextMessageID e else get_str (wci_StanzaID ci)) \<and>
   iv_mentionedJIDs (applyContextInfo u (Some ci) e) = wci_MentionedJID ci"
  by (simp add: applyContextInfo_def adReferralFrom_def)

section \<open>Texts\<close>

definition stanza_of :: "GatewaySendCommand \<Rightarrow> string" where
  "stanza_of cmd = (case sc_replyTo cmd of None \<Rightarrow> [] | Some r \<Rightarrow> rt_providerMessageID r)"

lemma contextInfoFor_facts:
  "contextInfoFor lib cmd = Some ci \<Longrightarrow>
   get_str (wci_StanzaID ci) = stanza_of cmd \<and> wci_MentionedJID ci = sc_mentions cmd \<and> wci_ExternalAdReply ci = None"
  "contextInfoFor lib cmd = None \<longleftrightarrow> sc_replyTo cmd = None \<and> sc_mentions cmd = []"
  by (auto simp: contextInfoFor_def reply_context_def empty_context_def stanza_of_def Let_def split: if_splits option.splits)

lemma mergeForwarded_facts:
  "\<exists>ci'. mergeForwarded ci = Some ci' \<and> wci_StanzaID ci' = (case ci of None \<Rightarrow> None | Some c \<Rightarrow> wci_StanzaID c) \<and>
    wci_MentionedJID ci' = (case ci of None \<Rightarrow> [] | Some c \<Rightarrow> wci_MentionedJID c) \<and>
    wci_ExternalAdReply ci' = (case ci of None \<Rightarrow> None | Some c \<Rightarrow> wci_ExternalAdReply c)"
  by (cases ci) (simp_all add: mergeForwarded_def empty_context_def)

definition sent_text :: "walib \<Rightarrow> GatewaySendCommand \<Rightarrow> message" where
  "sent_text lib cmd = (if sc_forwarded cmd then markForwarded (buildText lib cmd) else buildText lib cmd)"

lemma sent_text_shape:
  "sent_text lib cmd = conversation_message (sc_text cmd) \<and> stanza_of cmd = [] \<and> sc_mentions cmd = [] \<or>
   (\<exists>ci. sent_text lib cmd = plain_message (empty_content\<lparr>m_ExtendedText := Some \<lparr>wet_Text = Some (sc_text cmd), wet_ContextInfo = Some ci\<rparr>\<rparr>) \<and>
      get_str (wci_StanzaID ci) = stanza_of cmd \<and> wci_MentionedJID ci = sc_mentions cmd \<and> wci_ExternalAdReply ci = None)"
proof (cases "contextInfoFor lib cmd")
  case None
  then have p: "stanza_of cmd = []" "sc_mentions cmd = []" using contextInfoFor_facts(2) [of lib cmd] by (simp_all add: stanza_of_def)
  show ?thesis
  proof (cases "sc_forwarded cmd")
    case True
    then have "sent_text lib cmd = plain_message (empty_content\<lparr>m_ExtendedText := Some \<lparr>wet_Text = Some (sc_text cmd), wet_ContextInfo = mergeForwarded None\<rparr>\<rparr>)"
      using None by (simp add: sent_text_def buildText_def conversation_message_def markForwarded_def)
    then show ?thesis using p mergeForwarded_facts [of None] by (intro disjI2) auto
  qed (use None p in \<open>simp add: sent_text_def buildText_def\<close>)
next
  case (Some ci)
  note ci = contextInfoFor_facts(1) [OF Some]
  show ?thesis
  proof (cases "sc_forwarded cmd")
    case True
    then have "sent_text lib cmd = plain_message (empty_content\<lparr>m_ExtendedText := Some \<lparr>wet_Text = Some (sc_text cmd), wet_ContextInfo = mergeForwarded (Some ci)\<rparr>\<rparr>)"
      using Some by (simp add: sent_text_def buildText_def markForwarded_def Let_def plain_message_def)
    then show ?thesis using ci mergeForwarded_facts [of "Some ci"] by (intro disjI2) auto
  next
    case False
    then show ?thesis using Some ci by (intro disjI2 exI [of _ ci]) (simp add: sent_text_def buildText_def)
  qed
qed

lemma BuildOutbound_by_type:
  assumes "BuildOutbound env cmd w = (Inr (to, msg, nodes), w')" "sc_kind cmd \<notin> {''edit'', ''revoke'', ''reaction''}"
  obtains msg0 where "buildByType env cmd w = (Inr (msg0, nodes), w')" "msg = (if sc_forwarded cmd then markForwarded msg0 else msg0)"
  using assms by (auto simp: BuildOutbound_def split: sum.splits if_splits prod.splits)

lemma sent_text_read:
  assumes "xm_Message evt = Some (sent_text lib cmd)" "sc_text cmd \<noteq> []" "KindOf (xm_Chat evt) \<noteq> ChatIgnored"
  shows "\<exists>e s'. BuildInbound deps evt s = (Inr e, s') \<and> iv_Type e = ''text'' \<and> iv_Text e = Some (sc_text cmd) \<and>
    iv_ContextMessageID e = stanza_of cmd \<and> iv_mentionedJIDs e = sc_mentions cmd"
proof -
  have n: "iv_ContextMessageID (new_event deps evt) = []" "iv_mentionedJIDs (new_event deps evt) = []"
    by (simp_all add: new_event_def split: prod.split)
  have "\<exists>out. build_inbound deps evt s = (Inr out, s) \<and> iv_Type out = ''text'' \<and> iv_Text out = Some (sc_text cmd) \<and>
    iv_ContextMessageID out = stanza_of cmd \<and> iv_mentionedJIDs out = sc_mentions cmd"
    using sent_text_shape [of lib cmd]
  proof (elim disjE conjE exE)
    assume s: "sent_text lib cmd = conversation_message (sc_text cmd)" "stanza_of cmd = []" "sc_mentions cmd = []"
    let ?c = "empty_content\<lparr>m_Conversation := Some (sc_text cmd)\<rparr>"
    have "direct ?c" using assms(2) by (simp add: direct_def)
    from build_inbound_direct [OF _ this assms(3)] have "build_inbound deps evt s = switch_content deps evt (Some (plain_message ?c)) (new_event deps evt) s"
      using assms(1) s by (simp add: conversation_message_def plain_message_def [symmetric])
    then show ?thesis using assms(2) n s by (simp add: switch_content_def)
  next
    fix ci
    let ?c = "empty_content\<lparr>m_ExtendedText := Some \<lparr>wet_Text = Some (sc_text cmd), wet_ContextInfo = Some ci\<rparr>\<rparr>"
    assume s: "sent_text lib cmd = plain_message ?c" and ci: "get_str (wci_StanzaID ci) = stanza_of cmd"
      "wci_MentionedJID ci = sc_mentions cmd" "wci_ExternalAdReply ci = None"
    have "direct ?c" by (simp add: direct_def)
    from build_inbound_direct [OF _ this assms(3)] have "build_inbound deps evt s = switch_content deps evt (Some (plain_message ?c)) (new_event deps evt) s"
      using assms(1) s by simp
    moreover have "m_Conversation ?c = None" by (simp add:)
    ultimately show ?thesis
      using n ci by (simp add: switch_content_def text_case_def context_applied)
  qed
  then obtain out where b: "build_inbound deps evt s = (Inr out, s)" and "iv_Type out = ''text''" "iv_Text out = Some (sc_text cmd)"
    "iv_ContextMessageID out = stanza_of cmd" "iv_mentionedJIDs out = sc_mentions cmd" by blast
  then show ?thesis using BuildInbound_fields [OF b] by auto
qed

section \<open>Types\<close>

definition received_type :: "GatewaySendCommand \<Rightarrow> string" where
  "received_type cmd =
     (if sc_type cmd = ''audio'' \<and> (case sc_media cmd of None \<Rightarrow> False | Some m \<Rightarrow> mp_voice m) then ''voice''
      else if sc_type cmd = ''buttons'' then ''interactive'' else sc_type cmd)"

text \<open>The contents that a command of each type becomes, forwarded or not.\<close>

inductive sent_shape :: "string \<Rightarrow> content \<Rightarrow> bool" where
  conversation: "t \<noteq> [] \<Longrightarrow> sent_shape ''text'' (empty_content\<lparr>m_Conversation := Some t\<rparr>)"
| extended: "sent_shape ''text'' (empty_content\<lparr>m_ExtendedText := Some ext\<rparr>)"
| pic: "sent_shape ''image'' (empty_content\<lparr>m_Image := Some m\<rparr>)"
| video: "sent_shape ''video'' (empty_content\<lparr>m_Video := Some m\<rparr>)"
| audio: "wmd_PTT m \<noteq> Some True \<Longrightarrow> sent_shape ''audio'' (empty_content\<lparr>m_Audio := Some m\<rparr>)"
| voice: "wmd_PTT m = Some True \<Longrightarrow> sent_shape ''voice'' (empty_content\<lparr>m_Audio := Some m\<rparr>)"
| document: "sent_shape ''document'' (empty_content\<lparr>m_Document := Some m\<rparr>)"
| location: "sent_shape ''location'' (empty_content\<lparr>m_Location := Some l\<rparr>)"
| contact: "sent_shape ''contacts'' (empty_content\<lparr>m_Contact := Some ct\<rparr>)"
| contacts: "sent_shape ''contacts'' (empty_content\<lparr>m_ContactsArray := Some cs\<rparr>)"
| listing: "wlm_Sections wl \<noteq> [] \<Longrightarrow> sent_shape ''list'' (empty_content\<lparr>m_List := Some wl\<rparr>)"
| buttons: "win_Body im \<noteq> [] \<Longrightarrow> sent_shape ''interactive'' (empty_content\<lparr>m_Interactive := Some im\<rparr>)"

lemma shape_direct: "sent_shape ty c \<Longrightarrow> direct c"
  by (induction rule: sent_shape.induct) (simp_all add: direct_def)

lemma media_case_type: "media_case deps evt m ty f out s = (Inr e, s1) \<Longrightarrow> iv_Type e = ty"
  by (auto simp: media_case_def split: sum.splits prod.splits)

lemma text_case_type [simp]: "iv_Type (text_case deps body ci out) = ''text''"
  by (simp add: text_case_def)

lemma rich_case_type: "rich_case deps msg (Some r) ci out = Inr e \<Longrightarrow> iv_Type e = rk_Kind r"
  by (auto simp: rich_case_def applyRichOrFallback_def)

lemma shape_switch:
  "sent_shape ty c \<Longrightarrow> switch_content deps evt (Some (plain_message c)) out s = (Inr e, s1) \<Longrightarrow> iv_Type e = ty"
proof (induction rule: sent_shape.induct)
  case (conversation t)
  then show ?case by (auto simp: switch_content_def)
next
  case (extended ext)
  then show ?case by (auto simp: switch_content_def)
next
  case (pic m)
  then show ?case by (auto simp: switch_content_def dest: media_case_type)
next
  case (video m)
  then show ?case by (auto simp: switch_content_def dest: media_case_type)
next
  case (audio m)
  then show ?case by (auto simp: switch_content_def dest: media_case_type)
next
  case (voice m)
  then show ?case by (auto simp: switch_content_def dest: media_case_type)
next
  case (document m)
  then show ?case by (auto simp: switch_content_def dest: media_case_type)
next
  case (location l)
  then show ?case by (auto simp: switch_content_def switch_more_def)
next
  case (contact ct)
  then show ?case by (auto simp: switch_content_def switch_more_def)
next
  case (contacts cs)
  then show ?case by (auto simp: switch_content_def switch_more_def)
next
  case (listing wl)
  then obtain r where r: "buildListRich wl = Some r" by (auto simp: buildListRich_def Let_def)
  with listing have "rich_case deps (Some (plain_message (empty_content\<lparr>m_List := Some wl\<rparr>))) (Some r) (wlm_ContextInfo wl) out = Inr e"
    by (simp add: switch_content_def switch_more_def switch_reply_def switch_rich_def pollCreationOf_def)
  then show ?case using rich_kinds(3) [OF r] by (auto dest: rich_case_type)
next
  case (buttons im)
  then obtain r where r: "buildInteractiveRich (bd_codec deps) im = Some r" by (auto simp: buildInteractiveRich_def Let_def)
  with buttons have "rich_case deps (Some (plain_message (empty_content\<lparr>m_Interactive := Some im\<rparr>))) (Some r) (win_ContextInfo im) out = Inr e"
    by (simp add: switch_content_def switch_more_def switch_reply_def switch_rich_def pollCreationOf_def)
  then show ?case using rich_kinds(4) [OF r] by (auto dest: rich_case_type)
qed

lemma shape_forwarded: "sent_shape ty c \<Longrightarrow> \<exists>c'. markForwarded (plain_message c) = plain_message c' \<and> sent_shape ty c'"
  by (erule sent_shape.cases)
     (auto simp: markForwarded_def plain_message_def Let_def forwarded_media_def intro: sent_shape.intros)

lemma truncateRunes_nonempty: "s \<noteq> [] \<Longrightarrow> 0 < n \<Longrightarrow> truncateRunes s n \<noteq> []"
proof
  assume s: "s \<noteq> []" and n: "0 < n" and e: "truncateRunes s n = []"
  have "runes s \<noteq> []" using s by (cases s) (simp_all add: runes.simps(2))
  with n have "runes (truncateRunes s n) \<noteq> []" by (simp add: truncateRunes_runes_take)
  with e show False by simp
qed

definition captioned :: "content \<Rightarrow> message" where
  "captioned c = Message empty_content (no_nested(NDocumentWithCaption := Some (plain_message c)))"

lemma BuildList_shape:
  assumes "BuildList p ci = Inr (msg, nodes)"
  obtains wl where "msg = captioned (empty_content\<lparr>m_List := Some wl\<rparr>)" "list_sections 0 (ip_sections p) = Inr (wlm_Sections wl)"
    "wlm_Sections wl \<noteq> []" "wlm_Description wl = truncateRunes (ip_body p) maxBodyLen" "ip_body p \<noteq> []"
    "wlm_ButtonText wl = truncateRunes (ip_buttonText p) maxButtonTitleLen"
    "wlm_FooterText wl = truncateRunes (ip_footer p) maxFooterLen" "wlm_ContextInfo wl = ci"
  using assms
  by (auto simp: BuildList_def Let_def captioned_def intro!: that split: if_splits sum.splits)

lemma BuildButtons_shape:
  assumes "BuildButtons marshal p ci = Inr (msg, nodes)"
  obtains im where "msg = plain_message (empty_content\<lparr>m_Interactive := Some im\<rparr>)" "win_Body im \<noteq> []"
  using assms truncateRunes_nonempty [of "ip_body p" maxBodyLen]
  by (auto simp: BuildButtons_def maxBodyLen_def intro!: that split: if_splits sum.splits)

lemma media_shape:
  assumes "buildMedia env cmd mt w = (Inr msg, w')" "sc_type cmd \<in> {''image'', ''video'', ''audio'', ''document''}"
  shows "\<exists>c. sent_shape (received_type cmd) c \<and> msg = plain_message c"
proof -
  obtain media resp ci where m: "sc_media cmd = Some media" "msg = media_message cmd media (uploaded_media resp (mp_mime media) ci)"
    using assms(1) by (auto simp: buildMedia_def split: option.splits sum.splits prod.splits)
  have pt: "wmd_PTT (voice_note media (uploaded_media resp (mp_mime media) ci)) = (if mp_voice media then Some True else None)"
    by (simp add: voice_note_def uploaded_media_def)
  consider "sc_type cmd = ''image''" | "sc_type cmd = ''video''" | "sc_type cmd = ''audio''" | "sc_type cmd = ''document''" using assms(2) by blast
  then show ?thesis
    by cases (use pt in \<open>auto simp: m media_message_def received_type_def intro: sent_shape.intros\<close>)
qed

lemma buildByType_shape:
  assumes b: "buildByType env cmd w = (Inr (msg, nodes), w')" and words: "sc_type cmd = ''text'' \<Longrightarrow> sc_text cmd \<noteq> []"
  shows "\<exists>c. sent_shape (received_type cmd) c \<and> (msg = plain_message c \<or> sc_type cmd = ''list'' \<and> msg = captioned c)"
proof -
  let ?lib = "ob_lib env"
  consider (words) "sc_type cmd = ''text''" | (media) "sc_type cmd \<in> {''image'', ''video'', ''audio'', ''document''}"
    | (location) "sc_type cmd = ''location''" | (contacts) "sc_type cmd = ''contacts''" | (buttons) "sc_type cmd = ''buttons''"
    | (listing) "sc_type cmd = ''list''"
    using b by (auto simp: buildByType_def split: if_splits)
  then show ?thesis
  proof cases
    case words
    then have "msg = buildText ?lib cmd" using b by (simp add: buildByType_def)
    then show ?thesis using words assms(2)
      by (auto simp: buildText_def received_type_def conversation_message_def plain_message_def [symmetric] intro: sent_shape.intros split: option.split)
  next
    case media
    then obtain mt where "buildMedia env cmd mt w = (Inr msg, w')"
      using b by (auto simp: buildByType_def no_nodes_def split: prod.splits sum.splits)
    from media_shape [OF this media] show ?thesis by blast
  next
    case location
    then show ?thesis using b
      by (auto simp: buildByType_def no_nodes_def buildLocation_def received_type_def intro: sent_shape.intros split: option.splits)
  next
    case contacts
    then show ?thesis using b
      by (auto simp: buildByType_def no_nodes_def buildContacts_def received_type_def intro: sent_shape.intros split: list.splits)
  next
    case buttons
    then obtain p where "BuildButtons (ob_marshal env) p (contextInfoFor ?lib cmd) = Inr (msg, nodes)"
      using b by (auto simp: buildByType_def interactive_required_def split: option.splits)
    from BuildButtons_shape [OF this] obtain im where "msg = plain_message (empty_content\<lparr>m_Interactive := Some im\<rparr>)" "win_Body im \<noteq> []" .
    then show ?thesis using buttons by (auto simp: received_type_def intro: sent_shape.intros)
  next
    case listing
    then obtain p where "BuildList p (contextInfoFor ?lib cmd) = Inr (msg, nodes)"
      using b by (auto simp: buildByType_def interactive_required_def split: option.splits)
    from BuildList_shape [OF this] obtain wl where "msg = captioned (empty_content\<lparr>m_List := Some wl\<rparr>)" "wlm_Sections wl \<noteq> []" .
    then show ?thesis using listing by (auto simp: received_type_def intro: sent_shape.intros)
  qed
qed

lemma unwrap_captioned [simp]: "unwrapMessage (Some (captioned c)) = Some (plain_message c)"
  unfolding captioned_def by (rule unwrap_caption)

lemma forwarded_captioned [simp]: "markForwarded (captioned c) = captioned c"
  by (simp add: markForwarded_def captioned_def)

lemma outbound_shape:
  assumes "BuildOutbound env cmd w = (Inr (to, msg, nodes), w')" "sc_kind cmd \<notin> {''edit'', ''revoke'', ''reaction''}"
    "sc_type cmd = ''text'' \<Longrightarrow> sc_text cmd \<noteq> []"
  shows "\<exists>c. sent_shape (received_type cmd) c \<and> unwrapMessage (Some msg) = Some (plain_message c)"
proof -
  from BuildOutbound_by_type [OF assms(1,2)] obtain msg0 where m: "buildByType env cmd w = (Inr (msg0, nodes), w')"
    "msg = (if sc_forwarded cmd then markForwarded msg0 else msg0)" by blast
  from buildByType_shape [OF m(1) assms(3)] obtain c where c: "sent_shape (received_type cmd) c"
    "msg0 = plain_message c \<or> msg0 = captioned c" by blast
  from shape_forwarded [OF c(1)] obtain c' where "markForwarded (plain_message c) = plain_message c'" "sent_shape (received_type cmd) c'" by blast
  then show ?thesis using c m(2) by auto
qed

section \<open>Properties\<close>

text \<open>
  A message that a gateway sends for a command is read by a gateway as an event of the type of the
  command: a voice note as voice, buttons as an interactive content, everything else as itself, also
  when it was marked as forwarded.
\<close>

lemma sent_type_received:
  assumes "BuildOutbound env cmd w = (Inr (to, msg, nodes), w')" "sc_kind cmd \<notin> {''edit'', ''revoke'', ''reaction''}"
    "sc_type cmd = ''text'' \<Longrightarrow> sc_text cmd \<noteq> []"
    and "xm_Message evt = Some msg" "BuildInbound deps evt s = (Inr e, s')"
  shows "iv_Type e = received_type cmd"
proof -
  from outbound_shape [OF assms(1-3)] obtain c where c: "sent_shape (received_type cmd) c" "unwrapMessage (Some msg) = Some (plain_message c)"
    by blast
  from assms(5) obtain out s1 where b: "build_inbound deps evt s = (Inr out, s1)"
    by (cases rule: BuildInbound_cases) auto
  then have "KindOf (xm_Chat evt) \<noteq> ChatIgnored" by (auto simp: build_inbound_def)
  with b c assms(4) have "switch_content deps evt (Some (plain_message c)) (new_event deps evt) s = (Inr out, s1)"
    by (simp add: build_inbound_direct shape_direct)
  from shape_switch [OF c(1) this] show ?thesis using BuildInbound_fields [OF b] assms(5) by auto
qed

text \<open>
  C24. A text survives the way from a command to the event that the receiving gateway publishes: the event
  is a text with the same words, it refers to the message that the command replies to, and it
  carries the command's mentions.
\<close>

theorem text_survives:
  assumes "BuildOutbound env cmd w = (Inr (to, msg, nodes), w')" "sc_kind cmd = []" "sc_type cmd = ''text''" "sc_text cmd \<noteq> []"
    and "xm_Message evt = Some msg" "KindOf (xm_Chat evt) \<noteq> ChatIgnored"
  shows "\<exists>e s'. BuildInbound deps evt s = (Inr e, s') \<and> iv_Type e = ''text'' \<and> iv_Text e = Some (sc_text cmd) \<and>
    iv_ContextMessageID e = (case sc_replyTo cmd of None \<Rightarrow> [] | Some r \<Rightarrow> rt_providerMessageID r) \<and>
    iv_mentionedJIDs e = sc_mentions cmd"
proof -
  have m: "msg = sent_text (ob_lib env) cmd"
  proof -
    have "sc_kind cmd \<notin> {''edit'', ''revoke'', ''reaction''}" using assms(2) by simp
    from BuildOutbound_by_type [OF assms(1) this] obtain msg0 where "buildByType env cmd w = (Inr (msg0, nodes), w')"
      "msg = (if sc_forwarded cmd then markForwarded msg0 else msg0)" by blast
    then show ?thesis using assms(3) by (simp add: buildByType_def sent_text_def)
  qed
  with assms(5) have "xm_Message evt = Some (sent_text (ob_lib env) cmd)" by simp
  from sent_text_read [OF this assms(4,6)] show ?thesis unfolding stanza_of_def .
qed

text \<open>
  A list message that could be built is within the limits of WhatsApp and is read back as it was
  meant: at most ten rows, none of its sections empty, the texts cut to their limits in characters, the
  sections with rows in their order, each row with its id (or its title).
\<close>

lemma list_survives:
  assumes "BuildList p ci = Inr (msg, nodes)" "xm_Message evt = Some msg" "KindOf (xm_Chat evt) \<noteq> ChatIgnored"
  shows "\<exists>e s' r. BuildInbound deps evt s = (Inr e, s') \<and> iv_Type e = ''list'' \<and> iv_RichContent e = Some r \<and>
    rk_Body r = truncateRunes (ip_body p) 1024 \<and> rk_Footer r = truncateRunes (ip_footer p) 60 \<and>
    (\<exists>secs. rk_List r = Some \<lparr>rli_ButtonText = truncateRunes (ip_buttonText p) 20, rli_Sections = secs\<rparr> \<and>
       secs = map (\<lambda>s. \<lparr>rls_Title = truncateRunes (is_title s) 24,
           rls_Rows = map (\<lambda>x. \<lparr>rlr_ID = (if ir_id x = [] then ir_title x else ir_id x), rlr_Title = truncateRunes (ir_title x) 24,
             rlr_Description = truncateRunes (ir_description x) 72\<rparr>) (is_rows s)\<rparr>) (filter (\<lambda>s. is_rows s \<noteq> []) (ip_sections p)) \<and>
       secs \<noteq> [] \<and> (\<Sum>s\<leftarrow>secs. length (rls_Rows s)) \<le> 10)"
proof -
  from BuildList_shape [OF assms(1)] obtain wl where wl: "msg = captioned (empty_content\<lparr>m_List := Some wl\<rparr>)"
    "list_sections 0 (ip_sections p) = Inr (wlm_Sections wl)" "wlm_Sections wl \<noteq> []"
    "wlm_Description wl = truncateRunes (ip_body p) maxBodyLen" "ip_body p \<noteq> []"
    "wlm_ButtonText wl = truncateRunes (ip_buttonText p) maxButtonTitleLen"
    "wlm_FooterText wl = truncateRunes (ip_footer p) maxFooterLen" "wlm_ContextInfo wl = ci" .
  let ?c = "empty_content\<lparr>m_List := Some wl\<rparr>"
  define secs where "secs = map (\<lambda>s. \<lparr>rls_Title = wls_Title s,
      rls_Rows = map (\<lambda>r. \<lparr>rlr_ID = wlr_RowID r, rlr_Title = wlr_Title r, rlr_Description = wlr_Description r\<rparr>) (wls_Rows s)\<rparr>) (wlm_Sections wl)"
  obtain r where r: "buildListRich wl = Some r" "rk_Kind r = ''list''" "rk_Body r = wlm_Description wl" "rk_Footer r = wlm_FooterText wl"
    "rk_List r = Some \<lparr>rli_ButtonText = wlm_ButtonText wl, rli_Sections = secs\<rparr>"
    using wl(3) by (simp add: buildListRich_def Let_def secs_def empty_rich_def)
  have "build_inbound deps evt s = switch_content deps evt (Some (plain_message ?c)) (new_event deps evt) s"
    using assms(2,3) wl(1) by (intro build_inbound_direct) (simp_all add: direct_def)
  also have "\<dots> = (rich_case deps (Some (plain_message ?c)) (Some r) ci (new_event deps evt), s)"
    using r(1) wl(8) by (simp add: switch_content_def switch_more_def switch_reply_def switch_rich_def pollCreationOf_def)
  finally obtain out where b: "build_inbound deps evt s = (Inr out, s)" "iv_Type out = ''list''" "iv_RichContent out = Some r"
    using r(2) by (simp add: rich_case_def applyRichOrFallback_def)
  note ok = list_sections_ok [OF wl(2)]
  have "secs \<noteq> []" "(\<Sum>s\<leftarrow>secs. length (rls_Rows s)) = (\<Sum>s\<leftarrow>wlm_Sections wl. length (wls_Rows s))"
    using wl(3) by (simp_all add: secs_def comp_def)
  moreover have "secs = map (\<lambda>s. \<lparr>rls_Title = truncateRunes (is_title s) 24,
      rls_Rows = map (\<lambda>x. \<lparr>rlr_ID = (if ir_id x = [] then ir_title x else ir_id x), rlr_Title = truncateRunes (ir_title x) 24,
        rlr_Description = truncateRunes (ir_description x) 72\<rparr>) (is_rows s)\<rparr>) (filter (\<lambda>s. is_rows s \<noteq> []) (ip_sections p))"
    unfolding secs_def conjunct1 [OF conjunct2 [OF ok]]
    by (simp add: comp_def list_row_def maxListTitleLen_def maxListDescLen_def)
  ultimately show ?thesis
    using BuildInbound_fields [OF b(1)] b r wl ok by (auto simp: maxBodyLen_def maxFooterLen_def maxButtonTitleLen_def maxListRows_def)
qed

section \<open>Witnesses\<close>

definition demo_builder :: "nat message_builder" where
  "demo_builder =
     \<lparr>ob_lib = bd_lib demo_inbound_deps, ob_fetch = (\<lambda>u w. (Inr u, w)),
      ob_Upload = (\<lambda>d mt w. (Inr \<lparr>up_URL = ''u'', up_DirectPath = ''p'', up_MediaKey = ''k'', up_FileEncSHA256 = ''e'',
        up_FileSHA256 = ''s'', up_FileLength = length d\<rparr>, w)),
      ob_LIDForPN = (\<lambda>j w. (Inr (j, False), w)), ob_BuildEdit = (\<lambda>c i m. m), ob_BuildRevoke = (\<lambda>c s i. conversation_message i),
      ob_BuildReaction = (\<lambda>c s i e. conversation_message e), ob_marshal = (\<lambda>fs. Inr [])\<rparr>"

definition demo_command :: GatewaySendCommand where
  "demo_command =
     \<lparr>sc_tenantID = ''t'', sc_channelID = ''ch'', sc_messageID = ''m'', sc_to = ''5511'', sc_type = ''text'', sc_kind = [],
      sc_targetProviderMessageID = [], sc_targetFromMe = False, sc_targetParticipantJID = [], sc_emoji = [], sc_forwarded = True,
      sc_text = ''hello'', sc_media = None, sc_location = None, sc_contacts = [],
      sc_replyTo = Some \<lparr>rt_providerMessageID = ''q'', rt_participantJID = [], rt_text = [], rt_fromMe = True\<rparr>,
      sc_mentions = [''ana''], sc_interactive = None\<rparr>"

definition demo_evt_with :: "message \<Rightarrow> wa_event_message" where
  "demo_evt_with msg = demo_group_evt\<lparr>xm_Message := Some msg\<rparr>"

lemma demo_evt_facts [simp]: "xm_Message (demo_evt_with msg) = Some msg" "KindOf (xm_Chat (demo_evt_with msg)) \<noteq> ChatIgnored"
  by (simp_all add: demo_evt_with_def demo_group_evt_def KindOf_def)

lemma demo_outbound: "\<exists>to msg. BuildOutbound demo_builder demo_command w = (Inr (to, msg, []), w)"
  by (simp add: BuildOutbound_def demo_builder_def demo_inbound_deps_def demo_command_def buildByType_def)

theorem text_survives_witness:
  "\<exists>to msg e s'. BuildOutbound demo_builder demo_command 0 = (Inr (to, msg, []), 0) \<and>
     BuildInbound demo_inbound_deps (demo_evt_with msg) \<lparr>bs_world = 0, bs_puts = []\<rparr> = (Inr e, s') \<and>
     iv_Text e = Some ''hello'' \<and> iv_ContextMessageID e = ''q'' \<and> iv_mentionedJIDs e = [''ana'']"
proof -
  obtain to msg where o: "BuildOutbound demo_builder demo_command 0 = (Inr (to, msg, []), 0)" using demo_outbound by blast
  have c: "sc_kind demo_command = []" "sc_type demo_command = ''text''" "sc_text demo_command = ''hello''"
    "sc_replyTo demo_command = Some \<lparr>rt_providerMessageID = ''q'', rt_participantJID = [], rt_text = [], rt_fromMe = True\<rparr>"
    "sc_mentions demo_command = [''ana'']" by (simp_all add: demo_command_def)
  from text_survives [OF o c(1,2) _ demo_evt_facts, of demo_inbound_deps "\<lparr>bs_world = 0, bs_puts = []\<rparr>"] o
  show ?thesis by (auto simp: c)
qed

definition demo_list :: InteractivePayload where
  "demo_list =
     \<lparr>ip_body = ''pick'', ip_footer = [], ip_buttons = [], ip_buttonText = ''open'',
      ip_sections = [\<lparr>is_title = ''a'', is_rows = []\<rparr>, \<lparr>is_title = ''b'', is_rows = [\<lparr>ir_id = [], ir_title = ''one'', ir_description = []\<rparr>]\<rparr>]\<rparr>"

end
