(* ===== verification/Ownership.thy ===== *)
theory Ownership
  imports Rpc "HOL-Library.Word"
begin

unbundle bit_operations_syntax

text \<open>
  Shard ownership: internal/ownership/shard.go and internal/ownership/redis.go. The three Lua scripts
  run atomically on the redis server, whose part that they use is a map from keys to an owner and the
  millisecond at which the key expires; a key past that millisecond reads as missing. A call of Eval
  takes time, and may fail before or after the server has run the script.
\<close>

section \<open>Shards\<close>

definition DefaultShardCount :: int where "DefaultShardCount = 1024"

text \<open>crc32.ChecksumIEEE, bit by bit, with the reversed polynomial 0xEDB88320.\<close>

definition crc_bit :: "32 word \<Rightarrow> 32 word" where
  "crc_bit c = (if bit c 0 then drop_bit 1 c XOR 3988292384 else drop_bit 1 c)"

definition crc_byte :: "char \<Rightarrow> 32 word \<Rightarrow> 32 word" where
  "crc_byte b c = (crc_bit ^^ 8) (c XOR of_char b)"

definition crc32 :: "string \<Rightarrow> 32 word" where
  "crc32 s = NOT (fold crc_byte s (NOT 0))"

definition Shard :: "string \<Rightarrow> int \<Rightarrow> int" where
  "Shard channelID n = uint (crc32 channelID mod word_of_int n)"

section \<open>The redis server\<close>

record redis =
  rd_keys :: "string \<Rightarrow> (string \<times> int) option"
  rd_now :: int
  rd_calls :: nat

text \<open>
  What happens around the n-th Eval: how long it takes to reach the server, and whether the caller
  gets an error instead of the reply, with the script run (\<open>True\<close>) or not (\<open>False\<close>).
\<close>

record redis_env =
  re_delay :: "nat \<Rightarrow> nat"
  re_fault :: "nat \<Rightarrow> (bool \<times> goerr) option"

definition redis_get :: "string \<Rightarrow> redis \<Rightarrow> string option" where
  "redis_get k r = (case rd_keys r k of None \<Rightarrow> None | Some (v, until) \<Rightarrow> if until < rd_now r then None else Some v)"

definition redis_set :: "string \<Rightarrow> string \<Rightarrow> int \<Rightarrow> redis \<Rightarrow> redis" where
  "redis_set k v px r = r\<lparr>rd_keys := (rd_keys r)(k \<mapsto> (v, rd_now r + px))\<rparr>"

text \<open>SET with PX refuses a lifetime that is not positive; PEXPIRE with one deletes the key.\<close>

definition redis_pexpire :: "string \<Rightarrow> int \<Rightarrow> redis \<Rightarrow> redis" where
  "redis_pexpire k px r =
     r\<lparr>rd_keys := (if px \<le> 0 then (rd_keys r)(k := None)
                   else (rd_keys r)(k := map_option (\<lambda>(v, until). (v, rd_now r + px)) (rd_keys r k)))\<rparr>"

definition redis_del :: "string \<Rightarrow> redis \<Rightarrow> redis" where
  "redis_del k r = r\<lparr>rd_keys := (rd_keys r)(k := None)\<rparr>"

type_synonym script = "redis \<Rightarrow> int result \<times> redis"

definition claimScript :: "string \<Rightarrow> string \<Rightarrow> int \<Rightarrow> script" where
  "claimScript key owner px r =
     (case redis_get key r of
        None \<Rightarrow>
          if px \<le> 0 then (Inl (Err EText ''ERR invalid expire time in 'set' command''), r)
          else (Inr 1, redis_set key owner px r)
      | Some current \<Rightarrow>
          if current = owner then (Inr 1, redis_pexpire key px r) else (Inr 0, r))"

definition renewScript :: "string \<Rightarrow> string \<Rightarrow> int \<Rightarrow> script" where
  "renewScript key owner px r =
     (if redis_get key r = Some owner then (Inr 1, redis_pexpire key px r) else (Inr 0, r))"

definition releaseScript :: "string \<Rightarrow> string \<Rightarrow> script" where
  "releaseScript key owner r =
     (if redis_get key r = Some owner then (Inr 1, redis_del key r) else (Inr 0, r))"

definition redis_Eval :: "redis_env \<Rightarrow> script \<Rightarrow> script" where
  "redis_Eval env script r =
     (let n = rd_calls r;
          r1 = r\<lparr>rd_now := rd_now r + int (re_delay env n), rd_calls := n + 1\<rparr>
      in case re_fault env n of
           None \<Rightarrow> script r1
         | Some (executed, err) \<Rightarrow> (Inl err, if executed then snd (script r1) else r1))"

section \<open>The store\<close>

definition shardOwnerKeyPrefix :: string where "shardOwnerKeyPrefix = ''gateway:shard-owner:''"

definition shardOwnerKey :: "int \<Rightarrow> string" where
  "shardOwnerKey shard = shardOwnerKeyPrefix @ show_int shard"

text \<open>Duration.Milliseconds truncates.\<close>

definition milliseconds :: "int \<Rightarrow> int" where
  "milliseconds ttl = (if ttl < 0 then - (- ttl div 1000000) else ttl div 1000000)"

definition shard_error :: "string \<Rightarrow> int \<Rightarrow> goerr \<Rightarrow> goerr" where
  "shard_error verb shard err = Wrap (verb @ '' shard '' @ show_int shard @ '': '') err []"

definition script_reply :: "string \<Rightarrow> int \<Rightarrow> int result \<times> redis \<Rightarrow> bool result \<times> redis" where
  "script_reply verb shard p =
     (case p of (Inl err, r) \<Rightarrow> (Inl (shard_error verb shard err), r) | (Inr n, r) \<Rightarrow> (Inr (n = 1), r))"

definition ttl_error :: "string \<Rightarrow> int \<Rightarrow> goerr" where
  "ttl_error verb shard = Err EText (verb @ '' shard '' @ show_int shard @ '': ttl must be positive'')"

definition Claim :: "redis_env \<Rightarrow> int \<Rightarrow> string \<Rightarrow> int \<Rightarrow> redis \<Rightarrow> bool result \<times> redis" where
  "Claim env shard instanceID ttl r =
     (if ttl \<le> 0 then (Inl (ttl_error ''claim'' shard), r)
      else script_reply ''claim'' shard
        (redis_Eval env (claimScript (shardOwnerKey shard) instanceID (milliseconds ttl)) r))"

definition Renew :: "redis_env \<Rightarrow> int \<Rightarrow> string \<Rightarrow> int \<Rightarrow> redis \<Rightarrow> bool result \<times> redis" where
  "Renew env shard instanceID ttl r =
     (if ttl \<le> 0 then (Inl (ttl_error ''renew'' shard), r)
      else script_reply ''renew'' shard
        (redis_Eval env (renewScript (shardOwnerKey shard) instanceID (milliseconds ttl)) r))"

definition ownership_Release :: "redis_env \<Rightarrow> int \<Rightarrow> string \<Rightarrow> redis \<Rightarrow> bool result \<times> redis" where
  "ownership_Release env shard instanceID r =
     script_reply ''release'' shard (redis_Eval env (releaseScript (shardOwnerKey shard) instanceID) r)"

fun claim_shards :: "redis_env \<Rightarrow> string \<Rightarrow> int \<Rightarrow> int list \<Rightarrow> redis \<Rightarrow> goerr option \<times> redis" where
  "claim_shards env instanceID ttl [] r = (None, r)"
| "claim_shards env instanceID ttl (shard # shards) r =
     (case Claim env shard instanceID ttl r of
        (Inl err, r') \<Rightarrow> (Some (shard_error ''claim'' shard err), r')
      | (Inr ok, r') \<Rightarrow>
          if \<not> ok
          then (Some (Err EText (''claim shard '' @ show_int shard @ '': already owned by another instance'')), r')
          else claim_shards env instanceID ttl shards r')"

definition ClaimAll :: "redis_env \<Rightarrow> int \<Rightarrow> string \<Rightarrow> int \<Rightarrow> redis \<Rightarrow> goerr option \<times> redis" where
  "ClaimAll env shardCount instanceID ttl r = claim_shards env instanceID ttl [0..shardCount - 1] r"

fun release_shards :: "redis_env \<Rightarrow> string \<Rightarrow> int list \<Rightarrow> redis \<Rightarrow> goerr option \<times> redis" where
  "release_shards env instanceID [] r = (None, r)"
| "release_shards env instanceID (shard # shards) r =
     (case ownership_Release env shard instanceID r of
        (Inl err, r') \<Rightarrow> (Some (shard_error ''release'' shard err), r')
      | (Inr ok, r') \<Rightarrow> release_shards env instanceID shards r')"

definition ReleaseAll :: "redis_env \<Rightarrow> int \<Rightarrow> string \<Rightarrow> redis \<Rightarrow> goerr option \<times> redis" where
  "ReleaseAll env shardCount instanceID r = release_shards env instanceID [0..shardCount - 1] r"

section \<open>Instances sharing the server\<close>

text \<open>
  The gateways of a deployment claim, renew and release shards in any order, all with the lifetime
  of the configuration. \<open>ow_held\<close> records, for every instance and shard, the end of the lifetime that
  the last successful reply granted; it is what an instance may rely on. An instance gives a shard
  up when it starts to release it.
\<close>

record own_system =
  ow_redis :: redis
  ow_held :: "string \<times> int \<Rightarrow> int option"

definition grant :: "int \<Rightarrow> string \<Rightarrow> int \<Rightarrow> bool result \<times> redis \<Rightarrow> own_system \<Rightarrow> own_system" where
  "grant ttl i shard p st =
     (case p of (res, r) \<Rightarrow>
        \<lparr>ow_redis = r,
         ow_held = (if res = Inr True then (ow_held st)((i, shard) \<mapsto> rd_now r + milliseconds ttl) else ow_held st)\<rparr>)"

inductive own_step :: "int \<Rightarrow> own_system \<Rightarrow> own_system \<Rightarrow> bool" for ttl :: int where
  own_claim: "own_step ttl st (grant ttl i shard (Claim env shard i ttl (ow_redis st)) st)"
| own_renew: "own_step ttl st (grant ttl i shard (Renew env shard i ttl (ow_redis st)) st)"
| own_release:
    "own_step ttl st \<lparr>ow_redis = snd (ownership_Release env shard i (ow_redis st)), ow_held = (ow_held st)((i, shard) := None)\<rparr>"
| own_tick: "own_step ttl st (st\<lparr>ow_redis := (ow_redis st)\<lparr>rd_now := rd_now (ow_redis st) + int d\<rparr>\<rparr>)"

definition own_start :: "int \<Rightarrow> own_system" where
  "own_start now = \<lparr>ow_redis = \<lparr>rd_keys = Map.empty, rd_now = now, rd_calls = 0\<rparr>, ow_held = Map.empty\<rparr>"

definition holds :: "own_system \<Rightarrow> string \<Rightarrow> int \<Rightarrow> bool" where
  "holds st i shard = (case ow_held st (i, shard) of None \<Rightarrow> False | Some until \<Rightarrow> rd_now (ow_redis st) < until)"

section \<open>Keys and scripts\<close>

lemma show_int_inj [simp]: "show_int a = show_int b \<longleftrightarrow> a = b"
proof -
  have minus: "show_nat n \<noteq> CHR ''-'' # xs" for n xs
    using show_nat_digits [of n] by (cases "show_nat n") (auto simp: is_digit_def)
  show ?thesis by (auto simp: show_int_def minus minus [symmetric])
qed

lemma shardOwnerKey_inj [simp]: "shardOwnerKey a = shardOwnerKey b \<longleftrightarrow> a = b"
  by (simp add: shardOwnerKey_def)

lemma Shard_range: "0 < n \<Longrightarrow> n < 2 ^ 32 \<Longrightarrow> 0 \<le> Shard c n \<and> Shard c n < n"
  by (simp add: Shard_def uint_mod uint_word_of_int)

lemma redis_get_cases:
  "redis_get k r = Some v \<longleftrightarrow> (\<exists>u. rd_keys r k = Some (v, u) \<and> rd_now r \<le> u)"
  by (auto simp: redis_get_def split: option.splits if_splits)

lemma redis_get_free: "redis_get k r = None \<Longrightarrow> rd_keys r k = Some (v, u) \<Longrightarrow> u < rd_now r"
  by (auto simp: redis_get_def split: if_splits)


text \<open>
  What one Eval for instance i may do to the key of a shard: nothing, write i on a free or own key, or
  drop an own key. A reply of 1 to a claim or a renewal means one of the last two.
\<close>

definition touched :: "int \<Rightarrow> string \<Rightarrow> string \<Rightarrow> redis \<Rightarrow> bool result \<Rightarrow> redis \<Rightarrow> bool" where
  "touched px key i r res r' =
     (rd_now r \<le> rd_now r' \<and>
      (rd_keys r' = rd_keys r \<and> res \<noteq> Inr True \<or>
       redis_get key (r\<lparr>rd_now := rd_now r'\<rparr>) \<in> {None, Some i} \<and> 0 < px \<and>
         rd_keys r' = (rd_keys r)(key \<mapsto> (i, rd_now r' + px)) \<or>
       redis_get key (r\<lparr>rd_now := rd_now r'\<rparr>) = Some i \<and> px \<le> 0 \<and> rd_keys r' = (rd_keys r)(key := None)))"

lemma redis_get_cong: "rd_keys r = rd_keys r' \<Longrightarrow> rd_now r = rd_now r' \<Longrightarrow> redis_get k r = redis_get k r'"
  by (simp add: redis_get_def split: option.splits)

lemma pexpire_own:
  "redis_get key r = Some i \<Longrightarrow>
   rd_keys (redis_pexpire key px r) = (if px \<le> 0 then (rd_keys r)(key := None) else (rd_keys r)(key \<mapsto> (i, rd_now r + px)))"
  by (auto simp: redis_get_cases redis_pexpire_def)

lemma script_keeps_now [simp]:
  "rd_now (snd (claimScript key i px r)) = rd_now r"
  "rd_now (snd (renewScript key i px r)) = rd_now r"
  "rd_now (snd (releaseScript key i r)) = rd_now r"
  by (auto simp: claimScript_def renewScript_def releaseScript_def redis_set_def redis_pexpire_def redis_del_def
      split: option.splits)

lemma pexpire_now [simp]: "rd_now (redis_pexpire key px r) = rd_now r"
  by (simp add: redis_pexpire_def)

definition script_effect :: "int \<Rightarrow> string \<Rightarrow> string \<Rightarrow> script \<Rightarrow> bool" where
  "script_effect px key i script =
     (\<forall>r. rd_now (snd (script r)) = rd_now r \<and>
        (fst (script r) \<noteq> Inr 1 \<and> rd_keys (snd (script r)) = rd_keys r \<or>
         redis_get key r \<in> {None, Some i} \<and> 0 < px \<and>
           rd_keys (snd (script r)) = (rd_keys r)(key \<mapsto> (i, rd_now r + px)) \<or>
         redis_get key r = Some i \<and> px \<le> 0 \<and> rd_keys (snd (script r)) = (rd_keys r)(key := None)))"

lemma script_effect_now: "script_effect px key i script \<Longrightarrow> rd_now (snd (script r)) = rd_now r"
  by (simp add: script_effect_def)

lemma claimScript_effect: "script_effect px key i (claimScript key i px)"
  unfolding script_effect_def
proof
  fix r
  show "rd_now (snd (claimScript key i px r)) = rd_now r \<and>
    (fst (claimScript key i px r) \<noteq> Inr 1 \<and> rd_keys (snd (claimScript key i px r)) = rd_keys r \<or>
     redis_get key r \<in> {None, Some i} \<and> 0 < px \<and>
       rd_keys (snd (claimScript key i px r)) = (rd_keys r)(key \<mapsto> (i, rd_now r + px)) \<or>
     redis_get key r = Some i \<and> px \<le> 0 \<and> rd_keys (snd (claimScript key i px r)) = (rd_keys r)(key := None))"
    by (cases "redis_get key r"; cases "px \<le> 0"; cases "redis_get key r = Some i")
      (auto simp: claimScript_def redis_set_def pexpire_own)
qed

lemma renewScript_effect: "script_effect px key i (renewScript key i px)"
  unfolding script_effect_def
proof
  fix r
  show "rd_now (snd (renewScript key i px r)) = rd_now r \<and>
    (fst (renewScript key i px r) \<noteq> Inr 1 \<and> rd_keys (snd (renewScript key i px r)) = rd_keys r \<or>
     redis_get key r \<in> {None, Some i} \<and> 0 < px \<and>
       rd_keys (snd (renewScript key i px r)) = (rd_keys r)(key \<mapsto> (i, rd_now r + px)) \<or>
     redis_get key r = Some i \<and> px \<le> 0 \<and> rd_keys (snd (renewScript key i px r)) = (rd_keys r)(key := None))"
    by (cases "px \<le> 0"; cases "redis_get key r = Some i") (auto simp: renewScript_def pexpire_own)
qed

text \<open>One Eval: the clock advances, then the script runs or does not.\<close>

lemma redis_Eval_cases:
  assumes "script_reply verb shard (redis_Eval env script r) = (res, r')"
  obtains r1 where "rd_keys r1 = rd_keys r" "rd_now r \<le> rd_now r1" "r' = r1" "res \<noteq> Inr True"
  | r1 where "rd_keys r1 = rd_keys r" "rd_now r \<le> rd_now r1" "r' = snd (script r1)"
      "res = Inr True \<longrightarrow> fst (script r1) = Inr 1"
proof -
  define r1 where "r1 = r\<lparr>rd_now := rd_now r + int (re_delay env (rd_calls r)), rd_calls := rd_calls r + 1\<rparr>"
  have r1: "rd_keys r1 = rd_keys r" "rd_now r \<le> rd_now r1" by (simp_all add: r1_def)
  have "r' = r1 \<and> res \<noteq> Inr True \<or> r' = snd (script r1) \<and> (res = Inr True \<longrightarrow> fst (script r1) = Inr 1)"
    using assms
    by (auto simp: script_reply_def redis_Eval_def Let_def r1_def split: option.splits prod.splits sum.splits if_splits)
  then show thesis using that r1 by blast
qed

lemma Eval_touched:
  assumes "script_effect px key i script"
    and "script_reply verb shard (redis_Eval env script r) = (res, r')"
  shows "touched px key i r res r'"
  using assms(2)
proof (cases rule: redis_Eval_cases)
  case (1 r1)
  then show ?thesis by (simp add: touched_def)
next
  case (2 r1)
  have now: "rd_now r' = rd_now r1" unfolding 2(3) by (rule script_effect_now [OF assms(1)])
  have same: "redis_get key (r\<lparr>rd_now := rd_now r1\<rparr>) = redis_get key r1"
    by (rule redis_get_cong) (simp_all add: 2(1))
  show ?thesis
    using assms(1) [unfolded script_effect_def, rule_format, of r1] 2 unfolding touched_def now same by auto
qed

lemma untouched: "res \<noteq> Inr True \<Longrightarrow> touched px key i r res r"
  by (simp add: touched_def)

lemma Claim_touched:
  "Claim env shard i ttl r = (res, r') \<Longrightarrow> touched (milliseconds ttl) (shardOwnerKey shard) i r res r'"
  by (auto simp: Claim_def intro: untouched Eval_touched [OF claimScript_effect] split: if_splits)

lemma Renew_touched:
  "Renew env shard i ttl r = (res, r') \<Longrightarrow> touched (milliseconds ttl) (shardOwnerKey shard) i r res r'"
  by (auto simp: Renew_def intro: untouched Eval_touched [OF renewScript_effect] split: if_splits)

lemma Release_cases:
  assumes "ownership_Release env shard i r = (res, r')"
  shows "rd_now r \<le> rd_now r' \<and>
    (rd_keys r' = rd_keys r \<or>
     redis_get (shardOwnerKey shard) (r\<lparr>rd_now := rd_now r'\<rparr>) = Some i \<and> rd_keys r' = (rd_keys r)(shardOwnerKey shard := None))"
  using assms unfolding ownership_Release_def
proof (cases rule: redis_Eval_cases)
  case (2 r1)
  have same: "redis_get k (r\<lparr>rd_now := rd_now r1\<rparr>) = redis_get k r1" for k
    by (rule redis_get_cong) (simp_all add: 2)
  show ?thesis using 2 by (auto simp: releaseScript_def redis_del_def same)
qed simp

section \<open>One owner at a time\<close>

definition own_inv :: "int \<Rightarrow> own_system \<Rightarrow> bool" where
  "own_inv ttl st =
     ((\<forall>k v e. rd_keys (ow_redis st) k = Some (v, e) \<longrightarrow> e \<le> rd_now (ow_redis st) + milliseconds ttl) \<and>
      (\<forall>i shard u. ow_held st (i, shard) = Some u \<longrightarrow> rd_now (ow_redis st) < u \<longrightarrow>
         (\<exists>e. rd_keys (ow_redis st) (shardOwnerKey shard) = Some (i, e) \<and> u \<le> e)))"

lemma own_invD:
  assumes "own_inv ttl st"
  shows "rd_keys (ow_redis st) k = Some (v, e) \<Longrightarrow> e \<le> rd_now (ow_redis st) + milliseconds ttl"
    and "ow_held st (i, shard) = Some u \<Longrightarrow> rd_now (ow_redis st) < u \<Longrightarrow>
      \<exists>e. rd_keys (ow_redis st) (shardOwnerKey shard) = Some (i, e) \<and> u \<le> e"
  using assms by (auto simp: own_inv_def)

text \<open>A live grant is what a script reads, so only its holder can touch the key.\<close>

lemma live_reads:
  assumes inv: "own_inv ttl st" and held: "ow_held st (i, shard) = Some u"
    and now: "rd_now (ow_redis st) \<le> now" "now < u"
  shows "redis_get (shardOwnerKey shard) ((ow_redis st)\<lparr>rd_now := now\<rparr>) = Some i"
    and "0 < milliseconds ttl" "u \<le> now + milliseconds ttl"
proof -
  obtain e where e: "rd_keys (ow_redis st) (shardOwnerKey shard) = Some (i, e)" "u \<le> e"
    using own_invD(2) [OF inv held] now by auto
  show "redis_get (shardOwnerKey shard) ((ow_redis st)\<lparr>rd_now := now\<rparr>) = Some i"
    using e now by (simp add: redis_get_def)
  have "e \<le> rd_now (ow_redis st) + milliseconds ttl" using own_invD(1) [OF inv e(1)] .
  then show "0 < milliseconds ttl" "u \<le> now + milliseconds ttl" using e now by simp_all
qed

lemma grant_inv:
  assumes inv: "own_inv ttl st"
    and touched: "touched (milliseconds ttl) (shardOwnerKey shard) i (ow_redis st) res r'"
  shows "own_inv ttl (grant ttl i shard (res, r') st)"
proof -
  let ?r = "ow_redis st" let ?px = "milliseconds ttl" let ?key = "shardOwnerKey shard"
  have now: "rd_now ?r \<le> rd_now r'" using touched by (simp add: touched_def)
  have ages: "e \<le> rd_now r' + ?px" if "rd_keys r' k = Some (v, e)" for k v e
    using touched that own_invD(1) [OF inv, of k v e] now by (auto simp: touched_def split: if_splits)
  have live: "\<exists>e. rd_keys r' (shardOwnerKey s) = Some (j, e) \<and> u \<le> e"
    if held: "ow_held st (j, s) = Some u" and u: "rd_now r' < u" for j s u
  proof -
    obtain e where e: "rd_keys ?r (shardOwnerKey s) = Some (j, e)" "u \<le> e"
      using own_invD(2) [OF inv held] u now by auto
    note reads = live_reads [OF inv held now u]
    show ?thesis using touched e reads by (cases "s = shard") (auto simp: touched_def)
  qed
  have new: "\<exists>e. rd_keys r' ?key = Some (i, e) \<and> rd_now r' + ?px \<le> e"
    if "res = Inr True" "0 < ?px" using that touched by (auto simp: touched_def)
  show ?thesis
    using ages live new by (auto simp: own_inv_def grant_def)
qed

lemma own_step_inv: "own_step ttl st st' \<Longrightarrow> own_inv ttl st \<Longrightarrow> own_inv ttl st'"
proof (induction rule: own_step.induct)
  case (own_claim st i shard env)
  then show ?case by (metis grant_inv Claim_touched prod.exhaust_sel)
next
  case (own_renew st i shard env)
  then show ?case by (metis grant_inv Renew_touched prod.exhaust_sel)
next
  case (own_release st env shard i)
  let ?r = "ow_redis st"
  obtain res r' where rel: "ownership_Release env shard i ?r = (res, r')" by fastforce
  note cases = Release_cases [OF rel]
  have now: "rd_now ?r \<le> rd_now r'" using cases by simp
  have ages: "e \<le> rd_now r' + milliseconds ttl" if "rd_keys r' k = Some (v, e)" for k v e
    using cases that own_invD(1) [OF own_release, of k v e] by (auto split: if_splits)
  have live: "\<exists>e. rd_keys r' (shardOwnerKey s) = Some (j, e) \<and> u \<le> e"
    if held: "ow_held st (j, s) = Some u" and u: "rd_now r' < u" and other: "(j, s) \<noteq> (i, shard)" for j s u
  proof -
    obtain e where e: "rd_keys ?r (shardOwnerKey s) = Some (j, e)" "u \<le> e"
      using own_invD(2) [OF own_release held] u now by auto
    show ?thesis using cases e live_reads [OF own_release held now u] other by (cases "s = shard") auto
  qed
  show ?case using ages live rel by (auto simp: own_inv_def)
next
  case (own_tick st d)
  then show ?case by (fastforce simp: own_inv_def)
qed

lemma own_start_inv: "own_inv ttl (own_start now)"
  by (simp add: own_inv_def own_start_def)

lemma own_reachable_inv: "(own_step ttl)\<^sup>*\<^sup>* (own_start now) st \<Longrightarrow> own_inv ttl st"
  by (induction rule: rtranclp_induct) (auto intro: own_start_inv own_step_inv)

text \<open>The calls of ClaimAll are steps, and after a success the instance holds every shard.\<close>

lemma claim_shards_steps:
  assumes "claim_shards env i ttl shards (ow_redis st) = (None, r')" "0 < milliseconds ttl"
  shows "\<exists>st'. (own_step ttl)\<^sup>*\<^sup>* st st' \<and> ow_redis st' = r' \<and> rd_now (ow_redis st) \<le> rd_now r' \<and>
    (\<forall>shard\<in>set shards. \<exists>u. ow_held st' (i, shard) = Some u \<and> rd_now (ow_redis st) + milliseconds ttl \<le> u) \<and>
    (\<forall>shard. shard \<notin> set shards \<longrightarrow> ow_held st' (i, shard) = ow_held st (i, shard))"
  using assms(1)
proof (induction shards arbitrary: st)
  case Nil
  then show ?case by auto
next
  case (Cons shard shards)
  let ?p = "Claim env shard i ttl (ow_redis st)"
  obtain r1 where p: "?p = (Inr True, r1)" and rest: "claim_shards env i ttl shards r1 = (None, r')"
    using Cons.prems by (auto split: prod.splits sum.splits if_splits)
  let ?st1 = "grant ttl i shard ?p st"
  have st1: "ow_redis ?st1 = r1" "ow_held ?st1 = (ow_held st)((i, shard) \<mapsto> rd_now r1 + milliseconds ttl)"
    by (simp_all add: grant_def p)
  have now: "rd_now (ow_redis st) \<le> rd_now r1" using Claim_touched [OF p] by (simp add: touched_def)
  obtain st' where st': "(own_step ttl)\<^sup>*\<^sup>* ?st1 st'" "ow_redis st' = r'" "rd_now r1 \<le> rd_now r'"
    and held: "\<forall>s\<in>set shards. \<exists>u. ow_held st' (i, s) = Some u \<and> rd_now r1 + milliseconds ttl \<le> u"
    and other: "\<forall>s. s \<notin> set shards \<longrightarrow> ow_held st' (i, s) = ow_held ?st1 (i, s)"
    using Cons.IH [of ?st1] rest st1(1) by auto
  have "\<exists>u. ow_held st' (i, s) = Some u \<and> rd_now (ow_redis st) + milliseconds ttl \<le> u" if "s \<in> set (shard # shards)" for s
  proof (cases "s \<in> set shards")
    case True
    then show ?thesis using held now by fastforce
  next
    case False
    then show ?thesis using other that st1 now by auto
  qed
  moreover have "(own_step ttl)\<^sup>*\<^sup>* st st'"
    using st'(1) own_claim [of ttl st i shard env] by (rule converse_rtranclp_into_rtranclp [rotated])
  ultimately show ?case using st' other now st1 by auto
qed

text \<open>
  C8. Whatever the order in which instances claim, renew and release shards, whatever the time their
  calls take, and even when redis runs a script whose reply is lost, two instances never hold an
  unexpired grant of the same shard, and the holder is the owner that redis names. In particular the
  instance whose ClaimAll has succeeded is alone on every shard until the lifetime that its first
  call started has passed.
\<close>

theorem shard_exclusive:
  assumes "(own_step ttl)\<^sup>*\<^sup>* (own_start now) st"
  shows "(holds st i shard \<and> holds st j shard \<longrightarrow> i = j) \<and>
    (holds st i shard \<longrightarrow> redis_get (shardOwnerKey shard) (ow_redis st) = Some i) \<and>
    (ClaimAll env n i ttl (ow_redis st) = (None, r') \<and> 0 < milliseconds ttl \<longrightarrow>
      (\<exists>st'. (own_step ttl)\<^sup>*\<^sup>* st st' \<and> ow_redis st' = r' \<and>
         (\<forall>s. 0 \<le> s \<and> s < n \<and> rd_now r' < rd_now (ow_redis st) + milliseconds ttl \<longrightarrow> holds st' i s)))"
proof (intro conjI impI)
  have inv: "own_inv ttl st" using assms by (rule own_reachable_inv)
  have owner: "redis_get (shardOwnerKey shard) (ow_redis st) = Some k" if "holds st k shard" for k
    using that live_reads(1) [OF inv, of k shard _ "rd_now (ow_redis st)"] by (simp add: holds_def split: option.splits)
  show "i = j" if "holds st i shard \<and> holds st j shard" using that owner [of i] owner [of j] by simp
  show "redis_get (shardOwnerKey shard) (ow_redis st) = Some i" if "holds st i shard" using that by (rule owner)
  assume "ClaimAll env n i ttl (ow_redis st) = (None, r') \<and> 0 < milliseconds ttl"
  then have claim: "claim_shards env i ttl [0..n - 1] (ow_redis st) = (None, r')" "0 < milliseconds ttl"
    by (simp_all add: ClaimAll_def)
  show "\<exists>st'. (own_step ttl)\<^sup>*\<^sup>* st st' \<and> ow_redis st' = r' \<and>
    (\<forall>s. 0 \<le> s \<and> s < n \<and> rd_now r' < rd_now (ow_redis st) + milliseconds ttl \<longrightarrow> holds st' i s)"
  proof -
    obtain st' where st': "(own_step ttl)\<^sup>*\<^sup>* st st'" "ow_redis st' = r'"
      and held: "\<forall>s\<in>set [0..n - 1]. \<exists>u. ow_held st' (i, s) = Some u \<and> rd_now (ow_redis st) + milliseconds ttl \<le> u"
      using claim_shards_steps [OF claim] by blast
    have "holds st' i s" if s: "0 \<le> s" "s < n" and now: "rd_now r' < rd_now (ow_redis st) + milliseconds ttl" for s
    proof -
      obtain u where "ow_held st' (i, s) = Some u" "rd_now (ow_redis st) + milliseconds ttl \<le> u" using held [rule_format, of s] s by auto
      then show ?thesis using st'(2) now by (simp add: holds_def)
    qed
    then show ?thesis using st' by blast
  qed
qed

text \<open>ClaimAll takes every shard whose key is free, expired or its own, when redis answers.\<close>

lemma claimScript_free:
  "redis_get key r \<in> {None, Some i} \<Longrightarrow> 0 < px \<Longrightarrow> fst (claimScript key i px r) = Inr 1"
  by (auto simp: claimScript_def)

lemma Claim_free:
  assumes "re_fault env (rd_calls r) = None" "0 < milliseconds ttl"
    and "redis_get (shardOwnerKey shard) (r\<lparr>rd_now := rd_now r + int (re_delay env (rd_calls r))\<rparr>) \<in> {None, Some i}"
  shows "fst (Claim env shard i ttl r) = Inr True"
proof -
  define r1 where "r1 = r\<lparr>rd_now := rd_now r + int (re_delay env (rd_calls r)), rd_calls := rd_calls r + 1\<rparr>"
  have "redis_get (shardOwnerKey shard) r1 = redis_get (shardOwnerKey shard) (r\<lparr>rd_now := rd_now r + int (re_delay env (rd_calls r))\<rparr>)"
    by (rule redis_get_cong) (simp_all add: r1_def)
  then have "fst (claimScript (shardOwnerKey shard) i (milliseconds ttl) r1) = Inr 1"
    using assms(2,3) by (intro claimScript_free) simp_all
  then obtain r2 where "claimScript (shardOwnerKey shard) i (milliseconds ttl) r1 = (Inr 1, r2)"
    by (metis prod.exhaust_sel)
  moreover have "\<not> ttl \<le> 0" using assms(2) by (auto simp: milliseconds_def split: if_splits)
  moreover have "redis_Eval env script r = script r1" for script
    by (simp add: redis_Eval_def r1_def assms(1) Let_def)
  ultimately show ?thesis
    by (simp add: Claim_def script_reply_def)
qed

lemma claim_shards_free:
  assumes "\<forall>n. re_fault env n = None" "0 < milliseconds ttl" "distinct shards"
    and "\<forall>shard\<in>set shards. \<forall>v u. rd_keys r (shardOwnerKey shard) = Some (v, u) \<longrightarrow> v = i \<or> u < rd_now r"
  shows "fst (claim_shards env i ttl shards r) = None"
  using assms(3,4)
proof (induction shards arbitrary: r)
  case (Cons shard shards)
  let ?now = "rd_now r + int (re_delay env (rd_calls r))"
  have "redis_get (shardOwnerKey shard) (r\<lparr>rd_now := ?now\<rparr>) \<in> {None, Some i}"
  proof (cases "rd_keys r (shardOwnerKey shard)")
    case (Some p)
    obtain v u where "p = (v, u)" by fastforce
    then show ?thesis using Some Cons.prems(2) [rule_format, of shard v u] by (auto simp: redis_get_def)
  qed (simp add: redis_get_def)
  then have "fst (Claim env shard i ttl r) = Inr True" using assms(1,2) by (intro Claim_free) auto
  then obtain r' where claim: "Claim env shard i ttl r = (Inr True, r')" by (metis prod.exhaust_sel)
  have touched: "touched (milliseconds ttl) (shardOwnerKey shard) i r (Inr True) r'" by (rule Claim_touched [OF claim])
  then have now: "rd_now r \<le> rd_now r'" by (simp add: touched_def)
  have "rd_keys r' (shardOwnerKey s) = rd_keys r (shardOwnerKey s)" if "s \<in> set shards" for s
    using touched that Cons.prems(1) by (auto simp: touched_def)
  then have "\<forall>s\<in>set shards. \<forall>v u. rd_keys r' (shardOwnerKey s) = Some (v, u) \<longrightarrow> v = i \<or> u < rd_now r'"
    using Cons.prems(2) now by (metis dual_order.strict_trans1 list.set_intros(2))
  then show ?case using Cons.IH [of r'] Cons.prems(1) claim by simp
qed simp

text \<open>
  A claim is worth its lifetime and no more: once the lifetime has passed after the last call of a
  ClaimAll that succeeded, with no Renew or Release in between, the ClaimAll of any other instance
  takes every shard (if redis answers). So an owner that crashed does not block its successor.
\<close>

lemma claim_lapses:
  assumes "(own_step ttl)\<^sup>*\<^sup>* (own_start now) st" "0 < milliseconds ttl"
    and "ClaimAll env n i ttl (ow_redis st) = (None, r)"
    and "rd_now r + milliseconds ttl < later" "\<forall>k. re_fault env' k = None"
  shows "fst (ClaimAll env' n j ttl (r\<lparr>rd_now := later\<rparr>)) = None"
proof -
  have claim: "claim_shards env i ttl [0..n - 1] (ow_redis st) = (None, r)" using assms(3) by (simp add: ClaimAll_def)
  obtain st' where st': "(own_step ttl)\<^sup>*\<^sup>* st st'" "ow_redis st' = r"
    using claim_shards_steps [OF claim assms(2)] by blast
  have "own_inv ttl st'" using assms(1) st'(1) by (intro own_reachable_inv) (rule rtranclp_trans)
  then have "\<forall>k v e. rd_keys r k = Some (v, e) \<longrightarrow> e < later" using own_invD(1) st'(2) assms(4) by fastforce
  then show ?thesis unfolding ClaimAll_def using assms(2,5) by (intro claim_shards_free) auto
qed

section \<open>Witnesses\<close>

definition demo_ttl :: int where "demo_ttl = 24 * 60 * 60 * 1000000000"

definition demo_redis :: redis_env where
  "demo_redis = \<lparr>re_delay = \<lambda>n. 5, re_fault = \<lambda>n. None\<rparr>"

definition demo_owner :: own_system where
  "demo_owner = grant demo_ttl ''blue'' 0 (Claim demo_redis 0 ''blue'' demo_ttl (ow_redis (own_start 0))) (own_start 0)"

lemma demo_owner_reachable: "(own_step demo_ttl)\<^sup>*\<^sup>* (own_start 0) demo_owner"
  unfolding demo_owner_def by (rule r_into_rtranclp) (rule own_claim)

lemma demo_claim:
  "Claim demo_redis 0 ''blue'' demo_ttl (ow_redis (own_start 0)) =
     (Inr True, \<lparr>rd_keys = [shardOwnerKey 0 \<mapsto> (''blue'', 86400005)], rd_now = 5, rd_calls = 1\<rparr>)"
  by (simp add: Claim_def demo_ttl_def milliseconds_def script_reply_def redis_Eval_def demo_redis_def own_start_def
      Let_def claimScript_def redis_get_def redis_set_def)

lemma shard_exclusive_witness:
  "holds demo_owner ''blue'' 0 \<and> \<not> holds demo_owner ''green'' 0"
proof -
  have blue: "holds demo_owner ''blue'' 0"
    unfolding demo_owner_def demo_claim by (simp add: grant_def holds_def demo_ttl_def milliseconds_def)
  have "\<not> (holds demo_owner ''blue'' 0 \<and> holds demo_owner ''green'' 0)"
    using shard_exclusive [OF demo_owner_reachable, of "''blue''" 0 "''green''"] by auto
  then show ?thesis using blue by simp
qed

end
