(* ===== verification/Config.thy ===== *)
theory Config
  imports Rpc Ownership
begin

text \<open>
  The configuration, internal/config/config.go: a function of the environment, which is a map from
  names of variables to their values (the empty string when a variable is not set, as os.Getenv
  answers). The pace of sends is a float64 and is kept as its bit pattern.
\<close>

record Config =
  cf_InstanceID :: string
  cf_AMQPURL :: string
  cf_SessionDSN :: string
  cf_RedisURL :: string
  cf_S3Bucket :: string
  cf_S3Region :: string
  cf_S3Endpoint :: string
  cf_S3AccessKeyID :: string
  cf_S3SecretAccessKey :: string
  cf_ShardCount :: int
  cf_SendPacePerSec :: float64
  cf_Prefetch :: int
  cf_GroupPrefetch :: int
  cf_ShardLockTTL :: int
  cf_SendTimeout :: int
  cf_ShutdownDrainTimeout :: int
  cf_RpcDrainTimeout :: int
  cf_CallTmpDir :: string
  cf_CallRecord :: bool
  cf_CallMediaAddr :: string
  cf_CallMediaTokenSecret :: string
  cf_CallMediaOrigins :: "string list"

text \<open>strings.Split with a separator of one byte.\<close>

fun split_char :: "char \<Rightarrow> string \<Rightarrow> string list" where
  "split_char sep [] = [[]]"
| "split_char sep (c # cs) =
     (if c = sep then [] # split_char sep cs
      else (case split_char sep cs of [] \<Rightarrow> [[c]] | p # ps \<Rightarrow> (c # p) # ps))"

definition splitCSV :: "string \<Rightarrow> string list" where
  "splitCSV v = (if v = [] then [] else filter (\<lambda>p. p \<noteq> []) (map trim_space (split_char (CHR '','') v)))"

definition seconds :: "int \<Rightarrow> int" where "seconds n = n * 1000000000"

text \<open>The default of internal/amqp/group_lanes.go.\<close>

definition DefaultGroupPrefetch :: int where "DefaultGroupPrefetch = 64"

definition env_config :: "(string \<Rightarrow> string) \<Rightarrow> Config" where
  "env_config getenv =
     \<lparr>cf_InstanceID = getenv ''GATEWAY_INSTANCE_ID'',
      cf_AMQPURL = getenv ''AMQP_URL'',
      cf_SessionDSN = getenv ''SESSION_DATABASE_URL'',
      cf_RedisURL = getenv ''REDIS_URL'',
      cf_S3Bucket = getenv ''S3_BUCKET'',
      cf_S3Region = getenv ''S3_REGION'',
      cf_S3Endpoint = getenv ''S3_ENDPOINT'',
      cf_S3AccessKeyID = getenv ''S3_ACCESS_KEY_ID'',
      cf_S3SecretAccessKey = getenv ''S3_SECRET_ACCESS_KEY'',
      cf_ShardCount = DefaultShardCount,
      cf_SendPacePerSec = 0x3FF0000000000000,
      cf_Prefetch = 32,
      cf_GroupPrefetch = DefaultGroupPrefetch,
      cf_ShardLockTTL = seconds (24 * 60 * 60),
      cf_SendTimeout = seconds 30,
      cf_ShutdownDrainTimeout = seconds 20,
      cf_RpcDrainTimeout = seconds 30,
      cf_CallTmpDir = getenv ''GATEWAY_CALL_TMPDIR'',
      cf_CallRecord = (getenv ''GATEWAY_CALL_RECORD'' \<noteq> ''false''),
      cf_CallMediaAddr = getenv ''CALL_MEDIA_ADDR'',
      cf_CallMediaTokenSecret = getenv ''CALL_MEDIA_TOKEN_SECRET'',
      cf_CallMediaOrigins = splitCSV (getenv ''CALL_MEDIA_ALLOWED_ORIGINS'')\<rparr>"

definition prefetch_error :: "string \<Rightarrow> goerr" where
  "prefetch_error raw = Err EText (''GROUP_PREFETCH must be a positive integer, got '' @ go_quote raw)"

text \<open>strconv.Atoi is ParseInt with the 64 bits of an int.\<close>

definition Load :: "(string \<Rightarrow> string) \<Rightarrow> Config result" where
  "Load getenv =
     (let c = env_config getenv; raw = getenv ''GROUP_PREFETCH'';
          checked = (\<lambda>c. if cf_CallMediaAddr c \<noteq> [] \<and> cf_CallMediaTokenSecret c = []
             then Inl (Err EText ''CALL_MEDIA_TOKEN_SECRET is required when CALL_MEDIA_ADDR is set'') else Inr c)
      in if cf_AMQPURL c = [] \<or> cf_SessionDSN c = [] \<or> cf_RedisURL c = [] \<or> cf_InstanceID c = []
         then Inl (Err EText
           ''missing required env (GATEWAY_INSTANCE_ID, AMQP_URL, SESSION_DATABASE_URL, REDIS_URL)'')
         else if raw \<noteq> []
         then (case parse_int64 raw of
                 None \<Rightarrow> Inl (prefetch_error raw)
               | Some n \<Rightarrow> if n \<le> 0 then Inl (prefetch_error raw) else checked (c\<lparr>cf_GroupPrefetch := n\<rparr>))
         else checked c)"

section \<open>What a loaded configuration promises\<close>

lemma split_char_concat: "concat (map (\<lambda>p. p @ [sep]) (split_char sep s)) = s @ [sep]"
  by (induction sep s rule: split_char.induct) (auto split: list.splits)

lemma splitCSV_nonempty: "[] \<notin> set (splitCSV v)"
  by (auto simp: splitCSV_def)

lemma milliseconds_day: "milliseconds (seconds (24 * 60 * 60)) = 86400000"
  by (simp add: milliseconds_def seconds_def)

lemma Load_accepts:
  assumes "Load getenv = Inr c"
  shows "cf_InstanceID c \<noteq> [] \<and> cf_AMQPURL c \<noteq> [] \<and> cf_SessionDSN c \<noteq> [] \<and> cf_RedisURL c \<noteq> [] \<and>
    0 < cf_GroupPrefetch c \<and> (cf_CallMediaAddr c \<noteq> [] \<longrightarrow> cf_CallMediaTokenSecret c \<noteq> []) \<and>
    cf_ShardCount c = 1024 \<and> 0 < milliseconds (cf_ShardLockTTL c) \<and> [] \<notin> set (cf_CallMediaOrigins c)"
proof -
  have env: "cf_ShardCount (env_config getenv) = 1024" "0 < milliseconds (cf_ShardLockTTL (env_config getenv))"
    "[] \<notin> set (cf_CallMediaOrigins (env_config getenv))" "0 < cf_GroupPrefetch (env_config getenv)"
    using milliseconds_day
    by (simp_all add: env_config_def DefaultShardCount_def DefaultGroupPrefetch_def splitCSV_nonempty)
  obtain n where "0 < n" "c = (env_config getenv)\<lparr>cf_GroupPrefetch := n\<rparr>"
    "cf_InstanceID c \<noteq> [] \<and> cf_AMQPURL c \<noteq> [] \<and> cf_SessionDSN c \<noteq> [] \<and> cf_RedisURL c \<noteq> []"
    "cf_CallMediaAddr c \<noteq> [] \<longrightarrow> cf_CallMediaTokenSecret c \<noteq> []"
  proof (cases "getenv ''GROUP_PREFETCH'' = []")
    case True
    then show ?thesis using assms that [of "cf_GroupPrefetch (env_config getenv)"] env(4)
      by (auto simp: Load_def Let_def split: if_splits)
  next
    case False
    then obtain n where n: "parse_int64 (getenv ''GROUP_PREFETCH'') = Some n" "0 < n"
      using assms by (auto simp: Load_def Let_def split: if_splits option.splits)
    then show ?thesis using assms False that [of n] by (auto simp: Load_def Let_def split: if_splits)
  qed
  then show ?thesis using env by simp
qed

end
