(* ===== verification/TtlCache.thy ===== *)
theory TtlCache
  imports Prelude
begin

text \<open>
  The cache that internal/avatar/avatar.go and internal/groupinfo/groupinfo.go share: entries with a
  lifetime, each behind its own mutex, in a map that drops the idle ones when it is full. The map
  holds references to entries, so an entry that was dropped while a goroutine waits for its mutex
  lives on for that goroutine only. The theory has the operations, an abstract specification that the
  operations refine when they run alone, and the interleavings of any number of goroutines.
\<close>

section \<open>Entries and their map\<close>

text \<open>The zero time.Time, 1 January of the year 1, in nanoseconds since 1970.\<close>

definition zero_time :: int where "zero_time = - (62135596800 * 1000000000)"

record 'v centry =
  en_val :: 'v
  en_expires :: int
  en_loaded :: bool

record 'v ttl_cache =
  tc_entries :: "(string \<times> nat) list"
  tc_objs :: "'v centry list"
  tc_locked :: "nat list"

text \<open>The zero value of what an entry holds, the size that triggers an eviction, and the idle time.\<close>

record 'v cache_cfg =
  cg_zero :: 'v
  cg_threshold :: nat
  cg_idle :: int

definition empty_cache :: "'v ttl_cache" where
  "empty_cache = \<lparr>tc_entries = [], tc_objs = [], tc_locked = []\<rparr>"

definition new_entry :: "'v cache_cfg \<Rightarrow> 'v centry" where
  "new_entry cfg = \<lparr>en_val = cg_zero cfg, en_expires = zero_time, en_loaded = False\<rparr>"

text \<open>TryLock skips the entries that some goroutine has locked.\<close>

definition idle_entry :: "'v cache_cfg \<Rightarrow> int \<Rightarrow> 'v ttl_cache \<Rightarrow> nat \<Rightarrow> bool" where
  "idle_entry cfg now c i = (i \<notin> set (tc_locked c) \<and> en_expires (tc_objs c ! i) < now - cg_idle cfg)"

definition evictIdle :: "'v cache_cfg \<Rightarrow> int \<Rightarrow> 'v ttl_cache \<Rightarrow> 'v ttl_cache" where
  "evictIdle cfg now c = c\<lparr>tc_entries := filter (\<lambda>(k, i). \<not> idle_entry cfg now c i) (tc_entries c)\<rparr>"

definition entryFor :: "'v cache_cfg \<Rightarrow> int \<Rightarrow> string \<Rightarrow> 'v ttl_cache \<Rightarrow> nat \<times> 'v ttl_cache" where
  "entryFor cfg now key c =
     (case map_of (tc_entries c) key of
        Some i \<Rightarrow> (i, c)
      | None \<Rightarrow>
          (let c1 = (if cg_threshold cfg \<le> length (tc_entries c) then evictIdle cfg now c else c);
               i = length (tc_objs c1)
           in (i, c1\<lparr>tc_entries := (key, i) # tc_entries c1, tc_objs := tc_objs c1 @ [new_entry cfg]\<rparr>)))"

definition delete_key :: "string \<Rightarrow> 'v ttl_cache \<Rightarrow> 'v ttl_cache" where
  "delete_key key c = c\<lparr>tc_entries := filter (\<lambda>(k, i). k \<noteq> key) (tc_entries c)\<rparr>"

definition fresh_entry :: "int \<Rightarrow> 'v centry \<Rightarrow> bool" where
  "fresh_entry now e = (en_loaded e \<and> now < en_expires e)"

definition entry_store :: "'v \<Rightarrow> int \<Rightarrow> nat \<Rightarrow> 'v ttl_cache \<Rightarrow> 'v ttl_cache" where
  "entry_store v expires i c =
     c\<lparr>tc_objs := (tc_objs c)[i := \<lparr>en_val = v, en_expires = expires, en_loaded = True\<rparr>]\<rparr>"

definition lock_entry :: "nat \<Rightarrow> 'v ttl_cache \<Rightarrow> 'v ttl_cache" where
  "lock_entry i c = c\<lparr>tc_locked := i # tc_locked c\<rparr>"

definition unlock_entry :: "nat \<Rightarrow> 'v ttl_cache \<Rightarrow> 'v ttl_cache" where
  "unlock_entry i c = c\<lparr>tc_locked := remove1 i (tc_locked c)\<rparr>"

text \<open>
  One whole lookup: the entry, its mutex, the cached value while it is fresh, or else a new value with
  its expiry from \<open>resolve\<close>, which sees the old value and acts on the world \<open>'w\<close>.
\<close>

type_synonym ('v, 'w) resolve = "'v \<Rightarrow> 'w \<Rightarrow> ('v \<times> int) \<times> 'w"

definition cache_get ::
  "'v cache_cfg \<Rightarrow> ('w \<Rightarrow> int) \<Rightarrow> string \<Rightarrow> ('v, 'w) resolve \<Rightarrow> 'v ttl_cache \<times> 'w \<Rightarrow> 'v \<times> 'v ttl_cache \<times> 'w" where
  "cache_get cfg now key resolve s =
     (case s of (c, w) \<Rightarrow>
      case entryFor cfg (now w) key c of (i, c1) \<Rightarrow>
        (let c2 = lock_entry i c1; e = tc_objs c2 ! i
         in if fresh_entry (now w) e then (en_val e, unlock_entry i c2, w)
            else (case resolve (en_val e) w of ((v, expires), w') \<Rightarrow>
                    (v, unlock_entry i (entry_store v expires i c2), w'))))"

section \<open>Abstract specification\<close>

text \<open>
  A map from keys to a value and its expiry. Looking a key up answers a value that has not expired
  and otherwise renews it; the map may forget keys, but only those that expired the idle time ago.
\<close>

type_synonym 'v spec = "string \<Rightarrow> ('v \<times> int) option"

definition spec_get ::
  "'v \<Rightarrow> ('w \<Rightarrow> int) \<Rightarrow> string \<Rightarrow> ('v, 'w) resolve \<Rightarrow> 'v spec \<times> 'w \<Rightarrow> 'v \<times> 'v spec \<times> 'w" where
  "spec_get zero now key resolve s =
     (case s of (m, w) \<Rightarrow>
       (let renew = (\<lambda>old. case resolve old w of ((v, expires), w') \<Rightarrow> (v, m(key \<mapsto> (v, expires)), w'))
        in case m key of
             None \<Rightarrow> renew zero
           | Some (v, expires) \<Rightarrow> if now w < expires then (v, m, w) else renew v))"

definition may_forget :: "int \<Rightarrow> int \<Rightarrow> 'v spec \<Rightarrow> string set \<Rightarrow> bool" where
  "may_forget idle now m gone = (\<forall>k\<in>gone. \<forall>v expires. m k = Some (v, expires) \<longrightarrow> expires < now - idle)"

definition forget_keys :: "string set \<Rightarrow> 'v spec \<Rightarrow> 'v spec" where
  "forget_keys gone m = m |` (- gone)"

definition cache_abs :: "'v ttl_cache \<Rightarrow> 'v spec" where
  "cache_abs c k =
     (case map_of (tc_entries c) k of
        None \<Rightarrow> None
      | Some i \<Rightarrow>
          (let e = tc_objs c ! i in if en_loaded e then Some (en_val e, en_expires e) else None))"

text \<open>
  The keys are those of a map, every reference points to an entry of its own, and an entry that was
  never loaded is as the code creates it.
\<close>

definition cache_wf :: "'v cache_cfg \<Rightarrow> 'v ttl_cache \<Rightarrow> bool" where
  "cache_wf cfg c =
     (distinct (map fst (tc_entries c)) \<and> distinct (map snd (tc_entries c)) \<and>
      (\<forall>i\<in>snd ` set (tc_entries c). i < length (tc_objs c)) \<and>
      (\<forall>e\<in>set (tc_objs c). \<not> en_loaded e \<longrightarrow> e = new_entry cfg))"

lemma cache_wfD:
  assumes "cache_wf cfg c"
  shows "map_of (tc_entries c) k = Some i \<Longrightarrow> i < length (tc_objs c)"
    and "map_of (tc_entries c) k = Some i \<Longrightarrow> map_of (tc_entries c) k' = Some i \<Longrightarrow> k = k'"
    and "i < length (tc_objs c) \<Longrightarrow> \<not> en_loaded (tc_objs c ! i) \<Longrightarrow> tc_objs c ! i = new_entry cfg"
proof -
  show "map_of (tc_entries c) k = Some i \<Longrightarrow> i < length (tc_objs c)"
    using assms by (force simp: cache_wf_def dest: map_of_SomeD)
  show "k = k'" if "map_of (tc_entries c) k = Some i" "map_of (tc_entries c) k' = Some i"
  proof -
    have "(k, i) \<in> set (tc_entries c)" "(k', i) \<in> set (tc_entries c)" using that by (auto dest: map_of_SomeD)
    moreover have "inj_on snd (set (tc_entries c))" using assms by (simp add: cache_wf_def distinct_map)
    ultimately show ?thesis by (metis inj_onD prod.inject snd_conv)
  qed
  show "i < length (tc_objs c) \<Longrightarrow> \<not> en_loaded (tc_objs c ! i) \<Longrightarrow> tc_objs c ! i = new_entry cfg"
    using assms by (auto simp: cache_wf_def)
qed

lemma cache_wf_empty: "cache_wf cfg empty_cache"
  by (simp add: cache_wf_def empty_cache_def)

lemma distinct_map_filter': "distinct (map f xs) \<Longrightarrow> distinct (map f (filter P xs))"
  by (induction xs) auto

lemma cache_wf_filter:
  "cache_wf cfg c \<Longrightarrow> cache_wf cfg (c\<lparr>tc_entries := filter P (tc_entries c)\<rparr>)"
  by (auto simp: cache_wf_def distinct_map_filter')

lemma cache_wf_locked [simp]: "cache_wf cfg (c\<lparr>tc_locked := l\<rparr>) = cache_wf cfg c"
  by (simp add: cache_wf_def)

lemma map_of_filter_snd:
  "distinct (map fst xs) \<Longrightarrow>
   map_of (filter P xs) k = (case map_of xs k of None \<Rightarrow> None | Some i \<Rightarrow> if P (k, i) then Some i else None)"
proof (induction xs)
  case (Cons x xs)
  have "map_of xs k = None" if "k \<notin> fst ` set xs" using that by (simp add: map_of_eq_None_iff)
  then show ?case using Cons by (cases x) (auto split: option.splits)
qed simp

section \<open>Refinement\<close>

lemma cache_abs_locked [simp]: "cache_abs (c\<lparr>tc_locked := l\<rparr>) = cache_abs c"
  by (rule ext) (simp add: cache_abs_def Let_def split: option.split)

lemma forget_none [simp]: "forget_keys {} m = m"
  by (rule ext) (simp add: forget_keys_def)

lemma evict_refines:
  assumes wf: "cache_wf cfg c"
  shows "\<exists>gone. may_forget (cg_idle cfg) now (cache_abs c) gone \<and>
    gone \<subseteq> dom (map_of (tc_entries c)) \<and> cache_abs (evictIdle cfg now c) = forget_keys gone (cache_abs c)"
proof (intro exI conjI)
  let ?gone = "{k. \<exists>i. map_of (tc_entries c) k = Some i \<and> idle_entry cfg now c i}"
  show "may_forget (cg_idle cfg) now (cache_abs c) ?gone"
    by (auto simp: may_forget_def cache_abs_def idle_entry_def Let_def split: if_splits)
  show "?gone \<subseteq> dom (map_of (tc_entries c))" by auto
  have distinct: "distinct (map fst (tc_entries c))" using wf by (simp add: cache_wf_def)
  show "cache_abs (evictIdle cfg now c) = forget_keys ?gone (cache_abs c)"
    by (rule ext) (simp add: cache_abs_def evictIdle_def forget_keys_def map_of_filter_snd [OF distinct]
        restrict_map_def split: option.split)
qed

lemma cache_wf_new:
  assumes "cache_wf cfg c" "map_of (tc_entries c) key = None"
  shows "cache_wf cfg (c\<lparr>tc_entries := (key, length (tc_objs c)) # tc_entries c, tc_objs := tc_objs c @ [new_entry cfg]\<rparr>)"
  using assms by (fastforce simp: cache_wf_def map_of_eq_None_iff)

lemma cache_abs_new:
  assumes "cache_wf cfg c" "map_of (tc_entries c) key = None"
  shows "cache_abs (c\<lparr>tc_entries := (key, length (tc_objs c)) # tc_entries c, tc_objs := tc_objs c @ [new_entry cfg]\<rparr>) = cache_abs c"
  by (rule ext)
    (use assms in \<open>auto simp: cache_abs_def new_entry_def Let_def nth_append dest: cache_wfD(1) split: option.splits\<close>)

lemma entryFor_refines:
  assumes wf: "cache_wf cfg c" and entry: "entryFor cfg now key c = (i, c')"
  shows "cache_wf cfg c' \<and> map_of (tc_entries c') key = Some i \<and> tc_locked c' = tc_locked c \<and>
    (\<exists>gone. may_forget (cg_idle cfg) now (cache_abs c) gone \<and> key \<notin> gone \<and> cache_abs c' = forget_keys gone (cache_abs c))"
proof (cases "map_of (tc_entries c) key")
  case (Some j)
  then have "c' = c" "i = j" using entry by (simp_all add: entryFor_def)
  moreover have "may_forget (cg_idle cfg) now (cache_abs c) {}" by (simp add: may_forget_def)
  moreover have "cache_abs c = forget_keys {} (cache_abs c)" by simp
  ultimately show ?thesis using wf Some by (metis empty_iff)
next
  case None
  define c1 where "c1 = (if cg_threshold cfg \<le> length (tc_entries c) then evictIdle cfg now c else c)"
  have c': "i = length (tc_objs c1)"
    "c' = c1\<lparr>tc_entries := (key, length (tc_objs c1)) # tc_entries c1, tc_objs := tc_objs c1 @ [new_entry cfg]\<rparr>"
    using entry None by (auto simp: entryFor_def c1_def Let_def)
  have wf1: "cache_wf cfg c1" using wf by (simp add: c1_def evictIdle_def cache_wf_filter)
  have distinct: "distinct (map fst (tc_entries c))" using wf by (simp add: cache_wf_def)
  have none1: "map_of (tc_entries c1) key = None"
    using None by (simp add: c1_def evictIdle_def map_of_filter_snd [OF distinct])
  obtain gone where gone: "may_forget (cg_idle cfg) now (cache_abs c) gone" "gone \<subseteq> dom (map_of (tc_entries c))"
    "cache_abs c1 = forget_keys gone (cache_abs c)"
  proof (cases "cg_threshold cfg \<le> length (tc_entries c)")
    case True
    then show ?thesis using that evict_refines [OF wf, of now] by (auto simp: c1_def)
  next
    case False
    then show ?thesis using that [of "{}"] by (simp add: c1_def may_forget_def)
  qed
  have "tc_locked c' = tc_locked c" by (simp add: c' c1_def evictIdle_def)
  moreover have "key \<notin> gone" using gone(2) None by auto
  ultimately show ?thesis
    using cache_wf_new [OF wf1 none1] cache_abs_new [OF wf1 none1] gone c' by auto
qed

lemma cache_abs_entry:
  assumes "cache_wf cfg c" "map_of (tc_entries c) key = Some i"
  shows "cache_abs c key = (if en_loaded (tc_objs c ! i) then Some (en_val (tc_objs c ! i), en_expires (tc_objs c ! i)) else None)"
    and "\<not> en_loaded (tc_objs c ! i) \<Longrightarrow> en_val (tc_objs c ! i) = cg_zero cfg"
proof -
  show "cache_abs c key = (if en_loaded (tc_objs c ! i) then Some (en_val (tc_objs c ! i), en_expires (tc_objs c ! i)) else None)"
    using assms by (simp add: cache_abs_def Let_def)
  show "\<not> en_loaded (tc_objs c ! i) \<Longrightarrow> en_val (tc_objs c ! i) = cg_zero cfg"
    using cache_wfD(3) [OF assms(1) cache_wfD(1) [OF assms]] by (simp add: new_entry_def)
qed

lemma cache_wf_store:
  assumes "cache_wf cfg c"
  shows "cache_wf cfg (entry_store v expires i c)"
  using assms by (auto simp: cache_wf_def entry_store_def dest!: set_update_subset_insert [THEN subsetD])

lemma cache_abs_store:
  assumes "cache_wf cfg c" "map_of (tc_entries c) key = Some i"
  shows "cache_abs (entry_store v expires i c) = (cache_abs c)(key \<mapsto> (v, expires))"
proof
  fix k
  have i: "i < length (tc_objs c)" using cache_wfD(1) [OF assms] .
  show "cache_abs (entry_store v expires i c) k = ((cache_abs c)(key \<mapsto> (v, expires))) k"
  proof (cases "map_of (tc_entries c) k")
    case (Some j)
    then show ?thesis using assms(2) i cache_wfD(2) [OF assms(1), of k j key]
      by (cases "j = i") (auto simp: cache_abs_def entry_store_def Let_def)
  qed (use assms(2) in \<open>auto simp: cache_abs_def entry_store_def\<close>)
qed

lemma cache_abs_delete:
  assumes "cache_wf cfg c"
  shows "cache_abs (delete_key key c) = (cache_abs c)(key := None)" and "cache_wf cfg (delete_key key c)"
proof -
  have distinct: "distinct (map fst (tc_entries c))" using assms by (simp add: cache_wf_def)
  show "cache_abs (delete_key key c) = (cache_abs c)(key := None)"
    by (rule ext) (simp add: cache_abs_def delete_key_def map_of_filter_snd [OF distinct] split: option.split)
  show "cache_wf cfg (delete_key key c)" using assms by (simp add: delete_key_def cache_wf_filter)
qed

text \<open>An operation that runs alone does what the specification does, after it may have forgotten some keys.\<close>

lemma cache_get_refines:
  assumes wf: "cache_wf cfg c" and free: "tc_locked c = []"
    and get: "cache_get cfg now key resolve (c, w) = (v, c', w')"
  shows "cache_wf cfg c' \<and> tc_locked c' = [] \<and>
    (\<exists>gone. may_forget (cg_idle cfg) (now w) (cache_abs c) gone \<and>
       spec_get (cg_zero cfg) now key resolve (forget_keys gone (cache_abs c), w) = (v, cache_abs c', w'))"
proof -
  obtain i c1 where entry: "entryFor cfg (now w) key c = (i, c1)" by fastforce
  obtain gone where wf1: "cache_wf cfg c1" and map1: "map_of (tc_entries c1) key = Some i" and locked1: "tc_locked c1 = []"
    and gone: "may_forget (cg_idle cfg) (now w) (cache_abs c) gone" "cache_abs c1 = forget_keys gone (cache_abs c)"
    using entryFor_refines [OF wf entry] free by auto
  let ?e = "tc_objs c1 ! i"
  note abs1 = cache_abs_entry [OF wf1 map1]
  show ?thesis
  proof (cases "fresh_entry (now w) ?e")
    case True
    then have eqs: "v = en_val ?e" "c' = unlock_entry i (lock_entry i c1)" "w' = w"
      using get entry by (simp_all add: cache_get_def lock_entry_def)
    then have c': "cache_abs c' = cache_abs c1" "cache_wf cfg c'" "tc_locked c' = []"
      using wf1 locked1 by (simp_all add: lock_entry_def unlock_entry_def)
    have "cache_abs c1 key = Some (en_val ?e, en_expires ?e)" "now w < en_expires ?e"
      using True abs1(1) by (simp_all add: fresh_entry_def)
    then have "spec_get (cg_zero cfg) now key resolve (cache_abs c1, w) = (v, cache_abs c', w')"
      by (simp add: spec_get_def eqs(1,3) c'(1))
    then show ?thesis using gone c' by metis
  next
    case False
    obtain v1 x w1 where res: "resolve (en_val ?e) w = ((v1, x), w1)" by (metis prod.exhaust_sel)
    have eqs: "v = v1" "w' = w1" "c' = unlock_entry i (entry_store v1 x i (lock_entry i c1))"
      using get entry False res by (auto simp: cache_get_def lock_entry_def)
    have c': "c' = entry_store v1 x i (c1\<lparr>tc_locked := []\<rparr>)"
      using eqs(3) locked1 by (simp add: lock_entry_def unlock_entry_def entry_store_def)
    have "cache_abs c' = (cache_abs c1)(key \<mapsto> (v1, x))"
      unfolding c' using cache_abs_store [of cfg "c1\<lparr>tc_locked := []\<rparr>" key i] wf1 map1 by simp
    moreover have "cache_wf cfg c'" unfolding c' by (rule cache_wf_store) (simp add: wf1)
    moreover have "tc_locked c' = []" by (simp add: c' entry_store_def)
    moreover have "spec_get (cg_zero cfg) now key resolve (cache_abs c1, w) = (v1, (cache_abs c1)(key \<mapsto> (v1, x)), w1)"
      using False res abs1 by (auto simp: spec_get_def Let_def fresh_entry_def split: option.split)
    ultimately show ?thesis using gone eqs by metis
  qed
qed

section \<open>Many goroutines\<close>

text \<open>
  A goroutine takes an entry from the map (under the map's mutex), waits for the entry's mutex, and
  then either answers from the entry or keeps the mutex while it resolves a new value. Keys may be
  dropped from the map at any time. The log has every value that was resolved (\<open>Looked\<close>, with its
  time and expiry) and every answer (\<open>Served\<close>); \<open>sy_keys\<close> has the key that each entry was made for.
\<close>

datatype cphase = Waiting nat | Resolving nat

fun phase_entry :: "cphase \<Rightarrow> nat" where
  "phase_entry (Waiting i) = i"
| "phase_entry (Resolving i) = i"

datatype ('r, 'v) cache_event = Looked 'r int 'v int | Served 'r int 'v

record ('r, 'v, 'w) cache_system =
  sy_cache :: "'v ttl_cache"
  sy_world :: 'w
  sy_procs :: "nat \<Rightarrow> ('r \<times> cphase) option"
  sy_keys :: "string list"
  sy_log :: "('r, 'v) cache_event list"

inductive cache_step ::
  "'v cache_cfg \<Rightarrow> ('w \<Rightarrow> int) \<Rightarrow> ('r \<Rightarrow> string) \<Rightarrow> ('r \<Rightarrow> ('v, 'w) resolve) \<Rightarrow>
   ('r, 'v, 'w) cache_system \<Rightarrow> ('r, 'v, 'w) cache_system \<Rightarrow> bool"
  for cfg :: "'v cache_cfg" and now :: "'w \<Rightarrow> int" and key :: "'r \<Rightarrow> string" and resolve :: "'r \<Rightarrow> ('v, 'w) resolve"
where
  cache_enter:
    "sy_procs s p = None \<Longrightarrow> entryFor cfg (now (sy_world s)) (key r) (sy_cache s) = (i, c) \<Longrightarrow>
     cache_step cfg now key resolve s
       (s\<lparr>sy_cache := c, sy_procs := (sy_procs s)(p \<mapsto> (r, Waiting i)),
          sy_keys := sy_keys s @ replicate (length (tc_objs c) - length (tc_objs (sy_cache s))) (key r)\<rparr>)"
| cache_hit:
    "sy_procs s p = Some (r, Waiting i) \<Longrightarrow> i \<notin> set (tc_locked (sy_cache s)) \<Longrightarrow>
     fresh_entry (now (sy_world s)) (tc_objs (sy_cache s) ! i) \<Longrightarrow>
     cache_step cfg now key resolve s
       (s\<lparr>sy_procs := (sy_procs s)(p := None),
          sy_log := sy_log s @ [Served r (now (sy_world s)) (en_val (tc_objs (sy_cache s) ! i))]\<rparr>)"
| cache_miss:
    "sy_procs s p = Some (r, Waiting i) \<Longrightarrow> i \<notin> set (tc_locked (sy_cache s)) \<Longrightarrow>
     \<not> fresh_entry (now (sy_world s)) (tc_objs (sy_cache s) ! i) \<Longrightarrow>
     cache_step cfg now key resolve s
       (s\<lparr>sy_cache := lock_entry i (sy_cache s), sy_procs := (sy_procs s)(p \<mapsto> (r, Resolving i))\<rparr>)"
| cache_answer:
    "sy_procs s p = Some (r, Resolving i) \<Longrightarrow>
     resolve r (en_val (tc_objs (sy_cache s) ! i)) (sy_world s) = ((v, expires), w) \<Longrightarrow>
     cache_step cfg now key resolve s
       (s\<lparr>sy_cache := unlock_entry i (entry_store v expires i (sy_cache s)), sy_world := w,
          sy_procs := (sy_procs s)(p := None),
          sy_log := sy_log s @ [Looked r (now w) v expires, Served r (now w) v]\<rparr>)"
| cache_drop:
    "cache_step cfg now key resolve s (s\<lparr>sy_cache := delete_key k (sy_cache s)\<rparr>)"
| cache_pass:
    "now (sy_world s) \<le> now w \<Longrightarrow> cache_step cfg now key resolve s (s\<lparr>sy_world := w\<rparr>)"

definition cache_start :: "'w \<Rightarrow> ('r, 'v, 'w) cache_system" where
  "cache_start w = \<lparr>sy_cache = empty_cache, sy_world = w, sy_procs = Map.empty, sy_keys = [], sy_log = []\<rparr>"

text \<open>An answer is backed by a value that was resolved for the same key at most \<open>longest\<close> before.\<close>

definition backed :: "('r \<Rightarrow> string) \<Rightarrow> int \<Rightarrow> ('r, 'v) cache_event list \<Rightarrow> 'r \<Rightarrow> int \<Rightarrow> 'v \<Rightarrow> bool" where
  "backed key longest log r t v =
     (\<exists>r' t0 expires. Looked r' t0 v expires \<in> set log \<and> key r' = key r \<and> t0 \<le> t \<and> t \<le> t0 + longest)"

definition all_backed :: "('r \<Rightarrow> string) \<Rightarrow> int \<Rightarrow> ('r, 'v) cache_event list \<Rightarrow> bool" where
  "all_backed key longest log = (\<forall>r t v. Served r t v \<in> set log \<longrightarrow> backed key longest log r t v)"

definition entry_backed ::
  "('r \<Rightarrow> string) \<Rightarrow> int \<Rightarrow> ('r, 'v) cache_event list \<Rightarrow> int \<Rightarrow> string \<Rightarrow> 'v centry \<Rightarrow> bool" where
  "entry_backed key longest log t k e =
     (en_loaded e \<longrightarrow> (\<exists>r t0. Looked r t0 (en_val e) (en_expires e) \<in> set log \<and> key r = k \<and> t0 \<le> t \<and>
        en_expires e \<le> t0 + longest))"

text \<open>No two goroutines resolve the value of the same entry at the same time.\<close>

definition single_flight :: "(nat \<Rightarrow> ('r \<times> cphase) option) \<Rightarrow> bool" where
  "single_flight procs =
     (\<forall>p q r r' i. procs p = Some (r, Resolving i) \<longrightarrow> procs q = Some (r', Resolving i) \<longrightarrow> p = q)"

definition cache_inv :: "('w \<Rightarrow> int) \<Rightarrow> ('r \<Rightarrow> string) \<Rightarrow> int \<Rightarrow> ('r, 'v, 'w) cache_system \<Rightarrow> bool" where
  "cache_inv now key longest s =
     (length (sy_keys s) = length (tc_objs (sy_cache s)) \<and>
      (\<forall>(k, i)\<in>set (tc_entries (sy_cache s)). i < length (sy_keys s) \<and> sy_keys s ! i = k) \<and>
      (\<forall>p r ph. sy_procs s p = Some (r, ph) \<longrightarrow>
         phase_entry ph < length (sy_keys s) \<and> sy_keys s ! phase_entry ph = key r) \<and>
      (\<forall>p r i. sy_procs s p = Some (r, Resolving i) \<longrightarrow> i \<in> set (tc_locked (sy_cache s))) \<and>
      single_flight (sy_procs s) \<and>
      (\<forall>i<length (sy_keys s).
         entry_backed key longest (sy_log s) (now (sy_world s)) (sy_keys s ! i) (tc_objs (sy_cache s) ! i)) \<and>
      all_backed key longest (sy_log s))"


subsection \<open>The invariant\<close>

lemma cache_invI:
  assumes "length (sy_keys s) = length (tc_objs (sy_cache s))"
    "\<And>k i. (k, i) \<in> set (tc_entries (sy_cache s)) \<Longrightarrow> i < length (sy_keys s) \<and> sy_keys s ! i = k"
    "\<And>p r ph. sy_procs s p = Some (r, ph) \<Longrightarrow> phase_entry ph < length (sy_keys s) \<and> sy_keys s ! phase_entry ph = key r"
    "\<And>p r i. sy_procs s p = Some (r, Resolving i) \<Longrightarrow> i \<in> set (tc_locked (sy_cache s))"
    "single_flight (sy_procs s)"
    "\<And>i. i < length (sy_keys s) \<Longrightarrow>
       entry_backed key longest (sy_log s) (now (sy_world s)) (sy_keys s ! i) (tc_objs (sy_cache s) ! i)"
    "all_backed key longest (sy_log s)"
  shows "cache_inv now key longest s"
  using assms unfolding cache_inv_def by (intro conjI) auto

lemma cache_invD:
  assumes "cache_inv now key longest s"
  shows "length (sy_keys s) = length (tc_objs (sy_cache s))"
    "(k, i) \<in> set (tc_entries (sy_cache s)) \<Longrightarrow> i < length (sy_keys s) \<and> sy_keys s ! i = k"
    "sy_procs s p = Some (r, ph) \<Longrightarrow> phase_entry ph < length (sy_keys s) \<and> sy_keys s ! phase_entry ph = key r"
    "sy_procs s p = Some (r, Resolving i) \<Longrightarrow> i \<in> set (tc_locked (sy_cache s))"
    "single_flight (sy_procs s)"
    "i < length (sy_keys s) \<Longrightarrow>
       entry_backed key longest (sy_log s) (now (sy_world s)) (sy_keys s ! i) (tc_objs (sy_cache s) ! i)"
    "all_backed key longest (sy_log s)"
  using assms unfolding cache_inv_def by auto

lemma entry_backed_mono:
  "entry_backed key longest log t k e \<Longrightarrow> t \<le> t' \<Longrightarrow> entry_backed key longest (log @ tail) t' k e"
  by (fastforce simp: entry_backed_def)

lemma entry_backed_time: "entry_backed key longest log t k e \<Longrightarrow> t \<le> t' \<Longrightarrow> entry_backed key longest log t' k e"
  by (fastforce simp: entry_backed_def)

lemma all_backed_snoc:
  "all_backed key longest log \<Longrightarrow> (\<And>r t v. Served r t v \<in> set tail \<Longrightarrow> backed key longest (log @ tail) r t v) \<Longrightarrow>
   all_backed key longest (log @ tail)"
  by (fastforce simp: all_backed_def backed_def)

lemma backed_snoc: "backed key longest log r t v \<Longrightarrow> backed key longest (log @ tail) r t v"
  by (fastforce simp: backed_def)

lemma entryFor_cases:
  assumes "entryFor cfg now key c = (i, c')"
  obtains "c' = c" "(key, i) \<in> set (tc_entries c)"
  | es where "i = length (tc_objs c)" "set es \<subseteq> set (tc_entries c)"
      "c' = c\<lparr>tc_entries := (key, i) # es, tc_objs := tc_objs c @ [new_entry cfg]\<rparr>"
proof (cases "map_of (tc_entries c) key")
  case None
  define es where "es = (if cg_threshold cfg \<le> length (tc_entries c) then tc_entries (evictIdle cfg now c) else tc_entries c)"
  have "set es \<subseteq> set (tc_entries c)" by (auto simp: es_def evictIdle_def)
  moreover have "i = length (tc_objs c)" "c' = c\<lparr>tc_entries := (key, i) # es, tc_objs := tc_objs c @ [new_entry cfg]\<rparr>"
    using assms None by (auto simp: entryFor_def evictIdle_def Let_def es_def)
  ultimately show thesis using that(2) by blast
next
  case (Some j)
  then show thesis using assms that(1) by (auto simp: entryFor_def dest: map_of_SomeD)
qed

lemma single_flight_upd:
  "single_flight procs \<Longrightarrow> (\<And>r i q r'. x = Some (r, Resolving i) \<Longrightarrow> procs q \<noteq> Some (r', Resolving i)) \<Longrightarrow>
   single_flight (procs(p := x))"
  by (fastforce simp: single_flight_def split: if_splits)

locale cache_resolver =
  fixes now :: "'w \<Rightarrow> int" and key :: "'r \<Rightarrow> string" and resolve :: "'r \<Rightarrow> ('v, 'w) resolve" and longest :: int
  assumes longest_pos: "0 \<le> longest"
    and resolve_time: "resolve r old w = ((v, expires), w') \<Longrightarrow> now w \<le> now w' \<and> expires \<le> now w' + longest"
begin

lemma cache_step_inv:
  assumes "cache_step cfg now key resolve s s'" "cache_inv now key longest s"
  shows "cache_inv now key longest s'"
  using assms
proof (induction rule: cache_step.induct)
  case (cache_enter s p r i c)
  note inv = cache_invD [OF cache_enter(3)]
  show ?case
  proof (cases rule: entryFor_cases [OF cache_enter(2)])
    case 1
    then show ?thesis
      using inv inv(2) [OF 1(2)] by (intro cache_invI) (auto split: if_splits intro!: single_flight_upd)
  next
    case (2 es)
    have i: "i = length (sy_keys s)" using 2(1) inv(1) by simp
    show ?thesis
      using inv 2 i by (intro cache_invI)
        (auto simp: nth_append new_entry_def entry_backed_def less_Suc_eq split: if_splits intro!: single_flight_upd)
  qed
next
  case (cache_hit s p r i)
  note inv = cache_invD [OF cache_hit(4)]
  let ?e = "tc_objs (sy_cache s) ! i" and ?t = "now (sy_world s)"
  have k: "i < length (sy_keys s)" "sy_keys s ! i = key r" using inv(3) [OF cache_hit(1)] by auto
  have "backed key longest (sy_log s) r ?t (en_val ?e)"
    using inv(6) [OF k(1)] cache_hit(3) k(2) by (fastforce simp: entry_backed_def backed_def fresh_entry_def)
  then have snoc: "all_backed key longest (sy_log s @ [Served r ?t (en_val ?e)])"
    by (intro all_backed_snoc inv(7)) (simp add: backed_snoc)
  show ?case
    using inv snoc
    by (intro cache_invI) (auto split: if_splits intro!: single_flight_upd entry_backed_mono [OF _ order_refl])
next
  case (cache_miss s p r i)
  note inv = cache_invD [OF cache_miss(4)]
  have "sy_procs s q \<noteq> Some (r', Resolving i)" for q r' using inv(4) cache_miss(2) by auto
  then show ?case
    using inv inv(3) [OF cache_miss(1)] by (intro cache_invI)
      (auto simp: lock_entry_def split: if_splits intro!: single_flight_upd)
next
  case (cache_answer s p r i v expires w)
  note inv = cache_invD [OF cache_answer(3)]
  have k: "i < length (sy_keys s)" "sy_keys s ! i = key r" using inv(3) [OF cache_answer(1)] by auto
  have time: "now (sy_world s) \<le> now w" "expires \<le> now w + longest" using resolve_time [OF cache_answer(2)] by auto
  have others: "i' \<noteq> i" if "sy_procs s q = Some (r', Resolving i')" "q \<noteq> p" for q r' i'
    using inv(5) that cache_answer(1) by (auto simp: single_flight_def)
  show ?case
  proof (rule cache_invI, goal_cases)
    case 1
    then show ?case using inv(1) by (simp add: unlock_entry_def entry_store_def)
  next
    case (2 k j)
    then show ?case using inv(2) by (simp add: unlock_entry_def entry_store_def)
  next
    case (3 q r' ph)
    then show ?case using inv(3) by (simp split: if_splits)
  next
    case (4 q r' j)
    then show ?case using inv(4) [of q r' j] others [of q r' j]
      by (auto simp: unlock_entry_def entry_store_def split: if_splits)
  next
    case 5
    then show ?case using inv(5) by (auto intro!: single_flight_upd)
  next
    case (6 j)
    then show ?case
    proof (cases "j = i")
      case True
      then show ?thesis using time k inv(1) by (auto simp: unlock_entry_def entry_store_def entry_backed_def)
    next
      case False
      then show ?thesis using 6 inv(6) [of j] time(1)
        by (auto simp: unlock_entry_def entry_store_def intro!: entry_backed_mono)
    qed
  next
    case 7
    have "backed key longest (sy_log s @ [Looked r (now w) v expires, Served r (now w) v]) r (now w) v"
      unfolding backed_def using longest_pos by (intro exI [of _ r] exI [of _ "now w"] exI [of _ expires]) simp
    then show ?case using inv(7) by (auto intro!: all_backed_snoc)
  qed
next
  case (cache_drop s k)
  note inv = cache_invD [OF cache_drop(1)]
  show ?case using inv by (intro cache_invI) (auto simp: delete_key_def)
next
  case (cache_pass s w)
  note inv = cache_invD [OF cache_pass(2)]
  show ?case using inv
    by (intro cache_invI) (auto intro: entry_backed_time [OF _ cache_pass(1)])
qed

lemma cache_start_inv: "cache_inv now key longest (cache_start w)"
  by (intro cache_invI) (auto simp: cache_start_def empty_cache_def single_flight_def all_backed_def)

lemma cache_reachable_inv: "(cache_step cfg now key resolve)\<^sup>*\<^sup>* (cache_start w) s \<Longrightarrow> cache_inv now key longest s"
  by (induction rule: rtranclp_induct) (auto intro: cache_start_inv cache_step_inv)

lemma answers_backed:
  assumes "(cache_step cfg now key resolve)\<^sup>*\<^sup>* (cache_start w) s"
  shows "all_backed key longest (sy_log s)" "single_flight (sy_procs s)"
  using cache_invD [OF cache_reachable_inv [OF assms]] by auto

end

end
