(* ===== verification/Caches.thy ===== *)
theory Caches
  imports TtlCache Inbound GroupService
begin

text \<open>
  The two caches of the gateway: profile pictures (internal/avatar/avatar.go) and group names
  (internal/groupinfo/groupinfo.go). The lookups of the WhatsApp client, the download of a picture and
  the media store are functions of the world \<open>'w\<close> that also say how many nanoseconds they took, so that the
  clock is part of the state and only moves forward; the timeout that bounds a lookup is part of how
  those functions fail.
\<close>

definition hours :: "int \<Rightarrow> int" where "hours n = n * 60 * 60 * 1000000000"
definition minutes :: "int \<Rightarrow> int" where "minutes n = n * 60 * 1000000000"

record 'w timed =
  tw_time :: int
  tw_world :: 'w

type_synonym ('a, 'w) ext = "'w \<Rightarrow> 'a \<times> nat \<times> 'w"

definition call_ext :: "('a, 'w) ext \<Rightarrow> 'w timed \<Rightarrow> 'a \<times> 'w timed" where
  "call_ext f s =
     (case f (tw_world s) of (a, took, w) \<Rightarrow> (a, \<lparr>tw_time = tw_time s + int took, tw_world = w\<rparr>))"

lemma call_ext_time: "call_ext f s = (a, s') \<Longrightarrow> tw_time s \<le> tw_time s'"
  by (auto simp: call_ext_def split: prod.splits)

section \<open>Profile pictures\<close>

definition extensionFor :: "string \<Rightarrow> string" where
  "extensionFor mime = (if mime = ''image/png'' then ''.png'' else if mime = ''image/webp'' then ''.webp'' else ''.jpg'')"

definition ttl :: int where "ttl = hours 24"
definition negativeTTL :: int where "negativeTTL = hours 6"
definition retryAfter :: int where "retryAfter = minutes 5"
definition idleBeforeEviction :: int where "idleBeforeEviction = ttl"
definition evictionThreshold :: nat where "evictionThreshold = 20000"
definition mimeType :: string where "mimeType = ''image/jpeg''"

record ProfilePictureInfo =
  pp_ID :: string
  pp_URL :: string

record 'w avatar_env =
  ae_lib :: walib
  ae_lookup :: "string \<Rightarrow> jid \<Rightarrow> string \<Rightarrow> (ProfilePictureInfo option result, 'w) ext"
  ae_fetch :: "string \<Rightarrow> (string result, 'w) ext"
  ae_uuid :: "(string, 'w) ext"
  ae_put :: "string \<Rightarrow> string \<Rightarrow> string \<Rightarrow> (goerr option, 'w) ext"

definition avatar_cfg :: "Picture option cache_cfg" where
  "avatar_cfg = \<lparr>cg_zero = None, cg_threshold = evictionThreshold, cg_idle = idleBeforeEviction\<rparr>"

definition ttlFor :: "Picture option \<Rightarrow> int" where
  "ttlFor pic = (if pic = None then negativeTTL else ttl)"

text \<open>The key of an entry: the channel, a bar, the JID.\<close>

definition entry_key :: "walib \<Rightarrow> string \<Rightarrow> jid \<Rightarrow> string" where
  "entry_key lib channelID jid = channelID @ ''|'' @ jid_string lib jid"

text \<open>
  The steps of \<open>resolve\<close>: what the lookup found is downloaded, stored under a fresh key, and cached.
  Whatever fails keeps the old picture.
\<close>

definition store_picture ::
  "'w avatar_env \<Rightarrow> Picture option \<Rightarrow> ProfilePictureInfo \<Rightarrow> string \<Rightarrow> 'w timed \<Rightarrow> (Picture option \<times> int) \<times> 'w timed" where
  "store_picture env old info data w =
     (case call_ext (ae_uuid env) w of (uuid, w1) \<Rightarrow>
       (let key = ''profile-pictures/'' @ uuid @ extensionFor mimeType
        in case call_ext (ae_put env key mimeType data) w1 of
             (Some err, w2) \<Rightarrow> ((old, tw_time w2 + retryAfter), w2)
           | (None, w2) \<Rightarrow>
               ((Some \<lparr>pic_Key = key, pic_ID = pp_ID info, pic_MimeType = mimeType\<rparr>, tw_time w2 + ttl), w2)))"

definition fetch_picture ::
  "'w avatar_env \<Rightarrow> Picture option \<Rightarrow> ProfilePictureInfo \<Rightarrow> 'w timed \<Rightarrow> (Picture option \<times> int) \<times> 'w timed" where
  "fetch_picture env old info w =
     (case call_ext (ae_fetch env (pp_URL info)) w of
        (Inl err, w1) \<Rightarrow> ((old, tw_time w1 + retryAfter), w1)
      | (Inr data, w1) \<Rightarrow> store_picture env old info data w1)"

definition existing_id :: "Picture option \<Rightarrow> string" where
  "existing_id old = (case old of None \<Rightarrow> [] | Some pic \<Rightarrow> pic_ID pic)"

definition avatar_resolve :: "'w avatar_env \<Rightarrow> string \<times> jid \<Rightarrow> (Picture option, 'w timed) resolve" where
  "avatar_resolve env r old w =
     (case call_ext (ae_lookup env (fst r) (snd r) (existing_id old)) w of
        (Inl err, w1) \<Rightarrow>
          if err_is err EPictureNotSet \<or> err_is err EPictureUnauthorized
          then ((None, tw_time w1 + negativeTTL), w1)
          else ((old, tw_time w1 + retryAfter), w1)
      | (Inr None, w1) \<Rightarrow> ((old, tw_time w1 + ttlFor old), w1)
      | (Inr (Some info), w1) \<Rightarrow>
          if pp_URL info = [] then ((old, tw_time w1 + ttlFor old), w1)
          else fetch_picture env old info w1)"

definition avatar_key :: "'w avatar_env \<Rightarrow> string \<times> jid \<Rightarrow> string" where
  "avatar_key env r = entry_key (ae_lib env) (fst r) (snd r)"

text \<open>A nil cache or a nil lookup (\<open>connected\<close> is false: the channel has no client) answers nil.\<close>

definition avatar_For ::
  "'w avatar_env \<Rightarrow> bool \<Rightarrow> string \<Rightarrow> jid \<Rightarrow> Picture option ttl_cache \<times> 'w timed \<Rightarrow>
   Picture option \<times> Picture option ttl_cache \<times> 'w timed" where
  "avatar_For env connected channelID jid s =
     (if \<not> connected then (None, s)
      else (let r = (channelID, to_non_ad (ae_lib env) jid)
            in cache_get avatar_cfg tw_time (avatar_key env r) (avatar_resolve env r) s))"

section \<open>Group names\<close>

definition defaultTTL :: int where "defaultTTL = hours 12"
definition defaultRetryAfter :: int where "defaultRetryAfter = minutes 5"

record group_options =
  go_TTL :: int
  go_RetryAfter :: int
  go_IdleBeforeEviction :: int

definition group_defaults :: "group_options \<Rightarrow> group_options" where
  "group_defaults opts =
     (let o1 = (if go_TTL opts \<le> 0 then opts\<lparr>go_TTL := defaultTTL\<rparr> else opts);
          o2 = (if go_RetryAfter o1 \<le> 0 then o1\<lparr>go_RetryAfter := defaultRetryAfter\<rparr> else o1)
      in if go_IdleBeforeEviction o2 \<le> 0 then o2\<lparr>go_IdleBeforeEviction := go_TTL o2\<rparr> else o2)"

definition group_cfg :: "group_options \<Rightarrow> string cache_cfg" where
  "group_cfg opts = \<lparr>cg_zero = [], cg_threshold = evictionThreshold, cg_idle = go_IdleBeforeEviction opts\<rparr>"

record 'w name_env =
  ne_lib :: walib
  ne_lookup :: "string \<Rightarrow> jid \<Rightarrow> (group_info result, 'w) ext"

definition group_resolve :: "'w name_env \<Rightarrow> group_options \<Rightarrow> string \<times> jid \<Rightarrow> (string, 'w timed) resolve" where
  "group_resolve env opts r old w =
     (case call_ext (ne_lookup env (fst r) (snd r)) w of
        (Inl err, w1) \<Rightarrow> ((old, tw_time w1 + go_RetryAfter opts), w1)
      | (Inr info, w1) \<Rightarrow> ((gi_name info, tw_time w1 + go_TTL opts), w1))"

definition group_key :: "'w name_env \<Rightarrow> string \<times> jid \<Rightarrow> string" where
  "group_key env r = entry_key (ne_lib env) (fst r) (snd r)"

definition group_Name ::
  "'w name_env \<Rightarrow> group_options \<Rightarrow> bool \<Rightarrow> string \<Rightarrow> jid \<Rightarrow> string ttl_cache \<times> 'w timed \<Rightarrow>
   string \<times> string ttl_cache \<times> 'w timed" where
  "group_Name env opts connected channelID jid s =
     (if \<not> connected then ([], s)
      else cache_get (group_cfg opts) tw_time (group_key env (channelID, jid)) (group_resolve env opts (channelID, jid)) s)"

definition Invalidate :: "walib \<Rightarrow> string \<Rightarrow> jid \<Rightarrow> string ttl_cache \<Rightarrow> string ttl_cache" where
  "Invalidate lib channelID jid c = delete_key (entry_key lib channelID jid) c"

section \<open>Both caches keep the contract\<close>

lemma avatar_times [simp]:
  "ttl = 86400000000000" "negativeTTL = 21600000000000" "retryAfter = 300000000000"
  by (simp_all add: ttl_def negativeTTL_def retryAfter_def hours_def minutes_def)

lemma avatar_resolve_time:
  assumes "avatar_resolve env r old w = ((v, expires), w')"
  shows "tw_time w \<le> tw_time w' \<and> expires \<le> tw_time w' + ttl"
proof -
  obtain a w1 where look: "call_ext (ae_lookup env (fst r) (snd r) (existing_id old)) w = (a, w1)" by fastforce
  have "tw_time w \<le> tw_time w1" using call_ext_time [OF look] .
  moreover have "tw_time w1 \<le> tw_time w'" "expires \<le> tw_time w' + ttl"
    using assms look
    by (auto simp: avatar_resolve_def fetch_picture_def store_picture_def ttlFor_def Let_def
        dest!: call_ext_time split: sum.splits option.splits if_splits prod.splits)
  ultimately show ?thesis by simp
qed

lemma group_resolve_time:
  assumes "group_resolve env (group_defaults opts) r old w = ((v, expires), w')"
  shows "tw_time w \<le> tw_time w' \<and>
    expires \<le> tw_time w' + max (go_TTL (group_defaults opts)) (go_RetryAfter (group_defaults opts))"
  using assms
  by (auto simp: group_resolve_def dest!: call_ext_time split: sum.splits prod.splits)

lemma group_defaults_positive:
  "0 < go_TTL (group_defaults opts)" "0 < go_RetryAfter (group_defaults opts)"
  by (simp_all add: group_defaults_def Let_def defaultTTL_def defaultRetryAfter_def hours_def minutes_def)

interpretation avatars: cache_resolver tw_time "avatar_key env" "avatar_resolve env" ttl for env :: "'w avatar_env"
  by unfold_locales (simp, rule avatar_resolve_time)

interpretation names: cache_resolver tw_time "group_key env" "group_resolve env (group_defaults opts)"
    "max (go_TTL (group_defaults opts)) (go_RetryAfter (group_defaults opts))"
  for env :: "'w name_env" and opts
  by unfold_locales (use group_defaults_positive [of opts] in simp, rule group_resolve_time)

text \<open>The options of the gateway are the zero ones.\<close>

definition gateway_options :: group_options where
  "gateway_options = group_defaults \<lparr>go_TTL = 0, go_RetryAfter = 0, go_IdleBeforeEviction = 0\<rparr>"

lemma gateway_lifetime: "max (go_TTL gateway_options) (go_RetryAfter gateway_options) = hours 12"
  by (simp add: gateway_options_def group_defaults_def defaultTTL_def defaultRetryAfter_def hours_def minutes_def)


text \<open>
  C28. A lookup that runs alone is the lookup of a map from keys to a value and its expiry: it answers a
  value that has not expired and otherwise stores what it resolves, after the map may have forgotten
  keys that expired a day (for names: the idle time) ago. Invalidating a group removes its key.
\<close>

theorem caches_refine_map:
  assumes "cache_wf avatar_cfg c" "tc_locked c = []" "cache_wf (group_cfg opts) d" "tc_locked d = []"
  shows "(avatar_For env True channelID jid (c, w) = (pic, c', w') \<longrightarrow>
      (let r = (channelID, to_non_ad (ae_lib env) jid)
       in cache_wf avatar_cfg c' \<and> tc_locked c' = [] \<and>
          (\<exists>gone. may_forget (hours 24) (tw_time w) (cache_abs c) gone \<and>
             spec_get None tw_time (avatar_key env r) (avatar_resolve env r) (forget_keys gone (cache_abs c), w) =
               (pic, cache_abs c', w')))) \<and>
    (group_Name nenv opts True channelID jid (d, u) = (name, d', u') \<longrightarrow>
       cache_wf (group_cfg opts) d' \<and> tc_locked d' = [] \<and>
       (\<exists>gone. may_forget (go_IdleBeforeEviction opts) (tw_time u) (cache_abs d) gone \<and>
          spec_get [] tw_time (group_key nenv (channelID, jid)) (group_resolve nenv opts (channelID, jid))
            (forget_keys gone (cache_abs d), u) = (name, cache_abs d', u'))) \<and>
    cache_abs (Invalidate lib channelID jid d) = (cache_abs d)(entry_key lib channelID jid := None)"
proof (intro conjI impI)
  assume "avatar_For env True channelID jid (c, w) = (pic, c', w')"
  then show "let r = (channelID, to_non_ad (ae_lib env) jid)
    in cache_wf avatar_cfg c' \<and> tc_locked c' = [] \<and>
       (\<exists>gone. may_forget (hours 24) (tw_time w) (cache_abs c) gone \<and>
          spec_get None tw_time (avatar_key env r) (avatar_resolve env r) (forget_keys gone (cache_abs c), w) =
            (pic, cache_abs c', w'))"
    using cache_get_refines [OF assms(1,2)]
    by (simp add: avatar_For_def Let_def avatar_cfg_def idleBeforeEviction_def ttl_def [symmetric] del: avatar_times)
next
  assume "group_Name nenv opts True channelID jid (d, u) = (name, d', u')"
  then have "cache_get (group_cfg opts) tw_time (group_key nenv (channelID, jid))
    (group_resolve nenv opts (channelID, jid)) (d, u) = (name, d', u')" by (simp add: group_Name_def)
  from cache_get_refines [OF assms(3,4) this]
  show "cache_wf (group_cfg opts) d'" "tc_locked d' = []"
    "\<exists>gone. may_forget (go_IdleBeforeEviction opts) (tw_time u) (cache_abs d) gone \<and>
       spec_get [] tw_time (group_key nenv (channelID, jid)) (group_resolve nenv opts (channelID, jid))
         (forget_keys gone (cache_abs d), u) = (name, cache_abs d', u')"
    by (simp_all add: group_cfg_def)
next
  show "cache_abs (Invalidate lib channelID jid d) = (cache_abs d)(entry_key lib channelID jid := None)"
    unfolding Invalidate_def by (rule cache_abs_delete(1)) (rule assms(3))
qed

section \<open>Witnesses\<close>

definition demo_lib :: walib where
  "demo_lib = \<lparr>parse_jid = \<lambda>s. Inr empty_jid, jid_string = jid_user, to_non_ad = \<lambda>j. j\<rparr>"

definition demo_names :: "unit name_env" where
  "demo_names = \<lparr>ne_lib = demo_lib,
     ne_lookup = \<lambda>channel jid u. (Inr \<lparr>gi_jid = jid, gi_name = ''news'', gi_announce = False, gi_topicID = [], gi_topic = [],
       gi_participantCount = 0, gi_participants = [], gi_created = None\<rparr>, 40, u)\<rparr>"

definition demo_pictures :: "unit avatar_env" where
  "demo_pictures = \<lparr>ae_lib = demo_lib, ae_lookup = \<lambda>channel jid old u. (Inr None, 30, u),
     ae_fetch = \<lambda>url u. (Inr [], 0, u), ae_uuid = \<lambda>u. ([], 0, u), ae_put = \<lambda>key mime data u. (None, 0, u)\<rparr>"

definition demo_clock :: "unit timed" where "demo_clock = \<lparr>tw_time = 1000, tw_world = ()\<rparr>"

definition demo_lookup :: "(string \<times> jid, string, unit timed) cache_system" where
  "demo_lookup =
     (cache_start demo_clock)\<lparr>sy_cache := \<lparr>tc_entries = [(''c|'', 0)], tc_objs = [new_entry (group_cfg gateway_options)], tc_locked = []\<rparr>,
        sy_procs := [0 \<mapsto> ((''c'', empty_jid), Waiting 0)], sy_keys := [''c|'']\<rparr>"

lemma demo_key: "group_key demo_names (''c'', empty_jid) = ''c|''"
  by (simp add: group_key_def demo_names_def entry_key_def demo_lib_def empty_jid_def)

lemma demo_lookup_step:
  "(cache_step (group_cfg gateway_options) tw_time (group_key demo_names) (group_resolve demo_names gateway_options))\<^sup>*\<^sup>*
     (cache_start demo_clock) demo_lookup"
proof -
  let ?s = "cache_start demo_clock :: (string \<times> jid, string, unit timed) cache_system"
  have entry: "entryFor (group_cfg gateway_options) (tw_time (sy_world ?s)) (group_key demo_names (''c'', empty_jid)) (sy_cache ?s) =
    (0, \<lparr>tc_entries = [(''c|'', 0)], tc_objs = [new_entry (group_cfg gateway_options)], tc_locked = []\<rparr>)"
    by (simp add: demo_key cache_start_def entryFor_def empty_cache_def group_cfg_def evictionThreshold_def Let_def)
  have "cache_step (group_cfg gateway_options) tw_time (group_key demo_names) (group_resolve demo_names gateway_options)
    ?s demo_lookup"
    using cache_enter [where s = ?s and p = 0 and now = tw_time and key = "group_key demo_names" and
        r = "(''c'', empty_jid)" and cfg = "group_cfg gateway_options" and
        resolve = "group_resolve demo_names gateway_options", OF _ entry]
    by (simp add: demo_lookup_def demo_key) (simp add: cache_start_def empty_cache_def)
  then show ?thesis by (rule r_into_rtranclp)
qed


lemma demo_name:
  "group_Name demo_names gateway_options True ''c'' empty_jid (empty_cache, demo_clock) =
     (''news'', \<lparr>tc_entries = [(''c|'', 0)],
        tc_objs = [\<lparr>en_val = ''news'', en_expires = 1040 + hours 12, en_loaded = True\<rparr>], tc_locked = []\<rparr>,
      \<lparr>tw_time = 1040, tw_world = ()\<rparr>)"
  unfolding group_Name_def demo_key
  by (simp add: cache_get_def entryFor_def empty_cache_def group_cfg_def evictionThreshold_def
      Let_def lock_entry_def fresh_entry_def new_entry_def group_resolve_def call_ext_def demo_names_def demo_clock_def
      unlock_entry_def entry_store_def gateway_options_def group_defaults_def defaultTTL_def hours_def)

lemma caches_refine_map_witness:
  "\<exists>gone. may_forget (go_IdleBeforeEviction gateway_options) 1000 (Map.empty :: string spec) gone \<and>
     spec_get [] tw_time ''c|'' (group_resolve demo_names gateway_options (''c'', empty_jid))
       (forget_keys gone Map.empty, demo_clock) =
     (''news'', cache_abs \<lparr>tc_entries = [(''c|'', 0)],
        tc_objs = [\<lparr>en_val = ''news'', en_expires = 1040 + hours 12, en_loaded = True\<rparr>], tc_locked = []\<rparr>,
      \<lparr>tw_time = 1040, tw_world = ()\<rparr>)"
proof -
  have empty: "cache_abs empty_cache = (Map.empty :: string spec)" by (rule ext) (simp add: cache_abs_def empty_cache_def)
  have free: "tc_locked empty_cache = []" by (simp add: empty_cache_def)
  have "\<exists>gone. may_forget (go_IdleBeforeEviction gateway_options) (tw_time demo_clock) (cache_abs empty_cache :: string spec) gone \<and>
     spec_get [] tw_time (group_key demo_names (''c'', empty_jid)) (group_resolve demo_names gateway_options (''c'', empty_jid))
       (forget_keys gone (cache_abs empty_cache), demo_clock) =
     (''news'', cache_abs \<lparr>tc_entries = [(''c|'', 0)],
        tc_objs = [\<lparr>en_val = ''news'', en_expires = 1040 + hours 12, en_loaded = True\<rparr>], tc_locked = []\<rparr>,
      \<lparr>tw_time = 1040, tw_world = ()\<rparr>)"
    using conjunct1 [OF conjunct2 [OF caches_refine_map [OF cache_wf_empty free cache_wf_empty free,
        where env = demo_pictures and w = demo_clock and nenv = demo_names and opts = gateway_options and
          channelID = "''c''" and jid = empty_jid and u = demo_clock]], THEN mp, OF demo_name]
    by (elim conjE)
  then show ?thesis by (simp add: empty demo_key demo_clock_def)
qed

end
