(* ===== verification/Participants.thy ===== *)
theory Participants
  imports Inbound "HOL-Library.List_Lexorder" "HOL-Library.Char_ord"
begin

text \<open>
  From a change of a group's roster to the events that are published, internal/gateway/participants.go.
  The phone of a LID is asked from the client's store, a function of the world \<open>'w\<close>, and remembered for
  the change; \<open>ro_asked\<close> records the questions. The hash is a parameter; times are Unix seconds.
\<close>

record group_change =
  gch_JID :: jid
  gch_Named :: bool
  gch_Sender :: "jid option"
  gch_SenderPN :: "jid option"
  gch_Timestamp :: int
  gch_Join :: "jid list"
  gch_Leave :: "jid list"
  gch_Promote :: "jid list"
  gch_Demote :: "jid list"

type_synonym 'w phone_resolver = "jid \<Rightarrow> 'w \<Rightarrow> (jid \<times> bool) result \<times> 'w"

record 'w roster =
  ro_phones :: "jid \<Rightarrow> string option"
  ro_asked :: "jid list"
  ro_world :: 'w

definition phoneOf :: "'w phone_resolver \<Rightarrow> jid \<Rightarrow> 'w roster \<Rightarrow> string \<times> 'w roster" where
  "phoneOf resolver lid c =
     (case ro_phones c lid of
        Some phone \<Rightarrow> (phone, c)
      | None \<Rightarrow>
          (case resolver lid (ro_world c) of (answer, w) \<Rightarrow>
            (let phone = (case answer of Inr (pn, ok) \<Rightarrow> if ok then jid_user pn else [] | Inl err \<Rightarrow> [])
             in (phone, c\<lparr>ro_phones := (ro_phones c)(lid \<mapsto> phone), ro_asked := ro_asked c @ [lid], ro_world := w\<rparr>))))"

definition senderMatches :: "group_change \<Rightarrow> string \<Rightarrow> bool" where
  "senderMatches e user =
     ((case gch_Sender e of Some sender \<Rightarrow> jid_user sender = user | None \<Rightarrow> False) \<or>
      (case gch_SenderPN e of Some pn \<Rightarrow> jid_user pn = user | None \<Rightarrow> False))"

definition leftByThemselves :: "'w phone_resolver \<Rightarrow> group_change \<Rightarrow> jid \<Rightarrow> 'w roster \<Rightarrow> bool \<times> 'w roster" where
  "leftByThemselves resolver e jid c =
     (if gch_Sender e = None then (False, c)
      else if senderMatches e (jid_user jid) then (True, c)
      else if jid_server jid \<noteq> HiddenUserServer then (False, c)
      else (case phoneOf resolver jid c of (phone, c1) \<Rightarrow> (phone \<noteq> [] \<and> senderMatches e phone, c1)))"

fun splitLeave :: "'w phone_resolver \<Rightarrow> group_change \<Rightarrow> jid list \<Rightarrow> 'w roster \<Rightarrow> (jid list \<times> jid list) \<times> 'w roster" where
  "splitLeave resolver e [] c = (([], []), c)"
| "splitLeave resolver e (jid # jids) c =
     (case leftByThemselves resolver e jid c of (themselves, c1) \<Rightarrow>
      case splitLeave resolver e jids c1 of ((left, removed), c2) \<Rightarrow>
        (if themselves then (jid # left, removed) else (left, jid # removed), c2))"

definition participant_of :: "walib \<Rightarrow> 'w phone_resolver \<Rightarrow> jid \<Rightarrow> 'w roster \<Rightarrow> GroupParticipant \<times> 'w roster" where
  "participant_of lib resolver jid c =
     (let p = \<lparr>gp_jid = jid_string lib jid, gp_lid = [], gp_phone = []\<rparr>
      in case jid_server jid of
           HiddenUserServer \<Rightarrow>
             (case phoneOf resolver jid c of (phone, c1) \<Rightarrow> (p\<lparr>gp_lid := jid_string lib jid, gp_phone := phone\<rparr>, c1))
         | DefaultUserServer \<Rightarrow> (p\<lparr>gp_phone := jid_user jid\<rparr>, c)
         | _ \<Rightarrow> (p, c))"

fun participants_of :: "walib \<Rightarrow> 'w phone_resolver \<Rightarrow> jid list \<Rightarrow> 'w roster \<Rightarrow> GroupParticipant list \<times> 'w roster" where
  "participants_of lib resolver [] c = ([], c)"
| "participants_of lib resolver (jid # jids) c =
     (case participant_of lib resolver jid c of (p, c1) \<Rightarrow>
      case participants_of lib resolver jids c1 of (ps, c2) \<Rightarrow> (p # ps, c2))"

text \<open>The bytes of the hash in hexadecimal; slices.Sort compares strings by their bytes.\<close>

definition participantsEventID ::
  "walib \<Rightarrow> (string \<Rightarrow> string) \<Rightarrow> jid \<Rightarrow> string \<Rightarrow> int \<Rightarrow> jid list \<Rightarrow> string" where
  "participantsEventID lib sha256 grp kind at jids =
     hex_encode (take 16 (sha256 (jid_string lib grp @ ''|'' @ kind @ ''|'' @ show_int at @ ''|'' @
       join_with '','' (sort (map (jid_string lib) jids)))))"

record 'w roster_env =
  re_lib :: walib
  re_resolver :: "'w phone_resolver"
  re_sha256 :: "string \<Rightarrow> string"
  re_tenantID :: string
  re_channelID :: string

definition roster_event ::
  "'w roster_env \<Rightarrow> group_change \<Rightarrow> string \<Rightarrow> jid list \<Rightarrow> 'w roster \<Rightarrow> GroupParticipantsEvent \<times> 'w roster" where
  "roster_event env e kind jids c =
     (case participants_of (re_lib env) (re_resolver env) jids c of (ps, c1) \<Rightarrow>
        (\<lparr>gpe_tenantID = re_tenantID env, gpe_channelID = re_channelID env, gpe_groupJID = jid_string (re_lib env) (gch_JID e),
          gpe_type = kind, gpe_participants = Some ps,
          gpe_eventID = participantsEventID (re_lib env) (re_sha256 env) (gch_JID e) kind (gch_Timestamp e) jids,
          gpe_occurredAt = rfc3339 (gch_Timestamp e)\<rparr>, c1))"

fun add_events ::
  "'w roster_env \<Rightarrow> group_change \<Rightarrow> (string \<times> jid list) list \<Rightarrow> 'w roster \<Rightarrow> GroupParticipantsEvent list \<times> 'w roster" where
  "add_events env e [] c = ([], c)"
| "add_events env e ((kind, jids) # kinds) c =
     (if jids = [] then add_events env e kinds c
      else (case roster_event env e kind jids c of (evt, c1) \<Rightarrow>
            case add_events env e kinds c1 of (evts, c2) \<Rightarrow> (evt # evts, c2)))"

definition BuildGroupParticipants ::
  "'w roster_env \<Rightarrow> group_change \<Rightarrow> 'w \<Rightarrow> GroupParticipantsEvent list \<times> 'w roster" where
  "BuildGroupParticipants env e w =
     (case splitLeave (re_resolver env) e (gch_Leave e) \<lparr>ro_phones = Map.empty, ro_asked = [], ro_world = w\<rparr> of
        ((left, removed), c) \<Rightarrow>
          add_events env e
            [(''join'', gch_Join e), (''leave'', left), (''removed'', removed), (''promoted'', gch_Promote e),
             (''demoted'', gch_Demote e)] c)"

section \<open>The events of a change\<close>

text \<open>Every LID is asked for once: what was asked is remembered.\<close>

definition roster_wf :: "'w roster \<Rightarrow> bool" where
  "roster_wf c = (distinct (ro_asked c) \<and> dom (ro_phones c) = set (ro_asked c))"

lemma roster_wf_phoneOf: "phoneOf resolver lid c = (phone, c') \<Longrightarrow> roster_wf c \<Longrightarrow> roster_wf c'"
proof (cases "ro_phones c lid")
  case None
  assume phone: "phoneOf resolver lid c = (phone, c')" and wf: "roster_wf c"
  have new: "lid \<notin> set (ro_asked c)" using None wf by (auto simp: roster_wf_def domIff)
  obtain w where "c' = c\<lparr>ro_phones := (ro_phones c)(lid \<mapsto> phone), ro_asked := ro_asked c @ [lid], ro_world := w\<rparr>"
    using phone None by (auto simp: phoneOf_def Let_def split: prod.splits)
  then show "roster_wf c'" using wf new by (simp add: roster_wf_def)
qed (simp add: phoneOf_def)

lemma roster_wf_left: "leftByThemselves resolver e jid c = (b, c') \<Longrightarrow> roster_wf c \<Longrightarrow> roster_wf c'"
  by (auto simp: leftByThemselves_def dest: roster_wf_phoneOf split: if_splits prod.splits)

lemma splitLeave_spec:
  "splitLeave resolver e jids c = ((left, removed), c') \<Longrightarrow> roster_wf c \<Longrightarrow>
   jids \<in> shuffles left removed \<and> roster_wf c' \<and> (gch_Sender e = None \<longrightarrow> left = [])"
proof (induction jids arbitrary: c c' left removed)
  case (Cons jid jids)
  obtain themselves c1 where first: "leftByThemselves resolver e jid c = (themselves, c1)" by fastforce
  obtain l r c2 where rest: "splitLeave resolver e jids c1 = ((l, r), c2)" by (metis prod.exhaust_sel)
  have IH: "jids \<in> shuffles l r \<and> roster_wf c2 \<and> (gch_Sender e = None \<longrightarrow> l = [])"
    by (rule Cons.IH [OF rest]) (rule roster_wf_left [OF first Cons.prems(2)])
  have "\<not> themselves" if "gch_Sender e = None" using first that by (simp add: leftByThemselves_def)
  then show ?case using Cons.prems(1) first rest IH
    by (auto split: if_splits intro: Cons_in_shuffles_leftI Cons_in_shuffles_rightI)
qed simp

lemma participant_of_spec:
  "participant_of lib resolver jid c = (p, c') \<Longrightarrow> roster_wf c \<Longrightarrow> gp_jid p = jid_string lib jid \<and> roster_wf c'"
  by (auto simp: participant_of_def Let_def dest: roster_wf_phoneOf split: server.splits prod.splits)

lemma participants_of_spec:
  "participants_of lib resolver jids c = (ps, c') \<Longrightarrow> roster_wf c \<Longrightarrow>
   map gp_jid ps = map (jid_string lib) jids \<and> roster_wf c'"
proof (induction jids arbitrary: c c' ps)
  case (Cons jid jids)
  then show ?case by (fastforce dest: participant_of_spec split: prod.splits)
qed simp

definition event_of :: "'w roster_env \<Rightarrow> group_change \<Rightarrow> string \<times> jid list \<Rightarrow> GroupParticipantsEvent \<Rightarrow> bool" where
  "event_of env e = (\<lambda>(kind, jids) v.
     gpe_type v = kind \<and> map_option (map gp_jid) (gpe_participants v) = Some (map (jid_string (re_lib env)) jids) \<and>
     gpe_tenantID v = re_tenantID env \<and> gpe_channelID v = re_channelID env \<and>
     gpe_groupJID v = jid_string (re_lib env) (gch_JID e) \<and>
     gpe_eventID v = participantsEventID (re_lib env) (re_sha256 env) (gch_JID e) kind (gch_Timestamp e) jids)"

lemma add_events_spec:
  "add_events env e kinds c = (evts, c') \<Longrightarrow> roster_wf c \<Longrightarrow>
   list_all2 (event_of env e) (filter (\<lambda>k. snd k \<noteq> []) kinds) evts \<and> roster_wf c'"
proof (induction kinds arbitrary: c c' evts)
  case (Cons k kinds)
  obtain kind jids where k: "k = (kind, jids)" by fastforce
  show ?case
  proof (cases "jids = []")
    case True
    then show ?thesis using Cons k by simp
  next
    case False
    obtain ps c1 where ps: "participants_of (re_lib env) (re_resolver env) jids c = (ps, c1)" by fastforce
    obtain es c2 where es: "add_events env e kinds c1 = (es, c2)" by fastforce
    have p: "roster_wf c1" "map gp_jid ps = map (jid_string (re_lib env)) jids"
      using participants_of_spec [OF ps Cons.prems(2)] by simp_all
    have "list_all2 (event_of env e) (filter (\<lambda>k. snd k \<noteq> []) kinds) es \<and> roster_wf c2"
      by (rule Cons.IH [OF es p(1)])
    then show ?thesis using Cons.prems(1) False ps es p k by (auto simp: roster_event_def event_of_def)
  qed
qed simp

text \<open>The identity of an event does not depend on the order in which WhatsApp lists the members.\<close>

lemma participantsEventID_order:
  "mset xs = mset ys \<Longrightarrow> participantsEventID lib sha256 grp kind at xs = participantsEventID lib sha256 grp kind at ys"
  using properties_for_sort [of "sort (map (jid_string lib) xs)" "map (jid_string lib) ys"]
  by (simp add: participantsEventID_def)


section \<open>Witness\<close>

definition demo_roster :: "unit roster_env" where
  "demo_roster = \<lparr>re_lib = \<lparr>parse_jid = \<lambda>s. Inr empty_jid, jid_string = jid_user, to_non_ad = \<lambda>j. j\<rparr>,
     re_resolver = \<lambda>lid u. (Inr (lid, False), u), re_sha256 = \<lambda>s. s, re_tenantID = ''t'', re_channelID = ''c''\<rparr>"

definition demo_member :: "string \<Rightarrow> jid" where
  "demo_member user = \<lparr>jid_user = user, jid_server = DefaultUserServer, jid_device = 0\<rparr>"

definition demo_change :: group_change where
  "demo_change = \<lparr>gch_JID = \<lparr>jid_user = ''g'', jid_server = GroupServer, jid_device = 0\<rparr>, gch_Named = False,
     gch_Sender = Some (demo_member ''1''), gch_SenderPN = None, gch_Timestamp = 0, gch_Join = [],
     gch_Leave = [demo_member ''1'', demo_member ''2''], gch_Promote = [], gch_Demote = []\<rparr>"

lemma demo_split:
  "splitLeave (re_resolver demo_roster) demo_change (gch_Leave demo_change) \<lparr>ro_phones = Map.empty, ro_asked = [], ro_world = ()\<rparr> =
     (([demo_member ''1''], [demo_member ''2'']), \<lparr>ro_phones = Map.empty, ro_asked = [], ro_world = ()\<rparr>)"
  by (simp add: demo_change_def leftByThemselves_def senderMatches_def demo_member_def)


end
