(* ===== verification/Contacts.thy ===== *)
theory Contacts
  imports GroupActions
begin

text \<open>
  The contact.check request, internal/gateway/contacts.go: which of the phones of a request are on
  WhatsApp. Decoding the JSON payload, connecting the channel and the two queries of the WhatsApp
  client are arguments.
\<close>

record contactCheckRequest =
  ccq_TenantID :: string
  ccq_ChannelID :: string
  ccq_Phones :: "string list"

record contactCheckResult =
  ccr_Phone :: string
  ccr_OnWhatsapp :: bool
  ccr_JID :: "string option"
  ccr_LID :: "string option"

definition contactCheckMaxPhones :: nat where "contactCheckMaxPhones = 50"

record on_whatsapp =
  ow_Query :: string
  ow_JID :: jid
  ow_PhoneNumber :: jid
  ow_IsIn :: bool

record 'w contact_client =
  IsOnWhatsApp :: "string list \<Rightarrow> 'w \<Rightarrow> on_whatsapp list result \<times> 'w"
  KnownLIDForPN :: "jid \<Rightarrow> 'w \<Rightarrow> (jid \<times> bool) result \<times> 'w"

text \<open>decodeRpc: a payload that json.Unmarshal refuses is an invalid request.\<close>

definition decodeRpc :: "'r result \<Rightarrow> 'r result" where
  "decodeRpc decoded = (case decoded of Inl err \<Rightarrow> Inl (RpcInvalidRequest (err_msg err)) | Inr req \<Rightarrow> Inr req)"

text \<open>strings.Trim with a set of bytes.\<close>

definition trim_set :: "string \<Rightarrow> string \<Rightarrow> string" where
  "trim_set s cutset = rev (dropWhile (\<lambda>c. c \<in> set cutset) (rev (dropWhile (\<lambda>c. c \<in> set cutset) s)))"

definition phone_digits :: "string \<Rightarrow> string" where
  "phone_digits phone = trim_prefix phone ''+''"

fun phone_queries :: "string list \<Rightarrow> string list result" where
  "phone_queries [] = Inr []"
| "phone_queries (phone # phones) =
     (let digits = phone_digits phone
      in if digits = [] \<or> trim_set digits ''0123456789'' \<noteq> []
         then Inl (RpcInvalidRequest (''phone '' @ go_quote phone @ '' is not a number''))
         else rbind (phone_queries phones) (\<lambda>queries. Inr ((''+'' @ digits) # queries)))"

definition contactCheckQueries :: "contactCheckRequest \<Rightarrow> string list result" where
  "contactCheckQueries req =
     (if ccq_TenantID req = [] then Inl (RpcInvalidRequest ''tenantId is required'')
      else if ccq_ChannelID req = [] then Inl (RpcInvalidRequest ''channelId is required'')
      else if ccq_Phones req = [] then Inl (RpcInvalidRequest ''phones is required'')
      else if contactCheckMaxPhones < length (ccq_Phones req)
      then Inl (RpcInvalidRequest (''at most '' @ show_nat contactCheckMaxPhones @ '' phones per request, got '' @
        show_nat (length (ccq_Phones req))))
      else phone_queries (ccq_Phones req))"

fun unique_from :: "string set \<Rightarrow> string list \<Rightarrow> string list" where
  "unique_from seen [] = []"
| "unique_from seen (query # queries) =
     (if query \<in> seen then unique_from seen queries else query # unique_from (insert query seen) queries)"

definition uniqueQueries :: "string list \<Rightarrow> string list" where
  "uniqueQueries queries = unique_from {} queries"

definition phoneQuery :: "string \<Rightarrow> string" where
  "phoneQuery query = ''+'' @ trim_prefix query ''+''"

definition contactCheckResultFor ::
  "walib \<Rightarrow> 'w contact_client \<Rightarrow> string \<Rightarrow> on_whatsapp \<Rightarrow> 'w \<Rightarrow> contactCheckResult \<times> 'w" where
  "contactCheckResultFor lib client phone account w =
     (let result = \<lparr>ccr_Phone = phone, ccr_OnWhatsapp = ow_IsIn account, ccr_JID = None, ccr_LID = None\<rparr>;
          pn = (if jid_server (ow_PhoneNumber account) \<noteq> DefaultUserServer \<and> jid_server (ow_JID account) = DefaultUserServer
                then ow_JID account else ow_PhoneNumber account);
          known = result\<lparr>ccr_JID := Some (jid_string lib pn)\<rparr>
      in if \<not> ow_IsIn account then (result, w)
         else if jid_server pn \<noteq> DefaultUserServer then (result, w)
         else if jid_server (ow_JID account) = HiddenUserServer
         then (known\<lparr>ccr_LID := Some (jid_string lib (ow_JID account))\<rparr>, w)
         else (case KnownLIDForPN client pn w of
                 (Inl err, w1) \<Rightarrow> (known, w1)
               | (Inr (lid, found), w1) \<Rightarrow>
                   (if found then known\<lparr>ccr_LID := Some (jid_string lib lid)\<rparr> else known, w1)))"

fun contact_results ::
  "walib \<Rightarrow> 'w contact_client \<Rightarrow> (string \<Rightarrow> on_whatsapp option) \<Rightarrow> (string \<times> string) list \<Rightarrow> 'w \<Rightarrow>
   contactCheckResult list result \<times> 'w" where
  "contact_results lib client byQuery [] w = (Inr [], w)"
| "contact_results lib client byQuery ((phone, query) # phones) w =
     (case byQuery query of
        None \<Rightarrow> (Inl (RpcUnavailable (''whatsapp did not answer for phone '' @ phone)), w)
      | Some account \<Rightarrow>
          (case contactCheckResultFor lib client phone account w of (r, w1) \<Rightarrow>
           case contact_results lib client byQuery phones w1 of
             (Inl err, w2) \<Rightarrow> (Inl err, w2)
           | (Inr rs, w2) \<Rightarrow> (Inr (r # rs), w2)))"

definition by_query :: "on_whatsapp list \<Rightarrow> string \<Rightarrow> on_whatsapp option" where
  "by_query accounts = foldl (\<lambda>m account. m(phoneQuery (ow_Query account) \<mapsto> account)) Map.empty accounts"

definition check_contacts ::
  "walib \<Rightarrow> contactCheckRequest \<Rightarrow> string list \<Rightarrow> 'w contact_client \<Rightarrow> 'w \<Rightarrow> contactCheckResult list result \<times> 'w" where
  "check_contacts lib req queries client w =
     (case IsOnWhatsApp client (uniqueQueries queries) w of
        (Inl err, w1) \<Rightarrow>
          (Inl (if IsUnavailable (Some (Classify err)) then Classify err else RpcBadGateway (err_msg err)), w1)
      | (Inr accounts, w1) \<Rightarrow> contact_results lib client (by_query accounts) (zip (ccq_Phones req) queries) w1)"

definition rpcContactCheck ::
  "walib \<Rightarrow> bool \<Rightarrow> (string \<Rightarrow> 'w \<Rightarrow> goerr option \<times> 'w) \<Rightarrow> (string \<Rightarrow> string \<Rightarrow> 'w \<Rightarrow> 'w) \<Rightarrow> (string \<Rightarrow> 'w \<Rightarrow> 'w contact_client result \<times> 'w) \<Rightarrow>
   contactCheckRequest result \<Rightarrow> 'w \<Rightarrow> contactCheckResult list result \<times> 'w" where
  "rpcContactCheck lib stopping ensure set_tenant client decoded w =
     (case decodeRpc decoded of
        Inl err \<Rightarrow> (Inl err, w)
      | Inr req \<Rightarrow>
          (case contactCheckQueries req of
             Inl err \<Rightarrow> (Inl err, w)
           | Inr queries \<Rightarrow>
               (case groupClient stopping ensure set_tenant client (ccq_TenantID req) (ccq_ChannelID req) w of
                  (Inl err, w1) \<Rightarrow> (Inl err, w1)
                | (Inr c, w1) \<Rightarrow> check_contacts lib req queries c w1)))"

section \<open>What a response says\<close>

lemma dropWhile_all: "dropWhile P xs = [] \<longleftrightarrow> list_all P xs"
  by (induction xs) auto

lemma trim_set_empty: "trim_set s cutset = [] \<longleftrightarrow> set s \<subseteq> set cutset"
proof -
  let ?P = "\<lambda>c. c \<in> set cutset"
  have "trim_set s cutset = [] \<longleftrightarrow> list_all ?P (rev (dropWhile ?P s))"
    unfolding trim_set_def using dropWhile_all [of ?P "rev (dropWhile ?P s)"] by simp
  also have "\<dots> \<longleftrightarrow> dropWhile ?P s = []"
    using hd_dropWhile [of ?P s] by (cases "dropWhile ?P s") (simp_all del: dropWhile_eq_Nil_conv)
  also have "\<dots> \<longleftrightarrow> set s \<subseteq> set cutset" by (auto simp: dropWhile_eq_Nil_conv)
  finally show ?thesis .
qed

lemma phone_queries_spec:
  "phone_queries phones = Inr queries \<Longrightarrow>
   queries = map phoneQuery phones \<and> list_all (\<lambda>p. phone_digits p \<noteq> [] \<and> set (phone_digits p) \<subseteq> set ''0123456789'') phones"
proof (induction phones arbitrary: queries)
  case (Cons phone phones)
  then show ?case
    by (auto simp: Let_def rbind_Inr_iff phoneQuery_def phone_digits_def trim_set_empty split: if_splits)
qed simp

lemma unique_from_spec: "distinct (unique_from seen qs) \<and> set (unique_from seen qs) = set qs - seen"
  by (induction qs arbitrary: seen) auto

lemma contactCheckResultFor_simps [simp]:
  "contactCheckResultFor lib client phone account w = (r, w') \<Longrightarrow> ccr_Phone r = phone \<and> ccr_OnWhatsapp r = ow_IsIn account"
  by (auto simp: contactCheckResultFor_def Let_def split: if_splits prod.splits sum.splits)

lemma contact_results_spec:
  "contact_results lib client byQuery pqs w = (Inr rs, w') \<Longrightarrow>
   map ccr_Phone rs = map fst pqs \<and>
   map (\<lambda>r. Some (ccr_OnWhatsapp r)) rs = map (\<lambda>(p, q). map_option ow_IsIn (byQuery q)) pqs"
proof (induction pqs arbitrary: w rs)
  case (Cons pq pqs)
  obtain p q where pq: "pq = (p, q)" by fastforce
  show ?case using Cons
    by (auto simp: pq dest!: contactCheckResultFor_simps split: option.splits prod.splits sum.splits)
qed simp


section \<open>Witness\<close>

definition demo_contacts :: "unit contact_client" where
  "demo_contacts = \<lparr>IsOnWhatsApp = \<lambda>qs u. (Inr (map (\<lambda>q. \<lparr>ow_Query = tl q, ow_JID = empty_jid, ow_PhoneNumber = empty_jid,
       ow_IsIn = True\<rparr>) qs), u),
     KnownLIDForPN = \<lambda>pn u. (Inr (pn, False), u)\<rparr>"

definition demo_contact_request :: contactCheckRequest where
  "demo_contact_request = \<lparr>ccq_TenantID = ''t'', ccq_ChannelID = ''c'', ccq_Phones = [''55'', ''+55'']\<rparr>"

definition demo_contact_results :: "contactCheckResult list" where
  "demo_contact_results =
     [\<lparr>ccr_Phone = ''55'', ccr_OnWhatsapp = True, ccr_JID = None, ccr_LID = None\<rparr>,
      \<lparr>ccr_Phone = ''+55'', ccr_OnWhatsapp = True, ccr_JID = None, ccr_LID = None\<rparr>]"

lemma demo_contact_check:
  "rpcContactCheck \<lparr>parse_jid = \<lambda>s. Inr empty_jid, jid_string = jid_user, to_non_ad = \<lambda>j. j\<rparr> False (\<lambda>c u. (None, u))
     (\<lambda>c t u. u) (\<lambda>c u. (Inr demo_contacts, u)) (Inr demo_contact_request) () = (Inr demo_contact_results, ())"
  by (simp add: rpcContactCheck_def decodeRpc_def contactCheckQueries_def demo_contact_request_def contactCheckMaxPhones_def
      phone_digits_def trim_prefix_def has_prefix_def trim_set_def groupClient_def check_contacts_def demo_contacts_def
      uniqueQueries_def by_query_def phoneQuery_def contactCheckResultFor_def empty_jid_def demo_contact_results_def Let_def)


end
