(* ===== verification/GatewayEvents.thy ===== *)
theory GatewayEvents
  imports Caches Participants InboundFacts SettingsFlow
begin

text \<open>
  What the gateway does with the events of a session: the parts of internal/gateway/gateway.go from
  \<open>handleSessionEvent\<close> on, internal/gateway/listen.go, \<open>handleGroupInfo\<close> of internal/gateway/groups.go
  and the receiving side of internal/gateway/history.go. The gateway's memory is the state of theory
  SettingsFlow (tenants, settings, registry), the channels that were logged out, and the two caches.
  The session manager, the broker, the database and the client of a channel are functions of the
  world; \<open>gs_log\<close> records what the gateway did. Logging is left out.
\<close>

section \<open>State\<close>

record 'w gw_client =
  gc_DeviceJID :: "jid option"
  gc_DisplayName :: string
  gc_TakesOverHistory :: bool
  gc_HasCaller :: bool
  gc_PNForLID :: "jid \<Rightarrow> (jid \<times> bool) result"
  gc_Download :: "wa_media \<Rightarrow> (string result, 'w) ext"
  gc_DecryptMessage :: "wa_event_message \<Rightarrow> (message option result, 'w) ext"
  gc_DecryptVote :: "wa_event_message \<Rightarrow> (string list option result, 'w) ext"

datatype gw_event =
    ChannelStatus ChannelStatusEvent
  | ChannelQR ChannelQREvent
  | PublishInbound InboundEvent
  | PublishGroupInbound InboundEvent
  | PublishStatus StatusEvent
  | PublishGroupStatus GroupStatusEvent
  | PublishGroupParticipants GroupParticipantsEvent
  | PublishHistoryDone HistoryDone

text \<open>\<open>Published e ok\<close> is a publication with its outcome; the others are calls of other components.\<close>

datatype 'n gw_act =
    Published gw_event bool
  | CallsAborted string string
  | HistoryAccepted string 'n
  | CallsAttached string
  | SessionSaved string string string
  | PairAccepted

record 'w gw_world =
  gw_pictures :: "Picture option ttl_cache"
  gw_names :: "string ttl_cache"
  gw_ext :: "'w timed"

record ('n, 'w) gateway_state =
  gs_core :: gw_state
  gs_gone :: "string list"
  gs_world :: "'w gw_world"
  gs_log :: "'n gw_act list"

record ('n, 'w) gw_env =
  ge_lib :: walib
  ge_client :: "string \<Rightarrow> 'w \<Rightarrow> 'w gw_client result"
  ge_publish :: "gw_event \<Rightarrow> (goerr option, 'w) ext"
  ge_db :: "(goerr option, 'w) ext"
  ge_put :: "string \<Rightarrow> string \<Rightarrow> string \<Rightarrow> (goerr option, 'w) ext"
  ge_avatar :: "'w avatar_env"
  ge_group_names :: "'w name_env"
  ge_codec :: mapper_codec
  ge_descr :: "message \<Rightarrow> struct_field list"
  ge_status_name :: "int \<Rightarrow> string option"
  ge_url_host :: "string \<Rightarrow> string result"
  ge_notification :: "message option \<Rightarrow> 'n option"
  ge_sha256 :: "string \<Rightarrow> string"

definition lift_ext :: "('a, 'w) ext \<Rightarrow> 'w gw_world \<Rightarrow> 'a \<times> 'w gw_world" where
  "lift_ext f g = (case call_ext f (gw_ext g) of (a, t) \<Rightarrow> (a, g\<lparr>gw_ext := t\<rparr>))"

definition gs_call :: "('a, 'w) ext \<Rightarrow> ('n, 'w) gateway_state \<Rightarrow> 'a \<times> ('n, 'w) gateway_state" where
  "gs_call f s = (case lift_ext f (gs_world s) of (a, g) \<Rightarrow> (a, s\<lparr>gs_world := g\<rparr>))"

definition gw_note :: "'n gw_act \<Rightarrow> ('n, 'w) gateway_state \<Rightarrow> ('n, 'w) gateway_state" where
  "gw_note a s = s\<lparr>gs_log := gs_log s @ [a]\<rparr>"

definition gw_publish :: "('n, 'w) gw_env \<Rightarrow> gw_event \<Rightarrow> ('n, 'w) gateway_state \<Rightarrow> goerr option \<times> ('n, 'w) gateway_state" where
  "gw_publish env e s = (case gs_call (ge_publish env e) s of (err, s1) \<Rightarrow> (err, gw_note (Published e (err = None)) s1))"

definition tenant_of :: "string \<Rightarrow> ('n, 'w) gateway_state \<Rightarrow> string" where
  "tenant_of channelID s = tenantFor channelID (gs_core s)"

definition waClientFor :: "('n, 'w) gw_env \<Rightarrow> string \<Rightarrow> 'w gw_world \<Rightarrow> 'w gw_client result" where
  "waClientFor env channelID g = ge_client env channelID (tw_world (gw_ext g))"

section \<open>Pictures and names of a channel\<close>

definition channelAvatars :: "('n, 'w) gw_env \<Rightarrow> string \<Rightarrow> jid \<Rightarrow> 'w gw_world \<Rightarrow> Picture option \<times> 'w gw_world" where
  "channelAvatars env channelID jid g =
     (case avatar_For (ge_avatar env) (is_ok (waClientFor env channelID g)) channelID jid (gw_pictures g, gw_ext g) of
        (pic, c, t) \<Rightarrow> (pic, g\<lparr>gw_pictures := c, gw_ext := t\<rparr>))"

definition channelGroups :: "('n, 'w) gw_env \<Rightarrow> string \<Rightarrow> jid \<Rightarrow> 'w gw_world \<Rightarrow> string \<times> 'w gw_world" where
  "channelGroups env channelID jid g =
     (case group_Name (ge_group_names env) gateway_options (is_ok (waClientFor env channelID g)) channelID jid
        (gw_names g, gw_ext g) of
        (name, c, t) \<Rightarrow> (name, g\<lparr>gw_names := c, gw_ext := t\<rparr>))"

section \<open>The state of a channel\<close>

definition phoneFromJID :: "jid option \<Rightarrow> string" where
  "phoneFromJID j = (case j of None \<Rightarrow> [] | Some jid \<Rightarrow> jid_user jid)"

definition connectedIdentity ::
  "('n, 'w) gw_env \<Rightarrow> string \<Rightarrow> ('n, 'w) gateway_state \<Rightarrow> (string \<times> string \<times> Picture option) \<times> ('n, 'w) gateway_state" where
  "connectedIdentity env channelID s =
     (case waClientFor env channelID (gs_world s) of
        Inl err \<Rightarrow> (([], [], None), s)
      | Inr client \<Rightarrow>
          (case gc_DeviceJID client of
             None \<Rightarrow> (([], gc_DisplayName client, None), s)
           | Some jid \<Rightarrow>
               (case channelAvatars env channelID jid (gs_world s) of (pic, g) \<Rightarrow>
                  ((phoneFromJID (Some jid), gc_DisplayName client, pic), s\<lparr>gs_world := g\<rparr>))))"

definition status_event :: "string \<Rightarrow> string \<Rightarrow> string \<Rightarrow> string \<Rightarrow> ChannelStatusEvent" where
  "status_event tenantID channelID status reason =
     \<lparr>cs_tenantID = tenantID, cs_userID = [], cs_channelID = channelID, cs_status = status, cs_reason = reason,
      cs_phoneNumber = [], cs_displayName = [], cs_profilePicture = None\<rparr>"

definition publishChannelStatus ::
  "('n, 'w) gw_env \<Rightarrow> string \<Rightarrow> string \<Rightarrow> string \<Rightarrow> ('n, 'w) gateway_state \<Rightarrow> ('n, 'w) gateway_state" where
  "publishChannelStatus env channelID status reason s =
     (let event = status_event (tenant_of channelID s) channelID status reason
      in case (if status = ''connected''
               then (case connectedIdentity env channelID s of ((phone, name, pic), s1) \<Rightarrow>
                       (event\<lparr>cs_phoneNumber := phone, cs_displayName := name, cs_profilePicture := pic\<rparr>, s1))
               else (event, s)) of
           (event1, s1) \<Rightarrow> snd (gw_publish env (ChannelStatus event1) s1))"

section \<open>Events\<close>

datatype wa_any =
    EvMessage wa_event_message | EvReceipt receipt | EvGroupInfo group_change | EvLoggedOut | EvCallSignal
  | EvConnected | EvDisconnected | EvKeepAliveTimeout | EvKeepAliveRestored | EvStreamReplaced
  | EvTemporaryBan string string | EvClientOutdated | EvConnectFailure string string | EvStreamError string | EvOther

definition callsAreDead :: "wa_any \<Rightarrow> string option" where
  "callsAreDead evt =
     (case evt of
        EvLoggedOut \<Rightarrow> Some ''logged_out''
      | EvStreamReplaced \<Rightarrow> Some ''stream_replaced''
      | EvClientOutdated \<Rightarrow> Some ''client_outdated''
      | EvConnectFailure reason message \<Rightarrow> Some ''connect_failure''
      | _ \<Rightarrow> None)"

definition chatOfEvent :: "wa_any \<Rightarrow> jid option" where
  "chatOfEvent evt =
     (case evt of
        EvMessage e \<Rightarrow> Some (xm_Chat e)
      | EvReceipt e \<Rightarrow> Some (rc_chat e)
      | EvGroupInfo e \<Rightarrow> Some (gch_JID e)
      | _ \<Rightarrow> None)"

definition isGroupEvent :: "wa_any \<Rightarrow> bool" where
  "isGroupEvent evt = (case chatOfEvent evt of None \<Rightarrow> False | Some chat \<Rightarrow> jid_server chat = GroupServer)"

definition ignoredByListenGroups :: "string \<Rightarrow> wa_any \<Rightarrow> ('n, 'w) gateway_state \<Rightarrow> bool" where
  "ignoredByListenGroups channelID evt s =
     (\<not> set_listenGroups (Map_For channelID (settings (gs_core s))) \<and> isGroupEvent evt)"

definition handleConnectionEvent :: "('n, 'w) gw_env \<Rightarrow> string \<Rightarrow> wa_any \<Rightarrow> ('n, 'w) gateway_state \<Rightarrow> ('n, 'w) gateway_state" where
  "handleConnectionEvent env channelID evt s =
     (case evt of
        EvConnected \<Rightarrow> publishChannelStatus env channelID ''connected'' [] s
      | EvDisconnected \<Rightarrow>
          (if channelID \<in> set (gs_gone s) then s
           else publishChannelStatus env channelID ''disconnected'' ''socket disconnected'' s)
      | EvStreamReplaced \<Rightarrow> publishChannelStatus env channelID ''error'' ''session replaced by another connection'' s
      | EvTemporaryBan code expire \<Rightarrow>
          publishChannelStatus env channelID ''error'' (''temporarily banned ('' @ code @ ''), expires in '' @ expire) s
      | EvClientOutdated \<Rightarrow> publishChannelStatus env channelID ''error'' ''whatsapp client version outdated'' s
      | EvConnectFailure reason message \<Rightarrow>
          publishChannelStatus env channelID ''error'' (''connect failure: '' @ reason @ '' '' @ message) s
      | EvStreamError code \<Rightarrow> publishChannelStatus env channelID ''error'' (''stream error '' @ code) s
      | _ \<Rightarrow> s)"

definition inbound_deps_for ::
  "('n, 'w) gw_env \<Rightarrow> string \<Rightarrow> string \<Rightarrow> 'w gw_client \<Rightarrow> 'w gw_world inbound_deps" where
  "inbound_deps_for env channelID tenantID client =
     \<lparr>bd_lib = ge_lib env, bd_Resolver = Some (gc_PNForLID client),
      bd_Download = (\<lambda>m. lift_ext (gc_Download client m)),
      bd_Put = (\<lambda>key mime data. lift_ext (ge_put env key mime data)),
      bd_Avatars = Some (channelAvatars env channelID), bd_Groups = Some (channelGroups env channelID),
      bd_Secrets = Some \<lparr>DecryptSecretEncryptedMessage = (\<lambda>e. lift_ext (gc_DecryptMessage client e)),
        DecryptPollVote = (\<lambda>e. lift_ext (gc_DecryptVote client e))\<rparr>,
      bd_ChannelID = channelID, bd_TenantID = tenantID, bd_TolerateMediaFailure = False,
      bd_codec = ge_codec env, bd_descr = ge_descr env, bd_status_name = ge_status_name env, bd_url_host = ge_url_host env\<rparr>"

definition handleInboundMessage ::
  "('n, 'w) gw_env \<Rightarrow> string \<Rightarrow> wa_event_message \<Rightarrow> ('n, 'w) gateway_state \<Rightarrow> ('n, 'w) gateway_state" where
  "handleInboundMessage env channelID evt s =
     (case waClientFor env channelID (gs_world s) of
        Inl err \<Rightarrow> s
      | Inr client \<Rightarrow>
          (case BuildInbound (inbound_deps_for env channelID (tenant_of channelID s) client) evt
             \<lparr>bs_world = gs_world s, bs_puts = []\<rparr> of
             (built, b) \<Rightarrow>
               (let s1 = s\<lparr>gs_world := bs_world b\<rparr>
                in case built of
                     Inl err \<Rightarrow> s1
                   | Inr inbound \<Rightarrow>
                       snd (gw_publish env
                         (if iv_Group inbound \<noteq> None then PublishGroupInbound inbound else PublishInbound inbound) s1))))"

fun publish_all :: "('n, 'w) gw_env \<Rightarrow> gw_event list \<Rightarrow> ('n, 'w) gateway_state \<Rightarrow> ('n, 'w) gateway_state" where
  "publish_all env [] s = s"
| "publish_all env (e # es) s = publish_all env es (snd (gw_publish env e s))"

definition gateway_receipt :: "('n, 'w) gw_env \<Rightarrow> string \<Rightarrow> receipt \<Rightarrow> ('n, 'w) gateway_state \<Rightarrow> ('n, 'w) gateway_state" where
  "gateway_receipt env channelID evt s =
     (case handleReceipt (ge_lib env) channelID (tenant_of channelID s) evt of
        (Some grp, statuses) \<Rightarrow> publish_all env [PublishGroupStatus grp] s
      | (None, statuses) \<Rightarrow> publish_all env (map PublishStatus statuses) s)"

definition handleGroupInfo ::
  "('n, 'w) gw_env \<Rightarrow> string \<Rightarrow> group_change \<Rightarrow> ('n, 'w) gateway_state \<Rightarrow> ('n, 'w) gateway_state" where
  "handleGroupInfo env channelID e s =
     (let g = gs_world s;
          g1 = (if gch_Named e
                then g\<lparr>gw_names := Invalidate (ne_lib (ge_group_names env)) channelID (gch_JID e) (gw_names g)\<rparr> else g);
          s1 = s\<lparr>gs_world := g1\<rparr>
      in case waClientFor env channelID g1 of
           Inl err \<Rightarrow> s1
         | Inr client \<Rightarrow>
             (case BuildGroupParticipants
                \<lparr>re_lib = ge_lib env, re_resolver = (\<lambda>lid w. (gc_PNForLID client lid, w)), re_sha256 = ge_sha256 env,
                 re_tenantID = tenant_of channelID s, re_channelID = channelID\<rparr> e () of
                (evts, c) \<Rightarrow> publish_all env (map PublishGroupParticipants evts) s1))"

text \<open>A history notification that the account itself sent goes to the importer, when the client takes history over.\<close>

definition historyNotification :: "('n, 'w) gw_env \<Rightarrow> wa_event_message \<Rightarrow> 'n option" where
  "historyNotification env evt = (if \<not> xm_IsFromMe evt then None else ge_notification env (xm_Message evt))"

definition acceptHistory ::
  "('n, 'w) gw_env \<Rightarrow> string \<Rightarrow> 'n \<Rightarrow> ('n, 'w) gateway_state \<Rightarrow> bool \<times> ('n, 'w) gateway_state" where
  "acceptHistory env channelID notif s =
     (case waClientFor env channelID (gs_world s) of
        Inl err \<Rightarrow> (False, s)
      | Inr client \<Rightarrow>
          if \<not> gc_TakesOverHistory client then (False, s) else (True, gw_note (HistoryAccepted channelID notif) s))"

definition forget_channel :: "('n, 'w) gw_env \<Rightarrow> string \<Rightarrow> ('n, 'w) gateway_state \<Rightarrow> ('n, 'w) gateway_state" where
  "forget_channel env channelID s =
     (case gs_call (ge_db env) s of (fail, s1) \<Rightarrow> s1\<lparr>gs_core := forgetChannel fail channelID (gs_core s1)\<rparr>)"

definition handle_logged_out :: "('n, 'w) gw_env \<Rightarrow> string \<Rightarrow> ('n, 'w) gateway_state \<Rightarrow> ('n, 'w) gateway_state" where
  "handle_logged_out env channelID s =
     forget_channel env channelID
       (if channelID \<in> set (gs_gone s) then s
        else publishChannelStatus env channelID ''disconnected'' ''device_logged_out'' (s\<lparr>gs_gone := channelID # gs_gone s\<rparr>))"

definition handle_message :: "('n, 'w) gw_env \<Rightarrow> string \<Rightarrow> wa_event_message \<Rightarrow> ('n, 'w) gateway_state \<Rightarrow> ('n, 'w) gateway_state" where
  "handle_message env channelID e s =
     (case historyNotification env e of
        None \<Rightarrow> handleInboundMessage env channelID e s
      | Some notif \<Rightarrow>
          (case acceptHistory env channelID notif s of
             (True, s1) \<Rightarrow> s1
           | (False, s1) \<Rightarrow> handleInboundMessage env channelID e s1))"

definition handleSessionEvent :: "('n, 'w) gw_env \<Rightarrow> string \<Rightarrow> wa_any \<Rightarrow> ('n, 'w) gateway_state \<Rightarrow> ('n, 'w) gateway_state" where
  "handleSessionEvent env channelID evt s =
     (let s1 = (case callsAreDead evt of None \<Rightarrow> s | Some reason \<Rightarrow> gw_note (CallsAborted channelID reason) s)
      in if ignoredByListenGroups channelID evt s1 then s1
         else
           (case evt of
              EvMessage e \<Rightarrow> handle_message env channelID e s1
            | EvReceipt e \<Rightarrow> gateway_receipt env channelID e s1
            | EvGroupInfo e \<Rightarrow> handleGroupInfo env channelID e s1
            | EvLoggedOut \<Rightarrow> handle_logged_out env channelID s1
            | EvCallSignal \<Rightarrow> s1
            | _ \<Rightarrow> handleConnectionEvent env channelID evt s1))"

fun run_session_events :: "('n, 'w) gw_env \<Rightarrow> (string \<times> wa_any) list \<Rightarrow> ('n, 'w) gateway_state \<Rightarrow> ('n, 'w) gateway_state" where
  "run_session_events env [] s = s"
| "run_session_events env ((channelID, evt) # evts) s =
     run_session_events env evts (handleSessionEvent env channelID evt s)"

section \<open>What handlers leave behind\<close>

text \<open>A step that only adds entries satisfying \<open>P\<close> to the log (and may move the world).\<close>

definition emits :: "('n gw_act \<Rightarrow> bool) \<Rightarrow> ('n, 'w) gateway_state \<Rightarrow> ('n, 'w) gateway_state \<Rightarrow> bool" where
  "emits P s s' =
     ((\<exists>new. gs_log s' = gs_log s @ new \<and> (\<forall>a\<in>set new. P a)) \<and> gs_core s' = gs_core s \<and> gs_gone s' = gs_gone s)"

lemma emits_refl [simp, intro]: "emits P s s"
  by (simp add: emits_def)

lemma emits_world [simp, intro]: "emits P s (s\<lparr>gs_world := g\<rparr>)"
  by (simp add: emits_def)

lemma emits_trans [trans]: "emits P s s1 \<Longrightarrow> emits P s1 s2 \<Longrightarrow> emits P s s2"
  unfolding emits_def by (metis Un_iff append.assoc set_append)

lemma emits_note: "P a \<Longrightarrow> emits P s (gw_note a s)"
  by (simp add: emits_def gw_note_def)

lemma emits_call: "gs_call f s = (a, s') \<Longrightarrow> emits P s s'"
  by (auto simp: gs_call_def emits_def split: prod.splits)

lemma emits_publish: "(\<And>ok. P (Published e ok)) \<Longrightarrow> emits P s (snd (gw_publish env e s))"
proof -
  assume P: "\<And>ok. P (Published e ok)"
  obtain err s1 where call: "gs_call (ge_publish env e) s = (err, s1)" by fastforce
  have "emits P s s1" by (rule emits_call [OF call])
  also have "emits P s1 (snd (gw_publish env e s))" using P by (simp add: gw_publish_def call emits_note)
  finally show ?thesis .
qed

lemma emits_publish_all:
  "(\<And>e ok. e \<in> set es \<Longrightarrow> P (Published e ok)) \<Longrightarrow> emits P s (publish_all env es s)"
proof (induction es arbitrary: s)
  case (Cons e es)
  have "emits P s (snd (gw_publish env e s))" using Cons.prems by (intro emits_publish) simp
  also have "emits P (snd (gw_publish env e s)) (publish_all env es (snd (gw_publish env e s)))"
    using Cons.prems by (intro Cons.IH) simp
  finally show ?case by simp
qed simp

lemma emits_identity: "connectedIdentity env channelID s = (x, s') \<Longrightarrow> emits P s s'"
  by (auto simp: connectedIdentity_def split: sum.splits option.splits prod.splits)

definition status_for :: "string \<Rightarrow> string \<Rightarrow> string \<Rightarrow> string \<Rightarrow> 'n gw_act \<Rightarrow> bool" where
  "status_for tenantID channelID status reason a =
     (\<exists>v ok. a = Published (ChannelStatus v) ok \<and> cs_tenantID v = tenantID \<and> cs_channelID v = channelID \<and>
        cs_status v = status \<and> cs_reason v = reason)"

lemma emits_status:
  assumes "\<And>a. status_for (tenant_of channelID s) channelID status reason a \<Longrightarrow> P a"
  shows "emits P s (publishChannelStatus env channelID status reason s)"
proof (cases "status = ''connected''")
  case True
  obtain phone name pic s1 where id: "connectedIdentity env channelID s = ((phone, name, pic), s1)"
    by (metis prod.exhaust_sel)
  have "emits P s s1" by (rule emits_identity [OF id])
  also have "emits P s1 (publishChannelStatus env channelID status reason s)"
    unfolding publishChannelStatus_def using True
    by (simp add: id Let_def) (rule emits_publish, rule assms, simp add: status_for_def status_event_def)
  finally show ?thesis .
next
  case False
  then show ?thesis
    unfolding publishChannelStatus_def
    by (simp add: Let_def) (rule emits_publish, rule assms, simp add: status_for_def status_event_def)
qed

text \<open>Every entry is about the channel of the event, with the tenant the channel has.\<close>

fun names_channel :: "string \<Rightarrow> string \<Rightarrow> gw_event \<Rightarrow> bool" where
  "names_channel tenantID channelID (ChannelStatus v) = (cs_tenantID v = tenantID \<and> cs_channelID v = channelID)"
| "names_channel tenantID channelID (ChannelQR v) = (qr_tenantID v = tenantID \<and> qr_channelID v = channelID)"
| "names_channel tenantID channelID (PublishInbound v) = (iv_PhoneNumberID v = channelID \<and> iv_Group v = None)"
| "names_channel tenantID channelID (PublishGroupInbound v) = (iv_PhoneNumberID v = channelID \<and> iv_Group v \<noteq> None)"
| "names_channel tenantID channelID (PublishStatus v) = True"
| "names_channel tenantID channelID (PublishGroupStatus v) = (gs_tenantID v = tenantID \<and> gs_channelID v = channelID)"
| "names_channel tenantID channelID (PublishGroupParticipants v) = (gpe_tenantID v = tenantID \<and> gpe_channelID v = channelID)"
| "names_channel tenantID channelID (PublishHistoryDone v) = (hd_tenantID v = tenantID \<and> hd_channelID v = channelID)"

fun act_for :: "string \<Rightarrow> string \<Rightarrow> 'n gw_act \<Rightarrow> bool" where
  "act_for tenantID channelID (Published e ok) = names_channel tenantID channelID e"
| "act_for tenantID channelID (CallsAborted c reason) = (c = channelID)"
| "act_for tenantID channelID (HistoryAccepted c notif) = (c = channelID)"
| "act_for tenantID channelID (CallsAttached c) = (c = channelID)"
| "act_for tenantID channelID (SessionSaved c jid t) = (c = channelID \<and> t = tenantID)"
| "act_for tenantID channelID PairAccepted = True"

text \<open>A report that the channel is down, and the one that says its device was logged out.\<close>

fun down :: "string \<Rightarrow> 'n gw_act \<Rightarrow> bool" where
  "down channelID (Published (ChannelStatus v) ok) = (cs_channelID v = channelID \<and> cs_status v = ''disconnected'')"
| "down channelID a = False"

fun gone_report :: "string \<Rightarrow> 'n gw_act \<Rightarrow> bool" where
  "gone_report channelID (Published (ChannelStatus v) ok) =
     (cs_channelID v = channelID \<and> cs_status v = ''disconnected'' \<and> cs_reason v = ''device_logged_out'')"
| "gone_report channelID a = False"

definition calm_act :: "string \<Rightarrow> string \<Rightarrow> bool \<Rightarrow> 'n gw_act \<Rightarrow> bool" where
  "calm_act tenantID channelID gone a =
     (act_for tenantID channelID a \<and> \<not> gone_report channelID a \<and> (gone \<longrightarrow> \<not> down channelID a))"

lemma gone_report_down: "gone_report channelID a \<Longrightarrow> down channelID a"
  by (cases "(channelID, a)" rule: gone_report.cases) auto

lemma down_names: "down channelID a \<Longrightarrow> act_for tenantID channelID' a \<Longrightarrow> channelID' = channelID"
  by (cases "(channelID, a)" rule: down.cases) auto

lemma emits_inbound: "emits (calm_act (tenant_of channelID s) channelID gone) s (handleInboundMessage env channelID evt s)"
proof (cases "waClientFor env channelID (gs_world s)")
  case (Inr client)
  obtain built b where b: "BuildInbound (inbound_deps_for env channelID (tenant_of channelID s) client) evt
      \<lparr>bs_world = gs_world s, bs_puts = []\<rparr> = (built, b)" by fastforce
  show ?thesis
  proof (cases built)
    case (Inl err)
    then show ?thesis using Inr b by (simp add: handleInboundMessage_def Let_def)
  next
    case built: (Inr e)
    have e: "iv_PhoneNumberID e = channelID" using BuildInbound_channel [OF b [unfolded built]] by (simp add: inbound_deps_for_def)
    have "emits (calm_act (tenant_of channelID s) channelID gone) s (s\<lparr>gs_world := bs_world b\<rparr>)" by simp
    also have "emits (calm_act (tenant_of channelID s) channelID gone) (s\<lparr>gs_world := bs_world b\<rparr>)
      (handleInboundMessage env channelID evt s)"
      using Inr b built e by (auto simp: handleInboundMessage_def Let_def calm_act_def intro!: emits_publish)
    finally show ?thesis .
  qed
qed (simp add: handleInboundMessage_def)

lemma emits_message: "emits (calm_act (tenant_of channelID s) channelID gone) s (handle_message env channelID e s)"
  by (auto simp: handle_message_def acceptHistory_def calm_act_def split: option.split sum.split if_splits
      intro!: emits_inbound emits_note)

lemma emits_receipt: "emits (calm_act (tenant_of channelID s) channelID gone) s (gateway_receipt env channelID e s)"
  by (auto simp: gateway_receipt_def handleReceipt_def BuildGroupStatus_def Let_def calm_act_def split: option.split if_splits
      intro!: emits_publish_all emits_publish)

lemma events_of_roster:
  assumes "BuildGroupParticipants env e w = (evts, c)" "v \<in> set evts"
  shows "gpe_tenantID v = re_tenantID env \<and> gpe_channelID v = re_channelID env"
proof -
  have adds: "add_events env e kinds c1 = (evts, c2) \<Longrightarrow> v \<in> set evts \<Longrightarrow>
    gpe_tenantID v = re_tenantID env \<and> gpe_channelID v = re_channelID env" for kinds c1 c2 evts
  proof (induction kinds arbitrary: c1 c2 evts)
    case (Cons k kinds)
    then show ?case by (cases k) (auto simp: roster_event_def split: if_splits prod.splits)
  qed simp
  show ?thesis using assms
    by (auto simp: BuildGroupParticipants_def simp del: add_events.simps split: prod.splits dest: adds)
qed

lemma emits_group: "emits (calm_act (tenant_of channelID s) channelID gone) s (handleGroupInfo env channelID e s)"
proof -
  define g1 where "g1 = (if gch_Named e
    then (gs_world s)\<lparr>gw_names := Invalidate (ne_lib (ge_group_names env)) channelID (gch_JID e) (gw_names (gs_world s))\<rparr>
    else gs_world s)"
  have "emits (calm_act (tenant_of channelID s) channelID gone) s (s\<lparr>gs_world := g1\<rparr>)" by simp
  also have "emits (calm_act (tenant_of channelID s) channelID gone) (s\<lparr>gs_world := g1\<rparr>) (handleGroupInfo env channelID e s)"
  proof (cases "waClientFor env channelID g1")
    case (Inr client)
    let ?env = "\<lparr>re_lib = ge_lib env, re_resolver = (\<lambda>lid w. (gc_PNForLID client lid, w)), re_sha256 = ge_sha256 env,
      re_tenantID = tenant_of channelID s, re_channelID = channelID\<rparr>"
    obtain evts c where b: "BuildGroupParticipants ?env e () = (evts, c)" by fastforce
    show ?thesis
      using Inr b events_of_roster [OF b]
      by (auto simp: handleGroupInfo_def Let_def g1_def [symmetric] calm_act_def intro!: emits_publish_all)
  qed (simp add: handleGroupInfo_def Let_def g1_def [symmetric])
  finally show ?thesis .
qed

lemma emits_connection:
  "emits (calm_act (tenant_of channelID s) channelID (channelID \<in> set (gs_gone s))) s (handleConnectionEvent env channelID evt s)"
  unfolding handleConnectionEvent_def
  by (cases evt) (auto simp: calm_act_def status_for_def intro!: emits_status)

lemma emits_event:
  assumes "evt \<noteq> EvLoggedOut"
  shows "emits (calm_act (tenant_of channelID s) channelID (channelID \<in> set (gs_gone s))) s (handleSessionEvent env channelID evt s)"
proof -
  let ?P = "calm_act (tenant_of channelID s) channelID (channelID \<in> set (gs_gone s)) :: 'a gw_act \<Rightarrow> bool"
  define s1 where "s1 = (case callsAreDead evt of None \<Rightarrow> s | Some reason \<Rightarrow> gw_note (CallsAborted channelID reason) s)"
  have same: "tenant_of channelID s1 = tenant_of channelID s" "gs_gone s1 = gs_gone s"
    by (simp_all add: s1_def tenant_of_def gw_note_def split: option.split)
  have "emits ?P s s1" by (auto simp: s1_def calm_act_def split: option.split intro!: emits_note)
  also have "emits ?P s1 (handleSessionEvent env channelID evt s)"
    using assms emits_message [of channelID s1] emits_receipt [of channelID s1] emits_group [of channelID s1]
      emits_connection [of channelID s1]
    unfolding handleSessionEvent_def Let_def s1_def [symmetric] same
    by (cases evt) simp_all
  finally show ?thesis .
qed

text \<open>The log of a logout: the calls are aborted, and the first time the channel is reported.\<close>

lemma logged_out_log:
  "\<exists>v ok. gs_log (handleSessionEvent env channelID EvLoggedOut s) =
     gs_log s @ CallsAborted channelID ''logged_out'' #
       (if channelID \<in> set (gs_gone s) then [] else [Published (ChannelStatus v) ok]) \<and>
     v = status_event (tenant_of channelID s) channelID ''disconnected'' ''device_logged_out''"
  by (auto simp: handleSessionEvent_def callsAreDead_def ignoredByListenGroups_def isGroupEvent_def chatOfEvent_def
      handle_logged_out_def forget_channel_def gs_call_def gw_note_def publishChannelStatus_def gw_publish_def tenant_of_def Let_def
      split: prod.split)

lemma logged_out_gone:
  "set (gs_gone (handleSessionEvent env channelID EvLoggedOut s)) = insert channelID (set (gs_gone s))"
  by (auto simp: handleSessionEvent_def callsAreDead_def ignoredByListenGroups_def isGroupEvent_def chatOfEvent_def
      handle_logged_out_def forget_channel_def gs_call_def gw_note_def publishChannelStatus_def gw_publish_def Let_def
      split: prod.split)

lemma logged_out_tenant:
  "channelID' \<noteq> channelID \<Longrightarrow>
   tenant_of channelID' (handleSessionEvent env channelID EvLoggedOut s) = tenant_of channelID' s"
  by (auto simp: handleSessionEvent_def callsAreDead_def ignoredByListenGroups_def isGroupEvent_def chatOfEvent_def
      handle_logged_out_def forget_channel_def forgetChannel_def clearTenant_def tenantFor_def gs_call_def gw_note_def
      publishChannelStatus_def gw_publish_def tenant_of_def Let_def split: prod.split)

text \<open>
  C2. Handling an event of a session touches nobody else: every publication names the channel, and
  the tenant that the channel had before the event (also when the event is the logout that makes the
  gateway forget the tenant), messages of a group chat and only those go out as group messages, calls
  are aborted and history is accepted for that channel only, and the tenants of the other channels
  stay. When the channel does not listen to groups, an event of a group leaves no trace at all.
\<close>

theorem session_event_isolated:
  shows "\<exists>new. gs_log (handleSessionEvent env channelID evt s) = gs_log s @ new \<and>
      (\<forall>a\<in>set new. act_for (tenant_of channelID s) channelID a) \<and>
      (\<not> set_listenGroups (Map_For channelID (settings (gs_core s))) \<and> isGroupEvent evt \<longrightarrow>
         handleSessionEvent env channelID evt s = s) \<and>
      (channelID' \<noteq> channelID \<longrightarrow>
         tenant_of channelID' (handleSessionEvent env channelID evt s) = tenant_of channelID' s)"
proof -
  have ignored: "handleSessionEvent env channelID evt s = s"
    if "\<not> set_listenGroups (Map_For channelID (settings (gs_core s)))" "isGroupEvent evt"
    using that by (cases evt) (auto simp: handleSessionEvent_def ignoredByListenGroups_def callsAreDead_def isGroupEvent_def
        chatOfEvent_def)
  show ?thesis
  proof (cases "evt = EvLoggedOut")
    case True
    obtain v ok where log: "gs_log (handleSessionEvent env channelID EvLoggedOut s) =
        gs_log s @ CallsAborted channelID ''logged_out'' # (if channelID \<in> set (gs_gone s) then [] else [Published (ChannelStatus v) ok])"
      and v: "v = status_event (tenant_of channelID s) channelID ''disconnected'' ''device_logged_out''"
      using logged_out_log by blast
    let ?new = "CallsAborted channelID ''logged_out'' # (if channelID \<in> set (gs_gone s) then [] else [Published (ChannelStatus v) ok])"
    have "\<forall>a\<in>set ?new. act_for (tenant_of channelID s) channelID a" by (simp add: v status_event_def)
    moreover have "channelID' \<noteq> channelID \<longrightarrow>
      tenant_of channelID' (handleSessionEvent env channelID EvLoggedOut s) = tenant_of channelID' s"
      using logged_out_tenant by blast
    moreover have "\<not> isGroupEvent EvLoggedOut" by (simp add: isGroupEvent_def chatOfEvent_def)
    ultimately show ?thesis unfolding True using log by blast
  next
    case False
    then show ?thesis using emits_event [OF False, of channelID s env] ignored
      by (fastforce simp: emits_def calm_act_def tenant_of_def)
  qed
qed

lemma event_step:
  assumes s'_def: "s' = handleSessionEvent env c evt s"
  shows "\<exists>new. gs_log s' = gs_log s @ new \<and> (channelID \<in> set (gs_gone s') \<longleftrightarrow> channelID \<in> set (gs_gone s) \<or> (c, evt) = (channelID, EvLoggedOut)) \<and>
    (channelID \<in> set (gs_gone s) \<longrightarrow> \<not> (\<exists>a\<in>set new. down channelID a)) \<and>
    length (filter (gone_report channelID) new) =
      (if channelID \<notin> set (gs_gone s) \<and> (c, evt) = (channelID, EvLoggedOut) then 1 else 0) \<and>
    (\<forall>pre a post. new = pre @ a # post \<longrightarrow> gone_report channelID a \<longrightarrow> \<not> (\<exists>b\<in>set post. down channelID b))"
proof (cases "(c, evt) = (channelID, EvLoggedOut)")
  case True
  obtain v ok where log: "gs_log (handleSessionEvent env channelID EvLoggedOut s) =
      gs_log s @ CallsAborted channelID ''logged_out'' # (if channelID \<in> set (gs_gone s) then [] else [Published (ChannelStatus v) ok])"
    and v: "v = status_event (tenant_of channelID s) channelID ''disconnected'' ''device_logged_out''"
    using logged_out_log by blast
  have gone: "set (gs_gone s') = insert channelID (set (gs_gone s))" using True logged_out_gone by (simp add: s'_def)
  show ?thesis
    using log gone True unfolding s'_def
    by (intro exI conjI) (auto simp: v status_event_def Cons_eq_append_conv split: if_splits)
next
  case False
  obtain new where new: "gs_log s' = gs_log s @ new"
    and quiet: "\<forall>a\<in>set new. \<not> gone_report channelID a \<and> (channelID \<in> set (gs_gone s) \<longrightarrow> \<not> down channelID a)"
    and gone: "channelID \<in> set (gs_gone s') \<longleftrightarrow> channelID \<in> set (gs_gone s)"
  proof (cases "c = channelID")
    case True
    then have "evt \<noteq> EvLoggedOut" using False by simp
    from emits_event [OF this, of c s env] True show ?thesis using that by (auto simp: emits_def calm_act_def s'_def)
  next
    case other: False
    obtain new where new: "gs_log s' = gs_log s @ new" and act: "\<forall>a\<in>set new. act_for (tenant_of c s) c a"
    proof (cases "evt = EvLoggedOut")
      case True
      obtain v ok where "gs_log s' = gs_log s @ CallsAborted c ''logged_out'' #
          (if c \<in> set (gs_gone s) then [] else [Published (ChannelStatus v) ok])"
        "v = status_event (tenant_of c s) c ''disconnected'' ''device_logged_out''"
        using logged_out_log [of env c s] True by (auto simp: s'_def)
      then show ?thesis using that by (auto simp: status_event_def split: if_splits)
    next
      case False
      from emits_event [OF False, of c s env] show ?thesis using that by (auto simp: emits_def calm_act_def s'_def)
    qed
    have "\<not> down channelID a" if "a \<in> set new" for a using act that down_names other by blast
    moreover have "channelID \<in> set (gs_gone s') \<longleftrightarrow> channelID \<in> set (gs_gone s)"
    proof (cases "evt = EvLoggedOut")
      case True
      then show ?thesis using logged_out_gone [of env c s] other by (simp add: s'_def)
    next
      case False
      then show ?thesis using emits_event [OF False, of c s env] by (simp add: emits_def s'_def)
    qed
    ultimately show ?thesis using that [OF new] gone_report_down by blast
  qed
  have "filter (gone_report channelID) new = []" using quiet by (simp add: filter_empty_conv)
  then show ?thesis using new quiet gone False by (intro exI [of _ new]) auto
qed

lemma run_log: "\<exists>new. gs_log (run_session_events env evts s) = gs_log s @ new"
proof (induction evts arbitrary: s)
  case (Cons p evts)
  obtain c evt where p: "p = (c, evt)" by fastforce
  obtain new1 where "gs_log (handleSessionEvent env c evt s) = gs_log s @ new1"
    using event_step [OF refl, of env c evt s] by blast
  then show ?case using Cons.IH [of "handleSessionEvent env c evt s"] by (auto simp: p)
qed simp


section \<open>Witnesses\<close>

definition demo_gateway :: "(unit, unit) gw_env" where
  "demo_gateway =
     \<lparr>ge_lib = demo_lib, ge_client = (\<lambda>c u. Inl (Err ENoSession ''no session'')), ge_publish = (\<lambda>e u. (None, 1, u)),
      ge_db = (\<lambda>u. (None, 1, u)), ge_put = (\<lambda>key mime data u. (None, 1, u)), ge_avatar = demo_pictures,
      ge_group_names = demo_names, ge_codec = \<lparr>mc_params = \<lambda>s. no_params, mc_payment = \<lambda>s. Inl (Err EText [])\<rparr>,
      ge_descr = (\<lambda>m. []), ge_status_name = (\<lambda>i. None), ge_url_host = (\<lambda>u. Inr []), ge_notification = (\<lambda>m. None),
      ge_sha256 = (\<lambda>s. s)\<rparr>"

definition demo_gateway_state :: "(unit, unit) gateway_state" where
  "demo_gateway_state =
     \<lparr>gs_core = \<lparr>tenants = [''c'' \<mapsto> ''t''], settings = [''c'' \<mapsto> Defaults\<lparr>set_listenGroups := False\<rparr>],
        reg = \<lparr>sessions = Map.empty, history_imports = Map.empty\<rparr>, removed = []\<rparr>,
      gs_gone = [], gs_world = \<lparr>gw_pictures = empty_cache, gw_names = empty_cache, gw_ext = demo_clock\<rparr>, gs_log = []\<rparr>"

lemma session_event_isolated_witness:
  "handleSessionEvent demo_gateway ''c'' (EvGroupInfo demo_change) demo_gateway_state = demo_gateway_state"
  using session_event_isolated [of demo_gateway "''c''" "EvGroupInfo demo_change" demo_gateway_state "''d''"]
  by (auto simp: demo_gateway_state_def demo_change_def isGroupEvent_def chatOfEvent_def Map_For_def)


end
