(* ===== verification/Pairing.thy ===== *)
theory Pairing
  imports GatewayEvents Sessions Delivery
begin

text \<open>
  How the gateway pairs a channel and takes calls: \<open>PairHandler\<close>, \<open>followPairing\<close>, \<open>persistSession\<close>,
  \<open>ensureChannelConnected\<close>, \<open>attachCalls\<close> and \<open>CallHandler\<close> of internal/gateway/gateway.go with the
  pairing side of internal/gateway/history.go, over the state of theory GatewayEvents. The session
  manager is a function of the world: the updates of a pairing are the receives of its channel, each
  of which may take time and move the world, until the channel is closed.
\<close>

section \<open>Reasons\<close>

definition pairingBusyBehindHistory :: string where
  "pairingBusyBehindHistory =
     ''Outro pareamento com hist'' @ [CHR 0xC3, CHR 0xB3] @ ''rico est'' @ [CHR 0xC3, CHR 0xA1] @
     '' em andamento neste servidor. Tente novamente em instantes.''"

definition historyPairingBusyBehindOthers :: string where
  "historyPairingBusyBehindOthers =
     ''H'' @ [CHR 0xC3, CHR 0xA1] @ '' outros pareamentos em andamento neste servidor e o pareamento com hist'' @
     [CHR 0xC3, CHR 0xB3] @ ''rico precisa acontecer sozinho. Tente novamente em instantes.''"

definition pairingCodeExpiredReason :: string where
  "pairingCodeExpiredReason =
     ''O c'' @ [CHR 0xC3, CHR 0xB3] @ ''digo de pareamento venceu antes de ser usado. Pe'' @ [CHR 0xC3, CHR 0xA7] @
     ''a um novo c'' @ [CHR 0xC3, CHR 0xB3] @ ''digo.''"

definition invalidPhoneNumberReason :: string where
  "invalidPhoneNumberReason =
     ''N'' @ [CHR 0xC3, CHR 0xBA] @ ''mero inv'' @ [CHR 0xC3, CHR 0xA1] @ ''lido. Informe o n'' @
     [CHR 0xC3, CHR 0xBA] @ ''mero com DDI e DDD, s'' @ [CHR 0xC3, CHR 0xB3] @ '' com d'' @ [CHR 0xC3, CHR 0xAD] @
     ''gitos, por exemplo 5511987654321.''"

definition pairingCodeRefusedReason :: string where
  "pairingCodeRefusedReason =
     ''O WhatsApp n'' @ [CHR 0xC3, CHR 0xA3] @ ''o gerou o c'' @ [CHR 0xC3, CHR 0xB3] @ ''digo para este n'' @
     [CHR 0xC3, CHR 0xBA] @ ''mero. Confira se o n'' @ [CHR 0xC3, CHR 0xBA] @ ''mero tem WhatsApp e pe'' @
     [CHR 0xC3, CHR 0xA7] @ ''a um novo c'' @ [CHR 0xC3, CHR 0xB3] @ ''digo.''"

definition pairingFailedReason :: string where
  "pairingFailedReason =
     ''N'' @ [CHR 0xC3, CHR 0xA3] @ ''o foi poss'' @ [CHR 0xC3, CHR 0xAD] @
     ''vel concluir o pareamento. Tente de novo.''"

definition pairingQRTimeoutReason :: string where
  "pairingQRTimeoutReason =
     ''qr_timeout''"

definition pairingBusyReason :: "bool \<Rightarrow> string" where
  "pairingBusyReason importHistory = (if importHistory then historyPairingBusyBehindOthers else pairingBusyBehindHistory)"

definition pairingFailureReason :: "goerr \<Rightarrow> bool \<Rightarrow> string" where
  "pairingFailureReason err by_code =
     (if err_is err EPairingCodeExpired then pairingCodeExpiredReason
      else if err_is err EInvalidPhoneNumber then invalidPhoneNumberReason
      else if err_is err EPairingTimeout then pairingQRTimeoutReason
      else if by_code then pairingCodeRefusedReason
      else pairingFailedReason)"

section \<open>The gateway's handlers\<close>

type_synonym 'w pair_updates = "(PairUpdate, 'w) ext list"

record ('n, 'w) pair_env =
  pe_gw :: "('n, 'w) gw_env"
  pe_Pair :: "string \<Rightarrow> bool \<Rightarrow> bool \<Rightarrow> ('w pair_updates result, 'w) ext"
  pe_PairByCode :: "string \<Rightarrow> string \<Rightarrow> bool \<Rightarrow> bool \<Rightarrow> ('w pair_updates result, 'w) ext"
  pe_EnsureConnected :: "string \<Rightarrow> (goerr option, 'w) ext"
  pe_Resume :: "string \<Rightarrow> jid \<Rightarrow> bool \<Rightarrow> (goerr option, 'w) ext"
  pe_Dispatch :: "'w gw_client \<Rightarrow> GatewayCallCommand \<Rightarrow> (goerr option, 'w) ext"

definition now_of :: "('n, 'w) gateway_state \<Rightarrow> int" where
  "now_of s = tw_time (gw_ext (gs_world s))"

text \<open>A statement of the registry: it runs at one instant and may fail.\<close>

definition on_registry ::
  "('n, 'w) pair_env \<Rightarrow> (goerr option \<Rightarrow> int \<Rightarrow> registry \<Rightarrow> goerr option \<times> registry) \<Rightarrow>
   ('n, 'w) gateway_state \<Rightarrow> goerr option \<times> ('n, 'w) gateway_state" where
  "on_registry env stmt s =
     (case gs_call (ge_db (pe_gw env)) s of (fail, s1) \<Rightarrow>
        (case stmt fail (now_of s1) (reg (gs_core s1)) of (err, r) \<Rightarrow> (err, s1\<lparr>gs_core := (gs_core s1)\<lparr>reg := r\<rparr>\<rparr>)))"

definition failure_status :: "string \<Rightarrow> string \<Rightarrow> string \<Rightarrow> string \<Rightarrow> ChannelStatusEvent" where
  "failure_status tenantID userID channelID reason =
     (status_event tenantID channelID ''error'' reason)\<lparr>cs_userID := userID\<rparr>"

definition publishChannelFailure ::
  "('n, 'w) pair_env \<Rightarrow> string \<Rightarrow> string \<Rightarrow> string \<Rightarrow> string \<Rightarrow> ('n, 'w) gateway_state \<Rightarrow> ('n, 'w) gateway_state" where
  "publishChannelFailure env tenantID userID channelID reason s =
     snd (gw_publish (pe_gw env) (ChannelStatus (failure_status tenantID userID channelID reason)) s)"

definition publishChannelError ::
  "('n, 'w) pair_env \<Rightarrow> string \<Rightarrow> string \<Rightarrow> string \<Rightarrow> goerr \<Rightarrow> ('n, 'w) gateway_state \<Rightarrow> ('n, 'w) gateway_state" where
  "publishChannelError env tenantID userID channelID cause s =
     publishChannelFailure env tenantID userID channelID (err_msg cause) s"

definition recordHistoryChoice ::
  "('n, 'w) pair_env \<Rightarrow> PairCommand \<Rightarrow> ('n, 'w) gateway_state \<Rightarrow> goerr option \<times> ('n, 'w) gateway_state" where
  "recordHistoryChoice env cmd s =
     (if \<not> ImportsHistory cmd then
        (case on_registry env (\<lambda>fail now. ClearHistoryImport fail (pc_channelID cmd)) s of
           (None, s1) \<Rightarrow> (None, s1)
         | (Some err, s1) \<Rightarrow>
             (Some (Wrap (''gateway: clear the history import of '' @ pc_channelID cmd @ '': '') err []), s1))
      else
        (case on_registry env (\<lambda>fail now. BeginHistoryImport fail now (pc_channelID cmd) (pc_tenantID cmd) (pc_importID cmd)) s of
           (None, s1) \<Rightarrow> (None, s1)
         | (Some err, s1) \<Rightarrow>
             (Some (Wrap (''gateway: begin history import '' @ pc_channelID cmd @ '': '') err []), s1)))"

definition pair ::
  "('n, 'w) pair_env \<Rightarrow> PairCommand \<Rightarrow> ('n, 'w) gateway_state \<Rightarrow> 'w pair_updates result \<times> ('n, 'w) gateway_state" where
  "pair env cmd s =
     gs_call (if PairsByCode cmd
              then pe_PairByCode env (pc_channelID cmd) (pc_phoneNumber cmd) (ImportsHistory cmd) (pc_relinkDevice cmd)
              else pe_Pair env (pc_channelID cmd) (ImportsHistory cmd) (pc_relinkDevice cmd)) s"

definition persistSession ::
  "('n, 'w) pair_env \<Rightarrow> string \<Rightarrow> string \<Rightarrow> ('n, 'w) gateway_state \<Rightarrow> goerr option \<times> ('n, 'w) gateway_state" where
  "persistSession env channelID tenantID s =
     (case waClientFor (pe_gw env) channelID (gs_world s) of
        Inl err \<Rightarrow> (Some (Wrap ''resolve client: '' err []), s)
      | Inr client \<Rightarrow>
          (case gc_DeviceJID client of
             None \<Rightarrow> (Some (Err EText ''device jid is nil after pair success''), s)
           | Some jid \<Rightarrow>
               (let stored = jid_string (ge_lib (pe_gw env)) jid
                in case on_registry env (\<lambda>fail now. Save fail channelID stored tenantID) s of
                     (Some err, s1) \<Rightarrow> (Some err, s1)
                   | (None, s1) \<Rightarrow> (None, gw_note (SessionSaved channelID stored tenantID) s1))))"

definition endEmptyImport ::
  "('n, 'w) pair_env \<Rightarrow> PairCommand \<Rightarrow> ('n, 'w) gateway_state \<Rightarrow> goerr option \<times> ('n, 'w) gateway_state" where
  "endEmptyImport env cmd s =
     (case gw_publish (pe_gw env)
        (PublishHistoryDone \<lparr>hd_kind = [], hd_tenantID = pc_tenantID cmd, hd_channelID = pc_channelID cmd,
           hd_importID = pc_importID cmd, hd_source = [], hd_totalBatches = 0, hd_skippedChats = 0\<rparr>) s of
        (Some err, s1) \<Rightarrow>
          (Some (Wrap (''gateway: publish the empty history import end of '' @ pc_channelID cmd @ '': '') err []), s1)
      | (None, s1) \<Rightarrow> on_registry env (\<lambda>fail now. FinishHistoryImport fail now (pc_channelID cmd) (pc_importID cmd)) s1)"

definition attachCalls :: "('n, 'w) pair_env \<Rightarrow> string \<Rightarrow> ('n, 'w) gateway_state \<Rightarrow> ('n, 'w) gateway_state" where
  "attachCalls env channelID s =
     (case waClientFor (pe_gw env) channelID (gs_world s) of
        Inl err \<Rightarrow> s
      | Inr client \<Rightarrow> if gc_HasCaller client then gw_note (CallsAttached channelID) s else s)"

definition connected_status :: "PairCommand \<Rightarrow> string \<times> string \<times> Picture option \<Rightarrow> ChannelStatusEvent" where
  "connected_status cmd identity =
     (case identity of (phone, name, pic) \<Rightarrow>
        \<lparr>cs_tenantID = pc_tenantID cmd, cs_userID = pc_userID cmd, cs_channelID = pc_channelID cmd,
         cs_status = ''connected'', cs_reason = [], cs_phoneNumber = phone, cs_displayName = name, cs_profilePicture = pic\<rparr>)"

text \<open>The case \<open>update.Connected\<close> of \<open>followPairing\<close>.\<close>

definition pairing_connected ::
  "('n, 'w) pair_env \<Rightarrow> PairCommand \<Rightarrow> bool \<Rightarrow> ('n, 'w) gateway_state \<Rightarrow> goerr option \<times> ('n, 'w) gateway_state" where
  "pairing_connected env cmd fresh s =
     (case persistSession env (pc_channelID cmd) (pc_tenantID cmd) s of
        (Some err, s1) \<Rightarrow>
          (Some (Wrap (''gateway: persist session '' @ pc_channelID cmd @ '': '') err []),
           publishChannelFailure env (pc_tenantID cmd) (pc_userID cmd) (pc_channelID cmd) pairingFailedReason s1)
      | (None, s1) \<Rightarrow>
          (let s2 = (if ImportsHistory cmd \<and> \<not> fresh then snd (endEmptyImport env cmd s1) else s1);
               s3 = attachCalls env (pc_channelID cmd) s2
           in case connectedIdentity (pe_gw env) (pc_channelID cmd) s3 of
                (identity, s4) \<Rightarrow>
                  (case gw_publish (pe_gw env) (ChannelStatus (connected_status cmd identity)) s4 of
                     (Some err, s5) \<Rightarrow> (Some (Wrap ''gateway: publish channel.status connected: '' err []), s5)
                   | (None, s5) \<Rightarrow> (None, s5))))"

definition qr_event :: "PairCommand \<Rightarrow> string \<Rightarrow> string \<Rightarrow> ChannelQREvent" where
  "qr_event cmd qr code =
     \<lparr>qr_tenantID = pc_tenantID cmd, qr_userID = pc_userID cmd, qr_channelID = pc_channelID cmd,
      qr_qr = qr, qr_pairingCode = code\<rparr>"

text \<open>Receives from the channel of updates until it is closed, or until the first failure.\<close>

fun followPairing ::
  "('n, 'w) pair_env \<Rightarrow> PairCommand \<Rightarrow> bool \<Rightarrow> 'w pair_updates \<Rightarrow> ('n, 'w) gateway_state \<Rightarrow>
   goerr option \<times> ('n, 'w) gateway_state" where
  "followPairing env cmd fresh [] s = (None, s)"
| "followPairing env cmd fresh (receive # rest) s =
     (case gs_call receive s of (update, s1) \<Rightarrow>
        (case pu_Err update of
           Some err \<Rightarrow>
             (Some (Wrap (''gateway: pair channel '' @ pc_channelID cmd @ '': '') err []),
              publishChannelFailure env (pc_tenantID cmd) (pc_userID cmd) (pc_channelID cmd)
                (pairingFailureReason err (PairsByCode cmd)) s1)
         | None \<Rightarrow>
             if pu_Connected update then
               (case pairing_connected env cmd fresh s1 of
                  (Some err, s2) \<Rightarrow> (Some err, s2)
                | (None, s2) \<Rightarrow> followPairing env cmd fresh rest s2)
             else if pu_QR update \<noteq> [] then
               (case gw_publish (pe_gw env) (ChannelQR (qr_event cmd (pu_QR update) [])) s1 of
                  (Some err, s2) \<Rightarrow> (Some (Wrap ''gateway: publish channel.qr: '' err []), s2)
                | (None, s2) \<Rightarrow> followPairing env cmd True rest s2)
             else if pu_Code update \<noteq> [] then
               (case gw_publish (pe_gw env) (ChannelQR (qr_event cmd [] (pu_Code update))) s1 of
                  (Some err, s2) \<Rightarrow> (Some (Wrap ''gateway: publish channel.qr pairing code: '' err []), s2)
                | (None, s2) \<Rightarrow> followPairing env cmd True rest s2)
             else followPairing env cmd fresh rest s1))"

text \<open>The number of calls of \<open>accept\<close>, the error, and the state (the contract of theory Delivery).\<close>

definition PairHandler ::
  "('n, 'w) pair_env \<Rightarrow> PairCommand \<Rightarrow> ('n, 'w) gateway_state \<Rightarrow> nat \<times> goerr option \<times> ('n, 'w) gateway_state" where
  "PairHandler env cmd s =
     (let s0 = s\<lparr>gs_core := setTenant (pc_channelID cmd) (pc_tenantID cmd) (gs_core s),
                 gs_gone := filter (\<lambda>c. c \<noteq> pc_channelID cmd) (gs_gone s)\<rparr>
      in case recordHistoryChoice env cmd s0 of
           (Some err, s1) \<Rightarrow>
             (0, Some err, publishChannelError env (pc_tenantID cmd) (pc_userID cmd) (pc_channelID cmd) err s1)
         | (None, s1) \<Rightarrow>
             (case pair env cmd s1 of
                (Inl err, s2) \<Rightarrow>
                  if err_is err ESlotBusy
                  then (0, None, publishChannelFailure env (pc_tenantID cmd) (pc_userID cmd) (pc_channelID cmd)
                          (pairingBusyReason (ImportsHistory cmd)) s2)
                  else (0, Some (Wrap (''gateway: pair channel '' @ pc_channelID cmd @ '': '') err []),
                        publishChannelError env (pc_tenantID cmd) (pc_userID cmd) (pc_channelID cmd) err s2)
              | (Inr updates, s2) \<Rightarrow> (1, None, snd (followPairing env cmd False updates (gw_note PairAccepted s2)))))"

definition forgetUnlinkedDevice :: "('n, 'w) pair_env \<Rightarrow> string \<Rightarrow> ('n, 'w) gateway_state \<Rightarrow> ('n, 'w) gateway_state" where
  "forgetUnlinkedDevice env channelID s = snd (on_registry env (\<lambda>fail now. ForgetDevice fail channelID) s)"

section \<open>Sessions on demand\<close>

definition ensureChannelConnected ::
  "('n, 'w) pair_env \<Rightarrow> string \<Rightarrow> ('n, 'w) gateway_state \<Rightarrow> goerr option \<times> ('n, 'w) gateway_state" where
  "ensureChannelConnected env channelID s =
     (case gs_call (pe_EnsureConnected env channelID) s of
        (None, s1) \<Rightarrow> (None, s1)
      | (Some err, s1) \<Rightarrow>
          if \<not> err_is err ENoSession then (Some err, s1)
          else
            (case gs_call (ge_db (pe_gw env)) s1 of (fail, s2) \<Rightarrow>
               (case Get fail (now_of s2) channelID (reg (gs_core s2)) of
                  Inl e \<Rightarrow> (Some (Wrap (''gateway: lookup stored session '' @ channelID @ '': '') e []), s2)
                | Inr None \<Rightarrow> (Some (Wrap (''gateway: channel '' @ channelID @ '' is not paired: '') err []), s2)
                | Inr (Some cs) \<Rightarrow>
                    (case parse_jid (ge_lib (pe_gw env)) (cs_jid cs) of
                       Inl e \<Rightarrow> (Some (Wrap (''gateway: parse stored jid for '' @ channelID @ '': '') e []), s2)
                     | Inr jid \<Rightarrow>
                         (let core = setTenant channelID (cs_tenant cs) (gs_core s2);
                              s3 = s2\<lparr>gs_core := core\<lparr>settings := Map_Set channelID (cs_settings cs) (settings core)\<rparr>\<rparr>
                          in case gs_call (pe_Resume env channelID jid (cs_importingHistory cs)) s3 of
                               (Some e, s4) \<Rightarrow> (Some e, s4)
                             | (None, s4) \<Rightarrow> gs_call (pe_EnsureConnected env channelID) (attachCalls env channelID s4))))))"

definition CallHandler ::
  "('n, 'w) pair_env \<Rightarrow> GatewayCallCommand \<Rightarrow> ('n, 'w) gateway_state \<Rightarrow> goerr option \<times> ('n, 'w) gateway_state" where
  "CallHandler env cmd s =
     (let s0 = s\<lparr>gs_core := setTenant (cc_channelID cmd) (cc_tenantID cmd) (gs_core s)\<rparr>
      in case ensureChannelConnected env (cc_channelID cmd) s0 of
           (Some err, s1) \<Rightarrow> (Some (Wrap (''gateway: ensure connected '' @ cc_channelID cmd @ '': '') err []), s1)
         | (None, s1) \<Rightarrow>
             (case waClientFor (pe_gw env) (cc_channelID cmd) (gs_world s1) of
                Inl err \<Rightarrow> (Some (Wrap (''gateway: resolve client '' @ cc_channelID cmd @ '': '') err []), s1)
              | Inr client \<Rightarrow> gs_call (pe_Dispatch env client cmd) s1))"

section \<open>The protocol of a pairing\<close>

text \<open>
  The contract that the other side of the broker relies on, as an automaton over what the handler
  does. It starts \<open>Idle\<close>; \<open>Open fresh\<close> after the command was accepted, with \<open>fresh\<close> when a code was
  published; \<open>Stored ending fresh\<close> when the session is in the registry and the connection not yet
  reported, with \<open>ending\<close> while the end of an empty history import is due; \<open>Over\<close> after a failure.
\<close>

datatype pair_phase = Idle | Open bool | Stored bool bool | Over

definition for_command :: "PairCommand \<Rightarrow> string \<Rightarrow> ChannelStatusEvent \<Rightarrow> bool" where
  "for_command cmd status v =
     (cs_tenantID v = pc_tenantID cmd \<and> cs_userID v = pc_userID cmd \<and> cs_channelID v = pc_channelID cmd \<and> cs_status v = status)"

fun code_for :: "PairCommand \<Rightarrow> gw_event \<Rightarrow> bool" where
  "code_for cmd (ChannelQR v) =
     (qr_tenantID v = pc_tenantID cmd \<and> qr_userID v = pc_userID cmd \<and> qr_channelID v = pc_channelID cmd \<and>
      (qr_qr v = []) \<noteq> (qr_pairingCode v = []))"
| "code_for cmd e = False"

fun status_of :: "PairCommand \<Rightarrow> string \<Rightarrow> gw_event \<Rightarrow> bool" where
  "status_of cmd status (ChannelStatus v) = for_command cmd status v"
| "status_of cmd status e = False"

fun end_of_import :: "PairCommand \<Rightarrow> gw_event \<Rightarrow> bool" where
  "end_of_import cmd (PublishHistoryDone v) =
     (hd_tenantID v = pc_tenantID cmd \<and> hd_channelID v = pc_channelID cmd \<and> hd_importID v = pc_importID cmd)"
| "end_of_import cmd e = False"

definition protocol_step :: "PairCommand \<Rightarrow> pair_phase \<Rightarrow> 'n gw_act \<Rightarrow> pair_phase option" where
  "protocol_step cmd ph a =
     (case a of
        PairAccepted \<Rightarrow> if ph = Idle then Some (Open False) else None
      | SessionSaved c jid t \<Rightarrow>
          (case ph of
             Open fresh \<Rightarrow>
               if c = pc_channelID cmd \<and> t = pc_tenantID cmd then Some (Stored (ImportsHistory cmd \<and> \<not> fresh) fresh) else None
           | _ \<Rightarrow> None)
      | CallsAttached c \<Rightarrow>
          (case ph of Stored ending fresh \<Rightarrow> if \<not> ending \<and> c = pc_channelID cmd then Some ph else None | _ \<Rightarrow> None)
      | Published e ok \<Rightarrow>
          (case ph of
             Idle \<Rightarrow> if status_of cmd ''error'' e then Some Over else None
           | Open fresh \<Rightarrow>
               if status_of cmd ''error'' e then Some Over
               else if code_for cmd e then Some (if ok then Open True else Over) else None
           | Stored ending fresh \<Rightarrow>
               if ending then (if end_of_import cmd e then Some (Stored False fresh) else None)
               else if status_of cmd ''connected'' e then Some (if ok then Open fresh else Over) else None
           | Over \<Rightarrow> None)
      | _ \<Rightarrow> None)"

fun protocol_run :: "PairCommand \<Rightarrow> pair_phase \<Rightarrow> 'n gw_act list \<Rightarrow> pair_phase option" where
  "protocol_run cmd ph [] = Some ph"
| "protocol_run cmd ph (a # as) = Option.bind (protocol_step cmd ph a) (\<lambda>ph1. protocol_run cmd ph1 as)"

lemma protocol_run_append:
  "protocol_run cmd ph (xs @ ys) = Option.bind (protocol_run cmd ph xs) (\<lambda>ph1. protocol_run cmd ph1 ys)"
  by (induction xs arbitrary: ph) (auto split: bind_splits)

lemma status_names:
  "protocol_step cmd ph (Published (ChannelStatus v) ok) = Some ph' \<Longrightarrow>
   cs_tenantID v = pc_tenantID cmd \<and> cs_channelID v = pc_channelID cmd"
  by (cases ph) (auto simp: protocol_step_def for_command_def split: if_splits)

text \<open>The connection is only reported after the session was stored.\<close>

lemma connected_after_stored:
  fixes pre :: "'n gw_act list"
  assumes "protocol_run cmd ph (pre @ Published (ChannelStatus v) ok # post) = Some ph'" "cs_status v = ''connected''"
    and "\<forall>ending fresh. ph \<noteq> Stored ending fresh"
  shows "\<exists>jid. SessionSaved (pc_channelID cmd) jid (pc_tenantID cmd) \<in> set pre"
proof -
  have stored: "\<exists>jid. SessionSaved (pc_channelID cmd) jid (pc_tenantID cmd) \<in> set as"
    if "protocol_run cmd q as = Some (Stored ending fresh)" "\<forall>e f. q \<noteq> Stored e f" for q ending fresh and as :: "'n gw_act list"
    using that
  proof (induction as arbitrary: q)
    case (Cons a as)
    then show ?case
      by (auto simp: protocol_step_def split: bind_splits gw_act.splits pair_phase.splits if_splits)
  qed simp
  have "\<exists>q. protocol_run cmd ph pre = Some q \<and> (\<exists>y. protocol_step cmd q (Published (ChannelStatus v) ok :: 'n gw_act) = Some y)"
    using assms(1) by (auto simp: protocol_run_append bind_eq_Some_conv)
  then obtain q where q: "protocol_run cmd ph pre = Some q" and step: "protocol_step cmd q (Published (ChannelStatus v) ok :: 'n gw_act) \<noteq> None"
    by auto
  have "\<exists>ending fresh. q = Stored ending fresh"
    using step assms(2) by (auto simp: protocol_step_def for_command_def split: pair_phase.splits if_splits)
  then show ?thesis using stored q assms(3) by blast
qed

section \<open>The handler keeps to the protocol\<close>

definition follows :: "PairCommand \<Rightarrow> pair_phase \<Rightarrow> ('n, 'w) gateway_state \<Rightarrow> ('n, 'w) gateway_state \<Rightarrow> pair_phase \<Rightarrow> bool" where
  "follows cmd ph s s' ph' \<longleftrightarrow> (\<exists>new. gs_log s' = gs_log s @ new \<and> protocol_run cmd ph new = Some ph')"

lemma follows_same: "gs_log s' = gs_log s \<Longrightarrow> follows cmd ph s s' ph"
  by (simp add: follows_def)

lemma follows_trans [trans]: "follows cmd ph s s1 ph1 \<Longrightarrow> follows cmd ph1 s1 s2 ph2 \<Longrightarrow> follows cmd ph s s2 ph2"
  by (fastforce simp: follows_def protocol_run_append)

lemma follows_note: "protocol_step cmd ph a = Some ph' \<Longrightarrow> follows cmd ph s (gw_note a s) ph'"
  by (auto simp: follows_def gw_note_def intro!: exI [of _ "[a]"])

lemma log_call: "gs_call f s = (a, s') \<Longrightarrow> gs_log s' = gs_log s"
  by (auto simp: gs_call_def split: prod.splits)

lemma core_call: "gs_call f s = (a, s') \<Longrightarrow> gs_core s' = gs_core s"
  by (auto simp: gs_call_def split: prod.splits)

lemma snd_call [simp]: "gs_log (snd (gs_call f s)) = gs_log s" "gs_core (snd (gs_call f s)) = gs_core s"
  by (auto simp: gs_call_def split: prod.split)

lemma gw_publish_log:
  "gw_publish env e s = (err, s') \<Longrightarrow> gs_log s' = gs_log s @ [Published e (err = None)] \<and> gs_core s' = gs_core s"
  by (auto simp: gw_publish_def gw_note_def gs_call_def split: prod.splits)

lemma follows_publish:
  assumes "gw_publish env e s = (err, s')" "protocol_step cmd ph (Published e (err = None) :: 'n gw_act) = Some ph'"
  shows "follows cmd ph s (s' :: ('n, 'w) gateway_state) ph'"
  using gw_publish_log [OF assms(1)] assms(2) by (auto simp: follows_def)

lemma log_registry: "on_registry env stmt s = (err, s') \<Longrightarrow> gs_log s' = gs_log s"
  by (auto simp: on_registry_def split: prod.splits dest: log_call)

lemma log_registry' [simp]: "gs_log (snd (on_registry env stmt s)) = gs_log s"
  using log_registry by (metis prod.collapse)

lemma follows_failure:
  assumes "ph = Idle \<or> (\<exists>fresh. ph = Open fresh)"
  shows "follows cmd ph s (publishChannelFailure env (pc_tenantID cmd) (pc_userID cmd) (pc_channelID cmd) reason s) Over"
proof -
  obtain err s' where p: "gw_publish (pe_gw env)
    (ChannelStatus (failure_status (pc_tenantID cmd) (pc_userID cmd) (pc_channelID cmd) reason)) s = (err, s')" by fastforce
  show ?thesis unfolding publishChannelFailure_def p
    using follows_publish [OF p, of cmd ph Over] assms
    by (auto simp: protocol_step_def for_command_def failure_status_def status_event_def)
qed

lemma log_identity: "connectedIdentity env channelID s = (i, s') \<Longrightarrow> gs_log s' = gs_log s"
  by (auto simp: connectedIdentity_def split: sum.splits option.splits prod.splits)

lemma follows_attach:
  "follows cmd (Stored False fresh) s (attachCalls env (pc_channelID cmd) s) (Stored False fresh)"
  by (auto simp: attachCalls_def protocol_step_def follows_same split: sum.split intro!: follows_note)

lemma follows_connected:
  assumes "pairing_connected env cmd fresh s = (err, s')"
  shows "follows cmd (Open fresh) s s' (if err = None then Open fresh else Over)"
proof -
  obtain e1 s1 where p: "persistSession env (pc_channelID cmd) (pc_tenantID cmd) s = (e1, s1)" by fastforce
  show ?thesis
  proof (cases e1)
    case (Some e)
    then have "gs_log s1 = gs_log s"
      using p by (auto simp: persistSession_def Let_def split: sum.splits option.splits prod.splits dest: log_registry)
    from follows_same [OF this] follows_failure [of "Open fresh" cmd s1 env pairingFailedReason]
    have "follows cmd (Open fresh) s (publishChannelFailure env (pc_tenantID cmd) (pc_userID cmd) (pc_channelID cmd)
      pairingFailedReason s1) Over" using follows_trans by blast
    then show ?thesis using assms p Some by (auto simp: pairing_connected_def)
  next
    case None
    let ?ending = "ImportsHistory cmd \<and> \<not> fresh"
    have stored: "follows cmd (Open fresh) s s1 (Stored ?ending fresh)"
      using p None by (auto simp: persistSession_def Let_def split: sum.splits option.splits prod.splits
          intro!: follows_trans [OF follows_same [OF log_registry] follows_note] simp: protocol_step_def)
    define s2 where "s2 = (if ?ending then snd (endEmptyImport env cmd s1) else s1)"
    have "follows cmd (Stored ?ending fresh) s1 s2 (Stored False fresh)"
    proof (cases ?ending)
      case True
      obtain e t where pub: "gw_publish (pe_gw env)
        (PublishHistoryDone \<lparr>hd_kind = [], hd_tenantID = pc_tenantID cmd, hd_channelID = pc_channelID cmd,
           hd_importID = pc_importID cmd, hd_source = [], hd_totalBatches = 0, hd_skippedChats = 0\<rparr>) s1 = (e, t)" by fastforce
      have "follows cmd (Stored True fresh) s1 t (Stored False fresh)"
        by (rule follows_publish [OF pub]) (simp add: protocol_step_def)
      moreover have "gs_log s2 = gs_log t"
        using True pub
        by (cases e) (auto simp: s2_def endEmptyImport_def split: prod.split)
      ultimately show ?thesis using True follows_trans [OF _ follows_same] by simp
    next
      case False
      then have "?ending = False" by simp
      moreover from this have "s2 = s1" unfolding s2_def by (simp only: if_False)
      ultimately show ?thesis by (simp only:) (simp add: follows_same)
    qed
    also have "follows cmd (Stored False fresh) s2 (attachCalls env (pc_channelID cmd) s2) (Stored False fresh)"
      by (rule follows_attach)
    finally have attached: "follows cmd (Open fresh) s (attachCalls env (pc_channelID cmd) s2) (Stored False fresh)"
      using follows_trans [OF stored] by blast
    obtain identity s4 where id: "connectedIdentity (pe_gw env) (pc_channelID cmd) (attachCalls env (pc_channelID cmd) s2) = (identity, s4)"
      by fastforce
    obtain e5 s5 where pub: "gw_publish (pe_gw env) (ChannelStatus (connected_status cmd identity)) s4 = (e5, s5)" by fastforce
    have "follows cmd (Stored False fresh) s4 s5 (if e5 = None then Open fresh else Over)"
      by (rule follows_publish [OF pub]) (simp add: protocol_step_def connected_status_def for_command_def split: prod.split)
    then have "follows cmd (Open fresh) s s5 (if e5 = None then Open fresh else Over)"
      using follows_trans [OF attached] follows_trans [OF follows_same [OF log_identity [OF id]]] by blast
    moreover have "s' = s5 \<and> (err = None \<longleftrightarrow> e5 = None)"
      using assms p None id pub by (auto simp: pairing_connected_def s2_def Let_def split: option.splits if_splits)
    ultimately show ?thesis by simp
  qed
qed

lemma follows_code:
  assumes "gw_publish (pe_gw env) (ChannelQR (qr_event cmd qr code)) s = (err, s')" "(qr = []) \<noteq> (code = [])"
  shows "follows cmd (Open fresh) s s' (if err = None then Open True else Over)"
  using assms(2) by (intro follows_publish [OF assms(1)]) (auto simp: protocol_step_def qr_event_def)

lemma follows_pairing:
  "followPairing env cmd fresh updates s = (err, s') \<Longrightarrow>
   \<exists>ph. follows cmd (Open fresh) s s' ph \<and> (if err = None then \<exists>fresh'. ph = Open fresh' else ph = Over)"
proof (induction env cmd fresh updates s rule: followPairing.induct)
  case (1 env cmd fresh s)
  then show ?case by (auto intro: follows_same)
next
  case (2 env cmd fresh receive rest s)
  obtain u s1 where u: "gs_call receive s = (u, s1)" by fastforce
  have start: "follows cmd (Open fresh) s s1 (Open fresh)" by (rule follows_same [OF log_call [OF u]])
  consider (err) e where "pu_Err u = Some e" | (conn) "pu_Err u = None" "pu_Connected u"
    | (qr) "pu_Err u = None" "\<not> pu_Connected u" "pu_QR u \<noteq> []"
    | (code) "pu_Err u = None" "\<not> pu_Connected u" "pu_QR u = []" "pu_Code u \<noteq> []"
    | (none) "pu_Err u = None" "\<not> pu_Connected u" "pu_QR u = []" "pu_Code u = []" by blast
  then show ?case
  proof cases
    case (err e)
    then show ?thesis using "2.prems" u follows_trans [OF start follows_failure] by auto
  next
    case conn
    obtain e2 s2 where c: "pairing_connected env cmd fresh s1 = (e2, s2)" by fastforce
    have f: "follows cmd (Open fresh) s s2 (if e2 = None then Open fresh else Over)"
      using follows_trans [OF start follows_connected [OF c]] .
    show ?thesis
    proof (cases e2)
      case None
      have "followPairing env cmd fresh rest s2 = (err, s')" using "2.prems" u conn c None by simp
      from "2.IH"(1) [OF u [symmetric] conn(1) conn(2) c [symmetric] None this] show ?thesis
        using follows_trans [OF f [unfolded None, simplified]] by blast
    qed (use "2.prems" u conn c f in auto)
  next
    case qr
    obtain e2 s2 where c: "gw_publish (pe_gw env) (ChannelQR (qr_event cmd (pu_QR u) [])) s1 = (e2, s2)" by fastforce
    have f: "follows cmd (Open fresh) s s2 (if e2 = None then Open True else Over)"
      using follows_trans [OF start follows_code [OF c]] qr by simp
    show ?thesis
    proof (cases e2)
      case None
      have "followPairing env cmd True rest s2 = (err, s')" using "2.prems" u qr c None by simp
      from "2.IH"(2) [OF u [symmetric] qr(1) qr(2) qr(3) c [symmetric] None this] show ?thesis
        using follows_trans [OF f [unfolded None, simplified]] by blast
    qed (use "2.prems" u qr c f in auto)
  next
    case code
    obtain e2 s2 where c: "gw_publish (pe_gw env) (ChannelQR (qr_event cmd [] (pu_Code u))) s1 = (e2, s2)" by fastforce
    have f: "follows cmd (Open fresh) s s2 (if e2 = None then Open True else Over)"
      using follows_trans [OF start follows_code [OF c]] code by simp
    have nq: "\<not> pu_QR u \<noteq> []" using code by simp
    show ?thesis
    proof (cases e2)
      case None
      have "followPairing env cmd True rest s2 = (err, s')" using "2.prems" u code c None by simp
      from "2.IH"(3) [OF u [symmetric] code(1) code(2) nq code(4) c [symmetric] None this] show ?thesis
        using follows_trans [OF f [unfolded None, simplified]] by blast
    qed (use "2.prems" u code c f in auto)
  next
    case none
    have n: "\<not> pu_QR u \<noteq> []" "\<not> pu_Code u \<noteq> []" using none by simp_all
    have "followPairing env cmd fresh rest s1 = (err, s')" using "2.prems" u none by simp
    from "2.IH"(4) [OF u [symmetric] none(1) none(2) n this] show ?thesis
      using follows_trans [OF start] by blast
  qed
qed

section \<open>What a pairing does to the registry\<close>

text \<open>The rows of the other channels stay; once a row of the channel was stored for its tenant it stays too.\<close>

definition keeps_rows :: "PairCommand \<Rightarrow> ('n, 'w) gateway_state \<Rightarrow> ('n, 'w) gateway_state \<Rightarrow> bool" where
  "keeps_rows cmd s s' \<longleftrightarrow>
     (\<forall>c. c \<noteq> pc_channelID cmd \<longrightarrow> sessions (reg (gs_core s')) c = sessions (reg (gs_core s)) c) \<and>
     tenants (gs_core s') = tenants (gs_core s) \<and>
     (\<exists>new. gs_log s' = gs_log s @ new \<and>
        ((\<exists>c jid t. SessionSaved c jid t \<in> set new) \<longrightarrow>
           (\<exists>row. sessions (reg (gs_core s')) (pc_channelID cmd) = Some row \<and> sr_tenant row = pc_tenantID cmd)) \<and>
        ((\<forall>c jid t. SessionSaved c jid t \<notin> set new) \<longrightarrow>
           sessions (reg (gs_core s')) (pc_channelID cmd) = sessions (reg (gs_core s)) (pc_channelID cmd)))"

lemma keeps_rows_same:
  "gs_log s' = gs_log s @ new \<Longrightarrow> \<forall>c jid t. SessionSaved c jid t \<notin> set new \<Longrightarrow>
   sessions (reg (gs_core s')) = sessions (reg (gs_core s)) \<Longrightarrow> tenants (gs_core s') = tenants (gs_core s) \<Longrightarrow> keeps_rows cmd s s'"
  by (auto simp: keeps_rows_def)

lemma keeps_rows_trans [trans]:
  assumes "keeps_rows cmd s s1" "keeps_rows cmd s1 s2"
  shows "keeps_rows cmd s s2"
proof -
  obtain new1 where new1: "gs_log s1 = gs_log s @ new1"
    "(\<exists>c jid t. SessionSaved c jid t \<in> set new1) \<longrightarrow>
       (\<exists>row. sessions (reg (gs_core s1)) (pc_channelID cmd) = Some row \<and> sr_tenant row = pc_tenantID cmd)"
    "(\<forall>c jid t. SessionSaved c jid t \<notin> set new1) \<longrightarrow>
       sessions (reg (gs_core s1)) (pc_channelID cmd) = sessions (reg (gs_core s)) (pc_channelID cmd)"
    using assms(1) unfolding keeps_rows_def by blast
  obtain new2 where new2: "gs_log s2 = gs_log s1 @ new2"
    "(\<exists>c jid t. SessionSaved c jid t \<in> set new2) \<longrightarrow>
       (\<exists>row. sessions (reg (gs_core s2)) (pc_channelID cmd) = Some row \<and> sr_tenant row = pc_tenantID cmd)"
    "(\<forall>c jid t. SessionSaved c jid t \<notin> set new2) \<longrightarrow>
       sessions (reg (gs_core s2)) (pc_channelID cmd) = sessions (reg (gs_core s1)) (pc_channelID cmd)"
    using assms(2) unfolding keeps_rows_def by blast
  have "gs_log s2 = gs_log s @ (new1 @ new2)" by (simp add: new1(1) new2(1))
  moreover have "(\<exists>c jid t. SessionSaved c jid t \<in> set (new1 @ new2)) \<longrightarrow>
       (\<exists>row. sessions (reg (gs_core s2)) (pc_channelID cmd) = Some row \<and> sr_tenant row = pc_tenantID cmd)"
    using new1(2) new2(2, 3) by (metis Un_iff set_append)
  moreover have "(\<forall>c jid t. SessionSaved c jid t \<notin> set (new1 @ new2)) \<longrightarrow>
       sessions (reg (gs_core s2)) (pc_channelID cmd) = sessions (reg (gs_core s)) (pc_channelID cmd)"
    using new1(3) new2(3) by simp
  ultimately show ?thesis using assms unfolding keeps_rows_def by (metis (no_types, lifting))
qed

lemma keeps_rows_call: "gs_call f s = (a, s') \<Longrightarrow> keeps_rows cmd s s'"
  by (rule keeps_rows_same [of _ _ "[]"]) (simp_all add: log_call core_call)

lemma keeps_rows_publish: "gw_publish env e s = (err, s') \<Longrightarrow> keeps_rows cmd s s'"
  by (rule keeps_rows_same [of _ _ "[Published e (err = None)]"]) (auto dest: gw_publish_log)

lemma keeps_rows_failure: "keeps_rows cmd s (publishChannelFailure env tenantID userID channelID reason s)"
  unfolding publishChannelFailure_def by (rule keeps_rows_publish [OF prod.collapse [symmetric]])

lemma keeps_rows_finish:
  "keeps_rows cmd s (snd (on_registry env (\<lambda>fail now. FinishHistoryImport fail now c i) s))"
  by (rule keeps_rows_same [of _ _ "[]"])
    (auto simp: on_registry_def FinishHistoryImport_def split: prod.split option.split if_splits dest: core_call log_call)

lemma keeps_rows_end: "keeps_rows cmd s (snd (endEmptyImport env cmd s))"
proof -
  obtain e t where pub: "gw_publish (pe_gw env)
        (PublishHistoryDone \<lparr>hd_kind = [], hd_tenantID = pc_tenantID cmd, hd_channelID = pc_channelID cmd,
           hd_importID = pc_importID cmd, hd_source = [], hd_totalBatches = 0, hd_skippedChats = 0\<rparr>) s = (e, t)" by fastforce
  show ?thesis
    using keeps_rows_publish [OF pub, of cmd] keeps_rows_trans [OF _ keeps_rows_finish]
    by (cases e) (auto simp: endEmptyImport_def pub)
qed

lemma keeps_rows_attach: "keeps_rows cmd s (attachCalls env channelID s)"
  by (rule keeps_rows_same [of _ _ "if gs_log (attachCalls env channelID s) = gs_log s then [] else [CallsAttached channelID]"])
    (auto simp: attachCalls_def gw_note_def split: sum.split)

lemma keeps_rows_identity: "connectedIdentity env channelID s = (i, s') \<Longrightarrow> keeps_rows cmd s s'"
  by (rule keeps_rows_same [of _ _ "[]"])
    (auto simp: connectedIdentity_def split: sum.splits option.splits prod.splits)

lemma keeps_rows_persist:
  assumes "persistSession env (pc_channelID cmd) (pc_tenantID cmd) s = (err, s')"
  shows "keeps_rows cmd s s'"
proof (cases "\<exists>client jid. waClientFor (pe_gw env) (pc_channelID cmd) (gs_world s) = Inr client \<and> gc_DeviceJID client = Some jid")
  case True
  then obtain client jid where c: "waClientFor (pe_gw env) (pc_channelID cmd) (gs_world s) = Inr client"
    "gc_DeviceJID client = Some jid" by blast
  obtain fail s1 where db: "gs_call (ge_db (pe_gw env)) s = (fail, s1)" by fastforce
  show ?thesis
    using assms c db log_call [OF db] core_call [OF db]
    by (cases fail)
      (auto simp: persistSession_def on_registry_def Save_def Let_def keeps_rows_def gw_note_def split: option.splits)
next
  case False
  then show ?thesis using assms keeps_rows_same [of s s "[]"]
    by (auto simp: persistSession_def split: sum.splits option.splits)
qed

lemma keeps_rows_connected:
  assumes "pairing_connected env cmd fresh s = (err, s')"
  shows "keeps_rows cmd s s'"
proof -
  obtain e1 s1 where p: "persistSession env (pc_channelID cmd) (pc_tenantID cmd) s = (e1, s1)" by fastforce
  note k1 = keeps_rows_persist [OF p]
  show ?thesis
  proof (cases e1)
    case (Some e)
    then show ?thesis using assms p keeps_rows_trans [OF k1 keeps_rows_failure] by (auto simp: pairing_connected_def)
  next
    case None
    define s2 where "s2 = (if ImportsHistory cmd \<and> \<not> fresh then snd (endEmptyImport env cmd s1) else s1)"
    define s3 where "s3 = attachCalls env (pc_channelID cmd) s2"
    obtain identity s4 where id: "connectedIdentity (pe_gw env) (pc_channelID cmd) s3 = (identity, s4)" by fastforce
    obtain e5 s5 where pub: "gw_publish (pe_gw env) (ChannelStatus (connected_status cmd identity)) s4 = (e5, s5)" by fastforce
    have "keeps_rows cmd s1 s2" using keeps_rows_end keeps_rows_same [of s1 s1 "[]"] by (auto simp: s2_def)
    also have "keeps_rows cmd s2 s3" unfolding s3_def by (rule keeps_rows_attach)
    also have "keeps_rows cmd s3 s4" by (rule keeps_rows_identity [OF id])
    also have "keeps_rows cmd s4 s5" by (rule keeps_rows_publish [OF pub])
    finally have "keeps_rows cmd s s5" using keeps_rows_trans [OF k1] by blast
    moreover have "s' = s5"
      using assms p None id pub by (auto simp: pairing_connected_def s2_def s3_def Let_def split: option.splits if_splits)
    ultimately show ?thesis by simp
  qed
qed

lemma keeps_rows_pairing: "keeps_rows cmd s (snd (followPairing env cmd fresh updates s))"
proof (induction env cmd fresh updates s rule: followPairing.induct)
  case (1 env cmd fresh s)
  show ?case by (rule keeps_rows_same [of _ _ "[]"]) simp_all
next
  case (2 env cmd fresh receive rest s)
  obtain u s1 where u: "gs_call receive s = (u, s1)" by fastforce
  note k1 = keeps_rows_call [OF u, of cmd]
  have code: "keeps_rows cmd s (snd (case gw_publish (pe_gw env) e s1 of
      (Some err, s2) \<Rightarrow> (Some (f err), s2) | (None, s2) \<Rightarrow> followPairing env cmd True rest s2))"
    if "\<And>s2. gw_publish (pe_gw env) e s1 = (None, s2) \<Longrightarrow> keeps_rows cmd s2 (snd (followPairing env cmd True rest s2))" for e f
    using that keeps_rows_trans [OF k1 keeps_rows_publish, of "pe_gw env" e] keeps_rows_trans
    by (cases "gw_publish (pe_gw env) e s1"; cases "fst (gw_publish (pe_gw env) e s1)") fastforce+
  have conn: "keeps_rows cmd s (snd (case pairing_connected env cmd fresh s1 of
      (Some err, s2) \<Rightarrow> (Some err, s2) | (None, s2) \<Rightarrow> followPairing env cmd fresh rest s2))"
    if "\<And>s2. pairing_connected env cmd fresh s1 = (None, s2) \<Longrightarrow> keeps_rows cmd s2 (snd (followPairing env cmd fresh rest s2))"
    using that keeps_rows_trans [OF k1 keeps_rows_connected, of env fresh] keeps_rows_trans
    by (cases "pairing_connected env cmd fresh s1"; cases "fst (pairing_connected env cmd fresh s1)") fastforce+
  show ?case
    using "2.IH" [OF u [symmetric]] keeps_rows_trans [OF k1]
    by (auto simp: u keeps_rows_trans [OF k1 keeps_rows_failure] split: option.split intro!: code conn)
qed

section \<open>Properties\<close>

lemma PairHandler_cases:
  assumes "PairHandler env cmd s = (accepts, err, s')"
  obtains s0 reason where "gs_log s0 = gs_log s" "keeps_rows cmd (s\<lparr>gs_core := setTenant (pc_channelID cmd) (pc_tenantID cmd) (gs_core s)\<rparr>) s0"
      "accepts = 0" "s' = publishChannelFailure env (pc_tenantID cmd) (pc_userID cmd) (pc_channelID cmd) reason s0"
    | s0 updates where "gs_log s0 = gs_log s" "keeps_rows cmd (s\<lparr>gs_core := setTenant (pc_channelID cmd) (pc_tenantID cmd) (gs_core s)\<rparr>) s0"
      "accepts = 1" "err = None" "s' = snd (followPairing env cmd False updates (gw_note PairAccepted s0))"
proof -
  define sa where "sa = s\<lparr>gs_core := setTenant (pc_channelID cmd) (pc_tenantID cmd) (gs_core s),
    gs_gone := filter (\<lambda>c. c \<noteq> pc_channelID cmd) (gs_gone s)\<rparr>"
  let ?st = "s\<lparr>gs_core := setTenant (pc_channelID cmd) (pc_tenantID cmd) (gs_core s)\<rparr>"
  obtain e1 s1 where r: "recordHistoryChoice env cmd sa = (e1, s1)" by fastforce
  have log1: "gs_log s1 = gs_log s"
    using r by (auto simp: recordHistoryChoice_def sa_def split: if_splits prod.splits option.splits dest: log_registry)
  have rows1: "sessions (reg (gs_core s1)) = sessions (reg (gs_core ?st)) \<and> tenants (gs_core s1) = tenants (gs_core ?st)"
    using r by (auto simp: recordHistoryChoice_def sa_def on_registry_def ClearHistoryImport_def BeginHistoryImport_def
        split: if_splits prod.splits option.splits dest: core_call)
  obtain res s2 where p: "pair env cmd s1 = (res, s2)" by fastforce
  have log2: "gs_log s2 = gs_log s" and core2: "gs_core s2 = gs_core s1"
    using p log1 by (auto simp: pair_def dest: log_call core_call)
  have k: "keeps_rows cmd ?st s1" "keeps_rows cmd ?st s2"
    using rows1 log1 log2 core2 by (auto intro!: keeps_rows_same [of _ _ "[]"])
  have eq: "PairHandler env cmd s = (case recordHistoryChoice env cmd sa of
           (Some err, s1) \<Rightarrow>
             (0, Some err, publishChannelError env (pc_tenantID cmd) (pc_userID cmd) (pc_channelID cmd) err s1)
         | (None, s1) \<Rightarrow>
             (case pair env cmd s1 of
                (Inl err, s2) \<Rightarrow>
                  if err_is err ESlotBusy
                  then (0, None, publishChannelFailure env (pc_tenantID cmd) (pc_userID cmd) (pc_channelID cmd)
                          (pairingBusyReason (ImportsHistory cmd)) s2)
                  else (0, Some (Wrap (''gateway: pair channel '' @ pc_channelID cmd @ '': '') err []),
                        publishChannelError env (pc_tenantID cmd) (pc_userID cmd) (pc_channelID cmd) err s2)
              | (Inr updates, s2) \<Rightarrow> (1, None, snd (followPairing env cmd False updates (gw_note PairAccepted s2)))))"
    unfolding PairHandler_def sa_def Let_def by (rule refl)
  show thesis
  proof (cases e1)
    case (Some e)
    then show thesis using assms log1 k that(1) [of s1 "err_msg e"] by (simp add: eq r publishChannelError_def)
  next
    case None
    then show thesis
      using assms p log2 k that(1) [of s2 "pairingBusyReason (ImportsHistory cmd)"] that(1) [of s2] that(2) [of s2]
      by (cases res) (auto simp: eq r publishChannelError_def split: if_splits)
  qed
qed

text \<open>
  C4. Handling a pairing command is a run of the pairing protocol: it either reports one error for
  the command and does not accept it, or accepts it first and then follows the updates, publishing
  codes, storing the session before it reports the connection, and nothing at all after an error or
  after a publication of a code or of the connection failed. The delivery of the command is
  settled exactly once: rejected when the handler returned an error, acknowledged otherwise.
\<close>

theorem pairing_follows_protocol:
  assumes "PairHandler env cmd s = (accepts, err, s')"
  shows "\<exists>new ph. gs_log s' = gs_log s @ new \<and> protocol_run cmd Idle new = Some ph \<and>
      ((accepts = 0 \<and> ph = Over \<and> length new = 1) \<or>
       (accepts = 1 \<and> err = None \<and> (ph = Over \<or> (\<exists>fresh. ph = Open fresh)) \<and> new \<noteq> [] \<and> hd new = PairAccepted)) \<and>
      fst (runPairSession (PairHandler env) cmd d s) = [if err = None then Ack (d_tag d) else Nack (d_tag d) False]"
proof -
  have settled: "fst (runPairSession (PairHandler env) cmd d s) = [if err = None then Ack (d_tag d) else Nack (d_tag d) False]"
    if "accepts > 0 \<Longrightarrow> err = None"
    using that by (cases "accepts > 0") (auto simp: runPairSession_settles_once assms)
  from assms show ?thesis
  proof (cases rule: PairHandler_cases)
    case (1 s0 reason)
    have "follows cmd Idle s0 s' Over" unfolding 1(4) by (rule follows_failure) simp
    moreover have "\<exists>ok. gs_log s' = gs_log s0 @ [Published (ChannelStatus (failure_status (pc_tenantID cmd) (pc_userID cmd)
        (pc_channelID cmd) reason)) ok]"
      unfolding 1(4) publishChannelFailure_def using gw_publish_log [OF prod.collapse [symmetric]] by blast
    ultimately show ?thesis using 1 settled by (auto simp: follows_def)
  next
    case (2 s0 updates)
    obtain e s1 where f: "followPairing env cmd False updates (gw_note PairAccepted s0) = (e, s1)" by fastforce
    obtain ph new where new: "gs_log s1 = gs_log s @ PairAccepted # new" "protocol_run cmd (Open False) new = Some ph"
      and ph: "ph = Over \<or> (\<exists>fresh. ph = Open fresh)"
      using follows_pairing [OF f] 2(1) by (auto simp: follows_def gw_note_def split: if_splits)
    have "protocol_run cmd Idle (PairAccepted # new) = Some ph" using new(2) by (simp add: protocol_step_def)
    then show ?thesis using new(1) ph 2 f settled by (intro exI [of _ "PairAccepted # new"] exI [of _ ph]) auto
  qed
qed

text \<open>
  C12. When a pairing command reports that its channel is connected, the session of that channel was
  stored for the tenant of the command before, its row is in the registry of that tenant when the
  handler returns, and the rows of all other channels are as they were; the channel belongs to the
  tenant of the command in the gateway's memory and no other channel changes hands.
\<close>

theorem connected_means_stored:
  assumes "PairHandler env cmd s = (accepts, err, s')"
    and "gs_log s' = gs_log s @ pre @ Published (ChannelStatus v) ok # post" and "cs_status v = ''connected''"
  shows "(\<exists>jid. SessionSaved (pc_channelID cmd) jid (pc_tenantID cmd) \<in> set pre) \<and>
      (\<exists>row. sessions (reg (gs_core s')) (pc_channelID cmd) = Some row \<and> sr_tenant row = pc_tenantID cmd) \<and>
      (\<forall>c. c \<noteq> pc_channelID cmd \<longrightarrow>
         sessions (reg (gs_core s')) c = sessions (reg (gs_core s)) c \<and> tenant_of c s' = tenant_of c s) \<and>
      tenant_of (pc_channelID cmd) s' = pc_tenantID cmd \<and> cs_tenantID v = pc_tenantID cmd \<and> cs_channelID v = pc_channelID cmd"
proof -
  let ?st = "s\<lparr>gs_core := setTenant (pc_channelID cmd) (pc_tenantID cmd) (gs_core s)\<rparr>"
  let ?new = "pre @ Published (ChannelStatus v) ok # post"
  from assms(1) show ?thesis
  proof (cases rule: PairHandler_cases)
    case (1 s0 reason)
    obtain ok' where "gs_log s' = gs_log s @ [Published (ChannelStatus (failure_status (pc_tenantID cmd) (pc_userID cmd)
        (pc_channelID cmd) reason)) ok']"
      using 1 gw_publish_log [OF prod.collapse [symmetric]] unfolding publishChannelFailure_def by metis
    then have "pre @ Published (ChannelStatus v) ok # post = [Published (ChannelStatus (failure_status (pc_tenantID cmd)
        (pc_userID cmd) (pc_channelID cmd) reason)) ok']" using assms(2) by simp
    then have "v = failure_status (pc_tenantID cmd) (pc_userID cmd) (pc_channelID cmd) reason" by (cases pre) auto
    then have False using assms(3) by (simp add: failure_status_def status_event_def)
    then show ?thesis ..
  next
    case (2 s0 updates)
    obtain e s1 where f: "followPairing env cmd False updates (gw_note PairAccepted s0) = (e, s1)" by fastforce
    obtain ph new where new: "gs_log s1 = gs_log s @ PairAccepted # new" "protocol_run cmd (Open False) new = Some ph"
      using follows_pairing [OF f] 2(1) by (auto simp: follows_def gw_note_def split: if_splits)
    have run: "protocol_run cmd Idle ?new = Some ph"
    proof -
      have "?new = PairAccepted # new" using new(1) assms(2) 2(5) f by simp
      then show ?thesis using new(2) by (simp add: protocol_step_def)
    qed
    obtain jid where saved: "SessionSaved (pc_channelID cmd) jid (pc_tenantID cmd) \<in> set pre"
      using connected_after_stored [OF run assms(3)] by auto
    have "keeps_rows cmd ?st s0" by (rule 2(2))
    also have "keeps_rows cmd s0 (gw_note PairAccepted s0)"
      by (rule keeps_rows_same [of _ _ "[PairAccepted]"]) (simp_all add: gw_note_def)
    also have "keeps_rows cmd (gw_note PairAccepted s0) s'" unfolding 2(5) by (rule keeps_rows_pairing)
    finally have k: "keeps_rows cmd ?st s'" .
    have new': "gs_log s' = gs_log ?st @ ?new" using assms(2) by simp
    have row: "\<exists>row. sessions (reg (gs_core s')) (pc_channelID cmd) = Some row \<and> sr_tenant row = pc_tenantID cmd"
      using k saved new' unfolding keeps_rows_def by (metis (no_types, lifting) Un_iff same_append_eq set_append)
    have names: "cs_tenantID v = pc_tenantID cmd \<and> cs_channelID v = pc_channelID cmd"
      using run status_names by (fastforce simp: protocol_run_append bind_eq_Some_conv)
    have others: "\<forall>c. c \<noteq> pc_channelID cmd \<longrightarrow> sessions (reg (gs_core s')) c = sessions (reg (gs_core ?st)) c"
      "tenants (gs_core s') = tenants (gs_core ?st)" using k by (simp_all add: keeps_rows_def)
    show ?thesis
      using saved row names others by (auto simp: setTenant_def tenant_of_def tenantFor_def)
  qed
qed


section \<open>Witnesses\<close>

definition demo_pairing :: "(unit, unit) pair_env" where
  "demo_pairing =
     \<lparr>pe_gw = demo_gateway\<lparr>ge_client := (\<lambda>c u. Inr \<lparr>gc_DeviceJID = Some \<lparr>jid_user = ''55'', jid_server = DefaultUserServer, jid_device = 0\<rparr>,
        gc_DisplayName = ''me'', gc_TakesOverHistory = True, gc_HasCaller = True, gc_PNForLID = (\<lambda>j. Inl (Err EText [])),
        gc_Download = (\<lambda>m u. (Inl (Err EText []), 1, u)), gc_DecryptMessage = (\<lambda>m u. (Inl (Err EText []), 1, u)),
        gc_DecryptVote = (\<lambda>m u. (Inl (Err EText []), 1, u))\<rparr>)\<rparr>,
      pe_Pair = (\<lambda>c h r u. (Inr [\<lambda>u. (no_update\<lparr>pu_QR := ''q''\<rparr>, 1, u), \<lambda>u. (no_update\<lparr>pu_Connected := True\<rparr>, 1, u)], 1, u)),
      pe_PairByCode = (\<lambda>c p h r u. (Inl (Err EInvalidPhoneNumber []), 1, u)),
      pe_EnsureConnected = (\<lambda>c u. (Some (Err ENoSession ''none''), 1, u)),
      pe_Resume = (\<lambda>c j h u. (None, 1, u)), pe_Dispatch = (\<lambda>c d u. (None, 1, u))\<rparr>"

definition demo_pair_command :: PairCommand where
  "demo_pair_command =
     \<lparr>pc_tenantID = ''t'', pc_channelID = ''c'', pc_userID = ''u'', pc_importHistory = False, pc_importID = [],
      pc_relinkDevice = False, pc_phoneNumber = []\<rparr>"

lemma demo_pair_run:
  "\<exists>v s'. PairHandler demo_pairing demo_pair_command demo_gateway_state = (1, None, s') \<and> cs_status v = ''connected'' \<and>
     gs_log s' = gs_log demo_gateway_state @
       [PairAccepted, Published (ChannelQR (qr_event demo_pair_command ''q'' [])) True,
        SessionSaved ''c'' (jid_string demo_lib \<lparr>jid_user = ''55'', jid_server = DefaultUserServer, jid_device = 0\<rparr>) ''t'',
        CallsAttached ''c''] @ Published (ChannelStatus v) True # []"
  by (auto simp: PairHandler_def recordHistoryChoice_def on_registry_def demo_pairing_def demo_gateway_def demo_pair_command_def
        demo_gateway_state_def gs_call_def lift_ext_def call_ext_def ImportsHistory_def PairsByCode_def ClearHistoryImport_def
        pair_def gw_note_def gw_publish_def pairing_connected_def persistSession_def waClientFor_def Let_def Save_def no_update_def
        attachCalls_def connectedIdentity_def connected_status_def split: prod.split)

definition demo_delivery :: delivery where
  "demo_delivery = \<lparr>d_tag = 7, d_headers = Map.empty, d_contentType = [], d_messageId = [], d_timestamp = 0, d_body = []\<rparr>"

lemma pairing_follows_protocol_witness:
  "\<exists>new ph. gs_log (snd (snd (PairHandler demo_pairing demo_pair_command demo_gateway_state))) = gs_log demo_gateway_state @ new \<and>
     protocol_run demo_pair_command Idle new = Some ph \<and> hd new = PairAccepted \<and>
     fst (runPairSession (PairHandler demo_pairing) demo_pair_command demo_delivery demo_gateway_state) = [Ack 7]"
proof -
  obtain v s' where run: "PairHandler demo_pairing demo_pair_command demo_gateway_state = (1, None, s')" using demo_pair_run by blast
  show ?thesis using pairing_follows_protocol [OF run, of demo_delivery] by (auto simp: run demo_delivery_def)
qed

lemma connected_means_stored_witness:
  "\<exists>row. sessions (reg (gs_core (snd (snd (PairHandler demo_pairing demo_pair_command demo_gateway_state))))) ''c'' = Some row \<and>
     sr_tenant row = ''t''"
proof -
  obtain v s' where run: "PairHandler demo_pairing demo_pair_command demo_gateway_state = (1, None, s')"
    and v: "cs_status v = ''connected''"
    and log: "gs_log s' = gs_log demo_gateway_state @
       [PairAccepted, Published (ChannelQR (qr_event demo_pair_command ''q'' [])) True,
        SessionSaved ''c'' (jid_string demo_lib \<lparr>jid_user = ''55'', jid_server = DefaultUserServer, jid_device = 0\<rparr>) ''t'',
        CallsAttached ''c''] @ Published (ChannelStatus v) True # []" using demo_pair_run by blast
  have "pc_channelID demo_pair_command = ''c'' \<and> pc_tenantID demo_pair_command = ''t''" by (simp add: demo_pair_command_def)
  then show ?thesis using connected_means_stored [OF run log v] by (simp add: run)
qed


end
