(* ===== verification/Boot.thy ===== *)
theory Boot
  imports Pairing Ownership
begin

text \<open>
  The life of a gateway instance, \<open>run\<close> of internal/gateway/gateway.go: claiming the shards, resuming
  the stored sessions, starting the consumers, what a failed start undoes, and the order of the
  shutdown. The broker, the importer and the call manager are functions of the world; what the
  handlers do between start and shutdown is an arbitrary step of the gateway and of redis. The
  instance's own log records the steps.
\<close>

section \<open>State\<close>

datatype boot_step = StartPair | StartSend | StartCall | StartSettings | StartGroup | RegisterRpc string
datatype boot_part = ConsumerPart | RpcPart
datatype stop_op = CloseImporter | AbortCalls string | AwaitRecordings | AwaitReplies | DisconnectSessions
datatype stop_cause = Cancelled | ConsumerDied goerr | RpcDied goerr

text \<open>How a drain ended: the close returned, or its deadline passed first.\<close>

datatype drain_end = Drained "goerr option" | Overrun

datatype boot_act =
    Claimed bool
  | Began boot_step bool
  | Closed boot_part drain_end
  | Stopping
  | GroupsCancelled
  | Stopped stop_op
  | Released bool

record ('n, 'w) boot_env =
  bt_pair :: "('n, 'w) pair_env"
  bt_redis :: redis_env
  bt_shards :: int
  bt_instance :: string
  bt_ttl :: int
  bt_order :: "registry \<Rightarrow> string list"
  bt_start :: "boot_step \<Rightarrow> (goerr option, 'w) ext"
  bt_close :: "boot_part \<Rightarrow> (goerr option, 'w) ext"
  bt_stop :: "stop_op \<Rightarrow> (unit, 'w) ext"
  bt_first :: boot_part
  bt_drain :: int
  bt_rpc_drain :: int
  bt_serve :: "('n, 'w) gateway_state \<times> redis \<Rightarrow> stop_cause \<times> ('n, 'w) gateway_state \<times> redis"

record ('n, 'w) boot_state =
  bo_gw :: "('n, 'w) gateway_state"
  bo_redis :: redis
  bo_log :: "boot_act list"

definition bo_note :: "boot_act \<Rightarrow> ('n, 'w) boot_state \<Rightarrow> ('n, 'w) boot_state" where
  "bo_note a s = s\<lparr>bo_log := bo_log s @ [a]\<rparr>"

definition bo_call :: "('a, 'w) ext \<Rightarrow> ('n, 'w) boot_state \<Rightarrow> 'a \<times> ('n, 'w) boot_state" where
  "bo_call f s = (case gs_call f (bo_gw s) of (a, g) \<Rightarrow> (a, s\<lparr>bo_gw := g\<rparr>))"

section \<open>Timeouts\<close>

definition defaultSendTimeout :: int where "defaultSendTimeout = 30 * 1000000000"

definition sendTimeout :: "int \<Rightarrow> int" where
  "sendTimeout d = (if d \<le> 0 then defaultSendTimeout else d)"

definition defaultRpcDrainTimeout :: int where "defaultRpcDrainTimeout = 30 * 1000000000"

definition rpcDrainTimeout :: "int \<Rightarrow> int" where
  "rpcDrainTimeout d = (if d \<le> 0 then defaultRpcDrainTimeout else d)"

section \<open>Resuming sessions\<close>

definition reasonResumeFailed :: string where "reasonResumeFailed = ''resume_failed''"

definition resume_session :: "('n, 'w) pair_env \<Rightarrow> ChannelSession \<Rightarrow> ('n, 'w) gateway_state \<Rightarrow> ('n, 'w) gateway_state" where
  "resume_session env cs s =
     (case parse_jid (ge_lib (pe_gw env)) (cs_jid cs) of
        Inl err \<Rightarrow> publishChannelFailure env (cs_tenant cs) [] (cs_channelID' cs) reasonResumeFailed s
      | Inr jid \<Rightarrow>
          (let core = setTenant (cs_channelID' cs) (cs_tenant cs) (gs_core s);
               s1 = s\<lparr>gs_core := core\<lparr>settings := Map_Set (cs_channelID' cs) (cs_settings cs) (settings core)\<rparr>\<rparr>
           in case gs_call (pe_Resume env (cs_channelID' cs) jid (cs_importingHistory cs)) s1 of
                (Some err, s2) \<Rightarrow> publishChannelFailure env (cs_tenant cs) [] (cs_channelID' cs) reasonResumeFailed s2
              | (None, s2) \<Rightarrow> attachCalls env (cs_channelID' cs) s2))"

fun resume_sessions :: "('n, 'w) pair_env \<Rightarrow> ChannelSession list \<Rightarrow> ('n, 'w) gateway_state \<Rightarrow> ('n, 'w) gateway_state" where
  "resume_sessions env [] s = s"
| "resume_sessions env (cs # rest) s = resume_sessions env rest (resume_session env cs s)"

definition resumeOwnedSessions :: "('n, 'w) boot_env \<Rightarrow> ('n, 'w) gateway_state \<Rightarrow> ('n, 'w) gateway_state" where
  "resumeOwnedSessions env s =
     (case gs_call (ge_db (pe_gw (bt_pair env))) s of (fail, s1) \<Rightarrow>
        (case ForShards fail (now_of s1) (bt_order env (reg (gs_core s1))) [0..bt_shards env - 1]
                (\<lambda>c. Shard c (bt_shards env)) (reg (gs_core s1)) of
           Inl err \<Rightarrow> s1
         | Inr found \<Rightarrow> resume_sessions (bt_pair env) found s1))"

section \<open>Starting\<close>

definition boot_start :: "('n, 'w) boot_env \<Rightarrow> boot_step \<Rightarrow> ('n, 'w) boot_state \<Rightarrow> goerr option \<times> ('n, 'w) boot_state" where
  "boot_start env step s =
     (case bo_call (bt_start env step) s of (err, s1) \<Rightarrow> (err, bo_note (Began step (err = None)) s1))"

fun register_routes :: "('n, 'w) boot_env \<Rightarrow> string list \<Rightarrow> ('n, 'w) boot_state \<Rightarrow> goerr option \<times> ('n, 'w) boot_state" where
  "register_routes env [] s = (None, s)"
| "register_routes env (route # routes) s =
     (case boot_start env (RegisterRpc route) s of
        (Some err, s1) \<Rightarrow> (Some (Wrap (''gateway: register rpc '' @ route @ '': '') err []), s1)
      | (None, s1) \<Rightarrow> register_routes env routes s1)"

definition registerGroupRpc :: "('n, 'w) boot_env \<Rightarrow> ('n, 'w) boot_state \<Rightarrow> goerr option \<times> ('n, 'w) boot_state" where
  "registerGroupRpc env = register_routes env [''group.create'', ''group.invite_link'', ''group.info'', ''group.joined'']"

definition registerContactRpc :: "('n, 'w) boot_env \<Rightarrow> ('n, 'w) boot_state \<Rightarrow> goerr option \<times> ('n, 'w) boot_state" where
  "registerContactRpc env = register_routes env [''contact.check'']"

definition boot_close :: "('n, 'w) boot_env \<Rightarrow> boot_part \<Rightarrow> ('n, 'w) boot_state \<Rightarrow> ('n, 'w) boot_state" where
  "boot_close env part s =
     (case bo_call (bt_close env part) s of (err, s1) \<Rightarrow> bo_note (Closed part (Drained err)) s1)"

definition closeConsumerForFailedBoot :: "('n, 'w) boot_env \<Rightarrow> ('n, 'w) boot_state \<Rightarrow> ('n, 'w) boot_state" where
  "closeConsumerForFailedBoot env s = boot_close env RpcPart (boot_close env ConsumerPart s)"

definition release_all :: "('n, 'w) boot_env \<Rightarrow> ('n, 'w) boot_state \<Rightarrow> goerr option \<times> ('n, 'w) boot_state" where
  "release_all env s =
     (case ReleaseAll (bt_redis env) (bt_shards env) (bt_instance env) (bo_redis s) of
        (err, r) \<Rightarrow> (err, bo_note (Released (err = None)) (s\<lparr>bo_redis := r\<rparr>)))"

fun start_all ::
  "('n, 'w) boot_env \<Rightarrow> (string \<times> (('n, 'w) boot_state \<Rightarrow> goerr option \<times> ('n, 'w) boot_state)) list \<Rightarrow>
   ('n, 'w) boot_state \<Rightarrow> goerr option \<times> ('n, 'w) boot_state" where
  "start_all env [] s = (None, s)"
| "start_all env ((what, start) # rest) s =
     (case start s of
        (None, s1) \<Rightarrow> start_all env rest s1
      | (Some err, s1) \<Rightarrow> (Some (Wrap what err []), snd (release_all env (closeConsumerForFailedBoot env s1))))"

definition starters ::
  "('n, 'w) boot_env \<Rightarrow> (string \<times> (('n, 'w) boot_state \<Rightarrow> goerr option \<times> ('n, 'w) boot_state)) list" where
  "starters env =
     [(''gateway: start pair consumer: '', boot_start env StartPair),
      (''gateway: start send consumer: '', boot_start env StartSend),
      (''gateway: start call consumer: '', boot_start env StartCall),
      (''gateway: start settings consumer: '', boot_start env StartSettings),
      (''gateway: start group consumer: '', boot_start env StartGroup),
      (''gateway: start group rpc: '', registerGroupRpc env),
      (''gateway: start contact rpc: '', registerContactRpc env)]"

section \<open>Stopping\<close>

text \<open>
  A close runs beside a timer. When the timer fires first the shutdown goes on while the close
  finishes by itself; its effect on the world is taken to be there already.
\<close>

definition drainWithin :: "int \<Rightarrow> (goerr option, 'w) ext \<Rightarrow> 'w timed \<Rightarrow> drain_end \<times> 'w timed" where
  "drainWithin timeout close t =
     (case close (tw_world t) of (err, took, w) \<Rightarrow>
        if int took \<le> timeout then (Drained err, \<lparr>tw_time = tw_time t + int took, tw_world = w\<rparr>)
        else (Overrun, \<lparr>tw_time = tw_time t + max 0 timeout, tw_world = w\<rparr>))"

definition drain_of :: "('n, 'w) boot_env \<Rightarrow> boot_part \<Rightarrow> int" where
  "drain_of env part = (case part of ConsumerPart \<Rightarrow> bt_drain env | RpcPart \<Rightarrow> bt_rpc_drain env)"

definition other_part :: "boot_part \<Rightarrow> boot_part" where
  "other_part part = (case part of ConsumerPart \<Rightarrow> RpcPart | RpcPart \<Rightarrow> ConsumerPart)"

text \<open>Both drains start at the same time; \<open>bt_first\<close> says which goroutine reaches the world first.\<close>

definition drainConsumers :: "('n, 'w) boot_env \<Rightarrow> ('n, 'w) boot_state \<Rightarrow> ('n, 'w) boot_state" where
  "drainConsumers env s =
     (let g = gs_world (bo_gw s); t0 = gw_ext g; a = bt_first env; b = other_part a
      in case drainWithin (drain_of env a) (bt_close env a) t0 of
           (da, ta) \<Rightarrow>
             (case drainWithin (drain_of env b) (bt_close env b) (ta\<lparr>tw_time := tw_time t0\<rparr>) of
                (db, tb) \<Rightarrow>
                  bo_note (Closed b db) (bo_note (Closed a da)
                    (s\<lparr>bo_gw := (bo_gw s)\<lparr>gs_world := g\<lparr>gw_ext := tb\<lparr>tw_time := max (tw_time ta) (tw_time tb)\<rparr>\<rparr>\<rparr>\<rparr>))))"

definition boot_stop :: "('n, 'w) boot_env \<Rightarrow> stop_op \<Rightarrow> ('n, 'w) boot_state \<Rightarrow> ('n, 'w) boot_state" where
  "boot_stop env step s = bo_note (Stopped step) (snd (bo_call (bt_stop env step) s))"

definition fatal_of :: "stop_cause \<Rightarrow> goerr option" where
  "fatal_of cause =
     (case cause of
        Cancelled \<Rightarrow> None
      | ConsumerDied err \<Rightarrow> Some (Wrap ''gateway: amqp consumer died: '' err [])
      | RpcDied err \<Rightarrow> Some (Wrap ''gateway: rpc server died: '' err []))"

definition shutdown :: "('n, 'w) boot_env \<Rightarrow> stop_cause \<Rightarrow> ('n, 'w) boot_state \<Rightarrow> goerr option \<times> ('n, 'w) boot_state" where
  "shutdown env cause s =
     (let s1 = drainConsumers env (bo_note GroupsCancelled (bo_note Stopping s));
          s2 = boot_stop env CloseImporter s1;
          s3 = boot_stop env (AbortCalls ''gateway_shutdown'') s2;
          s4 = boot_stop env AwaitReplies (boot_stop env AwaitRecordings s3);
          s5 = boot_stop env DisconnectSessions s4
      in case release_all env s5 of
           (Some err, s6) \<Rightarrow> (Some (Wrap ''gateway: release shards: '' err []), s6)
         | (None, s6) \<Rightarrow> (fatal_of cause, s6))"

definition run :: "('n, 'w) boot_env \<Rightarrow> ('n, 'w) boot_state \<Rightarrow> goerr option \<times> ('n, 'w) boot_state" where
  "run env s =
     (case ClaimAll (bt_redis env) (bt_shards env) (bt_instance env) (bt_ttl env) (bo_redis s) of
        (Some err, r) \<Rightarrow> (Some (Wrap ''gateway: claim shards: '' err []), bo_note (Claimed False) (s\<lparr>bo_redis := r\<rparr>))
      | (None, r) \<Rightarrow>
          (let s1 = bo_note (Claimed True) (s\<lparr>bo_redis := r\<rparr>);
               s2 = s1\<lparr>bo_gw := resumeOwnedSessions env (bo_gw s1)\<rparr>
           in case start_all env (starters env) s2 of
                (Some err, s3) \<Rightarrow> (Some err, s3)
              | (None, s3) \<Rightarrow>
                  (case bt_serve env (bo_gw s3, bo_redis s3) of
                     (cause, g, r') \<Rightarrow> shutdown env cause (s3\<lparr>bo_gw := g, bo_redis := r'\<rparr>))))"

section \<open>The life of an instance\<close>

definition went_well :: "boot_step list \<Rightarrow> boot_act list" where
  "went_well steps = map (\<lambda>x. Began x True) steps"

definition broke_off :: "boot_step list \<Rightarrow> boot_act list \<Rightarrow> bool" where
  "broke_off steps as = (\<exists>good bad rest. steps = good @ bad # rest \<and> as = went_well good @ [Began bad False])"

lemma went_well_simps [simp]: "went_well [] = []" "went_well (xs @ ys) = went_well xs @ went_well ys"
  by (simp_all add: went_well_def)

lemma broke_off_later: "broke_off ys as \<Longrightarrow> broke_off (xs @ ys) (went_well xs @ as)"
  unfolding broke_off_def by (metis append.assoc went_well_simps(2))

lemma broke_off_sooner: "broke_off xs as \<Longrightarrow> broke_off (xs @ ys) as"
  unfolding broke_off_def by (metis append.assoc append_Cons)

text \<open>A starter takes some steps in order and stops at the first that fails.\<close>

definition starts :: "boot_step list \<Rightarrow> (('n, 'w) boot_state \<Rightarrow> goerr option \<times> ('n, 'w) boot_state) \<Rightarrow> bool" where
  "starts steps start \<longleftrightarrow>
     (\<forall>s err s'. start s = (err, s') \<longrightarrow>
        (\<exists>new. bo_log s' = bo_log s @ new \<and> (if err = None then new = went_well steps else broke_off steps new)))"

lemma startsD:
  assumes "starts steps start" "start s = (err, s')"
  obtains new where "bo_log s' = bo_log s @ new" "if err = None then new = went_well steps else broke_off steps new"
  using assms unfolding starts_def by blast

lemma broke_off_one: "broke_off [step] [Began step False]"
  unfolding broke_off_def by (intro exI [of _ "[]"] exI [of _ step]) simp

lemma starts_one: "starts [step] (boot_start env step)"
  unfolding starts_def
proof (intro allI impI)
  fix s err s' assume "boot_start env step s = (err, s')"
  then have "bo_log s' = bo_log s @ [Began step (err = None)]"
    by (auto simp: boot_start_def bo_call_def bo_note_def split: prod.splits)
  then show "\<exists>new. bo_log s' = bo_log s @ new \<and> (if err = None then new = went_well [step] else broke_off [step] new)"
    using broke_off_one by (cases err) (simp_all add: went_well_def)
qed

lemma starts_routes: "starts (map RegisterRpc routes) (register_routes env routes)"
proof (induction routes)
  case Nil
  show ?case by (simp add: starts_def)
next
  case (Cons route routes)
  show ?case unfolding starts_def
  proof (intro allI impI)
    fix s err s' assume run: "register_routes env (route # routes) s = (err, s')"
    obtain e1 s1 where one: "boot_start env (RegisterRpc route) s = (e1, s1)" by fastforce
    obtain new1 where new1: "bo_log s1 = bo_log s @ new1" "if e1 = None then new1 = went_well [RegisterRpc route] else broke_off [RegisterRpc route] new1"
      using startsD [OF starts_one one] by blast
    show "\<exists>new. bo_log s' = bo_log s @ new \<and>
      (if err = None then new = went_well (map RegisterRpc (route # routes)) else broke_off (map RegisterRpc (route # routes)) new)"
    proof (cases e1)
      case (Some e)
      then show ?thesis using run one new1 broke_off_sooner [of "[RegisterRpc route]" new1 "map RegisterRpc routes"] by auto
    next
      case None
      then have "register_routes env routes s1 = (err, s')" using run one by simp
      then obtain new2 where new2: "bo_log s' = bo_log s1 @ new2"
          "if err = None then new2 = went_well (map RegisterRpc routes) else broke_off (map RegisterRpc routes) new2"
        using startsD [OF Cons.IH] by blast
      show ?thesis
        using new1 new2 None broke_off_later [of "map RegisterRpc routes" new2 "[RegisterRpc route]"]
        by (intro exI [of _ "new1 @ new2"]) (auto simp: went_well_def)
    qed
  qed
qed

lemma failed_start_log:
  "\<exists>d1 d2 b. bo_log (snd (release_all env (closeConsumerForFailedBoot env s))) =
     bo_log s @ [Closed ConsumerPart d1, Closed RpcPart d2, Released b]"
  by (auto simp: closeConsumerForFailedBoot_def boot_close_def release_all_def bo_call_def bo_note_def split: prod.split)

lemma start_all_log:
  assumes "list_all2 (\<lambda>steps p. starts steps (snd p)) stepss ps" "start_all env ps s = (err, s')"
  shows "\<exists>new. bo_log s' = bo_log s @ new \<and>
    (if err = None then new = went_well (concat stepss)
     else \<exists>as d1 d2 b. new = as @ [Closed ConsumerPart d1, Closed RpcPart d2, Released b] \<and> broke_off (concat stepss) as)"
  using assms
proof (induction stepss ps arbitrary: s rule: list_all2_induct)
  case Nil
  then show ?case by simp
next
  case (Cons steps stepss p ps)
  obtain what start where p: "p = (what, start)" by fastforce
  obtain e1 s1 where one: "start s = (e1, s1)" by fastforce
  have st: "starts steps start" using Cons.hyps(1) p by simp
  obtain new1 where new1: "bo_log s1 = bo_log s @ new1" "if e1 = None then new1 = went_well steps else broke_off steps new1"
    using startsD [OF st one] by blast
  show ?case
  proof (cases e1)
    case (Some e)
    obtain d1 d2 b where "bo_log s' = bo_log s1 @ [Closed ConsumerPart d1, Closed RpcPart d2, Released b]"
      using failed_start_log [of env s1] Cons.prems p one Some by auto
    then show ?thesis
      using Cons.prems p one Some new1 broke_off_sooner [of steps new1 "concat stepss"] by auto
  next
    case None
    then have "start_all env ps s1 = (err, s')" using Cons.prems p one by simp
    from Cons.IH [OF this] obtain new2 where new2: "bo_log s' = bo_log s1 @ new2"
      and sub: "if err = None then new2 = went_well (concat stepss)
        else \<exists>as d1 d2 b. new2 = as @ [Closed ConsumerPart d1, Closed RpcPart d2, Released b] \<and> broke_off (concat stepss) as"
      by blast
    show ?thesis
    proof (cases err)
      case None': None
      then show ?thesis using new1 new2 sub None by auto
    next
      case (Some e)
      then obtain as d1 d2 b where as: "new2 = as @ [Closed ConsumerPart d1, Closed RpcPart d2, Released b]" "broke_off (concat stepss) as"
        using sub by auto
      then show ?thesis
        using new1 new2 Some None broke_off_later [OF as(2), of steps]
        by (intro exI [of _ "new1 @ new2"]) (auto intro!: exI [of _ "went_well steps @ as"])
    qed
  qed
qed

definition boot_steps :: "boot_step list" where
  "boot_steps = [StartPair, StartSend, StartCall, StartSettings, StartGroup, RegisterRpc ''group.create'',
     RegisterRpc ''group.invite_link'', RegisterRpc ''group.info'', RegisterRpc ''group.joined'', RegisterRpc ''contact.check'']"

lemma starters_log:
  assumes "start_all env (starters env) s = (err, s')"
  shows "\<exists>new. bo_log s' = bo_log s @ new \<and>
    (if err = None then new = went_well boot_steps
     else \<exists>as d1 d2 b. new = as @ [Closed ConsumerPart d1, Closed RpcPart d2, Released b] \<and> broke_off boot_steps as)"
proof -
  let ?stepss = "[[StartPair], [StartSend], [StartCall], [StartSettings], [StartGroup],
    map RegisterRpc [''group.create'', ''group.invite_link'', ''group.info'', ''group.joined''], map RegisterRpc [''contact.check'']]"
  have "list_all2 (\<lambda>steps p. starts steps (snd p)) ?stepss (starters env)"
    unfolding starters_def registerGroupRpc_def registerContactRpc_def
    by (simp only: list_all2_Cons list.rel_intros(1) snd_conv starts_one starts_routes simp_thms)
  moreover have "concat ?stepss = boot_steps" by (simp add: boot_steps_def)
  ultimately show ?thesis using start_all_log [OF _ assms] by (metis (no_types, lifting))
qed

text \<open>What the shutdown does, in order.\<close>

definition shutdown_acts :: "boot_part \<Rightarrow> drain_end \<Rightarrow> drain_end \<Rightarrow> bool \<Rightarrow> boot_act list" where
  "shutdown_acts first d1 d2 b =
     [Stopping, GroupsCancelled, Closed first d1, Closed (other_part first) d2, Stopped CloseImporter,
      Stopped (AbortCalls ''gateway_shutdown''), Stopped AwaitRecordings, Stopped AwaitReplies, Stopped DisconnectSessions, Released b]"

lemma drainConsumers_log:
  "\<exists>d1 d2. bo_log (drainConsumers env s) = bo_log s @ [Closed (bt_first env) d1, Closed (other_part (bt_first env)) d2]"
  by (auto simp: drainConsumers_def bo_note_def Let_def split: prod.split)

lemma boot_stop_log [simp]: "bo_log (boot_stop env step s) = bo_log s @ [Stopped step]"
  by (simp add: boot_stop_def bo_call_def bo_note_def split: prod.split)

lemma release_all_log:
  "release_all env s = (err, s') \<Longrightarrow> bo_log s' = bo_log s @ [Released (err = None)] \<and>
     ReleaseAll (bt_redis env) (bt_shards env) (bt_instance env) (bo_redis s) = (err, bo_redis s')"
  by (auto simp: release_all_def bo_note_def split: prod.splits)

lemma shutdown_released: "shutdown env cause s = (err, s') \<Longrightarrow> \<exists>t err'. release_all env t = (err', s')"
  by (auto simp: shutdown_def Let_def split: prod.splits option.splits)

lemma start_all_failed: "start_all env ps s = (Some e, s') \<Longrightarrow> \<exists>t err'. release_all env t = (err', s')"
proof (induction env ps s rule: start_all.induct)
  case (2 env what start rest s)
  then show ?case by (cases "start s"; cases "fst (start s)") (auto simp: prod_eq_iff)
qed simp

lemma shutdown_log:
  assumes "shutdown env cause s = (err, s')"
  shows "\<exists>d1 d2 b. bo_log s' = bo_log s @ shutdown_acts (bt_first env) d1 d2 b \<and> (err = None \<longrightarrow> b \<and> cause = Cancelled)"
proof -
  obtain d1 d2 where d: "bo_log (drainConsumers env (bo_note GroupsCancelled (bo_note Stopping s))) =
      bo_log s @ [Stopping, GroupsCancelled, Closed (bt_first env) d1, Closed (other_part (bt_first env)) d2]"
    using drainConsumers_log [of env "bo_note GroupsCancelled (bo_note Stopping s)"] by (auto simp: bo_note_def)
  define s5 where "s5 = boot_stop env DisconnectSessions (boot_stop env AwaitReplies (boot_stop env AwaitRecordings
    (boot_stop env (AbortCalls ''gateway_shutdown'') (boot_stop env CloseImporter
      (drainConsumers env (bo_note GroupsCancelled (bo_note Stopping s)))))))"
  obtain e6 s6 where r: "release_all env s5 = (e6, s6)" by fastforce
  have s': "s' = s6" and e: "err = None \<longrightarrow> e6 = None \<and> cause = Cancelled"
    using assms r by (auto simp: shutdown_def s5_def Let_def fatal_of_def split: option.splits stop_cause.splits)
  show ?thesis
    using release_all_log [OF r] e by (intro exI [of _ d1] exI [of _ d2] exI [of _ "e6 = None"]) (simp add: s' s5_def d shutdown_acts_def)
qed

section \<open>Shards are given back\<close>

lemma redis_get_later:
  "redis_get k r \<noteq> Some i \<Longrightarrow> rd_keys r' = rd_keys r \<Longrightarrow> rd_now r \<le> rd_now r' \<Longrightarrow> redis_get k r' \<noteq> Some i"
  by (auto simp: redis_get_cases)

lemma Release_others:
  assumes "ownership_Release env shard i r = (res, r')" "redis_get k r \<noteq> Some j"
  shows "redis_get k r' \<noteq> Some j"
  using Release_cases [OF assms(1)] assms(2) by (auto simp: redis_get_cases split: if_splits)

lemma Release_own:
  assumes "ownership_Release env shard i r = (Inr ok, r')"
  shows "redis_get (shardOwnerKey shard) r' \<noteq> Some i"
proof -
  have "\<exists>r1 n. releaseScript (shardOwnerKey shard) i r1 = (n, r')"
    using assms by (fastforce simp: ownership_Release_def script_reply_def redis_Eval_def Let_def split: prod.splits sum.splits option.splits)
  then obtain r1 n where r1: "releaseScript (shardOwnerKey shard) i r1 = (n, r')" by blast
  show ?thesis
  proof (cases "redis_get (shardOwnerKey shard) r1 = Some i")
    case True
    then have "r' = redis_del (shardOwnerKey shard) r1" using r1 by (simp add: releaseScript_def)
    then show ?thesis by (simp add: redis_get_def redis_del_def)
  qed (use r1 in \<open>auto simp: releaseScript_def\<close>)
qed

lemma release_shards_free:
  assumes "release_shards env i shards r = (None, r')"
  shows "(redis_get k r \<noteq> Some j \<longrightarrow> redis_get k r' \<noteq> Some j) \<and>
    (\<forall>shard\<in>set shards. redis_get (shardOwnerKey shard) r' \<noteq> Some i)"
  using assms
proof (induction shards arbitrary: r k j)
  case (Cons shard shards)
  obtain res r1 where one: "ownership_Release env shard i r = (res, r1)" by fastforce
  obtain ok where ok: "res = Inr ok" and rest: "release_shards env i shards r1 = (None, r')"
    using Cons.prems one by (cases res) auto
  note IH = Cons.IH [OF rest]
  have "redis_get (shardOwnerKey shard) r' \<noteq> Some i"
    using IH [of "shardOwnerKey shard" i] Release_own [OF one [unfolded ok]] by blast
  moreover have "redis_get k r \<noteq> Some j \<longrightarrow> redis_get k r' \<noteq> Some j"
    using IH [of k j] Release_others [OF one] by blast
  ultimately show ?case using IH by auto
qed simp

text \<open>
  C6. The life of an instance. When the shards cannot be claimed nothing is started. Otherwise the
  start steps are taken in order up to the first that fails; a failure closes the consumer and the
  rpc server before the shards are released. A start that succeeds is followed, whatever the
  gateway did and whatever ended it, by the whole shutdown in its order: new group work is cut off,
  both consumers are drained, then the importer, the calls, the recordings and the automatic
  replies end, the sessions disconnect, and only then are the shards released. When the release
  went through, redis names this instance for no shard, and without an error it did go through.
\<close>

theorem instance_life:
  assumes "run env s = (err, s')"
  shows "\<exists>new. bo_log s' = bo_log s @ new \<and>
      (new = [Claimed False] \<and> err \<noteq> None \<and> bo_gw s' = bo_gw s \<or>
       (\<exists>as d1 d2 b. new = Claimed True # as @ [Closed ConsumerPart d1, Closed RpcPart d2, Released b] \<and>
          broke_off boot_steps as \<and> err \<noteq> None) \<or>
       (\<exists>d1 d2 b. new = Claimed True # went_well boot_steps @ shutdown_acts (bt_first env) d1 d2 b \<and> (err = None \<longrightarrow> b))) \<and>
      (last new = Released True \<longrightarrow>
        (\<forall>shard. 0 \<le> shard \<and> shard < bt_shards env \<longrightarrow> redis_get (shardOwnerKey shard) (bo_redis s') \<noteq> Some (bt_instance env)))"
proof -
  obtain e1 r where claim: "ClaimAll (bt_redis env) (bt_shards env) (bt_instance env) (bt_ttl env) (bo_redis s) = (e1, r)" by fastforce
  have released: "redis_get (shardOwnerKey shard) (bo_redis t') \<noteq> Some (bt_instance env)"
    if "ReleaseAll (bt_redis env) (bt_shards env) (bt_instance env) q = (None, bo_redis t')" "0 \<le> shard" "shard < bt_shards env"
    for q t' shard
    using release_shards_free [of "bt_redis env" "bt_instance env" "[0..bt_shards env - 1]" q "bo_redis t'"] that
    by (auto simp: ReleaseAll_def)
  show ?thesis
  proof (cases e1)
    case (Some e)
    then show ?thesis using assms claim by (auto simp: run_def bo_note_def)
  next
    case None
    define s2 where "s2 = (let s1 = bo_note (Claimed True) (s\<lparr>bo_redis := r\<rparr>) in s1\<lparr>bo_gw := resumeOwnedSessions env (bo_gw s1)\<rparr>)"
    have log2: "bo_log s2 = bo_log s @ [Claimed True]" by (simp add: s2_def Let_def bo_note_def)
    obtain e3 s3 where st: "start_all env (starters env) s2 = (e3, s3)" by fastforce
    obtain new3 where new3: "bo_log s3 = bo_log s2 @ new3"
      and steps: "if e3 = None then new3 = went_well boot_steps
        else \<exists>as d1 d2 b. new3 = as @ [Closed ConsumerPart d1, Closed RpcPart d2, Released b] \<and> broke_off boot_steps as"
      using starters_log [OF st] by blast
    show ?thesis
    proof (cases e3)
      case (Some e)
      then have s': "s' = s3" "err = Some e" using assms claim None st by (auto simp: run_def s2_def Let_def)
      obtain as d1 d2 b where as: "new3 = as @ [Closed ConsumerPart d1, Closed RpcPart d2, Released b]" "broke_off boot_steps as"
        using steps Some by auto
      have "redis_get (shardOwnerKey shard) (bo_redis s') \<noteq> Some (bt_instance env)"
        if "b" "0 \<le> shard" "shard < bt_shards env" for shard
      proof -
        obtain t err' where rel: "release_all env t = (err', s3)" using start_all_failed [OF st [unfolded Some]] by blast
        have "err' = None" using release_all_log [OF rel] new3 log2 as that(1) by auto
        then show ?thesis using release_all_log [OF rel] released that s' by blast
      qed
      then show ?thesis using s' log2 new3 as by (intro exI [of _ "Claimed True # new3"]) auto
    next
      case None': None
      obtain cause g r' where serve: "bt_serve env (bo_gw s3, bo_redis s3) = (cause, g, r')" using prod_cases3 by blast
      have sd: "shutdown env cause (s3\<lparr>bo_gw := g, bo_redis := r'\<rparr>) = (err, s')"
        using assms claim None st None' serve by (simp add: run_def s2_def Let_def)
      obtain d1 d2 b where new4: "bo_log s' = bo_log s3 @ shutdown_acts (bt_first env) d1 d2 b" and ok: "err = None \<longrightarrow> b"
        using shutdown_log [OF sd] by auto
      have "redis_get (shardOwnerKey shard) (bo_redis s') \<noteq> Some (bt_instance env)"
        if "b" "0 \<le> shard" "shard < bt_shards env" for shard
      proof -
        obtain t err' where rel: "release_all env t = (err', s')" using shutdown_released [OF sd] by blast
        have "err' = None" using release_all_log [OF rel] new4 that(1) by (auto simp: shutdown_acts_def)
        then show ?thesis using release_all_log [OF rel] released that by blast
      qed
      then show ?thesis
        using log2 new3 steps None' new4 ok
        by (intro exI [of _ "Claimed True # new3 @ shutdown_acts (bt_first env) d1 d2 b"]) (auto simp: shutdown_acts_def)
    qed
  qed
qed

section \<open>Sessions after a restart\<close>

text \<open>
  What becomes of a stored session: with a readable JID its tenant and settings are in memory again
  and calls were attached or a failure was reported; otherwise a failure was reported.
\<close>

definition resumed_as ::
  "('n, 'w) pair_env \<Rightarrow> ChannelSession \<Rightarrow> 'n gw_act list \<Rightarrow> ('n, 'w) gateway_state \<Rightarrow> ('n, 'w) gateway_state \<Rightarrow> bool" where
  "resumed_as env cs out s s' =
     (let c = cs_channelID' cs;
          failed = (\<exists>ok. out = [Published (ChannelStatus (failure_status (cs_tenant cs) [] c reasonResumeFailed)) ok])
      in if is_ok (parse_jid (ge_lib (pe_gw env)) (cs_jid cs))
         then tenant_of c s' = cs_tenant cs \<and> Map_For c (settings (gs_core s')) = cs_settings cs \<and>
           (out = [] \<or> out = [CallsAttached c] \<or> failed)
         else tenant_of c s' = tenant_of c s \<and> Map_For c (settings (gs_core s')) = Map_For c (settings (gs_core s)) \<and> failed)"

definition same_channel :: "string \<Rightarrow> ('n, 'w) gateway_state \<Rightarrow> ('n, 'w) gateway_state \<Rightarrow> bool" where
  "same_channel c s s' = (tenant_of c s' = tenant_of c s \<and> Map_For c (settings (gs_core s')) = Map_For c (settings (gs_core s)))"

lemma failure_log:
  "\<exists>ok. gs_log (publishChannelFailure env t u c reason s) = gs_log s @ [Published (ChannelStatus (failure_status t u c reason)) ok] \<and>
     gs_core (publishChannelFailure env t u c reason s) = gs_core s"
  unfolding publishChannelFailure_def using gw_publish_log [OF prod.collapse [symmetric]] by blast

lemma attach_log:
  "gs_core (attachCalls env c s) = gs_core s \<and> gs_log (attachCalls env c s) \<in> {gs_log s, gs_log s @ [CallsAttached c]}"
  by (auto simp: attachCalls_def gw_note_def split: sum.split)

lemma resume_session_spec:
  "\<exists>out. gs_log (resume_session env cs s) = gs_log s @ out \<and> reg (gs_core (resume_session env cs s)) = reg (gs_core s) \<and>
     resumed_as env cs out s (resume_session env cs s) \<and>
     (\<forall>c. c \<noteq> cs_channelID' cs \<longrightarrow> same_channel c s (resume_session env cs s))"
proof (cases "parse_jid (ge_lib (pe_gw env)) (cs_jid cs)")
  case (Inl err)
  then show ?thesis
    using failure_log [of env "cs_tenant cs" "[]" "cs_channelID' cs" reasonResumeFailed s]
    by (auto simp: resume_session_def resumed_as_def same_channel_def tenant_of_def Let_def)
next
  case (Inr jid)
  let ?c = "cs_channelID' cs"
  let ?core = "setTenant ?c (cs_tenant cs) (gs_core s)"
  let ?s1 = "s\<lparr>gs_core := ?core\<lparr>settings := Map_Set ?c (cs_settings cs) (settings ?core)\<rparr>\<rparr>"
  obtain e s2 where call: "gs_call (pe_Resume env ?c jid (cs_importingHistory cs)) ?s1 = (e, s2)" by fastforce
  have s2: "gs_log s2 = gs_log s" "gs_core s2 = gs_core ?s1" using log_call [OF call] core_call [OF call] by simp_all
  have memory: "tenant_of c t = (if c = ?c then cs_tenant cs else tenant_of c s) \<and>
      Map_For c (settings (gs_core t)) = (if c = ?c then cs_settings cs else Map_For c (settings (gs_core s)))"
    if "gs_core t = gs_core ?s1" for c t
    using that by (simp add: tenant_of_def tenantFor_def setTenant_def Map_For_def Map_Set_def)
  have registry: "reg (gs_core ?s1) = reg (gs_core s)" by (simp add: setTenant_def)
  show ?thesis
  proof (cases e)
    case (Some err)
    obtain ok where f: "gs_log (resume_session env cs s) = gs_log s @ [Published (ChannelStatus (failure_status (cs_tenant cs) [] ?c reasonResumeFailed)) ok]"
      "gs_core (resume_session env cs s) = gs_core ?s1"
      using failure_log [of env "cs_tenant cs" "[]" ?c reasonResumeFailed s2] Inr call Some s2
      by (auto simp: resume_session_def Let_def)
    show ?thesis
      using f memory [OF f(2)] registry Inr by (auto simp: resumed_as_def same_channel_def Let_def)
  next
    case None
    have f: "gs_log (resume_session env cs s) \<in> {gs_log s, gs_log s @ [CallsAttached ?c]}"
      "gs_core (resume_session env cs s) = gs_core ?s1"
      using attach_log [of env ?c s2] Inr call None s2 by (auto simp: resume_session_def Let_def)
    show ?thesis
      using f(1) memory [OF f(2)] registry Inr f(2) by (auto simp: resumed_as_def same_channel_def Let_def)
  qed
qed

lemma resumed_as_trans:
  "resumed_as env cs out s1 s2 \<Longrightarrow> same_channel (cs_channelID' cs) s s1 \<Longrightarrow> same_channel (cs_channelID' cs) s2 s3 \<Longrightarrow>
   resumed_as env cs out s s3"
  by (auto simp: resumed_as_def same_channel_def Let_def split: if_splits)

lemma resume_sessions_spec:
  assumes "distinct order" "\<And>c. cs_channelID' (row c) = c"
  shows "\<exists>out. gs_log (resume_sessions env (map row order) s) = gs_log s @ concat (map out order) \<and>
     reg (gs_core (resume_sessions env (map row order) s)) = reg (gs_core s) \<and>
     (\<forall>c. if c \<in> set order then resumed_as env (row c) (out c) s (resume_sessions env (map row order) s)
          else same_channel c s (resume_sessions env (map row order) s))"
  using assms(1)
proof (induction order arbitrary: s)
  case Nil
  then show ?case by (simp add: same_channel_def)
next
  case (Cons c order)
  let ?s1 = "resume_session env (row c) s" and ?s' = "resume_sessions env (map row (c # order)) s"
  obtain o1 where o1: "gs_log ?s1 = gs_log s @ o1" "reg (gs_core ?s1) = reg (gs_core s)" "resumed_as env (row c) o1 s ?s1"
      "\<And>d. d \<noteq> c \<Longrightarrow> same_channel d s ?s1"
    using resume_session_spec [of env "row c" s] assms(2) by auto
  obtain out where out: "gs_log ?s' = gs_log ?s1 @ concat (map out order)" "reg (gs_core ?s') = reg (gs_core ?s1)"
      "\<And>d. if d \<in> set order then resumed_as env (row d) (out d) ?s1 ?s' else same_channel d ?s1 ?s'"
    using Cons.IH [of ?s1] Cons.prems by auto
  have refl: "same_channel d t t" for d and t :: "('a, 'b) gateway_state" by (simp add: same_channel_def)
  have each: "if d \<in> set (c # order) then resumed_as env (row d) ((out(c := o1)) d) s ?s' else same_channel d s ?s'" for d
  proof -
    consider (here) "d = c" | (later) "d \<noteq> c" "d \<in> set order" | (other) "d \<noteq> c" "d \<notin> set order" by blast
    then show ?thesis
    proof cases
      case here
      have "same_channel c ?s1 ?s'" using out(3) [of c] Cons.prems by simp
      then show ?thesis using here resumed_as_trans [OF o1(3)] assms(2) refl by simp
    next
      case later
      have "resumed_as env (row d) (out d) ?s1 ?s'" using out(3) [of d] later by simp
      then show ?thesis using later resumed_as_trans [of env "row d" "out d" ?s1 ?s' s ?s'] o1(4) assms(2) refl by simp
    next
      case other
      then show ?thesis using out(3) [of d] o1(4) [of d] by (simp add: same_channel_def)
    qed
  qed
  have log: "gs_log ?s' = gs_log s @ concat (map (out(c := o1)) (c # order))"
    using out(1) o1(1) Cons.prems by (simp add: map_fun_upd)
  have registry: "reg (gs_core ?s') = reg (gs_core s)" using out(2) o1(2) by (simp only:)
  show ?case by (rule exI [of _ "out(c := o1)"]) (intro conjI allI log registry each)
qed


text \<open>
  A claim that fails half-way gives nothing back: the shards that were claimed before the one that
  another instance owns stay claimed for the whole lifetime, although the instance ends.
\<close>

lemma failed_claim_keeps_shards:
  assumes "\<And>n. re_fault (bt_redis env) n = None" "\<And>n. re_delay (bt_redis env) n = 0" "bt_shards env = 2" "0 < milliseconds (bt_ttl env)"
    and "redis_get (shardOwnerKey 0) (bo_redis s) = None" "redis_get (shardOwnerKey 1) (bo_redis s) = Some other" "other \<noteq> bt_instance env"
  shows "fst (run env s) \<noteq> None \<and> redis_get (shardOwnerKey 0) (bo_redis (snd (run env s))) = Some (bt_instance env)"
proof -
  have ttl: "\<not> bt_ttl env \<le> 0" using assms(4) by (auto simp: milliseconds_def split: if_splits)
  define r1 where "r1 = (bo_redis s)\<lparr>rd_calls := rd_calls (bo_redis s) + 1\<rparr>"
  have get [simp]: "redis_get k (q\<lparr>rd_calls := n\<rparr>) = redis_get k q" for k q n by (rule redis_get_cong) simp_all
  define r2 where "r2 = redis_set (shardOwnerKey 0) (bt_instance env) (milliseconds (bt_ttl env)) r1"
  have r2: "redis_get (shardOwnerKey 0) r2 = Some (bt_instance env)" "redis_get (shardOwnerKey 1) r2 = Some other"
    using assms(4, 6) by (auto simp: r2_def redis_set_def redis_get_def r1_def split: option.splits if_splits)
  have one: "Claim (bt_redis env) 0 (bt_instance env) (bt_ttl env) (bo_redis s) = (Inr True, r2)"
    using assms(1, 2, 4, 5) ttl
    by (simp add: Claim_def redis_Eval_def script_reply_def claimScript_def r1_def r2_def Let_def)
  have two: "Claim (bt_redis env) 1 (bt_instance env) (bt_ttl env) r2 = (Inr False, r2\<lparr>rd_calls := rd_calls r2 + 1\<rparr>)"
    using assms(1, 2, 7) ttl r2(2)
    by (simp add: Claim_def redis_Eval_def script_reply_def claimScript_def Let_def)
  have range: "[0..bt_shards env - 1] = [0, 1]" by (simp add: assms(3) upto.simps)
  show ?thesis
    unfolding run_def ClaimAll_def range using one two r2(1) by (simp add: bo_note_def)
qed

section \<open>Witnesses\<close>

definition demo_boot :: "(unit, unit) boot_env" where
  "demo_boot =
     \<lparr>bt_pair = demo_pairing, bt_redis = \<lparr>re_delay = (\<lambda>n. 1), re_fault = (\<lambda>n. None)\<rparr>, bt_shards = 1, bt_instance = ''me'',
      bt_ttl = 5000000, bt_order = (\<lambda>r. [''c'']), bt_start = (\<lambda>step u. (None, 1, u)), bt_close = (\<lambda>part u. (None, 1, u)),
      bt_stop = (\<lambda>step u. ((), 1, u)), bt_first = RpcPart, bt_drain = 10, bt_rpc_drain = 10,
      bt_serve = (\<lambda>(g, r). (Cancelled, g, r))\<rparr>"

definition demo_row :: session_row where
  "demo_row = \<lparr>sr_jid = ''55@s.whatsapp.net'', sr_tenant = ''t2'', sr_listen = True, sr_receive = False, sr_message = None, sr_version = 4\<rparr>"

definition demo_stored :: "(unit, unit) gateway_state" where
  "demo_stored = demo_gateway_state\<lparr>gs_core := (gs_core demo_gateway_state)\<lparr>reg :=
     \<lparr>sessions = [''c'' \<mapsto> demo_row], history_imports = Map.empty\<rparr>\<rparr>\<rparr>"

definition demo_instance :: "(unit, unit) boot_state" where
  "demo_instance = \<lparr>bo_gw = demo_stored, bo_redis = \<lparr>rd_keys = Map.empty, rd_now = 0, rd_calls = 0\<rparr>, bo_log = []\<rparr>"

lemma instance_life_witness:
  "\<exists>ok rest. bo_log (snd (run demo_boot demo_instance)) = Claimed ok # rest"
proof -
  obtain err s' where run: "run demo_boot demo_instance = (err, s')" by fastforce
  have "bo_log demo_instance = []" "bt_shards demo_boot = 1" "bt_instance demo_boot = ''me''"
    by (simp_all add: demo_instance_def demo_boot_def)
  then show ?thesis using instance_life [OF run] unfolding run by fastforce
qed


end
