(* ===== verification/GroupRpc.thy ===== *)
theory GroupRpc
  imports Boot Contacts
begin

text \<open>
  The requests about groups, the first half of internal/gateway/groups.go, on the state
  of the gateway. Decoding JSON is an argument; the operations of the WhatsApp client take
  time and move the outside world, but not the gateway's memory.
\<close>

section \<open>Requests and responses\<close>

record groupCreateRequest =
  gq_TenantID :: string
  gq_ChannelID :: string
  gq_Name :: string
  gq_Description :: string
  gq_PhotoURL :: string
  gq_Announce :: bool

record groupCreateResponse =
  gp_GroupJID :: string
  gp_InviteURL :: string
  gp_ParticipantCount :: int
  gp_CreatedAt :: string

record groupInviteLinkRequest =
  il_TenantID :: string
  il_ChannelID :: string
  il_GroupJID :: string
  il_Reset :: bool

record groupInfoRequest =
  iq_TenantID :: string
  iq_ChannelID :: string
  iq_GroupJID :: string

record groupInfoResponse =
  ir_GroupJID :: string
  ir_Name :: string
  ir_Announce :: bool
  ir_ParticipantCount :: int
  ir_CreatedAt :: string

record groupJoinedRequest =
  jq_TenantID :: string
  jq_ChannelID :: string

definition infoResponse :: "Info \<Rightarrow> groupInfoResponse" where
  "infoResponse info =
     \<lparr>ir_GroupJID = in_groupJID info, ir_Name = in_name info, ir_Announce = in_announce info,
      ir_ParticipantCount = in_participantCount info, ir_CreatedAt = rfc3339 (in_createdAt info)\<rparr>"

section \<open>The client of a request\<close>

record ('n, 'w) rpc_env =
  rp_pair :: "('n, 'w) pair_env"
  rp_stopping :: bool
  rp_groups :: "string \<Rightarrow> 'w \<Rightarrow> 'w timed group_client result"
  rp_photo :: "string \<Rightarrow> 'w timed \<Rightarrow> string result \<times> 'w timed"

definition rpc_lib :: "('n, 'w) rpc_env \<Rightarrow> walib" where
  "rpc_lib env = ge_lib (pe_gw (rp_pair env))"

definition set_tenant :: "string \<Rightarrow> string \<Rightarrow> ('n, 'w) gateway_state \<Rightarrow> ('n, 'w) gateway_state" where
  "set_tenant channelID tenantID s = s\<lparr>gs_core := setTenant channelID tenantID (gs_core s)\<rparr>"

definition client_of :: "(string \<Rightarrow> 'w \<Rightarrow> 'c result) \<Rightarrow> string \<Rightarrow> ('n, 'w) gateway_state \<Rightarrow> 'c result \<times> ('n, 'w) gateway_state" where
  "client_of clients channelID s = (clients channelID (tw_world (gw_ext (gs_world s))), s)"

definition request_client ::
  "('n, 'w) rpc_env \<Rightarrow> string \<Rightarrow> string \<Rightarrow> ('n, 'w) gateway_state \<Rightarrow> 'w timed group_client result \<times> ('n, 'w) gateway_state" where
  "request_client env tenantID channelID s =
     groupClient (rp_stopping env) (ensureChannelConnected (rp_pair env)) set_tenant (client_of (rp_groups env))
       tenantID channelID s"

definition on_client :: "('w timed \<Rightarrow> 'a \<times> 'w timed) \<Rightarrow> ('n, 'w) gateway_state \<Rightarrow> 'a \<times> ('n, 'w) gateway_state" where
  "on_client f s =
     (case f (gw_ext (gs_world s)) of (a, t) \<Rightarrow> (a, s\<lparr>gs_world := (gs_world s)\<lparr>gw_ext := t\<rparr>\<rparr>))"

text \<open>Unix seconds.\<close>

definition unix_now :: "('n, 'w) gateway_state \<Rightarrow> int" where
  "unix_now s = now_of s div 1000000000"

section \<open>The handlers\<close>

definition rpcGroupCreate ::
  "('n, 'w) rpc_env \<Rightarrow> groupCreateRequest result \<Rightarrow> ('n, 'w) gateway_state \<Rightarrow> groupCreateResponse result \<times> ('n, 'w) gateway_state" where
  "rpcGroupCreate env decoded s =
     (case decodeRpc decoded of
        Inl err \<Rightarrow> (Inl err, s)
      | Inr req \<Rightarrow>
          (case request_client env (gq_TenantID req) (gq_ChannelID req) s of
             (Inl err, s1) \<Rightarrow> (Inl err, s1)
           | (Inr client, s1) \<Rightarrow>
               (case on_client (Create_group (rpc_lib env) client (rp_photo env) (unix_now s1)
                       \<lparr>cr_name = gq_Name req, cr_description = gq_Description req, cr_photoURL = gq_PhotoURL req,
                        cr_announce = gq_Announce req\<rparr>) s1 of
                  (Inl err, s2) \<Rightarrow> (Inl err, s2)
                | (Inr res, s2) \<Rightarrow>
                    (Inr \<lparr>gp_GroupJID = ct_groupJID res, gp_InviteURL = ct_inviteURL res,
                       gp_ParticipantCount = ct_participantCount res, gp_CreatedAt = rfc3339 (ct_createdAt res)\<rparr>, s2))))"

definition rpcGroupInviteLink ::
  "('n, 'w) rpc_env \<Rightarrow> groupInviteLinkRequest result \<Rightarrow> ('n, 'w) gateway_state \<Rightarrow> string result \<times> ('n, 'w) gateway_state" where
  "rpcGroupInviteLink env decoded s =
     (case decodeRpc decoded of
        Inl err \<Rightarrow> (Inl err, s)
      | Inr req \<Rightarrow>
          (case parseGroupJID (rpc_lib env) (il_GroupJID req) of
             Inl err \<Rightarrow> (Inl err, s)
           | Inr jid \<Rightarrow>
               (case request_client env (il_TenantID req) (il_ChannelID req) s of
                  (Inl err, s1) \<Rightarrow> (Inl err, s1)
                | (Inr client, s1) \<Rightarrow> on_client (InviteLink client jid (il_Reset req)) s1)))"

definition rpcGroupInfo ::
  "('n, 'w) rpc_env \<Rightarrow> groupInfoRequest result \<Rightarrow> ('n, 'w) gateway_state \<Rightarrow> groupInfoResponse result \<times> ('n, 'w) gateway_state" where
  "rpcGroupInfo env decoded s =
     (case decodeRpc decoded of
        Inl err \<Rightarrow> (Inl err, s)
      | Inr req \<Rightarrow>
          (case parseGroupJID (rpc_lib env) (iq_GroupJID req) of
             Inl err \<Rightarrow> (Inl err, s)
           | Inr jid \<Rightarrow>
               (case request_client env (iq_TenantID req) (iq_ChannelID req) s of
                  (Inl err, s1) \<Rightarrow> (Inl err, s1)
                | (Inr client, s1) \<Rightarrow>
                    (case on_client (Describe (rpc_lib env) (unix_now s1) client jid) s1 of
                       (Inl err, s2) \<Rightarrow> (Inl err, s2)
                     | (Inr info, s2) \<Rightarrow> (Inr (infoResponse info), s2)))))"

definition rpcGroupJoined ::
  "('n, 'w) rpc_env \<Rightarrow> groupJoinedRequest result \<Rightarrow> ('n, 'w) gateway_state \<Rightarrow> groupInfoResponse list result \<times> ('n, 'w) gateway_state" where
  "rpcGroupJoined env decoded s =
     (case decodeRpc decoded of
        Inl err \<Rightarrow> (Inl err, s)
      | Inr req \<Rightarrow>
          (case request_client env (jq_TenantID req) (jq_ChannelID req) s of
             (Inl err, s1) \<Rightarrow> (Inl err, s1)
           | (Inr client, s1) \<Rightarrow>
               (case on_client (GroupService.Joined (rpc_lib env) (unix_now s1) client) s1 of
                  (Inl err, s2) \<Rightarrow> (Inl err, s2)
                | (Inr infos, s2) \<Rightarrow> (Inr (map infoResponse infos), s2))))"

text \<open>The five requests as one dispatch, by the operation of the rpc server.\<close>

datatype rpc_request =
    CreateRpc "groupCreateRequest result"
  | InviteRpc "groupInviteLinkRequest result"
  | InfoRpc "groupInfoRequest result"
  | JoinedRpc "groupJoinedRequest result"

datatype rpc_response =
    CreatedResponse groupCreateResponse | InviteResponse string | InfoResponse groupInfoResponse
  | JoinedResponse "groupInfoResponse list"

definition rpc_map :: "('a \<Rightarrow> rpc_response) \<Rightarrow> 'a result \<times> ('n, 'w) gateway_state \<Rightarrow> rpc_response result \<times> ('n, 'w) gateway_state" where
  "rpc_map f p = (map_sum id f (fst p), snd p)"

definition serve_rpc ::
  "('n, 'w) rpc_env \<Rightarrow> rpc_request \<Rightarrow> ('n, 'w) gateway_state \<Rightarrow> rpc_response result \<times> ('n, 'w) gateway_state" where
  "serve_rpc env req s =
     (case req of
        CreateRpc d \<Rightarrow> rpc_map CreatedResponse (rpcGroupCreate env d s)
      | InviteRpc d \<Rightarrow> rpc_map InviteResponse (rpcGroupInviteLink env d s)
      | InfoRpc d \<Rightarrow> rpc_map InfoResponse (rpcGroupInfo env d s)
      | JoinedRpc d \<Rightarrow> rpc_map JoinedResponse (rpcGroupJoined env d s))"

section \<open>What a request does to the gateway\<close>

text \<open>The tenant and channel of a request, when its payload can be read.\<close>

definition addressed :: "rpc_request \<Rightarrow> (string \<times> string) option" where
  "addressed req =
     (case req of
        CreateRpc (Inr r) \<Rightarrow> Some (gq_TenantID r, gq_ChannelID r)
      | InviteRpc (Inr r) \<Rightarrow> Some (il_TenantID r, il_ChannelID r)
      | InfoRpc (Inr r) \<Rightarrow> Some (iq_TenantID r, iq_ChannelID r)
      | JoinedRpc (Inr r) \<Rightarrow> Some (jq_TenantID r, jq_ChannelID r)
      | _ \<Rightarrow> None)"

definition rpc_err :: "goerr \<Rightarrow> bool" where
  "rpc_err err = (rpc_of err \<noteq> None)"

definition rpc_coded :: "'a result \<Rightarrow> bool" where
  "rpc_coded r = (case r of Inl err \<Rightarrow> rpc_err err | Inr a \<Rightarrow> True)"

lemma rpc_coded_simps [simp]: "rpc_coded (Inr a)" "rpc_coded (Inl err) \<longleftrightarrow> rpc_err err"
  by (simp_all add: rpc_coded_def)

lemma rpc_err_simps [simp]:
  "rpc_err (RpcInvalidRequest m)" "rpc_err (RpcNotFound m)" "rpc_err (RpcUnavailable m)" "rpc_err (Classify err)"
proof -
  show "rpc_err (Classify err)"
  proof (cases "rpc_of err = None")
    case True
    then show ?thesis using coded_Classify [of err] by (auto simp: coded_def rpc_err_def)
  next
    case False
    then show ?thesis by (simp add: Classify_def rpc_err_def)
  qed
qed (simp_all add: rpc_defs rpc_err_def)

lemma coded_service:
  "rpc_coded (fst (Create_group lib c prepare now req w))"
  "rpc_coded (fst (InviteLink c j reset w))"
  "rpc_coded (fst (Describe lib now c j w))"
  "rpc_coded (fst (GroupService.Joined lib now c w))"
  by (simp_all add: Create_group_def InviteLink_def Describe_def GroupService.Joined_def Let_def split: sum.split prod.split)

text \<open>A step that may set the tenant of one channel, resume it and attach its calls, and nothing else.\<close>

definition within :: "string \<Rightarrow> ('n, 'w) gateway_state \<Rightarrow> ('n, 'w) gateway_state \<Rightarrow> bool" where
  "within c s s' \<longleftrightarrow>
     reg (gs_core s') = reg (gs_core s) \<and> gs_log s' \<in> {gs_log s, gs_log s @ [CallsAttached c]} \<and>
     (\<forall>c'. c' \<noteq> c \<longrightarrow> same_channel c' s s')"

lemma within_same: "gs_core s' = gs_core s \<Longrightarrow> gs_log s' = gs_log s \<Longrightarrow> within c s s'"
  by (simp add: within_def same_channel_def tenant_of_def)

lemma within_core:
  "within c s s1 \<Longrightarrow> gs_core s2 = gs_core s1 \<Longrightarrow> gs_log s2 = gs_log s1 \<Longrightarrow> within c s s2"
  by (simp add: within_def same_channel_def tenant_of_def)

lemma within_set_tenant: "within c s s1 \<Longrightarrow> within c s (set_tenant c t s1)"
  by (simp add: within_def same_channel_def tenant_of_def set_tenant_def setTenant_def tenantFor_def)

lemma ensure_within:
  assumes "ensureChannelConnected env c s = (err, s')"
  shows "within c s s'"
proof -
  obtain v s1 where e: "gs_call (pe_EnsureConnected env c) s = (v, s1)" by fastforce
  obtain fail s2 where db: "gs_call (ge_db (pe_gw env)) s1 = (fail, s2)" by fastforce
  have same: "gs_log s1 = gs_log s" "gs_core s1 = gs_core s" "gs_log s2 = gs_log s" "gs_core s2 = gs_core s"
    using log_call [OF e] core_call [OF e] log_call [OF db] core_call [OF db] by simp_all
  have resumed: "within c s (snd (case gs_call f (s2\<lparr>gs_core := core\<lparr>settings := Map_Set c v (settings core)\<rparr>\<rparr>) of
      (Some e, s4) \<Rightarrow> (Some e, s4) | (None, s4) \<Rightarrow> gs_call g (attachCalls env c s4)))"
    if "core = setTenant c t (gs_core s)" for f :: "(goerr option, 'b) ext" and g core v t
  proof -
    obtain r s4 where call: "gs_call f (s2\<lparr>gs_core := core\<lparr>settings := Map_Set c v (settings core)\<rparr>\<rparr>) = (r, s4)" by fastforce
    have s4: "within c s s4"
      using log_call [OF call] core_call [OF call] same that
      by (simp add: within_def same_channel_def tenant_of_def setTenant_def tenantFor_def Map_For_def Map_Set_def)
    moreover have "within c s (attachCalls env c s4)"
      using s4 log_call [OF call] same attach_log [of env c s4] by (auto simp: within_def same_channel_def tenant_of_def)
    ultimately show ?thesis
      using call within_core [of c s "attachCalls env c s4" "snd (gs_call g (attachCalls env c s4))"] by (cases r) simp_all
  qed
  consider "s' = s1" | "s' = s2"
    | cs :: ChannelSession and jid where "s' = snd (case gs_call (pe_Resume env c jid (cs_importingHistory cs))
        (s2\<lparr>gs_core := (setTenant c (cs_tenant cs) (gs_core s))\<lparr>settings := Map_Set c (cs_settings cs)
          (settings (setTenant c (cs_tenant cs) (gs_core s)))\<rparr>\<rparr>) of
      (Some e, s4) \<Rightarrow> (Some e, s4) | (None, s4) \<Rightarrow> gs_call (pe_EnsureConnected env c) (attachCalls env c s4))"
  proof (cases "\<exists>e0 (cs :: ChannelSession) jid. v = Some e0 \<and> err_is e0 ENoSession \<and> Get fail (now_of s2) c (reg (gs_core s2)) = Inr (Some cs) \<and>
      parse_jid (ge_lib (pe_gw env)) (cs_jid cs) = Inr jid")
    case True
    then obtain e0 cs jid where "v = Some e0" "err_is e0 ENoSession" "Get fail (now_of s2) c (reg (gs_core s2)) = Inr (Some cs)"
      "parse_jid (ge_lib (pe_gw env)) (cs_jid cs) = Inr jid" by blast
    then show thesis using that(3) [of jid cs] assms same by (simp add: ensureChannelConnected_def e db Let_def)
  next
    case False
    then show thesis using that(1, 2) assms
      by (auto simp: ensureChannelConnected_def e db Let_def split: option.splits if_splits sum.splits)
  qed
  then show ?thesis
  proof cases
    case 1
    then show ?thesis using within_same same by blast
  next
    case 2
    then show ?thesis using within_same same by blast
  next
    case (3 cs jid)
    show ?thesis unfolding 3 by (rule resumed [OF refl])
  qed
qed

lemma request_client_spec:
  assumes "request_client env t c s = (r, s')"
  shows "rpc_coded r \<and> (c = [] \<or> rp_stopping env \<longrightarrow> \<not> is_ok r \<and> s' = s) \<and> (is_ok r \<longrightarrow> tenant_of c s' = t) \<and> within c s s'"
proof (cases "c = [] \<or> rp_stopping env")
  case True
  then show ?thesis using assms by (auto simp: request_client_def groupClient_def intro: within_same split: if_splits)
next
  case False
  obtain err s1 where e: "ensureChannelConnected (rp_pair env) c s = (err, s1)" by fastforce
  have w: "within c s s1" "within c s (set_tenant c t s1)" using ensure_within [OF e] within_set_tenant by blast+
  have tenant: "tenant_of c (set_tenant c t s1) = t" by (simp add: set_tenant_def tenant_of_def setTenant_def tenantFor_def)
  show ?thesis
    using assms False e w tenant
    by (cases err; cases r) (auto simp: request_client_def groupClient_def client_of_def split: sum.splits if_splits)
qed

lemma on_client_spec:
  assumes "on_client f s = (a, s')"
  shows "gs_core s' = gs_core s \<and> gs_log s' = gs_log s \<and> a = fst (f (gw_ext (gs_world s)))"
  using assms by (auto simp: on_client_def split: prod.splits)

text \<open>What all requests share once the client is there.\<close>

definition request_effect ::
  "('n, 'w) rpc_env \<Rightarrow> string \<Rightarrow> string \<Rightarrow> 'a result \<Rightarrow> ('n, 'w) gateway_state \<Rightarrow> ('n, 'w) gateway_state \<Rightarrow> bool" where
  "request_effect env t c r s s' \<longleftrightarrow>
     rpc_coded r \<and> (c = [] \<or> rp_stopping env \<longrightarrow> \<not> is_ok r \<and> s' = s) \<and> (is_ok r \<longrightarrow> tenant_of c s' = t) \<and> within c s s'"

lemma request_effect_refused: "rpc_err err \<Longrightarrow> request_effect env t c (Inl err) s s"
  by (simp add: request_effect_def within_same)

lemma request_effect_client:
  assumes "request_client env t c s = (Inl err, s')"
  shows "request_effect env t c (Inl err) s s'"
  using request_client_spec [OF assms] by (simp add: request_effect_def)

lemma request_effect_served:
  assumes "request_client env t c s = (Inr client, s1)" "on_client f s1 = (a, s')" "rpc_coded (fst (f (gw_ext (gs_world s1))))"
  shows "request_effect env t c a s s'"
  using request_client_spec [OF assms(1)] on_client_spec [OF assms(2)] assms(3)
  by (auto simp: request_effect_def tenant_of_def intro: within_core)

lemma request_effect_map: "request_effect env t c r s s' \<Longrightarrow> request_effect env t c (map_sum id f r) s s'"
  by (cases r) (simp_all add: request_effect_def)

lemma decodeRpc_coded: "decodeRpc d = Inl err \<Longrightarrow> rpc_err err"
  by (auto simp: decodeRpc_def split: sum.splits)

lemma decodeRpc_Inr [simp]: "decodeRpc d = Inr req \<longleftrightarrow> d = Inr req"
  by (auto simp: decodeRpc_def split: sum.splits)

lemma parseGroupJID_coded: "parseGroupJID lib raw = Inl err \<Longrightarrow> rpc_err err"
  by (auto simp: parseGroupJID_def split: sum.splits if_splits)

lemma create_effect: "rpcGroupCreate env (Inr req) s = (r, s') \<Longrightarrow> request_effect env (gq_TenantID req) (gq_ChannelID req) r s s'"
  by (auto simp: rpcGroupCreate_def coded_service request_effect_def decodeRpc_def split: sum.splits prod.splits
      dest: request_effect_client [unfolded request_effect_def] request_effect_served [unfolded request_effect_def, OF _ _ coded_service(1)])

lemma invite_effect: "rpcGroupInviteLink env (Inr req) s = (r, s') \<Longrightarrow> request_effect env (il_TenantID req) (il_ChannelID req) r s s'"
  by (auto simp: rpcGroupInviteLink_def decodeRpc_def split: sum.splits prod.splits
      intro: request_effect_refused parseGroupJID_coded request_effect_client request_effect_served [OF _ _ coded_service(2)])

lemma info_effect: "rpcGroupInfo env (Inr req) s = (r, s') \<Longrightarrow> request_effect env (iq_TenantID req) (iq_ChannelID req) r s s'"
proof -
  assume run: "rpcGroupInfo env (Inr req) s = (r, s')"
  show ?thesis
  proof (cases "parseGroupJID (rpc_lib env) (iq_GroupJID req)")
    case (Inl err)
    then show ?thesis using run by (auto simp: rpcGroupInfo_def decodeRpc_def intro: request_effect_refused parseGroupJID_coded)
  next
    case (Inr jid)
    obtain cl s1 where c: "request_client env (iq_TenantID req) (iq_ChannelID req) s = (cl, s1)" by fastforce
    show ?thesis
    proof (cases cl)
      case (Inl err)
      then show ?thesis using run Inr c request_effect_client [OF c [unfolded Inl]] by (auto simp: rpcGroupInfo_def decodeRpc_def)
    next
      case client: (Inr client)
      obtain a s2 where o: "on_client (Describe (rpc_lib env) (unix_now s1) client jid) s1 = (a, s2)" by fastforce
      have "request_effect env (iq_TenantID req) (iq_ChannelID req) (map_sum id infoResponse a) s s2"
        by (rule request_effect_map [OF request_effect_served [OF c [unfolded client] o coded_service(3)]])
      moreover have "r = map_sum id infoResponse a \<and> s' = s2"
        using run Inr c client o by (cases a) (auto simp: rpcGroupInfo_def decodeRpc_def)
      ultimately show ?thesis by simp
    qed
  qed
qed

lemma joined_effect: "rpcGroupJoined env (Inr req) s = (r, s') \<Longrightarrow> request_effect env (jq_TenantID req) (jq_ChannelID req) r s s'"
proof -
  assume run: "rpcGroupJoined env (Inr req) s = (r, s')"
  obtain cl s1 where c: "request_client env (jq_TenantID req) (jq_ChannelID req) s = (cl, s1)" by fastforce
  show ?thesis
  proof (cases cl)
    case (Inl err)
    then show ?thesis using run c request_effect_client [OF c [unfolded Inl]] by (auto simp: rpcGroupJoined_def decodeRpc_def)
  next
    case client: (Inr client)
    obtain a s2 where o: "on_client (GroupService.Joined (rpc_lib env) (unix_now s1) client) s1 = (a, s2)" by fastforce
    have "request_effect env (jq_TenantID req) (jq_ChannelID req) (map_sum id (map infoResponse) a) s s2"
      by (rule request_effect_map [OF request_effect_served [OF c [unfolded client] o coded_service(4)]])
    moreover have "r = map_sum id (map infoResponse) a \<and> s' = s2"
      using run c client o by (cases a) (auto simp: rpcGroupJoined_def decodeRpc_def)
    ultimately show ?thesis by simp
  qed
qed

lemma unreadable:
  assumes "addressed req = None" "serve_rpc env req s = (res, s')"
  shows "\<exists>err. res = Inl err \<and> rpc_err err \<and> s' = s"
proof (cases req)
  case (CreateRpc d)
  then show ?thesis using assms decodeRpc_coded [of d]
    by (cases d) (auto simp: addressed_def serve_rpc_def rpc_map_def rpcGroupCreate_def decodeRpc_def)
next
  case (InviteRpc d)
  then show ?thesis using assms decodeRpc_coded [of d]
    by (cases d) (auto simp: addressed_def serve_rpc_def rpc_map_def rpcGroupInviteLink_def decodeRpc_def)
next
  case (InfoRpc d)
  then show ?thesis using assms decodeRpc_coded [of d]
    by (cases d) (auto simp: addressed_def serve_rpc_def rpc_map_def rpcGroupInfo_def decodeRpc_def)
next
  case (JoinedRpc d)
  then show ?thesis using assms decodeRpc_coded [of d]
    by (cases d) (auto simp: addressed_def serve_rpc_def rpc_map_def rpcGroupJoined_def decodeRpc_def)
qed

lemma addressed_effect:
  assumes "addressed req = Some (t, c)" "serve_rpc env req s = (res, s')"
  shows "request_effect env t c res s s'"
proof (cases req)
  case (CreateRpc d)
  then obtain r where "d = Inr r" using assms(1) by (auto simp: addressed_def split: sum.splits)
  then show ?thesis using CreateRpc assms create_effect [of env r s, OF prod.collapse [symmetric]]
    by (auto simp: addressed_def serve_rpc_def rpc_map_def intro: request_effect_map)
next
  case (InviteRpc d)
  then obtain r where "d = Inr r" using assms(1) by (auto simp: addressed_def split: sum.splits)
  then show ?thesis using InviteRpc assms invite_effect [of env r s, OF prod.collapse [symmetric]]
    by (auto simp: addressed_def serve_rpc_def rpc_map_def intro: request_effect_map)
next
  case (InfoRpc d)
  then obtain r where "d = Inr r" using assms(1) by (auto simp: addressed_def split: sum.splits)
  then show ?thesis using InfoRpc assms info_effect [of env r s, OF prod.collapse [symmetric]]
    by (auto simp: addressed_def serve_rpc_def rpc_map_def intro: request_effect_map)
next
  case (JoinedRpc d)
  then obtain r where "d = Inr r" using assms(1) by (auto simp: addressed_def split: sum.splits)
  then show ?thesis using JoinedRpc assms joined_effect [of env r s, OF prod.collapse [symmetric]]
    by (auto simp: addressed_def serve_rpc_def rpc_map_def intro: request_effect_map)
qed

text \<open>
  C23. Every failed request about groups is answered with a coded error, whatever WhatsApp or the
  decoder reported. A payload that cannot be read, a request without a channel, and every request of
  an instance that is shutting down leave the gateway as it was. Otherwise a request touches only its
  own channel: an answered one leaves that channel with the tenant of the request, the registry and
  the other channels stay, and at most the calls of that channel are attached.
\<close>

theorem group_request_contained:
  assumes "serve_rpc env req s = (res, s')"
  shows "(\<forall>err. res = Inl err \<longrightarrow> rpc_of err \<noteq> None) \<and>
     (case addressed req of
        None \<Rightarrow> \<not> is_ok res \<and> s' = s
      | Some (t, c) \<Rightarrow>
          (c = [] \<or> rp_stopping env \<longrightarrow> \<not> is_ok res \<and> s' = s) \<and> (is_ok res \<longrightarrow> tenant_of c s' = t) \<and>
          reg (gs_core s') = reg (gs_core s) \<and> gs_log s' \<in> {gs_log s, gs_log s @ [CallsAttached c]} \<and>
          (\<forall>c'. c' \<noteq> c \<longrightarrow> same_channel c' s s'))"
proof (cases "addressed req")
  case None
  then show ?thesis using unreadable [OF None assms] by (auto simp: rpc_err_def)
next
  case (Some a)
  obtain t c where a: "a = (t, c)" by fastforce
  have "request_effect env t c res s s'" using addressed_effect [of req t c env s res s'] Some a assms by simp
  then show ?thesis using Some a by (auto simp: request_effect_def within_def rpc_err_def)
qed

text \<open>
  A request that names no tenant is not refused: when it is answered, the channel has lost its
  tenant, and what the channel reports from then on names none.
\<close>

lemma request_without_tenant:
  assumes "serve_rpc env (InfoRpc (Inr (req\<lparr>iq_TenantID := []\<rparr>))) s = (Inr a, s')"
  shows "tenant_of (iq_ChannelID req) s' = []"
  using addressed_effect [of _ "[]" "iq_ChannelID req", OF _ assms] by (simp add: addressed_def request_effect_def)

section \<open>Witness\<close>

definition demo_group_client :: "unit timed group_client" where
  "demo_group_client =
     \<lparr>GetGroupInfo = (\<lambda>j t. (Inr \<lparr>gi_jid = j, gi_name = ''g'', gi_announce = False, gi_topicID = [], gi_topic = [],
        gi_participantCount = 2, gi_participants = [], gi_created = Some 0\<rparr>, t)),
      CreateGroup = (\<lambda>n a t. (Inl (Err EText []), t)), GetGroupInviteLink = (\<lambda>j r t. (Inr ''link'', t)),
      SetGroupAnnounce = (\<lambda>j a t. (None, t)), SetGroupName = (\<lambda>j a t. (None, t)), SetGroupTopic = (\<lambda>j i a t. (None, t)),
      SetGroupPhoto = (\<lambda>j a t. (None, t)), RemoveParticipants = (\<lambda>j a t. (Inr [], t)), GetJoinedGroups = (\<lambda>t. (Inr [], t)),
      PNForLID = (\<lambda>j t. (Inr (j, False), t)), DeviceJID = None, DeviceLID = empty_jid, ctx_wait = (\<lambda>d t. (True, t))\<rparr>"

definition demo_rpc :: "(unit, unit) rpc_env" where
  "demo_rpc =
     \<lparr>rp_pair = demo_pairing\<lparr>pe_EnsureConnected := (\<lambda>c u. (None, 1, u))\<rparr>, rp_stopping = False,
      rp_groups = (\<lambda>c u. Inr demo_group_client), rp_photo = (\<lambda>u t. (Inr [], t))\<rparr>"

definition demo_joined :: rpc_request where
  "demo_joined = JoinedRpc (Inr \<lparr>jq_TenantID = ''t3'', jq_ChannelID = ''c''\<rparr>)"

lemma demo_joined_answer: "\<exists>s'. serve_rpc demo_rpc demo_joined demo_gateway_state = (Inr (JoinedResponse []), s')"
  by (simp add: serve_rpc_def demo_joined_def rpcGroupJoined_def decodeRpc_def request_client_def groupClient_def demo_rpc_def
      ensureChannelConnected_def demo_pairing_def client_of_def on_client_def GroupService.Joined_def demo_group_client_def
      rpc_map_def gs_call_def lift_ext_def call_ext_def split: prod.split)

lemma group_request_contained_witness:
  "\<exists>s'. serve_rpc demo_rpc demo_joined demo_gateway_state = (Inr (JoinedResponse []), s') \<and> tenant_of ''c'' s' = ''t3''"
proof -
  obtain s' where run: "serve_rpc demo_rpc demo_joined demo_gateway_state = (Inr (JoinedResponse []), s')"
    using demo_joined_answer by blast
  have "addressed demo_joined = Some (''t3'', ''c'')" by (simp add: demo_joined_def addressed_def)
  then show ?thesis using group_request_contained [OF run] run by simp
qed

end
