(* ===== verification/CallReply.thy ===== *)
theory CallReply
  imports Cooldown Ledger Inbound Outbound
begin

text \<open>
  The answer to a rejected call: internal/gateway/callreply.go, and with it one whole automatic reply,
  from the reservation of internal/call/cooldown.go over sending and reporting it to the release of
  the reservation when it failed. Sending and publishing are arguments; the lists of the state log
  what was handed to the client and what was published.
\<close>

definition callAutoReplyDedupePrefix :: string where "callAutoReplyDedupePrefix = ''call-auto-reply:''"
definition OriginCallAutoReply :: string where "OriginCallAutoReply = ''call_auto_reply''"

record 'w callAutoReplier =
  cr_Send :: "string \<Rightarrow> jid \<Rightarrow> message \<Rightarrow> string \<Rightarrow> node list \<Rightarrow> 'w \<Rightarrow> (string \<times> int) result \<times> 'w"
  cr_PublishInbound :: "InboundEvent \<Rightarrow> 'w \<Rightarrow> goerr option \<times> 'w"
  cr_sha256 :: "string \<Rightarrow> 8 word list"

record 'w reply_state =
  rw_world :: 'w
  rw_sends :: "(string \<times> jid \<times> message \<times> string) list"
  rw_events :: "InboundEvent list"

definition replyRecipient :: "AutoReply \<Rightarrow> jid result" where
  "replyRecipient reply =
     (if ar_senderPn reply \<noteq> [] then Inr \<lparr>jid_user = ar_senderPn reply, jid_server = DefaultUserServer, jid_device = 0\<rparr>
      else if ar_senderLid reply \<noteq> [] then Inr \<lparr>jid_user = ar_senderLid reply, jid_server = HiddenUserServer, jid_device = 0\<rparr>
      else Inl (Err EText ''gateway: call auto reply has no recipient''))"

text \<open>Instants of the client are Unix seconds, as \<open>sentAt.Unix()\<close> reads them.\<close>

definition reply_event :: "AutoReply \<Rightarrow> string \<Rightarrow> int \<Rightarrow> InboundEvent" where
  "reply_event reply sid sentAt =
     \<lparr>iv_PhoneNumberID = ar_channelID reply, iv_From = sender_From (ar_senderLid reply) (ar_senderPn reply),
      iv_SenderLid = ar_senderLid reply, iv_SenderPn = ar_senderPn reply, iv_FromMe = True, iv_ProfileName = [],
      iv_ProviderMessageID = sid, iv_Timestamp = show_int sentAt, iv_Type = ''text'', iv_Text = Some (ar_text reply),
      iv_Media = None, iv_Location = None, iv_Contacts = [], iv_ContextMessageID = [], iv_Reaction = None,
      iv_Unsupported = None, iv_Target = None, iv_PollVote = None, iv_RichContent = None, iv_ProfilePicture = None,
      iv_Group = None, iv_InteractiveReplyID = [], iv_AdReferral = None, iv_Origin = OriginCallAutoReply,
      iv_Mentions = [], iv_mentionedJIDs = []\<rparr>"

definition reply_id :: "'w callAutoReplier \<Rightarrow> AutoReply \<Rightarrow> string" where
  "reply_id r reply = DeterministicProviderID (cr_sha256 r) (callAutoReplyDedupePrefix @ ar_callID reply)"

definition Reply :: "'w callAutoReplier \<Rightarrow> AutoReply \<Rightarrow> 'w reply_state \<Rightarrow> goerr option \<times> 'w reply_state" where
  "Reply r reply s =
     (case replyRecipient reply of
        Inl err \<Rightarrow> (Some err, s)
      | Inr to \<Rightarrow>
          (let providerID = reply_id r reply;
               msg = conversation_message (ar_text reply);
               s1 = s\<lparr>rw_sends := rw_sends s @ [(ar_channelID reply, to, msg, providerID)]\<rparr>
           in case cr_Send r (ar_channelID reply) to msg providerID [] (rw_world s) of
                (Inl err, w) \<Rightarrow>
                  (Some (Wrap (''gateway: send call auto reply for call '' @ ar_callID reply @ '': '') err []), s1\<lparr>rw_world := w\<rparr>)
              | (Inr (sid, sentAt), w) \<Rightarrow>
                  (let evt = reply_event reply sid sentAt in
                   case cr_PublishInbound r evt w of
                     (Some err, w') \<Rightarrow>
                       (Some (Wrap (''gateway: publish call auto reply for call '' @ ar_callID reply @ '': '') err []), s1\<lparr>rw_world := w'\<rparr>)
                   | (None, w') \<Rightarrow> (None, s1\<lparr>rw_world := w', rw_events := rw_events s1 @ [evt]\<rparr>))))"

text \<open>
  One rejected call with everything that follows: the decision and the reservation, what other calls
  do to the cooldown while the goroutine runs (\<open>between\<close>), the reply and its end.
\<close>

definition answer_call ::
  "'w callAutoReplier \<Rightarrow> int \<Rightarrow> string \<Rightarrow> string \<Rightarrow> string \<Rightarrow> string \<Rightarrow> string \<Rightarrow> cd_op list \<Rightarrow> Cooldown \<Rightarrow> 'w reply_state \<Rightarrow>
     goerr option option \<times> Cooldown \<times> 'w reply_state" where
  "answer_call r now channelID callID message lid pn between c s =
     (case autoReply True False now channelID callID message lid pn c of
        (None, c1) \<Rightarrow> (None, fold cd_step between c1, s)
      | (Some (reply, held), c1) \<Rightarrow>
          (case Reply r reply s of (err, s1) \<Rightarrow> (Some err, reply_done err held (fold cd_step between c1), s1)))"

section \<open>Lemmas\<close>

lemma replyRecipient_total:
  assumes "ar_senderPn reply \<noteq> [] \<or> ar_senderLid reply \<noteq> []"
  shows "\<exists>to. replyRecipient reply = Inr to \<and> jid_user to = sender_From (ar_senderLid reply) (ar_senderPn reply)"
  using assms by (auto simp: replyRecipient_def sender_From_def)

lemma Reply_outcome:
  assumes "Reply r reply s = (err, s')" "replyRecipient reply = Inr to"
  shows "rw_sends s' = rw_sends s @ [(ar_channelID reply, to, conversation_message (ar_text reply), reply_id r reply)]"
    "case err of Some e \<Rightarrow> rw_events s' = rw_events s
       | None \<Rightarrow> \<exists>sid sentAt. rw_events s' = rw_events s @ [reply_event reply sid sentAt] \<and>
           fst (cr_Send r (ar_channelID reply) to (conversation_message (ar_text reply)) (reply_id r reply) [] (rw_world s)) = Inr (sid, sentAt)"
  using assms by (auto simp: Reply_def Let_def split: sum.splits prod.splits option.splits)

lemma autoReply_grants:
  assumes "autoReply True False now ch callID msg lid pn c = (Some (reply, held), c1)"
  shows "reply = \<lparr>ar_channelID = ch, ar_callID = callID, ar_senderLid = lid, ar_senderPn = pn, ar_text = msg\<rparr>"
    "Allow now ch [lid, pn] c = (Some held, c1)" "msg \<noteq> []" "lid \<noteq> [] \<or> pn \<noteq> []"
  using assms by (auto simp: autoReply_def split: if_splits prod.splits option.splits)

lemma autoReply_asks: "fst (Allow now ch [lid, pn] c) = None \<Longrightarrow> fst (autoReply True False now ch callID msg lid pn c) = None"
  by (auto simp: autoReply_def split: prod.splits option.splits)

lemma autoReply_allows:
  "fst (Allow now ch [lid, pn] c) \<noteq> None \<Longrightarrow> msg \<noteq> [] \<Longrightarrow> lid \<noteq> [] \<or> pn \<noteq> [] \<Longrightarrow>
   fst (autoReply True False now ch callID msg lid pn c) \<noteq> None"
  by (auto simp: autoReply_def split: prod.splits option.splits)

section \<open>Properties\<close>

text \<open>
  C36. The answer to a rejected call goes to the caller's phone, or to the LID when the phone is not
  known, under an identifier that depends on the call alone. When it went out and was reported, the
  event names the caller, the message and the channel as sent by the account itself, and no other
  call of that caller is answered while the cooldown lasts. When sending or reporting failed nothing
  is reported and the caller's next call may be answered at once. Nothing else is ever sent.
\<close>

theorem call_reply_answered:
  assumes run: "answer_call r now ch callID msg lid pn between c s = (outcome, c', s')"
    and quiet: "\<forall>a\<in>set between. within (cd_window c) now (cd_counter c + 1) a"
    and soon: "now' - now < cd_window c" and same: "x \<in> {lid, pn} \<inter> {lid', pn'}" "x \<noteq> []"
  shows "case outcome of
       None \<Rightarrow> s' = s
     | Some err \<Rightarrow>
         (\<exists>to. rw_sends s' = rw_sends s @ [(ch, to, conversation_message msg, DeterministicProviderID (cr_sha256 r) (callAutoReplyDedupePrefix @ callID))] \<and>
            jid_user to = sender_From lid pn \<and> jid_server to = (if pn \<noteq> [] then DefaultUserServer else HiddenUserServer)) \<and>
         (case err of
            None \<Rightarrow>
              (\<exists>evt. rw_events s' = rw_events s @ [evt] \<and> iv_PhoneNumberID evt = ch \<and> iv_From evt = sender_From lid pn \<and>
                 iv_FromMe evt \<and> iv_Text evt = Some msg \<and> iv_Origin evt = OriginCallAutoReply \<and> iv_Group evt = None) \<and>
              fst (autoReply True False now' ch callID' msg' lid' pn' c') = None
          | Some e \<Rightarrow> rw_events s' = rw_events s \<and> fst (autoReply True False now' ch callID' msg lid pn c') \<noteq> None)"
proof (cases "autoReply True False now ch callID msg lid pn c")
  case (Pair granted c1)
  show ?thesis
  proof (cases granted)
    case None
    then show ?thesis using run Pair by (auto simp: answer_call_def)
  next
    case (Some rh)
    then obtain reply held where g: "autoReply True False now ch callID msg lid pn c = (Some (reply, held), c1)"
      using Pair by (cases rh) auto
    note al = autoReply_grants [OF g]
    obtain to where to: "replyRecipient reply = Inr to" "jid_user to = sender_From lid pn"
      using replyRecipient_total [of reply] al(1,4) by auto
    then have server: "jid_server to = (if pn \<noteq> [] then DefaultUserServer else HiddenUserServer)"
      using al(1) by (auto simp: replyRecipient_def split: if_splits)
    obtain err where r: "Reply r reply s = (err, s')" "outcome = Some err" "c' = reply_done err held (fold cd_step between c1)"
      using run g by (auto simp: answer_call_def split: prod.splits)
    have token: "rs_token held = cd_counter c + 1"
      using al(2) by (auto simp: Allow_def Let_def split: if_splits)
    have held_back: "fst (Allow now' ch [lid', pn'] (fold cd_step between c1)) = None"
      and freed: "fst (Allow now' ch [lid, pn] (Release held (fold cd_step between c1))) \<noteq> None"
      using cooldown_window [OF al(2), of between now' x "[lid', pn']"] quiet soon same token by auto
    show ?thesis
      using Reply_outcome [OF r(1) to(1)] to(2) server r(2,3) al(1,3,4) autoReply_asks [OF held_back] autoReply_allows [OF freed]
      by (cases err) (auto simp: reply_id_def reply_event_def reply_done_def)
  qed
qed

definition demo_replier :: "bool \<Rightarrow> unit callAutoReplier" where
  "demo_replier ok =
     \<lparr>cr_Send = (\<lambda>ch to msg sid nodes w. (if ok then Inr (sid, 1700000000) else Inl (Err EText ''not connected''), w)),
      cr_PublishInbound = (\<lambda>evt w. (None, w)), cr_sha256 = (\<lambda>t. replicate 32 0)\<rparr>"

lemma call_reply_answered_witness:
  "\<exists>c' s'. answer_call (demo_replier True) 0 ''c1'' ''call'' ''busy'' [] ''5511'' [] (NewCooldown CallRejectMessageCooldown)
       \<lparr>rw_world = (), rw_sends = [], rw_events = []\<rparr> = (Some None, c', s') \<and>
     fst (autoReply True False 5 ''c1'' ''other'' ''busy'' ''77'' ''5511'' c') = None"
proof -
  let ?run = "answer_call (demo_replier True) 0 ''c1'' ''call'' ''busy'' [] ''5511'' [] (NewCooldown CallRejectMessageCooldown)
       \<lparr>rw_world = (), rw_sends = [], rw_events = []\<rparr>"
  obtain outcome c' s' where run: "?run = (outcome, c', s')" by (cases ?run) auto
  have "outcome = Some None"
    using run by (auto simp: answer_call_def autoReply_def Allow_def cooldownKeys_def NewCooldown_def prune_def Reply_def
        replyRecipient_def demo_replier_def Let_def)
  then show ?thesis
    using call_reply_answered [OF run, of 5 "''5511''" "''77''" "''5511''" "''other''" "''busy''"] run
    by (simp add: NewCooldown_def CallRejectMessageCooldown_def)
qed

end
