(* ===== verification/MediaServer.thy ===== *)
theory MediaServer
  imports Calls
begin

text \<open>
  The media server of internal/media: the frames of frame.go, the token of token.go and the handler of
  server.go, which gives an operator the stream of one live call. Verifying a token and the websocket
  belong to libraries and are arguments. After the upgrade the handler's three goroutines, the
  call's callbacks and the end of the call are moves that interleave freely.
\<close>

section \<open>Frames\<close>

definition FrameAudio :: "8 word" where "FrameAudio = 1"
definition FrameVideo :: "8 word" where "FrameVideo = 2"
definition FrameKeyframe :: "8 word" where "FrameKeyframe = 3"
definition FrameEnd :: "8 word" where "FrameEnd = 4"

lemmas frame_kinds = FrameAudio_def FrameVideo_def FrameKeyframe_def FrameEnd_def

definition EncodeFrame :: "8 word \<Rightarrow> pcm \<Rightarrow> pcm" where
  "EncodeFrame kind payload = kind # payload"

definition DecodeFrame :: "pcm \<Rightarrow> (8 word \<times> pcm) result" where
  "DecodeFrame raw =
     (case raw of [] \<Rightarrow> Inl (Err EText ''media: decode frame: empty frame'') | kind # payload \<Rightarrow> Inr (kind, payload))"

definition encodeS16LE :: "'f pcm_ops \<Rightarrow> 'f list \<Rightarrow> pcm" where
  "encodeS16LE ops frame =
     concat (map (\<lambda>sample.
       le16 (po_scale ops (if po_above ops sample then po_one ops
                           else if po_below ops sample then po_minus_one ops else sample))) frame)"

section \<open>Tokens\<close>

datatype claim = ClaimString string | ClaimOther

record CallClaims =
  cl_TenantID :: string
  cl_ChannelID :: string
  cl_CallID :: string
  cl_UserID :: string

text \<open>
  \<open>jwt.Parse\<close> with the secret, the HS256 method only and a required expiry is \<open>parse\<close>; \<open>order\<close> is the
  order in which the loop visits the map of the four claims.
\<close>

definition required_claims :: "string list" where
  "required_claims = [''tenantId'', ''channelId'', ''callId'', ''userId'']"

definition claim_text :: "(string \<Rightarrow> claim option) \<Rightarrow> string \<Rightarrow> string" where
  "claim_text claims name = (case claims name of Some (ClaimString v) \<Rightarrow> v | _ \<Rightarrow> [])"

fun read_claims :: "(string \<Rightarrow> claim option) \<Rightarrow> string list \<Rightarrow> goerr option" where
  "read_claims claims [] = None"
| "read_claims claims (name # names) =
     (if claim_text claims name = []
      then Some (Err EText (''media: verify call token: missing or empty claim '' @ go_quote name))
      else read_claims claims names)"

definition VerifyCallToken ::
  "(string \<Rightarrow> string \<Rightarrow> (string \<Rightarrow> claim option) result) \<Rightarrow> string list \<Rightarrow> string \<Rightarrow> string \<Rightarrow> CallClaims result" where
  "VerifyCallToken parse order token secret =
     (case parse token secret of
        Inl err \<Rightarrow> Inl (Wrap ''media: verify call token: '' err [])
      | Inr claims \<Rightarrow>
          (case read_claims claims order of
             Some err \<Rightarrow> Inl err
           | None \<Rightarrow>
               Inr \<lparr>cl_TenantID = claim_text claims ''tenantId'', cl_ChannelID = claim_text claims ''channelId'',
                    cl_CallID = claim_text claims ''callId'', cl_UserID = claim_text claims ''userId''\<rparr>))"

section \<open>The handler\<close>

record ('l, 'f, 'p, 'w) media_env =
  me_parse :: "string \<Rightarrow> string \<Rightarrow> (string \<Rightarrow> claim option) result"
  me_order :: "string list"
  me_secret :: string
  me_accept :: "('l, 'f, 'p, 'w) calls \<Rightarrow> bool \<times> ('l, 'f, 'p, 'w) calls"

text \<open>
  What the request ends in. \<open>me_accept\<close> is the websocket upgrade; the calls go on meanwhile, so the
  call may have ended when the operator attaches.
\<close>

datatype media_reply =
    HttpError int string
  | NotUpgraded
  | ClosedNormally string
  | Attached nat nat

definition handleMedia ::
  "('l, 'f, 'p, 'w) media_env \<Rightarrow> string \<Rightarrow> string \<Rightarrow> ('l, 'f, 'p, 'w) calls \<Rightarrow> media_reply \<times> ('l, 'f, 'p, 'w) calls" where
  "handleMedia env token callID s =
     (case VerifyCallToken (me_parse env) (me_order env) token (me_secret env) of
        Inl err \<Rightarrow> (HttpError 401 ''invalid token'', s)
      | Inr claims \<Rightarrow>
          if cl_CallID claims \<noteq> callID then (HttpError 403 ''token does not match this call'', s)
          else if reg_Get (cl_ChannelID claims) (cl_CallID claims) (cs_registry s) = None
          then (HttpError 404 ''call not found'', s)
          else
            (case me_accept env s of
               (False, s1) \<Rightarrow> (NotUpgraded, s1)
             | (True, s1) \<Rightarrow>
                 (case AttachStream (cl_ChannelID claims) (cl_CallID claims) s1 of
                    (None, s2) \<Rightarrow> (ClosedNormally ''call ended'', s2)
                  | (Some (t, i), s2) \<Rightarrow> (Attached t i, s2))))"

section \<open>The three goroutines\<close>

text \<open>
  One operator's session: the stream, the call's outbound audio, the messages written to the websocket
  and the video units handed to the call. \<open>mm_heard\<close> and \<open>mm_seen\<close> record what was put on the stream;
  \<open>mm_over\<close> holds once the handler is past \<open>pumpPeer\<close>; a message read before that may still be handled.
\<close>

record 'f media_session =
  mm_stream :: "'f list stream"
  mm_outbound :: outboundAudio
  mm_sent :: "pcm list"
  mm_video :: "pcm list"
  mm_heard :: "'f list list"
  mm_seen :: "pcm list"
  mm_over :: bool

datatype 'f media_move =
    OperatorMessage pcm
  | PeerAudio bool
  | PeerVideo bool
  | PeerKeyframe bool
  | PeerCancelled
  | CallAudio "'f list"
  | CallVideo pcm
  | CallKeyframe
  | CallCloses
  | CallPlays nat

text \<open>\<open>pumpOperator\<close> for one message; \<open>sendVideo\<close> is the method of the live call.\<close>

definition pumpOperator :: "(pcm \<Rightarrow> goerr option) \<Rightarrow> pcm \<Rightarrow> 'f media_session \<Rightarrow> 'f media_session" where
  "pumpOperator sendVideo raw m =
     (case DecodeFrame raw of
        Inl err \<Rightarrow> m
      | Inr (kind, payload) \<Rightarrow>
          if kind = FrameAudio then m\<lparr>mm_outbound := snd (WriteAudio (mm_stream m) payload (mm_outbound m))\<rparr>
          else if kind = FrameVideo then
            (case WriteVideo sendVideo (mm_stream m) payload of
               Some err \<Rightarrow> m
             | None \<Rightarrow> m\<lparr>mm_video := mm_video m @ [payload]\<rparr>)
          else m)"

text \<open>\<open>write\<close>: a write that fails ends \<open>pumpPeer\<close>; the end is sent without looking at the outcome.\<close>

definition media_write :: "bool \<Rightarrow> 8 word \<Rightarrow> pcm \<Rightarrow> 'f media_session \<Rightarrow> 'f media_session" where
  "media_write ok kind payload m =
     (if ok then m\<lparr>mm_sent := mm_sent m @ [EncodeFrame kind payload]\<rparr> else m\<lparr>mm_over := True\<rparr>)"

definition sendEnd :: "bool \<Rightarrow> 'f media_session \<Rightarrow> 'f media_session" where
  "sendEnd ok m = (media_write ok FrameEnd [] m)\<lparr>mm_over := True\<rparr>"

text \<open>One round of \<open>pumpPeer\<close> with the branch that the select took; a branch is ready when its channel
  holds something or is closed.\<close>

definition pumpPeer :: "'f pcm_ops \<Rightarrow> 'f media_move \<Rightarrow> 'f media_session \<Rightarrow> 'f media_session" where
  "pumpPeer ops branch m =
     (let st = mm_stream m in
      case branch of
        PeerAudio ok \<Rightarrow>
          (case sm_audio st of
             frame # rest \<Rightarrow> media_write ok FrameAudio (encodeS16LE ops frame) (m\<lparr>mm_stream := st\<lparr>sm_audio := rest\<rparr>\<rparr>)
           | [] \<Rightarrow> if sm_chans_closed st then sendEnd ok m else m)
      | PeerVideo ok \<Rightarrow>
          (case sm_video st of
             unit # rest \<Rightarrow> media_write ok FrameVideo unit (m\<lparr>mm_stream := st\<lparr>sm_video := rest\<rparr>\<rparr>)
           | [] \<Rightarrow> if sm_chans_closed st then sendEnd ok m else m)
      | PeerKeyframe ok \<Rightarrow>
          (if 0 < sm_keyframe st then media_write ok FrameKeyframe [] (m\<lparr>mm_stream := st\<lparr>sm_keyframe := sm_keyframe st - 1\<rparr>\<rparr>)
           else if sm_chans_closed st then sendEnd ok m else m)
      | PeerCancelled \<Rightarrow> m\<lparr>mm_over := True\<rparr>
      | _ \<Rightarrow> m)"

text \<open>What the call puts on the stream; a panic of the stream is excluded by the component of the stream.\<close>

definition put_audio :: "'f list \<Rightarrow> 'f media_session \<Rightarrow> 'f media_session" where
  "put_audio frame m =
     (case receiveAudio frame (mm_stream m) of
        None \<Rightarrow> m
      | Some st \<Rightarrow>
          m\<lparr>mm_stream := st, mm_heard := (if sm_audio st = sm_audio (mm_stream m) then mm_heard m else mm_heard m @ [frame])\<rparr>)"

definition put_video :: "pcm \<Rightarrow> 'f media_session \<Rightarrow> 'f media_session" where
  "put_video unit m =
     (case receiveVideo unit (mm_stream m) of
        None \<Rightarrow> m
      | Some st \<Rightarrow>
          m\<lparr>mm_stream := st, mm_seen := (if sm_video st = sm_video (mm_stream m) then mm_seen m else mm_seen m @ [unit])\<rparr>)"

definition on_stream :: "('f list stream \<Rightarrow> 'f list stream option) \<Rightarrow> 'f media_session \<Rightarrow> 'f media_session" where
  "on_stream f m = (case f (mm_stream m) of None \<Rightarrow> m | Some st \<Rightarrow> m\<lparr>mm_stream := st\<rparr>)"

definition media_step :: "'f pcm_ops \<Rightarrow> (pcm \<Rightarrow> goerr option) \<Rightarrow> 'f media_move \<Rightarrow> 'f media_session \<Rightarrow> 'f media_session" where
  "media_step ops sendVideo move m =
     (case move of
        CallAudio frame \<Rightarrow> put_audio frame m
      | CallVideo unit \<Rightarrow> put_video unit m
      | CallKeyframe \<Rightarrow> on_stream requestKeyframe m
      | CallCloses \<Rightarrow> on_stream stream_close m
      | CallPlays n \<Rightarrow> m\<lparr>mm_outbound := snd (audio_Read n (mm_outbound m))\<rparr>
      | OperatorMessage raw \<Rightarrow> pumpOperator sendVideo raw m
      | _ \<Rightarrow> if mm_over m then m else pumpPeer ops move m)"

fun media_run :: "'f pcm_ops \<Rightarrow> (pcm \<Rightarrow> goerr option) \<Rightarrow> 'f media_move list \<Rightarrow> 'f media_session \<Rightarrow> 'f media_session" where
  "media_run ops sendVideo [] m = m"
| "media_run ops sendVideo (move # moves) m = media_run ops sendVideo moves (media_step ops sendVideo move m)"

definition media_start :: "'f list stream \<Rightarrow> outboundAudio \<Rightarrow> 'f media_session" where
  "media_start st o1 =
     \<lparr>mm_stream = st, mm_outbound = o1, mm_sent = [], mm_video = [], mm_heard = [], mm_seen = [], mm_over = False\<rparr>"

section \<open>Frames and samples\<close>

lemma DecodeFrame_simps [simp]: "DecodeFrame (EncodeFrame kind payload) = Inr (kind, payload)"
  by (simp add: DecodeFrame_def EncodeFrame_def)

lemma DecodeFrame_Inr: "DecodeFrame raw = Inr (kind, payload) \<longleftrightarrow> raw = EncodeFrame kind payload"
  by (cases raw) (auto simp: DecodeFrame_def EncodeFrame_def)

text \<open>The samples an operator gets are the ones that the recorder would write.\<close>

lemma encodeS16LE_pcm: "encodeS16LE ops frame = pcm_of ops frame"
  by (simp add: encodeS16LE_def pcm_of_def pcmS16_def)

lemma length_encodeS16LE: "length (encodeS16LE ops frame) = 2 * length frame"
  by (induction frame) (simp_all add: encodeS16LE_def le16_def)

section \<open>Who gets a stream\<close>

lemma read_claims_None: "read_claims claims names = None \<longleftrightarrow> (\<forall>name\<in>set names. claim_text claims name \<noteq> [])"
  by (induction names) simp_all

lemma AttachStream_spec:
  assumes "AttachStream channelID callID s = (Some (t, i), s')"
  shows "reg_Get channelID callID (cs_registry s) = Some t \<and> i = length (cs_streams s) \<and> \<not> tk_finished (cs_tracked s ! t) \<and>
    cs_registry s' = cs_registry s \<and> (t < length (cs_tracked s) \<longrightarrow> tk_Stream (cs_tracked s' ! t) = Some i)"
  using assms
  by (auto simp: AttachStream_def attach_set_def setStream_def with_tracked_def with_stream_def Let_def
      split: option.splits prod.splits if_splits)

lemma VerifyCallToken_spec:
  assumes "VerifyCallToken parse order token secret = Inr cl" "set order = set required_claims"
  shows "\<exists>claims. parse token secret = Inr claims \<and> claims ''channelId'' = Some (ClaimString (cl_ChannelID cl)) \<and>
    claims ''callId'' = Some (ClaimString (cl_CallID cl)) \<and> claims ''tenantId'' = Some (ClaimString (cl_TenantID cl)) \<and>
    cl_ChannelID cl \<noteq> [] \<and> cl_CallID cl \<noteq> [] \<and> cl_TenantID cl \<noteq> []"
proof -
  have said: "claims name = Some (ClaimString (claim_text claims name))" if "claim_text claims name \<noteq> []" for claims name
    using that by (simp add: claim_text_def split: option.splits claim.splits)
  obtain claims where c: "parse token secret = Inr claims" "read_claims claims order = None"
    using assms(1) by (auto simp: VerifyCallToken_def split: sum.splits option.splits)
  have "claim_text claims ''tenantId'' \<noteq> [] \<and> claim_text claims ''channelId'' \<noteq> [] \<and> claim_text claims ''callId'' \<noteq> []"
    using c(2) assms(2) by (simp add: read_claims_None required_claims_def)
  then show ?thesis using assms(1) c said by (auto simp: VerifyCallToken_def)
qed

text \<open>
  C11. An operator gets a stream only with a token that the verifier accepted for the server's secret
  and that names the channel and the call of the request; the stream is a new one, attached to the
  call that the registry holds under exactly those names, and the call was not finished. Without
  such a token or such a call the request is refused before the upgrade with 401, 403 or 404, and
  no call is touched.
\<close>

theorem media_access:
  assumes "handleMedia env token callID s = (reply, s')" "set (me_order env) = set required_claims"
  shows "(\<forall>t i. reply = Attached t i \<longrightarrow>
       (\<exists>claims channelID s1. me_parse env token (me_secret env) = Inr claims \<and>
          claims ''channelId'' = Some (ClaimString channelID) \<and> claims ''callId'' = Some (ClaimString callID) \<and>
          channelID \<noteq> [] \<and> callID \<noteq> [] \<and> reg_Get channelID callID (cs_registry s) \<noteq> None \<and> me_accept env s = (True, s1) \<and>
          reg_Get channelID callID (cs_registry s1) = Some t \<and> i = length (cs_streams s1) \<and> \<not> tk_finished (cs_tracked s1 ! t) \<and>
          (t < length (cs_tracked s1) \<longrightarrow> tk_Stream (cs_tracked s' ! t) = Some i))) \<and>
     (\<forall>status body. reply = HttpError status body \<longrightarrow> s' = s \<and> status \<in> {401, 403, 404}) \<and>
     (\<not> is_ok (me_parse env token (me_secret env)) \<longrightarrow> reply = HttpError 401 ''invalid token'')"
proof (cases "VerifyCallToken (me_parse env) (me_order env) token (me_secret env)")
  case (Inl err)
  then show ?thesis using assms(1) by (auto simp: handleMedia_def)
next
  case (Inr cl)
  obtain claims where claims: "me_parse env token (me_secret env) = Inr claims"
    "claims ''channelId'' = Some (ClaimString (cl_ChannelID cl))" "claims ''callId'' = Some (ClaimString (cl_CallID cl))"
    "cl_ChannelID cl \<noteq> []" "cl_CallID cl \<noteq> []"
    using VerifyCallToken_spec [OF Inr assms(2)] by blast
  show ?thesis
  proof (cases "cl_CallID cl \<noteq> callID \<or> reg_Get (cl_ChannelID cl) (cl_CallID cl) (cs_registry s) = None")
    case True
    then show ?thesis using assms(1) Inr claims by (auto simp: handleMedia_def split: if_splits)
  next
    case False
    obtain ok s1 where acc: "me_accept env s = (ok, s1)" by fastforce
    obtain att s2 where att: "AttachStream (cl_ChannelID cl) (cl_CallID cl) s1 = (att, s2)" by fastforce
    show ?thesis
    proof (cases "ok \<and> (\<exists>t i. att = Some (t, i))")
      case True
      then obtain t i where ti: "att = Some (t, i)" by blast
      then have "reply = Attached t i \<and> s' = s2" using assms(1) Inr False acc att True by (auto simp: handleMedia_def)
      then show ?thesis
        using AttachStream_spec [OF att [unfolded ti]] claims False acc True by auto
    next
      case no: False
      have "reply = NotUpgraded \<or> reply = ClosedNormally ''call ended''"
        using assms(1) Inr False acc att no by (cases ok; cases att) (auto simp: handleMedia_def)
      then show ?thesis using claims(1) by auto
    qed
  qed
qed

section \<open>What the operator hears\<close>

definition payloads :: "8 word \<Rightarrow> pcm list \<Rightarrow> pcm list" where
  "payloads kind sent = map tl (filter (\<lambda>x. hd x = kind) sent)"

lemma payloads_simps [simp]:
  "payloads kind [] = []"
  "payloads kind (sent @ [EncodeFrame k p]) = payloads kind sent @ (if k = kind then [p] else [])"
  by (simp_all add: payloads_def EncodeFrame_def)

definition no_end :: "pcm list \<Rightarrow> bool" where
  "no_end sent = (\<forall>x\<in>set sent. \<exists>k p. DecodeFrame x = Inr (k, p) \<and> k \<in> {FrameAudio, FrameVideo, FrameKeyframe})"

text \<open>
  What was put on the stream is what was sent and what waits, or after the end something lost; an end
  is the last message.
\<close>

definition media_inv :: "'f pcm_ops \<Rightarrow> 'f media_session \<Rightarrow> bool" where
  "media_inv ops m \<longleftrightarrow>
     (\<exists>lost. map (encodeS16LE ops) (mm_heard m) = payloads FrameAudio (mm_sent m) @ lost \<and>
        (\<not> mm_over m \<longrightarrow> lost = map (encodeS16LE ops) (sm_audio (mm_stream m)))) \<and>
     (\<exists>lost. mm_seen m = payloads FrameVideo (mm_sent m) @ lost \<and> (\<not> mm_over m \<longrightarrow> lost = sm_video (mm_stream m))) \<and>
     (if mm_over m then no_end (mm_sent m) \<or> (\<exists>sent. mm_sent m = sent @ [EncodeFrame FrameEnd []] \<and> no_end sent)
      else no_end (mm_sent m))"

lemma no_end_snoc [simp]: "no_end (sent @ [EncodeFrame k p]) \<longleftrightarrow> no_end sent \<and> k \<in> {FrameAudio, FrameVideo, FrameKeyframe}"
  by (auto simp: no_end_def)

lemma media_inv_same:
  "media_inv ops m \<Longrightarrow> sm_audio (mm_stream m') = sm_audio (mm_stream m) \<Longrightarrow> sm_video (mm_stream m') = sm_video (mm_stream m) \<Longrightarrow>
   mm_sent m' = mm_sent m \<Longrightarrow> mm_heard m' = mm_heard m \<Longrightarrow> mm_seen m' = mm_seen m \<Longrightarrow> mm_over m' = mm_over m \<Longrightarrow> media_inv ops m'"
  by (simp add: media_inv_def)

lemma media_inv_over: "media_inv ops m \<Longrightarrow> media_inv ops (m\<lparr>mm_over := True\<rparr>)"
  by (cases "mm_over m") (auto simp: media_inv_def)

lemma media_inv_end:
  assumes "media_inv ops m" "\<not> mm_over m"
  shows "media_inv ops (sendEnd ok m)"
proof (cases ok)
  case True
  then show ?thesis using assms by (auto simp: media_inv_def sendEnd_def media_write_def frame_kinds)
next
  case False
  then show ?thesis using media_inv_over [OF assms(1)] by (simp add: sendEnd_def media_write_def)
qed

lemma media_inv_audio:
  assumes "media_inv ops m" "\<not> mm_over m" "sm_audio (mm_stream m) = frame # rest"
  shows "media_inv ops (media_write ok FrameAudio (encodeS16LE ops frame) (m\<lparr>mm_stream := (mm_stream m)\<lparr>sm_audio := rest\<rparr>\<rparr>))"
  using assms by (auto simp: media_inv_def media_write_def frame_kinds)

lemma media_inv_video:
  assumes "media_inv ops m" "\<not> mm_over m" "sm_video (mm_stream m) = unit # rest"
  shows "media_inv ops (media_write ok FrameVideo unit (m\<lparr>mm_stream := (mm_stream m)\<lparr>sm_video := rest\<rparr>\<rparr>))"
  using assms by (auto simp: media_inv_def media_write_def frame_kinds)

lemma media_inv_keyframe:
  assumes "media_inv ops m" "\<not> mm_over m"
  shows "media_inv ops (media_write ok FrameKeyframe [] (m\<lparr>mm_stream := (mm_stream m)\<lparr>sm_keyframe := n\<rparr>\<rparr>))"
  using assms by (auto simp: media_inv_def media_write_def frame_kinds)

lemma media_inv_pump:
  assumes "media_inv ops m" "\<not> mm_over m"
  shows "media_inv ops (pumpPeer ops branch m)"
  using assms media_inv_end [OF assms] media_inv_audio [OF assms] media_inv_video [OF assms] media_inv_keyframe [OF assms]
    media_inv_over [OF assms(1)]
  by (cases branch) (simp_all add: pumpPeer_def Let_def split: list.split)

lemma media_inv_put:
  assumes "media_inv ops m"
  shows "media_inv ops (put_audio frame m)" "media_inv ops (put_video unit m)"
  using assms
  by (auto simp: media_inv_def put_audio_def put_video_def receiveAudio_def receiveVideo_def try_send_def split: option.split if_splits)

lemma media_inv_operator:
  assumes "media_inv ops m"
  shows "media_inv ops (pumpOperator sendVideo raw m)"
proof -
  have "media_inv ops (m\<lparr>mm_outbound := o1\<rparr>)" "media_inv ops (m\<lparr>mm_video := v\<rparr>)" for o1 v
    by (rule media_inv_same [OF assms]; simp)+
  then show ?thesis using assms by (auto simp: pumpOperator_def split: sum.split option.split)
qed

lemma media_inv_step:
  assumes "media_inv ops m"
  shows "media_inv ops (media_step ops sendVideo move m)"
proof -
  have "media_inv ops (on_stream requestKeyframe m)" "media_inv ops (on_stream stream_close m)"
    by (rule media_inv_same [OF assms];
        auto simp: on_stream_def requestKeyframe_def stream_close_def close_flag_def close_chans_def split: option.split)+
  moreover have "media_inv ops (m\<lparr>mm_outbound := o1\<rparr>)" for o1 by (rule media_inv_same [OF assms]) simp_all
  ultimately show ?thesis
    using assms media_inv_pump [OF assms, of "move"] media_inv_put [OF assms] media_inv_operator [OF assms]
    by (cases "move") (simp_all add: media_step_def)
qed

lemma media_inv_run: "media_inv ops m \<Longrightarrow> media_inv ops (media_run ops sendVideo moves m)"
  by (induction moves arbitrary: m) (simp_all add: media_inv_step)

lemma sent_decodes:
  assumes "media_inv ops m" "x \<in> set (mm_sent m)"
  shows "\<exists>k p. DecodeFrame x = Inr (k, p) \<and> k \<in> {FrameAudio, FrameVideo, FrameKeyframe, FrameEnd}"
  using assms by (fastforce simp: media_inv_def no_end_def split: if_splits)

lemma operator_silent:
  "sm_closed (mm_stream m) \<Longrightarrow> mm_outbound (pumpOperator sendVideo raw m) = mm_outbound m \<and>
     mm_video (pumpOperator sendVideo raw m) = mm_video m"
  by (auto simp: pumpOperator_def WriteAudio_def WriteVideo_def split: sum.split)

lemma run_closed:
  "sm_closed (mm_stream m) \<Longrightarrow> \<forall>move\<in>set moves. \<forall>n. move \<noteq> CallPlays n \<Longrightarrow>
   mm_outbound (media_run ops sendVideo moves m) = mm_outbound m \<and> mm_video (media_run ops sendVideo moves m) = mm_video m"
proof (induction moves arbitrary: m)
  case (Cons move moves)
  let ?m1 = "media_step ops sendVideo move m"
  have "sm_closed (mm_stream ?m1) \<and> mm_outbound ?m1 = mm_outbound m \<and> mm_video ?m1 = mm_video m"
    using Cons.prems operator_silent [OF Cons.prems(1)]
    by (cases "move")
      (auto simp: media_step_def put_audio_def put_video_def on_stream_def receiveAudio_def receiveVideo_def requestKeyframe_def
        stream_close_def close_flag_def close_chans_def pumpPeer_def media_write_def sendEnd_def pumpOperator_def Let_def
        split: option.split list.split sum.split)
  then show ?case using Cons.IH [of ?m1] Cons.prems by simp
qed simp


section \<open>Witnesses\<close>

definition demo_media :: "(string, nat, unit, unit) media_env" where
  "demo_media =
     \<lparr>me_parse = (\<lambda>token secret. Inl (Err EText ''signature is invalid'')), me_order = required_claims, me_secret = ''s'',
      me_accept = (\<lambda>s. (True, s))\<rparr>"

lemma media_access_witness:
  "fst (handleMedia demo_media ''x'' ''1'' (NewManager demo_calls_disk)) = HttpError 401 ''invalid token''"
proof -
  obtain reply s' where run: "handleMedia demo_media ''x'' ''1'' (NewManager demo_calls_disk) = (reply, s')" by fastforce
  have "set (me_order demo_media) = set required_claims" "\<not> is_ok (me_parse demo_media ''x'' (me_secret demo_media))"
    by (simp_all add: demo_media_def)
  then show ?thesis using media_access [OF run] by (simp add: run)
qed

definition demo_moves :: "int media_move list" where
  "demo_moves = [CallVideo [7], PeerVideo True, CallCloses, PeerAudio True]"


end
