(* ===== verification/Adapters.thy ===== *)
theory Adapters
  imports CallCommands Outbound Inbound
begin

text \<open>
  The edge towards the libraries: internal/session/client.go and internal/session/caller.go, which turn
  the whatsmeow and meowcaller clients into what the gateway uses, the opening of devices
  (internal/store/store.go, NewWAClientFactory), fetching from URLs (the end of gateway.go) and the
  media store (internal/media/s3.go). The libraries' methods are arguments, over a world of their own.
\<close>

section \<open>The connection of a client\<close>

definition second_ns :: int where "second_ns = 1000000000"

definition MaxAutoReconnectDelay :: int where "MaxAutoReconnectDelay = 5 * 60 * second_ns"
definition maxAutoReconnectErrors :: int where "maxAutoReconnectErrors = MaxAutoReconnectDelay div (2 * second_ns)"

record whatsmeow_client =
  wc_EnableAutoReconnect :: bool
  wc_InitialAutoReconnect :: bool
  wc_ManualHistorySyncDownload :: bool
  wc_AutoReconnectErrors :: int

definition autoReconnectHook :: "whatsmeow_client \<Rightarrow> bool \<times> whatsmeow_client" where
  "autoReconnectHook c =
     (True,
      if wc_AutoReconnectErrors c > maxAutoReconnectErrors then c\<lparr>wc_AutoReconnectErrors := maxAutoReconnectErrors\<rparr> else c)"

definition ConfigureAutoReconnect :: "whatsmeow_client \<Rightarrow> whatsmeow_client" where
  "ConfigureAutoReconnect c = c\<lparr>wc_EnableAutoReconnect := True, wc_InitialAutoReconnect := True\<rparr>"

definition TakeOverHistory :: "whatsmeow_client \<Rightarrow> whatsmeow_client" where
  "TakeOverHistory c = c\<lparr>wc_ManualHistorySyncDownload := True\<rparr>"

definition TakesOverHistory :: "whatsmeow_client \<Rightarrow> bool" where
  "TakesOverHistory c = wc_ManualHistorySyncDownload c"

section \<open>Phones and LIDs\<close>

definition jid_IsEmpty :: "jid \<Rightarrow> bool" where
  "jid_IsEmpty j = (jid_server j = OtherServer [])"

definition found_jid :: "jid result \<times> 'w \<Rightarrow> (jid \<times> bool) result \<times> 'w" where
  "found_jid r =
     (case r of
        (Inl err, w) \<Rightarrow> (Inl err, w)
      | (Inr j, w) \<Rightarrow> (Inr (j, \<not> jid_IsEmpty j), w))"

definition PNForLID :: "(jid \<Rightarrow> 'w \<Rightarrow> jid result \<times> 'w) \<Rightarrow> jid \<Rightarrow> 'w \<Rightarrow> (jid \<times> bool) result \<times> 'w" where
  "PNForLID getPNForLID lid w = found_jid (getPNForLID lid w)"

definition KnownLIDForPN :: "(jid \<Rightarrow> 'w \<Rightarrow> jid result \<times> 'w) \<Rightarrow> jid \<Rightarrow> 'w \<Rightarrow> (jid \<times> bool) result \<times> 'w" where
  "KnownLIDForPN getLIDForPN pn w = found_jid (getLIDForPN pn w)"

text \<open>\<open>getUserInfo\<close> answers with a map; the LID of a missing entry is the zero JID.\<close>

definition LIDForPN ::
  "(jid \<Rightarrow> 'w \<Rightarrow> jid result \<times> 'w) \<Rightarrow> (jid list \<Rightarrow> 'w \<Rightarrow> (jid \<Rightarrow> jid option) result \<times> 'w) \<Rightarrow> jid \<Rightarrow> 'w \<Rightarrow> (jid \<times> bool) result \<times> 'w" where
  "LIDForPN getLIDForPN getUserInfo pn w =
     (case getLIDForPN pn w of
        (Inl err, w1) \<Rightarrow> (Inl err, w1)
      | (Inr lid, w1) \<Rightarrow>
          if \<not> jid_IsEmpty lid then (Inr (lid, True), w1)
          else
            (case getUserInfo [pn] w1 of
               (Inl err, w2) \<Rightarrow> (Inl err, w2)
             | (Inr info, w2) \<Rightarrow>
                 (let lid' = (case info pn of Some l \<Rightarrow> l | None \<Rightarrow> empty_jid) in (Inr (lid', \<not> jid_IsEmpty lid'), w2))))"

section \<open>Sending\<close>

record SendRequestExtra =
  sx_ID :: string
  sx_AdditionalNodes :: "node list option"

definition sendExtra :: "string \<Rightarrow> node list \<Rightarrow> SendRequestExtra" where
  "sendExtra sid nodes = \<lparr>sx_ID = sid, sx_AdditionalNodes = (if nodes \<noteq> [] then Some nodes else None)\<rparr>"

section \<open>Calls\<close>

text \<open>The types of meowcaller that the adapter reads; its phases are an open enumeration.\<close>

datatype CallPhase =
    CallPhaseIdle | CallPhaseCalling | CallPhaseRinging | CallPhaseConnecting | CallPhaseActive | CallPhaseEnded
  | CallPhaseWaitingRoom | CallPhaseOther int

fun phaseFrom :: "CallPhase \<Rightarrow> Phase" where
  "phaseFrom CallPhaseIdle = PhaseIdle"
| "phaseFrom CallPhaseCalling = PhaseCalling"
| "phaseFrom CallPhaseRinging = PhaseRinging"
| "phaseFrom CallPhaseConnecting = PhaseConnecting"
| "phaseFrom CallPhaseActive = PhaseActive"
| "phaseFrom CallPhaseEnded = PhaseEnded"
| "phaseFrom CallPhaseWaitingRoom = PhaseWaitingRoom"
| "phaseFrom (CallPhaseOther n) = PhaseIdle"

definition jidString :: "walib \<Rightarrow> jid \<Rightarrow> string" where
  "jidString lib j = (if jid_IsEmpty j then [] else jid_string lib j)"

record meow_reaction =
  mr_Emoji :: string
  mr_ParticipantID :: string
  mr_Sender :: jid
  mr_Removed :: bool

record meow_participant =
  mq_JID :: jid
  mq_PN :: jid
  mq_State :: string
  mq_HandRaised :: bool

record meow_user =
  mu_JID :: jid
  mu_PN :: jid
  mu_State :: string

record meow_room =
  mw_Enabled :: bool
  mw_IsAdmin :: bool
  mw_InWaitingRoom :: bool
  mw_TransactionID :: nat
  mw_Users :: "meow_user list"

definition videoStateFrom :: "VideoState \<Rightarrow> VideoState" where
  "videoStateFrom v = \<lparr>vs_Active = vs_Active v, vs_Upgrade = vs_Upgrade v, vs_Orientation = vs_Orientation v, vs_Raw = vs_Raw v\<rparr>"

definition reactionFrom :: "walib \<Rightarrow> meow_reaction \<Rightarrow> Reaction" where
  "reactionFrom lib r =
     \<lparr>re_Emoji = mr_Emoji r, re_ParticipantID = mr_ParticipantID r, re_Sender = jidString lib (mr_Sender r), re_Removed = mr_Removed r\<rparr>"

definition participantFrom :: "walib \<Rightarrow> meow_participant \<Rightarrow> CallParticipant" where
  "participantFrom lib p =
     \<lparr>cp_JID = jidString lib (mq_JID p), cp_PN = jidString lib (mq_PN p), cp_State = mq_State p, cp_HandRaised = mq_HandRaised p\<rparr>"

definition groupStateFrom :: "walib \<Rightarrow> nat \<times> meow_participant list \<Rightarrow> GroupState" where
  "groupStateFrom lib g = \<lparr>gs_TransactionID = fst g, gs_Participants = map (participantFrom lib) (snd g)\<rparr>"

definition waitingUserFrom :: "walib \<Rightarrow> meow_user \<Rightarrow> WaitingRoomUser" where
  "waitingUserFrom lib u = \<lparr>wu_JID = jidString lib (mu_JID u), wu_PN = jidString lib (mu_PN u), wu_State = mu_State u\<rparr>"

definition waitingRoomFrom :: "walib \<Rightarrow> meow_room \<Rightarrow> WaitingRoom" where
  "waitingRoomFrom lib w =
     \<lparr>wr_Enabled = mw_Enabled w, wr_IsAdmin = mw_IsAdmin w, wr_InWaitingRoom = mw_InWaitingRoom w,
      wr_TransactionID = mw_TransactionID w, wr_Users = map (waitingUserFrom lib) (mw_Users w)\<rparr>"

definition handStateFrom :: "walib \<Rightarrow> jid \<times> bool \<Rightarrow> HandState" where
  "handStateFrom lib h = \<lparr>hs_Participant = jidString lib (fst h), hs_Raised = snd h\<rparr>"

definition screenShareFrom :: "walib \<Rightarrow> jid \<times> bool \<times> nat \<Rightarrow> ScreenShare" where
  "screenShareFrom lib s = \<lparr>ss_Participant = jidString lib (fst s), ss_Active = fst (snd s), ss_Version = snd (snd s)\<rparr>"

text \<open>The client of meowcaller with the options each method takes, and the caller of the call commands.\<close>

record meow_group_options =
  mg_GroupJID :: string
  mg_Video :: bool

record meow_preview =
  mp_Token :: string
  mp_Video :: bool
  mp_ApprovalRequired :: bool
  mp_IsAdmin :: bool
  mp_Creator :: jid
  mp_CreatorPhoneNumber :: jid

record ('l, 'w) meow_client =
  mc_CallWithOptions :: "string \<Rightarrow> bool \<Rightarrow> 'w \<Rightarrow> 'l result \<times> 'w"
  mc_GroupCallWithOptions :: "string list \<Rightarrow> meow_group_options \<Rightarrow> 'w \<Rightarrow> 'l result \<times> 'w"
  mc_GroupCallByIDWithOptions :: "string \<Rightarrow> meow_group_options \<Rightarrow> 'w \<Rightarrow> 'l result \<times> 'w"
  mc_CreateCallLink :: "bool \<Rightarrow> 'w \<Rightarrow> CallLink result \<times> 'w"
  mc_PreviewCallLink :: "string \<Rightarrow> bool \<Rightarrow> 'w \<Rightarrow> meow_preview result \<times> 'w"
  mc_JoinCallLink :: "string \<Rightarrow> bool \<Rightarrow> 'w \<Rightarrow> 'l result \<times> 'w"

definition adapt_PreviewCallLink ::
  "walib \<Rightarrow> ('l, 'w) meow_client \<Rightarrow> string \<Rightarrow> bool \<Rightarrow> 'w \<Rightarrow> LinkPreview result \<times> 'w" where
  "adapt_PreviewCallLink lib a tokenOrURL video w =
     (case mc_PreviewCallLink a tokenOrURL video w of
        (Inl err, w1) \<Rightarrow> (Inl err, w1)
      | (Inr p, w1) \<Rightarrow>
          (Inr \<lparr>lp_Token = mp_Token p, lp_Video = mp_Video p, lp_ApprovalRequired = mp_ApprovalRequired p,
             lp_IsAdmin = mp_IsAdmin p, lp_Creator = jidString lib (mp_Creator p),
             lp_CreatorPN = jidString lib (mp_CreatorPhoneNumber p)\<rparr>, w1))"

definition adapt_CreateCallLink :: "('l, 'w) meow_client \<Rightarrow> bool \<Rightarrow> 'w \<Rightarrow> CallLink result \<times> 'w" where
  "adapt_CreateCallLink a video w =
     (case mc_CreateCallLink a video w of
        (Inl err, w1) \<Rightarrow> (Inl err, w1)
      | (Inr link, w1) \<Rightarrow> (Inr \<lparr>cl_Token = cl_Token link, cl_URL = cl_URL link, cl_Video = cl_Video link\<rparr>, w1))"

definition callerAdapter :: "walib \<Rightarrow> ('l, 'w) meow_client \<Rightarrow> ('l, 'w) caller" where
  "callerAdapter lib a =
     \<lparr>ca_Call = mc_CallWithOptions a,
      ca_GroupCall = (\<lambda>targets opts. mc_GroupCallWithOptions a targets \<lparr>mg_GroupJID = go_GroupJID opts, mg_Video = go_Video opts\<rparr>),
      ca_GroupCallByID = (\<lambda>groupID opts. mc_GroupCallByIDWithOptions a groupID \<lparr>mg_GroupJID = [], mg_Video = go_Video opts\<rparr>),
      ca_CreateCallLink = adapt_CreateCallLink a,
      ca_PreviewCallLink = adapt_PreviewCallLink lib a,
      ca_JoinCallLink = mc_JoinCallLink a\<rparr>"

text \<open>A live call: one method of the library for each operation; a screen share is started with an identifier or without.\<close>

record ('l, 'w) meow_call =
  ml_ID :: "'l \<Rightarrow> string"
  ml_Peer :: "'l \<Rightarrow> jid"
  ml_GroupState :: "'l \<Rightarrow> (nat \<times> meow_participant list) \<times> bool"
  ml_Answer :: "'l \<Rightarrow> 'w \<Rightarrow> goerr option \<times> 'w"
  ml_Reject :: "'l \<Rightarrow> 'w \<Rightarrow> goerr option \<times> 'w"
  ml_Hangup :: "'l \<Rightarrow> 'w \<Rightarrow> goerr option \<times> 'w"
  ml_StartVideo :: "'l \<Rightarrow> 'w \<Rightarrow> goerr option \<times> 'w"
  ml_AcceptVideo :: "'l \<Rightarrow> 'w \<Rightarrow> goerr option \<times> 'w"
  ml_StopVideo :: "'l \<Rightarrow> 'w \<Rightarrow> goerr option \<times> 'w"
  ml_SetVideoEnabled :: "bool \<Rightarrow> 'l \<Rightarrow> 'w \<Rightarrow> goerr option \<times> 'w"
  ml_SetVideoOrientation :: "int \<Rightarrow> 'l \<Rightarrow> 'w \<Rightarrow> goerr option \<times> 'w"
  ml_SendReaction :: "string \<Rightarrow> 'l \<Rightarrow> 'w \<Rightarrow> goerr option \<times> 'w"
  ml_SetHandRaised :: "bool \<Rightarrow> 'l \<Rightarrow> 'w \<Rightarrow> goerr option \<times> 'w"
  ml_StartScreenShare :: "32 word option \<Rightarrow> 'l \<Rightarrow> 'w \<Rightarrow> goerr option \<times> 'w"
  ml_StopScreenShare :: "'l \<Rightarrow> 'w \<Rightarrow> goerr option \<times> 'w"
  ml_AddParticipant :: "string \<Rightarrow> 'l \<Rightarrow> 'w \<Rightarrow> goerr option \<times> 'w"
  ml_RingParticipant :: "string \<Rightarrow> 'l \<Rightarrow> 'w \<Rightarrow> goerr option \<times> 'w"
  ml_SetApprovalRequired :: "bool \<Rightarrow> 'l \<Rightarrow> 'w \<Rightarrow> goerr option \<times> 'w"
  ml_AdmitParticipant :: "string \<Rightarrow> 'l \<Rightarrow> 'w \<Rightarrow> goerr option \<times> 'w"
  ml_DenyParticipant :: "string \<Rightarrow> 'l \<Rightarrow> 'w \<Rightarrow> goerr option \<times> 'w"

definition call_Peer :: "walib \<Rightarrow> ('l, 'w) meow_call \<Rightarrow> 'l \<Rightarrow> string" where
  "call_Peer lib c l = jidString lib (ml_Peer c l)"

definition call_IsGroup :: "('l, 'w) meow_call \<Rightarrow> 'l \<Rightarrow> bool" where
  "call_IsGroup c l = snd (ml_GroupState c l)"

text \<open>The operations of \<open>liveCallAdapter\<close> as the call commands name them; they start a share without an identifier.\<close>

fun liveCallAdapter :: "('l, 'w) meow_call \<Rightarrow> live_op \<Rightarrow> 'l \<Rightarrow> 'w \<Rightarrow> goerr option \<times> 'w" where
  "liveCallAdapter c LiveAnswer = ml_Answer c"
| "liveCallAdapter c LiveReject = ml_Reject c"
| "liveCallAdapter c LiveHangup = ml_Hangup c"
| "liveCallAdapter c StartVideo = ml_StartVideo c"
| "liveCallAdapter c AcceptVideo = ml_AcceptVideo c"
| "liveCallAdapter c StopVideo = ml_StopVideo c"
| "liveCallAdapter c (SetVideoEnabled b) = ml_SetVideoEnabled c b"
| "liveCallAdapter c (SetVideoOrientation n) = ml_SetVideoOrientation c n"
| "liveCallAdapter c (SendReaction emoji) = ml_SendReaction c emoji"
| "liveCallAdapter c (SetHandRaised b) = ml_SetHandRaised c b"
| "liveCallAdapter c StartScreenShare = ml_StartScreenShare c None"
| "liveCallAdapter c StopScreenShare = ml_StopScreenShare c"
| "liveCallAdapter c (AddParticipant target) = ml_AddParticipant c target"
| "liveCallAdapter c (RingParticipant target) = ml_RingParticipant c target"
| "liveCallAdapter c (SetApprovalRequired b) = ml_SetApprovalRequired c b"
| "liveCallAdapter c (AdmitParticipant user) = ml_AdmitParticipant c user"
| "liveCallAdapter c (DenyParticipant user) = ml_DenyParticipant c user"

section \<open>Devices\<close>

definition DeviceFor :: "('w \<Rightarrow> 'd \<times> 'w) \<Rightarrow> (jid \<Rightarrow> 'w \<Rightarrow> 'd option result \<times> 'w) \<Rightarrow> jid option \<Rightarrow> 'w \<Rightarrow> 'd option result \<times> 'w" where
  "DeviceFor newDevice getDevice j w =
     (case j of
        None \<Rightarrow> (case newDevice w of (d, w1) \<Rightarrow> (Inr (Some d), w1))
      | Some k \<Rightarrow> getDevice k w)"

text \<open>The client that is made for a channel, given the device; \<open>newClient\<close> is the library's constructor.\<close>

definition NewWAClientFactory ::
  "('w \<Rightarrow> 'd \<times> 'w) \<Rightarrow> (jid \<Rightarrow> 'w \<Rightarrow> 'd option result \<times> 'w) \<Rightarrow> walib \<Rightarrow> ('d \<Rightarrow> whatsmeow_client) \<Rightarrow> string \<Rightarrow> jid option \<Rightarrow>
     'w \<Rightarrow> whatsmeow_client result \<times> 'w" where
  "NewWAClientFactory newDevice getDevice lib newClient channelID j w =
     (case DeviceFor newDevice getDevice j w of
        (Inl err, w1) \<Rightarrow> (Inl (Wrap (''gateway: resolve device for channel '' @ channelID @ '': '') err []), w1)
      | (Inr None, w1) \<Rightarrow>
          (Inl (Err EText (''gateway: no stored device for channel '' @ channelID @ '' (jid '' @
             (case j of Some k \<Rightarrow> jid_string lib k | None \<Rightarrow> ''<nil>'') @ '')'')), w1)
      | (Inr (Some d), w1) \<Rightarrow> (Inr (ConfigureAutoReconnect (newClient d)), w1))"

section \<open>Fetching\<close>

text \<open>
  An answer of the HTTP client: its status, the bytes of its body that arrive, and the error that ends
  them when the body breaks off (the error follows the last byte). \<open>io.LimitReader\<close> passes on at most
  its limit and then reports the end. The number says how many bytes were read.
\<close>

record http_answer =
  ha_StatusCode :: int
  ha_Body :: string
  ha_broken :: "goerr option"

definition groupPhotoFetchTimeout :: int where "groupPhotoFetchTimeout = 20 * second_ns"
definition maxGroupPhotoBytes :: nat where "maxGroupPhotoBytes = 8 * 1048576"

definition read_all :: "nat option \<Rightarrow> http_answer \<Rightarrow> string result \<times> nat" where
  "read_all limit resp =
     (let body = ha_Body resp;
          allowed = (case limit of None \<Rightarrow> length body | Some l \<Rightarrow> min l (length body)) in
      case ha_broken resp of
        Some err \<Rightarrow>
          if (case limit of None \<Rightarrow> True | Some l \<Rightarrow> length body < l) then (Inl err, allowed) else (Inr (take allowed body), allowed)
      | None \<Rightarrow> (Inr (take allowed body), allowed))"

definition fetchURL ::
  "(string \<Rightarrow> goerr option) \<Rightarrow> (string \<Rightarrow> http_answer result) \<Rightarrow> string \<Rightarrow> nat option \<Rightarrow> string result \<times> nat" where
  "fetchURL bad_url do url limit =
     (case bad_url url of
        Some err \<Rightarrow> (Inl (Wrap ''gateway: build media fetch request: '' err []), 0)
      | None \<Rightarrow>
          (case do url of
             Inl err \<Rightarrow> (Inl (Wrap (''gateway: fetch media '' @ url @ '': '') err []), 0)
           | Inr resp \<Rightarrow>
               if ha_StatusCode resp \<noteq> 200
               then (Inl (Err EText (''gateway: fetch media '' @ url @ '': unexpected status '' @ show_int (ha_StatusCode resp))), 0)
               else
                 (case read_all (map_option (\<lambda>l. l + 1) limit) resp of
                    (Inl err, n) \<Rightarrow> (Inl (Wrap (''gateway: read media '' @ url @ '': '') err []), n)
                  | (Inr data, n) \<Rightarrow>
                      (case limit of
                         Some l \<Rightarrow>
                           if l < length data
                           then (Inl (Err EText (''gateway: media '' @ url @ '' exceeds '' @ show_int (int l) @ '' bytes'')), n)
                           else (Inr data, n)
                       | None \<Rightarrow> (Inr data, n)))))"

definition fetchMediaURL :: "(string \<Rightarrow> goerr option) \<Rightarrow> (string \<Rightarrow> http_answer result) \<Rightarrow> string \<Rightarrow> string result \<times> nat" where
  "fetchMediaURL bad_url do url = fetchURL bad_url do url None"

definition fetchGroupPhoto :: "(string \<Rightarrow> goerr option) \<Rightarrow> (string \<Rightarrow> http_answer result) \<Rightarrow> string \<Rightarrow> string result \<times> nat" where
  "fetchGroupPhoto bad_url do url = fetchURL bad_url do url (Some maxGroupPhotoBytes)"

section \<open>The media store\<close>

text \<open>An upload; \<open>putObject\<close> is the library's, with bucket, key, type and bytes.\<close>

record 'w s3_store =
  s3_putObject :: "string \<Rightarrow> string \<Rightarrow> string \<Rightarrow> string \<Rightarrow> 'w \<Rightarrow> goerr option \<times> 'w"
  s3_bucket :: string

definition s3_Put :: "'w s3_store \<Rightarrow> string \<Rightarrow> string \<Rightarrow> string \<Rightarrow> 'w \<Rightarrow> goerr option \<times> 'w" where
  "s3_Put s key mime data w =
     (case s3_putObject s (s3_bucket s) key mime data w of
        (Some err, w1) \<Rightarrow> (Some (Wrap (''media: put object '' @ key @ '': '') err []), w1)
      | (None, w1) \<Rightarrow> (None, w1))"

definition s3_PutStream :: "'w s3_store \<Rightarrow> string \<Rightarrow> string \<Rightarrow> bool \<times> string \<Rightarrow> 'w \<Rightarrow> goerr option \<times> 'w" where
  "s3_PutStream s key mime body w =
     (if \<not> fst body then (Some (Err EText (''media: put stream '' @ key @ '': body is not seekable'')), w)
      else
        (case s3_putObject s (s3_bucket s) key mime (snd body) w of
           (Some err, w1) \<Rightarrow> (Some (Wrap (''media: put stream '' @ key @ '': '') err []), w1)
         | (None, w1) \<Rightarrow> (None, w1)))"

section \<open>Lemmas\<close>

text \<open>
  The delay before the next attempt is the count of failures times two seconds (the library's back-off);
  with the hook after every failure it never grows beyond the maximum, and no failure ends the attempts.
\<close>

lemma hook_bounds:
  "fst (autoReconnectHook c)" "wc_AutoReconnectErrors (snd (autoReconnectHook c)) = min (wc_AutoReconnectErrors c) maxAutoReconnectErrors"
  by (simp_all add: autoReconnectHook_def)

lemma reconnect_delay_bounded:
  fixes errors :: "nat \<Rightarrow> int"
  assumes "errors 0 = 0"
    and "\<And>n. errors (Suc n) = wc_AutoReconnectErrors (snd (autoReconnectHook (c\<lparr>wc_AutoReconnectErrors := errors n + 1\<rparr>)))"
  shows "0 \<le> errors n \<and> errors n * (2 * second_ns) \<le> MaxAutoReconnectDelay"
proof -
  have "0 \<le> errors n \<and> errors n \<le> maxAutoReconnectErrors"
  proof (induction n)
    case 0
    then show ?case using assms(1) by (simp add: maxAutoReconnectErrors_def MaxAutoReconnectDelay_def second_ns_def)
  next
    case (Suc n)
    then show ?case
      using assms(2) [of n] hook_bounds(2) [of "c\<lparr>wc_AutoReconnectErrors := errors n + 1\<rparr>"]
      by (simp add: maxAutoReconnectErrors_def MaxAutoReconnectDelay_def second_ns_def)
  qed
  then show ?thesis by (simp add: maxAutoReconnectErrors_def MaxAutoReconnectDelay_def second_ns_def)
qed

text \<open>A LID that is reported as found is one, and a known LID is found without asking WhatsApp.\<close>

lemma lid_found:
  assumes "LIDForPN get info pn w = (Inr (lid, True), w')"
  shows "\<not> jid_IsEmpty lid"
    "(\<exists>w1. KnownLIDForPN get pn w = (Inr (lid, True), w1) \<and> w' = w1) \<or>
     (\<exists>l w1 i. KnownLIDForPN get pn w = (Inr (l, False), w1) \<and> info [pn] w1 = (Inr i, w') \<and> i pn = Some lid)"
proof -
  show "\<not> jid_IsEmpty lid" using assms by (auto simp: LIDForPN_def Let_def split: prod.splits sum.splits if_splits)
  then show "(\<exists>w1. KnownLIDForPN get pn w = (Inr (lid, True), w1) \<and> w' = w1) \<or>
     (\<exists>l w1 i. KnownLIDForPN get pn w = (Inr (l, False), w1) \<and> info [pn] w1 = (Inr i, w') \<and> i pn = Some lid)"
    using assms
    by (auto simp: LIDForPN_def KnownLIDForPN_def found_jid_def Let_def jid_IsEmpty_def empty_jid_def
        split: prod.splits sum.splits if_splits option.splits)
qed

text \<open>The seven phases keep their meaning, an unknown one is shown as idle.\<close>

lemma phaseFrom_faithful:
  "phaseFrom p = phaseFrom q \<Longrightarrow> p = q \<or> phaseFrom p = PhaseIdle" "phaseFrom p = PhaseEnded \<longleftrightarrow> p = CallPhaseEnded"
  by (cases p; cases q; simp)+

lemma groupStateFrom_participants:
  "length (gs_Participants (groupStateFrom lib g)) = length (snd g)"
  "i < length (snd g) \<Longrightarrow> cp_State (gs_Participants (groupStateFrom lib g) ! i) = mq_State (snd g ! i)"
  by (simp_all add: groupStateFrom_def participantFrom_def)

text \<open>Every operation of a call command is the one method of the live call with the command's argument.\<close>

lemma caller_previews:
  assumes "ca_PreviewCallLink (callerAdapter lib a) token video w = (Inr p, w')"
  shows "\<exists>q. mc_PreviewCallLink a token video w = (Inr q, w') \<and> lp_Token p = mp_Token q \<and>
    (jid_IsEmpty (mp_Creator q) \<longrightarrow> lp_Creator p = [])"
  using assms by (auto simp: callerAdapter_def adapt_PreviewCallLink_def jidString_def split: prod.splits sum.splits)

lemma factory_reconnects:
  assumes "NewWAClientFactory newDevice getDevice lib newClient channelID j w = (Inr c, w')"
  shows "wc_EnableAutoReconnect c" "wc_InitialAutoReconnect c"
  using assms by (auto simp: NewWAClientFactory_def ConfigureAutoReconnect_def split: prod.splits sum.splits option.splits)

lemma read_all_unlimited: "read_all None resp = (r, n) \<Longrightarrow> r = Inr data \<Longrightarrow> data = ha_Body resp \<and> ha_broken resp = None"
  by (auto simp: read_all_def Let_def split: option.splits)

lemma read_all_limited:
  "read_all (Some (Suc l)) resp = (r, n) \<Longrightarrow>
   n \<le> Suc l \<and> (r = Inr data \<and> length data \<le> l \<longrightarrow> data = ha_Body resp \<and> ha_broken resp = None)"
  by (auto simp: read_all_def Let_def min_def split: option.splits if_splits)

text \<open>
  What is fetched is the whole body of a successful answer. With a limit no longer body is ever
  returned, a body of exactly the limit still is, and never more than one byte beyond it is read.
\<close>

theorem fetch_bounded:
  assumes "fetchURL bad_url do url limit = (r, n)"
  shows "(\<forall>data. r = Inr data \<longrightarrow>
       (\<exists>resp. do url = Inr resp \<and> ha_StatusCode resp = 200 \<and> data = ha_Body resp \<and> ha_broken resp = None) \<and>
       (\<forall>l. limit = Some l \<longrightarrow> length data \<le> l)) \<and>
     (\<forall>l. limit = Some l \<longrightarrow> n \<le> l + 1) \<and>
     (\<forall>resp l. bad_url url = None \<and> do url = Inr resp \<and> ha_StatusCode resp = 200 \<and> ha_broken resp = None \<and>
        limit = Some l \<longrightarrow> is_ok r = (length (ha_Body resp) \<le> l))"
proof (cases "bad_url url = None \<and> (\<exists>resp. do url = Inr resp \<and> ha_StatusCode resp = 200)")
  case True
  then obtain resp where resp: "bad_url url = None" "do url = Inr resp" "ha_StatusCode resp = 200" by blast
  obtain q k where ra: "read_all (map_option (\<lambda>l. l + 1) limit) resp = (q, k)" by fastforce
  have n: "n = k" and data: "r = Inr data \<Longrightarrow> q = Inr data \<and> (\<forall>l. limit = Some l \<longrightarrow> length data \<le> l)" for data
    using assms resp ra by (auto simp: fetchURL_def split: sum.splits option.splits if_splits)
  have "n \<le> l + 1" if "limit = Some l" for l using read_all_limited [of l resp q k] ra that n by simp
  moreover have "data = ha_Body resp \<and> ha_broken resp = None \<and> (\<forall>l. limit = Some l \<longrightarrow> length data \<le> l)" if "r = Inr data" for data
    using data [OF that] ra read_all_unlimited [of resp q k data] read_all_limited [of _ resp q k data] by (cases limit) auto
  moreover have "is_ok r = (length (ha_Body resp) \<le> l)" if "ha_broken resp = None" "limit = Some l" for l
    using assms resp that by (cases "l < length (ha_Body resp)") (auto simp: fetchURL_def read_all_def Let_def)
  ultimately show ?thesis using resp by auto
next
  case False
  then show ?thesis using assms by (auto simp: fetchURL_def split: sum.splits option.splits)
qed

lemma PutStream_uploads:
  "s3_PutStream s key mime body w = (None, w') \<Longrightarrow> fst body \<and> s3_putObject s (s3_bucket s) key mime (snd body) w = (None, w')"
  by (auto simp: s3_PutStream_def split: if_splits prod.splits option.splits)

end
