(* ===== verification/HistoryMessage.thy ===== *)
theory HistoryMessage
  imports HistoryTranslate Inbound
begin

text \<open>
  One message inside a translated history chunk: internal/history/message.go. The chunk states what
  concerns the whole chat once, so a message is the JSON object of its event without those fields.
  Encoding an event and reading and writing an object are encoding/json.
\<close>

record 'j json_codec =
  jc_Marshal :: "InboundEvent \<Rightarrow> string result"
  jc_Unmarshal :: "string \<Rightarrow> (string \<Rightarrow> 'j option) result"
  jc_MarshalFields :: "(string \<Rightarrow> 'j option) \<Rightarrow> string result"

definition chatLevelFields :: "string list" where
  "chatLevelFields = [''phoneNumberId'', ''from'', ''senderPn'', ''senderLid'', ''profileName'']"

definition messageOf :: "'j json_codec \<Rightarrow> InboundEvent \<Rightarrow> string result" where
  "messageOf jc evt =
     (case jc_Marshal jc evt of
        Inl err \<Rightarrow> Inl (Wrap (''history: encode message '' @ iv_ProviderMessageID evt @ '': '') err [])
      | Inr encoded \<Rightarrow>
          (case jc_Unmarshal jc encoded of
             Inl err \<Rightarrow> Inl (Wrap (''history: decode message '' @ iv_ProviderMessageID evt @ '': '') err [])
           | Inr obj \<Rightarrow> jc_MarshalFields jc (foldl (\<lambda>m nm. m(nm := None)) obj chatLevelFields)))"

lemma foldl_delete: "foldl (\<lambda>m nm. m(nm := None)) m names k = (if k \<in> set names then None else m k)"
  by (induction names arbitrary: m) auto

text \<open>
  Reading a message of a chunk back gives the fields of its event, all of them and unchanged, without
  the ones that the chat states.
\<close>

lemma messageOf_fields:
  assumes "messageOf jc evt = Inr raw"
    and "\<And>obj text. jc_MarshalFields jc obj = Inr text \<Longrightarrow> jc_Unmarshal jc text = Inr obj"
  shows "\<exists>encoded obj. jc_Marshal jc evt = Inr encoded \<and> jc_Unmarshal jc encoded = Inr obj \<and>
    jc_Unmarshal jc raw = Inr (\<lambda>name. if name \<in> set chatLevelFields then None else obj name)"
proof -
  obtain encoded obj where "jc_Marshal jc evt = Inr encoded" "jc_Unmarshal jc encoded = Inr obj"
    "jc_MarshalFields jc (foldl (\<lambda>m nm. m(nm := None)) obj chatLevelFields) = Inr raw"
    using assms(1) by (auto simp: messageOf_def split: sum.splits)
  moreover have "foldl (\<lambda>m nm. m(nm := None)) obj chatLevelFields =
      (\<lambda>name. if name \<in> set chatLevelFields then None else obj name)"
    by (rule ext) (rule foldl_delete)
  ultimately show ?thesis using assms(2) by force
qed

text \<open>A chunk that is translated with this encoder holds one message for each event that was built.\<close>

lemma withMessages_encoded:
  assumes "td_encode td = messageOf jc" "withMessages_from td chat evts = Inr out"
  shows "\<exists>raws. hc_messages out = hc_messages chat @ raws \<and> list_all2 (\<lambda>evt raw. messageOf jc evt = Inr raw) evts raws"
  using assms(2)
proof (induction evts arbitrary: chat)
  case (Cons evt rest)
  then obtain raw where raw: "messageOf jc evt = Inr raw" using assms(1) by (auto simp: Let_def split: sum.splits)
  then show ?case using Cons.prems Cons.IH assms(1) by (fastforce simp: Let_def split: if_splits)
qed simp

end
